(* ===== verification/Prelude.thy ===== *)
theory Prelude
  imports Main "HOL-Library.Word" "HOL-Library.Multiset" "HOL-Library.Char_ord"
begin

unbundle bit_operations_syntax

section \<open>Prelude: C integers, hash tables, sorting and searching\<close>

text \<open>
  The vocabulary shared by the component theories.

  \<^item> \<open>cint\<close> reads an unbounded integer back at a signed machine width, \<open>cuint\<close> at an
    unsigned one; they are used wherever the C code stores a result whose width matters.
  \<^item> A \<open>uthash\<close> table (\<open>deps/uthash.h\<close>) is the list of its entries in insertion order,
    which is the order in which \<open>HASH_ITER\<close> and the \<open>hh.next\<close> loops of the daemon visit
    them. The locale \<open>hash_table\<close> is the contract the daemon relies on; every table of the
    server is an instance of it.
  \<^item> \<open>qsort\<close> and \<open>bsearch\<close> of the C library, with the locale \<open>comparator\<close> stating what
    a comparison function has to promise before sorting and searching are meaningful.
\<close>

named_theorems cstring_simps \<open>evaluation rules for the C string routines\<close>
named_theorems table_simps \<open>rewriting rules for the uthash tables\<close>
named_theorems frame_simps \<open>fields an operation leaves alone\<close>
named_theorems inv_rules \<open>preservation rules of the state invariants\<close>

subsection \<open>Machine integers\<close>

type_synonym flags = "32 word"

text \<open>An integer stored into a signed integer of \<open>w\<close> bits (two's complement).\<close>

definition cint :: "nat \<Rightarrow> int \<Rightarrow> int" where
  "cint w x = (x + 2 ^ (w - 1)) mod 2 ^ w - 2 ^ (w - 1)"

text \<open>An integer stored into an unsigned integer of \<open>w\<close> bits.\<close>

definition cuint :: "nat \<Rightarrow> int \<Rightarrow> int" where
  "cuint w x = x mod 2 ^ w"

abbreviation int32 :: "int \<Rightarrow> int" where "int32 \<equiv> cint 32"
abbreviation int64 :: "int \<Rightarrow> int" where "int64 \<equiv> cint 64"
abbreviation uint32 :: "int \<Rightarrow> int" where "uint32 \<equiv> cuint 32"
abbreviation uint64 :: "int \<Rightarrow> int" where "uint64 \<equiv> cuint 64"

lemma cint_id:
  assumes "0 < w" and "- (2 ^ (w - 1)) \<le> x" and "x < 2 ^ (w - 1)"
  shows "cint w x = x"
proof -
  from \<open>0 < w\<close> have "(2::int) ^ w = 2 * 2 ^ (w - 1)"
    by (metis Suc_diff_1 power_Suc)
  with assms show ?thesis by (simp add: cint_def)
qed

lemma cint_range:
  assumes "0 < w"
  shows "- (2 ^ (w - 1)) \<le> cint w x" and "cint w x < 2 ^ (w - 1)"
proof -
  have eq: "(2::int) ^ w = 2 * 2 ^ (w - 1)"
    using assms by (metis Suc_diff_1 power_Suc)
  have "0 \<le> (x + 2 ^ (w - 1)) mod 2 ^ w" and "(x + 2 ^ (w - 1)) mod 2 ^ w < 2 ^ w"
    by simp_all
  with eq show "- (2 ^ (w - 1)) \<le> cint w x" and "cint w x < 2 ^ (w - 1)"
    unfolding cint_def by linarith+
qed

lemma cint_mod: "0 < w \<Longrightarrow> cint w (cint w x) = cint w x"
  by (rule cint_id) (use cint_range[of w x] in auto)

lemma cuint_id: "0 \<le> x \<Longrightarrow> x < 2 ^ w \<Longrightarrow> cuint w x = x"
  by (simp add: cuint_def)

lemma cint_congruent: "0 < w \<Longrightarrow> cint w x mod 2 ^ w = x mod 2 ^ w"
  by (simp add: cint_def mod_simps)

lemma cint_cong: "x mod 2 ^ w = y mod 2 ^ w \<Longrightarrow> cint w x = cint w y"
  unfolding cint_def by (metis mod_add_left_eq)

subsection \<open>Flag words\<close>

text \<open>\<open>flags & bit\<close> used as a C condition, \<open>flags |= bit\<close> and \<open>flags &= ~bit\<close>.\<close>

definition has_flag :: "flags \<Rightarrow> flags \<Rightarrow> bool" where
  "has_flag x b \<longleftrightarrow> x AND b \<noteq> 0"

definition set_flag :: "flags \<Rightarrow> flags \<Rightarrow> flags" where
  "set_flag x b = x OR b"

definition clear_flag :: "flags \<Rightarrow> flags \<Rightarrow> flags" where
  "clear_flag x b = x AND NOT b"

lemma has_flag_zero [simp]: "\<not> has_flag 0 b"
  by (simp add: has_flag_def)

lemma has_set_flag_same [simp]: "b \<noteq> 0 \<Longrightarrow> has_flag (set_flag x b) b"
  by (simp add: has_flag_def set_flag_def bit.conj_disj_distrib2)

lemma has_clear_flag_same [simp]: "\<not> has_flag (clear_flag x b) b"
  by (simp add: has_flag_def clear_flag_def and.assoc)

lemma has_set_flag_other [simp]: "b AND c = 0 \<Longrightarrow> has_flag (set_flag x b) c = has_flag x c"
  by (simp add: has_flag_def set_flag_def bit.conj_disj_distrib2)

lemma has_clear_flag_other [simp]: "b AND c = 0 \<Longrightarrow> has_flag (clear_flag x b) c = has_flag x c"
proof -
  assume bc: "b AND c = 0"
  have "x AND c = x AND (NOT b AND c) OR x AND (b AND c)"
    by (metis bit.conj_disj_distrib bit.conj_disj_distrib2 bit.disj_cancel_left and.left_neutral)
  with bc have "(x AND NOT b) AND c = x AND c" by (simp add: and.assoc)
  then show ?thesis by (simp add: has_flag_def clear_flag_def)
qed

subsection \<open>uthash tables\<close>

text \<open>
  \<open>HASH_FIND\<close>, \<open>HASH_ADD\<close>, \<open>HASH_DEL\<close> on the entry list. A field of an entry is
  updated in place through a pointer (\<open>tupd\<close>); no update changes an entry's key.
\<close>

definition tfind :: "('v \<Rightarrow> 'k) \<Rightarrow> 'k \<Rightarrow> 'v list \<Rightarrow> 'v option" where
  "tfind key k t = find (\<lambda>v. key v = k) t"

definition tadd :: "'v \<Rightarrow> 'v list \<Rightarrow> 'v list" where
  "tadd v t = t @ [v]"

definition tdel :: "('v \<Rightarrow> 'k) \<Rightarrow> 'k \<Rightarrow> 'v list \<Rightarrow> 'v list" where
  "tdel key k t = filter (\<lambda>v. key v \<noteq> k) t"

definition tupd :: "('v \<Rightarrow> 'k) \<Rightarrow> 'k \<Rightarrow> ('v \<Rightarrow> 'v) \<Rightarrow> 'v list \<Rightarrow> 'v list" where
  "tupd key k f t = map (\<lambda>v. if key v = k then f v else v) t"

definition tkeys :: "('v \<Rightarrow> 'k) \<Rightarrow> 'v list \<Rightarrow> bool" where
  "tkeys key t \<longleftrightarrow> distinct (map key t)"

lemma tfind_Nil [table_simps]: "tfind key k [] = None"
  by (simp add: tfind_def)

lemma tfind_Cons [table_simps]:
  "tfind key k (v # t) = (if key v = k then Some v else tfind key k t)"
  by (simp add: tfind_def)

lemma tfind_SomeD: "tfind key k t = Some v \<Longrightarrow> v \<in> set t \<and> key v = k"
  unfolding tfind_def by (auto simp: find_Some_iff)

lemma tfind_None_iff: "tfind key k t = None \<longleftrightarrow> k \<notin> key ` set t"
  unfolding tfind_def by (auto simp: find_None_iff)

lemma tfind_mem: "tkeys key t \<Longrightarrow> v \<in> set t \<Longrightarrow> tfind key (key v) t = Some v"
  unfolding tkeys_def by (induction t) (auto simp: table_simps image_iff)

lemma tfind_tadd:
  "tfind key k (tadd v t) = (case tfind key k t of Some w \<Rightarrow> Some w
     | None \<Rightarrow> if key v = k then Some v else None)"
  unfolding tadd_def by (induction t) (auto simp: table_simps)

lemma tfind_tdel: "tfind key k (tdel key k' t) = (if k = k' then None else tfind key k t)"
  unfolding tdel_def by (induction t) (auto simp: table_simps)

lemma tfind_tupd:
  "(\<And>v. key (f v) = key v) \<Longrightarrow>
   tfind key k (tupd key k' f t) = (if k = k' then map_option f (tfind key k t) else tfind key k t)"
  unfolding tupd_def by (induction t) (auto simp: table_simps)

lemma map_key_tupd: "(\<And>v. key (f v) = key v) \<Longrightarrow> map key (tupd key k f t) = map key t"
  unfolding tupd_def by (induction t) auto

lemma tkeys_tupd: "(\<And>v. key (f v) = key v) \<Longrightarrow> tkeys key (tupd key k f t) = tkeys key t"
  by (simp add: tkeys_def map_key_tupd)

lemma tkeys_tadd: "tkeys key t \<Longrightarrow> tfind key (key v) t = None \<Longrightarrow> tkeys key (tadd v t)"
  unfolding tkeys_def tadd_def tfind_None_iff by auto

lemma tkeys_tdel: "tkeys key t \<Longrightarrow> tkeys key (tdel key k t)"
  unfolding tkeys_def tdel_def by (induction t) auto

lemma set_tupd: "set (tupd key k f t) = (\<lambda>v. if key v = k then f v else v) ` set t"
  by (simp add: tupd_def)

lemma set_tdel: "set (tdel key k t) = {v \<in> set t. key v \<noteq> k}"
  by (auto simp: tdel_def)

lemma set_tadd [simp]: "set (tadd v t) = insert v (set t)"
  by (auto simp: tadd_def)

lemma length_tupd [simp]: "length (tupd key k f t) = length t"
  by (simp add: tupd_def)

lemma tupd_absent: "tfind key k t = None \<Longrightarrow> tupd key k f t = t"
  unfolding tupd_def tfind_None_iff by (induction t) auto

text \<open>
  The contract between the server and its tables: what a lookup returns after each
  operation, and that the keys stay distinct as long as an entry is only added when its key
  is free, which every caller in the daemon checks with a find first.
\<close>

locale hash_table =
  fixes key :: "'v \<Rightarrow> 'k"
    and lookup :: "'k \<Rightarrow> 't \<Rightarrow> 'v option"
    and add :: "'v \<Rightarrow> 't \<Rightarrow> 't"
    and del :: "'k \<Rightarrow> 't \<Rightarrow> 't"
    and entries :: "'t \<Rightarrow> 'v list"
    and ok :: "'t \<Rightarrow> bool"
  assumes lookup_key: "lookup k t = Some v \<Longrightarrow> key v = k"
    and lookup_add: "ok t \<Longrightarrow> lookup (key v) t = None \<Longrightarrow>
          lookup k (add v t) = (if k = key v then Some v else lookup k t)"
    and lookup_del: "ok t \<Longrightarrow> lookup k (del k' t) = (if k = k' then None else lookup k t)"
    and lookup_entries: "ok t \<Longrightarrow> lookup k t = Some v \<longleftrightarrow> v \<in> set (entries t) \<and> key v = k"
    and entries_add: "entries (add v t) = entries t @ [v]"
    and ok_add: "ok t \<Longrightarrow> lookup (key v) t = None \<Longrightarrow> ok (add v t)"
    and ok_del: "ok t \<Longrightarrow> ok (del k t)"
begin

text \<open>Adding a fresh entry and deleting it again is invisible to every lookup.\<close>

lemma add_del_roundtrip:
  assumes "ok t" and "lookup (key v) t = None"
  shows "lookup k (del (key v) (add v t)) = lookup k t"
  using assms by (simp add: lookup_del ok_add lookup_add)

text \<open>An entry that is present is found under its own key.\<close>

lemma lookup_entry: "ok t \<Longrightarrow> v \<in> set (entries t) \<Longrightarrow> lookup (key v) t = Some v"
  by (simp add: lookup_entries)

lemma add_preserves_others:
  "ok t \<Longrightarrow> lookup (key v) t = None \<Longrightarrow> lookup k t = Some w \<Longrightarrow> lookup k (add v t) = Some w"
  by (auto simp: lookup_add)

end

lemma hash_table_list: "hash_table key (tfind key) tadd (tdel key) (\<lambda>t. t) (tkeys key)"
proof
  fix k t v k'
  show "tfind key k t = Some v \<Longrightarrow> key v = k"
    by (blast dest: tfind_SomeD)
  show "tkeys key t \<Longrightarrow> tfind key (key v) t = None \<Longrightarrow>
      tfind key k (tadd v t) = (if k = key v then Some v else tfind key k t)"
    by (auto simp: tfind_tadd split: option.splits)
  show "tkeys key t \<Longrightarrow> tfind key k (tdel key k' t) = (if k = k' then None else tfind key k t)"
    by (rule tfind_tdel)
  show "tkeys key t \<Longrightarrow> tfind key k t = Some v \<longleftrightarrow> v \<in> set t \<and> key v = k"
    by (blast dest: tfind_SomeD tfind_mem)
  show "tadd v t = t @ [v]" by (simp add: tadd_def)
  show "tkeys key t \<Longrightarrow> tfind key (key v) t = None \<Longrightarrow> tkeys key (tadd v t)"
    by (rule tkeys_tadd)
  show "tkeys key t \<Longrightarrow> tkeys key (tdel key k t)"
    by (rule tkeys_tdel)
qed

subsection \<open>Counting entries\<close>

text \<open>How many entries of a table satisfy a predicate, as the daemon's signed counters count.\<close>

definition tcount :: "('v \<Rightarrow> bool) \<Rightarrow> 'v list \<Rightarrow> int" where
  "tcount P t = int (length (filter P t))"

lemma tcount_Nil [simp]: "tcount P [] = 0"
  by (simp add: tcount_def)

lemma tcount_Cons [simp]: "tcount P (v # t) = (if P v then 1 else 0) + tcount P t"
  by (simp add: tcount_def)

lemma tcount_append [simp]: "tcount P (t @ u) = tcount P t + tcount P u"
  by (simp add: tcount_def)

lemma tcount_tadd [simp]: "tcount P (tadd v t) = tcount P t + (if P v then 1 else 0)"
  by (simp add: tadd_def)

lemma tcount_nonneg [simp]: "0 \<le> tcount P t"
  by (simp add: tcount_def)

lemma tcount_cong: "(\<And>v. v \<in> set t \<Longrightarrow> P v = Q v) \<Longrightarrow> tcount P t = tcount Q t"
  unfolding tcount_def by (metis filter_cong)

lemma tcount_tupd:
  assumes "tkeys key t" and "tfind key k t = Some v"
  shows "tcount P (tupd key k f t) =
         tcount P t - (if P v then 1 else 0) + (if P (f v) then 1 else 0)"
  using assms
proof (induction t)
  case Nil
  then show ?case by (simp add: table_simps)
next
  case (Cons w t)
  show ?case
  proof (cases "key w = k")
    case True
    with Cons.prems have "v = w" and "k \<notin> key ` set t"
      by (auto simp: table_simps tkeys_def)
    then have "tupd key k f t = t" by (simp add: tfind_None_iff tupd_absent)
    with True \<open>v = w\<close> show ?thesis by (simp add: tupd_def)
  next
    case False
    with Cons show ?thesis by (simp add: table_simps tkeys_def tupd_def)
  qed
qed

lemma tcount_tdel:
  assumes "tkeys key t" and "tfind key k t = Some v"
  shows "tcount P (tdel key k t) = tcount P t - (if P v then 1 else 0)"
  using assms
proof (induction t)
  case Nil
  then show ?case by (simp add: table_simps)
next
  case (Cons w t)
  show ?case
  proof (cases "key w = k")
    case True
    with Cons.prems have "v = w" and "k \<notin> key ` set t"
      by (auto simp: table_simps tkeys_def)
    then have "tdel key k t = t" unfolding tdel_def by (auto intro!: filter_True)
    with True \<open>v = w\<close> show ?thesis by (simp add: tdel_def)
  next
    case False
    with Cons show ?thesis by (auto simp: table_simps tkeys_def tdel_def)
  qed
qed

subsection \<open>qsort and bsearch\<close>

text \<open>
  \<open>qsort\<close> and \<open>bsearch\<close> of the C library, driven by a three-way comparison. The C
  standard does not fix which sorting algorithm is used; \<open>sort_unique\<close> below shows that
  it does not matter when the comparison only ties on equal elements.
\<close>

fun qinsert :: "('a \<Rightarrow> 'a \<Rightarrow> int) \<Rightarrow> 'a \<Rightarrow> 'a list \<Rightarrow> 'a list" where
  "qinsert cmp x [] = [x]"
| "qinsert cmp x (y # ys) = (if cmp x y \<le> 0 then x # y # ys else y # qinsert cmp x ys)"

fun qsort :: "('a \<Rightarrow> 'a \<Rightarrow> int) \<Rightarrow> 'a list \<Rightarrow> 'a list" where
  "qsort cmp [] = []"
| "qsort cmp (x # xs) = qinsert cmp x (qsort cmp xs)"

lemma mset_qinsert [simp]: "mset (qinsert cmp x xs) = add_mset x (mset xs)"
  by (induction xs) auto

lemma mset_qsort [simp]: "mset (qsort cmp xs) = mset xs"
  by (induction xs) auto

lemma set_qinsert [simp]: "set (qinsert cmp x xs) = insert x (set xs)"
  by (induction xs) auto

lemma set_qsort [simp]: "set (qsort cmp xs) = set xs"
  by (induction xs) auto

lemma length_qsort [simp]: "length (qsort cmp xs) = length xs"
  by (metis mset_qsort size_mset)

text \<open>
  \<open>bsearch key base nmemb size compar\<close> as the C library does it: halve \<open>[lo, hi)\<close>,
  comparing the key with the middle element.
\<close>

function bsearch_in :: "('a \<Rightarrow> int) \<Rightarrow> 'a list \<Rightarrow> nat \<Rightarrow> nat \<Rightarrow> 'a option" where
  "bsearch_in c xs lo hi =
     (if lo < hi \<and> hi \<le> length xs then
        (let mid = (lo + hi) div 2; r = c (xs ! mid)
         in if r = 0 then Some (xs ! mid)
            else if r < 0 then bsearch_in c xs lo mid
            else bsearch_in c xs (Suc mid) hi)
      else None)"
  by pat_completeness auto
termination
  by (relation "measure (\<lambda>(c, xs, lo, hi). hi - lo)") auto

declare bsearch_in.simps [simp del]

definition bsearch :: "('a \<Rightarrow> int) \<Rightarrow> 'a list \<Rightarrow> 'a option" where
  "bsearch c xs = bsearch_in c xs 0 (length xs)"

lemma bsearch_in_sound:
  "bsearch_in c xs lo hi = Some x \<Longrightarrow> x \<in> set xs \<and> c x = 0"
proof (induction c xs lo hi rule: bsearch_in.induct)
  case (1 c xs lo hi)
  let ?mid = "(lo + hi) div 2"
  from "1.prems" have range: "lo < hi" "hi \<le> length xs"
    by (auto simp: bsearch_in.simps [of c xs lo hi] split: if_splits)
  then have "?mid < length xs" by linarith
  then have "xs ! ?mid \<in> set xs" by simp
  with "1.prems" "1.IH" range show ?case
    by (auto simp: bsearch_in.simps [of c xs lo hi] Let_def split: if_splits)
qed

text \<open>
  A range that holds a match keeps it: the search only discards halves on the far side of
  the middle element, provided the array is ordered by the key's comparison.
\<close>

lemma bsearch_in_complete:
  assumes "\<And>i j. i \<le> j \<Longrightarrow> j < length xs \<Longrightarrow> c (xs ! i) < 0 \<Longrightarrow> c (xs ! j) < 0"
    and "\<And>i j. i \<le> j \<Longrightarrow> j < length xs \<Longrightarrow> 0 < c (xs ! j) \<Longrightarrow> 0 < c (xs ! i)"
    and "lo \<le> i" and "i < hi" and "hi \<le> length xs" and "c (xs ! i) = 0"
  shows "\<exists>x. bsearch_in c xs lo hi = Some x"
  using assms(3-6)
proof (induction "hi - lo" arbitrary: lo hi rule: less_induct)
  case less
  let ?mid = "(lo + hi) div 2"
  from less.prems have mid: "lo \<le> ?mid" "?mid < hi" "?mid < length xs" by linarith+
  note unf = bsearch_in.simps [of c xs lo hi]
  consider "c (xs ! ?mid) = 0" | "c (xs ! ?mid) < 0" | "0 < c (xs ! ?mid)" by linarith
  then show ?case
  proof cases
    case 1
    with less.prems show ?thesis by (simp add: unf Let_def)
  next
    case 2
    have "i < ?mid"
    proof (rule ccontr)
      assume "\<not> i < ?mid"
      with assms(1) [of ?mid i] 2 less.prems show False by simp
    qed
    moreover have "?mid - lo < hi - lo" using mid by linarith
    ultimately have "\<exists>x. bsearch_in c xs lo ?mid = Some x"
      using less.hyps [of ?mid lo] less.prems mid by simp
    with 2 less.prems show ?thesis by (simp add: unf Let_def)
  next
    case 3
    have "?mid < i"
    proof (rule ccontr)
      assume "\<not> ?mid < i"
      with assms(2) [of i ?mid] 3 less.prems mid show False by simp
    qed
    moreover have "hi - Suc ?mid < hi - lo" using mid by linarith
    ultimately have "\<exists>x. bsearch_in c xs (Suc ?mid) hi = Some x"
      using less.hyps [of hi "Suc ?mid"] less.prems mid by simp
    with 3 less.prems show ?thesis by (simp add: unf Let_def)
  qed
qed

text \<open>
  What a comparison function has to promise on the elements (\<open>dom\<close>) it is used on.
  Sorting orders such a list, sorts it uniquely up to ties, and a binary search in the
  sorted array agrees with a linear scan.
\<close>

locale comparator =
  fixes dom :: "'a \<Rightarrow> bool" and cmp :: "'a \<Rightarrow> 'a \<Rightarrow> int"
  assumes cmp_flip: "dom x \<Longrightarrow> dom y \<Longrightarrow> cmp x y < 0 \<longleftrightarrow> 0 < cmp y x"
    and cmp_trans: "dom x \<Longrightarrow> dom y \<Longrightarrow> dom z \<Longrightarrow> cmp x y \<le> 0 \<Longrightarrow> cmp y z \<le> 0 \<Longrightarrow> cmp x z \<le> 0"
begin

lemma cmp_total: "dom x \<Longrightarrow> dom y \<Longrightarrow> cmp x y \<le> 0 \<or> cmp y x \<le> 0"
  using cmp_flip by force

lemma cmp_refl: "dom x \<Longrightarrow> cmp x x = 0"
  using cmp_flip [of x x] by linarith

lemma sorted_qinsert:
  assumes "dom x" and "\<forall>y \<in> set ys. dom y" and "sorted_wrt (\<lambda>a b. cmp a b \<le> 0) ys"
  shows "sorted_wrt (\<lambda>a b. cmp a b \<le> 0) (qinsert cmp x ys)"
  using assms
proof (induction ys)
  case Nil
  then show ?case by simp
next
  case (Cons y ys)
  then have dy: "dom y" and srt: "\<forall>z \<in> set ys. cmp y z \<le> 0" by auto
  show ?case
  proof (cases "cmp x y \<le> 0")
    case True
    have "cmp x z \<le> 0" if "z \<in> set ys" for z
      using cmp_trans [of x y z] that True srt dy Cons.prems by auto
    with True Cons.prems show ?thesis by simp
  next
    case False
    then have "cmp y x \<le> 0" using cmp_total Cons.prems dy by blast
    with False Cons show ?thesis by auto
  qed
qed

lemma sorted_qsort:
  "\<forall>x \<in> set xs. dom x \<Longrightarrow> sorted_wrt (\<lambda>a b. cmp a b \<le> 0) (qsort cmp xs)"
  by (induction xs) (auto intro: sorted_qinsert)

text \<open>
  Two orderings of the same elements are the same list when the comparison ties only on
  equal elements: the result does not depend on the sorting algorithm.
\<close>

lemma sort_unique:
  assumes "\<forall>x \<in> set xs. dom x"
    and "\<And>x y. dom x \<Longrightarrow> dom y \<Longrightarrow> x \<in> set xs \<Longrightarrow> y \<in> set xs \<Longrightarrow> cmp x y = 0 \<Longrightarrow> x = y"
    and "mset xs = mset ys"
    and "sorted_wrt (\<lambda>a b. cmp a b \<le> 0) xs" and "sorted_wrt (\<lambda>a b. cmp a b \<le> 0) ys"
  shows "xs = ys"
  using assms
proof (induction xs arbitrary: ys)
  case Nil
  then show ?case by simp
next
  case (Cons x xs)
  from Cons.prems(3) obtain y ys' where ys: "ys = y # ys'"
    by (metis mset_zero_iff_right list.exhaust list.distinct(1) mset_zero_iff)
  have sets: "set (x # xs) = set ys" using Cons.prems(3) by (metis set_mset_mset)
  have dx: "dom x" using Cons.prems(1) by simp
  have dy: "dom y" using sets ys Cons.prems(1) by auto
  have "x = y"
  proof (rule ccontr)
    assume neq: "x \<noteq> y"
    then have "y \<in> set xs" and "x \<in> set ys'" using sets ys by auto
    then have xy: "cmp x y \<le> 0" and yx: "cmp y x \<le> 0"
      using Cons.prems(4,5) ys by auto
    from yx have "\<not> cmp x y < 0" using cmp_flip [OF dx dy] by linarith
    with xy have "cmp x y = 0" by linarith
    with Cons.prems(2) [OF dx dy] \<open>y \<in> set xs\<close> neq show False by simp
  qed
  moreover have "xs = ys'"
  proof (rule Cons.IH)
    show "\<forall>z \<in> set xs. dom z" using Cons.prems(1) by simp
    show "mset xs = mset ys'" using Cons.prems(3) ys \<open>x = y\<close> by simp
    show "sorted_wrt (\<lambda>a b. cmp a b \<le> 0) xs" "sorted_wrt (\<lambda>a b. cmp a b \<le> 0) ys'"
      using Cons.prems(4,5) ys by simp_all
  next
    fix a b
    assume "dom a" "dom b" "a \<in> set xs" "b \<in> set xs" "cmp a b = 0"
    then show "a = b" using Cons.prems(2) by simp
  qed
  ultimately show ?case using ys by simp
qed

lemma bsearch_complete:
  assumes doms: "dom k" "\<forall>x \<in> set xs. dom x"
    and srt: "sorted_wrt (\<lambda>a b. cmp a b \<le> 0) xs"
    and x: "x \<in> set xs" "cmp k x = 0"
  shows "\<exists>y. bsearch (cmp k) xs = Some y \<and> y \<in> set xs \<and> cmp k y = 0"
proof -
  have le: "cmp (xs ! i) (xs ! j) \<le> 0" if "i \<le> j" "j < length xs" for i j
  proof (cases "i = j")
    case True
    then show ?thesis using that doms cmp_refl by simp
  next
    case False
    then show ?thesis using sorted_wrt_nth_less [OF srt, of i j] that by simp
  qed
  have dn: "dom (xs ! i)" if "i < length xs" for i using that doms by simp
  obtain i where i: "i < length xs" "xs ! i = x" using x by (auto simp: in_set_conv_nth)
  have "\<exists>y. bsearch_in (cmp k) xs 0 (length xs) = Some y"
  proof (rule bsearch_in_complete [where i = i])
    fix a b
    assume ab: "a \<le> b" "b < length xs" "cmp k (xs ! a) < 0"
    have "\<not> cmp (xs ! b) k \<le> 0"
    proof
      assume "cmp (xs ! b) k \<le> 0"
      then have "cmp (xs ! a) k \<le> 0"
        using cmp_trans [of "xs ! a" "xs ! b" k] le ab dn doms by simp
      with ab cmp_flip [of k "xs ! a"] dn doms show False by simp
    qed
    then have "0 < cmp (xs ! b) k" by simp
    then show "cmp k (xs ! b) < 0" using cmp_flip [of k "xs ! b"] dn doms ab by simp
  next
    fix a b
    assume ab: "a \<le> b" "b < length xs" "0 < cmp k (xs ! b)"
    have "\<not> cmp k (xs ! a) \<le> 0"
    proof
      assume "cmp k (xs ! a) \<le> 0"
      then have "cmp k (xs ! b) \<le> 0"
        using cmp_trans [of k "xs ! a" "xs ! b"] le ab dn doms by simp
      with ab show False by simp
    qed
    then show "0 < cmp k (xs ! a)" by simp
  qed (use i x in auto)
  then show ?thesis unfolding bsearch_def by (auto dest: bsearch_in_sound)
qed

end

subsection \<open>Result of operations that can fail\<close>

lemma case_option_Some_iff:
  "(case x of None \<Rightarrow> None | Some y \<Rightarrow> f y) = Some z \<longleftrightarrow> (\<exists>y. x = Some y \<and> f y = Some z)"
  by (cases x) auto

end
