(* ===== verification/Common.thy ===== *)
theory Common
  imports Prelude
begin

section \<open>Common: the string and number routines of common.c\<close>

text \<open>
  \<open>src/src/common.c\<close>: escaping, trimming, number printing and parsing, name checks,
  the configuration-line and state-file-line splitters and the small tokenizers.

  A NUL-terminated C string is the list of its characters before the terminator, so the
  end of the list is the terminator. A routine that would step over the terminator returns
  \<open>None\<close> (or \<open>KvFault\<close>): reading past it is undefined behaviour in C.
\<close>

subsection \<open>Characters\<close>

abbreviation BSL :: char where "BSL \<equiv> CHR 0x5C"
abbreviation QUOTE :: char where "QUOTE \<equiv> CHR 0x22"
abbreviation APOS :: char where "APOS \<equiv> CHR 0x27"
abbreviation TAB :: char where "TAB \<equiv> CHR 0x09"
abbreviation NL :: char where "NL \<equiv> CHR 0x0A"
abbreviation SPC :: char where "SPC \<equiv> CHR 0x20"

definition is_ws :: "char \<Rightarrow> bool" where
  "is_ws c \<longleftrightarrow> c = SPC \<or> c = TAB"

definition is_digit :: "char \<Rightarrow> bool" where
  "is_digit c \<longleftrightarrow> 48 \<le> (of_char c :: nat) \<and> (of_char c :: nat) \<le> 57"

definition digit_char :: "nat \<Rightarrow> char" where
  "digit_char d = char_of (48 + d)"

definition char_digit :: "char \<Rightarrow> int" where
  "char_digit c = int (of_char c) - 48"

definition toupper_c :: "char \<Rightarrow> char" where
  "toupper_c c = (if 97 \<le> (of_char c :: nat) \<and> (of_char c :: nat) \<le> 122
                  then char_of ((of_char c :: nat) - 32) else c)"

definition tolower_c :: "char \<Rightarrow> char" where
  "tolower_c c = (if 65 \<le> (of_char c :: nat) \<and> (of_char c :: nat) \<le> 90
                  then char_of ((of_char c :: nat) + 32) else c)"

text \<open>\<open>uppercasestring\<close> and \<open>lowercasestring\<close> of common.h, in place.\<close>

definition uppercasestring :: "string \<Rightarrow> string" where
  "uppercasestring s = map toupper_c s"

definition lowercasestring :: "string \<Rightarrow> string" where
  "lowercasestring s = map tolower_c s"

definition strcasecmp_eq :: "string \<Rightarrow> string \<Rightarrow> bool" where
  "strcasecmp_eq a b \<longleftrightarrow> map tolower_c a = map tolower_c b"

text \<open>\<open>strcmp\<close>: only the sign of the C result is specified.\<close>

fun strcmp :: "string \<Rightarrow> string \<Rightarrow> int" where
  "strcmp [] [] = 0"
| "strcmp [] (y # ys) = -1"
| "strcmp (x # xs) [] = 1"
| "strcmp (x # xs) (y # ys) =
     (if (of_char x :: nat) < of_char y then -1
      else if (of_char y :: nat) < of_char x then 1 else strcmp xs ys)"

subsection \<open>Escaping\<close>

text \<open>
  \<open>escapeString\<close> keeps a static buffer that it grows to \<open>2 * strlen\<close> bytes when it is
  not larger than that; the model carries the buffer's size and returns the new one.
\<close>

fun escape_chars :: "string \<Rightarrow> string" where
  "escape_chars [] = []"
| "escape_chars (c # cs) =
     (if c = BSL then BSL # BSL # escape_chars cs
      else if c = NL then BSL # CHR ''n'' # escape_chars cs
      else if c = TAB then BSL # CHR ''t'' # escape_chars cs
      else c # escape_chars cs)"

definition escapeString :: "nat \<Rightarrow> string \<Rightarrow> nat \<times> string" where
  "escapeString escaped_size s =
     (if escaped_size \<le> length s * 2 then length s * 2 else escaped_size, escape_chars s)"

text \<open>
  \<open>unescapeString\<close> overwrites each backslash by the character its successor stands for
  and moves the rest of the string down over the successor.
\<close>

fun unescapeString :: "string \<Rightarrow> string option" where
  "unescapeString [] = Some []"
| "unescapeString (c # cs) =
     (if c \<noteq> BSL then map_option (Cons c) (unescapeString cs)
      else (case cs of [] \<Rightarrow> None
            | d # ds \<Rightarrow> map_option (Cons (if d = CHR ''n'' then NL
                                        else if d = BSL then BSL
                                        else if d = CHR ''t'' then TAB else BSL))
                         (unescapeString ds)))"

subsection \<open>Trimming and skipping\<close>

definition removeWhitespace :: "string \<Rightarrow> string" where
  "removeWhitespace s = dropWhile is_ws (rev (dropWhile is_ws (rev s)))"

definition skipChars :: "string \<Rightarrow> string \<Rightarrow> string" where
  "skipChars skip s = dropWhile (\<lambda>c. c \<in> set skip) s"

definition skipWhitespace :: "string \<Rightarrow> string" where
  "skipWhitespace s = dropWhile is_ws s"

definition skipUntilWhitespace :: "string \<Rightarrow> string" where
  "skipUntilWhitespace s = dropWhile (\<lambda>c. \<not> is_ws c) s"

definition isprintable :: "string \<Rightarrow> bool" where
  "isprintable s \<longleftrightarrow> list_all (\<lambda>c. 32 \<le> (of_char c :: nat) \<and> (of_char c :: nat) \<le> 126) s"

definition allowed_name_chars :: string where
  "allowed_name_chars = ''ABCDEFGHIJKLMNOPQRSTUVWXYZabcdefghijklmnopqrstuvwxyz0123456789._-''"

definition check_name :: "string \<Rightarrow> int" where
  "check_name name =
     (if length (takeWhile (\<lambda>c. c \<in> set allowed_name_chars) name) \<noteq> length name then 1 else 0)"

text \<open>\<open>fnmatch\<close> is the system's glob matcher: a parameter.\<close>

type_synonym fnmatch = "string \<Rightarrow> string \<Rightarrow> bool"

definition matches_wildcard :: "fnmatch \<Rightarrow> string \<Rightarrow> string \<Rightarrow> bool \<Rightarrow> int" where
  "matches_wildcard fnm pat s wildcard =
     (if wildcard then (if fnm pat s then 0 else 1) else strcmp s pat)"

definition has_wildcard :: "string \<Rightarrow> bool" where
  "has_wildcard s \<longleftrightarrow> CHR ''*'' \<in> set s \<or> CHR ''?'' \<in> set s"

definition matches :: "fnmatch \<Rightarrow> string \<Rightarrow> string \<Rightarrow> int" where
  "matches fnm pat s = matches_wildcard fnm pat s (has_wildcard pat)"

subsection \<open>Numbers\<close>

text \<open>
  \<open>int64tostr\<close> writes the digits least significant first, then reverses the text in
  place by swapping its ends inwards (\<open>swap_ends\<close>).
\<close>

fun digits_rev :: "nat \<Rightarrow> string" where
  "digits_rev v = digit_char (v mod 10) # (if v div 10 = 0 then [] else digits_rev (v div 10))"

declare digits_rev.simps [simp del]

function swap_ends :: "'a list \<Rightarrow> nat \<Rightarrow> nat \<Rightarrow> 'a list" where
  "swap_ends xs i j =
     (if i < j \<and> j < length xs
      then swap_ends (xs[i := xs ! j, j := xs ! i]) (Suc i) (j - 1) else xs)"
  by pat_completeness auto
termination
  by (relation "measure (\<lambda>(xs, i, j). j - i)") auto

declare swap_ends.simps [simp del]

definition int64tostr :: "int \<Rightarrow> string" where
  "int64tostr n =
     (let neg = n < 0;
          v = (if neg then uint64 (int64 (n * -1)) else n);
          p = digits_rev (nat v) @ (if neg then ''-'' else [])
      in swap_ends p 0 (length p - 1))"

text \<open>
  \<open>strtoint64\<close> of json.c and state.c: the accumulator is an \<open>int64_t\<close>, so every step
  is taken at 64 bits. The result is the number and the unread text.
\<close>

fun strtoint64_digits :: "int \<Rightarrow> string \<Rightarrow> int \<times> string" where
  "strtoint64_digits acc [] = (acc, [])"
| "strtoint64_digits acc (c # cs) =
     (if is_digit c then strtoint64_digits (int64 (acc * 10 + char_digit c)) cs
      else (acc, c # cs))"

definition strtoint64 :: "string \<Rightarrow> int \<times> string" where
  "strtoint64 s =
     (case s of
        [] \<Rightarrow> (0, [])
      | c # cs \<Rightarrow>
          (if c = CHR ''-''
           then (let (r, rest) = strtoint64_digits 0 cs in (int64 (- r), rest))
           else strtoint64_digits 0 s))"

text \<open>\<open>atoi\<close>: leading white space, a sign, then digits, at 32 bits.\<close>

definition atoi :: "string \<Rightarrow> int" where
  "atoi s =
     (let t = dropWhile (\<lambda>c. is_ws c \<or> c \<in> {NL, CHR 0x0B, CHR 0x0C, CHR 0x0D}) s
      in int32 (case t of
           [] \<Rightarrow> 0
         | c # cs \<Rightarrow> if c = CHR ''-'' then - fst (strtoint64_digits 0 cs)
                     else if c = CHR ''+'' then fst (strtoint64_digits 0 cs)
                     else fst (strtoint64_digits 0 t)))"

subsection \<open>Times\<close>

record timespec =
  tv_sec :: int
  tv_nsec :: int

definition timespec_diff :: "timespec \<Rightarrow> timespec \<Rightarrow> timespec" where
  "timespec_diff start finish =
     (if tv_nsec finish < tv_nsec start
      then \<lparr>tv_sec = tv_sec finish - tv_sec start - 1,
            tv_nsec = tv_nsec finish - tv_nsec start + 1000000000\<rparr>
      else \<lparr>tv_sec = tv_sec finish - tv_sec start,
            tv_nsec = tv_nsec finish - tv_nsec start\<rparr>)"

subsection \<open>Hex encoding\<close>

definition hex_char :: "8 word \<Rightarrow> char" where
  "hex_char n = ''0123456789ABCDEF'' ! unat (n AND 0xF)"

fun hexEncode :: "8 word list \<Rightarrow> string" where
  "hexEncode [] = []"
| "hexEncode (b # bs) = hex_char (drop_bit 4 b) # hex_char b # hexEncode bs"

subsection \<open>Configuration lines and arguments\<close>

text \<open>\<open>splitConfigLine\<close>: \<open>None\<close> is its return value 1, \<open>Some (key, value)\<close> is 0.\<close>

definition splitConfigLine :: "string \<Rightarrow> (string \<times> string) option" where
  "splitConfigLine line =
     (let l = removeWhitespace (takeWhile (\<lambda>c. c \<noteq> CHR ''#'') line)
      in if l = [] then None
         else (case dropWhile (\<lambda>c. c \<noteq> SPC) l of
                 [] \<Rightarrow> None
               | _ # v \<Rightarrow> Some (removeWhitespace (takeWhile (\<lambda>c. c \<noteq> SPC) l),
                               removeWhitespace v)))"

text \<open>
  \<open>getArg\<close>: the next argument and the unread rest. \<open>st\<close> is the quote character that is
  open, if any; \<open>acc\<close> the argument so far, reversed. An opening quote is dropped only at
  the very start of the argument.
\<close>

fun getArg_loop :: "char option \<Rightarrow> string \<Rightarrow> string \<Rightarrow> string \<times> string" where
  "getArg_loop st acc [] = (rev acc, [])"
| "getArg_loop st acc (c # cs) =
     (if is_ws c then
        (if st = None then (rev acc, cs) else getArg_loop st (c # acc) cs)
      else if c = APOS \<or> c = QUOTE then
        (if st = Some c then (rev acc, cs)
         else if st = None then
           (if acc = [] then getArg_loop (Some c) [] cs else getArg_loop (Some c) (c # acc) cs)
         else getArg_loop st (c # acc) cs)
      else getArg_loop st (c # acc) cs)"

definition getArg :: "string \<Rightarrow> (string \<times> string) option" where
  "getArg s = (let c = skipWhitespace s in if c = [] then None else Some (getArg_loop None [] c))"

text \<open>
  \<open>seperateTokens\<close>: at a separator the loop steps to the start of the next token and the
  \<open>for\<close> then steps once more, so the first character of a token is never examined; a
  separator at the end of the string makes that second step leave the string.
\<close>

fun seperateTokens_loop :: "char \<Rightarrow> string \<Rightarrow> string \<Rightarrow> string list option" where
  "seperateTokens_loop sep acc [] =
     Some (if acc = [] then [] else [removeWhitespace (rev acc)])"
| "seperateTokens_loop sep acc (c # cs) =
     (if c = sep then
        (case cs of [] \<Rightarrow> None
         | d # ds \<Rightarrow> map_option (Cons (removeWhitespace (rev acc))) (seperateTokens_loop sep [d] ds))
      else seperateTokens_loop sep (c # acc) cs)"

definition seperateTokens :: "string \<Rightarrow> char \<Rightarrow> string list option" where
  "seperateTokens s sep = seperateTokens_loop sep [] s"

subsection \<open>State file lines\<close>

text \<open>
  \<open>loadKeyValue\<close>: a blank line or a comment has no key; otherwise the key runs to the
  first blank and may carry an index in brackets, and the rest of the line, unescaped, is
  the value. Without a blank the value would start behind the terminator.
\<close>

datatype kv_result = KvNone | KvFault | KvPair string "int option" string

definition loadKeyValue :: "string \<Rightarrow> kv_result" where
  "loadKeyValue line =
     (let ptr = skipWhitespace line
      in if ptr = [] \<or> hd ptr = CHR ''#'' then KvNone
         else (let key = takeWhile (\<lambda>c. \<not> is_ws c) ptr
               in case skipUntilWhitespace ptr of
                    [] \<Rightarrow> KvFault
                  | _ # rest \<Rightarrow>
                      (case unescapeString rest of
                         None \<Rightarrow> KvFault
                       | Some v \<Rightarrow>
                           (case dropWhile (\<lambda>c. c \<noteq> CHR ''['') key of
                              [] \<Rightarrow> KvPair key None v
                            | _ # ix \<Rightarrow> KvPair (takeWhile (\<lambda>c. c \<noteq> CHR ''['') key)
                                          (Some (atoi ix)) v))))"

subsection \<open>Growable lists\<close>

text \<open>\<open>struct item_list\<close>: the items and the allocated capacity, in items.\<close>

record 'a item_list =
  items :: "'a list"
  list_size :: nat

definition listNew :: "'a item_list" where
  "listNew = \<lparr>items = [], list_size = 0\<rparr>"

definition listAdd :: "'a item_list \<Rightarrow> 'a \<Rightarrow> 'a item_list" where
  "listAdd l x =
     (let sz = (if length (items l) = list_size l
                then (if list_size l = 0 then 32 else list_size l * 2) else list_size l)
      in l\<lparr>items := items l @ [x], list_size := sz\<rparr>)"

definition listSort :: "('a \<Rightarrow> 'a \<Rightarrow> int) \<Rightarrow> 'a item_list \<Rightarrow> 'a item_list" where
  "listSort cmp l = l\<lparr>items := qsort cmp (items l)\<rparr>"

subsection \<open>Comparing strings\<close>

lemma strcmp_zero [simp]: "strcmp a b = 0 \<longleftrightarrow> a = b"
  by (induction a b rule: strcmp.induct) auto

lemma strcmp_flip: "strcmp a b < 0 \<longleftrightarrow> 0 < strcmp b a"
  by (induction a b rule: strcmp.induct) auto

lemma strcmp_Nil_le: "strcmp [] b \<le> 0"
  by (cases b) auto

lemma strcmp_le_trans: "strcmp a b \<le> 0 \<Longrightarrow> strcmp b c \<le> 0 \<Longrightarrow> strcmp a c \<le> 0"
proof (induction a b arbitrary: c rule: strcmp.induct)
  case (4 x xs y ys)
  show ?case
  proof (cases c)
    case Nil
    with 4 show ?thesis by simp
  next
    case (Cons z zs)
    let ?n = "of_char :: char \<Rightarrow> nat"
    from "4.prems" Cons have "?n x \<le> ?n y" and "?n y \<le> ?n z"
      by (auto split: if_splits)
    then consider "?n x < ?n z" | "?n x = ?n y" "?n y = ?n z" by linarith
    then show ?thesis
    proof cases
      case 1
      with Cons show ?thesis by simp
    next
      case 2
      then have "x = y" and "y = z" by (simp_all only: of_char_eq_iff)
      with 4 Cons show ?thesis by simp
    qed
  qed
qed (auto simp: strcmp_Nil_le)

interpretation strcmp: comparator "\<lambda>_. True" strcmp
  by unfold_locales (rule strcmp_flip, erule (1) strcmp_le_trans)

lemma matches_exact: "\<not> has_wildcard pat \<Longrightarrow> matches fnm pat s = 0 \<longleftrightarrow> s = pat"
  by (simp add: matches_def matches_wildcard_def)

lemma length_takeWhile_eq: "length (takeWhile P xs) = length xs \<longleftrightarrow> list_all P xs"
  by (induction xs) auto

lemma check_name_ok: "check_name name = 0 \<longleftrightarrow> set name \<subseteq> set allowed_name_chars"
  unfolding check_name_def by (auto simp: length_takeWhile_eq list_all_iff)

subsection \<open>Escaping and its inverse\<close>

lemma unescape_escape [simp]: "unescapeString (escape_chars s) = Some s"
  by (induction s) auto

lemma unescape_plain: "BSL \<notin> set s \<Longrightarrow> unescapeString s = Some s"
  by (induction s) auto

lemma escape_chars_bound: "length s \<le> length (escape_chars s)" "length (escape_chars s) \<le> 2 * length s"
  by (induction s) auto

lemma escape_chars_clean: "NL \<notin> set (escape_chars s)" "TAB \<notin> set (escape_chars s)"
  by (induction s) auto

lemma escape_chars_append: "escape_chars (s @ t) = escape_chars s @ escape_chars t"
  by (induction s) auto

lemma escape_chars_Nil_iff [simp]: "escape_chars s = [] \<longleftrightarrow> s = []"
  by (cases s) auto

lemma escape_chars_full:
  "length (escape_chars s) = 2 * length s \<longleftrightarrow> set s \<subseteq> {BSL, NL, TAB}"
proof (induction s)
  case Nil
  then show ?case by simp
next
  case (Cons c s)
  then show ?case using escape_chars_bound(2) [of s] by auto
qed

subsection \<open>Numbers and their text\<close>

lemma of_char_digit: "d < 10 \<Longrightarrow> (of_char (digit_char d) :: nat) = 48 + d"
  by (simp add: digit_char_def)

lemma is_digit_char: "d < 10 \<Longrightarrow> is_digit (digit_char d)"
  by (simp add: is_digit_def of_char_digit)

lemma char_digit_char: "d < 10 \<Longrightarrow> char_digit (digit_char d) = int d"
  by (simp add: char_digit_def of_char_digit)

lemma cint_step: "0 < w \<Longrightarrow> cint w (cint w a * m + b) = cint w (a * m + b)"
proof (rule cint_cong)
  assume "0 < w"
  then have "cint w a mod 2 ^ w = a mod 2 ^ w" by (rule cint_congruent)
  then show "(cint w a * m + b) mod 2 ^ w = (a * m + b) mod 2 ^ w"
    by (intro mod_add_cong mod_mult_cong) simp_all
qed

lemma cint_uminus: "0 < w \<Longrightarrow> cint w (- cint w a) = cint w (- a)"
proof (rule cint_cong)
  assume "0 < w"
  then have "cint w a mod 2 ^ w = a mod 2 ^ w" by (rule cint_congruent)
  then show "- cint w a mod 2 ^ w = - a mod 2 ^ w" by (metis mod_minus_eq)
qed

lemma strtoint64_digits_rev:
  "strtoint64_digits acc (rev (digits_rev v) @ rest) =
   strtoint64_digits (int64 (acc * 10 ^ length (digits_rev v) + int v)) rest"
proof (induction v arbitrary: acc rest rule: digits_rev.induct)
  case (1 v)
  have last: "strtoint64_digits a (digit_char (v mod 10) # rest) =
      strtoint64_digits (int64 (a * 10 + int (v mod 10))) rest" for a
    by (simp add: is_digit_char char_digit_char)
  show ?case
  proof (cases "v div 10 = 0")
    case True
    then have "v mod 10 = v" by auto
    with True show ?thesis using last by (simp add: digits_rev.simps [of v])
  next
    case False
    have "int v = int (v div 10) * 10 + int (v mod 10)"
      by (metis div_mult_mod_eq of_nat_add of_nat_mult of_nat_numeral)
    then have "int64 (int64 (acc * 10 ^ length (digits_rev (v div 10)) + int (v div 10)) * 10 +
        int (v mod 10)) = int64 (acc * 10 ^ Suc (length (digits_rev (v div 10))) + int v)"
      by (subst cint_step) (simp_all add: algebra_simps)
    with False "1.IH" show ?thesis
      using last by (simp add: digits_rev.simps [of v])
  qed
qed

lemma digits_rev_digits: "\<forall>c \<in> set (digits_rev v). is_digit c"
proof (induction v rule: digits_rev.induct)
  case (1 v)
  then show ?case by (subst digits_rev.simps) (auto simp: is_digit_char)
qed

lemma digits_rev_nonempty [simp]: "digits_rev v \<noteq> []"
  by (subst digits_rev.simps) simp

lemma swap_ends_middle:
  "length as = length bs \<Longrightarrow>
   swap_ends (as @ ms @ bs) (length as) (length as + length ms - 1) = as @ rev ms @ bs"
proof (induction ms arbitrary: as bs rule: length_induct)
  case (1 ms)
  show ?case
  proof (cases "length ms \<le> 1")
    case True
    then have "rev ms = ms" by (cases ms) auto
    moreover have "\<not> length as < length as + length ms - 1" using True by linarith
    ultimately show ?thesis by (subst swap_ends.simps) simp
  next
    case False
    then obtain x zs where zs: "ms = x # zs" "zs \<noteq> []" by (cases ms) auto
    obtain ms' y where "zs = ms' @ [y]" using zs(2) by (cases zs rule: rev_exhaust) auto
    with zs have ms: "ms = x # ms' @ [y]" by simp
    let ?i = "length as" and ?j = "length as + length ms - 1"
    have ij: "?i < ?j" "?j < length (as @ ms @ bs)" by (simp_all add: ms)
    have upd: "(as @ ms @ bs)[?i := (as @ ms @ bs) ! ?j, ?j := (as @ ms @ bs) ! ?i]
        = (as @ [y]) @ ms' @ (x # bs)"
      by (simp add: ms nth_append list_update_append)
    have "swap_ends (as @ ms @ bs) ?i ?j =
        swap_ends ((as @ [y]) @ ms' @ (x # bs)) (Suc ?i) (?j - 1)"
      by (subst swap_ends.simps) (use ij upd in simp)
    also have "\<dots> = swap_ends ((as @ [y]) @ ms' @ (x # bs)) (length (as @ [y]))
        (length (as @ [y]) + length ms' - 1)"
      by (simp add: ms)
    also have "\<dots> = (as @ [y]) @ rev ms' @ (x # bs)"
      using 1 by (intro "1.IH" [rule_format]) (simp_all add: ms)
    finally show ?thesis by (simp add: ms)
  qed
qed

lemma swap_ends_rev: "swap_ends xs 0 (length xs - 1) = rev xs"
  using swap_ends_middle [of "[]" "[]" xs] by simp

lemma int64tostr_eq:
  "int64tostr n = (if n < 0 then ''-'' @ rev (digits_rev (nat (uint64 (int64 (- n)))))
                   else rev (digits_rev (nat n)))"
  unfolding int64tostr_def Let_def swap_ends_rev by simp

lemma strtoint64_stop:
  "(rest = [] \<or> \<not> is_digit (hd rest)) \<Longrightarrow> strtoint64_digits acc rest = (acc, rest)"
  by (cases rest) auto

lemma hd_rev_digits: "is_digit (hd (rev (digits_rev v)))"
  by (metis digits_rev_digits digits_rev_nonempty hd_in_set rev_is_Nil_conv set_rev)

lemma not_digit_minus [simp]: "\<not> is_digit (CHR ''-'')"
  by (simp add: is_digit_def)

lemma strtoint64_int64tostr:
  assumes "- (2 ^ 63) \<le> n" and "n < 2 ^ 63" and "rest = [] \<or> \<not> is_digit (hd rest)"
  shows "strtoint64 (int64tostr n @ rest) = (n, rest)"
proof (cases "n < 0")
  case True
  have id: "int64 n = n" using assms by (intro cint_id) auto
  have "uint64 (int64 (- n)) mod 2 ^ 64 = (- n) mod 2 ^ 64"
    using cint_congruent [of 64 "- n"] by (simp add: cuint_def)
  then have "int64 (uint64 (int64 (- n))) = int64 (- n)" by (rule cint_cong)
  moreover have "0 \<le> uint64 (int64 (- n))" by (simp add: cuint_def)
  ultimately have "strtoint64_digits 0 (rev (digits_rev (nat (uint64 (int64 (- n))))) @ rest)
      = (int64 (- n), rest)"
    using assms(3) by (simp add: strtoint64_digits_rev strtoint64_stop)
  moreover have "int64 (- int64 (- n)) = n" using id by (simp add: cint_uminus)
  ultimately show ?thesis using True by (simp add: int64tostr_eq strtoint64_def)
next
  case False
  have "int64 n = n" using assms False by (intro cint_id) auto
  then have "strtoint64_digits 0 (rev (digits_rev (nat n)) @ rest) = (n, rest)"
    using assms(3) False by (simp add: strtoint64_digits_rev strtoint64_stop)
  moreover obtain c cs where c: "rev (digits_rev (nat n)) = c # cs"
    by (meson digits_rev_nonempty list.exhaust rev_is_Nil_conv)
  moreover have "c \<noteq> CHR ''-''" using hd_rev_digits [of "nat n"] c by auto
  ultimately show ?thesis using False by (simp add: int64tostr_eq strtoint64_def)
qed

subsection \<open>Trimming\<close>

lemma removeWhitespace_ends:
  "removeWhitespace s = [] \<or>
   \<not> is_ws (hd (removeWhitespace s)) \<and> \<not> is_ws (last (removeWhitespace s))"
proof (cases "removeWhitespace s = []")
  case False
  let ?t = "rev (dropWhile is_ws (rev s))"
  have hd: "\<not> is_ws (hd (removeWhitespace s))"
    using False unfolding removeWhitespace_def by (metis hd_dropWhile)
  obtain us where us: "?t = us @ removeWhitespace s"
    unfolding removeWhitespace_def by (metis takeWhile_dropWhile_id)
  then have "last (removeWhitespace s) = last ?t" using False by simp
  moreover have "dropWhile is_ws (rev s) \<noteq> []"
    using us False by (metis Nil_is_append_conv rev.simps(1))
  ultimately have "\<not> is_ws (last (removeWhitespace s))"
    by (simp add: last_rev hd_dropWhile)
  with hd show ?thesis by simp
qed simp

lemma removeWhitespace_id:
  "s = [] \<or> \<not> is_ws (hd s) \<and> \<not> is_ws (last s) \<Longrightarrow> removeWhitespace s = s"
proof (cases "s = []")
  case False
  assume "s = [] \<or> \<not> is_ws (hd s) \<and> \<not> is_ws (last s)"
  with False have h: "\<not> is_ws (hd s)" and l: "\<not> is_ws (last s)" by auto
  from l False have "dropWhile is_ws (rev s) = rev s"
    by (metis dropWhile_eq_self_iff hd_rev)
  then have "removeWhitespace s = dropWhile is_ws s"
    unfolding removeWhitespace_def by (simp only: rev_rev_ident)
  with h False show ?thesis by (simp add: dropWhile_eq_self_iff)
qed (simp add: removeWhitespace_def)

lemma removeWhitespace_no_ws: "\<forall>c \<in> set s. \<not> is_ws c \<Longrightarrow> removeWhitespace s = s"
  by (rule removeWhitespace_id) (metis hd_in_set last_in_set)

lemma takeWhile_append_stop: "\<forall>c \<in> set xs. P c \<Longrightarrow> \<not> P y \<Longrightarrow> takeWhile P (xs @ y # ys) = xs"
  by (induction xs) auto

lemma dropWhile_append_stop: "\<forall>c \<in> set xs. P c \<Longrightarrow> \<not> P y \<Longrightarrow> dropWhile P (xs @ y # ys) = y # ys"
  by (induction xs) auto

lemma takeWhile_all: "\<forall>c \<in> set xs. P c \<Longrightarrow> takeWhile P xs = xs"
  by (induction xs) auto

lemma dropWhile_all: "\<forall>c \<in> set xs. P c \<Longrightarrow> dropWhile P xs = []"
  by (induction xs) auto

lemma is_ws_SPC [simp]: "is_ws SPC" by (simp add: is_ws_def)

lemma is_ws_hash [simp]: "\<not> is_ws (CHR ''#'')" by (simp add: is_ws_def)

subsection \<open>State file lines\<close>

definition plain_key :: "string \<Rightarrow> bool" where
  "plain_key key \<longleftrightarrow> key \<noteq> [] \<and> hd key \<noteq> CHR ''#'' \<and>
     (\<forall>c \<in> set key. \<not> is_ws c \<and> c \<noteq> CHR ''['')"

lemma loadKeyValue_plain:
  assumes "plain_key key" and v: "unescapeString txt = Some v"
  shows "loadKeyValue (key @ SPC # txt) = KvPair key None v"
proof -
  from assms(1) obtain k ks where k: "key = k # ks" by (auto simp: plain_key_def neq_Nil_conv)
  with assms(1) have kk: "\<not> is_ws k" "k \<noteq> CHR ''#''" and nows: "\<forall>c \<in> set key. \<not> is_ws c"
    and nobr: "\<forall>c \<in> set key. c \<noteq> CHR ''[''"
    by (auto simp: plain_key_def)
  have "skipWhitespace (key @ SPC # txt) = key @ SPC # txt"
    using kk k by (simp add: skipWhitespace_def)
  moreover have "takeWhile (\<lambda>c. \<not> is_ws c) (key @ SPC # txt) = key"
    using nows by (intro takeWhile_append_stop) auto
  moreover have "skipUntilWhitespace (key @ SPC # txt) = SPC # txt"
    unfolding skipUntilWhitespace_def using nows by (intro dropWhile_append_stop) auto
  moreover have "dropWhile (\<lambda>c. c \<noteq> CHR ''['') key = []"
    using nobr by (intro dropWhile_all) auto
  ultimately show ?thesis using kk k v by (simp add: loadKeyValue_def Let_def)
qed

lemma loadKeyValue_indexed:
  assumes "plain_key key" and v: "unescapeString txt = Some v"
    and ix: "\<forall>c \<in> set ix. \<not> is_ws c"
  shows "loadKeyValue (key @ ''['' @ ix @ '']'' @ SPC # txt) = KvPair key (Some (atoi (ix @ '']''))) v"
proof -
  let ?k = "key @ CHR ''['' # ix @ '']''"
  from assms(1) obtain k ks where k: "key = k # ks" by (auto simp: plain_key_def neq_Nil_conv)
  with assms(1) have kk: "\<not> is_ws k" "k \<noteq> CHR ''#''" and nows: "\<forall>c \<in> set key. \<not> is_ws c"
    and nobr: "\<forall>c \<in> set key. c \<noteq> CHR ''[''"
    by (auto simp: plain_key_def)
  have brws: "\<not> is_ws (CHR ''['')" "\<not> is_ws (CHR '']'')" by (simp_all add: is_ws_def)
  have all: "\<forall>c \<in> set ?k. \<not> is_ws c" using nows ix brws by auto
  have line: "key @ ''['' @ ix @ '']'' @ SPC # txt = ?k @ SPC # txt" by simp
  have "skipWhitespace (?k @ SPC # txt) = ?k @ SPC # txt"
    using kk k by (simp add: skipWhitespace_def)
  moreover have "takeWhile (\<lambda>c. \<not> is_ws c) (?k @ SPC # txt) = ?k"
    using all by (intro takeWhile_append_stop) auto
  moreover have "skipUntilWhitespace (?k @ SPC # txt) = SPC # txt"
    unfolding skipUntilWhitespace_def using all by (intro dropWhile_append_stop) auto
  moreover have "dropWhile (\<lambda>c. c \<noteq> CHR ''['') ?k = CHR ''['' # ix @ '']''"
    using nobr by (intro dropWhile_append_stop) auto
  moreover have "takeWhile (\<lambda>c. c \<noteq> CHR ''['') ?k = key"
    using nobr by (intro takeWhile_append_stop) auto
  ultimately show ?thesis unfolding line using kk k v by (simp add: loadKeyValue_def Let_def)
qed

lemma mod_eq_dvd: "(a::int) mod m = b mod m \<Longrightarrow> k dvd m \<Longrightarrow> a mod k = b mod k"
  by (metis mod_mod_cancel)

lemma atoi_int64tostr:
  assumes "- (2 ^ 31) \<le> n" and "n < 2 ^ 31" and "rest = [] \<or> \<not> is_digit (hd rest)"
  shows "atoi (int64tostr n @ rest) = n"
proof -
  have r: "strtoint64 (int64tostr n @ rest) = (n, rest)"
    using assms by (intro strtoint64_int64tostr) auto
  let ?ws = "\<lambda>c. is_ws c \<or> c \<in> {NL, CHR 0x0B, CHR 0x0C, CHR 0x0D}"
  have id: "int32 n = n" using assms by (intro cint_id) auto
  obtain c cs where c: "int64tostr n @ rest = c # cs" and cc: "c = CHR ''-'' \<or> is_digit c"
    using hd_rev_digits [of "nat n"]
    by (cases "n < 0"; cases "rev (digits_rev (nat n))") (auto simp: int64tostr_eq)
  have nws: "\<not> ?ws c" using cc by (auto simp: is_ws_def is_digit_def)
  have plus: "c \<noteq> CHR ''+''" using cc by (auto simp: is_digit_def)
  show ?thesis
  proof (cases "c = CHR ''-''")
    case True
    have "n = int64 (- fst (strtoint64_digits 0 cs))"
      using r c True by (simp add: strtoint64_def split: prod.splits)
    then have "n mod 2 ^ 64 = (- fst (strtoint64_digits 0 cs)) mod 2 ^ 64"
      by (metis cint_congruent zero_less_numeral)
    moreover have "(2::int) ^ 32 dvd 2 ^ 64" by (rule le_imp_power_dvd) simp
    ultimately have "n mod 2 ^ 32 = (- fst (strtoint64_digits 0 cs)) mod 2 ^ 32"
      by (rule mod_eq_dvd)
    from cint_cong [OF this] have "int32 (- fst (strtoint64_digits 0 cs)) = n" using id by simp
    with True c show ?thesis by (simp add: atoi_def is_ws_def)
  next
    case False
    then have "fst (strtoint64_digits 0 (c # cs)) = n"
      using r c by (simp add: strtoint64_def)
    with False c nws plus id show ?thesis by (simp add: atoi_def)
  qed
qed

subsection \<open>Tokens, lists and times\<close>

lemma seperateTokens_loop_plain:
  "sep \<notin> set s \<Longrightarrow> seperateTokens_loop sep acc (s @ rest) = seperateTokens_loop sep (rev s @ acc) rest"
  by (induction s arbitrary: acc) auto

lemma seperateTokens_loop_tokens:
  "\<forall>t \<in> set ts. t \<noteq> [] \<and> sep \<notin> set t \<Longrightarrow> sep \<notin> set s \<Longrightarrow> acc \<noteq> [] \<or> s \<noteq> [] \<Longrightarrow>
   seperateTokens_loop sep acc (s @ concat (map (Cons sep) ts)) =
   Some (map removeWhitespace ((rev acc @ s) # ts))"
proof (induction ts arbitrary: acc s)
  case Nil
  then show ?case
    using seperateTokens_loop_plain [of sep s acc "[]"] by auto
next
  case (Cons t ts)
  then obtain d ds where t: "t = d # ds" by (auto simp: neq_Nil_conv)
  have "seperateTokens_loop sep [d] (ds @ concat (map (Cons sep) ts)) =
      Some (map removeWhitespace ((rev [d] @ ds) # ts))"
    by (rule Cons.IH) (use Cons.prems t in auto)
  with Cons.prems t show ?case by (simp add: seperateTokens_loop_plain)
qed

lemma seperateTokens_trailing:
  "sep \<notin> set s \<Longrightarrow> seperateTokens (s @ [sep]) sep = None"
  by (simp add: seperateTokens_def seperateTokens_loop_plain)

lemma listAdd_capacity:
  "length (items l) \<le> list_size l \<Longrightarrow>
   length (items (listAdd l x)) \<le> list_size (listAdd l x) \<and> items (listAdd l x) = items l @ [x]"
  by (auto simp: listAdd_def Let_def)

definition timespec_ok :: "timespec \<Rightarrow> bool" where
  "timespec_ok t \<longleftrightarrow> 0 \<le> tv_nsec t \<and> tv_nsec t < 1000000000"

definition timespec_ns :: "timespec \<Rightarrow> int" where
  "timespec_ns t = tv_sec t * 1000000000 + tv_nsec t"

lemma timespec_diff_correct:
  assumes "timespec_ok a" and "timespec_ok b"
  shows "timespec_ok (timespec_diff a b)"
    and "timespec_ns (timespec_diff a b) = timespec_ns b - timespec_ns a"
  using assms by (auto simp: timespec_diff_def timespec_ok_def timespec_ns_def algebra_simps)

subsection \<open>Hex encoding is injective\<close>

definition nibble_char :: "nat \<Rightarrow> char" where
  "nibble_char n = ''0123456789ABCDEF'' ! n"

lemma nibble_inj: "i < 16 \<Longrightarrow> j < 16 \<Longrightarrow> nibble_char i = nibble_char j \<Longrightarrow> i = j"
  unfolding nibble_char_def
  by (rule nth_eq_iff_index_eq [THEN iffD1, of "''0123456789ABCDEF''"]) simp_all

lemma hex_char_eq: "hex_char n = nibble_char (unat n mod 16)"
proof -
  have "n AND 0xF = take_bit 4 n" by (simp add: take_bit_eq_mask mask_eq_exp_minus_1)
  then show ?thesis
    by (simp add: hex_char_def nibble_char_def take_bit_eq_mod unat_mod_distrib)
qed

lemma hex_byte_inj:
  assumes "hex_char (drop_bit 4 a) = hex_char (drop_bit 4 b)" and "hex_char a = hex_char b"
  shows "a = b"
proof -
  have drop: "unat (drop_bit 4 x) = unat x div 16" for x :: "8 word"
    by (simp add: drop_bit_eq_div unat_div_distrib)
  have lt: "unat x < 256" for x :: "8 word" using unsigned_less [of x] by simp
  from assms(2) have lo: "unat a mod 16 = unat b mod 16"
    by (intro nibble_inj) (simp_all add: hex_char_eq)
  from assms(1) have "unat a div 16 mod 16 = unat b div 16 mod 16"
    by (intro nibble_inj) (simp_all add: hex_char_eq drop)
  moreover have "unat a div 16 < 16" "unat b div 16 < 16" using lt [of a] lt [of b] by linarith+
  ultimately have "unat a div 16 = unat b div 16" by simp
  with lo have "unat a = unat b" by (metis div_mult_mod_eq)
  then show ?thesis by (simp add: word_unat_eq_iff)
qed

lemma length_hexEncode: "length (hexEncode bs) = 2 * length bs"
  by (induction bs) auto

lemma hexEncode_eq: "hexEncode bs = hexEncode cs \<Longrightarrow> bs = cs"
proof (induction bs arbitrary: cs)
  case Nil
  then show ?case by (cases cs) auto
next
  case (Cons b bs)
  then obtain c cs' where cs: "cs = c # cs'" by (cases cs) auto
  with Cons.prems have "b = c" by (auto intro: hex_byte_inj)
  with Cons cs show ?case by auto
qed

section \<open>Properties\<close>

text \<open>Writing a field of a state file with \<open>escapeString\<close> and reading it back with
  \<open>unescapeString\<close> gives the original string, for every string, and the escaped text holds
  no newline and no tab, so a field can neither end its line nor split its columns.\<close>

theorem escapeString_roundtrip:
  "unescapeString (snd (escapeString sz s)) = Some s \<and>
   NL \<notin> set (snd (escapeString sz s)) \<and> TAB \<notin> set (snd (escapeString sz s))"
  by (simp add: escapeString_def escape_chars_clean)

text \<open>The static buffer of \<open>escapeString\<close> is one byte too small exactly when it was not
  already larger than twice the string and every character needs escaping (the empty string
  included): then the terminating NUL is written behind the buffer. In every other case the
  escaped text and its terminator fit.\<close>

theorem escapeString_terminator_overflow:
  "fst (escapeString sz s) < length (snd (escapeString sz s)) + 1 \<longleftrightarrow>
   sz \<le> 2 * length s \<and> set s \<subseteq> {BSL, NL, TAB}"
  using escape_chars_bound(2) [of s] escape_chars_full [of s]
  by (auto simp: escapeString_def)

text \<open>Every 64-bit number survives being printed by \<open>int64tostr\<close> and read by
  \<open>strtoint64\<close>, including the smallest one, whose negation overflows in both routines; the
  reader stops at the first character behind the number.\<close>

theorem int64_text_roundtrip:
  assumes "- (2 ^ 63) \<le> n" and "n < 2 ^ 63" and "rest = [] \<or> \<not> is_digit (hd rest)"
  shows "strtoint64 (int64tostr n @ rest) = (n, rest)"
  using assms by (rule strtoint64_int64tostr)

theorem int64_text_roundtrip_witness:
  "strtoint64 (int64tostr (- (2 ^ 63)) @ '',X'') = (- (2 ^ 63), '',X'')"
  by (rule int64_text_roundtrip) (simp_all add: is_digit_def)

text \<open>A line of a state file written as key, blank and escaped value is read back by
  \<open>loadKeyValue\<close> as that key and that value; with an index in brackets behind the key the
  index comes back too. This is the round trip the daemon relies on for every object it
  saves.\<close>

theorem state_line_roundtrip:
  assumes "plain_key key" and "0 \<le> i" and "i < 2 ^ 31"
  shows "loadKeyValue (key @ SPC # snd (escapeString sz v)) = KvPair key None v \<and>
         loadKeyValue (key @ ''['' @ int64tostr i @ '']'' @ SPC # snd (escapeString sz v)) =
         KvPair key (Some i) v"
proof -
  have plain: "loadKeyValue (key @ SPC # escape_chars v) = KvPair key None v"
    using assms by (intro loadKeyValue_plain) simp_all
  have digits: "\<forall>c \<in> set (int64tostr i). \<not> is_ws c"
    using assms digits_rev_digits [of "nat i"]
    by (auto simp: int64tostr_eq is_ws_def is_digit_def)
  have "atoi (int64tostr i @ '']'') = i"
    using assms by (intro atoi_int64tostr) (simp_all add: is_digit_def)
  then show ?thesis
    using plain loadKeyValue_indexed [OF assms(1) unescape_escape digits, of v]
    by (simp add: escapeString_def)
qed

theorem state_line_roundtrip_witness:
  "loadKeyValue (''ARGV'' @ SPC # snd (escapeString 0 [BSL, NL])) = KvPair ''ARGV'' None [BSL, NL] \<and>
   loadKeyValue (''ARGV'' @ ''['' @ int64tostr 3 @ '']'' @ SPC # snd (escapeString 0 [BSL, NL])) =
   KvPair ''ARGV'' (Some 3) [BSL, NL]"
  by (rule state_line_roundtrip) (simp_all add: plain_key_def is_ws_def)

end
