(* ===== verification/Buffer.thy ===== *)
theory Buffer
  imports Common
begin

section \<open>Buffer: the growable byte buffers of buffer.c\<close>

text \<open>
  \<open>src/src/buffer.c\<close>. A \<open>buff_t\<close> is the bytes in use and the allocated size; \<open>used\<close>
  is the length of the bytes. Memory comes from the C allocator, a parameter: for a size it
  either refuses, or resizes the block where it is, or moves it, in which case pointers into
  the old block are stale. A write that leaves the allocated block, a write through a stale
  or NULL pointer, an underflowing length, a loop that never ends and \<open>error_die\<close>, which
  terminates the program (\<open>Abort\<close>), are faults.
\<close>

datatype alloc_result = AllocFail | AllocSame | AllocMoved

type_synonym allocator = "nat \<Rightarrow> alloc_result"

datatype fault = Overflow | StalePointer | NullPointer | Underflow | Diverges | Abort

record buff =
  bdata :: string
  bsize :: nat

definition BUFF_DEFAULT_SIZE :: nat where
  "BUFF_DEFAULT_SIZE = 4096"

abbreviation size_max :: nat where "size_max \<equiv> 2 ^ 64"

definition buff_ok :: "buff \<Rightarrow> bool" where
  "buff_ok b \<longleftrightarrow> length (bdata b) \<le> bsize b"

definition buffNew :: "allocator \<Rightarrow> nat \<Rightarrow> buff option" where
  "buffNew alloc initial_size =
     (let sz = (if initial_size \<noteq> 0 then initial_size else BUFF_DEFAULT_SIZE)
      in if alloc sz = AllocFail then None else Some \<lparr>bdata = [], bsize = sz\<rparr>)"

definition buffFree :: "buff \<Rightarrow> buff" where
  "buffFree b = \<lparr>bdata = [], bsize = 0\<rparr>"

text \<open>The doubling loop of \<open>buffResize\<close>, at the width of \<open>size_t\<close>; \<open>None\<close> is no end.\<close>

partial_function (option) grow_size :: "nat \<Rightarrow> nat \<Rightarrow> nat option" where
  "grow_size new_size need =
     (if new_size \<le> need then grow_size ((new_size * 2) mod size_max) need else Some new_size)"

text \<open>\<open>buffResize\<close>: its return value as a flag, whether the block moved, and the buffer.\<close>

definition buffResize :: "allocator \<Rightarrow> buff \<Rightarrow> nat \<Rightarrow> fault + (bool \<times> bool \<times> buff)" where
  "buffResize alloc b len =
     (let len = (if len = 0 then BUFF_DEFAULT_SIZE else len);
          need = (length (bdata b) + len) mod size_max
      in if need \<le> bsize b then Inr (False, False, b)
         else (case grow_size (if bsize b = 0 then BUFF_DEFAULT_SIZE else bsize b) need of
                 None \<Rightarrow> Inl Diverges
               | Some n \<Rightarrow>
                   (case alloc n of
                      AllocFail \<Rightarrow> Inr (True, False, b)
                    | AllocSame \<Rightarrow> Inr (False, False, b\<lparr>bsize := n\<rparr>)
                    | AllocMoved \<Rightarrow> Inr (False, True, b\<lparr>bsize := n\<rparr>))))"

definition buffShrink :: "allocator \<Rightarrow> buff \<Rightarrow> nat \<Rightarrow> buff" where
  "buffShrink alloc b min_size =
     (let sz = max (length (bdata b)) BUFF_DEFAULT_SIZE;
          sz = (if min_size > sz then min_size else sz)
      in if alloc sz = AllocFail then b else b\<lparr>bsize := sz\<rparr>)"

text \<open>
  The write pattern of the daemon: make room for \<open>required\<close> more bytes, ignoring the
  return value, then store \<open>txt\<close> behind the bytes in use.
\<close>

definition buffPut :: "allocator \<Rightarrow> buff \<Rightarrow> nat \<Rightarrow> string \<Rightarrow> fault + buff" where
  "buffPut alloc b required txt =
     (case buffResize alloc b required of
        Inl e \<Rightarrow> Inl e
      | Inr (_, _, b') \<Rightarrow>
          if bsize b' < length (bdata b') + length txt then Inl Overflow
          else Inr (b'\<lparr>bdata := bdata b' @ txt\<rparr>))"

definition buffAdd :: "allocator \<Rightarrow> buff \<Rightarrow> string \<Rightarrow> fault + buff" where
  "buffAdd alloc b new_data = buffPut alloc b (length new_data) new_data"

definition buffAddBuff :: "allocator \<Rightarrow> buff \<Rightarrow> buff \<Rightarrow> fault + buff" where
  "buffAddBuff alloc b new_data = buffAdd alloc b (bdata new_data)"

definition buffRemove :: "allocator \<Rightarrow> buff \<Rightarrow> nat \<Rightarrow> bool \<Rightarrow> fault + buff" where
  "buffRemove alloc b data_size shrink =
     (if data_size = 0 then Inr b
      else if length (bdata b) < data_size then Inl Underflow
      else (let b' = b\<lparr>bdata := drop data_size (bdata b)\<rparr>
            in Inr (if shrink then buffShrink alloc b' 0 else b')))"

definition buffClear :: "allocator \<Rightarrow> buff \<Rightarrow> nat \<Rightarrow> buff" where
  "buffClear alloc b sz =
     (let b' = b\<lparr>bdata := []\<rparr> in if sz \<noteq> 0 then buffShrink alloc b' sz else b')"

subsection \<open>Growing\<close>

lemma grow_size_enough:
  assumes "0 < n" and "need < 2 ^ 63"
  shows "\<exists>r. grow_size n need = Some r \<and> need < r \<and> n \<le> r"
  using assms(1)
proof (induction "Suc need - n" arbitrary: n rule: less_induct)
  case less
  show ?case
  proof (cases "n \<le> need")
    case False
    then show ?thesis by (subst grow_size.simps) simp
  next
    case True
    then have lt: "n * 2 < size_max" using assms(2) by simp
    have "Suc need - n * 2 < Suc need - n" using True less.prems by linarith
    then obtain r where "grow_size (n * 2) need = Some r" "need < r" "n * 2 \<le> r"
      using less.hyps [of "n * 2"] less.prems by auto
    with True lt show ?thesis by (subst grow_size.simps) simp
  qed
qed

lemma start_size_pos: "0 < (if bsize b = 0 then BUFF_DEFAULT_SIZE else bsize b)"
  by (simp add: BUFF_DEFAULT_SIZE_def)

text \<open>Room for a whole buffer and a request: what the daemon's messages stay within.\<close>

definition roomy :: "buff \<Rightarrow> nat \<Rightarrow> bool" where
  "roomy b n \<longleftrightarrow> length (bdata b) + max n BUFF_DEFAULT_SIZE < 2 ^ 63"

definition never_fails :: "allocator \<Rightarrow> bool" where
  "never_fails alloc \<longleftrightarrow> (\<forall>n. alloc n \<noteq> AllocFail)"

lemma buffResize_ok:
  assumes "roomy b len" and "never_fails alloc"
  obtains moved b' where "buffResize alloc b len = Inr (False, moved, b')" and "bdata b' = bdata b"
    and "length (bdata b) + len \<le> bsize b'" and "bsize b \<le> bsize b'"
    and "moved \<Longrightarrow> bsize b < length (bdata b) + (if len = 0 then BUFF_DEFAULT_SIZE else len)"
proof -
  let ?len = "if len = 0 then BUFF_DEFAULT_SIZE else len"
  let ?need = "length (bdata b) + ?len"
  have need: "?need < 2 ^ 63" using assms(1) by (auto simp: roomy_def split: if_splits)
  then have m: "?need mod size_max = ?need" by simp
  show thesis
  proof (cases "?need \<le> bsize b")
    case True
    then have "buffResize alloc b len = Inr (False, False, b)"
      using m by (simp add: buffResize_def Let_def)
    then show thesis using that True by (auto split: if_splits)
  next
    case False
    let ?n = "if bsize b = 0 then BUFF_DEFAULT_SIZE else bsize b"
    obtain r where r: "grow_size ?n ?need = Some r" "?need < r" "?n \<le> r"
      using grow_size_enough [OF start_size_pos need] by blast
    have "alloc r \<noteq> AllocFail" using assms(2) by (simp add: never_fails_def)
    then have "buffResize alloc b len = Inr (False, alloc r = AllocMoved, b\<lparr>bsize := r\<rparr>)"
      using False m r(1) by (cases "alloc r") (simp_all add: buffResize_def Let_def)
    then show thesis using that False r by (auto split: if_splits)
  qed
qed

lemma buffPut_ok:
  assumes "buff_ok b" and "roomy b required" and "never_fails alloc" and "length txt \<le> required"
  shows "\<exists>b'. buffPut alloc b required txt = Inr b' \<and> bdata b' = bdata b @ txt \<and> buff_ok b'"
proof -
  obtain moved b' where r: "buffResize alloc b required = Inr (False, moved, b')"
    and d: "bdata b' = bdata b" and sz: "length (bdata b) + required \<le> bsize b'"
    using buffResize_ok assms(2,3) by metis
  from sz assms(4) d have "\<not> bsize b' < length (bdata b') + length txt" by simp
  with r d show ?thesis by (simp add: buffPut_def buff_ok_def)
qed

lemma buffPut_sound:
  "buffPut alloc b required txt = Inr b' \<Longrightarrow> bdata b' = bdata b @ txt \<and> buff_ok b'"
  by (auto simp: buffPut_def buffResize_def Let_def buff_ok_def
      split: sum.splits option.splits alloc_result.splits if_splits)

lemma buffShrink_ok:
  "buff_ok b \<Longrightarrow> buff_ok (buffShrink alloc b n) \<and> bdata (buffShrink alloc b n) = bdata b"
  by (auto simp: buffShrink_def buff_ok_def Let_def)

section \<open>Properties\<close>

text \<open>Appending to a buffer whose contents stay below 2^63 bytes, with an allocator that
  does not refuse, terminates, never writes outside the allocated block, keeps the bytes in
  use within it and appends exactly the given bytes.\<close>

theorem buffAdd_appends:
  assumes "buff_ok b" and "roomy b (length txt)" and "never_fails alloc"
  shows "\<exists>b'. buffAdd alloc b txt = Inr b' \<and> bdata b' = bdata b @ txt \<and> buff_ok b'"
  unfolding buffAdd_def using assms by (intro buffPut_ok) simp_all

theorem buffAdd_appends_witness:
  "\<exists>b'. buffAdd (\<lambda>_. AllocMoved) \<lparr>bdata = ''ab'', bsize = 2\<rparr> ''cd'' = Inr b' \<and>
        bdata b' = ''ab'' @ ''cd'' \<and> buff_ok b'"
  using buffAdd_appends [of "\<lparr>bdata = ''ab'', bsize = 2\<rparr>" "''cd''" "\<lambda>_. AllocMoved"]
  by (simp add: buff_ok_def roomy_def never_fails_def BUFF_DEFAULT_SIZE_def)

text \<open>\<open>buffAdd\<close> ignores the return value of \<open>buffResize\<close>: when the buffer has to grow
  and the allocator refuses, the bytes are copied behind the end of the old block.\<close>

theorem buffAdd_overflows_when_out_of_memory:
  assumes "txt \<noteq> []" and "bsize b < length (bdata b) + length txt"
    and "length (bdata b) + length txt < 2 ^ 63" and "\<And>n. alloc n = AllocFail"
  shows "buffAdd alloc b txt = Inl Overflow"
proof -
  let ?n = "if bsize b = 0 then BUFF_DEFAULT_SIZE else bsize b"
  have m: "(length (bdata b) + length txt) mod size_max = length (bdata b) + length txt"
    using assms(3) by simp
  obtain r where "grow_size ?n (length (bdata b) + length txt) = Some r"
    using grow_size_enough [OF start_size_pos assms(3)] by blast
  then have "buffResize alloc b (length txt) = Inr (True, False, b)"
    using assms m by (simp add: buffResize_def Let_def)
  with assms(2) show ?thesis by (simp add: buffAdd_def buffPut_def)
qed

theorem buffAdd_overflows_witness:
  "buffAdd (\<lambda>_. AllocFail) \<lparr>bdata = ''ab'', bsize = 2\<rparr> ''cd'' = Inl Overflow"
  by (rule buffAdd_overflows_when_out_of_memory) simp_all

text \<open>Reading a request out of a buffer: removing a prefix that was appended leaves the
  bytes behind it, keeps the buffer within its block, and removing more bytes than are in use
  is the only way to underflow.\<close>

theorem buffRemove_prefix:
  assumes "buff_ok b" and "bdata b = pre @ rest"
  shows "\<exists>b'. buffRemove alloc b (length pre) shrink = Inr b' \<and> bdata b' = rest \<and> buff_ok b'"
proof -
  let ?b = "b\<lparr>bdata := rest\<rparr>"
  have ok: "buff_ok ?b" using assms by (simp add: buff_ok_def)
  show ?thesis
  proof (cases "pre = []")
    case True
    with assms show ?thesis by (simp add: buffRemove_def)
  next
    case False
    with assms ok buffShrink_ok [OF ok, of alloc 0] show ?thesis
      by (simp add: buffRemove_def Let_def)
  qed
qed

theorem buffRemove_prefix_witness:
  "\<exists>b'. buffRemove (\<lambda>_. AllocSame) \<lparr>bdata = ''ab'' @ ''cd'', bsize = 9\<rparr> (length ''ab'') True = Inr b' \<and>
        bdata b' = ''cd'' \<and> buff_ok b'"
  by (rule buffRemove_prefix) (simp_all add: buff_ok_def)

end
