(* ===== verification/Field_Table.thy ===== *)
theory Field_Table
  imports Common
begin

unbundle bit_operations_syntax

section \<open>Field table: the field names of the wire protocol\<close>

text \<open>
  \<open>src/src/fields.h\<close> and the table of \<open>src/src/fields.c\<close>: every field of a message
  has a number (the enumeration, here one name per number), a type and a name. The table is
  indexed by number; incoming names are looked up by \<open>fieldtonum\<close>, with a binary search
  in a sorted copy of the table once \<open>sortfields\<close> has run and a linear scan before.
\<close>

subsection \<open>The enumeration of fields.h\<close>

abbreviation (input) JOBID :: nat where "JOBID \<equiv> 0"
abbreviation (input) JOBNAME :: nat where "JOBNAME \<equiv> 1"
abbreviation (input) QUEUENAME :: nat where "QUEUENAME \<equiv> 2"
abbreviation (input) ARGS :: nat where "ARGS \<equiv> 3"
abbreviation (input) ENVS :: nat where "ENVS \<equiv> 4"
abbreviation (input) UID :: nat where "UID \<equiv> 5"
abbreviation (input) SHELL :: nat where "SHELL \<equiv> 6"
abbreviation (input) PRIORITY :: nat where "PRIORITY \<equiv> 7"
abbreviation (input) HOLD :: nat where "HOLD \<equiv> 8"
abbreviation (input) PRECMD :: nat where "PRECMD \<equiv> 9"
abbreviation (input) POSTCMD :: nat where "POSTCMD \<equiv> 10"
abbreviation (input) DEFERTIME :: nat where "DEFERTIME \<equiv> 11"
abbreviation (input) SUBMITTIME :: nat where "SUBMITTIME \<equiv> 12"
abbreviation (input) STARTTIME :: nat where "STARTTIME \<equiv> 13"
abbreviation (input) TAGS :: nat where "TAGS \<equiv> 14"
abbreviation (input) STATE :: nat where "STATE \<equiv> 15"
abbreviation (input) NICE :: nat where "NICE \<equiv> 16"
abbreviation (input) STDOUT :: nat where "STDOUT \<equiv> 17"
abbreviation (input) STDERR :: nat where "STDERR \<equiv> 18"
abbreviation (input) FINISHTIME :: nat where "FINISHTIME \<equiv> 19"
abbreviation (input) NODE :: nat where "NODE \<equiv> 20"
abbreviation (input) RESOURCES :: nat where "RESOURCES \<equiv> 21"
abbreviation (input) RETFIELDS :: nat where "RETFIELDS \<equiv> 22"
abbreviation (input) JOBPID :: nat where "JOBPID \<equiv> 23"
abbreviation (input) EXITCODE :: nat where "EXITCODE \<equiv> 24"
abbreviation (input) DESC :: nat where "DESC \<equiv> 25"
abbreviation (input) JOBLIMIT :: nat where "JOBLIMIT \<equiv> 26"
abbreviation (input) RESTART :: nat where "RESTART \<equiv> 27"
abbreviation (input) RESNAME :: nat where "RESNAME \<equiv> 28"
abbreviation (input) RESCOUNT :: nat where "RESCOUNT \<equiv> 29"
abbreviation (input) STATSRUNNING :: nat where "STATSRUNNING \<equiv> 30"
abbreviation (input) STATSPENDING :: nat where "STATSPENDING \<equiv> 31"
abbreviation (input) STATSDEFERRED :: nat where "STATSDEFERRED \<equiv> 32"
abbreviation (input) STATSHOLDING :: nat where "STATSHOLDING \<equiv> 33"
abbreviation (input) STATSCOMPLETED :: nat where "STATSCOMPLETED \<equiv> 34"
abbreviation (input) STATSEXITED :: nat where "STATSEXITED \<equiv> 35"
abbreviation (input) STATSUNKNOWN :: nat where "STATSUNKNOWN \<equiv> 36"
abbreviation (input) STATSTOTALSUBMITTED :: nat where "STATSTOTALSUBMITTED \<equiv> 37"
abbreviation (input) STATSTOTALSTARTED :: nat where "STATSTOTALSTARTED \<equiv> 38"
abbreviation (input) STATSTOTALCOMPLETED :: nat where "STATSTOTALCOMPLETED \<equiv> 39"
abbreviation (input) STATSTOTALEXITED :: nat where "STATSTOTALEXITED \<equiv> 40"
abbreviation (input) STATSTOTALDELETED :: nat where "STATSTOTALDELETED \<equiv> 41"
abbreviation (input) STATSTOTALUNKNOWN :: nat where "STATSTOTALUNKNOWN \<equiv> 42"
abbreviation (input) WRAPPER :: nat where "WRAPPER \<equiv> 43"
abbreviation (input) COMMENT :: nat where "COMMENT \<equiv> 44"
abbreviation (input) RESINUSE :: nat where "RESINUSE \<equiv> 45"
abbreviation (input) SIGNAL :: nat where "SIGNAL \<equiv> 46"
abbreviation (input) TAG_KEY :: nat where "TAG_KEY \<equiv> 47"
abbreviation (input) TAG_VALUE :: nat where "TAG_VALUE \<equiv> 48"
abbreviation (input) PENDREASON :: nat where "PENDREASON \<equiv> 49"
abbreviation (input) FAILREASON :: nat where "FAILREASON \<equiv> 50"
abbreviation (input) SUBMITTER :: nat where "SUBMITTER \<equiv> 51"
abbreviation (input) DEFAULT :: nat where "DEFAULT \<equiv> 52"
abbreviation (input) USAGE_UTIME_SEC :: nat where "USAGE_UTIME_SEC \<equiv> 53"
abbreviation (input) USAGE_UTIME_USEC :: nat where "USAGE_UTIME_USEC \<equiv> 54"
abbreviation (input) USAGE_STIME_SEC :: nat where "USAGE_STIME_SEC \<equiv> 55"
abbreviation (input) USAGE_STIME_USEC :: nat where "USAGE_STIME_USEC \<equiv> 56"
abbreviation (input) USAGE_MAXRSS :: nat where "USAGE_MAXRSS \<equiv> 57"
abbreviation (input) USAGE_MINFLT :: nat where "USAGE_MINFLT \<equiv> 58"
abbreviation (input) USAGE_MAJFLT :: nat where "USAGE_MAJFLT \<equiv> 59"
abbreviation (input) USAGE_INBLOCK :: nat where "USAGE_INBLOCK \<equiv> 60"
abbreviation (input) USAGE_OUBLOCK :: nat where "USAGE_OUBLOCK \<equiv> 61"
abbreviation (input) USAGE_NVCSW :: nat where "USAGE_NVCSW \<equiv> 62"
abbreviation (input) USAGE_NIVCSW :: nat where "USAGE_NIVCSW \<equiv> 63"
abbreviation (input) CLEARRES :: nat where "CLEARRES \<equiv> 64"
abbreviation (input) NONCE :: nat where "NONCE \<equiv> 65"
abbreviation (input) DATETIME :: nat where "DATETIME \<equiv> 66"
abbreviation (input) MSG_HMAC :: nat where "MSG_HMAC \<equiv> 67"
abbreviation (input) CONNECTED :: nat where "CONNECTED \<equiv> 68"
abbreviation (input) PID :: nat where "PID \<equiv> 69"
abbreviation (input) PROXYDATA :: nat where "PROXYDATA \<equiv> 70"
abbreviation (input) ACCT_ID :: nat where "ACCT_ID \<equiv> 71"
abbreviation (input) ERROR :: nat where "ERROR \<equiv> 72"
abbreviation (input) RETURNCODE :: nat where "RETURNCODE \<equiv> 73"
abbreviation (input) VERSION :: nat where "VERSION \<equiv> 74"
abbreviation (input) ALERT :: nat where "ALERT \<equiv> 75"
abbreviation (input) BEFORE_ADDED :: nat where "BEFORE_ADDED \<equiv> 76"
abbreviation (input) BEFORE_STARTED :: nat where "BEFORE_STARTED \<equiv> 77"
abbreviation (input) BEFORE_FINISHED :: nat where "BEFORE_FINISHED \<equiv> 78"
abbreviation (input) AFTER_ADDED :: nat where "AFTER_ADDED \<equiv> 79"
abbreviation (input) AFTER_STARTED :: nat where "AFTER_STARTED \<equiv> 80"
abbreviation (input) AFTER_FINISHED :: nat where "AFTER_FINISHED \<equiv> 81"
abbreviation (input) REVISION :: nat where "REVISION \<equiv> 82"
abbreviation (input) TIMEOUT :: nat where "TIMEOUT \<equiv> 83"
abbreviation (input) COMMAND :: nat where "COMMAND \<equiv> 84"
abbreviation (input) TIMESTAMP :: nat where "TIMESTAMP \<equiv> 85"
abbreviation (input) FLAGS :: nat where "FLAGS \<equiv> 86"
abbreviation (input) ENDOFFIELDS :: nat where "ENDOFFIELDS \<equiv> 87"
datatype ftype = FT_BOOL | FT_STRING | FT_NUM | FT_STRINGARRAY | FT_MAP | FT_NONE

record field_def =
  fd_number :: nat
  fd_type :: ftype
  fd_name :: string

definition mk_field :: "nat \<times> ftype \<times> string \<Rightarrow> field_def" where
  "mk_field t = (case t of (n, ty, nm) \<Rightarrow> \<lparr>fd_number = n, fd_type = ty, fd_name = nm\<rparr>)"

definition field_rows :: "(nat \<times> ftype \<times> string) list" where
  "field_rows =
    [
     (JOBID, FT_NUM, ''JOBID''),
          (JOBNAME, FT_STRING, ''JOBNAME''),
          (QUEUENAME, FT_STRING, ''QUEUENAME''),
          (ARGS, FT_STRINGARRAY, ''ARGS''),
          (ENVS, FT_STRINGARRAY, ''ENVS''),
          (UID, FT_NUM, ''UID''),
          (SHELL, FT_STRING, ''SHELL''),
          (PRIORITY, FT_NUM, ''PRIORITY''),
          (HOLD, FT_BOOL, ''HOLD''),
          (PRECMD, FT_STRING, ''PRECMD''),
          (POSTCMD, FT_STRING, ''POSTCMD''),
          (DEFERTIME, FT_NUM, ''DEFERTIME''),
          (SUBMITTIME, FT_NUM, ''SUBMITTIME''),
          (STARTTIME, FT_NUM, ''STARTIME''),
          (TAGS, FT_MAP, ''TAGS''),
          (STATE, FT_NUM, ''STATE''),
          (NICE, FT_NUM, ''NICE''),
          (STDOUT, FT_STRING, ''STDOUT''),
          (STDERR, FT_STRING, ''STDERR''),
          (FINISHTIME, FT_NUM, ''FINISHTIME''),
          (NODE, FT_STRING, ''NODE''),
          (RESOURCES, FT_STRINGARRAY, ''RESOURCES''),
          (RETFIELDS, FT_NUM, ''RETFIELDS''),
          (JOBPID, FT_NUM, ''JOBPID''),
          (EXITCODE, FT_NUM, ''EXITCODE''),
          (DESC, FT_STRING, ''DESC''),
          (JOBLIMIT, FT_NUM, ''JOBLIMIT''),
          (RESTART, FT_BOOL, ''RESTART''),
          (RESNAME, FT_STRING, ''RESNAME''),
          (RESCOUNT, FT_NUM, ''RESCOUNT''),
          (STATSRUNNING, FT_NUM, ''STATSRUNNING''),
          (STATSPENDING, FT_NUM, ''STATSPENDING''),
          (STATSDEFERRED, FT_NUM, ''STATSDEFERRED''),
          (STATSHOLDING, FT_NUM, ''STATSHOLDING''),
          (STATSCOMPLETED, FT_NUM, ''STATSCOMPLETED''),
          (STATSEXITED, FT_NUM, ''STATSEXITED''),
          (STATSUNKNOWN, FT_NUM, ''STATSUNKNOW''),
          (STATSTOTALSUBMITTED, FT_NUM, ''STATSTOTALSUBMITTED''),
          (STATSTOTALSTARTED, FT_NUM, ''STATSTOTALSTARTED''),
          (STATSTOTALCOMPLETED, FT_NUM, ''STATSTOTALCOMPLETED''),
          (STATSTOTALEXITED, FT_NUM, ''STATSTOTALEXITED''),
          (STATSTOTALDELETED, FT_NUM, ''STATSTOTALDELETED''),
          (STATSTOTALUNKNOWN, FT_NUM, ''STATSTOTALUNKNOWN''),
          (WRAPPER, FT_STRING, ''WRAPPER''),
          (COMMENT, FT_STRING, ''COMMENT''),
          (RESINUSE, FT_NUM, ''RESINUSE''),
          (SIGNAL, FT_NUM, ''SIGNAL''),
          (TAG_KEY, FT_STRING, ''TAG_KEY''),
          (TAG_VALUE, FT_STRING, ''TAG_VALUE''),
          (PENDREASON, FT_NUM, ''PENDREASON''),
          (FAILREASON, FT_NUM, ''FAILREASON''),
          (SUBMITTER, FT_NUM, ''SUBMITTER''),
          (DEFAULT, FT_BOOL, ''DEFAULT''),
          (USAGE_UTIME_SEC, FT_NUM, ''USAGE_UTIME_SEC''),
          (USAGE_UTIME_USEC, FT_NUM, ''USAGE_UTIME_USEC''),
          (USAGE_STIME_SEC, FT_NUM, ''USAGE_STIME_SEC''),
          (USAGE_STIME_USEC, FT_NUM, ''USAGE_STIME_USEC''),
          (USAGE_MAXRSS, FT_NUM, ''USAGE_MAXRSS''),
          (USAGE_MINFLT, FT_NUM, ''USAGE_MINFLT''),
          (USAGE_MAJFLT, FT_NUM, ''USAGE_MAJFLT''),
          (USAGE_INBLOCK, FT_NUM, ''USAGE_INBLOCK''),
          (USAGE_OUBLOCK, FT_NUM, ''USAGE_OUBLOCK''),
          (USAGE_NVCSW, FT_NUM, ''USAGE_NVCSW''),
          (USAGE_NIVCSW, FT_NUM, ''USAGE_NIVCSW''),
          (CLEARRES, FT_BOOL, ''CLEARRES''),
          (NONCE, FT_STRING, ''NONCE''),
          (DATETIME, FT_NUM, ''DATETIME''),
          (MSG_HMAC, FT_STRING, ''HMAC''),
          (CONNECTED, FT_BOOL, ''CONNECTED''),
          (PID, FT_NUM, ''PID''),
          (PROXYDATA, FT_STRING, ''PROXYDATA''),
          (ACCT_ID, FT_NUM, ''ACCT_ID''),
          (ERROR, FT_STRING, ''ERROR''),
          (RETURNCODE, FT_STRING, ''RETURN_CODE''),
          (VERSION, FT_NUM, ''VERSION''),
          (ALERT, FT_STRING, ''ALERT''),
          (BEFORE_ADDED, FT_NUM, ''BEFORE_ADDED''),
          (BEFORE_STARTED, FT_NUM, ''BEFORE_STARTED''),
          (BEFORE_FINISHED, FT_NUM, ''BEFORE_FINISHED''),
          (AFTER_ADDED, FT_NUM, ''AFTER_ADDED''),
          (AFTER_STARTED, FT_NUM, ''AFTER_STARTED''),
          (AFTER_FINISHED, FT_NUM, ''AFTER_FINISHED''),
          (REVISION, FT_NUM, ''REVISION''),
          (TIMEOUT, FT_NUM, ''TIMEOUT''),
          (COMMAND, FT_STRING, ''COMMAND''),
          (TIMESTAMP, FT_STRING, ''TIMESTAMP''),
          (FLAGS, FT_NUM, ''FLAGS''),
          (ENDOFFIELDS, FT_NUM, ''ENDOFFIELDS'')    ]"

definition field_table :: "field_def list" where
  "field_table = map mk_field field_rows"

text \<open>The name of a field: \<open>None\<close> is the NULL of a number that is not in the table.\<close>

definition getFieldName :: "nat \<Rightarrow> string option" where
  "getFieldName field_no =
     (if ENDOFFIELDS \<le> field_no then None else Some (fd_name (field_table ! field_no)))"

definition compfield :: "field_def \<Rightarrow> field_def \<Rightarrow> int" where
  "compfield a b = strcmp (fd_name a) (fd_name b)"

definition sortfields :: "field_def list" where
  "sortfields = qsort compfield field_table"

fun linear_find :: "string \<Rightarrow> nat \<Rightarrow> field_def list \<Rightarrow> int" where
  "linear_find name i [] = -1"
| "linear_find name i (f # fs) = (if name = fd_name f then int i else linear_find name (Suc i) fs)"

definition fieldtonum :: "field_def list option \<Rightarrow> string \<Rightarrow> int" where
  "fieldtonum sortedFields name =
     (case sortedFields of
        Some tbl \<Rightarrow>
          (case bsearch (compfield \<lparr>fd_number = 0, fd_type = FT_BOOL, fd_name = name\<rparr>) tbl of
             None \<Rightarrow> -1
           | Some f \<Rightarrow> int (fd_number f))
      | None \<Rightarrow> linear_find name 0 field_table)"

text \<open>\<open>setField\<close> and \<open>isFieldSet\<close> on the 64-byte bitmap of a message item.\<close>

definition setField :: "8 word list \<Rightarrow> nat \<Rightarrow> 8 word list" where
  "setField bitmap n = bitmap[n div 8 := (bitmap ! (n div 8)) OR push_bit (n mod 8) 1]"

definition isFieldSet :: "8 word list \<Rightarrow> nat \<Rightarrow> bool" where
  "isFieldSet bitmap n \<longleftrightarrow> drop_bit (n mod 8) (bitmap ! (n div 8)) AND 1 = 1"

subsection \<open>The table\<close>

lemma length_fields: "length field_table = 88"
  by (simp add: field_table_def field_rows_def)

lemma fields_numbered: "map fd_number field_table = [0..<88]"
  by code_simp

lemma fields_distinct: "distinct (map fd_name field_table)"
  by code_simp

subsection \<open>Looking a name up\<close>

lemma compfield_zero: "compfield a b = 0 \<longleftrightarrow> fd_name a = fd_name b"
  by (simp add: compfield_def)

interpretation compfield: comparator "\<lambda>_. True" compfield
  unfolding compfield_def
  by unfold_locales (rule strcmp.cmp_flip, simp_all, erule (1) strcmp_le_trans)

lemma linear_find_iff:
  "linear_find name i fs = int k \<longleftrightarrow>
   (\<exists>n < length fs. k = i + n \<and> fd_name (fs ! n) = name \<and> (\<forall>m < n. fd_name (fs ! m) \<noteq> name))"
proof (induction fs arbitrary: i)
  case Nil
  then show ?case by simp
next
  case (Cons f fs)
  show ?case
  proof (cases "name = fd_name f")
    case True
    then show ?thesis by (auto intro: exI [of _ 0]) (metis neq0_conv nth_Cons_0)
  next
    case False
    have "(\<exists>n < length (f # fs). k = i + n \<and> fd_name ((f # fs) ! n) = name \<and>
            (\<forall>m < n. fd_name ((f # fs) ! m) \<noteq> name)) \<longleftrightarrow>
          (\<exists>n < length fs. k = Suc i + n \<and> fd_name (fs ! n) = name \<and>
            (\<forall>m < n. fd_name (fs ! m) \<noteq> name))" (is "?L = ?R")
    proof
      assume ?L
      then obtain n where n: "n < length (f # fs)" "k = i + n" "fd_name ((f # fs) ! n) = name"
        "\<forall>m < n. fd_name ((f # fs) ! m) \<noteq> name" by blast
      with False obtain n' where "n = Suc n'" by (cases n) auto
      with n show ?R by (intro exI [of _ n']) auto
    next
      assume ?R
      then obtain n where n: "n < length fs" "k = Suc i + n" "fd_name (fs ! n) = name"
        "\<forall>m < n. fd_name (fs ! m) \<noteq> name" by blast
      with False show ?L
        by (intro exI [of _ "Suc n"]) (auto simp: nth_Cons split: nat.splits)
    qed
    with False Cons show ?thesis by simp
  qed
qed

lemma linear_find_range: "linear_find name i fs = -1 \<or> (\<exists>k. linear_find name i fs = int k)"
  by (induction fs arbitrary: i) auto

lemma linear_find_none: "linear_find name i fs = -1 \<longleftrightarrow> name \<notin> fd_name ` set fs"
  by (induction fs arbitrary: i) auto

lemma field_number_nth: "n < 88 \<Longrightarrow> fd_number (field_table ! n) = n"
  using fields_numbered by (metis length_fields nth_map nth_upt plus_nat.add_0)

lemma field_name_inj: "a \<in> set field_table \<Longrightarrow> b \<in> set field_table \<Longrightarrow> fd_name a = fd_name b \<Longrightarrow> a = b"
  using fields_distinct by (metis distinct_map inj_onD)

lemma linear_find_fields:
  assumes "f \<in> set field_table"
  shows "linear_find (fd_name f) 0 field_table = int (fd_number f)"
proof -
  obtain n where n: "n < 88" "field_table ! n = f"
    using assms length_fields by (auto simp: in_set_conv_nth)
  have "\<forall>m < n. fd_name (field_table ! m) \<noteq> fd_name f"
    using nth_eq_iff_index_eq [OF fields_distinct, of _ n] n length_fields by fastforce
  then have "linear_find (fd_name f) 0 field_table = int n"
    using n length_fields by (subst linear_find_iff) auto
  with n field_number_nth show ?thesis by metis
qed

lemma bsearch_fields:
  assumes "f \<in> set field_table"
  shows "bsearch (compfield \<lparr>fd_number = 0, fd_type = FT_BOOL, fd_name = fd_name f\<rparr>) sortfields = Some f"
proof -
  let ?k = "\<lparr>fd_number = 0, fd_type = FT_BOOL, fd_name = fd_name f\<rparr>"
  have "\<exists>y. bsearch (compfield ?k) sortfields = Some y \<and> y \<in> set sortfields \<and> compfield ?k y = 0"
    using assms unfolding sortfields_def
    by (intro compfield.bsearch_complete compfield.sorted_qsort [simplified])
      (auto simp: compfield_zero)
  then obtain y where y: "bsearch (compfield ?k) sortfields = Some y" "y \<in> set field_table" "compfield ?k y = 0"
    by (auto simp: sortfields_def)
  then have "y = f" using assms by (intro field_name_inj) (auto simp: compfield_zero)
  with y show ?thesis by simp
qed

lemma bsearch_fields_none:
  assumes "name \<notin> fd_name ` set field_table"
  shows "bsearch (compfield \<lparr>fd_number = 0, fd_type = FT_BOOL, fd_name = name\<rparr>) sortfields = None"
proof (rule ccontr)
  assume "\<not> ?thesis"
  then obtain y where "bsearch_in (compfield \<lparr>fd_number = 0, fd_type = FT_BOOL, fd_name = name\<rparr>)
      sortfields 0 (length sortfields) = Some y"
    by (auto simp: bsearch_def)
  then have "y \<in> set sortfields" and "compfield \<lparr>fd_number = 0, fd_type = FT_BOOL, fd_name = name\<rparr> y = 0"
    by (auto dest: bsearch_in_sound)
  with assms show False by (auto simp: sortfields_def compfield_zero)
qed

lemma fieldtonum_name:
  "n < ENDOFFIELDS \<Longrightarrow> fieldtonum (Some sortfields) (fd_name (field_table ! n)) = int n"
proof -
  assume "n < ENDOFFIELDS"
  then have n: "n < 88" by simp
  then have "field_table ! n \<in> set field_table" using length_fields by simp
  with n show ?thesis by (simp add: fieldtonum_def bsearch_fields field_number_nth)
qed

lemma isFieldSet_setField:
  assumes "n div 8 < length bitmap" and "m div 8 < length bitmap"
  shows "isFieldSet (setField bitmap n) m \<longleftrightarrow> m = n \<or> isFieldSet bitmap m"
proof -
  have bitset: "isFieldSet bm k \<longleftrightarrow> bit (bm ! (k div 8)) (k mod 8)" for bm k
    by (simp add: isFieldSet_def bit_iff_odd_drop_bit and_one_eq odd_iff_mod_2_eq_one)
  have mod8: "i mod 8 < LENGTH(8)" for i :: nat by simp
  show ?thesis
  proof (cases "m div 8 = n div 8")
    case True
    have "m = n \<longleftrightarrow> m mod 8 = n mod 8" using True by (metis div_mult_mod_eq)
    with True assms mod8 show ?thesis
      by (auto simp: bitset setField_def bit_or_iff bit_exp_iff)
  next
    case False
    then show ?thesis using assms by (auto simp: bitset setField_def)
  qed
qed

section \<open>Properties\<close>

text \<open>The two lookups of \<open>fieldtonum\<close> agree on every name: the binary search in the
  table sorted by \<open>sortfields\<close>, which returns the number stored in the entry, and the linear
  scan, which returns the position. It needs the names of the table to be distinct and the
  table to be in enumeration order, which is checked on the table itself.\<close>

theorem fieldtonum_search_equiv:
  "fieldtonum (Some sortfields) name = fieldtonum None name"
proof (cases "name \<in> fd_name ` set field_table")
  case True
  then obtain f where "f \<in> set field_table" "name = fd_name f" by auto
  then show ?thesis by (simp add: fieldtonum_def bsearch_fields linear_find_fields)
next
  case False
  then show ?thesis
    by (simp add: fieldtonum_def bsearch_fields_none linear_find_none [THEN iffD2])
qed

text \<open>Field names and field numbers are inverse to each other: the name that
  \<open>getFieldName\<close> gives for a number below \<open>ENDOFFIELDS\<close> is looked up to that number, so
  both ends of a connection agree on every field.\<close>

theorem field_name_roundtrip:
  "getFieldName n = (if n < ENDOFFIELDS then Some (fd_name (field_table ! n)) else None) \<and>
   (\<forall>name. getFieldName n = Some name \<longrightarrow> fieldtonum (Some sortfields) name = int n)"
  by (auto simp: getFieldName_def fieldtonum_name)

theorem field_name_roundtrip_witness:
  "getFieldName JOBNAME = Some ''JOBNAME'' \<and> fieldtonum (Some sortfields) ''JOBNAME'' = int JOBNAME"
proof -
  have name: "getFieldName JOBNAME = Some ''JOBNAME''"
    by (simp add: getFieldName_def field_table_def field_rows_def mk_field_def)
  moreover have "getFieldName JOBNAME = Some ''JOBNAME'' \<longrightarrow>
      fieldtonum (Some sortfields) ''JOBNAME'' = int JOBNAME"
    using field_name_roundtrip [of JOBNAME] by blast
  ultimately show ?thesis by blast
qed

end
