(* ===== verification/Json.thy ===== *)
theory Json
  imports Buffer Field_Table
begin

section \<open>Json: writing and reading JSON, json.c\<close>

text \<open>
  \<open>src/src/json.c\<close>. The writers append text to a buffer; each is the code's sequence of
  a resize and stores, over the fault-aware buffers of \<open>Buffer\<close>. \<open>JSONStartObject\<close> and
  \<open>JSONStartArray\<close> take their write position before they resize, which is a stale pointer
  when the allocator moves the block.

  The readers work on the unread rest of a NUL-terminated string. \<open>JSONGetObject\<close> cuts the
  object out by overwriting its closing brace with NUL, so its result is the text between
  the braces and the text behind them. A \<open>char *\<close> that the code leaves NULL is \<open>None\<close>.
\<close>

subsection \<open>Escaping\<close>

fun json_escape :: "string \<Rightarrow> string" where
  "json_escape [] = []"
| "json_escape (c # cs) =
     (if c = BSL then BSL # BSL # json_escape cs
      else if c = TAB then BSL # CHR ''t'' # json_escape cs
      else if c = NL then BSL # CHR ''n'' # json_escape cs
      else if c = QUOTE then BSL # QUOTE # json_escape cs
      else c # json_escape cs)"

definition JSONescapeString :: "string \<Rightarrow> nat \<Rightarrow> string" where
  "JSONescapeString s n = json_escape (take n s)"

definition MAX_ESC_LEN :: "nat \<Rightarrow> nat" where
  "MAX_ESC_LEN x = x * 2 + 1"

subsection \<open>Writers\<close>

definition quoted_name :: "string \<Rightarrow> string" where
  "quoted_name name = [QUOTE] @ name @ [QUOTE] @ '':''"

definition with_field :: "nat \<Rightarrow> (string \<Rightarrow> fault + buff) \<Rightarrow> fault + buff" where
  "with_field field_no k = (case getFieldName field_no of None \<Rightarrow> Inl NullPointer | Some name \<Rightarrow> k name)"

definition JSONAddInt :: "allocator \<Rightarrow> buff \<Rightarrow> nat \<Rightarrow> int \<Rightarrow> fault + buff" where
  "JSONAddInt alloc b field_no v =
     with_field field_no (\<lambda>name.
       buffPut alloc b (length name + 32 + 4) (quoted_name name @ int64tostr v @ '',''))"

definition JSONAddStringN :: "allocator \<Rightarrow> buff \<Rightarrow> nat \<Rightarrow> string option \<Rightarrow> nat \<Rightarrow> fault + buff" where
  "JSONAddStringN alloc b field_no v value_len =
     with_field field_no (\<lambda>name.
       (let value_len = (if v = None then 4 else value_len)
        in buffPut alloc b (length name + MAX_ESC_LEN value_len + 6)
             (quoted_name name @
              (case v of Some s \<Rightarrow> [QUOTE] @ JSONescapeString s value_len @ [QUOTE]
               | None \<Rightarrow> ''null'') @ '','')))"

definition JSONAddString :: "allocator \<Rightarrow> buff \<Rightarrow> nat \<Rightarrow> string option \<Rightarrow> fault + buff" where
  "JSONAddString alloc b field_no v =
     JSONAddStringN alloc b field_no v (case v of Some s \<Rightarrow> length s | None \<Rightarrow> 0)"

fun json_strings :: "bool \<Rightarrow> string list \<Rightarrow> string" where
  "json_strings first [] = []"
| "json_strings first (v # vs) =
     (if first then [] else '','') @ [QUOTE] @ JSONescapeString v (length v) @ [QUOTE] @
     json_strings False vs"

definition JSONAddStringArray :: "allocator \<Rightarrow> buff \<Rightarrow> nat \<Rightarrow> string list \<Rightarrow> fault + buff" where
  "JSONAddStringArray alloc b field_no vs =
     with_field field_no (\<lambda>name.
       buffPut alloc b (length name + 6 + sum_list (map (\<lambda>v. MAX_ESC_LEN (length v) + 3) vs))
         (quoted_name name @ ''['' @ json_strings True vs @ ''],''))"

definition JSONAddBool :: "allocator \<Rightarrow> buff \<Rightarrow> nat \<Rightarrow> bool \<Rightarrow> fault + buff" where
  "JSONAddBool alloc b field_no v =
     with_field field_no (\<lambda>name.
       buffPut alloc b (length name + 8)
         (quoted_name name @ (if v then ''true'' else ''false'') @ '',''))"

text \<open>
  \<open>p\<close> is computed from the buffer before \<open>buffResize\<close>, so a move of the block makes the
  stores go through a stale pointer.
\<close>

definition put_before_resize :: "allocator \<Rightarrow> buff \<Rightarrow> nat \<Rightarrow> string \<Rightarrow> fault + buff" where
  "put_before_resize alloc b required txt =
     (case buffResize alloc b required of
        Inl e \<Rightarrow> Inl e
      | Inr (_, moved, b') \<Rightarrow>
          if moved then Inl StalePointer
          else if bsize b' < length (bdata b') + length txt then Inl Overflow
          else Inr (b'\<lparr>bdata := bdata b' @ txt\<rparr>))"

definition JSONStartObject :: "allocator \<Rightarrow> buff \<Rightarrow> string option \<Rightarrow> fault + buff" where
  "JSONStartObject alloc b name =
     (let name_len = (case name of Some n \<Rightarrow> length n | None \<Rightarrow> 0)
      in put_before_resize alloc b (name_len + 4)
           ((case name of Some n \<Rightarrow> quoted_name n | None \<Rightarrow> []) @ ''{''))"

definition JSONStartArray :: "allocator \<Rightarrow> buff \<Rightarrow> string \<Rightarrow> fault + buff" where
  "JSONStartArray alloc b name =
     put_before_resize alloc b (length name + 4) (quoted_name name @ ''['')"

text \<open>Closing: a trailing comma is overwritten by the closing bracket.\<close>

definition close_with :: "allocator \<Rightarrow> buff \<Rightarrow> char \<Rightarrow> string \<Rightarrow> fault + buff" where
  "close_with alloc b c after =
     (if bdata b = [] then Inl Underflow
      else if last (bdata b) = CHR '',''
      then buffAdd alloc (b\<lparr>bdata := butlast (bdata b) @ [c]\<rparr>) after
      else buffAdd alloc b (c # after))"

definition JSONEndObject :: "allocator \<Rightarrow> buff \<Rightarrow> fault + buff" where
  "JSONEndObject alloc b = close_with alloc b (CHR ''}'') '',''"

definition JSONEndArray :: "allocator \<Rightarrow> buff \<Rightarrow> fault + buff" where
  "JSONEndArray alloc b = close_with alloc b (CHR '']'') '',''"

definition JSONStart :: "allocator \<Rightarrow> buff \<Rightarrow> fault + buff" where
  "JSONStart alloc b = buffAdd alloc b ''{''"

definition JSONEnd :: "allocator \<Rightarrow> buff \<Rightarrow> fault + buff" where
  "JSONEnd alloc b = close_with alloc b (CHR ''}'') [NL]"

definition bindB :: "fault + buff \<Rightarrow> (buff \<Rightarrow> fault + buff) \<Rightarrow> fault + buff" where
  "bindB r k = (case r of Inl e \<Rightarrow> Inl e | Inr b \<Rightarrow> k b)"

fun json_map :: "(string \<times> string) list \<Rightarrow> string" where
  "json_map [] = []"
| "json_map ((k, v) # kvs) =
     quoted_name k @ [QUOTE] @ JSONescapeString v (length v) @ [QUOTE] @ '','' @ json_map kvs"

definition JSONAddMap :: "allocator \<Rightarrow> buff \<Rightarrow> nat \<Rightarrow> (string \<times> string) list \<Rightarrow> fault + buff" where
  "JSONAddMap alloc b field_no kvs =
     with_field field_no (\<lambda>name.
       bindB (JSONStartObject alloc b (Some name)) (\<lambda>b.
       bindB (buffPut alloc b
                (sum_list (map (\<lambda>(k, v). length k + MAX_ESC_LEN (length v) + 6) kvs))
                (json_map kvs)) (\<lambda>b.
       JSONEndObject alloc b)))"

subsection \<open>Readers\<close>

text \<open>
  The scan of \<open>JSONGetObject\<close> for the closing brace: the previous character, whether a
  string is open, and how many inner objects are open.
\<close>

fun scan_object :: "char \<Rightarrow> bool \<Rightarrow> nat \<Rightarrow> string \<Rightarrow> (string \<times> string) option" where
  "scan_object prev quoted i [] = None"
| "scan_object prev quoted i (c # cs) =
     (if c = QUOTE then
        map_option (apfst (Cons c)) (scan_object c (if prev = BSL then quoted else \<not> quoted) i cs)
      else if c = CHR ''{'' \<and> \<not> quoted then
        map_option (apfst (Cons c)) (scan_object c quoted (Suc i) cs)
      else if c = CHR ''}'' \<and> \<not> quoted then
        (if i = 0 then Some ([], cs)
         else map_option (apfst (Cons c)) (scan_object c quoted (i - 1) cs))
      else map_option (apfst (Cons c)) (scan_object c quoted i cs))"

definition JSONGetObject :: "string \<Rightarrow> (string \<times> string) option" where
  "JSONGetObject json =
     (case skipWhitespace json of
        [] \<Rightarrow> None
      | c # cs \<Rightarrow> if c = CHR ''{'' then scan_object c False 0 cs else None)"

text \<open>The unescaping loop of \<open>JSONGetString\<close>, behind the opening quote.\<close>

fun get_string :: "string \<Rightarrow> (string \<times> string) option" where
  "get_string [] = None"
| "get_string (c # cs) =
     (if c = BSL then
        (case cs of [] \<Rightarrow> None
         | d # ds \<Rightarrow>
             map_option (apfst ((@) (if d = QUOTE then [QUOTE] else if d = BSL then [BSL]
                                     else if d = CHR ''t'' then [TAB]
                                     else if d = CHR ''n'' then [NL] else [])))
               (get_string ds))
      else if c = QUOTE then Some ([], cs)
      else map_option (apfst (Cons c)) (get_string cs))"

text \<open>
  \<open>JSONGetString\<close>: \<open>None\<close> is its return value 1. On \<open>null\<close> it returns 0 with a NULL
  value and leaves the stream where it was.
\<close>

definition JSONGetString :: "string \<Rightarrow> (string option \<times> string) option" where
  "JSONGetString json =
     (let pos = skipWhitespace json
      in case pos of
           [] \<Rightarrow> None
         | c # cs \<Rightarrow>
             if c \<noteq> QUOTE then
               (if take 4 pos = ''null'' then Some (None, json) else None)
             else map_option (apfst Some) (get_string cs))"

definition JSONGetName :: "string \<Rightarrow> (string \<times> string) option" where
  "JSONGetName json =
     (case JSONGetString (skipChars ('' ,]}'' @ [TAB]) json) of
        None \<Rightarrow> None
      | Some (None, _) \<Rightarrow> None
      | Some (Some name, pos) \<Rightarrow> Some (name, skipChars ('' :'' @ [TAB]) pos))"

definition JSONGetNum :: "string \<Rightarrow> (int \<times> string) option" where
  "JSONGetNum json =
     (let (v, pos) = strtoint64 (skipWhitespace json)
      in if pos = [] \<or> hd pos \<in> {CHR '','', CHR '']'', CHR ''}''} then Some (v, pos) else None)"

definition JSONGetBool :: "string \<Rightarrow> (bool \<times> string) option" where
  "JSONGetBool json =
     (let pos = skipWhitespace json
      in if take 4 pos = ''true'' then Some (True, drop 4 pos)
         else if take 5 pos = ''false'' then Some (False, drop 5 pos)
         else None)"

lemma get_string_shorter: "get_string s = Some (v, r) \<Longrightarrow> length r < length s"
proof (induction s arbitrary: v r rule: get_string.induct)
  case (2 c cs)
  show ?case
  proof (cases "c = BSL")
    case True
    with "2.prems" obtain d ds v' where "cs = d # ds" "get_string ds = Some (v', r)"
      by (auto split: list.splits)
    with True "2.IH"(1) [of d ds v' r] show ?thesis by simp
  next
    case False
    with "2.prems" "2.IH"(2) show ?thesis by (fastforce split: if_splits)
  qed
qed simp

lemma skip_shorter: "length (dropWhile P s) \<le> length s"
  by (induction s) auto

lemma JSONGetString_shorter:
  "JSONGetString s = Some (Some v, r) \<Longrightarrow> length r < length s"
  using skip_shorter [of is_ws s]
  by (auto simp: JSONGetString_def Let_def skipWhitespace_def split: list.splits if_splits
      dest!: get_string_shorter)

lemma JSONGetString_null: "JSONGetString s = Some (None, r) \<Longrightarrow> r = s"
  by (auto simp: JSONGetString_def Let_def split: list.splits if_splits)

lemma JSONGetString_le: "JSONGetString s = Some (v, r) \<Longrightarrow> length r \<le> length s"
  by (cases v) (auto dest!: JSONGetString_shorter JSONGetString_null)

lemma JSONGetName_shorter:
  assumes "JSONGetName s = Some (n, r)"
  shows "length r < length s"
proof -
  from assms obtain q where q: "JSONGetString (skipChars ('' ,]}'' @ [TAB]) s) = Some (Some n, q)"
    and r: "r = skipChars ('' :'' @ [TAB]) q"
    by (auto simp: JSONGetName_def split: option.splits)
  have "length r \<le> length q" unfolding r skipChars_def by (rule skip_shorter)
  also have "\<dots> < length (skipChars ('' ,]}'' @ [TAB]) s)" by (rule JSONGetString_shorter [OF q])
  also have "\<dots> \<le> length s" unfolding skipChars_def by (rule skip_shorter)
  finally show ?thesis .
qed

subsection \<open>Reading arrays and maps\<close>

text \<open>
  The loop of \<open>JSONGetStringArray\<close>: the strings so far (a NULL string is \<open>None\<close>) and the
  unread text; \<open>None\<close> is the return value -1.
\<close>

function string_array_loop :: "string option list \<Rightarrow> string \<Rightarrow> (string option list \<times> string) option" where
  "string_array_loop acc pos =
     (case JSONGetString pos of
        None \<Rightarrow> (case pos of [] \<Rightarrow> None
                 | c # cs \<Rightarrow> if c = CHR '']'' then Some (acc, cs) else None)
      | Some (str, pos') \<Rightarrow>
          (case dropWhile (\<lambda>c. c \<noteq> CHR '','' \<and> c \<noteq> CHR '']'') pos' of
             [] \<Rightarrow> None
           | c # cs \<Rightarrow> if c = CHR '']'' then Some (acc @ [str], cs)
                       else string_array_loop (acc @ [str]) cs))"
  by pat_completeness auto
termination
proof (relation "measure (\<lambda>(acc, pos). length pos)", goal_cases)
  case 1
  show ?case by simp
next
  case (2 acc pos x str pos' c cs)
  then have "length pos' \<le> length pos" by (auto dest: JSONGetString_le)
  moreover have "length (c # cs) \<le> length pos'" using 2 skip_shorter by metis
  ultimately show ?case by simp
qed

declare string_array_loop.simps [simp del]

definition JSONGetStringArray :: "string \<Rightarrow> (string option list \<times> string) option" where
  "JSONGetStringArray json =
     (case skipWhitespace json of
        [] \<Rightarrow> None
      | c # cs \<Rightarrow> if c \<noteq> CHR ''['' then None else string_array_loop [] cs)"

text \<open>\<open>JSONGetMap\<close>: \<open>None\<close> is the return value -1.\<close>

function map_loop :: "(string \<times> string option) list \<Rightarrow> string \<Rightarrow> (string \<times> string option) list option" where
  "map_loop acc obj =
     (case JSONGetName obj of
        None \<Rightarrow> Some acc
      | Some (name, pos) \<Rightarrow>
          (case JSONGetString pos of
             None \<Rightarrow> None
           | Some (v, pos') \<Rightarrow> map_loop (acc @ [(name, v)]) pos'))"
  by pat_completeness auto
termination
  by (relation "measure (\<lambda>(acc, pos). length pos)")
     (auto dest!: JSONGetString_le JSONGetName_shorter)

declare map_loop.simps [simp del]

definition JSONGetMap :: "string \<Rightarrow> ((string \<times> string option) list \<times> string) option" where
  "JSONGetMap json =
     (case JSONGetObject json of
        None \<Rightarrow> None
      | Some (obj, pos) \<Rightarrow> map_option (\<lambda>m. (m, pos)) (map_loop [] obj))"

subsection \<open>Escaping and its inverse\<close>

lemma get_string_escape [simp]: "get_string (json_escape s @ QUOTE # r) = Some (s, r)"
  by (induction s) auto

lemma json_escape_bound: "length (json_escape s) \<le> 2 * length s"
  by (induction s) auto

lemma JSONescapeString_all [simp]: "JSONescapeString s (length s) = json_escape s"
  by (simp add: JSONescapeString_def)

lemma json_escape_plain: "set s \<inter> {BSL, TAB, NL, QUOTE} = {} \<Longrightarrow> json_escape s = s"
  by (induction s) auto

lemma get_string_plain:
  "BSL \<notin> set s \<Longrightarrow> QUOTE \<notin> set s \<Longrightarrow> get_string (s @ QUOTE # r) = Some (s, r)"
  by (induction s) auto

subsection \<open>Text that the object scan steps over\<close>

definition prefixed :: "string \<Rightarrow> (string \<times> string) option \<Rightarrow> (string \<times> string) option" where
  "prefixed t x = map_option (apfst ((@) t)) x"

lemma prefixed_simps [simp]:
  "prefixed [] x = x"
  "prefixed s (prefixed t x) = prefixed (s @ t) x"
  "prefixed s (Some (t, r)) = Some (s @ t, r)"
  "prefixed s None = None"
  by (cases x; auto simp: prefixed_def)+

lemma map_option_Cons [simp]: "map_option (apfst (Cons c)) x = prefixed [c] x"
  by (cases x) (auto simp: prefixed_def)

text \<open>
  A text is balanced when the scan, outside a string, passes over it whatever follows and
  is outside a string at the same depth behind it.
\<close>

definition balanced :: "string \<Rightarrow> bool" where
  "balanced t \<longleftrightarrow> (t = [] \<or> last t \<noteq> BSL) \<and>
     (\<forall>prev i r. prev \<noteq> BSL \<longrightarrow>
        scan_object prev False i (t @ r) =
        prefixed t (scan_object (last (prev # t)) False i r))"

lemma balancedD:
  "balanced t \<Longrightarrow> prev \<noteq> BSL \<Longrightarrow> scan_object prev False i (t @ r) =
     prefixed t (scan_object (last (prev # t)) False i r)"
  "balanced t \<Longrightarrow> prev \<noteq> BSL \<Longrightarrow> last (prev # t) \<noteq> BSL"
  unfolding balanced_def by simp (metis last.simps)

lemma balanced_last: "balanced t \<Longrightarrow> t \<noteq> [] \<Longrightarrow> last t \<noteq> BSL"
  unfolding balanced_def by blast

lemma balancedI:
  assumes "t \<noteq> [] \<Longrightarrow> last t \<noteq> BSL"
    and "\<And>prev i r. prev \<noteq> BSL \<Longrightarrow> scan_object prev False i (t @ r) =
           prefixed t (scan_object (last (prev # t)) False i r)"
  shows "balanced t"
  using assms by (auto simp: balanced_def)

lemma balanced_Nil [simp]: "balanced []"
  by (simp add: balanced_def)

lemma balanced_append:
  assumes "balanced s" and "balanced t"
  shows "balanced (s @ t)"
proof (rule balancedI)
  show "s @ t \<noteq> [] \<Longrightarrow> last (s @ t) \<noteq> BSL"
    using balanced_last [OF assms(1)] balanced_last [OF assms(2)] by (cases "t = []") simp_all
  fix prev i r
  assume p: "prev \<noteq> BSL"
  let ?q = "last (prev # s)"
  have "scan_object prev False i ((s @ t) @ r) = prefixed s (scan_object ?q False i (t @ r))"
    using balancedD(1) [OF assms(1) p] by simp
  also have "\<dots> = prefixed (s @ t) (scan_object (last (?q # t)) False i r)"
    using balancedD(1) [OF assms(2) balancedD(2) [OF assms(1) p]] by simp
  also have "last (?q # t) = last (prev # s @ t)" by simp
  finally show "scan_object prev False i ((s @ t) @ r) =
      prefixed (s @ t) (scan_object (last (prev # s @ t)) False i r)" .
qed

lemma balanced_char: "c \<notin> {BSL, QUOTE, CHR ''{'', CHR ''}''} \<Longrightarrow> balanced [c]"
  by (rule balancedI) auto

lemma balanced_Cons:
  "c \<notin> {BSL, QUOTE, CHR ''{'', CHR ''}''} \<Longrightarrow> balanced t \<Longrightarrow> balanced (c # t)"
  using balanced_append [OF balanced_char] by (metis append_Cons append_Nil)

lemma balanced_plain: "set t \<inter> {BSL, QUOTE, CHR ''{'', CHR ''}''} = {} \<Longrightarrow> balanced t"
  by (induction t) (auto intro: balanced_Cons)

lemma scan_object_close:
  "balanced t \<Longrightarrow> prev \<noteq> BSL \<Longrightarrow> scan_object prev False 0 (t @ CHR ''}'' # r) = Some (t, r)"
  by (simp add: balancedD)

lemma balanced_object: "balanced t \<Longrightarrow> balanced ([CHR ''{''] @ t @ [CHR ''}''])"
  by (rule balancedI) (simp_all add: balancedD)

lemma json_escape_Nil_iff [simp]: "json_escape s = [] \<longleftrightarrow> s = []"
  by (cases s) auto

text \<open>Inside a string the scan only watches for a quote that no backslash precedes.\<close>

lemma scan_quoted:
  "scan_object prev True i (json_escape s @ r) =
   prefixed (json_escape s) (scan_object (last (prev # json_escape s)) True i r)"
  by (induction s arbitrary: prev) simp_all

lemma last_json_escape: "s \<noteq> [] \<Longrightarrow> last (json_escape s) = BSL \<longleftrightarrow> last s = BSL"
proof (induction s)
  case (Cons c s)
  then show ?case by (cases "s = []") simp_all
qed simp

definition jstring :: "string \<Rightarrow> string" where
  "jstring s = [QUOTE] @ json_escape s @ [QUOTE]"

definition scannable :: "string \<Rightarrow> bool" where
  "scannable s \<longleftrightarrow> s = [] \<or> last s \<noteq> BSL"

lemma balanced_jstring:
  assumes "scannable s"
  shows "balanced (jstring s)"
proof (rule balancedI)
  fix prev i r
  assume p: "prev \<noteq> BSL"
  have l: "last (QUOTE # json_escape s) \<noteq> BSL"
    using assms last_json_escape [of s] by (auto simp: scannable_def)
  have "scan_object prev False i (jstring s @ r) =
      prefixed [QUOTE] (scan_object QUOTE True i (json_escape s @ QUOTE # r))"
    using p by (simp add: jstring_def)
  also have "\<dots> = prefixed (QUOTE # json_escape s)
      (scan_object (last (QUOTE # json_escape s)) True i (QUOTE # r))"
    unfolding scan_quoted by simp
  also have "\<dots> = prefixed (jstring s) (scan_object QUOTE False i r)"
    using l by (simp add: jstring_def)
  finally show "scan_object prev False i (jstring s @ r) =
      prefixed (jstring s) (scan_object (last (prev # jstring s)) False i r)"
    by (simp add: jstring_def)
qed (simp add: jstring_def)

end
