(* ===== verification/Message.thy ===== *)
theory Message
  imports Json
begin

section \<open>Message: requests and responses, fields.c\<close>

text \<open>
  The message half of \<open>src/src/fields.c\<close>: \<open>load_message\<close> turns the text of a request or
  response into a \<open>msg_t\<close>, \<open>_initRequest\<close>/\<open>closeRequest\<close> and
  \<open>initNamedResponse\<close>/\<open>closeResponse\<close> write the envelope around the fields.

  A field is its number and its value; its type and name are those of the field table. The
  field bitmap of an item is not initialised by the code when the item array is allocated:
  its initial contents are the parameter \<open>fresh\<close>. \<open>loadFields\<close> sets the bits of the
  first item of the message, whichever item it loads. The capacities \<open>item_max\<close> and
  \<open>field_max\<close> only decide when to reallocate and are left out.
\<close>

subsection \<open>Data\<close>

datatype field_value =
    FNum int
  | FBool bool
  | FStr "string option"
  | FStrs "string option list"
  | FMap "(string \<times> string option) list"

record field =
  f_number :: nat
  f_value :: field_value

record msg_item =
  bitmap :: "8 word list"
  item_fields :: "field list"

record msg =
  m_command :: "string option"
  m_error :: "string option"
  m_version :: int
  m_items :: "msg_item list"
  m_alert :: "string option"

definition msg_zero :: msg where
  "msg_zero = \<lparr>m_command = None, m_error = None, m_version = 0, m_items = [], m_alert = None\<rparr>"

text \<open>
  \<open>Refused\<close> is the return value 1; \<open>OutOfBounds\<close> is a read behind the end of the text or a
  NULL passed to a string routine.
\<close>

datatype 'a loaded = Loaded 'a | Refused | OutOfBounds

definition bindL :: "'a loaded \<Rightarrow> ('a \<Rightarrow> 'b loaded) \<Rightarrow> 'b loaded" where
  "bindL r k = (case r of Loaded x \<Rightarrow> k x | Refused \<Rightarrow> Refused | OutOfBounds \<Rightarrow> OutOfBounds)"

definition orRefused :: "'a option \<Rightarrow> 'a loaded" where
  "orRefused x = (case x of Some y \<Rightarrow> Loaded y | None \<Rightarrow> Refused)"

subsection \<open>Reading the value of a field\<close>

definition getStringField :: "string option \<Rightarrow> string" where
  "getStringField s = (case s of Some t \<Rightarrow> t | None \<Rightarrow> [])"

definition setIntField :: "nat \<Rightarrow> int \<Rightarrow> field option" where
  "setIntField field_no v =
     (if field_no \<ge> ENDOFFIELDS then None
      else if fd_type (field_table ! field_no) \<noteq> FT_NUM then None
      else Some \<lparr>f_number = field_no, f_value = FNum v\<rparr>)"

definition load_value :: "ftype \<Rightarrow> string \<Rightarrow> (field_value \<times> string) option" where
  "load_value t obj =
     (case t of
        FT_NUM \<Rightarrow> map_option (apfst FNum) (JSONGetNum obj)
      | FT_BOOL \<Rightarrow> map_option (apfst FBool) (JSONGetBool obj)
      | FT_STRING \<Rightarrow> map_option (apfst FStr) (JSONGetString obj)
      | FT_STRINGARRAY \<Rightarrow> map_option (apfst FStrs) (JSONGetStringArray obj)
      | FT_MAP \<Rightarrow> map_option (apfst FMap) (JSONGetMap obj)
      | FT_NONE \<Rightarrow> None)"

lemma JSONGetNum_le: "JSONGetNum s = Some (v, r) \<Longrightarrow> length r \<le> length s"
proof -
  have digits: "length (snd (strtoint64_digits acc t)) \<le> length t" for acc t
    by (induction t arbitrary: acc) (auto simp: le_SucI)
  have "length (snd (strtoint64 t)) \<le> length t" for t
    using digits [of 0 t] digits [of 0 "tl t"]
    by (cases t) (auto simp: strtoint64_def split: prod.splits)
  moreover have "length (skipWhitespace s) \<le> length s"
    by (simp add: skipWhitespace_def skip_shorter)
  moreover assume "JSONGetNum s = Some (v, r)"
  then have "r = snd (strtoint64 (skipWhitespace s))"
    by (auto simp: JSONGetNum_def Let_def split: prod.splits if_splits)
  ultimately show ?thesis by (metis le_trans)
qed

lemma JSONGetBool_le: "JSONGetBool s = Some (v, r) \<Longrightarrow> length r \<le> length s"
  using skip_shorter [of is_ws s]
  by (auto simp: JSONGetBool_def Let_def skipWhitespace_def split: if_splits)

lemma prefixed_Some:
  "prefixed t x = Some (o', r) \<longleftrightarrow> (\<exists>o''. x = Some (o'', r) \<and> o' = t @ o'')"
  by (cases x) (auto simp: prefixed_def)

lemma scan_object_le: "scan_object p q i s = Some (o', r) \<Longrightarrow> length o' + length r < length s"
proof (induction s arbitrary: p q i o')
  case (Cons c s)
  from Cons.prems consider "o' = []" "r = s"
    | p' q' i' o'' where "scan_object p' q' i' s = Some (o'', r)" "o' = c # o''"
    by (auto simp: prefixed_Some split: if_splits)
  then show ?case
    by cases (auto dest: Cons.IH)
qed simp

lemma JSONGetObject_le:
  assumes "JSONGetObject s = Some (o', r)"
  shows "length o' < length s" and "length r < length s"
proof -
  obtain c cs where "skipWhitespace s = c # cs" "scan_object c False 0 cs = Some (o', r)"
    using assms by (auto simp: JSONGetObject_def split: list.splits if_splits)
  then show "length o' < length s" and "length r < length s"
    using skip_shorter [of is_ws s] scan_object_le [of c False 0 cs o' r]
    by (auto simp: skipWhitespace_def)
qed

lemma string_array_loop_le: "string_array_loop acc s = Some (v, r) \<Longrightarrow> length r \<le> length s"
proof (induction acc s rule: string_array_loop.induct)
  case (1 acc pos)
  show ?case
  proof (cases "JSONGetString pos")
    case None
    with "1.prems" show ?thesis
      by (subst (asm) string_array_loop.simps) (auto split: list.splits if_splits)
  next
    case (Some p)
    obtain str pos' where p: "p = (str, pos')" by (cases p)
    let ?rest = "dropWhile (\<lambda>c. c \<noteq> CHR '','' \<and> c \<noteq> CHR '']'') pos'"
    have le: "length ?rest \<le> length pos"
      using Some p JSONGetString_le skip_shorter le_trans by (metis (no_types, lifting))
    show ?thesis
    proof (cases ?rest)
      case Nil
      with Some p "1.prems" show ?thesis by (subst (asm) string_array_loop.simps) simp
    next
      case (Cons c cs)
      with Some p "1.prems" have "c = CHR '']'' \<and> r = cs \<or>
          c \<noteq> CHR '']'' \<and> string_array_loop (acc @ [str]) cs = Some (v, r)"
        by (subst (asm) string_array_loop.simps) (simp split: if_splits)
      with "1.IH" [OF Some p [symmetric] Cons] le Cons show ?thesis by auto
    qed
  qed
qed

lemma JSONGetStringArray_le: "JSONGetStringArray s = Some (v, r) \<Longrightarrow> length r \<le> length s"
  using skip_shorter [of is_ws s]
  by (auto simp: JSONGetStringArray_def skipWhitespace_def split: list.splits if_splits
      dest!: string_array_loop_le)

lemma JSONGetMap_le: "JSONGetMap s = Some (v, r) \<Longrightarrow> length r \<le> length s"
  by (auto simp: JSONGetMap_def split: option.splits dest!: JSONGetObject_le(2))

lemma load_value_le: "load_value t s = Some (v, r) \<Longrightarrow> length r \<le> length s"
  by (cases t) (auto simp: load_value_def
      dest: JSONGetNum_le JSONGetBool_le JSONGetString_le JSONGetStringArray_le JSONGetMap_le)

subsection \<open>load_message\<close>

function load_fields_loop ::
  "field_def list option \<Rightarrow> field list \<Rightarrow> string \<Rightarrow> field list option" where
  "load_fields_loop sortedFields acc obj =
     (case JSONGetName obj of
        None \<Rightarrow> Some acc
      | Some (name, pos) \<Rightarrow>
          (let field_number = fieldtonum sortedFields (uppercasestring name)
           in if field_number < 0 then None
              else (case load_value (fd_type (field_table ! nat field_number)) pos of
                      None \<Rightarrow> None
                    | Some (v, pos') \<Rightarrow>
                        load_fields_loop sortedFields
                          (acc @ [\<lparr>f_number = nat field_number, f_value = v\<rparr>]) pos')))"
  by pat_completeness auto
termination
  by (relation "measure (\<lambda>(sortedFields, acc, obj). length obj)")
     (auto dest!: load_value_le JSONGetName_shorter)

declare load_fields_loop.simps [simp del]

definition loadFields ::
  "8 word list \<Rightarrow> field_def list option \<Rightarrow> string \<Rightarrow> msg \<Rightarrow> msg option" where
  "loadFields fresh sortedFields obj m =
     (case load_fields_loop sortedFields [] obj of
        None \<Rightarrow> None
      | Some fs \<Rightarrow>
          (let items = m_items m @ [\<lparr>bitmap = fresh, item_fields = fs\<rparr>];
               first = hd items;
               first' = first\<lparr>bitmap := fold (\<lambda>f b. setField b (f_number f)) fs (bitmap first)\<rparr>
           in Some (m\<lparr>m_items := first' # tl items\<rparr>)))"

function item_array_loop ::
  "8 word list \<Rightarrow> field_def list option \<Rightarrow> string \<Rightarrow> msg \<Rightarrow> (string \<times> msg) loaded" where
  "item_array_loop fresh sortedFields pos m =
     (case JSONGetObject pos of
        None \<Rightarrow> (case pos of [] \<Rightarrow> OutOfBounds | _ # cs \<Rightarrow> Loaded (cs, m))
      | Some (obj, pos') \<Rightarrow>
          (case loadFields fresh sortedFields obj m of
             None \<Rightarrow> Refused
           | Some m' \<Rightarrow>
               (case dropWhile (\<lambda>c. c \<noteq> CHR '','' \<and> c \<noteq> CHR '']'') pos' of
                  [] \<Rightarrow> OutOfBounds
                | c # cs \<Rightarrow> if c = CHR '']'' then Loaded (cs, m')
                            else item_array_loop fresh sortedFields cs m')))"
  by pat_completeness auto
termination
proof (relation "measure (\<lambda>(fresh, sortedFields, pos, m). length pos)", goal_cases)
  case 1
  show ?case by simp
next
  case (2 fresh sortedFields pos m x obj pos' m' c cs)
  have "length (c # cs) \<le> length pos'" using 2 skip_shorter by metis
  moreover have "length pos' < length pos" using 2 JSONGetObject_le(2) by auto
  ultimately show ?case by simp
qed

declare item_array_loop.simps [simp del]

definition loadItemArray ::
  "8 word list \<Rightarrow> field_def list option \<Rightarrow> string \<Rightarrow> msg \<Rightarrow> (string \<times> msg) loaded" where
  "loadItemArray fresh sortedFields json m =
     (case skipWhitespace json of
        [] \<Rightarrow> Refused
      | c # cs \<Rightarrow> if c \<noteq> CHR ''['' then Refused else item_array_loop fresh sortedFields cs m)"

lemma item_array_loop_le:
  "item_array_loop fresh sortedFields pos m = Loaded (r, m') \<Longrightarrow> length r \<le> length pos"
proof (induction fresh sortedFields pos m rule: item_array_loop.induct)
  case (1 fresh sortedFields pos m)
  show ?case
  proof (cases "JSONGetObject pos")
    case None
    with "1.prems" show ?thesis
      by (subst (asm) item_array_loop.simps) (auto split: list.splits)
  next
    case (Some p)
    obtain obj pos' where p: "p = (obj, pos')" by (cases p)
    let ?rest = "dropWhile (\<lambda>c. c \<noteq> CHR '','' \<and> c \<noteq> CHR '']'') pos'"
    have le: "length ?rest \<le> length pos"
      using Some p JSONGetObject_le(2) [of pos obj pos'] skip_shorter
        [of "\<lambda>c. c \<noteq> CHR '','' \<and> c \<noteq> CHR '']''" pos'] by simp
    from "1.prems" Some p obtain m1 c cs where m1: "loadFields fresh sortedFields obj m = Some m1"
      and rest: "?rest = c # cs"
      and "c = CHR '']'' \<and> r = cs \<or> c \<noteq> CHR '']'' \<and>
           item_array_loop fresh sortedFields cs m1 = Loaded (r, m')"
      by (subst (asm) item_array_loop.simps) (auto split: option.splits list.splits if_splits)
    with "1.IH" [OF Some p [symmetric] m1 rest] le show ?thesis by auto
  qed
qed

lemma loadItemArray_le: "loadItemArray fresh sortedFields s m = Loaded (r, m') \<Longrightarrow> length r \<le> length s"
  using skip_shorter [of is_ws s]
  by (auto simp: loadItemArray_def skipWhitespace_def split: list.splits if_splits
      dest!: item_array_loop_le)

text \<open>The two loops of \<open>load_message\<close>, for a response and for a command.\<close>

function resp_loop ::
  "8 word list \<Rightarrow> field_def list option \<Rightarrow> string \<Rightarrow> msg \<Rightarrow> msg loaded" where
  "resp_loop fresh sortedFields obj m =
     (case JSONGetName obj of
        None \<Rightarrow> Loaded m
      | Some (name, pos) \<Rightarrow>
          (let name = uppercasestring name
           in if name = ''RETURN_CODE'' then
                (case JSONGetString pos of
                   None \<Rightarrow> Refused
                 | Some (rc, _) \<Rightarrow> Loaded (m\<lparr>m_command := rc\<rparr>))
              else if name = ''VERSION'' then
                (case JSONGetNum pos of
                   None \<Rightarrow> Refused
                 | Some (v, pos') \<Rightarrow> resp_loop fresh sortedFields pos' (m\<lparr>m_version := v\<rparr>))
              else if name = ''DATA'' then
                (case loadItemArray fresh sortedFields pos m of
                   Refused \<Rightarrow> Refused
                 | OutOfBounds \<Rightarrow> OutOfBounds
                 | Loaded (pos', m') \<Rightarrow> resp_loop fresh sortedFields pos' m')
              else if name = ''ALERT'' then
                (case JSONGetString pos of
                   None \<Rightarrow> Refused
                 | Some (None, _) \<Rightarrow> OutOfBounds
                 | Some (Some a, pos') \<Rightarrow> resp_loop fresh sortedFields pos' (m\<lparr>m_alert := Some a\<rparr>))
              else resp_loop fresh sortedFields pos m))"
  by pat_completeness auto
termination
  by (relation "measure (\<lambda>(fresh, sortedFields, obj, m). length obj)")
     (auto dest!: JSONGetName_shorter JSONGetNum_le JSONGetString_shorter loadItemArray_le)

declare resp_loop.simps [simp del]

function cmd_loop ::
  "8 word list \<Rightarrow> field_def list option \<Rightarrow> string \<Rightarrow> msg \<Rightarrow> msg loaded" where
  "cmd_loop fresh sortedFields obj m =
     (case JSONGetName obj of
        None \<Rightarrow> Loaded m
      | Some (name, pos) \<Rightarrow>
          (let name = uppercasestring name
           in if name = ''VERSION'' then
                (case JSONGetNum pos of
                   None \<Rightarrow> Refused
                 | Some (v, pos') \<Rightarrow> cmd_loop fresh sortedFields pos' (m\<lparr>m_version := v\<rparr>))
              else if name = ''DATA'' then
                (case loadItemArray fresh sortedFields pos m of
                   Refused \<Rightarrow> Refused
                 | OutOfBounds \<Rightarrow> OutOfBounds
                 | Loaded (pos', m') \<Rightarrow> cmd_loop fresh sortedFields pos' m')
              else if name = ''FIELDS'' then
                (case JSONGetObject pos of
                   None \<Rightarrow> Refused
                 | Some (field_object, pos') \<Rightarrow>
                     (case loadFields fresh sortedFields field_object m of
                        None \<Rightarrow> Refused
                      | Some m' \<Rightarrow> cmd_loop fresh sortedFields pos' m'))
              else cmd_loop fresh sortedFields pos m))"
  by pat_completeness auto
termination
  by (relation "measure (\<lambda>(fresh, sortedFields, obj, m). length obj)")
     (auto dest!: JSONGetName_shorter JSONGetNum_le JSONGetObject_le(2) loadItemArray_le)

declare cmd_loop.simps [simp del]

definition load_message :: "8 word list \<Rightarrow> field_def list option \<Rightarrow> string \<Rightarrow> msg loaded" where
  "load_message fresh sortedFields json =
     (case JSONGetObject json of
        None \<Rightarrow> Refused
      | Some (object, _) \<Rightarrow>
          (case JSONGetName object of
             None \<Rightarrow> Refused
           | Some (name, object) \<Rightarrow>
               (let name = uppercasestring name
                in if name = ''ERROR'' then
                     (case JSONGetString object of
                        None \<Rightarrow> Refused
                      | Some (None, _) \<Rightarrow> OutOfBounds
                      | Some (Some err, _) \<Rightarrow> Loaded (msg_zero\<lparr>m_error := Some err\<rparr>))
                   else (case JSONGetObject object of
                           None \<Rightarrow> Refused
                         | Some (cmd_object, _) \<Rightarrow>
                             (if name = ''RESP'' then resp_loop else cmd_loop)
                               fresh sortedFields cmd_object (msg_zero\<lparr>m_command := Some name\<rparr>)))))"

subsection \<open>Envelopes\<close>

definition initRequest :: "allocator \<Rightarrow> string \<Rightarrow> int \<Rightarrow> (fault + buff) option" where
  "initRequest alloc resp_name version =
     map_option (\<lambda>b.
       bindB (JSONStart alloc b) (\<lambda>b.
       bindB (JSONStartObject alloc b (Some resp_name)) (\<lambda>b.
       bindB (JSONAddInt alloc b VERSION version) (\<lambda>b.
       JSONStartObject alloc b (Some ''FIELDS'')))))
     (buffNew alloc 1024)"

definition closeRequest :: "allocator \<Rightarrow> buff \<Rightarrow> fault + buff" where
  "closeRequest alloc b =
     bindB (JSONEndObject alloc b) (\<lambda>b.
     bindB (JSONEndObject alloc b) (\<lambda>b.
     JSONEnd alloc b))"

definition initNamedResponse ::
  "allocator \<Rightarrow> string option \<Rightarrow> int \<Rightarrow> string option \<Rightarrow> (fault + buff) option" where
  "initNamedResponse alloc name version alert =
     map_option (\<lambda>b.
       bindB (JSONStart alloc b) (\<lambda>b.
       bindB (JSONStartObject alloc b (Some (case name of Some n \<Rightarrow> n | None \<Rightarrow> ''RESP''))) (\<lambda>b.
       bindB (JSONAddInt alloc b VERSION version) (\<lambda>b.
       bindB (case alert of None \<Rightarrow> Inr b | Some a \<Rightarrow> JSONAddString alloc b ALERT (Some a)) (\<lambda>b.
       JSONStartArray alloc b ''DATA'')))))
     (buffNew alloc 1024)"

definition initResponseAlert :: "allocator \<Rightarrow> int \<Rightarrow> string option \<Rightarrow> (fault + buff) option" where
  "initResponseAlert alloc version alert = initNamedResponse alloc None version alert"

definition initResponse :: "allocator \<Rightarrow> int \<Rightarrow> (fault + buff) option" where
  "initResponse alloc version = initNamedResponse alloc None version None"

definition closeResponse :: "allocator \<Rightarrow> buff \<Rightarrow> fault + buff" where
  "closeResponse alloc b =
     bindB (JSONEndArray alloc b) (\<lambda>b.
     bindB (JSONEndObject alloc b) (\<lambda>b.
     JSONEnd alloc b))"

end
