(* ===== verification/Wire.thy ===== *)
theory Wire
  imports Message
begin

section \<open>Wire: what one side writes the other side reads\<close>

text \<open>
  The wire format as one text, \<open>request_text\<close>, with the two refinements that make it the
  contract between a client and the daemon: the buffer writers of \<open>json.c\<close> and \<open>fields.c\<close>
  produce exactly this text, and \<open>load_message\<close> reads it back.
\<close>

subsection \<open>The text of a message\<close>

fun commas :: "string list \<Rightarrow> string" where
  "commas [] = []"
| "commas [x] = x"
| "commas (x # y # ys) = x @ '','' @ commas (y # ys)"

fun value_text :: "field_value \<Rightarrow> string" where
  "value_text (FNum v) = int64tostr v"
| "value_text (FBool v) = (if v then ''true'' else ''false'')"
| "value_text (FStr s) = (case s of Some t \<Rightarrow> jstring t | None \<Rightarrow> ''null'')"
| "value_text (FStrs ss) = ''['' @ commas (map (\<lambda>s. jstring (the s)) ss) @ '']''"
| "value_text (FMap kvs) =
     ''{'' @ commas (map (\<lambda>(k, v). quoted_name k @ jstring (the v)) kvs) @ ''}''"

definition field_text :: "field \<Rightarrow> string" where
  "field_text f = quoted_name (fd_name (field_table ! f_number f)) @ value_text (f_value f)"

definition request_text :: "string \<Rightarrow> int \<Rightarrow> field list \<Rightarrow> string" where
  "request_text name version fs =
     ''{'' @ quoted_name name @ ''{'' @ quoted_name ''VERSION'' @ int64tostr version @ '','' @
     quoted_name ''FIELDS'' @ ''{'' @ commas (map field_text fs) @ ''}}}'' @ [NL]"

text \<open>
  Values that the format carries: numbers of 64 bits, strings that do not end in a backslash
  (see \<open>JSONGetObject_trailing_backslash\<close>), map keys without backslash and quote, and no
  NULL strings.
\<close>

definition plain_name :: "string \<Rightarrow> bool" where
  "plain_name s \<longleftrightarrow> BSL \<notin> set s \<and> QUOTE \<notin> set s"

fun value_ok :: "ftype \<Rightarrow> field_value \<Rightarrow> bool" where
  "value_ok FT_NUM (FNum v) \<longleftrightarrow> - (2 ^ 63) \<le> v \<and> v < 2 ^ 63"
| "value_ok FT_BOOL (FBool v) \<longleftrightarrow> True"
| "value_ok FT_STRING (FStr (Some s)) \<longleftrightarrow> scannable s"
| "value_ok FT_STRINGARRAY (FStrs ss) \<longleftrightarrow> list_all (\<lambda>s. s \<noteq> None \<and> scannable (the s)) ss"
| "value_ok FT_MAP (FMap kvs) \<longleftrightarrow>
     list_all (\<lambda>(k, v). plain_name k \<and> v \<noteq> None \<and> scannable (the v)) kvs"
| "value_ok _ _ \<longleftrightarrow> False"

definition field_ok :: "field \<Rightarrow> bool" where
  "field_ok f \<longleftrightarrow>
     f_number f < ENDOFFIELDS \<and> value_ok (fd_type (field_table ! f_number f)) (f_value f)"

subsection \<open>Pieces of the format\<close>

lemma table_names_plain:
  "list_all (\<lambda>f. uppercasestring (fd_name f) = fd_name f \<and> plain_name (fd_name f)) field_table"
  by (simp add: field_table_def field_rows_def mk_field_def uppercasestring_def toupper_c_def plain_name_def)

lemma field_name_plain:
  assumes "n < ENDOFFIELDS"
  shows "uppercasestring (fd_name (field_table ! n)) = fd_name (field_table ! n)"
    and "plain_name (fd_name (field_table ! n))"
  using table_names_plain assms length_fields by (auto simp: list_all_length)

lemma JSONGetString_jstring [simp]: "JSONGetString (jstring s @ r) = Some (Some s, r)"
  by (simp add: JSONGetString_def jstring_def skipWhitespace_def is_ws_def)

definition starts_value :: "string \<Rightarrow> bool" where
  "starts_value t \<longleftrightarrow> t \<noteq> [] \<and> hd t \<notin> {SPC, TAB, CHR '':''}"

lemma JSONGetName_quoted:
  assumes "plain_name n" and "set pre \<subseteq> {CHR '',''}" and "starts_value t"
  shows "JSONGetName (pre @ quoted_name n @ t) = Some (n, t)"
proof -
  have pre: "skipChars ('' ,]}'' @ [TAB]) (pre @ QUOTE # u) = QUOTE # u" for u
    using assms(2) by (induction pre) (auto simp: skipChars_def)
  have t: "skipChars ('' :'' @ [TAB]) (CHR '':'' # t) = t"
    using assms(3) by (cases t) (auto simp: skipChars_def starts_value_def)
  have "JSONGetString (QUOTE # n @ QUOTE # CHR '':'' # t) = Some (Some n, CHR '':'' # t)"
    using assms(1) get_string_plain [of n "CHR '':'' # t"]
    by (simp add: JSONGetString_def plain_name_def skipWhitespace_def is_ws_def)
  with t pre show ?thesis by (simp add: JSONGetName_def quoted_name_def)
qed

lemma JSONGetName_Nil [simp]: "JSONGetName [] = None"
  by (simp add: JSONGetName_def JSONGetString_def skipChars_def skipWhitespace_def)

lemma starts_value_text: "value_ok t v \<Longrightarrow> starts_value (value_text v @ r)"
proof (induction t v rule: value_ok.induct)
  case (1 v)
  obtain c cs where c: "int64tostr v = c # cs" and cc: "c = CHR ''-'' \<or> is_digit c"
    using hd_rev_digits [of "nat v"]
    by (cases "v < 0"; cases "rev (digits_rev (nat v))") (auto simp: int64tostr_eq)
  then show ?case by (auto simp: starts_value_def is_digit_def)
qed (auto simp: starts_value_def jstring_def)

subsection \<open>Reading values back\<close>

lemma array_step:
  "string_array_loop acc (jstring s @ CHR '']'' # r) = Some (acc @ [Some s], r)"
  "string_array_loop acc (jstring s @ CHR '','' # r) = string_array_loop (acc @ [Some s]) r"
  by (subst string_array_loop.simps, simp)+

lemma array_read:
  "list_all (\<lambda>s. s \<noteq> None) ss \<Longrightarrow> ss \<noteq> [] \<Longrightarrow>
   string_array_loop acc (commas (map (\<lambda>s. jstring (the s)) ss) @ CHR '']'' # r) = Some (acc @ ss, r)"
  by (induction ss arbitrary: acc rule: induct_list012) (auto simp: array_step)

lemma array_read_empty: "string_array_loop [] (CHR '']'' # r) = Some ([], r)"
  by (subst string_array_loop.simps)
     (simp add: JSONGetString_def skipWhitespace_def is_ws_def)

lemma JSONGetStringArray_text:
  assumes "list_all (\<lambda>s. s \<noteq> None) ss"
  shows "JSONGetStringArray (value_text (FStrs ss) @ r) = Some (ss, r)"
  using assms array_read [of ss "[]" r] array_read_empty [of r]
  by (cases "ss = []") (simp_all add: JSONGetStringArray_def skipWhitespace_def is_ws_def)

lemma starts_value_jstring [simp]: "starts_value (jstring s @ r)"
  by (simp add: starts_value_def jstring_def)

lemma map_step:
  assumes "plain_name k" and "set pre \<subseteq> {CHR '',''}"
  shows "map_loop acc (pre @ quoted_name k @ jstring v @ r) = map_loop (acc @ [(k, Some v)]) r"
  by (subst map_loop.simps) (simp add: JSONGetName_quoted [OF assms])

lemma map_loop_Nil: "map_loop acc [] = Some acc"
  by (subst map_loop.simps) simp

definition pair_ok :: "string \<times> string option \<Rightarrow> bool" where
  "pair_ok kv \<longleftrightarrow> plain_name (fst kv) \<and> snd kv \<noteq> None \<and> scannable (the (snd kv))"

definition pair_text :: "string \<times> string option \<Rightarrow> string" where
  "pair_text kv = quoted_name (fst kv) @ jstring (the (snd kv))"

lemma map_read:
  "list_all pair_ok kvs \<Longrightarrow> set pre \<subseteq> {CHR '',''} \<Longrightarrow> kvs \<noteq> [] \<Longrightarrow>
   map_loop acc (pre @ commas (map pair_text kvs)) = Some (acc @ kvs)"
proof (induction kvs arbitrary: acc pre rule: induct_list012)
  case (2 kv)
  then show ?case
    using map_step [of "fst kv" pre acc "the (snd kv)" "[]"]
    by (auto simp: pair_ok_def pair_text_def map_loop_Nil)
next
  case (3 kv kw kvs)
  have "map_loop acc (pre @ commas (map pair_text (kv # kw # kvs))) =
      map_loop (acc @ [kv]) ('','' @ commas (map pair_text (kw # kvs)))"
    using 3 map_step [of "fst kv" pre acc "the (snd kv)" "'','' @ commas (map pair_text (kw # kvs))"]
    by (auto simp: pair_ok_def pair_text_def)
  also have "\<dots> = Some ((acc @ [kv]) @ kw # kvs)" using 3 by (intro "3.IH"(2)) simp_all
  finally show ?case by simp
qed simp

lemma scan_plain_name:
  "plain_name k \<Longrightarrow> p \<noteq> BSL \<Longrightarrow> scan_object p True i (k @ QUOTE # r) =
     prefixed (k @ [QUOTE]) (scan_object QUOTE False i r)"
proof (induction k arbitrary: p)
  case (Cons c k)
  then have "c \<noteq> BSL" and "c \<noteq> QUOTE" and "plain_name k" by (auto simp: plain_name_def)
  with Cons.IH [of c] show ?case by simp
qed simp

lemma balanced_quoted_name: "plain_name k \<Longrightarrow> balanced (quoted_name k)"
proof -
  assume k: "plain_name k"
  have "balanced ([QUOTE] @ k @ [QUOTE])"
    by (rule balancedI) (simp_all add: scan_plain_name [OF k])
  then show ?thesis
    using balanced_append balanced_plain [of "'':''"] by (fastforce simp: quoted_name_def)
qed

lemma balanced_pair: "pair_ok kv \<Longrightarrow> balanced (pair_text kv)"
  unfolding pair_ok_def pair_text_def
  by (blast intro: balanced_append balanced_quoted_name balanced_jstring)

lemma balanced_commas: "list_all balanced ts \<Longrightarrow> balanced (commas ts)"
proof (induction ts rule: commas.induct)
  case (3 x y ys)
  have "balanced '',''" by (rule balanced_plain) simp
  with 3 show ?case by (auto intro!: balanced_append simp del: append_Cons)
qed simp_all

lemma value_text_map: "value_text (FMap kvs) = ''{'' @ commas (map pair_text kvs) @ ''}''"
  by (simp add: pair_text_def [abs_def] split_def)

lemma value_ok_map: "value_ok FT_MAP (FMap kvs) \<longleftrightarrow> list_all pair_ok kvs"
  by (simp add: pair_ok_def [abs_def] split_def)

lemma JSONGetObject_text:
  "balanced t \<Longrightarrow> JSONGetObject (''{'' @ t @ ''}'' @ r) = Some (t, r)"
  using scan_object_close [of t "CHR ''{''" r]
  by (simp add: JSONGetObject_def skipWhitespace_def is_ws_def)

lemma balanced_pairs: "list_all pair_ok kvs \<Longrightarrow> balanced (commas (map pair_text kvs))"
  by (rule balanced_commas) (auto simp: list_all_iff balanced_pair)

lemma JSONGetMap_text:
  assumes "list_all pair_ok kvs"
  shows "JSONGetMap (value_text (FMap kvs) @ r) = Some (kvs, r)"
  using JSONGetObject_text [OF balanced_pairs [OF assms], of r] map_read [OF assms, of "[]" "[]"]
  unfolding value_text_map by (cases "kvs = []") (auto simp: JSONGetMap_def map_loop_Nil)

lemma JSONGetNum_text:
  assumes "- (2 ^ 63) \<le> v" and "v < 2 ^ 63" and "r = [] \<or> hd r \<in> {CHR '','', CHR '']'', CHR ''}''}"
  shows "JSONGetNum (int64tostr v @ r) = Some (v, r)"
proof -
  have "starts_value (int64tostr v @ r)" using starts_value_text [of FT_NUM "FNum v"] assms by simp
  then have "skipWhitespace (int64tostr v @ r) = int64tostr v @ r"
    by (cases "int64tostr v @ r") (auto simp: starts_value_def skipWhitespace_def is_ws_def)
  moreover have "strtoint64 (int64tostr v @ r) = (v, r)"
    using assms by (intro strtoint64_int64tostr) (auto simp: is_digit_def)
  ultimately show ?thesis using assms(3) by (auto simp: JSONGetNum_def)
qed

lemma load_value_text:
  assumes "value_ok t v" and "r = [] \<or> hd r = CHR '',''"
  shows "load_value t (value_text v @ r) = Some (v, r)"
  using assms
proof (induction t v rule: value_ok.induct)
  case (1 v)
  then show ?case using JSONGetNum_text [of v r] by (auto simp: load_value_def)
next
  case (4 ss)
  then have "list_all (\<lambda>s. s \<noteq> None) ss" by (simp add: list_all_iff)
  from JSONGetStringArray_text [OF this, of r] show ?case by (simp add: load_value_def)
next
  case (5 kvs)
  then have "list_all pair_ok kvs" using value_ok_map by blast
  from JSONGetMap_text [OF this, of r] show ?case by (simp add: load_value_def)
qed (simp_all add: load_value_def JSONGetBool_def skipWhitespace_def is_ws_def)

subsection \<open>Reading a request back\<close>

lemma field_eta [simp]: "\<lparr>f_number = f_number f, f_value = f_value f\<rparr> = f"
  by (cases f) simp

lemma fields_step:
  assumes "field_ok f" and "set pre \<subseteq> {CHR '',''}" and "r = [] \<or> hd r = CHR '',''"
  shows "load_fields_loop (Some sortfields) acc (pre @ field_text f @ r) =
         load_fields_loop (Some sortfields) (acc @ [f]) r"
proof -
  let ?n = "f_number f"
  from assms(1) have n: "?n < ENDOFFIELDS" and v: "value_ok (fd_type (field_table ! ?n)) (f_value f)"
    by (simp_all add: field_ok_def)
  have name: "JSONGetName (pre @ field_text f @ r) =
      Some (fd_name (field_table ! ?n), value_text (f_value f) @ r)"
    using JSONGetName_quoted [OF field_name_plain(2) [OF n] assms(2) starts_value_text [OF v]]
    by (simp add: field_text_def)
  show ?thesis
    by (subst load_fields_loop.simps)
       (simp add: name field_name_plain(1) [OF n] fieldtonum_name [OF n]
         load_value_text [OF v assms(3)])
qed

lemma load_fields_Nil: "load_fields_loop sf acc [] = Some acc"
  by (subst load_fields_loop.simps) simp

lemma fields_read:
  "list_all field_ok fs \<Longrightarrow> set pre \<subseteq> {CHR '',''} \<Longrightarrow> fs \<noteq> [] \<Longrightarrow>
   load_fields_loop (Some sortfields) acc (pre @ commas (map field_text fs)) = Some (acc @ fs)"
proof (induction fs arbitrary: acc pre rule: induct_list012)
  case (2 f)
  then show ?case using fields_step [of f pre "[]" acc] by (auto simp: load_fields_Nil)
next
  case (3 f g fs)
  have "load_fields_loop (Some sortfields) acc (pre @ commas (map field_text (f # g # fs))) =
      load_fields_loop (Some sortfields) (acc @ [f]) ('','' @ commas (map field_text (g # fs)))"
    using 3 fields_step [of f pre "'','' @ commas (map field_text (g # fs))" acc] by simp
  also have "\<dots> = Some ((acc @ [f]) @ g # fs)" using 3 by (intro "3.IH"(2)) simp_all
  finally show ?case by simp
qed simp

lemma loadFields_text:
  assumes "list_all field_ok fs"
  shows "loadFields fresh (Some sortfields) (commas (map field_text fs)) m =
    Some (m\<lparr>m_items := (let items = m_items m @ [\<lparr>bitmap = fresh, item_fields = fs\<rparr>] in
      (hd items)\<lparr>bitmap := fold (\<lambda>f b. setField b (f_number f)) fs (bitmap (hd items))\<rparr> # tl items)\<rparr>)"
  using fields_read [OF assms, of "[]" "[]"]
  by (cases "fs = []") (simp_all add: loadFields_def load_fields_Nil Let_def)

lemma plain_ascii: "balanced (int64tostr v)"
proof (rule balanced_plain)
  have "set (int64tostr v) \<subseteq> {c. c = CHR ''-'' \<or> is_digit c}"
    using digits_rev_digits by (auto simp: int64tostr_eq)
  then show "set (int64tostr v) \<inter> {BSL, QUOTE, CHR ''{'', CHR ''}''} = {}"
    by (auto simp: is_digit_def)
qed

lemma balanced_value: "value_ok t v \<Longrightarrow> balanced (value_text v)"
proof (induction t v rule: value_ok.induct)
  case (1 v)
  then show ?case by (simp add: plain_ascii)
next
  case (2 v)
  then show ?case by (cases v) (auto intro: balanced_plain)
next
  case (3 s)
  then show ?case by (simp add: balanced_jstring)
next
  case (4 ss)
  then have "balanced (commas (map (\<lambda>s. jstring (the s)) ss))"
    by (intro balanced_commas) (auto simp: list_all_iff balanced_jstring)
  moreover have "balanced ''[''" "balanced '']''" by (auto intro: balanced_plain)
  ultimately show ?case
    unfolding value_text.simps by (intro balanced_append)
next
  case (5 kvs)
  then have "balanced (commas (map pair_text kvs))"
    using value_ok_map balanced_pairs by blast
  then show ?case unfolding value_text_map by (rule balanced_object)
qed simp_all

lemma balanced_field: "field_ok f \<Longrightarrow> balanced (field_text f)"
  unfolding field_ok_def field_text_def
  by (blast intro: balanced_append balanced_quoted_name field_name_plain(2) balanced_value)

lemma balanced_fields: "list_all field_ok fs \<Longrightarrow> balanced (commas (map field_text fs))"
  by (rule balanced_commas) (auto simp: list_all_iff balanced_field)

definition first_item :: "8 word list \<Rightarrow> field list \<Rightarrow> msg_item" where
  "first_item fresh fs =
     \<lparr>bitmap = fold (\<lambda>f b. setField b (f_number f)) fs fresh, item_fields = fs\<rparr>"

lemma loadFields_first:
  "list_all field_ok fs \<Longrightarrow> m_items m = [] \<Longrightarrow>
   loadFields fresh (Some sortfields) (commas (map field_text fs)) m =
   Some (m\<lparr>m_items := [first_item fresh fs]\<rparr>)"
  by (simp add: loadFields_text first_item_def)

lemma cmd_loop_text:
  assumes "- (2 ^ 63) \<le> v" and "v < 2 ^ 63" and "list_all field_ok fs" and "m_items m = []"
  shows "cmd_loop fresh (Some sortfields)
      (quoted_name ''VERSION'' @ int64tostr v @ '','' @ quoted_name ''FIELDS'' @ ''{'' @
       commas (map field_text fs) @ ''}'') m =
    Loaded (m\<lparr>m_version := v, m_items := [first_item fresh fs]\<rparr>)"
proof -
  let ?fs = "commas (map field_text fs)"
  let ?F = "'','' @ quoted_name ''FIELDS'' @ ''{'' @ ?fs @ ''}''"
  have v: "starts_value (int64tostr v @ ?F)"
    using starts_value_text [of FT_NUM "FNum v"] assms by simp
  have n1: "JSONGetName (quoted_name ''VERSION'' @ int64tostr v @ ?F) =
      Some (''VERSION'', int64tostr v @ ?F)"
    using JSONGetName_quoted [of "''VERSION''" "[]" "int64tostr v @ ?F"] v
    by (simp add: plain_name_def)
  have n2: "JSONGetName ?F = Some (''FIELDS'', ''{'' @ ?fs @ ''}'')"
    using JSONGetName_quoted [of "''FIELDS''" "'',''" "''{'' @ ?fs @ ''}''"]
    by (simp add: plain_name_def starts_value_def)
  have num: "JSONGetNum (int64tostr v @ ?F) = Some (v, ?F)"
    using assms by (intro JSONGetNum_text) simp_all
  have obj: "JSONGetObject (''{'' @ ?fs @ ''}'') = Some (?fs, [])"
    using JSONGetObject_text [OF balanced_fields [OF assms(3)], of "[]"] by simp
  have "cmd_loop fresh (Some sortfields) (quoted_name ''VERSION'' @ int64tostr v @ ?F) m =
      cmd_loop fresh (Some sortfields) ?F (m\<lparr>m_version := v\<rparr>)"
    by (subst cmd_loop.simps) (simp add: n1 num uppercasestring_def toupper_c_def del: append.simps)
  also have "\<dots> = cmd_loop fresh (Some sortfields) []
      (m\<lparr>m_version := v, m_items := [first_item fresh fs]\<rparr>)"
    by (subst cmd_loop.simps)
       (simp add: n2 obj uppercasestring_def toupper_c_def loadFields_first [OF assms(3)]
         assms(4) del: append.simps)
  also have "\<dots> = Loaded (m\<lparr>m_version := v, m_items := [first_item fresh fs]\<rparr>)"
    by (subst cmd_loop.simps) simp
  finally show ?thesis by simp
qed

lemma load_request_text:
  assumes "- (2 ^ 63) \<le> v" and "v < 2 ^ 63" and "list_all field_ok fs"
    and "plain_name name" and "uppercasestring name \<notin> {''ERROR'', ''RESP''}"
  shows "load_message fresh (Some sortfields) (request_text name v fs) =
    Loaded \<lparr>m_command = Some (uppercasestring name), m_error = None, m_version = v,
            m_items = [first_item fresh fs], m_alert = None\<rparr>"
proof -
  let ?cmd = "quoted_name ''VERSION'' @ int64tostr v @ '','' @ quoted_name ''FIELDS'' @ ''{'' @
    commas (map field_text fs) @ ''}''"
  have cmd: "balanced ?cmd"
  proof -
    have obj: "balanced (''{'' @ commas (map field_text fs) @ ''}'')"
      using balanced_object [OF balanced_fields [OF assms(3)]] by simp
    have v: "balanced (quoted_name ''VERSION'')" and f: "balanced (quoted_name ''FIELDS'')"
      by (auto intro: balanced_quoted_name simp: plain_name_def)
    have "balanced '',''" by (rule balanced_plain) simp
    from balanced_append [OF v balanced_append [OF plain_ascii balanced_append [OF this
          balanced_append [OF f obj]]]] show ?thesis .
  qed
  then have whole: "balanced (quoted_name name @ ''{'' @ ?cmd @ ''}'')"
    using balanced_append [OF balanced_quoted_name [OF assms(4)] balanced_object [OF cmd]] by simp
  have "JSONGetObject (request_text name v fs) = Some (quoted_name name @ ''{'' @ ?cmd @ ''}'', [NL])"
    using JSONGetObject_text [OF whole, of "[NL]"] by (simp add: request_text_def)
  moreover have "JSONGetName (quoted_name name @ ''{'' @ ?cmd @ ''}'') = Some (name, ''{'' @ ?cmd @ ''}'')"
    using JSONGetName_quoted [OF assms(4), of "[]"] by (simp add: starts_value_def)
  moreover have "JSONGetObject (''{'' @ ?cmd @ ''}'') = Some (?cmd, [])"
    using JSONGetObject_text [OF cmd, of "[]"] by simp
  moreover have "cmd_loop fresh (Some sortfields) ?cmd (msg_zero\<lparr>m_command := Some (uppercasestring name)\<rparr>) =
     Loaded (msg_zero\<lparr>m_command := Some (uppercasestring name), m_version := v,
                     m_items := [first_item fresh fs]\<rparr>)"
    using assms by (subst cmd_loop_text) (simp_all add: msg_zero_def)
  ultimately show ?thesis
    using assms(5) by (simp add: load_message_def msg_zero_def Let_def del: append.simps)
qed

subsection \<open>Writing a request\<close>

text \<open>
  A request is written field by field, with the writer that fits each value. The array and
  map writers take the length of every string, so a NULL among them is dereferenced.
\<close>

definition JSONAddField :: "allocator \<Rightarrow> buff \<Rightarrow> field \<Rightarrow> fault + buff" where
  "JSONAddField alloc b f =
     (case f_value f of
        FNum v \<Rightarrow> JSONAddInt alloc b (f_number f) v
      | FBool v \<Rightarrow> JSONAddBool alloc b (f_number f) v
      | FStr v \<Rightarrow> JSONAddString alloc b (f_number f) v
      | FStrs vs \<Rightarrow>
          if None \<in> set vs then Inl NullPointer
          else JSONAddStringArray alloc b (f_number f) (map the vs)
      | FMap kvs \<Rightarrow>
          if None \<in> snd ` set kvs then Inl NullPointer
          else JSONAddMap alloc b (f_number f) (map (\<lambda>(k, v). (k, the v)) kvs))"

fun JSONAddFields :: "allocator \<Rightarrow> buff \<Rightarrow> field list \<Rightarrow> fault + buff" where
  "JSONAddFields alloc b [] = Inr b"
| "JSONAddFields alloc b (f # fs) =
     bindB (JSONAddField alloc b f) (\<lambda>b. JSONAddFields alloc b fs)"

definition write_request :: "allocator \<Rightarrow> string \<Rightarrow> int \<Rightarrow> field list \<Rightarrow> (fault + buff) option" where
  "write_request alloc name version fs =
     map_option (\<lambda>r. bindB r (\<lambda>b. bindB (JSONAddFields alloc b fs) (closeRequest alloc)))
       (initRequest alloc name version)"

text \<open>An allocator that always grows a block where it is.\<close>

definition in_place :: "allocator \<Rightarrow> bool" where
  "in_place alloc \<longleftrightarrow> (\<forall>n. alloc n = AllocSame)"

text \<open>What a writer promises: it succeeds and appends the text.\<close>

definition writes :: "fault + buff \<Rightarrow> string \<Rightarrow> bool" where
  "writes r d \<longleftrightarrow> (\<exists>b. r = Inr b \<and> bdata b = d \<and> buff_ok b)"

lemma writes_bind:
  assumes "writes r d" and "\<And>b. bdata b = d \<Longrightarrow> buff_ok b \<Longrightarrow> writes (k b) d'"
  shows "writes (bindB r k) d'"
  using assms by (auto simp: writes_def bindB_def)

lemma in_place_never_fails: "in_place alloc \<Longrightarrow> never_fails alloc"
  by (simp add: in_place_def never_fails_def)

lemma writes_put:
  assumes "in_place alloc" and "buff_ok b" and "length txt \<le> required"
    and "length (bdata b) + required < 2 ^ 62"
  shows "writes (buffPut alloc b required txt) (bdata b @ txt)"
  using assms buffPut_ok [of b required alloc "txt"] in_place_never_fails
  by (auto simp: writes_def roomy_def BUFF_DEFAULT_SIZE_def)

lemma writes_put_before:
  assumes "in_place alloc" and "buff_ok b" and "length txt \<le> required"
    and "length (bdata b) + required < 2 ^ 62"
  shows "writes (put_before_resize alloc b required txt) (bdata b @ txt)"
proof -
  have "roomy b required" using assms(4) by (simp add: roomy_def BUFF_DEFAULT_SIZE_def)
  then obtain moved b' where r: "buffResize alloc b required = Inr (False, moved, b')"
    and d: "bdata b' = bdata b" and sz: "length (bdata b) + required \<le> bsize b'"
    using buffResize_ok in_place_never_fails [OF assms(1)] by metis
  from r assms(1) have "\<not> moved"
    by (auto simp: buffResize_def in_place_def Let_def split: if_splits option.splits)
  with r d sz assms(3) show ?thesis by (auto simp: put_before_resize_def writes_def buff_ok_def)
qed

lemma writes_add:
  assumes "in_place alloc" and "buff_ok b" and "length (bdata b) + length txt < 2 ^ 62"
  shows "writes (buffAdd alloc b txt) (bdata b @ txt)"
  unfolding buffAdd_def using assms by (intro writes_put) simp_all

lemma writes_close:
  assumes "in_place alloc" and "buff_ok b" and "length (bdata b) + length after < 2 ^ 61"
    and "bdata b = d @ '','' \<or> bdata b = d \<and> d \<noteq> [] \<and> last d \<noteq> CHR '',''"
  shows "writes (close_with alloc b c after) (d @ [c] @ after)"
  using assms(4)
proof
  assume d: "bdata b = d @ '',''"
  let ?b = "b\<lparr>bdata := butlast (bdata b) @ [c]\<rparr>"
  have ok: "buff_ok ?b" using assms(2) d by (simp add: buff_ok_def)
  have "writes (buffAdd alloc ?b after) (bdata ?b @ after)"
    using assms(3) d by (intro writes_add [OF assms(1) ok]) simp
  with d show ?thesis by (simp add: close_with_def)
next
  assume d: "bdata b = d \<and> d \<noteq> [] \<and> last d \<noteq> CHR '',''"
  have "writes (buffAdd alloc b (c # after)) (bdata b @ c # after)"
    using assms(3) by (intro writes_add [OF assms(1,2)]) simp
  with d show ?thesis by (simp add: close_with_def)
qed

lemma digits_rev_length: "v < 10 ^ Suc k \<Longrightarrow> length (digits_rev v) \<le> Suc k"
proof (induction k arbitrary: v)
  case 0
  then show ?case by (subst digits_rev.simps) simp
next
  case (Suc k)
  then have "v div 10 < 10 ^ Suc k" by (simp add: less_mult_imp_div_less)
  with Suc.IH show ?case by (subst digits_rev.simps) simp
qed

lemma int64tostr_length: "- (2 ^ 63) \<le> v \<Longrightarrow> v < 2 ^ 63 \<Longrightarrow> length (int64tostr v) \<le> 21"
proof -
  assume v: "- (2 ^ 63) \<le> v" "v < 2 ^ 63"
  have "nat v < 10 ^ Suc 19" using v by simp
  moreover have "uint64 x < 2 ^ 64" for x by (simp add: cuint_def)
  then have "nat (uint64 (int64 (- v))) < 2 ^ 64" by (simp add: nat_less_iff cuint_def)
  then have "nat (uint64 (int64 (- v))) < 10 ^ Suc 19" by simp
  ultimately show ?thesis
    using digits_rev_length [of "nat v" 19] digits_rev_length [of "nat (uint64 (int64 (- v)))" 19]
    by (simp add: int64tostr_eq)
qed

lemma length_quoted_name [simp]: "length (quoted_name n) = length n + 3"
  by (simp add: quoted_name_def)

lemma jstring_length: "length s + 2 \<le> length (jstring s)" "length (jstring s) \<le> 2 * length s + 2"
proof -
  have "length s \<le> length (json_escape s)" by (induction s) auto
  then show "length s + 2 \<le> length (jstring s)" "length (jstring s) \<le> 2 * length s + 2"
    using json_escape_bound [of s] by (simp_all add: jstring_def)
qed

subsection \<open>The writers of each kind of value\<close>

lemma commas_trailing:
  "concat (map (\<lambda>x. f x @ '','') xs) = (if xs = [] then [] else commas (map f xs) @ '','')"
  by (induction xs rule: induct_list012) auto

lemma json_strings_commas:
  "json_strings True ss = commas (map jstring ss)"
  "json_strings False ss = concat (map (\<lambda>s. '','' @ jstring s) ss)"
proof -
  have tail: "json_strings False ss = concat (map (\<lambda>s. '','' @ jstring s) ss)" for ss
    by (induction ss) (simp_all add: jstring_def)
  have head: "x @ concat (map (\<lambda>s. '','' @ jstring s) ss) = commas (x # map jstring ss)" for x ss
  proof (induction ss arbitrary: x)
    case (Cons a ss)
    from Cons.IH [of "jstring a"] show ?case by simp
  qed simp
  show "json_strings True ss = commas (map jstring ss)"
  proof (cases ss)
    case (Cons a list)
    then have "json_strings True ss = jstring a @ json_strings False list" by (simp add: jstring_def)
    with Cons head [of "jstring a" list] show ?thesis by (simp add: tail)
  qed simp
  show "json_strings False ss = concat (map (\<lambda>s. '','' @ jstring s) ss)" by (rule tail)
qed

lemma json_map_commas:
  "json_map kvs = concat (map (\<lambda>(k, v). (quoted_name k @ jstring v) @ '','') kvs)"
  by (induction kvs rule: json_map.induct) (simp_all add: jstring_def)

lemma commas_length: "sum_list (map length ts) \<le> length (commas ts)"
    "length (commas ts) \<le> sum_list (map (\<lambda>t. length t + 1) ts)"
  by (induction ts rule: commas.induct) auto

lemma sum_list_bound:
  "(\<And>x. f x \<le> (g x :: nat)) \<Longrightarrow> sum_list (map f xs) \<le> sum_list (map g xs)"
  by (rule sum_list_mono)

lemma with_field_name: "n < ENDOFFIELDS \<Longrightarrow> with_field n k = k (fd_name (field_table ! n))"
  by (simp add: with_field_def getFieldName_def)

lemma writes_JSONAddStringArray:
  assumes "in_place alloc" and "buff_ok b" and "n < ENDOFFIELDS"
    and "length (bdata b) + 4 * length (quoted_name (fd_name (field_table ! n)) @ ''['' @
           commas (map jstring ss) @ '']'') < 2 ^ 60"
  shows "writes (JSONAddStringArray alloc b n ss)
    (bdata b @ quoted_name (fd_name (field_table ! n)) @ ''['' @ commas (map jstring ss) @ ''],'')"
proof -
  let ?req = "sum_list (map (\<lambda>v. MAX_ESC_LEN (length v) + 3) ss)"
  let ?sum = "sum_list (map (\<lambda>v. length (jstring v)) ss)"
  have "length (jstring v) + 1 \<le> MAX_ESC_LEN (length v) + 3" for v
    using jstring_length(2) [of v] by (simp add: MAX_ESC_LEN_def)
  then have "sum_list (map (\<lambda>v. length (jstring v) + 1) ss) \<le> ?req" by (rule sum_list_bound)
  then have upper: "length (commas (map jstring ss)) \<le> ?req"
    using commas_length(2) [of "map jstring ss"] by (simp add: comp_def)
  have "MAX_ESC_LEN (length v) + 3 \<le> 2 * length (jstring v)" for v
    using jstring_length(1) [of v] by (simp add: MAX_ESC_LEN_def)
  then have "?req \<le> sum_list (map (\<lambda>v. 2 * length (jstring v)) ss)" by (rule sum_list_bound)
  also have "\<dots> = 2 * ?sum" by (simp add: sum_list_const_mult)
  also have "\<dots> \<le> 2 * length (commas (map jstring ss))"
    using commas_length(1) [of "map jstring ss"] by (simp add: comp_def)
  finally show ?thesis
    using assms upper
    by (simp add: JSONAddStringArray_def with_field_name json_strings_commas)
      (intro writes_put, simp_all)
qed

lemma writes_JSONStartObject:
  assumes "in_place alloc" and "buff_ok b" and "length (bdata b) + length n < 2 ^ 61"
  shows "writes (JSONStartObject alloc b (Some n)) (bdata b @ quoted_name n @ ''{'')"
  using assms by (simp add: JSONStartObject_def Let_def) (intro writes_put_before, simp_all)

lemma writes_JSONAddMap:
  assumes "in_place alloc" and "buff_ok b" and "n < ENDOFFIELDS"
    and "length (bdata b) + 4 * length (quoted_name (fd_name (field_table ! n)) @ ''{'' @
           commas (map (\<lambda>(k, v). quoted_name k @ jstring v) kvs) @ ''}'') < 2 ^ 60"
  shows "writes (JSONAddMap alloc b n kvs)
    (bdata b @ quoted_name (fd_name (field_table ! n)) @ ''{'' @
     commas (map (\<lambda>(k, v). quoted_name k @ jstring v) kvs) @ ''},'')"
proof -
  let ?name = "fd_name (field_table ! n)"
  let ?pair = "\<lambda>(k, v). quoted_name k @ jstring v"
  let ?req = "sum_list (map (\<lambda>(k, v). length k + MAX_ESC_LEN (length v) + 6) kvs)"
  let ?d = "bdata b @ quoted_name ?name @ ''{''"
  have "length (?pair kv @ '','') \<le> (\<lambda>(k, v). length k + MAX_ESC_LEN (length v) + 6) kv" for kv
    using jstring_length(2) [of "snd kv"] by (simp add: MAX_ESC_LEN_def split_def)
  then have "sum_list (map (\<lambda>kv. length (?pair kv @ '','')) kvs) \<le> ?req" by (rule sum_list_bound)
  then have upper: "length (json_map kvs) \<le> ?req"
    by (simp add: json_map_commas length_concat comp_def split_def)
  have "(\<lambda>(k, v). length k + MAX_ESC_LEN (length v) + 6) kv \<le> 2 * length (?pair kv)" for kv
    using jstring_length(1) [of "snd kv"] by (simp add: MAX_ESC_LEN_def split_def)
  then have "?req \<le> sum_list (map (\<lambda>kv. 2 * length (?pair kv)) kvs)" by (rule sum_list_bound)
  also have "\<dots> = 2 * sum_list (map length (map ?pair kvs))"
    by (simp add: sum_list_const_mult comp_def)
  also have "\<dots> \<le> 2 * length (commas (map ?pair kvs))"
    by (intro mult_left_mono commas_length(1)) simp
  finally have req: "?req \<le> 2 * length (commas (map ?pair kvs))" .
  have body: "?d @ json_map kvs = ?d @ commas (map ?pair kvs) @ '','' \<or>
      ?d @ json_map kvs = ?d @ commas (map ?pair kvs) \<and> ?d @ commas (map ?pair kvs) \<noteq> [] \<and>
      last (?d @ commas (map ?pair kvs)) \<noteq> CHR '',''"
    using commas_trailing [of ?pair kvs] by (cases "kvs = []") (auto simp: json_map_commas split_def)
  have put: "writes (buffPut alloc b' ?req (json_map kvs)) (?d @ json_map kvs)"
    if "bdata b' = ?d" "buff_ok b'" for b'
    using writes_put [OF assms(1) that(2) upper] that(1) req assms(4) by simp
  have len: "length (json_map kvs) \<le> length (commas (map ?pair kvs)) + 1"
    using commas_trailing [of ?pair kvs] by (cases "kvs = []") (auto simp: json_map_commas split_def)
  have fin: "writes (JSONEndObject alloc b') ((?d @ commas (map ?pair kvs)) @ [CHR ''}''] @ '','')"
    if "bdata b' = ?d @ json_map kvs" "buff_ok b'" for b'
    unfolding JSONEndObject_def
    using assms(4) len body that by (intro writes_close [OF assms(1) that(2)]) simp_all
  have start: "writes (JSONStartObject alloc b (Some ?name)) ?d"
    using assms(4) by (intro writes_JSONStartObject [OF assms(1,2)]) simp
  show ?thesis
    unfolding JSONAddMap_def with_field_name [OF assms(3)]
    using writes_bind [OF start, OF writes_bind [OF put fin]] by simp
qed

subsection \<open>The writers compose to the request text\<close>

lemma value_text_pairs:
  "value_text (FMap kvs) =
   ''{'' @ commas (map (\<lambda>(k, v). quoted_name k @ jstring v) (map (\<lambda>(k, v). (k, the v)) kvs)) @ ''}''"
  by (simp add: comp_def split_def)

lemma writes_JSONAddField:
  assumes "in_place alloc" and "buff_ok b" and "field_ok f" and "f_value f \<noteq> FBool False"
    and "length (bdata b) + 4 * length (field_text f) + 64 < 2 ^ 60"
  shows "writes (JSONAddField alloc b f) (bdata b @ field_text f @ '','')"
proof -
  have n: "f_number f < ENDOFFIELDS" and v: "value_ok (fd_type (field_table ! f_number f)) (f_value f)"
    using assms(3) by (simp_all add: field_ok_def)
  note put = writes_put [OF assms(1,2)]
  show ?thesis
  proof (cases "f_value f")
    case (FNum x)
    with v have "length (int64tostr x) \<le> 21"
      by (intro int64tostr_length) (auto elim: value_ok.elims)
    with FNum n assms(5) show ?thesis
      by (simp add: JSONAddField_def JSONAddInt_def with_field_name field_text_def)
        (intro put, simp_all)
  next
    case (FBool x)
    with n assms(4,5) show ?thesis
      by (simp add: JSONAddField_def JSONAddBool_def with_field_name field_text_def)
        (intro put, simp_all)
  next
    case (FStr x)
    with v obtain t where x: "x = Some t" by (auto elim: value_ok.elims)
    have "writes (buffPut alloc b (length (fd_name (field_table ! f_number f)) + MAX_ESC_LEN (length t) + 6)
        (field_text f @ '','')) (bdata b @ field_text f @ '','')"
      using FStr x jstring_length [of t] assms(5)
      by (intro put) (simp_all add: field_text_def MAX_ESC_LEN_def)
    with FStr x n show ?thesis
      by (simp add: JSONAddField_def JSONAddString_def JSONAddStringN_def with_field_name
          field_text_def Let_def jstring_def)
  next
    case (FStrs xs)
    with v have "None \<notin> set xs" by (auto elim!: value_ok.elims simp: list_all_iff)
    with FStrs show ?thesis
      using writes_JSONAddStringArray [OF assms(1,2) n, of "map the xs"] assms(5)
      by (simp add: JSONAddField_def field_text_def comp_def)
  next
    case (FMap kvs)
    with v have "None \<notin> snd ` set kvs" by (auto elim!: value_ok.elims simp: list_all_iff)
    with FMap show ?thesis
      using writes_JSONAddMap [OF assms(1,2) n, of "map (\<lambda>(k, v). (k, the v)) kvs"] assms(5)
      by (simp add: JSONAddField_def field_text_def value_text_pairs del: value_text.simps map_map)
  qed
qed

lemma writes_JSONAddFields:
  assumes "in_place alloc" and "list_all (\<lambda>f. field_ok f \<and> f_value f \<noteq> FBool False) fs"
  shows "buff_ok b \<Longrightarrow> length (bdata b) + 4 * length (concat (map (\<lambda>f. field_text f @ '','') fs)) + 64 < 2 ^ 60 \<Longrightarrow>
    writes (JSONAddFields alloc b fs) (bdata b @ concat (map (\<lambda>f. field_text f @ '','') fs))"
  using assms(2)
proof (induction fs arbitrary: b)
  case Nil
  then show ?case by (simp add: writes_def)
next
  case (Cons f fs)
  have "writes (JSONAddField alloc b f) (bdata b @ field_text f @ '','')"
    using Cons.prems by (intro writes_JSONAddField [OF assms(1)]) simp_all
  then show ?case
    unfolding JSONAddFields.simps
  proof (rule writes_bind)
    fix b'
    assume b': "bdata b' = bdata b @ field_text f @ '',''" "buff_ok b'"
    then show "writes (JSONAddFields alloc b' fs)
        (bdata b @ concat (map (\<lambda>f. field_text f @ '','') (f # fs)))"
      using Cons.IH [of b'] Cons.prems by simp
  qed
qed

definition request_head :: "string \<Rightarrow> int \<Rightarrow> string" where
  "request_head name version =
     ''{'' @ quoted_name name @ ''{'' @ quoted_name ''VERSION'' @ int64tostr version @ '','' @
     quoted_name ''FIELDS'' @ ''{''"

lemma VERSION_name: "fd_name (field_table ! VERSION) = ''VERSION''"
  by (simp add: field_table_def field_rows_def mk_field_def)

lemma JSONAddInt_VERSION:
  "JSONAddInt alloc b VERSION v = buffPut alloc b 43 (quoted_name ''VERSION'' @ int64tostr v @ '','')"
  by (simp add: JSONAddInt_def with_field_name VERSION_name)

lemma writes_initRequest:
  assumes "in_place alloc" and "- (2 ^ 63) \<le> v" and "v < 2 ^ 63" and "length name < 2 ^ 56"
  shows "\<exists>r. initRequest alloc name v = Some r \<and> writes r (request_head name v)"
proof -
  obtain b0 where b0: "buffNew alloc 1024 = Some b0" "bdata b0 = []" "buff_ok b0"
    using assms(1) by (auto simp: buffNew_def in_place_def buff_ok_def)
  note len = int64tostr_length [OF assms(2,3)]
  have "writes (bindB (JSONStart alloc b0) (\<lambda>b. bindB (JSONStartObject alloc b (Some name)) (\<lambda>b.
      bindB (JSONAddInt alloc b VERSION v) (\<lambda>b. JSONStartObject alloc b (Some ''FIELDS'')))))
      (request_head name v)"
  proof (rule writes_bind)
    show "writes (JSONStart alloc b0) ''{''"
      using writes_add [OF assms(1) b0(3), of "''{''"] b0(2) by (simp add: JSONStart_def)
    show "writes (bindB (JSONStartObject alloc b (Some name)) (\<lambda>b.
      bindB (JSONAddInt alloc b VERSION v) (\<lambda>b. JSONStartObject alloc b (Some ''FIELDS''))))
      (request_head name v)" if b: "bdata b = ''{''" "buff_ok b" for b
    proof (rule writes_bind)
      show "writes (JSONStartObject alloc b (Some name)) (bdata b @ quoted_name name @ ''{'')"
        using assms(4) b by (intro writes_JSONStartObject [OF assms(1) b(2)]) simp
      show "writes (bindB (JSONAddInt alloc c VERSION v) (\<lambda>b. JSONStartObject alloc b (Some ''FIELDS'')))
        (request_head name v)" if c: "bdata c = bdata b @ quoted_name name @ ''{''" "buff_ok c" for c
      proof (rule writes_bind)
        show "writes (JSONAddInt alloc c VERSION v)
            (bdata c @ quoted_name ''VERSION'' @ int64tostr v @ '','')"
          unfolding JSONAddInt_VERSION using assms(4) b c len
          by (intro writes_put [OF assms(1)]) simp_all
        show "writes (JSONStartObject alloc d (Some ''FIELDS'')) (request_head name v)"
          if d: "bdata d = bdata c @ quoted_name ''VERSION'' @ int64tostr v @ '',''" "buff_ok d" for d
          using writes_JSONStartObject [OF assms(1) d(2), of "''FIELDS''"] assms(4) b(1) c(1) d(1) len
          by (simp add: request_head_def)
      qed
    qed
  qed
  with b0 show ?thesis by (simp add: initRequest_def)
qed

lemma writes_closeRequest:
  assumes "in_place alloc" and "buff_ok b" and "length (bdata b) < 2 ^ 59"
    and "bdata b = d @ '','' \<or> bdata b = d \<and> d \<noteq> [] \<and> last d \<noteq> CHR '',''"
  shows "writes (closeRequest alloc b) (d @ ''}}}'' @ [NL])"
proof -
  have "writes (JSONEndObject alloc b) (d @ ''}'' @ '','')"
    unfolding JSONEndObject_def
    using writes_close [OF assms(1,2) _ assms(4), of "'',''" "CHR ''}''"] assms(3) by simp
  moreover have "writes (JSONEndObject alloc c) (d @ ''}}'' @ '','')"
    if c: "bdata c = d @ ''}'' @ '',''" "buff_ok c" for c
    unfolding JSONEndObject_def
    using writes_close [OF assms(1) c(2), of "'',''" "d @ ''}''" "CHR ''}''"] assms(3,4) c(1) by auto
  moreover have "writes (JSONEnd alloc c) (d @ ''}}}'' @ [NL])"
    if c: "bdata c = d @ ''}}'' @ '',''" "buff_ok c" for c
    unfolding JSONEnd_def
    using writes_close [OF assms(1) c(2), of "[NL]" "d @ ''}}''" "CHR ''}''"] assms(3,4) c(1) by auto
  ultimately show ?thesis
    unfolding closeRequest_def by (blast intro: writes_bind)
qed

lemma write_request_text:
  assumes "in_place alloc" and "- (2 ^ 63) \<le> v" and "v < 2 ^ 63"
    and "list_all (\<lambda>f. field_ok f \<and> f_value f \<noteq> FBool False) fs"
    and "length (request_text name v fs) < 2 ^ 56"
  shows "\<exists>r. write_request alloc name v fs = Some r \<and> writes r (request_text name v fs)"
proof -
  let ?head = "request_head name v" and ?fs = "concat (map (\<lambda>f. field_text f @ '','') fs)"
  have txt_eq: "request_text name v fs = (?head @ commas (map field_text fs)) @ ''}}}'' @ [NL]"
    by (simp add: request_text_def request_head_def)
  have fs: "?fs = (if fs = [] then [] else commas (map field_text fs) @ '','')"
    by (rule commas_trailing)
  have len: "length ?head < 2 ^ 56" "length ?fs \<le> 2 ^ 56" "length name < 2 ^ 56"
    using assms(5) fs by (auto simp: txt_eq) (simp add: request_head_def)
  obtain r where r: "initRequest alloc name v = Some r" "writes r ?head"
    using writes_initRequest assms(1,2,3) len(3) by blast
  have add: "writes (JSONAddFields alloc b fs) (?head @ ?fs)" if "bdata b = ?head" "buff_ok b" for b
    using writes_JSONAddFields [OF assms(1,4) that(2)] len that(1) by simp
  have shape: "?head @ ?fs = (?head @ commas (map field_text fs)) @ '','' \<or>
      ?head @ ?fs = ?head @ commas (map field_text fs) \<and> ?head @ commas (map field_text fs) \<noteq> [] \<and>
      last (?head @ commas (map field_text fs)) \<noteq> CHR '',''"
    unfolding fs by (cases "fs = []") (simp_all add: request_head_def)
  have close: "writes (closeRequest alloc b) (request_text name v fs)"
    if "bdata b = ?head @ ?fs" "buff_ok b" for b
    unfolding txt_eq using that len shape
    by (intro writes_closeRequest [OF assms(1)]) simp_all
  have "writes (bindB r (\<lambda>b. bindB (JSONAddFields alloc b fs) (closeRequest alloc))) (request_text name v fs)"
    by (rule writes_bind [OF r(2)], rule writes_bind [OF add close])
  with r(1) show ?thesis by (simp add: write_request_def)
qed

subsection \<open>Strings that end in a backslash\<close>

text \<open>
  The closing quote of such a string follows an escaped backslash, and the scan takes it for
  an escaped quote.
\<close>

lemma scan_jstring_backslash:
  assumes "s \<noteq> []" and "last s = BSL" and "prev \<noteq> BSL"
  shows "scan_object prev False i (jstring s @ r) = prefixed (jstring s) (scan_object QUOTE True i r)"
proof -
  have l: "last (QUOTE # json_escape s) = BSL"
    using assms(1,2) last_json_escape [of s] by simp
  have "scan_object prev False i (jstring s @ r) =
      prefixed [QUOTE] (scan_object QUOTE True i (json_escape s @ QUOTE # r))"
    using assms(3) by (simp add: jstring_def)
  also have "\<dots> = prefixed (QUOTE # json_escape s)
      (scan_object (last (QUOTE # json_escape s)) True i (QUOTE # r))"
    unfolding scan_quoted by simp
  also have "\<dots> = prefixed (jstring s) (scan_object QUOTE True i r)"
    using l by (simp add: jstring_def)
  finally show ?thesis .
qed

lemma balanced_head:
  assumes "plain_name name" and "n < ENDOFFIELDS"
  shows "balanced (quoted_name name)" and "balanced (quoted_name ''VERSION'' @ int64tostr v @ '','' @
    quoted_name ''FIELDS'')" and "balanced (quoted_name (fd_name (field_table ! n)))"
proof -
  show "balanced (quoted_name name)" by (rule balanced_quoted_name [OF assms(1)])
  have v: "balanced (quoted_name ''VERSION'')" and f: "balanced (quoted_name ''FIELDS'')"
    by (auto intro: balanced_quoted_name simp: plain_name_def)
  have "balanced '',''" by (rule balanced_plain) simp
  from balanced_append [OF v balanced_append [OF plain_ascii balanced_append [OF this f]]]
  show "balanced (quoted_name ''VERSION'' @ int64tostr v @ '','' @ quoted_name ''FIELDS'')" .
  show "balanced (quoted_name (fd_name (field_table ! n)))"
    by (rule balanced_quoted_name [OF field_name_plain(2) [OF assms(2)]])
qed

section \<open>Properties\<close>



text \<open>A string value that ends in a backslash makes the whole request unreadable:
  \<open>JSONGetObject\<close> takes the closing quote behind the escaped backslash for an escaped quote,
  reads to the end of the text inside the string and finds no closing brace, so
  \<open>load_message\<close> refuses a request that the writers of the same code base produced.\<close>

theorem trailing_backslash_refused:
  assumes "plain_name name" and "n < ENDOFFIELDS" and "s \<noteq> []" and "last s = BSL"
  shows "load_message fresh sf (request_text name v [\<lparr>f_number = n, f_value = FStr (Some s)\<rparr>]) = Refused"
proof -
  note head = balanced_head [OF assms(1,2)]
  let ?v = "quoted_name ''VERSION'' @ int64tostr v @ '','' @ quoted_name ''FIELDS''"
  have req: "request_text name v [\<lparr>f_number = n, f_value = FStr (Some s)\<rparr>] =
      CHR ''{'' # quoted_name name @ CHR ''{'' # ?v @ CHR ''{'' #
      quoted_name (fd_name (field_table ! n)) @ jstring s @ ''}}}'' @ [NL]"
    by (simp add: request_text_def field_text_def)
  have last: "last (CHR ''{'' # quoted_name x) \<noteq> BSL" for x by (simp add: quoted_name_def)
  have lastv: "last (CHR ''{'' # ?v) \<noteq> BSL" by (simp add: quoted_name_def)
  have "scan_object (CHR ''{'') False 0 (quoted_name name @ CHR ''{'' # ?v @ CHR ''{'' #
      quoted_name (fd_name (field_table ! n)) @ jstring s @ ''}}}'' @ [NL]) = None"
    using balancedD(1) [OF head(1)] balancedD(1) [OF head(2)] balancedD(1) [OF head(3)]
      scan_jstring_backslash [OF assms(3,4) last]
    by simp
  then have "JSONGetObject (request_text name v [\<lparr>f_number = n, f_value = FStr (Some s)\<rparr>]) = None"
    unfolding req by (simp add: JSONGetObject_def skipWhitespace_def is_ws_def)
  then show ?thesis by (simp add: load_message_def)
qed

theorem trailing_backslash_refused_witness:
  "load_message [] (Some sortfields)
     (request_text ''JOB_ADD'' 1 [\<lparr>f_number = JOBNAME, f_value = FStr (Some [CHR ''a'', BSL])\<rparr>]) = Refused"
  by (rule trailing_backslash_refused) (simp_all add: plain_name_def)

text \<open>\<open>JSONStartObject\<close> computes its write position before it resizes the buffer, so
  whenever the buffer has to grow and the allocator moves the block, the bytes are written
  through a pointer into the freed block.\<close>

theorem JSONStartObject_stale_pointer:
  assumes "\<And>n. alloc n = AllocMoved" and "bsize b < length (bdata b) + length name + 4"
    and "length (bdata b) + length name + 4 < 2 ^ 62"
  shows "JSONStartObject alloc b (Some name) = Inl StalePointer"
proof -
  let ?n = "if bsize b = 0 then BUFF_DEFAULT_SIZE else bsize b"
  obtain r where "grow_size ?n (length (bdata b) + (length name + 4)) = Some r"
    using grow_size_enough [OF start_size_pos, of "length (bdata b) + (length name + 4)" b] assms(3)
    by auto
  then show ?thesis
    using assms
    by (simp add: JSONStartObject_def put_before_resize_def buffResize_def Let_def)
qed

theorem JSONStartObject_stale_pointer_witness:
  "JSONStartObject (\<lambda>_. AllocMoved) \<lparr>bdata = ''{'', bsize = 2\<rparr> (Some ''FIELDS'') = Inl StalePointer"
  by (rule JSONStartObject_stale_pointer) simp_all

text \<open>\<open>JSONAddBool\<close> asks for one byte less than the text of a false value needs: with
  exactly that much room left the last byte is written behind the block.\<close>

theorem JSONAddBool_false_overflow:
  assumes "n < ENDOFFIELDS" and "bsize b = length (bdata b) + length (fd_name (field_table ! n)) + 8"
    and "bsize b < 2 ^ 62"
  shows "JSONAddBool alloc b n False = Inl Overflow"
  using assms by (simp add: JSONAddBool_def with_field_name buffPut_def buffResize_def)

theorem JSONAddBool_false_overflow_witness:
  "JSONAddBool (\<lambda>_. AllocSame) \<lparr>bdata = ''{'', bsize = 13\<rparr> HOLD False = Inl Overflow"
  by (rule JSONAddBool_false_overflow)
     (simp_all add: field_table_def field_rows_def mk_field_def)

end
