(* ===== verification/Server.thy ===== *)
theory Server
  imports Wire
begin

section \<open>Server: the daemon's state and its counters\<close>

text \<open>
  The data of \<open>src/src/server.h\<close>, \<open>jers.h\<close>, \<open>agent.h\<close> and \<open>tags.h\<close>, and the functions
  through which every change of a job's state goes: \<open>updateObject\<close>, \<open>decrement_state\<close>,
  \<open>increment_state\<close> and \<open>changeJobState\<close> of \<open>state.c\<close>, \<open>generateEmail\<close> of \<open>email.c\<close>.

  A pointer to a job, queue, resource or agent is the key of the entry: the jobid, the
  name, the name, the host. The tables keep their keys distinct and every pointer in the
  state refers to an entry (the invariant \<open>server_ok\<close>). Flag words, job states and queue
  states are 32-bit words, counters and times are integers. The text of an email is left
  out; its recipient and subject are kept.
\<close>

unbundle bit_operations_syntax

subsection \<open>Constants\<close>

abbreviation (input) JERS_JOB_RUNNING :: flags where "JERS_JOB_RUNNING \<equiv> 0x01"
abbreviation (input) JERS_JOB_PENDING :: flags where "JERS_JOB_PENDING \<equiv> 0x02"
abbreviation (input) JERS_JOB_DEFERRED :: flags where "JERS_JOB_DEFERRED \<equiv> 0x04"
abbreviation (input) JERS_JOB_HOLDING :: flags where "JERS_JOB_HOLDING \<equiv> 0x08"
abbreviation (input) JERS_JOB_COMPLETED :: flags where "JERS_JOB_COMPLETED \<equiv> 0x10"
abbreviation (input) JERS_JOB_EXITED :: flags where "JERS_JOB_EXITED \<equiv> 0x20"
abbreviation (input) JERS_JOB_UNKNOWN :: flags where "JERS_JOB_UNKNOWN \<equiv> 0x40"

abbreviation (input) JERS_FLAG_DELETED :: flags where "JERS_FLAG_DELETED \<equiv> 0x01"
abbreviation (input) JERS_FLAG_FLUSHING :: flags where "JERS_FLAG_FLUSHING \<equiv> 0x02"
abbreviation (input) JERS_FLAG_JOB_STARTED :: flags where "JERS_FLAG_JOB_STARTED \<equiv> 0x04"

abbreviation (input) JERS_QUEUE_FLAG_STARTED :: flags where "JERS_QUEUE_FLAG_STARTED \<equiv> 0x01"
abbreviation (input) JERS_QUEUE_FLAG_OPEN :: flags where "JERS_QUEUE_FLAG_OPEN \<equiv> 0x02"

abbreviation (input) UNLIMITED_JOBS :: int where "UNLIMITED_JOBS \<equiv> -1"
abbreviation (input) UNSET_8 :: int where "UNSET_8 \<equiv> - (2 ^ 7)"
abbreviation (input) UNSET_32 :: int where "UNSET_32 \<equiv> - (2 ^ 31)"
abbreviation (input) UNSET_64 :: int where "UNSET_64 \<equiv> - (2 ^ 63)"
abbreviation (input) UNSET_TIME_T :: int where "UNSET_TIME_T \<equiv> -1"

abbreviation (input) JERS_PEND_NOREASON :: int where "JERS_PEND_NOREASON \<equiv> 0"
abbreviation (input) JERS_PEND_SYSTEMFULL :: int where "JERS_PEND_SYSTEMFULL \<equiv> 1"
abbreviation (input) JERS_PEND_QUEUEFULL :: int where "JERS_PEND_QUEUEFULL \<equiv> 2"
abbreviation (input) JERS_PEND_NORES :: int where "JERS_PEND_NORES \<equiv> 3"
abbreviation (input) JERS_PEND_QUEUESTOPPED :: int where "JERS_PEND_QUEUESTOPPED \<equiv> 4"
abbreviation (input) JERS_PEND_AGENTDOWN :: int where "JERS_PEND_AGENTDOWN \<equiv> 5"
abbreviation (input) JERS_PEND_AGENT :: int where "JERS_PEND_AGENT \<equiv> 6"
abbreviation (input) JERS_PEND_RECON :: int where "JERS_PEND_RECON \<equiv> 7"
abbreviation (input) JERS_PEND_READONLY :: int where "JERS_PEND_READONLY \<equiv> 8"

subsection \<open>Records\<close>

record jobStats =
  st_running :: int
  st_pending :: int
  st_holding :: int
  st_deferred :: int
  st_completed :: int
  st_exited :: int
  st_start_pending :: int
  st_unknown :: int

definition stats_zero :: jobStats where
  "stats_zero = \<lparr>st_running = 0, st_pending = 0, st_holding = 0, st_deferred = 0,
     st_completed = 0, st_exited = 0, st_start_pending = 0, st_unknown = 0\<rparr>"

record rusage =
  ru_utime_sec :: int
  ru_utime_usec :: int
  ru_stime_sec :: int
  ru_stime_usec :: int
  ru_maxrss :: int
  ru_minflt :: int
  ru_majflt :: int
  ru_inblock :: int
  ru_oublock :: int
  ru_nvcsw :: int
  ru_nivcsw :: int

definition rusage_zero :: rusage where
  "rusage_zero = \<lparr>ru_utime_sec = 0, ru_utime_usec = 0, ru_stime_sec = 0, ru_stime_usec = 0,
     ru_maxrss = 0, ru_minflt = 0, ru_majflt = 0, ru_inblock = 0, ru_oublock = 0, ru_nvcsw = 0,
     ru_nivcsw = 0\<rparr>"

record job =
  j_revision :: int
  j_dirty :: bool
  j_jobid :: nat
  j_jobname :: string
  j_queue :: string
  j_shell :: "string option"
  j_wrapper :: "string option"
  j_pre_cmd :: "string option"
  j_post_cmd :: "string option"
  j_stdout :: "string option"
  j_stderr :: "string option"
  j_flags :: int
  j_argv :: "string option list"
  j_envs :: "string option list"
  j_uid :: int
  j_submitter :: int
  j_nice :: int
  j_pid :: int
  j_exitcode :: int
  j_signal :: int
  j_email_states :: flags
  j_email_addresses :: "string option"
  j_usage :: rusage
  j_state :: flags
  j_pend_reason :: int
  j_fail_reason :: int
  j_priority :: int
  j_submit_time :: int
  j_start_time :: int
  j_defer_time :: int
  j_finish_time :: int
  j_tags :: "(string \<times> string option) list"
  j_req_resources :: "(string \<times> int) list"
  j_internal_state :: flags
  j_index_table :: "string option"

record queue =
  q_revision :: int
  q_dirty :: bool
  q_name :: string
  q_desc :: "string option"
  q_job_limit :: int
  q_state :: flags
  q_priority :: int
  q_nice :: int
  q_def :: bool
  q_host :: string
  q_agent :: "string option"
  q_internal_state :: flags
  q_stats :: jobStats
  q_permissions :: "(int \<times> flags) list"

record resource =
  r_revision :: int
  r_dirty :: bool
  r_name :: string
  r_count :: int
  r_in_use :: int
  r_internal_state :: flags

text \<open>
  An agent, the bytes read from it that are not processed yet, and the requests written to
  it, each a command name, a version and fields; the bytes of a request are \<open>request_text\<close>.
\<close>

type_synonym request = "string \<times> int \<times> field list"

record agent =
  a_host :: string
  a_connected :: bool
  a_logged_in :: bool
  a_recon :: bool
  a_nonce :: "string option"
  a_requests :: string
  a_sent :: "request list"

record queue_acl =
  acl_expr :: string
  acl_allow :: bool
  acl_gids :: "int list"
  acl_permissions :: flags

record total_stats =
  t_submitted :: int
  t_started :: int
  t_completed :: int
  t_exited :: int
  t_deleted :: int
  t_unknown :: int

record email =
  e_to :: "string option"
  e_subject :: string

record perm_groups =
  g_self :: "int list"
  g_read :: "int list"
  g_write :: "int list"
  g_setuid :: "int list"
  g_queue :: "int list"

record recovery =
  rec_in_progress :: bool
  rec_uid :: int
  rec_time :: int
  rec_jobid :: nat
  rec_revision :: int

text \<open>The state files removed so far, in order.\<close>

datatype state_file = JobFile nat | QueueFile string | ResFile string

record server =
  readonly :: int
  dirty_jobs :: bool
  dirty_queues :: bool
  dirty_resources :: bool
  max_run_jobs :: int
  sched_max :: int
  max_cleanup :: nat
  deleted :: int
  defaultQueue :: "string option"
  jobTable :: "job list"
  queueTable :: "queue list"
  resTable :: "resource list"
  agentList :: "agent list"
  stats_jobs :: jobStats
  stats_total :: total_stats
  permissions :: perm_groups
  recovery :: recovery
  initalising :: bool
  candidate_recalc :: bool
  candidate_pool :: "nat option list"
  candidate_pool_size :: int
  default_job_nice :: int
  auto_cleanup :: int
  max_jobid :: nat
  start_jobid :: nat
  index_tag :: "string option"
  index_tag_table :: "(string \<times> nat list) list"
  deferred_list :: "nat list"
  queue_acls :: "queue_acl list"
  emailList :: "email list"
  removed_files :: "state_file list"

text \<open>
  Zeroed structures as \<open>calloc\<close> returns them, and the server with the defaults of
  \<open>loadConfig\<close> when it enters its main loop without any object.
\<close>

definition job_zero :: job where
  "job_zero = \<lparr>j_revision = 0, j_dirty = False, j_jobid = 0, j_jobname = [], j_queue = [],
     j_shell = None, j_wrapper = None, j_pre_cmd = None, j_post_cmd = None, j_stdout = None,
     j_stderr = None, j_flags = 0, j_argv = [], j_envs = [], j_uid = 0, j_submitter = 0,
     j_nice = 0, j_pid = 0, j_exitcode = 0, j_signal = 0, j_email_states = 0,
     j_email_addresses = None, j_usage = rusage_zero, j_state = 0, j_pend_reason = 0,
     j_fail_reason = 0, j_priority = 0, j_submit_time = 0, j_start_time = 0, j_defer_time = 0,
     j_finish_time = 0, j_tags = [], j_req_resources = [], j_internal_state = 0,
     j_index_table = None\<rparr>"

definition queue_zero :: queue where
  "queue_zero = \<lparr>q_revision = 0, q_dirty = False, q_name = [], q_desc = None, q_job_limit = 0,
     q_state = 0, q_priority = 0, q_nice = 0, q_def = False, q_host = [], q_agent = None,
     q_internal_state = 0, q_stats = stats_zero, q_permissions = []\<rparr>"

definition resource_zero :: resource where
  "resource_zero = \<lparr>r_revision = 0, r_dirty = False, r_name = [], r_count = 0, r_in_use = 0,
     r_internal_state = 0\<rparr>"

definition init_server :: server where
  "init_server = \<lparr>readonly = 0, dirty_jobs = False, dirty_queues = False, dirty_resources = False,
     max_run_jobs = UNLIMITED_JOBS, sched_max = 250, max_cleanup = 50, deleted = 0,
     defaultQueue = None, jobTable = [], queueTable = [], resTable = [], agentList = [],
     stats_jobs = stats_zero,
     stats_total = \<lparr>t_submitted = 0, t_started = 0, t_completed = 0, t_exited = 0, t_deleted = 0,
                    t_unknown = 0\<rparr>,
     permissions = \<lparr>g_self = [], g_read = [], g_write = [], g_setuid = [], g_queue = []\<rparr>,
     recovery = \<lparr>rec_in_progress = False, rec_uid = 0, rec_time = 0, rec_jobid = 0, rec_revision = 0\<rparr>,
     initalising = False, candidate_recalc = True, candidate_pool = [],
     candidate_pool_size = 0, default_job_nice = 0,
     auto_cleanup = 0, max_jobid = 9999999, start_jobid = 0, index_tag = None,
     index_tag_table = [], deferred_list = [], queue_acls = [], emailList = [],
     removed_files = []\<rparr>"

subsection \<open>Tables\<close>

definition findJob :: "server \<Rightarrow> nat \<Rightarrow> job option" where
  "findJob s k = tfind j_jobid k (jobTable s)"

definition findQueue :: "server \<Rightarrow> string \<Rightarrow> queue option" where
  "findQueue s n = tfind q_name n (queueTable s)"

definition findResource :: "server \<Rightarrow> string \<Rightarrow> resource option" where
  "findResource s n = tfind r_name n (resTable s)"

definition findAgent :: "server \<Rightarrow> string \<Rightarrow> agent option" where
  "findAgent s n = tfind a_host n (agentList s)"

text \<open>Writing through a pointer.\<close>

definition on_job :: "nat \<Rightarrow> (job \<Rightarrow> job) \<Rightarrow> server \<Rightarrow> server" where
  "on_job k f s = s\<lparr>jobTable := tupd j_jobid k f (jobTable s)\<rparr>"

definition on_queue :: "string \<Rightarrow> (queue \<Rightarrow> queue) \<Rightarrow> server \<Rightarrow> server" where
  "on_queue n f s = s\<lparr>queueTable := tupd q_name n f (queueTable s)\<rparr>"

definition on_res :: "string \<Rightarrow> (resource \<Rightarrow> resource) \<Rightarrow> server \<Rightarrow> server" where
  "on_res n f s = s\<lparr>resTable := tupd r_name n f (resTable s)\<rparr>"

definition on_agent :: "string \<Rightarrow> (agent \<Rightarrow> agent) \<Rightarrow> server \<Rightarrow> server" where
  "on_agent n f s = s\<lparr>agentList := tupd a_host n f (agentList s)\<rparr>"

interpretation jobs: hash_table j_jobid "tfind j_jobid" tadd "tdel j_jobid" "\<lambda>t. t" "tkeys j_jobid"
  by (rule hash_table_list)

interpretation queues: hash_table q_name "tfind q_name" tadd "tdel q_name" "\<lambda>t. t" "tkeys q_name"
  by (rule hash_table_list)

interpretation resources: hash_table r_name "tfind r_name" tadd "tdel r_name" "\<lambda>t. t" "tkeys r_name"
  by (rule hash_table_list)

subsection \<open>updateObject\<close>

definition updateJob :: "nat \<Rightarrow> bool \<Rightarrow> server \<Rightarrow> server" where
  "updateJob k dirty s =
     (let s = on_job k (\<lambda>j. j\<lparr>j_revision := j_revision j + 1\<rparr>) s
      in if dirty then (on_job k (\<lambda>j. j\<lparr>j_dirty := True\<rparr>) s)\<lparr>dirty_jobs := True\<rparr> else s)"

definition updateQueue :: "string \<Rightarrow> bool \<Rightarrow> server \<Rightarrow> server" where
  "updateQueue n dirty s =
     (let s = on_queue n (\<lambda>q. q\<lparr>q_revision := q_revision q + 1\<rparr>) s
      in if dirty then (on_queue n (\<lambda>q. q\<lparr>q_dirty := True\<rparr>) s)\<lparr>dirty_queues := True\<rparr> else s)"

definition updateRes :: "string \<Rightarrow> bool \<Rightarrow> server \<Rightarrow> server" where
  "updateRes n dirty s =
     (let s = on_res n (\<lambda>r. r\<lparr>r_revision := r_revision r + 1\<rparr>) s
      in if dirty then (on_res n (\<lambda>r. r\<lparr>r_dirty := True\<rparr>) s)\<lparr>dirty_resources := True\<rparr> else s)"

subsection \<open>Emails\<close>

definition emailState :: "flags \<Rightarrow> string" where
  "emailState st =
     (if st = JERS_JOB_COMPLETED then ''completed''
      else if st = JERS_JOB_EXITED then ''exited''
      else if st = JERS_JOB_HOLDING then ''holding''
      else if st = JERS_JOB_DEFERRED then ''deferred''
      else if st = JERS_JOB_PENDING then ''pending''
      else if st = JERS_JOB_RUNNING then ''running''
      else if st = JERS_JOB_UNKNOWN then ''unknown''
      else ''UNKNOWN'')"

definition addEmail :: "email \<Rightarrow> server \<Rightarrow> server" where
  "addEmail e s = s\<lparr>emailList := emailList s @ [e]\<rparr>"

definition generateEmail :: "job \<Rightarrow> flags \<Rightarrow> server \<Rightarrow> server" where
  "generateEmail j new_state s =
     (if rec_in_progress (recovery s) \<or> initalising s then s
      else addEmail \<lparr>e_to = j_email_addresses j,
                     e_subject = ''JERS job '' @ int64tostr (int (j_jobid j)) @ '' now '' @
                                 emailState new_state\<rparr> s)"

subsection \<open>changeJobState\<close>

text \<open>The counter that a state is counted in, moved by \<open>d\<close>.\<close>

definition stat_add :: "flags \<Rightarrow> int \<Rightarrow> jobStats \<Rightarrow> jobStats" where
  "stat_add st d x =
     (if st = JERS_JOB_RUNNING then x\<lparr>st_running := st_running x + d\<rparr>
      else if st = JERS_JOB_PENDING then x\<lparr>st_pending := st_pending x + d\<rparr>
      else if st = JERS_JOB_DEFERRED then x\<lparr>st_deferred := st_deferred x + d\<rparr>
      else if st = JERS_JOB_HOLDING then x\<lparr>st_holding := st_holding x + d\<rparr>
      else if st = JERS_JOB_COMPLETED then x\<lparr>st_completed := st_completed x + d\<rparr>
      else if st = JERS_JOB_EXITED then x\<lparr>st_exited := st_exited x + d\<rparr>
      else if st = JERS_JOB_UNKNOWN then x\<lparr>st_unknown := st_unknown x + d\<rparr>
      else x)"

definition count_state :: "string \<Rightarrow> (jobStats \<Rightarrow> jobStats) \<Rightarrow> server \<Rightarrow> server" where
  "count_state qn f s =
     on_queue qn (\<lambda>q. q\<lparr>q_stats := f (q_stats q)\<rparr>) (s\<lparr>stats_jobs := f (stats_jobs s)\<rparr>)"

definition decrement_state :: "job \<Rightarrow> server \<Rightarrow> server" where
  "decrement_state j s = count_state (j_queue j) (stat_add (j_state j) (-1)) s"

definition start_pending_add :: "int \<Rightarrow> jobStats \<Rightarrow> jobStats" where
  "start_pending_add d x = x\<lparr>st_start_pending := st_start_pending x + d\<rparr>"

definition increment_state :: "job \<Rightarrow> server \<Rightarrow> server" where
  "increment_state j s =
     (let s = count_state (j_queue j) (stat_add (j_state j) 1) s
      in if j_state j = JERS_JOB_RUNNING \<or> j_state j = JERS_JOB_EXITED then
           (if has_flag (j_internal_state j) JERS_FLAG_JOB_STARTED
            then count_state (j_queue j) (start_pending_add (-1)) s else s)
         else if j_state j = JERS_JOB_PENDING \<or> j_state j = JERS_JOB_DEFERRED \<or>
                 j_state j = JERS_JOB_HOLDING
         then s\<lparr>candidate_recalc := True\<rparr>
         else s)"

definition changeJobState :: "nat \<Rightarrow> flags \<Rightarrow> string option \<Rightarrow> bool \<Rightarrow> server \<Rightarrow> server" where
  "changeJobState k new_state new_queue dirty s =
     (case findJob s k of
        None \<Rightarrow> s
      | Some j \<Rightarrow>
          (let s1 = (if j_state j \<noteq> new_state \<or> new_queue \<noteq> None then
                       (let s = decrement_state j s;
                            q = (case new_queue of Some n \<Rightarrow> n | None \<Rightarrow> j_queue j);
                            s = on_job k (\<lambda>j. j\<lparr>j_queue := q, j_state := new_state\<rparr>) s
                        in increment_state (j\<lparr>j_queue := q, j_state := new_state\<rparr>) s)
                     else s);
               s2 = updateJob k dirty s1
           in if has_flag (j_email_states j) new_state then generateEmail j new_state s2 else s2))"

subsection \<open>Frame rules\<close>

lemma on_job_frame [simp]:
  "jobTable (on_job k f s) = tupd j_jobid k f (jobTable s)"
  "queueTable (on_job k f s) = queueTable s" "resTable (on_job k f s) = resTable s"
  "agentList (on_job k f s) = agentList s" "stats_jobs (on_job k f s) = stats_jobs s"
  "deferred_list (on_job k f s) = deferred_list s" "candidate_pool (on_job k f s) = candidate_pool s"
  "deleted (on_job k f s) = deleted s" "max_run_jobs (on_job k f s) = max_run_jobs s"
  by (simp_all add: on_job_def)

lemma on_queue_frame [simp]:
  "queueTable (on_queue k f s) = tupd q_name k f (queueTable s)"
  "jobTable (on_queue k f s) = jobTable s" "resTable (on_queue k f s) = resTable s"
  "agentList (on_queue k f s) = agentList s" "stats_jobs (on_queue k f s) = stats_jobs s"
  "deferred_list (on_queue k f s) = deferred_list s" "candidate_pool (on_queue k f s) = candidate_pool s"
  "deleted (on_queue k f s) = deleted s" "max_run_jobs (on_queue k f s) = max_run_jobs s"
  by (simp_all add: on_queue_def)

lemma on_res_frame [simp]:
  "resTable (on_res k f s) = tupd r_name k f (resTable s)"
  "jobTable (on_res k f s) = jobTable s" "queueTable (on_res k f s) = queueTable s"
  "agentList (on_res k f s) = agentList s" "stats_jobs (on_res k f s) = stats_jobs s"
  "deferred_list (on_res k f s) = deferred_list s" "candidate_pool (on_res k f s) = candidate_pool s"
  "max_run_jobs (on_res k f s) = max_run_jobs s"
  by (simp_all add: on_res_def)

lemma on_agent_frame [simp]:
  "agentList (on_agent k f s) = tupd a_host k f (agentList s)"
  "jobTable (on_agent k f s) = jobTable s" "queueTable (on_agent k f s) = queueTable s"
  "resTable (on_agent k f s) = resTable s" "stats_jobs (on_agent k f s) = stats_jobs s"
  "deferred_list (on_agent k f s) = deferred_list s" "candidate_pool (on_agent k f s) = candidate_pool s"
  "max_run_jobs (on_agent k f s) = max_run_jobs s"
  by (simp_all add: on_agent_def)

lemma generateEmail_frame [simp]:
  "jobTable (generateEmail j st s) = jobTable s" "queueTable (generateEmail j st s) = queueTable s"
  "resTable (generateEmail j st s) = resTable s" "stats_jobs (generateEmail j st s) = stats_jobs s"
  "agentList (generateEmail j st s) = agentList s" "deferred_list (generateEmail j st s) = deferred_list s"
  "candidate_pool (generateEmail j st s) = candidate_pool s" "deleted (generateEmail j st s) = deleted s"
  "max_run_jobs (generateEmail j st s) = max_run_jobs s"
  by (simp_all add: generateEmail_def addEmail_def)

lemma count_state_frame [simp]:
  "jobTable (count_state n f s) = jobTable s" "resTable (count_state n f s) = resTable s"
  "agentList (count_state n f s) = agentList s" "deferred_list (count_state n f s) = deferred_list s"
  "stats_jobs (count_state n f s) = f (stats_jobs s)"
  "queueTable (count_state n f s) =
     tupd q_name n (\<lambda>q. q\<lparr>q_stats := f (q_stats q)\<rparr>) (queueTable s)"
  "candidate_pool (count_state n f s) = candidate_pool s" "deleted (count_state n f s) = deleted s"
  "max_run_jobs (count_state n f s) = max_run_jobs s"
  by (simp_all add: count_state_def)

lemma tupd_tupd: "tupd key k f (tupd key k g t) = tupd key k (\<lambda>v. f (g v)) t"
  if "\<And>v. key (g v) = key v"
  unfolding tupd_def using that by simp

lemma updateJob_eq:
  "updateJob k dirty s =
   (on_job k (\<lambda>j. j\<lparr>j_revision := j_revision j + 1, j_dirty := j_dirty j \<or> dirty\<rparr>) s)
     \<lparr>dirty_jobs := dirty_jobs s \<or> dirty\<rparr>"
  by (cases dirty) (simp_all add: updateJob_def on_job_def tupd_tupd)

lemma updateJob_frame [simp]:
  "queueTable (updateJob k d s) = queueTable s" "resTable (updateJob k d s) = resTable s"
  "agentList (updateJob k d s) = agentList s" "stats_jobs (updateJob k d s) = stats_jobs s"
  "deferred_list (updateJob k d s) = deferred_list s" "candidate_pool (updateJob k d s) = candidate_pool s"
  "deleted (updateJob k d s) = deleted s" "max_run_jobs (updateJob k d s) = max_run_jobs s"
  "jobTable (updateJob k d s) =
     tupd j_jobid k (\<lambda>j. j\<lparr>j_revision := j_revision j + 1, j_dirty := j_dirty j \<or> d\<rparr>) (jobTable s)"
  by (simp_all add: updateJob_eq)

lemma updateQueue_frame [simp]:
  "jobTable (updateQueue n d s) = jobTable s" "resTable (updateQueue n d s) = resTable s"
  "agentList (updateQueue n d s) = agentList s" "stats_jobs (updateQueue n d s) = stats_jobs s"
  "deferred_list (updateQueue n d s) = deferred_list s" "candidate_pool (updateQueue n d s) = candidate_pool s"
  by (simp_all add: updateQueue_def Let_def)

lemma updateRes_frame [simp]:
  "jobTable (updateRes n d s) = jobTable s" "queueTable (updateRes n d s) = queueTable s"
  "agentList (updateRes n d s) = agentList s" "stats_jobs (updateRes n d s) = stats_jobs s"
  "deferred_list (updateRes n d s) = deferred_list s" "candidate_pool (updateRes n d s) = candidate_pool s"
  by (simp_all add: updateRes_def Let_def)

subsection \<open>The counters agree with the tables\<close>

definition job_states :: "flags set" where
  "job_states = {JERS_JOB_RUNNING, JERS_JOB_PENDING, JERS_JOB_DEFERRED, JERS_JOB_HOLDING,
     JERS_JOB_COMPLETED, JERS_JOB_EXITED, JERS_JOB_UNKNOWN}"

definition stat_get :: "flags \<Rightarrow> jobStats \<Rightarrow> int" where
  "stat_get st x =
     (if st = JERS_JOB_RUNNING then st_running x
      else if st = JERS_JOB_PENDING then st_pending x
      else if st = JERS_JOB_DEFERRED then st_deferred x
      else if st = JERS_JOB_HOLDING then st_holding x
      else if st = JERS_JOB_COMPLETED then st_completed x
      else if st = JERS_JOB_EXITED then st_exited x
      else if st = JERS_JOB_UNKNOWN then st_unknown x
      else 0)"

definition stats_match :: "jobStats \<Rightarrow> (job \<Rightarrow> bool) \<Rightarrow> job list \<Rightarrow> bool" where
  "stats_match x P js \<longleftrightarrow>
     (\<forall>st \<in> job_states. stat_get st x = tcount (\<lambda>j. P j \<and> j_state j = st) js)"

definition tables_ok :: "server \<Rightarrow> bool" where
  "tables_ok s \<longleftrightarrow>
     tkeys j_jobid (jobTable s) \<and> tkeys q_name (queueTable s) \<and> tkeys r_name (resTable s) \<and>
     (\<forall>j \<in> set (jobTable s). j_queue j \<in> q_name ` set (queueTable s))"

definition counters_ok :: "server \<Rightarrow> bool" where
  "counters_ok s \<longleftrightarrow>
     stats_match (stats_jobs s) (\<lambda>_. True) (jobTable s) \<and>
     (\<forall>q \<in> set (queueTable s). stats_match (q_stats q) (\<lambda>j. j_queue j = q_name q) (jobTable s))"

definition server_ok :: "server \<Rightarrow> bool" where
  "server_ok s \<longleftrightarrow> tables_ok s \<and> counters_ok s"

lemma stat_get_add:
  "st \<in> job_states \<Longrightarrow> stat_get st (stat_add st' d x) = stat_get st x + (if st = st' then d else 0)"
  unfolding job_states_def stat_get_def stat_add_def by auto

lemma stat_get_start_pending [simp]: "stat_get st (start_pending_add d x) = stat_get st x"
  by (simp add: stat_get_def start_pending_add_def)

lemma server_ok_cong:
  "jobTable s' = jobTable s \<Longrightarrow> queueTable s' = queueTable s \<Longrightarrow> resTable s' = resTable s \<Longrightarrow>
   stats_jobs s' = stats_jobs s \<Longrightarrow> server_ok s' = server_ok s"
  by (simp add: server_ok_def tables_ok_def counters_ok_def)

lemma server_ok_frame [simp]:
  "server_ok (s\<lparr>readonly := x_readonly\<rparr>) = server_ok s"
  "server_ok (s\<lparr>dirty_jobs := x_dirty_jobs\<rparr>) = server_ok s"
  "server_ok (s\<lparr>dirty_queues := x_dirty_queues\<rparr>) = server_ok s"
  "server_ok (s\<lparr>dirty_resources := x_dirty_resources\<rparr>) = server_ok s"
  "server_ok (s\<lparr>deleted := x_deleted\<rparr>) = server_ok s"
  "server_ok (s\<lparr>defaultQueue := x_defaultQueue\<rparr>) = server_ok s"
  "server_ok (s\<lparr>agentList := x_agentList\<rparr>) = server_ok s"
  "server_ok (s\<lparr>stats_total := x_stats_total\<rparr>) = server_ok s"
  "server_ok (s\<lparr>recovery := x_recovery\<rparr>) = server_ok s"
  "server_ok (s\<lparr>initalising := x_initalising\<rparr>) = server_ok s"
  "server_ok (s\<lparr>candidate_recalc := x_candidate_recalc\<rparr>) = server_ok s"
  "server_ok (s\<lparr>candidate_pool := x_candidate_pool\<rparr>) = server_ok s"
  "server_ok (s\<lparr>candidate_pool_size := x_candidate_pool_size\<rparr>) = server_ok s"
  "server_ok (s\<lparr>start_jobid := x_start_jobid\<rparr>) = server_ok s"
  "server_ok (s\<lparr>index_tag_table := x_index_tag_table\<rparr>) = server_ok s"
  "server_ok (s\<lparr>deferred_list := x_deferred_list\<rparr>) = server_ok s"
  "server_ok (s\<lparr>emailList := x_emailList\<rparr>) = server_ok s"
  "server_ok (s\<lparr>removed_files := x_removed_files\<rparr>) = server_ok s"
  by (simp_all add: server_ok_def tables_ok_def counters_ok_def)

lemma tcount_tupd_same: "(\<And>v. P (f v) = P v) \<Longrightarrow> tcount P (tupd key k f t) = tcount P t"
  unfolding tcount_def tupd_def by (induction t) auto

text \<open>
  The general step: one job changes its state or queue (or both), and every counter moves
  accordingly.
\<close>

lemma server_ok_move:
  assumes ok: "server_ok s" and find: "findJob s k = Some j"
    and jobs: "jobTable s' = tupd j_jobid k f (jobTable s)" and key: "\<And>j. j_jobid (f j) = j_jobid j"
    and res: "resTable s' = resTable s"
    and queues: "queueTable s' = map g (queueTable s)" and names: "\<And>q. q_name (g q) = q_name q"
    and target: "j_queue (f j) \<in> q_name ` set (queueTable s)"
    and total: "\<And>st. st \<in> job_states \<Longrightarrow> stat_get st (stats_jobs s') = stat_get st (stats_jobs s) -
        (if j_state j = st then 1 else 0) + (if j_state (f j) = st then 1 else 0)"
    and per_queue: "\<And>st q. st \<in> job_states \<Longrightarrow> stat_get st (q_stats (g q)) = stat_get st (q_stats q) -
        (if j_queue j = q_name q \<and> j_state j = st then 1 else 0) +
        (if j_queue (f j) = q_name q \<and> j_state (f j) = st then 1 else 0)"
  shows "server_ok s'"
proof -
  from ok have keys: "tkeys j_jobid (jobTable s)" by (simp add: server_ok_def tables_ok_def)
  note count = tcount_tupd [OF keys find [unfolded findJob_def], of _ f]
  have unique: "j' = j" if "j' \<in> set (jobTable s)" "j_jobid j' = k" for j'
    using tfind_mem [OF keys that(1)] find that(2) by (simp add: findJob_def)
  have "tables_ok s'"
    using ok target unique jobs queues res names key
    by (auto simp: server_ok_def tables_ok_def tkeys_tupd set_tupd image_image)
       (auto simp: tkeys_def comp_def)
  moreover have "stats_match (stats_jobs s') (\<lambda>_. True) (jobTable s')"
    using ok total by (auto simp: server_ok_def counters_ok_def stats_match_def jobs count)
  moreover have "stats_match (q_stats (g q)) (\<lambda>j. j_queue j = q_name q) (jobTable s')"
    if "q \<in> set (queueTable s)" for q
    using ok per_queue that by (auto simp: server_ok_def counters_ok_def stats_match_def jobs count)
  ultimately show ?thesis
    by (auto simp: server_ok_def counters_ok_def queues names)
qed

text \<open>Changing anything but a job's state and queue leaves the counters right.\<close>

lemma server_ok_on_job:
  assumes "server_ok s" and "\<And>j. j_jobid (f j) = j_jobid j" and "\<And>j. j_state (f j) = j_state j"
    and "\<And>j. j_queue (f j) = j_queue j"
  shows "server_ok (on_job k f s)"
  using assms
  by (auto simp: server_ok_def tables_ok_def counters_ok_def tkeys_tupd set_tupd stats_match_def
      tcount_tupd_same)

lemma server_ok_updateJob [inv_rules]: "server_ok s \<Longrightarrow> server_ok (updateJob k d s)"
  using server_ok_on_job [of s "\<lambda>j. j\<lparr>j_revision := j_revision j + 1, j_dirty := j_dirty j \<or> d\<rparr>" k]
  by (subst server_ok_cong [where s = "on_job k (\<lambda>j. j\<lparr>j_revision := j_revision j + 1, j_dirty := j_dirty j \<or> d\<rparr>) s"])
     simp_all

lemma server_ok_generateEmail [inv_rules]: "server_ok s \<Longrightarrow> server_ok (generateEmail j st s)"
  by (subst server_ok_cong [where s = s]) simp_all

lemma keys_tupd: "(\<And>v. key (f v) = key v) \<Longrightarrow> key ` set (tupd key k f t) = key ` set t"
  by (metis list.set_map map_key_tupd)

lemma server_ok_on_queue:
  assumes "server_ok s" and "\<And>q. q_name (f q) = q_name q"
    and "\<And>q st. stat_get st (q_stats (f q)) = stat_get st (q_stats q)"
  shows "server_ok (on_queue n f s)"
proof -
  have "tables_ok (on_queue n f s)"
    using assms(1,2) by (simp add: server_ok_def tables_ok_def tkeys_tupd keys_tupd)
  moreover have "counters_ok (on_queue n f s)"
    using assms by (auto simp: server_ok_def counters_ok_def set_tupd stats_match_def)
  ultimately show ?thesis by (simp add: server_ok_def)
qed

lemma server_ok_map_queues:
  assumes "server_ok s" and "\<And>q. q_name (g q) = q_name q" and "\<And>q. q_stats (g q) = q_stats q"
  shows "server_ok (s\<lparr>queueTable := map g (queueTable s)\<rparr>)"
  using assms by (auto simp: server_ok_def tables_ok_def counters_ok_def tkeys_def comp_def image_image)

lemma updateQueue_eq:
  "updateQueue n dirty s =
   (on_queue n (\<lambda>q. q\<lparr>q_revision := q_revision q + 1, q_dirty := q_dirty q \<or> dirty\<rparr>) s)
     \<lparr>dirty_queues := dirty_queues s \<or> dirty\<rparr>"
  by (cases dirty) (simp_all add: updateQueue_def on_queue_def tupd_tupd)

lemma updateRes_eq:
  "updateRes n dirty s =
   (on_res n (\<lambda>r. r\<lparr>r_revision := r_revision r + 1, r_dirty := r_dirty r \<or> dirty\<rparr>) s)
     \<lparr>dirty_resources := dirty_resources s \<or> dirty\<rparr>"
  by (cases dirty) (simp_all add: updateRes_def on_res_def tupd_tupd)

lemma server_ok_updateQueue [inv_rules]: "server_ok s \<Longrightarrow> server_ok (updateQueue n d s)"
proof -
  assume "server_ok s"
  then have "server_ok (on_queue n (\<lambda>q. q\<lparr>q_revision := q_revision q + 1, q_dirty := q_dirty q \<or> d\<rparr>) s)"
    by (rule server_ok_on_queue) simp_all
  then show ?thesis unfolding updateQueue_eq by simp
qed

lemma server_ok_on_res:
  "server_ok s \<Longrightarrow> (\<And>r. r_name (f r) = r_name r) \<Longrightarrow> server_ok (on_res n f s)"
  by (auto simp: server_ok_def tables_ok_def counters_ok_def tkeys_tupd)

lemma server_ok_updateRes [inv_rules]: "server_ok s \<Longrightarrow> server_ok (updateRes n d s)"
proof -
  assume "server_ok s"
  then have "server_ok (on_res n (\<lambda>r. r\<lparr>r_revision := r_revision r + 1, r_dirty := r_dirty r \<or> d\<rparr>) s)"
    by (rule server_ok_on_res) simp_all
  then show ?thesis unfolding updateRes_eq by simp
qed

lemma server_ok_on_agent: "server_ok s \<Longrightarrow> server_ok (on_agent n f s)"
  by (subst server_ok_cong [where s = s]) simp_all

lemma server_ok_start_pending:
  "server_ok s \<Longrightarrow> server_ok (count_state n (start_pending_add d) s)"
  unfolding count_state_def
  by (rule server_ok_on_queue) (auto simp: server_ok_def tables_ok_def counters_ok_def stats_match_def)

lemma increment_state_frame [simp]:
  "jobTable (increment_state j s) = jobTable s" "resTable (increment_state j s) = resTable s"
  "agentList (increment_state j s) = agentList s" "deferred_list (increment_state j s) = deferred_list s"
  "candidate_pool (increment_state j s) = candidate_pool s" "deleted (increment_state j s) = deleted s"
  "max_run_jobs (increment_state j s) = max_run_jobs s"
  by (simp_all add: increment_state_def Let_def)

lemma decrement_state_frame [simp]:
  "jobTable (decrement_state j s) = jobTable s" "resTable (decrement_state j s) = resTable s"
  "agentList (decrement_state j s) = agentList s" "deferred_list (decrement_state j s) = deferred_list s"
  "candidate_pool (decrement_state j s) = candidate_pool s" "deleted (decrement_state j s) = deleted s"
  "max_run_jobs (decrement_state j s) = max_run_jobs s"
  by (simp_all add: decrement_state_def)

text \<open>What \<open>increment_state\<close> does to the counters: the state's counter, and \<open>start_pending\<close>.\<close>

definition started_effect :: "job \<Rightarrow> jobStats \<Rightarrow> jobStats" where
  "started_effect j =
     (if (j_state j = JERS_JOB_RUNNING \<or> j_state j = JERS_JOB_EXITED) \<and>
         has_flag (j_internal_state j) JERS_FLAG_JOB_STARTED
      then start_pending_add (-1) else (\<lambda>x. x))"

lemma stat_get_started [simp]: "stat_get st (started_effect j x) = stat_get st x"
  by (simp add: started_effect_def)

lemma increment_state_counters:
  "stats_jobs (increment_state j s) = started_effect j (stat_add (j_state j) 1 (stats_jobs s))"
  "queueTable (increment_state j s) =
     tupd q_name (j_queue j) (\<lambda>q. q\<lparr>q_stats := started_effect j (stat_add (j_state j) 1 (q_stats q))\<rparr>)
       (queueTable s)"
  by (auto simp: increment_state_def Let_def started_effect_def tupd_tupd)

definition requeue :: "flags \<Rightarrow> string option \<Rightarrow> job \<Rightarrow> job" where
  "requeue new_state new_queue j =
     j\<lparr>j_queue := (case new_queue of Some n \<Rightarrow> n | None \<Rightarrow> j_queue j), j_state := new_state\<rparr>"

lemma requeue_simps [simp]:
  "j_jobid (requeue st q j) = j_jobid j" "j_state (requeue st q j) = st"
  "j_queue (requeue st q j) = (case q of Some n \<Rightarrow> n | None \<Rightarrow> j_queue j)"
  "j_internal_state (requeue st q j) = j_internal_state j"
  "j_defer_time (requeue st q j) = j_defer_time j" "j_priority (requeue st q j) = j_priority j"
  "j_req_resources (requeue st q j) = j_req_resources j"
  by (simp_all add: requeue_def)

lemma tupd_cong_key:
  "tkeys key t \<Longrightarrow> tfind key k t = Some v \<Longrightarrow> f v = g v \<Longrightarrow> tupd key k f t = tupd key k g t"
  unfolding tupd_def by (rule map_cong) (auto dest: tfind_mem)

text \<open>The whole of \<open>changeJobState\<close> on the tables and counters.\<close>

lemma changeJobState_move:
  assumes "server_ok s" and "findJob s k = Some j"
    and "case new_queue of Some n \<Rightarrow> findQueue s n \<noteq> None | None \<Rightarrow> True"
    and "j_state j \<noteq> new_state \<or> new_queue \<noteq> None"
  shows "server_ok (increment_state (requeue new_state new_queue j)
           (on_job k (requeue new_state new_queue) (decrement_state j s)))"
proof (rule server_ok_move [OF assms(1,2), where f = "requeue new_state new_queue" and
    g = "\<lambda>q. let q1 = (if q_name q = j_queue j then q\<lparr>q_stats := stat_add (j_state j) (-1) (q_stats q)\<rparr> else q)
             in if q_name q1 = j_queue (requeue new_state new_queue j)
                then q1\<lparr>q_stats := started_effect (requeue new_state new_queue j) (stat_add new_state 1 (q_stats q1))\<rparr>
                else q1"])
  have "j \<in> set (jobTable s)" using assms(2) by (auto simp: findJob_def dest: tfind_SomeD)
  then have "j_queue j \<in> q_name ` set (queueTable s)"
    using assms(1) by (auto simp: server_ok_def tables_ok_def)
  moreover have "n \<in> q_name ` set (queueTable s)" if "findQueue s n \<noteq> None" for n
    using that by (auto simp: findQueue_def tfind_None_iff)
  ultimately show "j_queue (requeue new_state new_queue j) \<in> q_name ` set (queueTable s)"
    using assms(3) by (auto split: option.splits)
qed (auto simp: increment_state_counters decrement_state_def tupd_def stat_get_add Let_def)

lemma on_job_requeue:
  assumes "tkeys j_jobid (jobTable s)" and "findJob s k = Some j"
  shows "on_job k (\<lambda>j'. j'\<lparr>j_queue := (case q of Some n \<Rightarrow> n | None \<Rightarrow> j_queue j), j_state := st\<rparr>) s =
         on_job k (requeue st q) s"
proof -
  have "tupd j_jobid k (\<lambda>j'. j'\<lparr>j_queue := (case q of Some n \<Rightarrow> n | None \<Rightarrow> j_queue j), j_state := st\<rparr>) (jobTable s) =
      tupd j_jobid k (requeue st q) (jobTable s)"
    using assms(2) by (intro tupd_cong_key [OF assms(1), of k j]) (simp_all add: findJob_def requeue_def)
  then show ?thesis by (simp add: on_job_def)
qed

lemma changeJobState_eq:
  assumes "tkeys j_jobid (jobTable s)" and "findJob s k = Some j"
  shows "changeJobState k new_state new_queue dirty s =
    (let s1 = (if j_state j \<noteq> new_state \<or> new_queue \<noteq> None
               then increment_state (requeue new_state new_queue j)
                      (on_job k (requeue new_state new_queue) (decrement_state j s))
               else s);
         s2 = updateJob k dirty s1
     in if has_flag (j_email_states j) new_state then generateEmail j new_state s2 else s2)"
proof -
  have "tkeys j_jobid (jobTable (decrement_state j s))" "findJob (decrement_state j s) k = Some j"
    using assms by (simp_all add: findJob_def)
  note eq = on_job_requeue [OF this]
  show ?thesis
    by (simp only: changeJobState_def assms(2) option.case Let_def eq)
       (simp only: requeue_def [of new_state new_queue j, symmetric])
qed

theorem changeJobState_ok [inv_rules]:
  assumes ok: "server_ok s"
    and q: "case new_queue of Some n \<Rightarrow> findQueue s n \<noteq> None | None \<Rightarrow> True"
  shows "server_ok (changeJobState k new_state new_queue dirty s)"
proof (cases "findJob s k")
  case None
  with ok show ?thesis by (simp add: changeJobState_def)
next
  case (Some j)
  have keys: "tkeys j_jobid (jobTable s)"
    using ok by (simp add: server_ok_def tables_ok_def)
  show ?thesis
    using changeJobState_move [OF ok Some q, of new_state] ok
    by (simp add: changeJobState_eq [OF keys Some] Let_def server_ok_updateJob server_ok_generateEmail)
qed

lemma changeJobState_frame [simp]:
  "resTable (changeJobState k st q d s) = resTable s" "agentList (changeJobState k st q d s) = agentList s"
  "deferred_list (changeJobState k st q d s) = deferred_list s"
  "candidate_pool (changeJobState k st q d s) = candidate_pool s"
  "deleted (changeJobState k st q d s) = deleted s"
  "max_run_jobs (changeJobState k st q d s) = max_run_jobs s"
  by (simp_all add: changeJobState_def Let_def split: option.split)

lemma requeue_same: "requeue (j_state j) None j = j"
  by (simp add: requeue_def)

text \<open>The job behind each jobid after \<open>changeJobState\<close>.\<close>

lemma findJob_changeJobState:
  assumes "tkeys j_jobid (jobTable s)"
  shows "findJob (changeJobState k st q d s) k' =
    (if k' = k then map_option (\<lambda>j. (requeue st q j)\<lparr>j_revision := j_revision j + 1,
       j_dirty := j_dirty j \<or> d\<rparr>) (findJob s k) else findJob s k')"
proof (cases "findJob s k")
  case None
  then show ?thesis by (simp add: changeJobState_def)
next
  case (Some j)
  let ?f = "\<lambda>j. j\<lparr>j_revision := j_revision j + 1, j_dirty := j_dirty j \<or> d\<rparr>"
  have job: "jobTable (changeJobState k st q d s) = tupd j_jobid k ?f
      (if j_state j \<noteq> st \<or> q \<noteq> None then tupd j_jobid k (requeue st q) (jobTable s) else jobTable s)"
    by (simp add: changeJobState_eq [OF assms Some] Let_def)
  show ?thesis
  proof (cases "j_state j \<noteq> st \<or> q \<noteq> None")
    case True
    then show ?thesis using Some by (simp add: findJob_def job tfind_tupd requeue_def)
  next
    case False
    then have "requeue st q j = j" by (auto simp: requeue_same)
    then show ?thesis unfolding findJob_def job using False Some by (simp add: findJob_def tfind_tupd)
  qed
qed

lemma findJob_on_job:
  "(\<And>j. j_jobid (f j) = j_jobid j) \<Longrightarrow>
   findJob (on_job k f s) k' = (if k' = k then map_option f (findJob s k) else findJob s k')"
  by (auto simp: findJob_def tfind_tupd)

lemma server_ok_init: "server_ok init_server"
  by (simp add: init_server_def server_ok_def tables_ok_def counters_ok_def stats_match_def
      tkeys_def stat_get_def stats_zero_def)

end
