(* ===== verification/Resource.thy ===== *)
theory Resource
  imports Server
begin

section \<open>Resource: counted resources, resource.c\<close>

text \<open>
  \<open>src/src/resource.c\<close>. A job names the resources it needs with an amount each; the
  scheduler checks, allocates and deallocates them. The arithmetic is that of \<open>int32_t\<close>.
\<close>

unbundle bit_operations_syntax

subsection \<open>Operations\<close>

definition addRes :: "resource \<Rightarrow> bool \<Rightarrow> server \<Rightarrow> server" where
  "addRes r dirty s = updateRes (r_name r) dirty (s\<lparr>resTable := tadd r (resTable s)\<rparr>)"

definition checkRes :: "server \<Rightarrow> job \<Rightarrow> bool" where
  "checkRes s j \<longleftrightarrow>
     list_ex (\<lambda>(n, needed). case findResource s n of
        None \<Rightarrow> True
      | Some r \<Rightarrow> needed > int32 (r_count r - r_in_use r)) (j_req_resources j)"

definition res_take :: "int \<Rightarrow> resource \<Rightarrow> resource" where
  "res_take needed r = r\<lparr>r_in_use := int32 (r_in_use r + needed)\<rparr>"

definition res_give :: "int \<Rightarrow> resource \<Rightarrow> resource" where
  "res_give needed r =
     (let u = int32 (r_in_use r - needed) in r\<lparr>r_in_use := (if u < 0 then 0 else u)\<rparr>)"

definition allocateRes :: "job \<Rightarrow> server \<Rightarrow> server" where
  "allocateRes j s = fold (\<lambda>(n, needed). on_res n (res_take needed)) (j_req_resources j) s"

definition deallocateRes :: "job \<Rightarrow> server \<Rightarrow> server" where
  "deallocateRes j s = fold (\<lambda>(n, needed). on_res n (res_give needed)) (j_req_resources j) s"

definition stateDelResource :: "resource \<Rightarrow> server \<Rightarrow> server" where
  "stateDelResource r s = s\<lparr>removed_files := removed_files s @ [ResFile (r_name r)]\<rparr>"

text \<open>\<open>HASH_ITER\<close> walks the entries that were in the table when the loop was entered.\<close>

fun cleanup_res_loop :: "resource list \<Rightarrow> nat \<Rightarrow> nat \<Rightarrow> server \<Rightarrow> nat \<times> server" where
  "cleanup_res_loop [] max_clean cleaned_up s = (cleaned_up, s)"
| "cleanup_res_loop (r # rs) max_clean cleaned_up s =
     (if \<not> has_flag (r_internal_state r) JERS_FLAG_DELETED then cleanup_res_loop rs max_clean cleaned_up s
      else if r_dirty r \<or> has_flag (r_internal_state r) JERS_FLAG_FLUSHING
      then cleanup_res_loop rs max_clean cleaned_up s
      else (let s = stateDelResource r s;
                s = s\<lparr>resTable := tdel r_name (r_name r) (resTable s)\<rparr>;
                cleaned_up = Suc cleaned_up
            in if cleaned_up \<ge> max_clean then (cleaned_up, s)
               else cleanup_res_loop rs max_clean cleaned_up s))"

definition cleanupResources :: "nat \<Rightarrow> server \<Rightarrow> nat \<times> server" where
  "cleanupResources max_clean s =
     cleanup_res_loop (resTable s) (if max_clean = 0 then 10 else max_clean) 0 s"

definition convertResourceToStrings :: "(string \<times> int) list \<Rightarrow> string list" where
  "convertResourceToStrings res = map (\<lambda>(n, needed). n @ '':'' @ int64tostr needed) res"

definition num_field :: "nat \<Rightarrow> int \<Rightarrow> field" where
  "num_field n v = \<lparr>f_number = n, f_value = FNum v\<rparr>"

definition str_field :: "nat \<Rightarrow> string option \<Rightarrow> field" where
  "str_field n v = \<lparr>f_number = n, f_value = FStr v\<rparr>"

definition strs_field :: "nat \<Rightarrow> string list \<Rightarrow> field" where
  "strs_field n vs = \<lparr>f_number = n, f_value = FStrs (map Some vs)\<rparr>"

definition array_field :: "nat \<Rightarrow> string option list \<Rightarrow> field" where
  "array_field n vs = \<lparr>f_number = n, f_value = FStrs vs\<rparr>"

definition map_field :: "nat \<Rightarrow> (string \<times> string option) list \<Rightarrow> field" where
  "map_field n kvs = \<lparr>f_number = n, f_value = FMap kvs\<rparr>"

definition bool_field :: "nat \<Rightarrow> bool \<Rightarrow> field" where
  "bool_field n v = \<lparr>f_number = n, f_value = FBool v\<rparr>"

text \<open>
  The \<open>...ToJSON\<close> routines: an object of the given name holding the given fields, the
  value of a field written by the writer that fits it.
\<close>

definition objectToJSON :: "string \<Rightarrow> field list \<Rightarrow> allocator \<Rightarrow> buff \<Rightarrow> fault + buff" where
  "objectToJSON name fs alloc b =
     bindB (JSONStart alloc b) (\<lambda>b.
     bindB (JSONStartObject alloc b (Some name)) (\<lambda>b.
     bindB (JSONAddFields alloc b fs) (\<lambda>b.
     bindB (JSONEndObject alloc b) (\<lambda>b.
     JSONEnd alloc b))))"

definition resourceToJSON :: "resource \<Rightarrow> allocator \<Rightarrow> buff \<Rightarrow> fault + buff" where
  "resourceToJSON r =
     objectToJSON ''RESOURCE''
       [str_field RESNAME (Some (r_name r)), num_field RESCOUNT (r_count r),
        num_field RESINUSE (r_in_use r)]"

subsection \<open>Lemmas\<close>

lemma r_name_take [simp]: "r_name (res_take n r) = r_name r" and
  r_name_give [simp]: "r_name (res_give n r) = r_name r"
  by (simp_all add: res_take_def res_give_def Let_def)

lemma fold_on_res_frame:
  "jobTable (fold (\<lambda>(n, k). on_res n (f k)) rs s) = jobTable s"
  "queueTable (fold (\<lambda>(n, k). on_res n (f k)) rs s) = queueTable s"
  "agentList (fold (\<lambda>(n, k). on_res n (f k)) rs s) = agentList s"
  "stats_jobs (fold (\<lambda>(n, k). on_res n (f k)) rs s) = stats_jobs s"
  "deferred_list (fold (\<lambda>(n, k). on_res n (f k)) rs s) = deferred_list s"
  "candidate_pool (fold (\<lambda>(n, k). on_res n (f k)) rs s) = candidate_pool s"
  "max_run_jobs (fold (\<lambda>(n, k). on_res n (f k)) rs s) = max_run_jobs s"
  by (induction rs arbitrary: s) auto

lemma allocateRes_frame [simp]:
  "jobTable (allocateRes j s) = jobTable s" "queueTable (allocateRes j s) = queueTable s"
  "agentList (allocateRes j s) = agentList s" "stats_jobs (allocateRes j s) = stats_jobs s"
  "deferred_list (allocateRes j s) = deferred_list s" "candidate_pool (allocateRes j s) = candidate_pool s"
  "max_run_jobs (allocateRes j s) = max_run_jobs s"
  by (simp_all add: allocateRes_def fold_on_res_frame)

lemma deallocateRes_frame [simp]:
  "jobTable (deallocateRes j s) = jobTable s" "queueTable (deallocateRes j s) = queueTable s"
  "agentList (deallocateRes j s) = agentList s" "stats_jobs (deallocateRes j s) = stats_jobs s"
  "deferred_list (deallocateRes j s) = deferred_list s" "candidate_pool (deallocateRes j s) = candidate_pool s"
  "max_run_jobs (deallocateRes j s) = max_run_jobs s"
  by (simp_all add: deallocateRes_def fold_on_res_frame)

lemma server_ok_fold_res:
  "server_ok s \<Longrightarrow> (\<And>k r. r_name (f k r) = r_name r) \<Longrightarrow>
   server_ok (fold (\<lambda>(n, k). on_res n (f k)) rs s)"
  by (induction rs arbitrary: s) (auto intro: server_ok_on_res)

lemma server_ok_allocateRes [inv_rules]: "server_ok s \<Longrightarrow> server_ok (allocateRes j s)"
  unfolding allocateRes_def by (rule server_ok_fold_res) simp_all

lemma server_ok_deallocateRes [inv_rules]: "server_ok s \<Longrightarrow> server_ok (deallocateRes j s)"
  unfolding deallocateRes_def by (rule server_ok_fold_res) simp_all

text \<open>How much of a resource a request list asks for.\<close>

definition demand :: "string \<Rightarrow> (string \<times> int) list \<Rightarrow> int" where
  "demand n rs = sum_list (map snd (filter (\<lambda>(m, _). m = n) rs))"

lemma demand_Cons [simp]: "demand n ((m, k) # rs) = (if m = n then k else 0) + demand n rs"
  by (simp add: demand_def)

lemma demand_Nil [simp]: "demand n [] = 0"
  by (simp add: demand_def)

lemma demand_absent: "n \<notin> fst ` set rs \<Longrightarrow> demand n rs = 0"
  by (induction rs) auto

lemma demand_nonneg: "\<forall>(m, k) \<in> set rs. 0 \<le> k \<Longrightarrow> 0 \<le> demand n rs"
  by (induction rs) auto

lemma demand_single:
  "distinct (map fst rs) \<Longrightarrow> (n, k) \<in> set rs \<Longrightarrow> demand n rs = k"
  by (induction rs) (auto simp: demand_absent image_iff)

lemma resTable_fold:
  assumes "\<And>k r. r_name (f k r) = r_name r"
  shows "resTable (fold (\<lambda>(n, k). on_res n (f k)) rs s) =
    map (fold (\<lambda>(n, k) r. if r_name r = n then f k r else r) rs) (resTable s)"
proof (induction rs arbitrary: s)
  case (Cons nk rs)
  obtain n k where nk: "nk = (n, k)" by (cases nk)
  show ?case unfolding nk by (simp add: Cons.IH tupd_def comp_def)
qed simp

definition res_ok :: "resource \<Rightarrow> bool" where
  "res_ok r \<longleftrightarrow> 0 \<le> r_in_use r \<and> r_in_use r \<le> r_count r \<and> r_count r < 2 ^ 31"

lemma int32_id: "- (2 ^ 31) \<le> x \<Longrightarrow> x < 2 ^ 31 \<Longrightarrow> int32 x = x"
  by (rule cint_id) simp_all

lemma fold_take:
  "\<forall>(m, k) \<in> set rs. 0 \<le> k \<Longrightarrow> 0 \<le> r_in_use r \<Longrightarrow> r_in_use r + demand (r_name r) rs < 2 ^ 31 \<Longrightarrow>
   fold (\<lambda>(n, k) r. if r_name r = n then res_take k r else r) rs r =
   r\<lparr>r_in_use := r_in_use r + demand (r_name r) rs\<rparr>"
proof (induction rs arbitrary: r)
  case (Cons nk rs)
  obtain n k where nk: "nk = (n, k)" by (cases nk)
  have "0 \<le> demand (r_name r) rs" using Cons.prems(1) by (intro demand_nonneg) auto
  then have "r_name r = n \<Longrightarrow> res_take k r = r\<lparr>r_in_use := r_in_use r + k\<rparr>"
    using Cons.prems nk by (simp add: res_take_def int32_id)
  then show ?case using Cons nk by (auto simp: algebra_simps)
qed simp

lemma fold_give:
  "\<forall>(m, k) \<in> set rs. 0 \<le> k \<Longrightarrow> demand (r_name r) rs \<le> r_in_use r \<Longrightarrow> r_in_use r < 2 ^ 31 \<Longrightarrow>
   fold (\<lambda>(n, k) r. if r_name r = n then res_give k r else r) rs r =
   r\<lparr>r_in_use := r_in_use r - demand (r_name r) rs\<rparr>"
proof (induction rs arbitrary: r)
  case (Cons nk rs)
  obtain n k where nk: "nk = (n, k)" by (cases nk)
  have "0 \<le> demand (r_name r) rs" using Cons.prems(1) by (intro demand_nonneg) auto
  then have "r_name r = n \<Longrightarrow> res_give k r = r\<lparr>r_in_use := r_in_use r - k\<rparr>"
    using Cons.prems nk by (simp add: res_give_def Let_def int32_id)
  then show ?case using Cons nk by (auto simp: algebra_simps)
qed simp

text \<open>A request the daemon can grant: each resource named once, with a non-negative amount.\<close>

definition request_ok :: "(string \<times> int) list \<Rightarrow> bool" where
  "request_ok rs \<longleftrightarrow> distinct (map fst rs) \<and> (\<forall>(n, k) \<in> set rs. 0 \<le> k)"

lemma checkRes_demand:
  assumes "\<not> checkRes s j" and "request_ok (j_req_resources j)" and "tkeys r_name (resTable s)"
    and "r \<in> set (resTable s)" and "res_ok r"
  shows "0 \<le> demand (r_name r) (j_req_resources j) \<and>
         r_in_use r + demand (r_name r) (j_req_resources j) \<le> r_count r"
proof (cases "r_name r \<in> fst ` set (j_req_resources j)")
  case False
  with assms(5) show ?thesis by (simp add: demand_absent res_ok_def)
next
  case True
  then obtain k where k: "(r_name r, k) \<in> set (j_req_resources j)" by auto
  have "findResource s (r_name r) = Some r"
    using assms(3,4) by (simp add: findResource_def tfind_mem)
  with assms(1) k have "k \<le> int32 (r_count r - r_in_use r)"
    by (fastforce simp: checkRes_def list_ex_iff)
  moreover have "int32 (r_count r - r_in_use r) = r_count r - r_in_use r"
    using assms(5) by (intro int32_id) (auto simp: res_ok_def)
  moreover have "demand (r_name r) (j_req_resources j) = k" "0 \<le> k"
    using assms(2) k by (auto simp: request_ok_def intro: demand_single)
  ultimately show ?thesis by simp
qed

lemma allocateRes_table:
  assumes "\<not> checkRes s j" and "request_ok (j_req_resources j)" and "tkeys r_name (resTable s)"
    and "\<forall>r \<in> set (resTable s). res_ok r"
  shows "resTable (allocateRes j s) =
    map (\<lambda>r. r\<lparr>r_in_use := r_in_use r + demand (r_name r) (j_req_resources j)\<rparr>) (resTable s)"
proof -
  have "fold (\<lambda>(n, k) r. if r_name r = n then res_take k r else r) (j_req_resources j) r =
      r\<lparr>r_in_use := r_in_use r + demand (r_name r) (j_req_resources j)\<rparr>" if "r \<in> set (resTable s)" for r
    using assms(2,4) checkRes_demand [OF assms(1,2,3) that] that
    by (intro fold_take) (auto simp: request_ok_def res_ok_def)
  then show ?thesis by (simp add: allocateRes_def resTable_fold)
qed

lemma allocateRes_keeps_ok:
  assumes "\<not> checkRes s j" and "request_ok (j_req_resources j)" and "tkeys r_name (resTable s)"
    and "\<forall>r \<in> set (resTable s). res_ok r"
  shows "\<forall>r \<in> set (resTable (allocateRes j s)). res_ok r"
proof -
  let ?d = "\<lambda>r. demand (r_name r) (j_req_resources j)"
  have ok: "0 \<le> ?d r" "r_in_use r + ?d r \<le> r_count r" "res_ok r" if "r \<in> set (resTable s)" for r
    using checkRes_demand [OF assms(1,2,3) that] assms(4) that by auto
  show ?thesis using ok unfolding allocateRes_table [OF assms] by (fastforce simp: res_ok_def)
qed

section \<open>Properties\<close>

text \<open>Resources are never over-allocated and never leak: when the check has passed for a
  job that names each resource once with a non-negative amount, allocating keeps every
  resource's use between zero and its count, and deallocating afterwards restores every
  resource exactly.\<close>

theorem resource_allocation_safe:
  assumes "\<not> checkRes s j" and "request_ok (j_req_resources j)" and "tkeys r_name (resTable s)"
    and "\<forall>r \<in> set (resTable s). res_ok r"
  shows "(\<forall>r \<in> set (resTable (allocateRes j s)). res_ok r) \<and>
         resTable (deallocateRes j (allocateRes j s)) = resTable s"
proof
  let ?d = "\<lambda>r. demand (r_name r) (j_req_resources j)"
  note table = allocateRes_table [OF assms]
  have ok: "0 \<le> ?d r" "r_in_use r + ?d r \<le> r_count r" "res_ok r" if "r \<in> set (resTable s)" for r
    using checkRes_demand [OF assms(1,2,3) that] assms(4) that by auto
  show "\<forall>r \<in> set (resTable (allocateRes j s)). res_ok r"
    by (rule allocateRes_keeps_ok [OF assms])
  have "fold (\<lambda>(n, k) r. if r_name r = n then res_give k r else r) (j_req_resources j)
      (r\<lparr>r_in_use := r_in_use r + ?d r\<rparr>) = r" if "r \<in> set (resTable s)" for r
    using assms(2) ok [OF that] by (subst fold_give) (auto simp: request_ok_def res_ok_def)
  then show "resTable (deallocateRes j (allocateRes j s)) = resTable s"
    unfolding deallocateRes_def by (simp add: resTable_fold table map_idI)
qed

theorem resource_allocation_safe_witness:
  "let s = init_server\<lparr>resTable := [resource_zero\<lparr>r_name := ''tape'', r_count := 4, r_in_use := 1\<rparr>]\<rparr>;
       j = job_zero\<lparr>j_req_resources := [(''tape'', 3)]\<rparr>
   in \<not> checkRes s j \<and> (\<forall>r \<in> set (resTable (allocateRes j s)). res_ok r) \<and>
      resTable (deallocateRes j (allocateRes j s)) = resTable s"
proof -
  let ?s = "init_server\<lparr>resTable := [resource_zero\<lparr>r_name := ''tape'', r_count := 4, r_in_use := 1\<rparr>]\<rparr>"
  let ?j = "job_zero\<lparr>j_req_resources := [(''tape'', 3)]\<rparr>"
  have check: "\<not> checkRes ?s ?j"
    by (simp add: checkRes_def findResource_def tfind_def resource_zero_def int32_id)
  have "request_ok (j_req_resources ?j)" "tkeys r_name (resTable ?s)" "\<forall>r \<in> set (resTable ?s). res_ok r"
    by (simp_all add: request_ok_def tkeys_def res_ok_def)
  from check resource_allocation_safe [OF check this] show ?thesis by (simp only: Let_def) blast
qed

text \<open>\<open>checkRes\<close> compares each entry of the request on its own: a job that lists the same
  resource twice passes the check whenever each entry fits, and allocating then takes more
  than there is.\<close>

theorem duplicate_request_overallocates:
  assumes "findResource s n = Some r" and "res_ok r" and "k = r_count r - r_in_use r" and "0 < k"
    and "r_count r + k < 2 ^ 31" and "j_req_resources j = [(n, k), (n, k)]"
  shows "\<not> checkRes s j \<and>
    map_option r_in_use (findResource (allocateRes j s) n) = Some (r_count r + k)"
proof
  have "int32 (r_count r - r_in_use r) = r_count r - r_in_use r"
    using assms by (intro int32_id) (auto simp: res_ok_def)
  then show "\<not> checkRes s j" using assms by (simp add: checkRes_def)
  have "res_take k (res_take k r) = r\<lparr>r_in_use := r_count r + k\<rparr>"
    using assms by (simp add: res_take_def int32_id res_ok_def)
  then show "map_option r_in_use (findResource (allocateRes j s) n) = Some (r_count r + k)"
    using assms by (simp add: allocateRes_def findResource_def tfind_tupd)
qed

theorem duplicate_request_overallocates_witness:
  "map_option r_in_use (findResource
     (allocateRes (job_zero\<lparr>j_req_resources := [(''tape'', 2), (''tape'', 2)]\<rparr>)
        (init_server\<lparr>resTable := [resource_zero\<lparr>r_name := ''tape'', r_count := 2\<rparr>]\<rparr>)) ''tape'') = Some 4"
  using duplicate_request_overallocates
    [of "init_server\<lparr>resTable := [resource_zero\<lparr>r_name := ''tape'', r_count := 2\<rparr>]\<rparr>" "''tape''"
        "resource_zero\<lparr>r_name := ''tape'', r_count := 2\<rparr>" 2
        "job_zero\<lparr>j_req_resources := [(''tape'', 2), (''tape'', 2)]\<rparr>"]
  by (simp add: findResource_def tfind_def resource_zero_def res_ok_def)

end
