(* ===== verification/Queue.thy ===== *)
theory Queue
  imports Resource
begin

section \<open>Queue: queues and their access control, queue.c\<close>

text \<open>
  \<open>src/src/queue.c\<close>, with the client and user records of \<open>client.h\<close> and \<open>common.h\<close> as far
  as permissions are concerned. A queue's permissions are computed when it is added, from
  the configured access control lists in their order; the list of groups of an entry ends
  at the first 0.
\<close>

unbundle bit_operations_syntax

abbreviation (input) PERM_READ :: flags where "PERM_READ \<equiv> 0x01"
abbreviation (input) PERM_WRITE :: flags where "PERM_WRITE \<equiv> 0x02"
abbreviation (input) PERM_SETUID :: flags where "PERM_SETUID \<equiv> 0x04"
abbreviation (input) PERM_QUEUE :: flags where "PERM_QUEUE \<equiv> 0x08"
abbreviation (input) PERM_SELF :: flags where "PERM_SELF \<equiv> 0x10"

abbreviation (input) QUEUE_CONTROL :: flags where "QUEUE_CONTROL \<equiv> 0x01"
abbreviation (input) QUEUE_LIMIT :: flags where "QUEUE_LIMIT \<equiv> 0x02"
abbreviation (input) QUEUE_ADMIN :: flags where "QUEUE_ADMIN \<equiv> 0xFFFF"

record user =
  u_uid :: int
  u_permissions :: flags
  u_group_list :: "int list"

record client =
  c_uid :: int
  c_user :: user

subsection \<open>Operations\<close>

definition setDefaultQueue :: "string \<Rightarrow> server \<Rightarrow> server" where
  "setDefaultQueue n s = s\<lparr>defaultQueue := Some n\<rparr>"

definition acl_gid :: "queue_acl \<Rightarrow> int \<Rightarrow> (int \<times> flags) list \<Rightarrow> (int \<times> flags) list" where
  "acl_gid acl g perms =
     (case tfind fst g perms of
        None \<Rightarrow> if \<not> acl_allow acl then perms else tadd (g, 0 OR acl_permissions acl) perms
      | Some _ \<Rightarrow>
          tupd fst g (\<lambda>(g, p). (g, if acl_allow acl then p OR acl_permissions acl
                                   else p AND NOT (acl_permissions acl))) perms)"

definition acl_entry :: "fnmatch \<Rightarrow> string \<Rightarrow> queue_acl \<Rightarrow> (int \<times> flags) list \<Rightarrow> (int \<times> flags) list" where
  "acl_entry fnm name acl perms =
     (if fnm (acl_expr acl) name
      then fold (acl_gid acl) (takeWhile (\<lambda>g. g \<noteq> 0) (acl_gids acl)) perms else perms)"

definition addQueue :: "fnmatch \<Rightarrow> queue \<Rightarrow> bool \<Rightarrow> server \<Rightarrow> server" where
  "addQueue fnm q dirty s =
     (let s = s\<lparr>queueTable := tadd q (queueTable s)\<rparr>;
          s = (if q_def q then setDefaultQueue (q_name q) s else s);
          s = updateQueue (q_name q) dirty s
      in on_queue (q_name q)
           (\<lambda>q. q\<lparr>q_permissions := fold (acl_entry fnm (q_name q)) (queue_acls s) (q_permissions q)\<rparr>) s)"

fun check_groups :: "(int \<times> flags) list \<Rightarrow> flags \<Rightarrow> flags \<Rightarrow> int list \<Rightarrow> int" where
  "check_groups table required perms [] = 1"
| "check_groups table required perms (g # gs) =
     (case tfind fst g table of
        None \<Rightarrow> check_groups table required perms gs
      | Some (_, p) \<Rightarrow>
          (let perms = perms OR p
           in if perms AND required = required then 0 else check_groups table required perms gs))"

definition checkQueueACL :: "client option \<Rightarrow> queue \<Rightarrow> flags \<Rightarrow> int" where
  "checkQueueACL c q required_perms =
     (case c of
        None \<Rightarrow> 0
      | Some c \<Rightarrow>
          if c_uid c = 0 then 0
          else if has_flag (u_permissions (c_user c)) PERM_QUEUE then 0
          else check_groups (q_permissions q) required_perms 0 (u_group_list (c_user c)))"

definition removeQueue :: "string \<Rightarrow> server \<Rightarrow> server" where
  "removeQueue n s = s\<lparr>queueTable := tdel q_name n (queueTable s)\<rparr>"

definition stateDelQueue :: "queue \<Rightarrow> server \<Rightarrow> server" where
  "stateDelQueue q s = s\<lparr>removed_files := removed_files s @ [QueueFile (q_name q)]\<rparr>"

fun cleanup_queue_loop :: "queue list \<Rightarrow> nat \<Rightarrow> nat \<Rightarrow> server \<Rightarrow> nat \<times> server" where
  "cleanup_queue_loop [] max_clean cleaned_up s = (cleaned_up, s)"
| "cleanup_queue_loop (q # qs) max_clean cleaned_up s =
     (if \<not> has_flag (q_internal_state q) JERS_FLAG_DELETED then cleanup_queue_loop qs max_clean cleaned_up s
      else if q_dirty q \<or> has_flag (q_internal_state q) JERS_FLAG_FLUSHING
      then cleanup_queue_loop qs max_clean cleaned_up s
      else (let s = stateDelQueue q s;
                s = s\<lparr>queueTable := tdel q_name (q_name q) (queueTable s)\<rparr>;
                cleaned_up = Suc cleaned_up
            in if cleaned_up \<ge> max_clean then (cleaned_up, s)
               else cleanup_queue_loop qs max_clean cleaned_up s))"

definition cleanupQueues :: "nat \<Rightarrow> server \<Rightarrow> nat \<times> server" where
  "cleanupQueues max_clean s =
     cleanup_queue_loop (queueTable s) (if max_clean = 0 then 10 else max_clean) 0 s"

definition markQueueStopped :: "string \<Rightarrow> server \<Rightarrow> server" where
  "markQueueStopped a s =
     s\<lparr>queueTable := map (\<lambda>q. if q_agent q = Some a
         then q\<lparr>q_agent := None, q_state := clear_flag (q_state q) JERS_QUEUE_FLAG_STARTED\<rparr>
         else q) (queueTable s)\<rparr>"

definition queue_fields :: "server \<Rightarrow> queue \<Rightarrow> field list" where
  "queue_fields s q =
     [str_field QUEUENAME (Some (q_name q))] @
     (case q_desc q of None \<Rightarrow> [] | Some d \<Rightarrow> [str_field DESC (Some d)]) @
     [str_field NODE (Some (q_host q)), num_field JOBLIMIT (q_job_limit q),
      num_field STATE (uint (q_state q)), num_field PRIORITY (q_priority q),
      bool_field DEFAULT (defaultQueue s = Some (q_name q)),
      num_field STATSRUNNING (st_running (q_stats q)), num_field STATSPENDING (st_pending (q_stats q)),
      num_field STATSHOLDING (st_holding (q_stats q)), num_field STATSDEFERRED (st_deferred (q_stats q)),
      num_field STATSCOMPLETED (st_completed (q_stats q)), num_field STATSEXITED (st_exited (q_stats q))]"

definition queueToJSON :: "server \<Rightarrow> queue \<Rightarrow> allocator \<Rightarrow> buff \<Rightarrow> fault + buff" where
  "queueToJSON s q = objectToJSON ''QUEUE'' (queue_fields s q)"

subsection \<open>Permissions computed from the access control lists\<close>

definition perm_of :: "(int \<times> flags) list \<Rightarrow> int \<Rightarrow> flags" where
  "perm_of perms g = (case tfind fst g perms of None \<Rightarrow> 0 | Some (_, p) \<Rightarrow> p)"

lemma perm_of_acl_gid:
  "perm_of (acl_gid acl g perms) h =
   (if h = g then (if acl_allow acl then perm_of perms h OR acl_permissions acl
                   else perm_of perms h AND NOT (acl_permissions acl))
    else perm_of perms h)"
proof -
  let ?f = "\<lambda>(g :: int, p). (g, if acl_allow acl then p OR acl_permissions acl
    else p AND NOT (acl_permissions acl))"
  have upd: "tfind fst h (tupd fst g ?f perms) =
      (if h = g then map_option ?f (tfind fst h perms) else tfind fst h perms)"
    by (rule tfind_tupd) (simp add: split_def)
  show ?thesis
  proof (cases "tfind fst g perms")
    case None
    then show ?thesis by (auto simp: perm_of_def acl_gid_def tfind_tadd split: option.split)
  next
    case (Some gp)
    then show ?thesis
      unfolding perm_of_def acl_gid_def Some option.case upd using Some by (cases gp) simp
  qed
qed

lemma bit_perm_fold_gids:
  "i < 32 \<Longrightarrow> bit (perm_of (fold (acl_gid acl) gs perms) h) i \<longleftrightarrow>
   (if h \<in> set gs \<and> bit (acl_permissions acl) i then acl_allow acl else bit (perm_of perms h) i)"
  by (induction gs arbitrary: perms)
     (auto simp: perm_of_acl_gid bit_or_iff bit_and_iff bit_not_iff_eq)

text \<open>Which entries decide about a bit of a group's permissions on a queue.\<close>

definition acl_decides :: "fnmatch \<Rightarrow> string \<Rightarrow> int \<Rightarrow> nat \<Rightarrow> queue_acl \<Rightarrow> bool" where
  "acl_decides fnm name g i acl \<longleftrightarrow>
     fnm (acl_expr acl) name \<and> g \<in> set (takeWhile (\<lambda>g. g \<noteq> 0) (acl_gids acl)) \<and>
     bit (acl_permissions acl) i"

lemma bit_perm_fold_acls:
  assumes "i < 32"
  shows "bit (perm_of (fold (acl_entry fnm name) acls perms) g) i \<longleftrightarrow>
    (let d = filter (acl_decides fnm name g i) acls
     in if d = [] then bit (perm_of perms g) i else acl_allow (last d))"
proof (induction acls rule: rev_induct)
  case (snoc acl acls)
  have "bit (perm_of (acl_entry fnm name acl ps) g) i \<longleftrightarrow>
      (if acl_decides fnm name g i acl then acl_allow acl else bit (perm_of ps g) i)" for ps
    by (auto simp: acl_entry_def acl_decides_def bit_perm_fold_gids [OF assms])
  with snoc show ?case by (simp add: Let_def)
qed simp

subsection \<open>Invariant\<close>

lemma server_ok_addQueue [inv_rules]:
  assumes "server_ok s" and "findQueue s (q_name q) = None" and "q_stats q = stats_zero"
  shows "server_ok (addQueue fnm q dirty s)"
proof -
  have "q_name q \<notin> q_name ` set (queueTable s)"
    using assms(2) by (simp add: findQueue_def tfind_None_iff)
  moreover have "\<forall>j \<in> set (jobTable s). j_queue j \<in> q_name ` set (queueTable s)"
    using assms(1) by (simp add: server_ok_def tables_ok_def)
  ultimately have none: "\<forall>j \<in> set (jobTable s). j_queue j \<noteq> q_name q" by metis
  have "tcount (\<lambda>j. j_queue j = q_name q \<and> j_state j = st) (jobTable s) = 0" for st
    using none by (auto simp: tcount_def filter_empty_conv)
  then have added: "server_ok (s\<lparr>queueTable := tadd q (queueTable s)\<rparr>)"
    using assms by (auto simp: server_ok_def tables_ok_def counters_ok_def findQueue_def tkeys_tadd
        stats_match_def stat_get_def stats_zero_def)
  have "server_ok (if q_def q then setDefaultQueue (q_name q) (s\<lparr>queueTable := tadd q (queueTable s)\<rparr>)
      else s\<lparr>queueTable := tadd q (queueTable s)\<rparr>)"
    using added by (simp add: setDefaultQueue_def)
  then show ?thesis
    unfolding addQueue_def Let_def by (intro server_ok_on_queue server_ok_updateQueue) simp_all
qed

lemma server_ok_markQueueStopped [inv_rules]: "server_ok s \<Longrightarrow> server_ok (markQueueStopped a s)"
  unfolding markQueueStopped_def by (rule server_ok_map_queues) simp_all

subsection \<open>Checking a client against a queue\<close>

definition groups_perm :: "(int \<times> flags) list \<Rightarrow> int list \<Rightarrow> flags" where
  "groups_perm table gs = fold (\<lambda>g p. p OR perm_of table g) gs 0"

lemma fold_or_start: "fold (\<lambda>g p. p OR f g) gs a = a OR fold (\<lambda>g p. p OR f g) gs (0 :: flags)"
proof (induction gs arbitrary: a)
  case (Cons g gs)
  show ?case
    using Cons.IH [of "a OR f g"] Cons.IH [of "0 OR f g"] by (simp add: or.assoc)
qed simp

lemma groups_perm_Cons: "groups_perm table (g # gs) = perm_of table g OR groups_perm table gs"
  unfolding groups_perm_def using fold_or_start [of "perm_of table" gs "perm_of table g"] by simp

lemma covers_mono: "a AND r = r \<Longrightarrow> (a OR b) AND r = (r :: flags)"
  by (simp add: bit_eq_iff bit_and_iff bit_or_iff) blast

lemma groups_perm_none: "\<forall>g \<in> set gs. tfind fst g table = None \<Longrightarrow> groups_perm table gs = 0"
  by (induction gs) (auto simp: groups_perm_Cons perm_of_def, simp add: groups_perm_def)

lemma check_groups_iff:
  "check_groups table req perms gs = 0 \<longleftrightarrow>
   (\<exists>g \<in> set gs. tfind fst g table \<noteq> None) \<and> (perms OR groups_perm table gs) AND req = req"
proof (induction gs arbitrary: perms)
  case (Cons g gs)
  show ?case
  proof (cases "tfind fst g table")
    case None
    then show ?thesis using Cons.IH by (auto simp: groups_perm_Cons perm_of_def)
  next
    case (Some gp)
    obtain h p where gp: "gp = (h, p)" by (cases gp)
    have p: "perm_of table g = p" using Some gp by (simp add: perm_of_def)
    show ?thesis
    proof (cases "(perms OR p) AND req = req")
      case True
      with Some gp p show ?thesis
        using covers_mono [OF True, of "groups_perm table gs"]
        by (auto simp: groups_perm_Cons or.assoc)
    next
      case False
      moreover have "groups_perm table gs = 0" if "\<not> (\<exists>g \<in> set gs. tfind fst g table \<noteq> None)"
        using that by (intro groups_perm_none) blast
      ultimately show ?thesis
        using Some gp p Cons.IH [of "perms OR p"] by (auto simp: groups_perm_Cons or.assoc)
    qed
  qed
qed simp

section \<open>Properties\<close>

text \<open>Access control entries are applied in their order and the last entry that mentions a
  permission decides: after \<open>addQueue\<close> a group holds a permission bit on the new queue exactly
  when some entry whose pattern matches the queue's name lists the group and the bit, and the
  last such entry is an allow entry. A deny entry for a group not listed yet adds nothing.\<close>

lemma queue_acl_last_wins:
  assumes "findQueue s (q_name q) = None" and "q_permissions q = []" and "i < 32"
  shows "\<exists>q'. findQueue (addQueue fnm q dirty s) (q_name q) = Some q' \<and>
    (\<forall>g. bit (perm_of (q_permissions q') g) i \<longleftrightarrow>
       (let d = filter (acl_decides fnm (q_name q) g i) (queue_acls s) in d \<noteq> [] \<and> acl_allow (last d)))"
proof -
  let ?s1 = "s\<lparr>queueTable := tadd q (queueTable s)\<rparr>"
  let ?s2 = "if q_def q then setDefaultQueue (q_name q) ?s1 else ?s1"
  let ?q = "q\<lparr>q_revision := q_revision q + 1, q_dirty := q_dirty q \<or> dirty\<rparr>"
  have "findQueue ?s2 (q_name q) = Some q"
    using assms(1) by (simp add: findQueue_def tfind_tadd setDefaultQueue_def)
  then have upd: "findQueue (updateQueue (q_name q) dirty ?s2) (q_name q) = Some ?q"
    by (simp add: findQueue_def updateQueue_eq tfind_tupd)
  have acls: "queue_acls (updateQueue (q_name q) dirty ?s2) = queue_acls s"
    by (simp add: updateQueue_eq on_queue_def setDefaultQueue_def)
  have "findQueue (addQueue fnm q dirty s) (q_name q) =
      Some (?q\<lparr>q_permissions := fold (acl_entry fnm (q_name q)) (queue_acls s) []\<rparr>)"
    unfolding addQueue_def Let_def acls
    using upd assms(2) by (simp add: findQueue_def tfind_tupd)
  then show ?thesis
    by (simp add: bit_perm_fold_acls [OF assms(3)] Let_def)
      (simp add: perm_of_def table_simps)
qed

text \<open>\<open>checkQueueACL\<close> grants access exactly to internal callers, to root, to global queue
  administrators, and to a user one of whose groups is listed on the queue and whose groups'
  permissions together contain every required permission.\<close>

theorem checkQueueACL_iff:
  "checkQueueACL c q req = 0 \<longleftrightarrow>
   (case c of
      None \<Rightarrow> True
    | Some c \<Rightarrow> c_uid c = 0 \<or> has_flag (u_permissions (c_user c)) PERM_QUEUE \<or>
        ((\<exists>g \<in> set (u_group_list (c_user c)). tfind fst g (q_permissions q) \<noteq> None) \<and>
         groups_perm (q_permissions q) (u_group_list (c_user c)) AND req = req))"
  by (auto simp: checkQueueACL_def check_groups_iff split: option.split)

end
