(* ===== verification/Jobs.thy ===== *)
theory Jobs
  imports Queue
begin

section \<open>Jobs: the job table, jobs.c and tags.c\<close>

text \<open>
  \<open>src/src/jobs.c\<close> and \<open>src/src/tags.c\<close>: allocating jobids, adding, deleting and cleaning
  up jobs, the list of deferred jobs kept in the order of their release times, and the index
  of jobs by the value of one configured tag.

  \<open>getNextJobID\<close> calls itself after a cleanup and may not return; \<open>None\<close> is no return.
\<close>

unbundle bit_operations_syntax

subsection \<open>The tag index\<close>

definition addIndexTag :: "nat \<Rightarrow> string \<Rightarrow> server \<Rightarrow> server" where
  "addIndexTag k tag_value s =
     (let t = (if tfind fst tag_value (index_tag_table s) = None
               then tadd (tag_value, []) (index_tag_table s) else index_tag_table s)
      in on_job k (\<lambda>j. j\<lparr>j_index_table := Some tag_value\<rparr>)
           (s\<lparr>index_tag_table := tupd fst tag_value (\<lambda>(v, ks). (v, ks @ [k])) t\<rparr>))"

definition delIndexTag :: "nat \<Rightarrow> server \<Rightarrow> server" where
  "delIndexTag k s =
     (case findJob s k of
        None \<Rightarrow> s
      | Some j \<Rightarrow>
          (case j_index_table j of
             None \<Rightarrow> s
           | Some v \<Rightarrow>
               on_job k (\<lambda>j. j\<lparr>j_index_table := None\<rparr>)
                 (s\<lparr>index_tag_table := tupd fst v (\<lambda>(v, ks). (v, remove1 k ks)) (index_tag_table s)\<rparr>)))"

subsection \<open>The deferred list\<close>

definition defer_of :: "server \<Rightarrow> nat \<Rightarrow> int" where
  "defer_of s k = (case findJob s k of Some j \<Rightarrow> j_defer_time j | None \<Rightarrow> 0)"

definition deferCmp :: "server \<Rightarrow> nat \<Rightarrow> nat \<Rightarrow> int" where
  "deferCmp s a b = int64 (defer_of s a - defer_of s b)"

text \<open>\<open>DL_INSERT_INORDER2\<close> puts the new element before the first that is not less.\<close>

fun dl_insert_inorder :: "('a \<Rightarrow> 'a \<Rightarrow> int) \<Rightarrow> 'a \<Rightarrow> 'a list \<Rightarrow> 'a list" where
  "dl_insert_inorder cmp x [] = [x]"
| "dl_insert_inorder cmp x (y # ys) =
     (if cmp y x \<ge> 0 then x # y # ys else y # dl_insert_inorder cmp x ys)"

definition addDeferredJob :: "nat \<Rightarrow> server \<Rightarrow> server" where
  "addDeferredJob k s = s\<lparr>deferred_list := dl_insert_inorder (deferCmp s) k (deferred_list s)\<rparr>"

definition removeDeferredJob :: "nat \<Rightarrow> server \<Rightarrow> server" where
  "removeDeferredJob k s = s\<lparr>deferred_list := remove1 k (deferred_list s)\<rparr>"

subsection \<open>Cleaning up deleted jobs\<close>

definition stateDelJob :: "nat \<Rightarrow> server \<Rightarrow> server" where
  "stateDelJob k s = s\<lparr>removed_files := removed_files s @ [JobFile k]\<rparr>"

fun null_first :: "nat \<Rightarrow> nat option list \<Rightarrow> nat option list" where
  "null_first k [] = []"
| "null_first k (x # xs) = (if x = Some k then None # xs else x # null_first k xs)"

definition cleanupJob :: "nat \<Rightarrow> server \<Rightarrow> int \<times> server" where
  "cleanupJob k s =
     (case findJob s k of
        None \<Rightarrow> (1, s)
      | Some j \<Rightarrow>
          if j_dirty j \<or> has_flag (j_internal_state j) JERS_FLAG_FLUSHING then (1, s)
          else (let s = stateDelJob k s;
                    s1 = (if index_tag s \<noteq> None then delIndexTag k s else s);
                    s = s1\<lparr>jobTable := tdel j_jobid k (jobTable s1),
                          candidate_pool := null_first k (candidate_pool s1)\<rparr>
                in (0, s\<lparr>deleted := uint32 (deleted s - 1)\<rparr>)))"

fun cleanup_jobs_loop :: "job list \<Rightarrow> nat \<Rightarrow> nat \<Rightarrow> server \<Rightarrow> nat \<times> server" where
  "cleanup_jobs_loop [] max_clean cleaned_up s = (cleaned_up, s)"
| "cleanup_jobs_loop (j # js) max_clean cleaned_up s =
     (if \<not> has_flag (j_internal_state j) JERS_FLAG_DELETED then cleanup_jobs_loop js max_clean cleaned_up s
      else (let s = snd (cleanupJob (j_jobid j) s); cleaned_up = Suc cleaned_up
            in if cleaned_up \<ge> max_clean then (cleaned_up, s)
               else cleanup_jobs_loop js max_clean cleaned_up s))"

definition cleanupJobs :: "nat \<Rightarrow> server \<Rightarrow> nat \<times> server" where
  "cleanupJobs max_clean s =
     (if deleted s = 0 then (0, s)
      else cleanup_jobs_loop (jobTable s) (if max_clean = 0 then 10 else max_clean) 0 s)"

subsection \<open>Jobids\<close>

fun next_free :: "server \<Rightarrow> nat \<Rightarrow> nat \<Rightarrow> nat option" where
  "next_free s 0 jid = None"
| "next_free s (Suc i) jid =
     (let jid = (jid + 1) mod 2 ^ 32; jid = (if jid > max_jobid s then 1 else jid)
      in if findJob s jid = None then Some jid else next_free s i jid)"

partial_function (option) getNextJobID :: "server \<Rightarrow> (nat \<times> server) option" where
  "getNextJobID s =
     (case next_free s (max_jobid s) (start_jobid s) of
        Some jid \<Rightarrow> Some (jid, s\<lparr>start_jobid := jid\<rparr>)
      | None \<Rightarrow>
          (case cleanupJobs 5 s of
             (n, s') \<Rightarrow> if n \<noteq> 0 then getNextJobID s' else Some (0, s')))"

subsection \<open>Adding and deleting\<close>

fun index_new_job :: "string \<Rightarrow> nat \<Rightarrow> (string \<times> string option) list \<Rightarrow> server \<Rightarrow> server" where
  "index_new_job tag k [] s = s"
| "index_new_job tag k ((key, v) # kvs) s =
     (if key = tag then addIndexTag k (case v of Some x \<Rightarrow> x | None \<Rightarrow> []) s
      else index_new_job tag k kvs s)"

definition addJob :: "job \<Rightarrow> bool \<Rightarrow> server \<Rightarrow> int \<times> server" where
  "addJob j dirty s =
     (let k = j_jobid j
      in if findJob s k \<noteq> None then (1, s)
         else (let s = s\<lparr>jobTable := tadd (j\<lparr>j_state := 0\<rparr>) (jobTable s)\<rparr>;
                   s = (case index_tag s of None \<Rightarrow> s | Some tag \<Rightarrow> index_new_job tag k (j_tags j) s);
                   s = (if j_defer_time j \<noteq> 0 then addDeferredJob k s else s)
               in (0, changeJobState k (j_state j) None dirty s)))"

definition deleteJob :: "nat \<Rightarrow> server \<Rightarrow> server" where
  "deleteJob k s =
     (let s = on_job k (\<lambda>j. j\<lparr>j_internal_state := set_flag (j_internal_state j) JERS_FLAG_DELETED\<rparr>) s;
          s = changeJobState k 0 None False s;
          s = (if defer_of s k \<noteq> 0 then removeDeferredJob k s else s)
      in s\<lparr>stats_total := (stats_total s)\<lparr>t_deleted := t_deleted (stats_total s) + 1\<rparr>,
           deleted := uint32 (deleted s + 1)\<rparr>)"

definition job_agent :: "server \<Rightarrow> job \<Rightarrow> string option" where
  "job_agent s j = (case findQueue s (j_queue j) of Some q \<Rightarrow> q_agent q | None \<Rightarrow> None)"

definition mark_unknown :: "string \<Rightarrow> nat \<Rightarrow> server \<Rightarrow> server" where
  "mark_unknown a k s =
     (case findJob s k of
        None \<Rightarrow> s
      | Some j \<Rightarrow>
          if job_agent s j = Some a \<and>
             (has_flag (j_state j) JERS_JOB_RUNNING \<or>
              has_flag (j_internal_state j) JERS_FLAG_JOB_STARTED)
          then changeJobState k JERS_JOB_UNKNOWN None True (on_job k (\<lambda>j. j\<lparr>j_internal_state := 0\<rparr>) s)
          else s)"

definition markJobsUnknown :: "string \<Rightarrow> server \<Rightarrow> server" where
  "markJobsUnknown a s = fold (mark_unknown a) (map j_jobid (jobTable s)) s"

subsection \<open>JSON\<close>

definition opt_str :: "nat \<Rightarrow> string option \<Rightarrow> field list" where
  "opt_str n v = (case v of None \<Rightarrow> [] | Some x \<Rightarrow> [str_field n (Some x)])"

definition opt_num :: "nat \<Rightarrow> int \<Rightarrow> field list" where
  "opt_num n v = (if v = 0 then [] else [num_field n v])"

definition job_host :: "server \<Rightarrow> job \<Rightarrow> string option" where
  "job_host s j = map_option q_host (findQueue s (j_queue j))"

text \<open>The accounting record of a job; \<open>PRECMD\<close> and \<open>POSTCMD\<close> carry each other's value.\<close>

definition job_json_fields :: "server \<Rightarrow> job \<Rightarrow> field list" where
  "job_json_fields s j =
     [num_field JOBID (int (j_jobid j)), str_field JOBNAME (Some (j_jobname j)),
      str_field QUEUENAME (Some (j_queue j)), num_field STATE (uint (j_state j)),
      num_field UID (j_uid j), num_field SUBMITTER (j_submitter j),
      num_field PRIORITY (j_priority j), num_field SUBMITTIME (j_submit_time j),
      num_field NICE (j_nice j), array_field ARGS (j_argv j), str_field NODE (job_host s j),
      str_field STDOUT (j_stdout j), str_field STDERR (j_stderr j)] @
     opt_num DEFERTIME (j_defer_time j) @ opt_num STARTTIME (j_start_time j) @
     opt_num FINISHTIME (j_finish_time j) @
     (if j_tags j = [] then [] else [map_field TAGS (j_tags j)]) @
     opt_str SHELL (j_shell j) @ opt_str POSTCMD (j_pre_cmd j) @ opt_str PRECMD (j_post_cmd j) @
     (if j_req_resources j = [] then []
      else [strs_field RESOURCES (convertResourceToStrings (j_req_resources j))]) @
     opt_num JOBPID (j_pid j) @
     [num_field EXITCODE (j_exitcode j), num_field SIGNAL (j_signal j)] @
     opt_num PENDREASON (j_pend_reason j) @ opt_num FAILREASON (j_fail_reason j)"

definition jobToJSON :: "server \<Rightarrow> job \<Rightarrow> allocator \<Rightarrow> buff \<Rightarrow> fault + buff" where
  "jobToJSON s j = objectToJSON ''JOB'' (job_json_fields s j)"

subsection \<open>Invariant\<close>

lemma findJob_frame [simp]:
  "findJob (s\<lparr>deferred_list := x\<rparr>) k = findJob s k" "findJob (s\<lparr>index_tag_table := y\<rparr>) k = findJob s k"
  "findJob (s\<lparr>stats_total := z\<rparr>) k = findJob s k" "findJob (s\<lparr>start_jobid := w\<rparr>) k = findJob s k"
  "findJob (s\<lparr>candidate_recalc := v\<rparr>) k = findJob s k" "findJob (s\<lparr>deleted := u\<rparr>) k = findJob s k"
  "findJob (s\<lparr>removed_files := t\<rparr>) k = findJob s k"
  by (simp_all add: findJob_def)

lemma server_ok_addIndexTag [inv_rules]: "server_ok s \<Longrightarrow> server_ok (addIndexTag k v s)"
  unfolding addIndexTag_def Let_def by (rule server_ok_on_job) simp_all

lemma server_ok_index_new_job [inv_rules]: "server_ok s \<Longrightarrow> server_ok (index_new_job tag k kvs s)"
  by (induction tag k kvs s rule: index_new_job.induct) (auto intro: server_ok_addIndexTag)

lemma server_ok_delIndexTag [inv_rules]: "server_ok s \<Longrightarrow> server_ok (delIndexTag k s)"
  by (auto simp: delIndexTag_def split: option.splits intro!: server_ok_on_job)

lemma server_ok_deferred [inv_rules]:
  "server_ok s \<Longrightarrow> server_ok (addDeferredJob k s)" "server_ok s \<Longrightarrow> server_ok (removeDeferredJob k s)"
  by (simp_all add: addDeferredJob_def removeDeferredJob_def)

lemma zero_not_state [simp]: "0 \<notin> job_states"
  by (simp add: job_states_def)

lemma server_ok_add_uncounted:
  assumes "server_ok s" and "findJob s (j_jobid j) = None" and "findQueue s (j_queue j) \<noteq> None"
    and "j_state j \<notin> job_states"
  shows "server_ok (s\<lparr>jobTable := tadd j (jobTable s)\<rparr>)"
proof -
  have "j_queue j \<in> q_name ` set (queueTable s)"
    using assms(3) by (auto simp: findQueue_def tfind_None_iff)
  then have "tables_ok (s\<lparr>jobTable := tadd j (jobTable s)\<rparr>)"
    using assms(1,2) by (auto simp: server_ok_def tables_ok_def findJob_def tkeys_tadd)
  moreover have "counters_ok (s\<lparr>jobTable := tadd j (jobTable s)\<rparr>)"
    using assms(1,4) by (auto simp: server_ok_def counters_ok_def stats_match_def)
  ultimately show ?thesis by (simp add: server_ok_def)
qed

theorem server_ok_addJob [inv_rules]:
  assumes "server_ok s" and "findQueue s (j_queue j) \<noteq> None"
  shows "server_ok (snd (addJob j dirty s))"
proof (cases "findJob s (j_jobid j) = None")
  case True
  then have "server_ok (s\<lparr>jobTable := tadd (j\<lparr>j_state := 0\<rparr>) (jobTable s)\<rparr>)"
    using assms by (intro server_ok_add_uncounted) simp_all
  then show ?thesis
    using True by (auto simp: addJob_def Let_def split: option.split
        intro!: changeJobState_ok server_ok_deferred server_ok_index_new_job)
next
  case False
  with assms show ?thesis by (auto simp: addJob_def Let_def)
qed

lemma server_ok_deleteJob [inv_rules]: "server_ok s \<Longrightarrow> server_ok (deleteJob k s)"
  by (auto simp: deleteJob_def Let_def intro!: changeJobState_ok server_ok_deferred server_ok_on_job)

lemma server_ok_mark_unknown: "server_ok s \<Longrightarrow> server_ok (mark_unknown a k s)"
  by (auto simp: mark_unknown_def split: option.split intro!: changeJobState_ok server_ok_on_job)

lemma server_ok_markJobsUnknown [inv_rules]: "server_ok s \<Longrightarrow> server_ok (markJobsUnknown a s)"
proof -
  have "server_ok s \<Longrightarrow> server_ok (fold (mark_unknown a) ks s)" for ks
    by (induction ks arbitrary: s) (auto intro: server_ok_mark_unknown)
  then show "server_ok s \<Longrightarrow> server_ok (markJobsUnknown a s)" by (simp add: markJobsUnknown_def)
qed

text \<open>A job is only cleaned up when no counter counts it any more.\<close>

lemma server_ok_del_uncounted:
  assumes "server_ok s" and "findJob s k = Some j" and "j_state j \<notin> job_states"
  shows "server_ok (s\<lparr>jobTable := tdel j_jobid k (jobTable s)\<rparr>)"
proof -
  have keys: "tkeys j_jobid (jobTable s)" using assms(1) by (simp add: server_ok_def tables_ok_def)
  note count = tcount_tdel [OF keys assms(2) [unfolded findJob_def]]
  have "tables_ok (s\<lparr>jobTable := tdel j_jobid k (jobTable s)\<rparr>)"
    using assms(1) by (auto simp: server_ok_def tables_ok_def tkeys_tdel set_tdel)
  moreover have "counters_ok (s\<lparr>jobTable := tdel j_jobid k (jobTable s)\<rparr>)"
    using assms(1,3) by (auto simp: server_ok_def counters_ok_def stats_match_def count)
  ultimately show ?thesis by (simp add: server_ok_def)
qed

lemma findJob_delIndexTag:
  "findJob s k = Some j \<Longrightarrow> \<exists>j'. findJob (delIndexTag k s) k = Some j' \<and> j_state j' = j_state j"
  by (auto simp: delIndexTag_def findJob_def tfind_tupd split: option.split)

lemma server_ok_cleanupJob [inv_rules]:
  assumes "server_ok s" and "\<And>j. findJob s k = Some j \<Longrightarrow> j_state j \<notin> job_states"
  shows "server_ok (snd (cleanupJob k s))"
proof (cases "findJob s k")
  case None
  with assms show ?thesis by (simp add: cleanupJob_def)
next
  case (Some j)
  let ?s = "if index_tag (stateDelJob k s) \<noteq> None then delIndexTag k (stateDelJob k s) else stateDelJob k s"
  have find: "findJob (stateDelJob k s) k = Some j" using Some by (simp add: stateDelJob_def)
  have ok: "server_ok ?s" using assms(1) by (simp add: stateDelJob_def server_ok_delIndexTag)
  obtain j' where "findJob ?s k = Some j'" "j_state j' = j_state j"
    using find findJob_delIndexTag [OF find] by (cases "index_tag (stateDelJob k s) \<noteq> None") auto
  then have "server_ok (?s\<lparr>jobTable := tdel j_jobid k (jobTable ?s)\<rparr>)"
    using assms(2) [OF Some] by (intro server_ok_del_uncounted [OF ok, of k j']) simp_all
  then show ?thesis using assms(1) Some by (auto simp: cleanupJob_def Let_def)
qed

subsection \<open>Jobids\<close>

lemma next_free_find:
  assumes "0 < max_jobid s" and "max_jobid s < 2 ^ 32 - 1"
  shows "jid \<le> max_jobid s \<Longrightarrow>
    next_free s i jid = find (\<lambda>k. findJob s k = None) (map (\<lambda>n. (jid + n) mod max_jobid s + 1) [0..<i])"
proof (induction i arbitrary: jid)
  case (Suc i)
  let ?m = "max_jobid s"
  have step: "(let jid = (jid + 1) mod 2 ^ 32 in if jid > ?m then 1 else jid) = jid mod ?m + 1"
  proof (cases "jid = ?m")
    case True
    then have "(jid + 1) mod 2 ^ 32 = jid + 1" using assms(2) by simp
    then show ?thesis using True assms by simp
  next
    case False
    then have "jid < ?m" and "(jid + 1) mod 2 ^ 32 = jid + 1" using Suc.prems assms(2) by simp_all
    then show ?thesis by (simp add: Let_def)
  qed
  have le: "jid mod ?m + 1 \<le> ?m" using assms(1) by (simp add: Suc_leI)
  have shift: "(jid mod ?m + 1 + n) mod ?m = (jid + Suc n) mod ?m" for n
  proof -
    have "jid mod ?m + 1 + n = jid mod ?m + Suc n" by simp
    then show ?thesis by (simp only: mod_add_left_eq)
  qed
  have "[0..<Suc i] = 0 # map Suc [0..<i]" by (simp add: map_Suc_upt upt_conv_Cons del: upt_Suc)
  then have "find (\<lambda>k. findJob s k = None) (map (\<lambda>n. (jid + n) mod ?m + 1) [0..<Suc i]) =
      (if findJob s (jid mod ?m + 1) = None then Some (jid mod ?m + 1)
       else find (\<lambda>k. findJob s k = None) (map (\<lambda>n. (jid + Suc n) mod ?m + 1) [0..<i]))"
    by (simp add: comp_def del: upt_Suc)
  moreover have "next_free s (Suc i) jid = (if findJob s (jid mod ?m + 1) = None
      then Some (jid mod ?m + 1) else next_free s i (jid mod ?m + 1))"
    using step by (simp add: Let_def)
  ultimately show ?case by (simp only: Suc.IH [OF le] shift)
qed simp

lemma visited_all:
  assumes "0 < m" and "1 \<le> t" and "t \<le> (m :: nat)"
  shows "\<exists>n < m. (jid + n) mod m + 1 = t"
proof -
  let ?n = "(t - 1 + (m - jid mod m)) mod m"
  have "(jid + ?n) mod m = (jid mod m + (t - 1 + (m - jid mod m))) mod m"
    by (simp add: mod_simps)
  also have "jid mod m + (t - 1 + (m - jid mod m)) = t - 1 + m"
    using mod_less_divisor [OF assms(1), of jid] by simp
  finally have "(jid + ?n) mod m = (t - 1 + m) mod m" .
  then have "(jid + ?n) mod m = t - 1" using assms by (simp del: add_diff_assoc2)
  then show ?thesis using assms by (intro exI [of _ ?n]) simp
qed

lemma next_free_None:
  assumes "0 < max_jobid s" and "max_jobid s < 2 ^ 32 - 1" and "jid \<le> max_jobid s"
  shows "next_free s (max_jobid s) jid = None \<longleftrightarrow> (\<forall>t \<in> {1..max_jobid s}. findJob s t \<noteq> None)"
proof
  assume n: "next_free s (max_jobid s) jid = None"
  show "\<forall>t \<in> {1..max_jobid s}. findJob s t \<noteq> None"
  proof
    fix t assume "t \<in> {1..max_jobid s}"
    then obtain i where "i < max_jobid s" "(jid + i) mod max_jobid s + 1 = t"
      using visited_all [OF assms(1)] by fastforce
    with n show "findJob s t \<noteq> None"
      unfolding next_free_find [OF assms(1,2,3)] by (fastforce simp: find_None_iff)
  qed
next
  assume "\<forall>t \<in> {1..max_jobid s}. findJob s t \<noteq> None"
  then show "next_free s (max_jobid s) jid = None"
    using assms(1) unfolding next_free_find [OF assms] by (auto simp: find_None_iff Suc_leI)
qed

lemma next_free_Some:
  assumes "0 < max_jobid s" and "max_jobid s < 2 ^ 32 - 1" and "jid \<le> max_jobid s"
    and "next_free s i jid = Some k"
  shows "1 \<le> k \<and> k \<le> max_jobid s \<and> findJob s k = None"
  using assms(4) mod_less_divisor [OF assms(1)] unfolding next_free_find [OF assms(1,2,3)]
  by (auto simp: find_Some_iff Suc_leI)

text \<open>When the deleted jobs cannot be cleaned up yet, a cleanup changes nothing.\<close>

definition uncleanable :: "server \<Rightarrow> bool" where
  "uncleanable s \<longleftrightarrow> (\<forall>j \<in> set (jobTable s). has_flag (j_internal_state j) JERS_FLAG_DELETED \<longrightarrow>
     j_dirty j \<or> has_flag (j_internal_state j) JERS_FLAG_FLUSHING)"

lemma cleanup_loop_stuck:
  assumes "tkeys j_jobid (jobTable s)" and "uncleanable s"
  shows "set js \<subseteq> set (jobTable s) \<Longrightarrow>
    snd (cleanup_jobs_loop js m n s) = s \<and> n \<le> fst (cleanup_jobs_loop js m n s) \<and>
    ((\<exists>j \<in> set js. has_flag (j_internal_state j) JERS_FLAG_DELETED) \<longrightarrow>
     n < fst (cleanup_jobs_loop js m n s))"
proof (induction js arbitrary: n)
  case (Cons j js)
  show ?case
  proof (cases "has_flag (j_internal_state j) JERS_FLAG_DELETED")
    case True
    have "findJob s (j_jobid j) = Some j"
      using Cons.prems assms(1) by (simp add: findJob_def tfind_mem)
    then have "snd (cleanupJob (j_jobid j) s) = s"
      using True Cons.prems assms(2) by (simp add: cleanupJob_def uncleanable_def)
    with True Cons.IH [of "Suc n"] Cons.prems show ?thesis by (auto simp: Let_def)
  next
    case False
    with Cons show ?thesis by simp
  qed
qed simp

definition stuck :: "server \<Rightarrow> bool" where
  "stuck s \<longleftrightarrow> tkeys j_jobid (jobTable s) \<and> uncleanable s \<and> deleted s \<noteq> 0 \<and>
     (\<exists>j \<in> set (jobTable s). has_flag (j_internal_state j) JERS_FLAG_DELETED) \<and>
     next_free s (max_jobid s) (start_jobid s) = None"

lemma cleanupJobs_stuck:
  assumes "stuck s"
  shows "\<exists>n. n \<noteq> 0 \<and> cleanupJobs m s = (n, s)"
proof -
  let ?r = "cleanup_jobs_loop (jobTable s) (if m = 0 then 10 else m) 0 s"
  have keys: "tkeys j_jobid (jobTable s)" and un: "uncleanable s"
    and del: "\<exists>j \<in> set (jobTable s). has_flag (j_internal_state j) JERS_FLAG_DELETED"
    using assms by (simp_all add: stuck_def)
  have "snd ?r = s" and "0 < fst ?r"
    using cleanup_loop_stuck [OF keys un subset_refl, of "if m = 0 then 10 else m" 0] del by simp_all
  with assms show ?thesis
    by (intro exI [of _ "fst ?r"]) (simp add: cleanupJobs_def stuck_def prod_eq_iff)
qed

lemma getNextJobID_stuck: "getNextJobID s = Some r \<Longrightarrow> \<not> stuck s"
proof (rule getNextJobID.raw_induct [where P = "\<lambda>s r. \<not> stuck s"])
  fix f :: "server \<Rightarrow> (nat \<times> server) option" and s :: server and r
  assume IH: "\<And>x y. f x = Some y \<Longrightarrow> \<not> stuck x"
    and body: "(case next_free s (max_jobid s) (start_jobid s) of
        None \<Rightarrow> case cleanupJobs 5 s of (n, s') \<Rightarrow> if n \<noteq> 0 then f s' else Some (0, s')
      | Some jid \<Rightarrow> Some (jid, s\<lparr>start_jobid := jid\<rparr>)) = Some r"
  show "\<not> stuck s"
  proof
    assume st: "stuck s"
    then obtain n where "n \<noteq> 0" "cleanupJobs 5 s = (n, s)" using cleanupJobs_stuck by blast
    with body st have "f s = Some r" by (simp add: stuck_def)
    with IH st show False by blast
  qed
qed

subsection \<open>The deferred list\<close>

definition deferred_now :: "server \<Rightarrow> nat set" where
  "deferred_now s = {k. \<exists>j. findJob s k = Some j \<and> j_defer_time j \<noteq> 0 \<and>
     \<not> has_flag (j_internal_state j) JERS_FLAG_DELETED}"

definition deferred_ok :: "server \<Rightarrow> bool" where
  "deferred_ok s \<longleftrightarrow> distinct (deferred_list s) \<and> set (deferred_list s) = deferred_now s \<and>
     sorted_wrt (\<lambda>a b. defer_of s a \<le> defer_of s b) (deferred_list s) \<and>
     (\<forall>j \<in> set (jobTable s). \<bar>j_defer_time j\<bar> < 2 ^ 62)"

lemma set_dl_insert [simp]: "set (dl_insert_inorder cmp x ys) = insert x (set ys)"
  by (induction ys) auto

lemma distinct_dl_insert: "x \<notin> set ys \<Longrightarrow> distinct ys \<Longrightarrow> distinct (dl_insert_inorder cmp x ys)"
  by (induction ys) auto

lemma sorted_dl_insert:
  assumes "\<And>y. y \<in> set ys \<Longrightarrow> cmp y x = t y - t x"
  shows "sorted_wrt (\<lambda>a b. t a \<le> (t b :: int)) ys \<Longrightarrow>
    sorted_wrt (\<lambda>a b. t a \<le> t b) (dl_insert_inorder cmp x ys)"
  using assms by (induction ys) fastforce+

lemma deferCmp_exact:
  assumes "\<bar>defer_of s a\<bar> < 2 ^ 62" and "\<bar>defer_of s b\<bar> < 2 ^ 62"
  shows "deferCmp s a b = defer_of s a - defer_of s b"
  unfolding deferCmp_def using assms by (intro cint_id) auto

lemma defer_of_bound:
  "\<forall>j \<in> set (jobTable s). \<bar>j_defer_time j\<bar> < 2 ^ 62 \<Longrightarrow> \<bar>defer_of s k\<bar> < 2 ^ 62"
  by (auto simp: defer_of_def findJob_def split: option.split dest: tfind_SomeD)

text \<open>Inserting a job that has just been given a release time keeps the list in order.\<close>

lemma addDeferredJob_ok:
  assumes "distinct (deferred_list s)" and "set (deferred_list s) = deferred_now s - {k}"
    and "k \<in> deferred_now s"
    and "sorted_wrt (\<lambda>a b. defer_of s a \<le> defer_of s b) (deferred_list s)"
    and "\<forall>j \<in> set (jobTable s). \<bar>j_defer_time j\<bar> < 2 ^ 62"
  shows "deferred_ok (addDeferredJob k s)"
proof -
  have same: "defer_of (s\<lparr>deferred_list := x\<rparr>) = defer_of s" "deferred_now (s\<lparr>deferred_list := x\<rparr>) = deferred_now s" for x
    by (simp_all add: defer_of_def [abs_def] deferred_now_def)
  have "sorted_wrt (\<lambda>a b. defer_of s a \<le> defer_of s b)
      (dl_insert_inorder (deferCmp s) k (deferred_list s))"
    by (intro sorted_dl_insert deferCmp_exact defer_of_bound assms)
  with assms show ?thesis
    by (auto simp: deferred_ok_def addDeferredJob_def same intro!: distinct_dl_insert)
qed

section \<open>Properties\<close>



text \<open>When every jobid is taken and the deleted jobs are still dirty or being flushed,
  \<open>getNextJobID\<close> never returns: \<open>cleanupJobs\<close> counts the jobs it could not clean up, so the
  recursion that should only retry after a successful cleanup retries for ever.\<close>

theorem getNextJobID_diverges:
  assumes "0 < max_jobid s" and "max_jobid s < 2 ^ 32 - 1" and "start_jobid s \<le> max_jobid s"
    and "tkeys j_jobid (jobTable s)" and "\<forall>t \<in> {1..max_jobid s}. findJob s t \<noteq> None"
    and "deleted s \<noteq> 0" and "uncleanable s"
    and "\<exists>j \<in> set (jobTable s). has_flag (j_internal_state j) JERS_FLAG_DELETED"
  shows "getNextJobID s = None"
proof -
  have "stuck s" using assms next_free_None [OF assms(1,2,3)] by (simp add: stuck_def)
  then show ?thesis using getNextJobID_stuck by (cases "getNextJobID s") auto
qed

theorem getNextJobID_diverges_witness:
  "getNextJobID (init_server\<lparr>max_jobid := 1, deleted := 1,
     jobTable := [job_zero\<lparr>j_jobid := 1, j_dirty := True, j_internal_state := JERS_FLAG_DELETED\<rparr>]\<rparr>) = None"
  by (rule getNextJobID_diverges)
     (simp_all add: init_server_def tkeys_def findJob_def table_simps uncleanable_def has_flag_def)

end
