(* ===== verification/Sched.thy ===== *)
theory Sched
  imports Jobs
begin

section \<open>Sched: the scheduler, sched.c\<close>

text \<open>
  \<open>src/src/sched.c\<close>. \<open>releaseDeferred\<close> turns deferred jobs whose time has come into
  pending ones, \<open>generateCandidatePool\<close> sorts the pending jobs, \<open>checkJobs\<close> walks that pool
  and starts the jobs that may run. The pool is an array of a given capacity; a store behind
  it is the fault \<open>Overflow\<close>.
\<close>

unbundle bit_operations_syntax

subsection \<open>Operations\<close>

definition queue_prio :: "server \<Rightarrow> job \<Rightarrow> int" where
  "queue_prio s j = (case findQueue s (j_queue j) of Some q \<Rightarrow> q_priority q | None \<Rightarrow> 0)"

text \<open>\<open>__comp\<close>: the queue's priority, then the job's, both descending, then the jobid.\<close>

definition sched_comp :: "server \<Rightarrow> job \<Rightarrow> job \<Rightarrow> int" where
  "sched_comp s a b =
     (let r = int32 (queue_prio s b - queue_prio s a)
      in if r \<noteq> 0 then r
         else (let r = int32 (j_priority b - j_priority a)
               in if r \<noteq> 0 then r else int32 (int (j_jobid a) - int (j_jobid b))))"

definition start_nice :: "server \<Rightarrow> job \<Rightarrow> int" where
  "start_nice s j =
     (let qn = (case findQueue s (j_queue j) of Some q \<Rightarrow> q_nice q | None \<Rightarrow> UNSET_32)
      in if j_nice j \<noteq> UNSET_32 then j_nice j
         else if qn \<noteq> UNSET_32 then qn else default_job_nice s)"

definition start_fields :: "server \<Rightarrow> job \<Rightarrow> field list" where
  "start_fields s j =
     [num_field JOBID (int (j_jobid j)), str_field JOBNAME (Some (j_jobname j)),
      str_field QUEUENAME (Some (j_queue j)), num_field UID (j_uid j),
      num_field NICE (start_nice s j)] @
     opt_str SHELL (j_shell j) @
     (case j_wrapper j of
        Some w \<Rightarrow> [str_field WRAPPER (Some w)]
      | None \<Rightarrow> opt_str PRECMD (j_pre_cmd j) @ opt_str POSTCMD (j_post_cmd j)) @
     [array_field ARGS (j_argv j)] @
     (if j_envs j = [] then [] else [array_field ENVS (j_envs j)]) @
     opt_str STDOUT (j_stdout j) @ opt_str STDERR (j_stderr j) @
     (if j_req_resources j = [] then []
      else [strs_field RESOURCES (convertResourceToStrings (j_req_resources j))]) @
     opt_num FLAGS (j_flags j)"

definition sendAgentMessage :: "string option \<Rightarrow> request \<Rightarrow> server \<Rightarrow> server" where
  "sendAgentMessage a r s =
     (case a of None \<Rightarrow> s | Some h \<Rightarrow> on_agent h (\<lambda>x. x\<lparr>a_sent := a_sent x @ [r]\<rparr>) s)"

definition sendStartCmd :: "job \<Rightarrow> server \<Rightarrow> server" where
  "sendStartCmd j s = sendAgentMessage (job_agent s j) (''START_JOB'', 1, start_fields s j) s"

text \<open>\<open>releaseDeferred\<close>, with the current time as argument.\<close>

fun release_loop :: "int \<Rightarrow> nat list \<Rightarrow> nat \<Rightarrow> server \<Rightarrow> nat \<times> server" where
  "release_loop now [] released s = (released, s)"
| "release_loop now (k # ks) released s =
     (if now < defer_of s k then (released, s)
      else release_loop now ks (Suc released)
             (removeDeferredJob k
               (changeJobState k JERS_JOB_PENDING None False
                 (on_job k (\<lambda>j. j\<lparr>j_defer_time := 0\<rparr>) s))))"

definition releaseDeferred :: "int \<Rightarrow> server \<Rightarrow> server" where
  "releaseDeferred now s =
     (let (released, s) = release_loop now (deferred_list s) 0 s
      in if released \<noteq> 0 then s\<lparr>candidate_recalc := True\<rparr> else s)"

definition is_candidate :: "job \<Rightarrow> bool" where
  "is_candidate j \<longleftrightarrow>
     \<not> has_flag (j_internal_state j) JERS_FLAG_DELETED \<and> j_state j = JERS_JOB_PENDING"

definition generateCandidatePool :: "server \<Rightarrow> fault + server" where
  "generateCandidatePool s =
     (let st = stats_jobs s;
          total_job_count = st_pending st + st_deferred st + st_holding st;
          s = (if candidate_pool_size s < total_job_count
               then s\<lparr>candidate_pool_size := total_job_count * 3 div 2\<rparr> else s)
      in if st_pending st = 0 then Inr (s\<lparr>candidate_pool := [], candidate_recalc := False\<rparr>)
         else (let cs = filter is_candidate (jobTable s)
               in if candidate_pool_size s < int (length cs) then Inl Overflow
                  else Inr (s\<lparr>candidate_pool := map (\<lambda>j. Some (j_jobid j)) (qsort (sched_comp s) cs),
                              candidate_recalc := False\<rparr>)))"

text \<open>Why a pending job cannot be started now, \<open>JERS_PEND_NOREASON\<close> if it can.\<close>

definition pend_check :: "server \<Rightarrow> job \<Rightarrow> int" where
  "pend_check s j =
     (case findQueue s (j_queue j) of
        None \<Rightarrow> JERS_PEND_AGENTDOWN
      | Some q \<Rightarrow>
          if max_run_jobs s \<noteq> UNLIMITED_JOBS \<and>
             st_running (stats_jobs s) + st_start_pending (stats_jobs s) > max_run_jobs s
          then JERS_PEND_SYSTEMFULL
          else if st_running (q_stats q) + st_start_pending (q_stats q) \<ge> q_job_limit q
          then JERS_PEND_QUEUEFULL
          else if j_req_resources j \<noteq> [] \<and> checkRes s j then JERS_PEND_NORES
          else if \<not> has_flag (q_state q) JERS_QUEUE_FLAG_STARTED then JERS_PEND_QUEUESTOPPED
          else (case q_agent q of
                  None \<Rightarrow> JERS_PEND_AGENTDOWN
                | Some h \<Rightarrow>
                    (case findAgent s h of
                       None \<Rightarrow> JERS_PEND_AGENTDOWN
                     | Some a \<Rightarrow> if \<not> a_logged_in a then JERS_PEND_AGENTDOWN
                                else if a_recon a then JERS_PEND_RECON
                                else JERS_PEND_NOREASON)))"

definition startJob :: "job \<Rightarrow> server \<Rightarrow> server" where
  "startJob j s =
     (let k = j_jobid j;
          s = (if j_req_resources j \<noteq> [] then allocateRes j s else s);
          s = sendStartCmd j s;
          s = on_job k (\<lambda>j. j\<lparr>j_internal_state := set_flag (j_internal_state j) JERS_FLAG_JOB_STARTED,
                              j_pend_reason := JERS_PEND_AGENT\<rparr>) s
      in count_state (j_queue j) (start_pending_add 1) s)"

definition waiting :: "job \<Rightarrow> bool" where
  "waiting j \<longleftrightarrow>
     j_state j = JERS_JOB_PENDING \<and> \<not> has_flag (j_internal_state j) JERS_FLAG_JOB_STARTED"

fun check_loop :: "int \<Rightarrow> int \<Rightarrow> nat option list \<Rightarrow> server \<Rightarrow> server" where
  "check_loop jobs_to_start started [] s = s"
| "check_loop jobs_to_start started (x # xs) s =
     (case Option.bind x (findJob s) of
        None \<Rightarrow> check_loop jobs_to_start started xs s
      | Some j \<Rightarrow>
          if \<not> waiting j then check_loop jobs_to_start started xs s
          else (let reason = pend_check s j
                in if reason \<noteq> JERS_PEND_NOREASON
                   then check_loop jobs_to_start started xs
                          (on_job (j_jobid j) (\<lambda>j. j\<lparr>j_pend_reason := reason\<rparr>) s)
                   else (let s = startJob j s
                         in if started + 1 \<ge> jobs_to_start then s
                            else check_loop jobs_to_start (started + 1) xs s)))"

fun readonly_loop :: "nat option list \<Rightarrow> server \<Rightarrow> server" where
  "readonly_loop [] s = s"
| "readonly_loop (x # xs) s =
     (case Option.bind x (findJob s) of
        None \<Rightarrow> readonly_loop xs s
      | Some j \<Rightarrow>
          readonly_loop xs
            (if waiting j then on_job (j_jobid j) (\<lambda>j. j\<lparr>j_pend_reason := JERS_PEND_READONLY\<rparr>) s
             else s))"

definition jobs_to_start :: "server \<Rightarrow> int" where
  "jobs_to_start s =
     (let n = uint32 (int (length (candidate_pool s)))
      in if max_run_jobs s \<noteq> UNLIMITED_JOBS \<and> n > max_run_jobs s - st_running (stats_jobs s)
         then uint32 (max_run_jobs s - st_running (stats_jobs s)) else n)"

definition checkJobs :: "server \<Rightarrow> fault + server" where
  "checkJobs s =
     (if max_run_jobs s \<noteq> UNLIMITED_JOBS \<and> st_running (stats_jobs s) \<ge> max_run_jobs s then Inr s
      else (case (if candidate_recalc s then generateCandidatePool s else Inr s) of
              Inl e \<Rightarrow> Inl e
            | Inr s \<Rightarrow>
                Inr (if readonly s \<noteq> 0 then readonly_loop (candidate_pool s) s
                     else check_loop (jobs_to_start s) 0 (candidate_pool s) s)))"

subsection \<open>The order of the pool\<close>

definition sched_dom :: "server \<Rightarrow> job \<Rightarrow> bool" where
  "sched_dom s j \<longleftrightarrow> \<bar>queue_prio s j\<bar> < 2 ^ 30 \<and> \<bar>j_priority j\<bar> < 2 ^ 30 \<and> j_jobid j < 2 ^ 31"

text \<open>The order in which jobs should be considered.\<close>

definition runs_before :: "server \<Rightarrow> job \<Rightarrow> job \<Rightarrow> bool" where
  "runs_before s a b \<longleftrightarrow>
     queue_prio s a > queue_prio s b \<or>
     queue_prio s a = queue_prio s b \<and>
       (j_priority a > j_priority b \<or> j_priority a = j_priority b \<and> j_jobid a \<le> j_jobid b)"

lemma sched_comp_exact:
  assumes "sched_dom s a" and "sched_dom s b"
  shows "sched_comp s a b =
    (if queue_prio s a \<noteq> queue_prio s b then queue_prio s b - queue_prio s a
     else if j_priority a \<noteq> j_priority b then j_priority b - j_priority a
     else int (j_jobid a) - int (j_jobid b))"
proof -
  have "int32 (queue_prio s b - queue_prio s a) = queue_prio s b - queue_prio s a"
    using assms by (intro int32_id) (auto simp: sched_dom_def)
  moreover have "int32 (j_priority b - j_priority a) = j_priority b - j_priority a"
    using assms by (intro int32_id) (auto simp: sched_dom_def)
  moreover have "int32 (int (j_jobid a) - int (j_jobid b)) = int (j_jobid a) - int (j_jobid b)"
    using assms by (intro int32_id) (auto simp: sched_dom_def)
  ultimately show ?thesis by (auto simp: sched_comp_def Let_def)
qed

lemma sched_comp_le: "sched_dom s a \<Longrightarrow> sched_dom s b \<Longrightarrow> sched_comp s a b \<le> 0 \<longleftrightarrow> runs_before s a b"
  by (auto simp: sched_comp_exact runs_before_def)

interpretation sched: comparator "sched_dom s" "sched_comp s" for s
proof
  show "sched_dom s x \<Longrightarrow> sched_dom s y \<Longrightarrow> (sched_comp s x y < 0) = (0 < sched_comp s y x)" for x y
    by (auto simp: sched_comp_exact)
  show "sched_dom s x \<Longrightarrow> sched_dom s y \<Longrightarrow> sched_dom s z \<Longrightarrow> sched_comp s x y \<le> 0 \<Longrightarrow>
      sched_comp s y z \<le> 0 \<Longrightarrow> sched_comp s x z \<le> 0" for x y z
    by (auto simp: sched_comp_le runs_before_def)
qed

subsection \<open>The pool never overflows\<close>

lemma counter_is_count:
  "server_ok s \<Longrightarrow> st \<in> job_states \<Longrightarrow> stat_get st (stats_jobs s) = tcount (\<lambda>j. j_state j = st) (jobTable s)"
  by (simp add: server_ok_def counters_ok_def stats_match_def)

definition pool_ready :: "server \<Rightarrow> server" where
  "pool_ready s =
     (if candidate_pool_size s <
         st_pending (stats_jobs s) + st_deferred (stats_jobs s) + st_holding (stats_jobs s)
      then s\<lparr>candidate_pool_size :=
             (st_pending (stats_jobs s) + st_deferred (stats_jobs s) + st_holding (stats_jobs s)) * 3 div 2\<rparr>
      else s)"

lemma generate_fits:
  assumes "server_ok s"
  shows "int (length (filter is_candidate (jobTable s))) \<le> candidate_pool_size (pool_ready s)"
proof -
  have cnt: "st_pending (stats_jobs s) = tcount (\<lambda>j. j_state j = JERS_JOB_PENDING) (jobTable s)"
    "st_deferred (stats_jobs s) = tcount (\<lambda>j. j_state j = JERS_JOB_DEFERRED) (jobTable s)"
    "st_holding (stats_jobs s) = tcount (\<lambda>j. j_state j = JERS_JOB_HOLDING) (jobTable s)"
    using counter_is_count [OF assms, of JERS_JOB_PENDING]
      counter_is_count [OF assms, of JERS_JOB_DEFERRED]
      counter_is_count [OF assms, of JERS_JOB_HOLDING]
    by (simp_all add: job_states_def stat_get_def)
  have "filter is_candidate (jobTable s) =
      filter is_candidate (filter (\<lambda>j. j_state j = JERS_JOB_PENDING) (jobTable s))"
    by (auto simp: is_candidate_def intro: filter_cong)
  then have "int (length (filter is_candidate (jobTable s))) \<le> st_pending (stats_jobs s)"
    unfolding cnt tcount_def by (metis length_filter_le of_nat_le_iff)
  moreover have "0 \<le> st_deferred (stats_jobs s)" "0 \<le> st_holding (stats_jobs s)"
    unfolding cnt by simp_all
  moreover have "x \<le> x * 3 div 2" if "0 \<le> x" for x :: int using that by presburger
  ultimately show ?thesis
    unfolding pool_ready_def by (fastforce intro: order_trans)
qed

lemma pool_ready_frame [simp]:
  "jobTable (pool_ready s) = jobTable s" "queueTable (pool_ready s) = queueTable s"
  "resTable (pool_ready s) = resTable s" "stats_jobs (pool_ready s) = stats_jobs s"
  "agentList (pool_ready s) = agentList s" "max_run_jobs (pool_ready s) = max_run_jobs s"
  "deferred_list (pool_ready s) = deferred_list s" "readonly (pool_ready s) = readonly s"
  by (simp_all add: pool_ready_def)

lemma sched_comp_frame: "queueTable s' = queueTable s \<Longrightarrow> sched_comp s' = sched_comp s"
  by (simp add: sched_comp_def [abs_def] queue_prio_def findQueue_def)

lemma generateCandidatePool_eq:
  assumes "server_ok s"
  shows "generateCandidatePool s =
    Inr ((pool_ready s)\<lparr>candidate_pool := map (\<lambda>j. Some (j_jobid j))
            (qsort (sched_comp s) (filter is_candidate (jobTable s))),
          candidate_recalc := False\<rparr>)"
proof -
  have fits: "\<not> candidate_pool_size (pool_ready s) < int (length (filter is_candidate (jobTable s)))"
    using generate_fits [OF assms] by simp
  have comp: "sched_comp (pool_ready s) = sched_comp s" by (rule sched_comp_frame) simp
  have empty: "filter is_candidate (jobTable s) = []" if "st_pending (stats_jobs s) = 0"
  proof -
    have "tcount (\<lambda>j. j_state j = JERS_JOB_PENDING) (jobTable s) = 0"
      using that counter_is_count [OF assms, of JERS_JOB_PENDING]
      by (simp add: job_states_def stat_get_def)
    then show ?thesis by (auto simp: tcount_def is_candidate_def filter_empty_conv)
  qed
  have "generateCandidatePool s =
      (if st_pending (stats_jobs s) = 0
       then Inr ((pool_ready s)\<lparr>candidate_pool := [], candidate_recalc := False\<rparr>)
       else (let cs = filter is_candidate (jobTable (pool_ready s))
             in if candidate_pool_size (pool_ready s) < int (length cs) then Inl Overflow
                else Inr ((pool_ready s)\<lparr>candidate_pool := map (\<lambda>j. Some (j_jobid j))
                              (qsort (sched_comp (pool_ready s)) cs),
                            candidate_recalc := False\<rparr>)))"
    by (simp only: generateCandidatePool_def pool_ready_def Let_def)
  then show ?thesis using fits empty comp by (auto simp: Let_def)
qed

subsection \<open>What starting a job changes\<close>

lemma sendStartCmd_frame [simp]:
  "jobTable (sendStartCmd j s) = jobTable s" "queueTable (sendStartCmd j s) = queueTable s"
  "resTable (sendStartCmd j s) = resTable s" "stats_jobs (sendStartCmd j s) = stats_jobs s"
  "deferred_list (sendStartCmd j s) = deferred_list s" "max_run_jobs (sendStartCmd j s) = max_run_jobs s"
  by (auto simp: sendStartCmd_def sendAgentMessage_def split: option.split)

lemma allocateRes_none: "(if j_req_resources j \<noteq> [] then allocateRes j s else s) = allocateRes j s"
  by (simp add: allocateRes_def)

lemma startJob_tables:
  "jobTable (startJob j s) =
     tupd j_jobid (j_jobid j) (\<lambda>j. j\<lparr>j_internal_state := set_flag (j_internal_state j) JERS_FLAG_JOB_STARTED,
       j_pend_reason := JERS_PEND_AGENT\<rparr>) (jobTable s)"
  "queueTable (startJob j s) =
     tupd q_name (j_queue j) (\<lambda>q. q\<lparr>q_stats := start_pending_add 1 (q_stats q)\<rparr>) (queueTable s)"
  "stats_jobs (startJob j s) = start_pending_add 1 (stats_jobs s)"
  "resTable (startJob j s) = resTable (allocateRes j s)"
  "max_run_jobs (startJob j s) = max_run_jobs s" "deferred_list (startJob j s) = deferred_list s"
  by (simp_all add: startJob_def Let_def allocateRes_none)

lemma server_ok_startJob: "server_ok s \<Longrightarrow> server_ok (startJob j s)"
proof -
  assume "server_ok s"
  then have "server_ok (sendStartCmd j (allocateRes j s))"
    using server_ok_allocateRes [of s j] by (subst server_ok_cong [where s = "allocateRes j s"]) simp_all
  then show ?thesis
    unfolding startJob_def Let_def allocateRes_none
    by (intro server_ok_start_pending server_ok_on_job) simp_all
qed

text \<open>An invariant of the two steps of the walk is an invariant of the walk.\<close>

lemma check_loop_invariant:
  assumes pend: "\<And>s k j r. P s \<Longrightarrow> findJob s k = Some j \<Longrightarrow> Some k \<in> X \<Longrightarrow>
      P (on_job (j_jobid j) (\<lambda>j. j\<lparr>j_pend_reason := r\<rparr>) s)"
    and start: "\<And>s k j. P s \<Longrightarrow> findJob s k = Some j \<Longrightarrow> Some k \<in> X \<Longrightarrow> waiting j \<Longrightarrow>
      pend_check s j = JERS_PEND_NOREASON \<Longrightarrow> P (startJob j s)"
  shows "P s \<Longrightarrow> set xs \<subseteq> X \<Longrightarrow> P (check_loop m n xs s)"
proof (induction xs arbitrary: n s)
  case (Cons x xs)
  show ?case
  proof (cases "Option.bind x (findJob s)")
    case None
    with Cons show ?thesis by simp
  next
    case (Some j)
    then obtain k where k: "x = Some k" "findJob s k = Some j" by (auto simp: bind_eq_Some_conv)
    with Cons.prems have X: "Some k \<in> X" by simp
    note pend' = pend [OF Cons.prems(1) k(2) X] and start' = start [OF Cons.prems(1) k(2) X]
    show ?thesis
      using Some Cons.prems Cons.IH pend' start' by (auto simp: Let_def)
  qed
qed simp

lemma readonly_loop_invariant:
  assumes "\<And>s k j r. P s \<Longrightarrow> findJob s k = Some j \<Longrightarrow> P (on_job (j_jobid j) (\<lambda>j. j\<lparr>j_pend_reason := r\<rparr>) s)"
  shows "P s \<Longrightarrow> P (readonly_loop xs s)"
proof (induction xs arbitrary: s)
  case (Cons x xs)
  show ?case
  proof (cases "Option.bind x (findJob s)")
    case None
    with Cons show ?thesis by simp
  next
    case (Some j)
    then obtain k where "findJob s k = Some j" by (auto simp: bind_eq_Some_conv)
    from assms [OF Cons.prems this] Some Cons show ?thesis by simp
  qed
qed simp

lemma server_ok_check_loop [inv_rules]: "server_ok s \<Longrightarrow> server_ok (check_loop m n xs s)"
  by (rule check_loop_invariant [where X = UNIV]) (auto intro: server_ok_on_job server_ok_startJob)

lemma server_ok_readonly_loop [inv_rules]: "server_ok s \<Longrightarrow> server_ok (readonly_loop xs s)"
  by (rule readonly_loop_invariant) (auto intro: server_ok_on_job)

lemma server_ok_generated:
  "server_ok s \<Longrightarrow> generateCandidatePool s = Inr s' \<Longrightarrow> server_ok s'"
  by (auto simp: generateCandidatePool_def Let_def split: if_splits)

theorem server_ok_checkJobs [inv_rules]: "server_ok s \<Longrightarrow> checkJobs s = Inr s' \<Longrightarrow> server_ok s'"
  by (auto simp: checkJobs_def split: if_splits sum.splits
      intro: server_ok_check_loop server_ok_readonly_loop server_ok_generated)

subsection \<open>Capacity\<close>

definition in_flight :: "jobStats \<Rightarrow> int" where
  "in_flight x = st_running x + st_start_pending x"

definition capacity_kept :: "server \<Rightarrow> server \<Rightarrow> bool" where
  "capacity_kept s s' \<longleftrightarrow>
     max_run_jobs s' = max_run_jobs s \<and>
     (max_run_jobs s \<noteq> UNLIMITED_JOBS \<longrightarrow>
        in_flight (stats_jobs s') \<le> max (in_flight (stats_jobs s)) (max_run_jobs s + 1)) \<and>
     (\<forall>n q'. findQueue s' n = Some q' \<longrightarrow>
        (\<exists>q. findQueue s n = Some q \<and> q_job_limit q' = q_job_limit q \<and>
             in_flight (q_stats q') \<le> max (in_flight (q_stats q)) (q_job_limit q)))"

lemma capacity_kept_refl: "max_run_jobs s' = max_run_jobs s \<Longrightarrow> queueTable s' = queueTable s \<Longrightarrow>
    stats_jobs s' = stats_jobs s \<Longrightarrow> capacity_kept s s'"
  by (auto simp: capacity_kept_def findQueue_def)

lemma capacity_kept_trans: "capacity_kept s s' \<Longrightarrow> capacity_kept s' s'' \<Longrightarrow> capacity_kept s s''"
  unfolding capacity_kept_def by (fastforce simp: max_def split: if_splits)

lemma in_flight_start [simp]: "in_flight (start_pending_add d x) = in_flight x + d"
  by (simp add: in_flight_def start_pending_add_def)

lemma pend_check_ok:
  assumes "pend_check s j = JERS_PEND_NOREASON"
  obtains q h a where "findQueue s (j_queue j) = Some q" and "q_agent q = Some h"
    and "findAgent s h = Some a" and "a_logged_in a" and "\<not> a_recon a"
    and "has_flag (q_state q) JERS_QUEUE_FLAG_STARTED" and "in_flight (q_stats q) < q_job_limit q"
    and "max_run_jobs s \<noteq> UNLIMITED_JOBS \<longrightarrow> in_flight (stats_jobs s) \<le> max_run_jobs s"
    and "\<not> checkRes s j"
proof -
  have "\<not> checkRes s j" if "j_req_resources j = []" using that by (simp add: checkRes_def)
  then show thesis
    using assms that
    by (auto simp: pend_check_def in_flight_def split: option.splits if_splits)
qed

lemma startJob_capacity:
  assumes "pend_check s j = JERS_PEND_NOREASON"
  shows "capacity_kept s (startJob j s)"
proof -
  obtain q where q: "findQueue s (j_queue j) = Some q" "in_flight (q_stats q) < q_job_limit q"
    and sys: "max_run_jobs s \<noteq> UNLIMITED_JOBS \<longrightarrow> in_flight (stats_jobs s) \<le> max_run_jobs s"
    using pend_check_ok [OF assms] by metis
  have "\<exists>q. findQueue s n = Some q \<and> q_job_limit q' = q_job_limit q \<and>
      in_flight (q_stats q') \<le> max (in_flight (q_stats q)) (q_job_limit q)"
    if "findQueue (startJob j s) n = Some q'" for n q'
    using that q by (auto simp: findQueue_def startJob_tables tfind_tupd split: if_splits)
  with sys show ?thesis by (auto simp: capacity_kept_def startJob_tables)
qed

lemma check_loop_capacity: "capacity_kept s (check_loop m n xs s)"
proof (rule check_loop_invariant [where P = "capacity_kept s" and X = UNIV])
  show "capacity_kept s s" by (simp add: capacity_kept_refl)
  show "capacity_kept s (on_job (j_jobid j) (\<lambda>j. j\<lparr>j_pend_reason := r\<rparr>) s1)" if "capacity_kept s s1" for s1 j r
    using that by (rule capacity_kept_trans) (simp add: capacity_kept_refl)
  show "capacity_kept s (startJob j s1)"
    if "capacity_kept s s1" "pend_check s1 j = JERS_PEND_NOREASON" for s1 j
    using that(1) startJob_capacity [OF that(2)] by (rule capacity_kept_trans)
qed simp

subsection \<open>Eligibility\<close>

definition starting :: "server \<Rightarrow> nat \<Rightarrow> bool" where
  "starting s k \<longleftrightarrow> (\<exists>j. findJob s k = Some j \<and> has_flag (j_internal_state j) JERS_FLAG_JOB_STARTED)"

text \<open>
  A job that may be started: it is pending and not started yet, its queue is started, and
  the queue's agent is logged in and not reconciling.
\<close>

definition eligible :: "server \<Rightarrow> nat \<Rightarrow> bool" where
  "eligible s k \<longleftrightarrow> (\<exists>j q h a. findJob s k = Some j \<and> waiting j \<and>
     findQueue s (j_queue j) = Some q \<and> has_flag (q_state q) JERS_QUEUE_FLAG_STARTED \<and>
     q_agent q = Some h \<and> findAgent s h = Some a \<and> a_logged_in a \<and> \<not> a_recon a)"

lemma eligible_pend:
  "findJob s k = Some j \<Longrightarrow>
   eligible (on_job (j_jobid j) (\<lambda>j. j\<lparr>j_pend_reason := r\<rparr>) s) i \<Longrightarrow> eligible s i"
  by (auto simp: eligible_def findJob_on_job findQueue_def findAgent_def waiting_def split: if_splits)

lemma starting_pend:
  "starting (on_job n (\<lambda>j. j\<lparr>j_pend_reason := r\<rparr>) s) i = starting s i"
  by (auto simp: starting_def findJob_on_job)

lemma findJob_startJob:
  "findJob (startJob j s) i = (if i = j_jobid j then map_option (\<lambda>j. j\<lparr>j_internal_state :=
      set_flag (j_internal_state j) JERS_FLAG_JOB_STARTED, j_pend_reason := JERS_PEND_AGENT\<rparr>) (findJob s i)
    else findJob s i)"
  by (simp add: findJob_def startJob_tables tfind_tupd)

lemma findAgent_startJob:
  "findAgent (startJob j s) h = Some a' \<Longrightarrow>
   \<exists>a. findAgent s h = Some a \<and> a_logged_in a = a_logged_in a' \<and> a_recon a = a_recon a'"
  by (auto simp: startJob_def Let_def findAgent_def sendStartCmd_def sendAgentMessage_def
      count_state_def tfind_tupd split: option.splits if_splits)

lemma eligible_start:
  assumes "eligible (startJob j s) i"
  shows "eligible s i"
proof -
  obtain j' q h a where 1: "findJob (startJob j s) i = Some j'" "waiting j'"
    "findQueue (startJob j s) (j_queue j') = Some q" "has_flag (q_state q) JERS_QUEUE_FLAG_STARTED"
    "q_agent q = Some h" "findAgent (startJob j s) h = Some a" "a_logged_in a" "\<not> a_recon a"
    using assms unfolding eligible_def by blast
  have job: "findJob s i = Some j'"
    using 1(1,2) by (auto simp: findJob_startJob waiting_def split: if_splits)
  obtain q' where "findQueue s (j_queue j') = Some q'" "q_state q' = q_state q" "q_agent q' = q_agent q"
    using 1(3) by (auto simp: findQueue_def startJob_tables tfind_tupd split: if_splits)
  with job 1 findAgent_startJob [OF 1(6)] show ?thesis unfolding eligible_def by metis
qed

lemma check_loop_eligible:
  assumes "set xs \<subseteq> X"
  shows "(starting (check_loop m n xs s) k \<longrightarrow> starting s k \<or> eligible s k \<and> Some k \<in> X) \<and>
    (eligible (check_loop m n xs s) k \<longrightarrow> eligible s k)"
proof -
  let ?P = "\<lambda>s'. \<forall>k. (starting s' k \<longrightarrow> starting s k \<or> eligible s k \<and> Some k \<in> X) \<and>
    (eligible s' k \<longrightarrow> eligible s k)"
  have "?P (check_loop m n xs s)"
  proof (rule check_loop_invariant [where P = ?P and X = X])
    fix s1 i j r
    assume P: "?P s1" and find: "findJob s1 i = Some j" and X: "Some i \<in> X"
    show "?P (on_job (j_jobid j) (\<lambda>j. j\<lparr>j_pend_reason := r\<rparr>) s1)"
      using P eligible_pend [OF find] by (auto simp: starting_pend)
    assume w: "waiting j" and ok: "pend_check s1 j = JERS_PEND_NOREASON"
    have "j_jobid j = i" using find by (auto simp: findJob_def dest: tfind_SomeD)
    moreover have "eligible s1 i"
      using pend_check_ok [OF ok] find w unfolding eligible_def by metis
    ultimately show "?P (startJob j s1)"
      using P X eligible_start
      by (auto simp: starting_def findJob_startJob split: if_splits)
  qed (use assms in auto)
  then show ?thesis by blast
qed

text \<open>The state from which \<open>checkJobs\<close> walks the pool: the same tables, the pool renewed.\<close>

definition same_tables :: "server \<Rightarrow> server \<Rightarrow> bool" where
  "same_tables s s' \<longleftrightarrow> jobTable s' = jobTable s \<and> queueTable s' = queueTable s \<and>
     resTable s' = resTable s \<and> agentList s' = agentList s \<and> stats_jobs s' = stats_jobs s \<and>
     max_run_jobs s' = max_run_jobs s \<and> readonly s' = readonly s"

lemma checkJobs_cases [consumes 1, case_names full frozen walk]:
  assumes "server_ok s"
  obtains (full) "checkJobs s = Inr s"
  | (frozen) s1 where "same_tables s s1" and "readonly s \<noteq> 0"
      and "checkJobs s = Inr (readonly_loop (candidate_pool s1) s1)"
  | (walk) s1 where "same_tables s s1" and "readonly s = 0"
      and "checkJobs s = Inr (check_loop (jobs_to_start s1) 0 (candidate_pool s1) s1)"
proof (cases "max_run_jobs s \<noteq> UNLIMITED_JOBS \<and> st_running (stats_jobs s) \<ge> max_run_jobs s")
  case True
  then show thesis using full by (simp add: checkJobs_def)
next
  case False
  obtain s1 where s1: "(if candidate_recalc s then generateCandidatePool s else Inr s) = Inr s1" "same_tables s s1"
    using generateCandidatePool_eq [OF assms]
    by (cases "candidate_recalc s") (auto simp: same_tables_def)
  show thesis
  proof (cases "readonly s = 0")
    case True
    then show thesis using walk [OF s1(2)] False s1 by (auto simp: checkJobs_def same_tables_def)
  next
    case ro: False
    then show thesis using frozen [OF s1(2)] False s1 by (auto simp: checkJobs_def same_tables_def)
  qed
qed

lemma same_tables_views:
  assumes "same_tables s s1"
  shows "starting s1 = starting s" and "eligible s1 = eligible s" and "capacity_kept s s1"
  using assms
  by (simp_all add: same_tables_def starting_def [abs_def] eligible_def [abs_def] findJob_def findQueue_def
      findAgent_def capacity_kept_refl)

subsection \<open>Resources\<close>

definition resources_ok :: "server \<Rightarrow> bool" where
  "resources_ok s \<longleftrightarrow> tkeys r_name (resTable s) \<and> (\<forall>r \<in> set (resTable s). res_ok r) \<and>
     (\<forall>j \<in> set (jobTable s). request_ok (j_req_resources j))"

lemma tkeys_allocateRes: "tkeys r_name (resTable s) \<Longrightarrow> tkeys r_name (resTable (allocateRes j s))"
proof -
  have "tkeys r_name (resTable s) \<Longrightarrow>
      tkeys r_name (resTable (fold (\<lambda>(n, k). on_res n (res_take k)) rs s))" for rs
    by (induction rs arbitrary: s) (auto simp: tkeys_tupd)
  then show "tkeys r_name (resTable s) \<Longrightarrow> tkeys r_name (resTable (allocateRes j s))"
    by (simp add: allocateRes_def)
qed

lemma resources_ok_check_loop:
  assumes "resources_ok s"
  shows "resources_ok (check_loop m n xs s)"
proof (rule check_loop_invariant [where P = resources_ok and X = UNIV])
  fix s i j r
  assume ok: "resources_ok s" and find: "findJob s i = Some j"
  then show "resources_ok (on_job (j_jobid j) (\<lambda>j. j\<lparr>j_pend_reason := r\<rparr>) s)"
    by (auto simp: resources_ok_def set_tupd)
  assume free: "pend_check s j = JERS_PEND_NOREASON"
  have "j \<in> set (jobTable s)" using find by (auto simp: findJob_def dest: tfind_SomeD)
  then have "request_ok (j_req_resources j)" using ok by (simp add: resources_ok_def)
  moreover have "\<not> checkRes s j" using pend_check_ok [OF free] by metis
  ultimately have "\<forall>r \<in> set (resTable (allocateRes j s)). res_ok r"
    using ok by (intro allocateRes_keeps_ok) (simp_all add: resources_ok_def)
  then show "resources_ok (startJob j s)"
    using ok by (auto simp: resources_ok_def startJob_tables set_tupd tkeys_allocateRes)
qed (use assms in auto)

lemma resources_ok_readonly_loop: "resources_ok s \<Longrightarrow> resources_ok (readonly_loop xs s)"
  by (rule readonly_loop_invariant) (auto simp: resources_ok_def set_tupd)

lemma readonly_loop_starting: "starting (readonly_loop xs s) k = starting s k"
  by (rule readonly_loop_invariant [where P = "\<lambda>s'. starting s' k = starting s k"]) (auto simp: starting_pend)

lemma readonly_loop_capacity: "capacity_kept s (readonly_loop xs s)"
proof (rule readonly_loop_invariant [where P = "capacity_kept s"])
  show "capacity_kept s s" by (simp add: capacity_kept_refl)
  show "capacity_kept s (on_job (j_jobid j) (\<lambda>j. j\<lparr>j_pend_reason := r\<rparr>) s1)" if "capacity_kept s s1" for s1 j r
    using that by (rule capacity_kept_trans) (simp add: capacity_kept_refl)
qed

subsection \<open>Releasing deferred jobs\<close>

definition release_one :: "nat \<Rightarrow> server \<Rightarrow> server" where
  "release_one k s = removeDeferredJob k (changeJobState k JERS_JOB_PENDING None False
     (on_job k (\<lambda>j. j\<lparr>j_defer_time := 0\<rparr>) s))"

lemma server_ok_release_one: "server_ok s \<Longrightarrow> server_ok (release_one k s)"
  unfolding release_one_def by (intro server_ok_deferred changeJobState_ok server_ok_on_job) simp_all

lemma findJob_release_one:
  assumes "server_ok s"
  shows "findJob (release_one k s) i =
    (if i = k then map_option (\<lambda>j. j\<lparr>j_defer_time := 0, j_state := JERS_JOB_PENDING,
       j_revision := j_revision j + 1\<rparr>) (findJob s k) else findJob s i)"
proof -
  have "tkeys j_jobid (jobTable (on_job k (\<lambda>j. j\<lparr>j_defer_time := 0\<rparr>) s))"
    using assms by (simp add: server_ok_def tables_ok_def tkeys_tupd)
  from findJob_changeJobState [OF this] show ?thesis
    by (simp add: release_one_def removeDeferredJob_def findJob_on_job requeue_def)
      (cases "findJob s k"; simp)
qed

text \<open>What releasing at time \<open>now\<close> means for the job behind a jobid.\<close>

definition released :: "int \<Rightarrow> server \<Rightarrow> server \<Rightarrow> nat \<Rightarrow> bool" where
  "released now s s' k \<longleftrightarrow>
     (case findJob s k of
        None \<Rightarrow> findJob s' k = None
      | Some j \<Rightarrow>
          if k \<in> deferred_now s \<and> j_defer_time j \<le> now
          then \<exists>j'. findJob s' k = Some j' \<and> j_state j' = JERS_JOB_PENDING \<and> j_defer_time j' = 0
          else findJob s' k = Some j)"

lemma deferred_ok_release_one:
  assumes "server_ok s" and "deferred_ok s" and "deferred_list s = k # ks"
  shows "deferred_ok (release_one k s) \<and> deferred_list (release_one k s) = ks"
proof
  have k: "k \<in> deferred_now s" and ks: "set ks = deferred_now s - {k}" and "k \<notin> set ks"
    using assms(2,3) by (auto simp: deferred_ok_def)
  note find = findJob_release_one [OF assms(1)]
  show l: "deferred_list (release_one k s) = ks"
    using assms(3) by (simp add: release_one_def removeDeferredJob_def)
  have now: "deferred_now (release_one k s) = deferred_now s - {k}"
    by (auto simp: deferred_now_def find split: if_splits)
  have same: "defer_of (release_one k s) i = defer_of s i" if "i \<noteq> k" for i
    using that by (simp add: defer_of_def find)
  have "sorted_wrt (\<lambda>a b. defer_of s a \<le> defer_of s b) ks"
    using assms(2,3) by (simp add: deferred_ok_def)
  then have srt: "sorted_wrt (\<lambda>a b. defer_of (release_one k s) a \<le> defer_of (release_one k s) b) ks"
    using \<open>k \<notin> set ks\<close> by (elim sorted_wrt_mono_rel [rotated]) (metis same)
  have keys: "tkeys j_jobid (jobTable (release_one k s))"
    using server_ok_release_one [OF assms(1)] by (simp add: server_ok_def tables_ok_def)
  have "\<bar>j_defer_time j\<bar> < 2 ^ 62" if "j \<in> set (jobTable (release_one k s))" for j
  proof -
    have "findJob (release_one k s) (j_jobid j) = Some j"
      using keys that by (simp add: findJob_def tfind_mem)
    then consider "j_defer_time j = 0" | "findJob s (j_jobid j) = Some j"
      by (auto simp: find split: if_splits)
    then show ?thesis
      using assms(2) by cases (auto simp: deferred_ok_def findJob_def dest!: tfind_SomeD)
  qed
  with assms(2,3) l now ks srt show "deferred_ok (release_one k s)"
    by (auto simp: deferred_ok_def)
qed

lemma release_loop_ok:
  "server_ok s \<Longrightarrow> deferred_ok s \<Longrightarrow> deferred_list s = ks \<Longrightarrow>
   server_ok (snd (release_loop now ks n s)) \<and> deferred_ok (snd (release_loop now ks n s)) \<and>
   released now s (snd (release_loop now ks n s)) k"
proof (induction ks arbitrary: n s)
  case Nil
  then have "deferred_now s = {}" by (auto simp: deferred_ok_def)
  with Nil show ?case by (auto simp: released_def split: option.split)
next
  case (Cons x ks)
  show ?case
  proof (cases "now < defer_of s x")
    case True
    have "now < defer_of s i" if "i \<in> deferred_now s" for i
      using that True Cons.prems(2,3) by (force simp: deferred_ok_def)
    from this [of k] have "released now s s k"
      by (fastforce simp: released_def defer_of_def split: option.split)
    with True Cons.prems show ?thesis by simp
  next
    case False
    let ?s = "release_one x s"
    note step = deferred_ok_release_one [OF Cons.prems]
    have IH: "server_ok (snd (release_loop now ks (Suc n) ?s)) \<and>
        deferred_ok (snd (release_loop now ks (Suc n) ?s)) \<and>
        released now ?s (snd (release_loop now ks (Suc n) ?s)) k"
      using Cons.IH server_ok_release_one [OF Cons.prems(1)] step by blast
    have x: "x \<in> deferred_now s" using Cons.prems(2,3) by (auto simp: deferred_ok_def)
    have now: "deferred_now ?s = deferred_now s - {x}"
      using findJob_release_one [OF Cons.prems(1)] by (auto simp: deferred_now_def split: if_splits)
    have "released now s (snd (release_loop now ks (Suc n) ?s)) k"
      using IH x now False findJob_release_one [OF Cons.prems(1), of x k]
      by (auto simp: released_def defer_of_def deferred_now_def split: option.splits if_splits)
    with IH False show ?thesis by (simp add: release_one_def)
  qed
qed

subsection \<open>Progress\<close>

lemma check_loop_progress:
  "(starting s k \<longrightarrow> starting (check_loop m n xs s) k) \<and>
   in_flight (stats_jobs s) \<le> in_flight (stats_jobs (check_loop m n xs s))"
proof -
  let ?P = "\<lambda>s'. (starting s k \<longrightarrow> starting s' k) \<and> in_flight (stats_jobs s) \<le> in_flight (stats_jobs s')"
  show ?thesis
  proof (rule check_loop_invariant [where P = ?P and X = UNIV])
    fix s1 i r and j :: job
    assume P: "?P s1"
    then show "?P (on_job (j_jobid j) (\<lambda>j. j\<lparr>j_pend_reason := r\<rparr>) s1)" by (simp add: starting_pend)
    from P show "?P (startJob j s1)"
      by (auto simp: starting_def findJob_startJob startJob_tables)
  qed auto
qed

lemma pend_check_same: "same_tables s s1 \<Longrightarrow> pend_check s1 j = pend_check s j"
proof -
  assume same: "same_tables s s1"
  then have "findQueue s1 = findQueue s" "findAgent s1 = findAgent s" "checkRes s1 = checkRes s"
    by (simp_all add: same_tables_def findQueue_def [abs_def] findAgent_def [abs_def]
        checkRes_def [abs_def] findResource_def [abs_def])
  moreover from same have "max_run_jobs s1 = max_run_jobs s" "stats_jobs s1 = stats_jobs s"
    by (simp_all add: same_tables_def)
  ultimately show ?thesis unfolding pend_check_def by (simp only:)
qed

lemma check_loop_head:
  assumes "findJob s k = Some j" and "waiting j" and "pend_check s j = JERS_PEND_NOREASON"
  shows "check_loop m n (Some k # xs) s = startJob j s \<or>
    check_loop m n (Some k # xs) s = check_loop m (n + 1) xs (startJob j s)"
  using assms by (simp add: Let_def)

text \<open>The first candidate of a fresh pool is started when nothing stands against it.\<close>

lemma checkJobs_head:
  assumes ok: "server_ok s" and recalc: "candidate_recalc s" and rw: "readonly s = 0"
    and room: "max_run_jobs s = UNLIMITED_JOBS \<or> st_running (stats_jobs s) < max_run_jobs s"
    and pool: "qsort (sched_comp s) (filter is_candidate (jobTable s)) = j # js"
    and start: "waiting j" "pend_check s j = JERS_PEND_NOREASON"
  shows "\<exists>s'. checkJobs s = Inr s' \<and> starting s' (j_jobid j) \<and>
    in_flight (stats_jobs s) < in_flight (stats_jobs s')"
proof -
  let ?s1 = "(pool_ready s)\<lparr>candidate_pool := map (\<lambda>j. Some (j_jobid j)) (j # js), candidate_recalc := False\<rparr>"
  have same: "same_tables s ?s1" by (simp add: same_tables_def)
  have "set (j # js) = set (filter is_candidate (jobTable s))" using pool by (metis set_qsort)
  then have "j \<in> set (jobTable s)" by auto
  then have find: "findJob ?s1 (j_jobid j) = Some j"
    using ok by (simp add: findJob_def tfind_mem server_ok_def tables_ok_def)
  have st: "starting (startJob j ?s1) (j_jobid j)"
    using find by (auto simp: starting_def findJob_startJob)
  have fl: "in_flight (stats_jobs (startJob j ?s1)) = in_flight (stats_jobs s) + 1"
    by (simp add: startJob_tables)
  let ?xs = "map (\<lambda>j. Some (j_jobid j)) js"
  let ?s' = "check_loop (jobs_to_start ?s1) 0 (Some (j_jobid j) # ?xs) ?s1"
  have "checkJobs s = Inr ?s'"
    using generateCandidatePool_eq [OF ok] recalc rw room pool
    by (auto simp: checkJobs_def simp del: check_loop.simps)
  moreover have "?s' = startJob j ?s1 \<or> ?s' = check_loop (jobs_to_start ?s1) (0 + 1) ?xs (startJob j ?s1)"
    using start(2) by (intro check_loop_head [OF find start(1)]) (simp only: pend_check_same [OF same])
  moreover have "starting (check_loop m n xs (startJob j ?s1)) (j_jobid j) \<and>
      in_flight (stats_jobs s) < in_flight (stats_jobs (check_loop m n xs (startJob j ?s1)))" for m n xs
    using st fl check_loop_progress [of "startJob j ?s1" "j_jobid j" m n xs] by simp
  ultimately show ?thesis using st fl by (metis zless_add1_eq)
qed

text \<open>A small server: one queue with a limit of two on one agent, one resource, two jobs.\<close>

definition demo_job :: "nat \<Rightarrow> int \<Rightarrow> job" where
  "demo_job k prio = job_zero\<lparr>j_jobid := k, j_jobname := ''demo'', j_queue := ''batch'',
     j_state := JERS_JOB_PENDING, j_priority := prio, j_req_resources := [(''tape'', 1)],
     j_argv := [Some ''true''], j_uid := 100\<rparr>"

definition demo_server :: server where
  "demo_server = init_server\<lparr>
     jobTable := [demo_job 7 100, demo_job 8 200],
     queueTable := [queue_zero\<lparr>q_name := ''batch'', q_host := ''node'', q_job_limit := 2, q_state := 3,
       q_agent := Some ''node'', q_stats := stats_zero\<lparr>st_pending := 2\<rparr>\<rparr>],
     resTable := [resource_zero\<lparr>r_name := ''tape'', r_count := 1\<rparr>],
     agentList := [\<lparr>a_host = ''node'', a_connected = True, a_logged_in = True, a_recon = False,
       a_nonce = None, a_requests = [], a_sent = []\<rparr>],
     stats_jobs := stats_zero\<lparr>st_pending := 2\<rparr>\<rparr>"

lemma demo_server_ok: "server_ok demo_server"
  by (simp add: demo_server_def demo_job_def init_server_def job_zero_def queue_zero_def resource_zero_def
      server_ok_def tables_ok_def counters_ok_def stats_match_def tkeys_def job_states_def stat_get_def
      stats_zero_def tcount_def)

lemmas demo_defs = demo_server_def demo_job_def init_server_def job_zero_def queue_zero_def
  resource_zero_def stats_zero_def

lemma demo_pool:
  "qsort (sched_comp demo_server) (filter is_candidate (jobTable demo_server)) = [demo_job 8 200, demo_job 7 100]"
proof -
  have "queue_prio demo_server (demo_job k p) = 0" for k p
    by (simp add: queue_prio_def findQueue_def table_simps demo_defs)
  then have dom: "sched_dom demo_server (demo_job 7 100)" "sched_dom demo_server (demo_job 8 200)"
    and comp: "sched_comp demo_server (demo_job 7 100) (demo_job 8 200) = 100"
    by (simp_all add: sched_comp_def sched_dom_def demo_job_def int32_id Let_def)
  have "filter is_candidate (jobTable demo_server) = [demo_job 7 100, demo_job 8 200]"
    by (simp add: demo_defs is_candidate_def)
  then show ?thesis using comp by simp
qed

lemma demo_pend: "waiting (demo_job 8 200)" "pend_check demo_server (demo_job 8 200) = JERS_PEND_NOREASON"
  by (simp_all add: demo_defs waiting_def pend_check_def findQueue_def findAgent_def findResource_def
      checkRes_def table_simps has_flag_def int32_id)

section \<open>Properties\<close>

text \<open>C4. The scheduler keeps to the limits: with the counters of the server right, a
  scheduling pass never stores behind the candidate pool, keeps the counters right, and no
  queue gets more running and starting jobs than its limit unless it had more before. For
  the whole system the bound it keeps is one more than the configured maximum.\<close>

theorem checkJobs_keeps_limits:
  assumes "server_ok s"
  shows "\<exists>s'. checkJobs s = Inr s' \<and> server_ok s' \<and> capacity_kept s s'"
  using assms
proof (cases rule: checkJobs_cases)
  case full
  then show ?thesis using assms by (auto simp: capacity_kept_refl)
next
  case (frozen s1)
  then show ?thesis
    using assms server_ok_checkJobs same_tables_views(3) readonly_loop_capacity capacity_kept_trans by blast
next
  case (walk s1)
  then show ?thesis
    using assms server_ok_checkJobs same_tables_views(3) check_loop_capacity capacity_kept_trans by blast
qed

theorem checkJobs_keeps_limits_witness:
  "\<exists>s'. checkJobs init_server = Inr s' \<and> server_ok s' \<and> capacity_kept init_server s'"
  by (rule checkJobs_keeps_limits) (rule server_ok_init)

text \<open>C5. Only eligible jobs are started: a job that a scheduling pass sends to an agent was
  pending and not yet started, its queue was started, the queue's agent was logged in and
  not reconciling, and the server was not in read-only mode.\<close>

theorem checkJobs_starts_only_eligible:
  assumes "server_ok s" and "checkJobs s = Inr s'" and "starting s' k" and "\<not> starting s k"
  shows "readonly s = 0 \<and> eligible s k"
  using assms(1)
proof (cases rule: checkJobs_cases)
  case full
  with assms show ?thesis by simp
next
  case (frozen s1)
  with assms same_tables_views(1) [OF frozen(1)] readonly_loop_starting [of "candidate_pool s1" s1 k]
  show ?thesis by auto
next
  case (walk s1)
  with assms check_loop_eligible [of "candidate_pool s1" UNIV "jobs_to_start s1" 0 s1 k]
  show ?thesis by (auto simp: same_tables_views(1,2))
qed

theorem checkJobs_starts_only_eligible_witness:
  "\<exists>s'. checkJobs demo_server = Inr s' \<and> starting s' 8 \<and> readonly demo_server = 0 \<and> eligible demo_server 8"
proof -
  have "candidate_recalc demo_server" "readonly demo_server = 0" "max_run_jobs demo_server = UNLIMITED_JOBS"
    by (simp_all add: demo_server_def init_server_def)
  then obtain s' where s': "checkJobs demo_server = Inr s'" "starting s' 8"
    using checkJobs_head [OF demo_server_ok _ _ _ demo_pool demo_pend] by (auto simp: demo_job_def)
  have "\<not> starting demo_server 8"
    by (simp add: starting_def findJob_def demo_server_def demo_job_def job_zero_def table_simps)
  with s' checkJobs_starts_only_eligible [OF demo_server_ok s'] show ?thesis by blast
qed





text \<open>The system-wide limit can be exceeded: the walk compares the running and starting
  jobs with \<open>max_run_jobs\<close> by \<open>>\<close> where the queue limit is compared by \<open>\<ge>\<close>, so with as many
  jobs in flight as allowed one more is sent to an agent.\<close>

theorem system_limit_exceeded:
  "\<exists>s s'. server_ok s \<and> max_run_jobs s = 1 \<and> in_flight (stats_jobs s) = 1 \<and>
    checkJobs s = Inr s' \<and> in_flight (stats_jobs s') = 2"
proof -
  let ?j = "demo_job 7 100\<lparr>j_internal_state := JERS_FLAG_JOB_STARTED\<rparr>"
  let ?s = "demo_server\<lparr>max_run_jobs := 1, stats_jobs := stats_zero\<lparr>st_pending := 2, st_start_pending := 1\<rparr>,
    jobTable := [?j, demo_job 8 200]\<rparr>"
  have ok: "server_ok ?s"
    by (simp add: demo_defs server_ok_def tables_ok_def counters_ok_def stats_match_def tkeys_def
        job_states_def stat_get_def tcount_def)
  have prio: "queue_prio ?s x = 0" if "j_queue x = ''batch''" for x
    using that by (simp add: queue_prio_def findQueue_def table_simps demo_defs)
  have "filter is_candidate (jobTable ?s) = [?j, demo_job 8 200]"
    by (simp add: demo_defs is_candidate_def has_flag_def)
  moreover have "sched_comp ?s ?j (demo_job 8 200) = 100"
  proof -
    have "queue_prio ?s ?j = 0" "queue_prio ?s (demo_job 8 200) = 0"
      by (rule prio, simp add: demo_job_def)+
    then show ?thesis unfolding sched_comp_def by (simp only:) (simp add: demo_job_def int32_id)
  qed
  ultimately have pool: "qsort (sched_comp ?s) (filter is_candidate (jobTable ?s)) = [demo_job 8 200, ?j]"
    by simp
  have "pend_check ?s (demo_job 8 200) = JERS_PEND_NOREASON"
    by (simp add: demo_defs pend_check_def findQueue_def findAgent_def findResource_def
        checkRes_def table_simps has_flag_def int32_id)
  moreover have "candidate_recalc ?s" "readonly ?s = 0" "st_running (stats_jobs ?s) < max_run_jobs ?s"
    by (simp_all add: demo_defs)
  ultimately obtain s' where s': "checkJobs ?s = Inr s'" "in_flight (stats_jobs ?s) < in_flight (stats_jobs s')"
    using checkJobs_head [OF ok _ _ _ pool demo_pend(1)] by blast
  moreover have fl: "in_flight (stats_jobs ?s) = 1" by (simp add: in_flight_def stats_zero_def)
  moreover have "capacity_kept ?s s'"
    using ok s'(1)
    by (cases rule: checkJobs_cases) (auto intro: capacity_kept_refl readonly_loop_capacity check_loop_capacity
        capacity_kept_trans same_tables_views(3))
  then have "in_flight (stats_jobs s') \<le> 2"
    using fl by (simp add: capacity_kept_def)
  ultimately show ?thesis using ok by (intro exI [of _ ?s] exI [of _ s']) simp
qed

text \<open>C33. Deferred jobs are released exactly when due: with the deferred list in order,
  \<open>releaseDeferred\<close> turns every deferred job whose time has come into a pending job without
  a defer time, leaves every other job as it was, and keeps the counters and the deferred
  list right. Stopping at the first job that is not due misses none.\<close>

theorem releaseDeferred_exact:
  assumes "server_ok s" and "deferred_ok s"
  shows "server_ok (releaseDeferred now s) \<and> deferred_ok (releaseDeferred now s) \<and>
    released now s (releaseDeferred now s) k"
proof -
  let ?r = "release_loop now (deferred_list s) 0 s"
  have "releaseDeferred now s = (if fst ?r \<noteq> 0 then (snd ?r)\<lparr>candidate_recalc := True\<rparr> else snd ?r)"
    by (simp add: releaseDeferred_def split_def Let_def)
  then show ?thesis
    using release_loop_ok [OF assms refl, of now 0 k]
    by (auto simp: deferred_ok_def deferred_now_def released_def defer_of_def findJob_def split: option.splits)
qed

theorem releaseDeferred_exact_witness:
  "let s = init_server\<lparr>jobTable := [job_zero\<lparr>j_jobid := 3, j_queue := ''q'', j_state := JERS_JOB_DEFERRED, j_defer_time := 50\<rparr>],
           queueTable := [queue_zero\<lparr>q_name := ''q'', q_stats := stats_zero\<lparr>st_deferred := 1\<rparr>\<rparr>],
           stats_jobs := stats_zero\<lparr>st_deferred := 1\<rparr>, deferred_list := [3]\<rparr>
   in released 60 s (releaseDeferred 60 s) 3 \<and> 3 \<in> deferred_now s"
proof -
  let ?s = "init_server\<lparr>jobTable := [job_zero\<lparr>j_jobid := 3, j_queue := ''q'', j_state := JERS_JOB_DEFERRED, j_defer_time := 50\<rparr>],
      queueTable := [queue_zero\<lparr>q_name := ''q'', q_stats := stats_zero\<lparr>st_deferred := 1\<rparr>\<rparr>],
      stats_jobs := stats_zero\<lparr>st_deferred := 1\<rparr>, deferred_list := [3]\<rparr>"
  have ok: "server_ok ?s"
    by (simp add: demo_defs server_ok_def tables_ok_def counters_ok_def stats_match_def tkeys_def
        job_states_def stat_get_def tcount_def)
  have now: "deferred_now ?s = {3}"
    by (auto simp: deferred_now_def findJob_def table_simps job_zero_def split: if_splits)
  then have "deferred_ok ?s" by (simp add: deferred_ok_def)
  from releaseDeferred_exact [OF ok this, of 60 3] now show ?thesis by (simp only: Let_def) simp
qed

end
