(* ===== verification/Invariant.thy ===== *)
theory Invariant
  imports Sched
begin

section \<open>Invariant: what holds between two requests\<close>

text \<open>
  The state invariant of the daemon: the tables and counters agree (\<open>server_ok\<close>), a deleted
  job is counted nowhere, so that it can be cleaned up, and the default queue exists. The
  rules here say how the primitive operations of the components keep it; the command
  theories compose them.
\<close>

unbundle bit_operations_syntax

definition deleted_ok :: "server \<Rightarrow> bool" where
  "deleted_ok s \<longleftrightarrow>
     (\<forall>j \<in> set (jobTable s). has_flag (j_internal_state j) JERS_FLAG_DELETED \<longrightarrow> j_state j \<notin> job_states)"

definition qnames :: "server \<Rightarrow> string list" where
  "qnames s = map q_name (queueTable s)"

definition default_ok :: "server \<Rightarrow> bool" where
  "default_ok s \<longleftrightarrow> set_option (defaultQueue s) \<subseteq> set (qnames s)"

definition daemon_ok :: "server \<Rightarrow> bool" where
  "daemon_ok s \<longleftrightarrow> server_ok s \<and> deleted_ok s \<and> default_ok s"

lemma findQueue_iff: "findQueue s n \<noteq> None \<longleftrightarrow> n \<in> set (qnames s)"
  by (simp add: findQueue_def tfind_None_iff qnames_def)

lemma findQueue_None: "findQueue s n = None \<longleftrightarrow> n \<notin> set (qnames s)"
  using findQueue_iff by blast

lemma daemon_ok_keys:
  assumes "daemon_ok s"
  shows "tkeys j_jobid (jobTable s)" "tkeys q_name (queueTable s)" "tkeys r_name (resTable s)"
  using assms by (simp_all add: daemon_ok_def server_ok_def tables_ok_def)

lemma daemon_ok_default: "daemon_ok s \<Longrightarrow> defaultQueue s = Some n \<Longrightarrow> findQueue s n \<noteq> None"
  unfolding findQueue_iff by (simp add: daemon_ok_def default_ok_def)

lemma daemon_ok_deleted:
  "daemon_ok s \<Longrightarrow> findJob s k = Some j \<Longrightarrow> has_flag (j_internal_state j) JERS_FLAG_DELETED \<Longrightarrow>
   j_state j \<notin> job_states"
  by (auto simp: daemon_ok_def deleted_ok_def findJob_def dest: tfind_SomeD)

lemma daemon_ok_init: "daemon_ok init_server"
  using server_ok_init by (simp add: daemon_ok_def deleted_ok_def default_ok_def) (simp add: init_server_def)

subsection \<open>Frames\<close>

lemma map_q_name_tupd: "(\<And>q. q_name (f q) = q_name q) \<Longrightarrow> map q_name (tupd q_name n f t) = map q_name t"
  by (rule map_key_tupd)

lemma count_state_names [simp]:
  "qnames (count_state n f s) = qnames s" "defaultQueue (count_state n f s) = defaultQueue s"
  by (simp_all add: qnames_def map_q_name_tupd) (simp add: count_state_def on_queue_def)

lemma on_job_names [simp]:
  "qnames (on_job k f s) = qnames s" "defaultQueue (on_job k f s) = defaultQueue s"
  by (simp_all add: qnames_def on_job_def)

lemma on_res_names [simp]:
  "qnames (on_res k f s) = qnames s" "defaultQueue (on_res k f s) = defaultQueue s"
  by (simp_all add: qnames_def on_res_def)

lemma on_agent_names [simp]:
  "qnames (on_agent k f s) = qnames s" "defaultQueue (on_agent k f s) = defaultQueue s"
  by (simp_all add: qnames_def on_agent_def)

lemma updateJob_names [simp]:
  "qnames (updateJob k d s) = qnames s" "defaultQueue (updateJob k d s) = defaultQueue s"
  by (simp_all add: qnames_def updateJob_eq)

lemma generateEmail_names [simp]:
  "qnames (generateEmail j st s) = qnames s" "defaultQueue (generateEmail j st s) = defaultQueue s"
  by (simp_all add: qnames_def generateEmail_def addEmail_def)

lemma increment_state_names [simp]:
  "qnames (increment_state j s) = qnames s" "defaultQueue (increment_state j s) = defaultQueue s"
  by (simp_all add: increment_state_def Let_def qnames_def map_q_name_tupd)

lemma decrement_state_names [simp]:
  "qnames (decrement_state j s) = qnames s" "defaultQueue (decrement_state j s) = defaultQueue s"
  by (simp_all add: decrement_state_def)

lemma changeJobState_names [simp]:
  "qnames (changeJobState k st q d s) = qnames s" "defaultQueue (changeJobState k st q d s) = defaultQueue s"
  by (simp_all add: changeJobState_def Let_def split: option.split)

lemma deallocateRes_names [simp]:
  "qnames (deallocateRes j s) = qnames s" "defaultQueue (deallocateRes j s) = defaultQueue s"
proof -
  have "qnames (fold (\<lambda>(n, k). on_res n (res_give k)) rs s) = qnames s \<and>
      defaultQueue (fold (\<lambda>(n, k). on_res n (res_give k)) rs s) = defaultQueue s" for rs
    by (induction rs arbitrary: s) auto
  then show "qnames (deallocateRes j s) = qnames s" "defaultQueue (deallocateRes j s) = defaultQueue s"
    by (simp_all add: deallocateRes_def)
qed

lemma index_names [simp]:
  "qnames (addIndexTag k v s) = qnames s" "defaultQueue (addIndexTag k v s) = defaultQueue s"
  "qnames (delIndexTag k s) = qnames s" "defaultQueue (delIndexTag k s) = defaultQueue s"
  by (simp_all add: addIndexTag_def delIndexTag_def Let_def qnames_def on_job_def split: option.split)

lemma deferred_names [simp]:
  "qnames (addDeferredJob k s) = qnames s" "defaultQueue (addDeferredJob k s) = defaultQueue s"
  "qnames (removeDeferredJob k s) = qnames s" "defaultQueue (removeDeferredJob k s) = defaultQueue s"
  by (simp_all add: addDeferredJob_def removeDeferredJob_def qnames_def)

lemma default_ok_cong:
  "qnames s' = qnames s \<Longrightarrow> defaultQueue s' = defaultQueue s \<Longrightarrow> default_ok s' = default_ok s"
  by (simp add: default_ok_def)

lemma daemon_ok_frame [simp]:
  "daemon_ok (s\<lparr>stats_total := a\<rparr>) = daemon_ok s" "daemon_ok (s\<lparr>deleted := b\<rparr>) = daemon_ok s"
  "daemon_ok (s\<lparr>recovery := c\<rparr>) = daemon_ok s" "daemon_ok (s\<lparr>agentList := d\<rparr>) = daemon_ok s"
  "daemon_ok (s\<lparr>start_jobid := e\<rparr>) = daemon_ok s" "daemon_ok (s\<lparr>readonly := f\<rparr>) = daemon_ok s"
  "daemon_ok (s\<lparr>index_tag_table := g\<rparr>) = daemon_ok s" "daemon_ok (s\<lparr>deferred_list := h\<rparr>) = daemon_ok s"
  "daemon_ok (s\<lparr>candidate_recalc := i\<rparr>) = daemon_ok s"
  "daemon_ok (s\<lparr>dirty_jobs := i1\<rparr>) = daemon_ok s" "daemon_ok (s\<lparr>dirty_queues := i2\<rparr>) = daemon_ok s"
  "daemon_ok (s\<lparr>dirty_resources := i3\<rparr>) = daemon_ok s"
  by (simp_all add: daemon_ok_def deleted_ok_def default_ok_def qnames_def)

subsection \<open>Operations on jobs\<close>

text \<open>An update that touches neither the key, the queue, the state nor the internal flags of a job.\<close>

definition light :: "(job \<Rightarrow> job) \<Rightarrow> bool" where
  "light f \<longleftrightarrow> (\<forall>j. j_jobid (f j) = j_jobid j \<and> j_queue (f j) = j_queue j \<and> j_state (f j) = j_state j \<and>
     j_internal_state (f j) = j_internal_state j)"

lemma deleted_ok_tupd:
  assumes "deleted_ok s" and "\<And>j. j \<in> set (jobTable s) \<Longrightarrow> j_jobid j = k \<Longrightarrow>
      has_flag (j_internal_state (f j)) JERS_FLAG_DELETED \<Longrightarrow> j_state (f j) \<notin> job_states"
    and "jobTable s' = tupd j_jobid k f (jobTable s)"
  shows "deleted_ok s'"
  using assms by (auto simp: deleted_ok_def set_tupd split: if_splits)

lemma daemon_ok_on_job [inv_rules]:
  assumes "light f" and "daemon_ok s"
  shows "daemon_ok (on_job k f s)"
proof -
  have "server_ok (on_job k f s)"
    using assms by (intro server_ok_on_job) (simp_all add: light_def daemon_ok_def)
  moreover have "deleted_ok (on_job k f s)"
    using assms by (auto simp: light_def daemon_ok_def deleted_ok_def set_tupd)
  ultimately show ?thesis using assms by (simp add: daemon_ok_def default_ok_def)
qed

lemma light_revision: "light (\<lambda>j. j\<lparr>j_revision := j_revision j + 1, j_dirty := j_dirty j \<or> d\<rparr>)"
  and light_index: "light (\<lambda>j. j\<lparr>j_index_table := v\<rparr>)"
  by (simp_all add: light_def)

lemma daemon_ok_updateJob [inv_rules]: "daemon_ok s \<Longrightarrow> daemon_ok (updateJob k d s)"
  using daemon_ok_on_job [OF light_revision] by (simp add: updateJob_eq)

lemma daemon_ok_index [inv_rules]:
  "daemon_ok s \<Longrightarrow> daemon_ok (addIndexTag k v s)" "daemon_ok s \<Longrightarrow> daemon_ok (delIndexTag k s)"
  by (simp_all add: addIndexTag_def delIndexTag_def Let_def daemon_ok_on_job light_index split: option.split)

lemma daemon_ok_deferred [inv_rules]:
  "daemon_ok s \<Longrightarrow> daemon_ok (addDeferredJob k s)" "daemon_ok s \<Longrightarrow> daemon_ok (removeDeferredJob k s)"
  by (simp_all add: addDeferredJob_def removeDeferredJob_def)

lemma daemon_ok_deallocateRes [inv_rules]: "daemon_ok s \<Longrightarrow> daemon_ok (deallocateRes j s)"
  by (auto simp: daemon_ok_def server_ok_deallocateRes deleted_ok_def default_ok_def)

lemma daemon_ok_on_agent [inv_rules]: "daemon_ok s \<Longrightarrow> daemon_ok (on_agent n f s)"
  by (auto simp: daemon_ok_def server_ok_on_agent deleted_ok_def default_ok_def)

text \<open>A job that is not deleted, or that is leaving every counter, may change its state.\<close>

lemma jobTable_changeJobState:
  assumes "tkeys j_jobid (jobTable s)" and "findJob s k = Some j"
  shows "jobTable (changeJobState k st q d s) =
    tupd j_jobid k (\<lambda>j. (requeue st q j)\<lparr>j_revision := j_revision j + 1, j_dirty := j_dirty j \<or> d\<rparr>) (jobTable s)"
proof -
  have same: "requeue st q j = j" if "\<not> (j_state j \<noteq> st \<or> q \<noteq> None)"
    using that by (auto simp: requeue_same)
  have "tupd j_jobid k (\<lambda>j. (requeue st q j)\<lparr>j_revision := j_revision j + 1, j_dirty := j_dirty j \<or> d\<rparr>) (jobTable s) =
      tupd j_jobid k (\<lambda>j. j\<lparr>j_revision := j_revision j + 1, j_dirty := j_dirty j \<or> d\<rparr>) (jobTable s)"
    if "\<not> (j_state j \<noteq> st \<or> q \<noteq> None)"
    using assms same [OF that] by (intro tupd_cong_key [where v = j]) (simp_all add: findJob_def)
  then show ?thesis
    by (auto simp: changeJobState_eq [OF assms] Let_def tupd_tupd) (auto simp: requeue_def)
qed

lemma daemon_ok_changeJobState [inv_rules]:
  assumes "daemon_ok s" and "case q of Some n \<Rightarrow> findQueue s n \<noteq> None | None \<Rightarrow> True"
    and "\<And>j. findJob s k = Some j \<Longrightarrow> st \<notin> job_states \<or> \<not> has_flag (j_internal_state j) JERS_FLAG_DELETED"
  shows "daemon_ok (changeJobState k st q d s)"
proof (cases "findJob s k")
  case None
  with assms show ?thesis by (simp add: changeJobState_def)
next
  case (Some j)
  note keys = daemon_ok_keys(1) [OF assms(1)]
  have same: "findJob s k = Some j'" if "j' \<in> set (jobTable s)" "j_jobid j' = k" for j'
    using that keys by (auto simp: findJob_def tfind_mem)
  have "deleted_ok (changeJobState k st q d s)"
    by (rule deleted_ok_tupd [OF _ _ jobTable_changeJobState [OF keys Some]])
      (use assms(1) in \<open>simp add: daemon_ok_def\<close>, use assms(3) same in fastforce)
  then show ?thesis
    using assms by (auto simp: daemon_ok_def default_ok_def intro!: changeJobState_ok)
qed

text \<open>Adding, deleting and cleaning up.\<close>

lemma index_new_job_names [simp]:
  "qnames (index_new_job tag k kvs s) = qnames s" "defaultQueue (index_new_job tag k kvs s) = defaultQueue s"
  by (induction tag k kvs s rule: index_new_job.induct) auto

lemma daemon_ok_index_new_job [inv_rules]: "daemon_ok s \<Longrightarrow> daemon_ok (index_new_job tag k kvs s)"
  by (induction tag k kvs s rule: index_new_job.induct) (auto intro: daemon_ok_index)

lemma daemon_ok_add_uncounted:
  assumes "daemon_ok s" and "findJob s (j_jobid j) = None" and "findQueue s (j_queue j) \<noteq> None"
    and "j_state j \<notin> job_states"
  shows "daemon_ok (s\<lparr>jobTable := tadd j (jobTable s)\<rparr>)"
  using assms server_ok_add_uncounted [of s j]
  by (auto simp: daemon_ok_def deleted_ok_def default_ok_def qnames_def)

lemma findJob_index_new_job:
  "map_option j_internal_state (findJob (index_new_job tag k kvs s) k') = map_option j_internal_state (findJob s k')"
proof (induction tag k kvs s rule: index_new_job.induct)
  case (2 tag k key v kvs s)
  then show ?case
    by (auto simp: addIndexTag_def Let_def findJob_on_job option.map_comp comp_def)
qed simp

lemma daemon_ok_addJob [inv_rules]:
  assumes "daemon_ok s" and "findQueue s (j_queue j) \<noteq> None"
    and "\<not> has_flag (j_internal_state j) JERS_FLAG_DELETED"
  shows "daemon_ok (snd (addJob j dirty s))"
proof (cases "findJob s (j_jobid j) = None")
  case True
  let ?k = "j_jobid j"
  let ?s1 = "s\<lparr>jobTable := tadd (j\<lparr>j_state := 0\<rparr>) (jobTable s)\<rparr>"
  let ?s2 = "case index_tag ?s1 of None \<Rightarrow> ?s1 | Some tag \<Rightarrow> index_new_job tag ?k (j_tags j) ?s1"
  let ?s3 = "if j_defer_time j \<noteq> 0 then addDeferredJob ?k ?s2 else ?s2"
  have "daemon_ok ?s1" using assms True by (intro daemon_ok_add_uncounted) simp_all
  then have ok: "daemon_ok ?s3" by (auto intro: daemon_ok_index_new_job daemon_ok_deferred split: option.split)
  have "findJob ?s1 ?k = Some (j\<lparr>j_state := 0\<rparr>)"
    using True by (simp add: findJob_def tfind_tadd)
  then have "map_option j_internal_state (findJob ?s2 ?k) = Some (j_internal_state j)"
    by (cases "index_tag s") (simp_all add: findJob_index_new_job del: map_option_eq_Some)
  then have "map_option j_internal_state (findJob ?s3 ?k) = Some (j_internal_state j)"
    by (simp add: addDeferredJob_def)
  then have "daemon_ok (changeJobState ?k (j_state j) None dirty ?s3)"
    using ok assms(3) by (intro daemon_ok_changeJobState) auto
  then show ?thesis using True by (simp add: addJob_def Let_def)
next
  case False
  with assms show ?thesis by (auto simp: addJob_def Let_def)
qed

lemma daemon_ok_delete_flag:
  assumes "daemon_ok s"
  shows "daemon_ok (changeJobState k 0 None d
    (on_job k (\<lambda>j. j\<lparr>j_internal_state := set_flag (j_internal_state j) JERS_FLAG_DELETED\<rparr>) s))"
    (is "daemon_ok (changeJobState k 0 None d ?s)")
proof (cases "findJob ?s k")
  case None
  then have "findJob s k = None" by (simp add: findJob_on_job)
  then have "?s = s" by (simp add: on_job_def findJob_def tupd_absent)
  with None assms show ?thesis by (simp add: changeJobState_def)
next
  case (Some j)
  have keys: "tkeys j_jobid (jobTable ?s)" using daemon_ok_keys [OF assms] by (simp add: tkeys_tupd)
  have "server_ok (changeJobState k 0 None d ?s)"
    using assms by (intro changeJobState_ok server_ok_on_job) (simp_all add: daemon_ok_def)
  moreover have "deleted_ok (changeJobState k 0 None d ?s)"
  proof (rule deleted_ok_tupd)
    show "deleted_ok s" using assms by (simp add: daemon_ok_def)
    let ?g = "\<lambda>j. j\<lparr>j_internal_state := set_flag (j_internal_state j) JERS_FLAG_DELETED\<rparr>"
    let ?f = "\<lambda>j. (requeue 0 None j)\<lparr>j_revision := j_revision j + 1, j_dirty := j_dirty j \<or> d\<rparr>"
    show "jobTable (changeJobState k 0 None d ?s) = tupd j_jobid k (\<lambda>j. ?f (?g j)) (jobTable s)"
      unfolding jobTable_changeJobState [OF keys Some] on_job_frame by (rule tupd_tupd) simp
    show "j_state (?f (?g j)) \<notin> job_states" for j by simp
  qed
  ultimately show ?thesis using assms by (simp add: daemon_ok_def default_ok_def)
qed

lemma daemon_ok_deleteJob [inv_rules]: "daemon_ok s \<Longrightarrow> daemon_ok (deleteJob k s)"
  unfolding deleteJob_def Let_def by (simp add: daemon_ok_delete_flag daemon_ok_deferred)

lemma daemon_ok_cleanupJob [inv_rules]:
  assumes "daemon_ok s" and "\<And>j. findJob s k = Some j \<Longrightarrow> j_state j \<notin> job_states"
  shows "daemon_ok (snd (cleanupJob k s))"
proof -
  let ?s = "if index_tag (stateDelJob k s) \<noteq> None then delIndexTag k (stateDelJob k s) else stateDelJob k s"
  have "daemon_ok (stateDelJob k s)"
    using assms(1) by (simp add: stateDelJob_def daemon_ok_def deleted_ok_def default_ok_def qnames_def)
  then have "daemon_ok ?s" by (simp add: daemon_ok_index)
  then have ok: "deleted_ok ?s" "default_ok ?s" by (simp_all only: daemon_ok_def)
  have "deleted_ok (s'\<lparr>jobTable := tdel j_jobid k (jobTable s'), candidate_pool := p, deleted := d\<rparr>)"
    if "deleted_ok s'" for s' p d
    using that by (auto simp: deleted_ok_def set_tdel)
  moreover have "default_ok (s'\<lparr>jobTable := t, candidate_pool := p, deleted := d\<rparr>)"
    if "default_ok s'" for s' t p d
    using that by (simp add: default_ok_def qnames_def)
  ultimately have "deleted_ok (snd (cleanupJob k s)) \<and> default_ok (snd (cleanupJob k s))"
    using assms(1) ok unfolding cleanupJob_def Let_def daemon_ok_def
    by (cases "index_tag (stateDelJob k s)") (simp_all split: option.split)
  then show ?thesis using assms by (simp add: daemon_ok_def server_ok_cleanupJob)
qed

lemma cleanupJob_names [simp]: "qnames (snd (cleanupJob k s)) = qnames s"
proof -
  have "qnames (stateDelJob k s) = qnames s" by (simp add: stateDelJob_def qnames_def)
  moreover have "qnames (s'\<lparr>jobTable := t, candidate_pool := p, deleted := d\<rparr>) = qnames s'" for s' t p d
    by (simp add: qnames_def)
  ultimately show ?thesis by (simp add: cleanupJob_def Let_def split: option.split)
qed

lemma cleanup_jobs_loop_names: "qnames (snd (cleanup_jobs_loop js m n s)) = qnames s"
  by (induction js m n s rule: cleanup_jobs_loop.induct) (simp_all add: Let_def)

lemma cleanupJobs_names: "qnames (snd (cleanupJobs m s)) = qnames s"
  by (simp add: cleanupJobs_def cleanup_jobs_loop_names)

lemma findJob_cleanupJob:
  assumes "findJob (snd (cleanupJob k s)) k' = Some j"
  shows "\<exists>j'. findJob s k' = Some j' \<and> j_state j = j_state j' \<and> j_internal_state j = j_internal_state j'"
  using assms
  by (auto simp: cleanupJob_def Let_def stateDelJob_def delIndexTag_def findJob_def tfind_tdel tfind_tupd
      split: option.splits if_splits)

lemma daemon_ok_cleanup_jobs_loop:
  assumes "daemon_ok s" and "list_all (\<lambda>j. has_flag (j_internal_state j) JERS_FLAG_DELETED \<longrightarrow>
      (\<forall>j'. findJob s (j_jobid j) = Some j' \<longrightarrow> j_state j' \<notin> job_states)) js"
  shows "daemon_ok (snd (cleanup_jobs_loop js m n s))"
  using assms
proof (induction js m n s rule: cleanup_jobs_loop.induct)
  case (2 j js m n s)
  let ?s = "snd (cleanupJob (j_jobid j) s)"
  show ?case
  proof (cases "has_flag (j_internal_state j) JERS_FLAG_DELETED")
    case True
    then have ok: "daemon_ok ?s" using 2(3,4) by (intro daemon_ok_cleanupJob) auto
    have "list_all (\<lambda>j. has_flag (j_internal_state j) JERS_FLAG_DELETED \<longrightarrow>
        (\<forall>j'. findJob ?s (j_jobid j) = Some j' \<longrightarrow> j_state j' \<notin> job_states)) js"
      using 2(4) by (auto simp: list_all_iff dest!: findJob_cleanupJob)
    with True ok 2(2) show ?thesis by (auto simp: Let_def)
  next
    case False
    with 2 show ?thesis by simp
  qed
qed simp

lemma daemon_ok_cleanupJobs [inv_rules]: "daemon_ok s \<Longrightarrow> daemon_ok (snd (cleanupJobs m s))"
proof -
  assume ok: "daemon_ok s"
  have "\<forall>j'. findJob s (j_jobid j) = Some j' \<longrightarrow> j_state j' \<notin> job_states"
    if "j \<in> set (jobTable s)" "has_flag (j_internal_state j) JERS_FLAG_DELETED" for j
    using that ok daemon_ok_keys(1) [OF ok]
    by (auto simp: findJob_def tfind_mem daemon_ok_def deleted_ok_def)
  then show ?thesis
    using ok by (auto simp: cleanupJobs_def list_all_iff intro!: daemon_ok_cleanup_jobs_loop)
qed

lemma next_free_unused: "next_free s i jid = Some k \<Longrightarrow> findJob s k = None"
proof (induction s i jid rule: next_free.induct)
  case (2 s i jid)
  then show ?case by (simp only: next_free.simps Let_def split: if_splits) blast+
qed simp

lemma getNextJobID_keeps:
  "getNextJobID s = Some r \<Longrightarrow> daemon_ok s \<longrightarrow>
     daemon_ok (snd r) \<and> qnames (snd r) = qnames s \<and> (fst r \<noteq> 0 \<longrightarrow> findJob (snd r) (fst r) = None)"
proof (rule getNextJobID.raw_induct [where P = "\<lambda>s r. daemon_ok s \<longrightarrow> daemon_ok (snd r) \<and>
    qnames (snd r) = qnames s \<and> (fst r \<noteq> 0 \<longrightarrow> findJob (snd r) (fst r) = None)"])
  fix f :: "server \<Rightarrow> (nat \<times> server) option" and s :: server and r
  assume IH: "\<And>x y. f x = Some y \<Longrightarrow> daemon_ok x \<longrightarrow> daemon_ok (snd y) \<and> qnames (snd y) = qnames x \<and>
      (fst y \<noteq> 0 \<longrightarrow> findJob (snd y) (fst y) = None)"
    and body: "(case next_free s (max_jobid s) (start_jobid s) of
        None \<Rightarrow> case cleanupJobs 5 s of (n, s') \<Rightarrow> if n \<noteq> 0 then f s' else Some (0, s')
      | Some jid \<Rightarrow> Some (jid, s\<lparr>start_jobid := jid\<rparr>)) = Some r"
  obtain n t where t: "cleanupJobs 5 s = (n, t)" by fastforce
  have "daemon_ok s \<longrightarrow> daemon_ok t" "qnames t = qnames s"
    using daemon_ok_cleanupJobs [of s 5] cleanupJobs_names [of 5 s] t by simp_all
  then show "daemon_ok s \<longrightarrow> daemon_ok (snd r) \<and> qnames (snd r) = qnames s \<and>
      (fst r \<noteq> 0 \<longrightarrow> findJob (snd r) (fst r) = None)"
    using IH body [unfolded t] by (auto dest!: next_free_unused simp: qnames_def split: option.splits if_splits)
qed

end
