(* ===== verification/Commands.thy ===== *)
theory Commands
  imports Invariant
begin

section \<open>Commands: replies and permissions, commands.c and error.c\<close>

text \<open>
  What every command handler shares: the environment of a command (\<open>world\<close>: the clock, the
  user database, the local host name and the system's glob matcher), the replies sent to a
  client (\<open>sendError\<close>, \<open>sendClientReturnCode\<close>, \<open>sendClientMessage\<close> of
  \<open>src/src/commands.c\<close>) with their bytes, the error names of \<open>src/src/error.c\<close> and the
  permission checks. A handler takes the client, \<open>None\<close> when the journal is replayed, and
  returns either a fault (a NULL pointer it dereferences, a loop that does not end) or its
  \<open>outcome\<close>: the status it returns, the replies it sent, the \<open>jobid\<close> and \<open>revision\<close> it left in
  the message for the journal, the callback it blocked the client on, and the server.
\<close>

unbundle bit_operations_syntax

abbreviation (input) JERS_ERR_NOJOB :: int where "JERS_ERR_NOJOB \<equiv> 1"
abbreviation (input) JERS_ERR_NOPERM :: int where "JERS_ERR_NOPERM \<equiv> 2"
abbreviation (input) JERS_ERR_NOQUEUE :: int where "JERS_ERR_NOQUEUE \<equiv> 3"
abbreviation (input) JERS_ERR_INVARG :: int where "JERS_ERR_INVARG \<equiv> 4"
abbreviation (input) JERS_ERR_INVTAG :: int where "JERS_ERR_INVTAG \<equiv> 5"
abbreviation (input) JERS_ERR_NOTAG :: int where "JERS_ERR_NOTAG \<equiv> 6"
abbreviation (input) JERS_ERR_JOBEXISTS :: int where "JERS_ERR_JOBEXISTS \<equiv> 7"
abbreviation (input) JERS_ERR_RESEXISTS :: int where "JERS_ERR_RESEXISTS \<equiv> 8"
abbreviation (input) JERS_ERR_QUEUEEXISTS :: int where "JERS_ERR_QUEUEEXISTS \<equiv> 9"
abbreviation (input) JERS_ERR_NOTEMPTY :: int where "JERS_ERR_NOTEMPTY \<equiv> 10"
abbreviation (input) JERS_ERR_NORES :: int where "JERS_ERR_NORES \<equiv> 11"
abbreviation (input) JERS_ERR_NOCHANGE :: int where "JERS_ERR_NOCHANGE \<equiv> 13"
abbreviation (input) JERS_ERR_INVSTATE :: int where "JERS_ERR_INVSTATE \<equiv> 14"
abbreviation (input) JERS_ERR_RESINUSE :: int where "JERS_ERR_RESINUSE \<equiv> 20"
abbreviation (input) JERS_ERR_READONLY :: int where "JERS_ERR_READONLY \<equiv> 21"
abbreviation (input) JERS_ERR_TIMEOUT :: int where "JERS_ERR_TIMEOUT \<equiv> 23"
abbreviation (input) JERS_ERR_UNKNOWN :: int where "JERS_ERR_UNKNOWN \<equiv> 24"

subsection \<open>Errors\<close>

definition jers_errors :: "(string \<times> string) list" where
  "jers_errors =
     [(''JERS_ERR_OK'', ''Success''),
      (''JERS_ERR_NOJOB'', ''Job not found''),
      (''JERS_ERR_NOPERM'', ''Permission denied''),
      (''JERS_ERR_NOQUEUE'', ''Queue not found''),
      (''JERS_ERR_INVARG'', ''Invalid argument provided''),
      (''JERS_ERR_INVTAG'', ''Invalid tag provided''),
      (''JERS_ERR_NOTAG'', ''Tag not found''),
      (''JERS_ERR_JOBEXISTS'', ''Job already exists''),
      (''JERS_ERR_RESEXISTS'', ''Resource already exists''),
      (''JERS_ERR_QUEUEEXISTS'', ''Queue already exists''),
      (''JERS_ERR_NOTEMPTY'', ''Queue is not empty''),
      (''JERS_ERR_NORES'', ''Resource not found''),
      (''JERS_ERR_INIT'', ''Failed to initalise''),
      (''JERS_ERR_NOCHANGE'', ''Nothing to update''),
      (''JERS_ERR_INVSTATE'', ''Invalid state''),
      (''JERS_ERR_MEM'', ''Out of memory''),
      (''JERS_ERR_INVRESP'', ''Invalid message received''),
      (''JERS_ERR_ERECV'', ''Error receiving data from''),
      (''JERS_ERR_ESEND'', ''Error sending data''),
      (''JERS_ERR_DISCONNECT'', ''Disconnected from daemon''),
      (''JERS_ERR_RESINUSE'', ''Resource is in use''),
      (''JERS_ERR_READONLY'', ''JERS is in readonly mode''),
      (''JERS_ERR_NOTCONN'', ''Not connected''),
      (''JERS_ERR_TIMEOUT'', ''Timed out''),
      (''JERS_ERR_UNKNOWN'', ''Unknown error occurred'')]"

definition jers_pend_reasons :: "string list" where
  "jers_pend_reasons =
     [[], ''System max jobs reached'', ''Queue limit reached'', ''Waiting for resources'',
      ''Queue stopped'', ''Agent not connected'', ''Waiting for agent to confirm start'',
      ''Agent starting'', ''Readonly mode - Not running jobs'', ''Unknown reason'']"

definition jers_fail_reasons :: "string list" where
  "jers_fail_reasons =
     [[], ''Failed to read completion information'', ''Failed to read PID of started job'',
      ''Failed to create log file'', ''Failed to create temporary script'', ''Failed to start job'',
      ''Failed to initalise job'', ''Got signal while starting job'', ''Unknown reason'']"

fun errno_from :: "(string \<times> string) list \<Rightarrow> int \<Rightarrow> string \<Rightarrow> int" where
  "errno_from [] i str = JERS_ERR_UNKNOWN"
| "errno_from ((n, m) # es) i str = (if n = str then i else errno_from es (i + 1) str)"

definition lookup_jers_errno :: "string \<Rightarrow> int" where
  "lookup_jers_errno str = errno_from jers_errors 0 str"

definition getErrMsg :: "int \<Rightarrow> string" where
  "getErrMsg e = snd (jers_errors ! nat (if e < 0 \<or> e > JERS_ERR_UNKNOWN then JERS_ERR_UNKNOWN else e))"

definition getErrType :: "int \<Rightarrow> string" where
  "getErrType e = fst (jers_errors ! nat (if e < 0 \<or> e > JERS_ERR_UNKNOWN then JERS_ERR_UNKNOWN else e))"

definition getPendString :: "int \<Rightarrow> string" where
  "getPendString r = (if r < 0 \<or> r > 9 then ''Invalid reason code provided'' else jers_pend_reasons ! nat r)"

definition getFailString :: "int \<Rightarrow> string" where
  "getFailString r = (if r < 0 \<or> r > 8 then ''Invalid reason code provided'' else jers_fail_reasons ! nat r)"

text \<open>
  \<open>getJersErrno\<close> reads the error text with \<open>sscanf\<close>: the conversion for the type skips white
  space and takes up to 31 other characters, the blank in the format skips white space, and
  the last conversion takes up to 127 characters that are no newline. \<open>None\<close> is the
  message pointer left alone or set to NULL.
\<close>

definition scan_ws :: "char \<Rightarrow> bool" where
  "scan_ws c \<longleftrightarrow> is_ws c \<or> c \<in> {NL, CHR 0x0B, CHR 0x0C, CHR 0x0D}"

definition getJersErrno :: "string \<Rightarrow> int \<times> string option" where
  "getJersErrno str =
     (let t = dropWhile scan_ws str; ty = take 31 (takeWhile (\<lambda>c. \<not> scan_ws c) t);
          m = take 127 (takeWhile (\<lambda>c. c \<noteq> NL) (dropWhile scan_ws (drop (length ty) t)))
      in if ty = [] then (JERS_ERR_UNKNOWN, None)
         else (lookup_jers_errno ty, if m = [] then None else Some m))"

subsection \<open>Fields of a request\<close>

text \<open>
  The members of the union a field's number selects. The loader stores each field with the
  kind its number has in the table and the handlers read it as that kind, so the other
  alternatives are never taken.
\<close>

definition getNumberField :: "field \<Rightarrow> int" where
  "getNumberField f = (case f_value f of FNum v \<Rightarrow> v | _ \<Rightarrow> 0)"

definition getBoolField :: "field \<Rightarrow> int" where
  "getBoolField f = (case f_value f of FBool v \<Rightarrow> if v then 1 else 0 | _ \<Rightarrow> 0)"

definition getStringOf :: "field \<Rightarrow> string" where
  "getStringOf f = getStringField (case f_value f of FStr v \<Rightarrow> v | _ \<Rightarrow> None)"

definition getStringArrayField :: "field \<Rightarrow> string option list" where
  "getStringArrayField f = (case f_value f of FStrs v \<Rightarrow> v | _ \<Rightarrow> [])"

definition getStringMapField :: "field \<Rightarrow> (string \<times> string option) list" where
  "getStringMapField f = (case f_value f of FMap v \<Rightarrow> v | _ \<Rightarrow> [])"

text \<open>
  The deserializers read \<open>items[0]\<close> without looking at the number of items: a message
  without fields has no item array and the read goes through NULL.
\<close>

definition deserialize :: "(field \<Rightarrow> 'a \<Rightarrow> 'a) \<Rightarrow> 'a \<Rightarrow> msg \<Rightarrow> fault + 'a" where
  "deserialize set_field init m =
     (case m_items m of [] \<Rightarrow> Inl NullPointer | it # _ \<Rightarrow> Inr (fold set_field (item_fields it) init))"

subsection \<open>Outcomes and replies\<close>

record world =
  w_now :: int
  w_now_ms :: int
  w_users :: "int \<Rightarrow> user option"
  w_host :: string
  w_fnmatch :: fnmatch

datatype reply =
    RError int "string option"
  | RReturn string
  | RData bool "field list list"

record jersJobWait =
  jw_jobid :: nat
  jw_revision :: int
  jw_timeout :: int

record blocking =
  bl_data :: jersJobWait
  bl_timeout :: int

record outcome =
  o_status :: int
  o_replies :: "reply list"
  o_jobid :: nat
  o_revision :: int
  o_blocking :: "blocking option"
  o_server :: server

type_synonym result = "fault + outcome"

definition finish :: "int \<Rightarrow> reply list \<Rightarrow> server \<Rightarrow> outcome" where
  "finish status replies s =
     \<lparr>o_status = status, o_replies = replies, o_jobid = 0, o_revision = 0, o_blocking = None,
      o_server = s\<rparr>"

definition bindR :: "fault + 'a \<Rightarrow> ('a \<Rightarrow> fault + 'b) \<Rightarrow> fault + 'b" where
  "bindR r k = (case r of Inl e \<Rightarrow> Inl e | Inr x \<Rightarrow> k x)"

definition sendError :: "client option \<Rightarrow> int \<Rightarrow> string option \<Rightarrow> reply list" where
  "sendError c err m = (case c of None \<Rightarrow> [] | Some _ \<Rightarrow> [RError err m])"

text \<open>\<open>sendErrorFmt\<close> formats into a buffer of 1024 bytes.\<close>

definition sendErrorFmt :: "client option \<Rightarrow> int \<Rightarrow> string \<Rightarrow> reply list" where
  "sendErrorFmt c err m = sendError c err (Some (take 1023 m))"

text \<open>A handler that sends an error and returns a status.\<close>

definition fail :: "client option \<Rightarrow> int \<Rightarrow> string option \<Rightarrow> int \<Rightarrow> server \<Rightarrow> result" where
  "fail c err m status s = Inr (finish status (sendError c err m) s)"

definition sendClientReturnCode :: "client option \<Rightarrow> int option \<Rightarrow> string \<Rightarrow> server \<Rightarrow> result" where
  "sendClientReturnCode c revision ret s =
     Inr (case c of
            None \<Rightarrow> finish (if rec_in_progress (recovery s) then 0 else 1) [] s
          | Some _ \<Rightarrow> (finish 0 [RReturn ret] s)\<lparr>o_revision := case revision of Some r \<Rightarrow> r | None \<Rightarrow> 0\<rparr>)"

definition sendClientMessage :: "client option \<Rightarrow> int option \<Rightarrow> field list list \<Rightarrow> server \<Rightarrow> result" where
  "sendClientMessage c revision objs s =
     Inr (case c of
            None \<Rightarrow> finish (if rec_in_progress (recovery s) then 0 else 1) [] s
          | Some _ \<Rightarrow> (finish 0 [RData (readonly s \<noteq> 0) objs] s)
                        \<lparr>o_revision := case revision of Some r \<Rightarrow> r | None \<Rightarrow> 0\<rparr>)"

text \<open>
  The bytes of a reply. The text of an error is formatted into 1024 bytes; a data reply is
  announced by \<open>initClientResponse\<close>, which adds an alert in read-only mode, holds one object
  per entry and is closed by \<open>closeResponse\<close>.
\<close>

fun JSONAddObjects :: "allocator \<Rightarrow> buff \<Rightarrow> field list list \<Rightarrow> fault + buff" where
  "JSONAddObjects alloc b [] = Inr b"
| "JSONAddObjects alloc b (fs # fss) =
     bindR (JSONStartObject alloc b None) (\<lambda>b.
     bindR (JSONAddFields alloc b fs) (\<lambda>b.
     bindR (JSONEndObject alloc b) (\<lambda>b.
     JSONAddObjects alloc b fss)))"

definition initClientResponse :: "allocator \<Rightarrow> bool \<Rightarrow> int \<Rightarrow> (fault + buff) option" where
  "initClientResponse alloc alert version =
     (if alert then initResponseAlert alloc version (Some ''ReadOnly mode is active'')
      else initResponse alloc version)"

definition error_text :: "int \<Rightarrow> string option \<Rightarrow> string" where
  "error_text err m =
     take 1023 (getErrType err @ '' '' @ (case m of Some t \<Rightarrow> t | None \<Rightarrow> []))"

definition encode_reply :: "allocator \<Rightarrow> reply \<Rightarrow> (fault + buff) option" where
  "encode_reply alloc r =
     (case r of
        RError err m \<Rightarrow>
          map_option (\<lambda>b. bindR (JSONStart alloc b) (\<lambda>b.
            bindR (JSONAddString alloc b ERROR (Some (error_text err m))) (JSONEnd alloc)))
            (buffNew alloc 128)
      | RReturn ret \<Rightarrow>
          map_option (\<lambda>b. bindR (JSONStart alloc b) (\<lambda>b.
            bindR (JSONStartObject alloc b (Some ''resp'')) (\<lambda>b.
            bindR (JSONAddString alloc b RETURNCODE (Some ret)) (\<lambda>b.
            bindR (JSONEndObject alloc b) (JSONEnd alloc)))))
            (buffNew alloc 32)
      | RData alert objs \<Rightarrow>
          map_option (\<lambda>r. bindR r (\<lambda>b.
            bindR (JSONAddObjects alloc b objs) (closeResponse alloc)))
            (initClientResponse alloc alert 1))"

subsection \<open>Permissions\<close>

definition group_perm :: "int list \<Rightarrow> int \<Rightarrow> flags \<Rightarrow> flags \<Rightarrow> flags" where
  "group_perm groups g perm p = (if g \<in> set groups then set_flag p perm else p)"

definition loadPermissions :: "server \<Rightarrow> user \<Rightarrow> user" where
  "loadPermissions s u =
     (let gs = permissions s
      in u\<lparr>u_permissions :=
             fold (\<lambda>g. group_perm (g_queue gs) g PERM_QUEUE \<circ> group_perm (g_setuid gs) g PERM_SETUID \<circ>
                       group_perm (g_write gs) g PERM_WRITE \<circ> group_perm (g_read gs) g PERM_READ \<circ>
                       group_perm (g_self gs) g PERM_SELF) (u_group_list u) 0\<rparr>)"

text \<open>
  \<open>validateUserAction\<close> looks the user up and stores it in the client; a cached user whose
  permissions are \<open>-1\<close> has them computed first.
\<close>

definition validateUserAction :: "world \<Rightarrow> server \<Rightarrow> client \<Rightarrow> flags \<Rightarrow> int \<times> client" where
  "validateUserAction w s c required_perm =
     (if c_uid c = 0 then (0, c)
      else case w_users w (c_uid c) of
             None \<Rightarrow> (1, c)
           | Some u \<Rightarrow>
               (let u = (if u_permissions u = -1 then loadPermissions s u else u)
                in (if u_permissions u AND required_perm \<noteq> required_perm then 1 else 0,
                    c\<lparr>c_user := u\<rparr>)))"

definition check_perm :: "server \<Rightarrow> client \<Rightarrow> int \<Rightarrow> flags \<Rightarrow> int" where
  "check_perm s c job_uid required_perm =
     (if c_uid c = 0 then 0
      else if c_uid c = job_uid then
        (if g_self (permissions s) \<noteq> [] \<and> u_permissions (c_user c) AND PERM_SELF \<noteq> PERM_SELF then 1 else 0)
      else if u_permissions (c_user c) AND required_perm \<noteq> required_perm then 1
      else 0)"

text \<open>The permission guard of the job commands; it is skipped while the journal is replayed.\<close>

definition guard_perm :: "client option \<Rightarrow> int \<Rightarrow> flags \<Rightarrow> server \<Rightarrow> result \<Rightarrow> result" where
  "guard_perm c job_uid required_perm s k =
     (case c of
        None \<Rightarrow> Inl NullPointer
      | Some cl \<Rightarrow> if check_perm s cl job_uid required_perm \<noteq> 0 then fail c JERS_ERR_NOPERM None (-1) s else k)"

definition unless_recovery :: "server \<Rightarrow> (result \<Rightarrow> result) \<Rightarrow> result \<Rightarrow> result" where
  "unless_recovery s guard k = (if rec_in_progress (recovery s) then k else guard k)"

definition uid_of :: "job option \<Rightarrow> int" where
  "uid_of j = (case j of Some j \<Rightarrow> j_uid j | None \<Rightarrow> 0)"

subsection \<open>Handlers and invariants\<close>

text \<open>A handler keeps a property of the server when every outcome it can have satisfies it.\<close>

definition keeps :: "(server \<Rightarrow> bool) \<Rightarrow> result \<Rightarrow> bool" where
  "keeps I r \<longleftrightarrow> (case r of Inl _ \<Rightarrow> True | Inr x \<Rightarrow> I (o_server x))"

lemma finish_simps [simp]:
  "o_server (finish st rs s) = s" "o_status (finish st rs s) = st" "o_replies (finish st rs s) = rs"
  "o_jobid (finish st rs s) = 0" "o_revision (finish st rs s) = 0" "o_blocking (finish st rs s) = None"
  by (simp_all add: finish_def)

lemma keeps_simps [simp]:
  "keeps I (Inl flt)" "keeps I (Inr x) = I (o_server x)" "keeps I (fail c e m st s) = I s"
  "keeps I (sendClientReturnCode c rv ret s) = I s" "keeps I (sendClientMessage c rv objs s) = I s"
  by (simp_all add: keeps_def fail_def sendClientReturnCode_def sendClientMessage_def split: option.split)

lemma keeps_bind: "(\<And>x. r = Inr x \<Longrightarrow> keeps I (k x)) \<Longrightarrow> keeps I (bindR r k)"
  by (cases r) (simp_all add: bindR_def)

lemma keeps_guard: "I s \<Longrightarrow> keeps I k \<Longrightarrow> keeps I (guard_perm c u p s k)"
  by (simp add: guard_perm_def split: option.split)

lemma keeps_recovery: "keeps I (g k) \<Longrightarrow> keeps I k \<Longrightarrow> keeps I (unless_recovery s g k)"
  by (simp add: unless_recovery_def)

lemma keeps_guarded: "I s \<Longrightarrow> keeps I k \<Longrightarrow> keeps I (unless_recovery s (guard_perm c u p s) k)"
  by (intro keeps_recovery keeps_guard)

lemma bindR_simps [simp]: "bindR (Inr x) k = k x" "bindR (Inl e) k = Inl e"
  by (simp_all add: bindR_def)

lemma bindR_Inr_iff: "bindR r k = Inr y \<longleftrightarrow> (\<exists>x. r = Inr x \<and> k x = Inr y)"
  by (cases r) auto

lemma sendAgentMessage_daemon_ok [inv_rules]: "daemon_ok s \<Longrightarrow> daemon_ok (sendAgentMessage a r s)"
  by (simp add: sendAgentMessage_def daemon_ok_on_agent split: option.split)

end
