(* ===== verification/Response.thy ===== *)
theory Response
  imports Commands
begin

section \<open>Replies and reconciliation messages on the wire\<close>

text \<open>
  What \<open>encode_reply\<close> writes for a client, and what an agent writes for a reconciliation, is read
  back by \<open>load_message\<close>: an error, a return code, or a list of objects under the key \<open>DATA\<close>, with
  an alert when the daemon is in read-only mode.
\<close>

definition item_text :: "field list \<Rightarrow> string" where
  "item_text fs = ''{'' @ commas (map field_text fs) @ ''}''"

definition alert_text :: "string option \<Rightarrow> string" where
  "alert_text a = (case a of None \<Rightarrow> [] | Some t \<Rightarrow> quoted_name ''ALERT'' @ jstring t @ '','')"

definition data_text :: "int \<Rightarrow> string option \<Rightarrow> field list list \<Rightarrow> string" where
  "data_text v alert fss =
     quoted_name ''VERSION'' @ int64tostr v @ '','' @ alert_text alert @ quoted_name ''DATA'' @ ''['' @
     commas (map item_text fss) @ '']''"

definition response_text :: "string \<Rightarrow> int \<Rightarrow> string option \<Rightarrow> field list list \<Rightarrow> string" where
  "response_text name v alert fss = ''{'' @ quoted_name name @ ''{'' @ data_text v alert fss @ ''}}'' @ [NL]"

subsection \<open>Reading the objects\<close>

lemma item_object:
  "list_all field_ok fs \<Longrightarrow> JSONGetObject (item_text fs @ r) = Some (commas (map field_text fs), r)"
  using JSONGetObject_text [OF balanced_fields, of fs r] by (simp add: item_text_def)

text \<open>What loading one more object does to a message: the fields are appended, and only they.\<close>

definition adds_items :: "msg \<Rightarrow> field list list \<Rightarrow> msg \<Rightarrow> bool" where
  "adds_items m fss m' \<longleftrightarrow>
     m' = m\<lparr>m_items := m_items m'\<rparr> \<and> map item_fields (m_items m') = map item_fields (m_items m) @ fss"

lemma adds_items_refl: "adds_items m [] m"
  by (simp add: adds_items_def)

lemma adds_itemsD:
  assumes "adds_items m fss m'"
  shows "m_command m' = m_command m" "m_error m' = m_error m" "m_version m' = m_version m" "m_alert m' = m_alert m"
    "map item_fields (m_items m') = map item_fields (m_items m) @ fss"
proof -
  obtain its where m': "m' = m\<lparr>m_items := its\<rparr>" using assms unfolding adds_items_def by blast
  then show "m_command m' = m_command m" "m_error m' = m_error m" "m_version m' = m_version m" "m_alert m' = m_alert m" by simp_all
  show "map item_fields (m_items m') = map item_fields (m_items m) @ fss" using assms unfolding adds_items_def by blast
qed

lemma adds_items_trans: "adds_items m xs m1 \<Longrightarrow> adds_items m1 ys m2 \<Longrightarrow> adds_items m (xs @ ys) m2"
  unfolding adds_items_def by (metis (no_types, lifting) append.assoc msg.surjective msg.update_convs(4))

lemma loadFields_adds:
  assumes "list_all field_ok fs"
  obtains m' where "loadFields fresh (Some sortfields) (commas (map field_text fs)) m = Some m'" "adds_items m [fs] m'"
  using loadFields_text [OF assms, of fresh m] by (cases "m_items m") (auto simp: adds_items_def Let_def)

lemma items_read:
  "list_all (list_all field_ok) fss \<Longrightarrow>
   \<exists>m'. item_array_loop fresh (Some sortfields) (commas (map item_text fss) @ CHR '']'' # r) m = Loaded (r, m') \<and>
        adds_items m fss m'"
proof (induction fss arbitrary: m rule: induct_list012)
  case 1
  have "JSONGetObject (CHR '']'' # r) = None" by (simp add: JSONGetObject_def skipWhitespace_def is_ws_def)
  then show ?case by (subst item_array_loop.simps) (simp add: adds_items_refl)
next
  case (2 fs)
  then obtain m' where m': "loadFields fresh (Some sortfields) (commas (map field_text fs)) m = Some m'" "adds_items m [fs] m'"
    using loadFields_adds [of fs fresh m] by auto
  have "JSONGetObject (item_text fs @ CHR '']'' # r) = Some (commas (map field_text fs), CHR '']'' # r)"
    using 2 by (intro item_object) simp
  with m' show ?case by (subst item_array_loop.simps) simp
next
  case (3 fs gs fss)
  then obtain m1 where m1: "loadFields fresh (Some sortfields) (commas (map field_text fs)) m = Some m1" "adds_items m [fs] m1"
    using loadFields_adds [of fs fresh m] by auto
  let ?r = "CHR '','' # commas (map item_text (gs # fss)) @ CHR '']'' # r"
  have obj: "JSONGetObject (item_text fs @ ?r) = Some (commas (map field_text fs), ?r)"
    using 3 by (intro item_object) simp
  obtain m' where m': "item_array_loop fresh (Some sortfields) (commas (map item_text (gs # fss)) @ CHR '']'' # r) m1 = Loaded (r, m')"
    "adds_items m1 (gs # fss) m'"
    using 3 by auto
  have "item_array_loop fresh (Some sortfields) (item_text fs @ ?r) m =
      item_array_loop fresh (Some sortfields) (commas (map item_text (gs # fss)) @ CHR '']'' # r) m1"
    by (subst item_array_loop.simps) (simp add: obj m1(1) del: commas.simps list.map)
  with m' adds_items_trans [OF m1(2) m'(2)] show ?case by auto
qed

lemma loadItemArray_text:
  assumes "list_all (list_all field_ok) fss"
  obtains m' where "loadItemArray fresh (Some sortfields) (''['' @ commas (map item_text fss) @ '']'' @ r) m = Loaded (r, m')"
    "adds_items m fss m'"
  using items_read [OF assms, of fresh r m] by (auto simp: loadItemArray_def skipWhitespace_def is_ws_def)

subsection \<open>Reading a message\<close>

text \<open>The text behind the version, up to the end of the message.\<close>

definition data_rest :: "field list list \<Rightarrow> string" where
  "data_rest fss = '','' @ quoted_name ''DATA'' @ ''['' @ commas (map item_text fss) @ '']''"

definition after_version :: "string option \<Rightarrow> field list list \<Rightarrow> string" where
  "after_version alert fss =
     (case alert of None \<Rightarrow> data_rest fss | Some t \<Rightarrow> '','' @ quoted_name ''ALERT'' @ jstring t @ data_rest fss)"

lemma data_text_split: "data_text v alert fss = quoted_name ''VERSION'' @ int64tostr v @ after_version alert fss"
  by (simp add: data_text_def alert_text_def after_version_def data_rest_def split: option.split)

lemma version_name:
  assumes "- (2 ^ 63) \<le> v" and "v < 2 ^ 63"
  shows "JSONGetName (data_text v alert fss) = Some (''VERSION'', int64tostr v @ after_version alert fss)"
    and "JSONGetNum (int64tostr v @ after_version alert fss) = Some (v, after_version alert fss)"
proof -
  have "hd (after_version alert fss) = CHR '',''" "after_version alert fss \<noteq> []"
    by (simp_all add: after_version_def data_rest_def split: option.split)
  then show "JSONGetNum (int64tostr v @ after_version alert fss) = Some (v, after_version alert fss)"
    using assms by (intro JSONGetNum_text) simp_all
  have "starts_value (int64tostr v @ after_version alert fss)" using starts_value_text [of FT_NUM "FNum v"] assms by simp
  then show "JSONGetName (data_text v alert fss) = Some (''VERSION'', int64tostr v @ after_version alert fss)"
    using JSONGetName_quoted [of "''VERSION''" "[]" "int64tostr v @ after_version alert fss"]
    by (simp add: data_text_split plain_name_def)
qed

lemma data_name: "JSONGetName (data_rest fss) = Some (''DATA'', ''['' @ commas (map item_text fss) @ '']'' @ [])"
  using JSONGetName_quoted [of "''DATA''" "'',''" "''['' @ commas (map item_text fss) @ '']''"]
  by (simp add: data_rest_def plain_name_def starts_value_def)

lemma uppercase_keys:
  "uppercasestring ''VERSION'' = ''VERSION''" "uppercasestring ''DATA'' = ''DATA''" "uppercasestring ''ALERT'' = ''ALERT''"
  "uppercasestring ''RETURNCODE'' = ''RETURNCODE''"
  by (simp_all add: uppercasestring_def toupper_c_def)

lemma cmd_loop_data:
  assumes "- (2 ^ 63) \<le> v" and "v < 2 ^ 63" and "list_all (list_all field_ok) fss"
  obtains m' where "cmd_loop fresh (Some sortfields) (data_text v None fss) m = Loaded m'"
    "adds_items (m\<lparr>m_version := v\<rparr>) fss m'"
proof -
  obtain m' where m': "loadItemArray fresh (Some sortfields) (''['' @ commas (map item_text fss) @ '']'' @ []) (m\<lparr>m_version := v\<rparr>) =
      Loaded ([], m')" "adds_items (m\<lparr>m_version := v\<rparr>) fss m'"
    by (rule loadItemArray_text [OF assms(3)])
  have "cmd_loop fresh (Some sortfields) (data_text v None fss) m = cmd_loop fresh (Some sortfields) (data_rest fss) (m\<lparr>m_version := v\<rparr>)"
    using version_name [OF assms(1,2), of None fss]
    by (subst cmd_loop.simps) (simp add: uppercase_keys after_version_def)
  also have "\<dots> = cmd_loop fresh (Some sortfields) [] m'"
    by (subst cmd_loop.simps) (simp add: data_name uppercase_keys m'(1) [simplified])
  also have "\<dots> = Loaded m'" by (subst cmd_loop.simps) simp
  finally show ?thesis using that m'(2) by blast
qed

lemma resp_loop_data:
  assumes "- (2 ^ 63) \<le> v" and "v < 2 ^ 63" and "list_all (list_all field_ok) fss" and "m_alert m = None"
  obtains m' where "resp_loop fresh (Some sortfields) (data_text v alert fss) m = Loaded m'"
    "adds_items (m\<lparr>m_version := v, m_alert := alert\<rparr>) fss m'"
proof -
  let ?m = "m\<lparr>m_version := v, m_alert := alert\<rparr>"
  obtain m' where m': "loadItemArray fresh (Some sortfields) (''['' @ commas (map item_text fss) @ '']'' @ []) ?m = Loaded ([], m')"
    "adds_items ?m fss m'"
    by (rule loadItemArray_text [OF assms(3)])
  have "resp_loop fresh (Some sortfields) (data_text v alert fss) m =
      resp_loop fresh (Some sortfields) (after_version alert fss) (m\<lparr>m_version := v\<rparr>)"
    by (subst resp_loop.simps) (simp add: version_name [OF assms(1,2)] uppercase_keys)
  also have "\<dots> = resp_loop fresh (Some sortfields) (data_rest fss) ?m"
  proof (cases alert)
    case None
    with assms(4) show ?thesis by (cases m) (simp add: after_version_def)
  next
    case (Some t)
    have "JSONGetName (after_version alert fss) = Some (''ALERT'', jstring t @ data_rest fss)"
      using JSONGetName_quoted [of "''ALERT''" "'',''" "jstring t @ data_rest fss"] Some
      by (simp add: after_version_def plain_name_def)
    then show ?thesis by (subst resp_loop.simps) (simp add: uppercase_keys Some)
  qed
  also have "\<dots> = resp_loop fresh (Some sortfields) [] m'"
    by (subst resp_loop.simps) (simp add: data_name uppercase_keys m'(1) [simplified])
  also have "\<dots> = Loaded m'" by (subst resp_loop.simps) simp
  finally show ?thesis using that m'(2) by blast
qed

lemma balanced_data:
  assumes "list_all (list_all field_ok) fss" and "case alert of Some t \<Rightarrow> scannable t | None \<Rightarrow> True"
  shows "balanced (data_text v alert fss)"
proof -
  have items: "balanced (commas (map item_text fss))"
    using assms(1) balanced_object [OF balanced_fields]
    by (intro balanced_commas) (auto simp: list_all_iff item_text_def)
  have plain: "balanced '',''" "balanced ''[''" "balanced '']''" by (auto intro: balanced_plain)
  have names: "balanced (quoted_name ''VERSION'')" "balanced (quoted_name ''DATA'')" "balanced (quoted_name ''ALERT'')"
    by (auto intro: balanced_quoted_name simp: plain_name_def)
  have rest: "balanced (data_rest fss)"
    unfolding data_rest_def by (intro balanced_append plain names items)
  then have "balanced (after_version alert fss)"
    using assms(2) unfolding after_version_def
    by (cases alert) (simp_all only: option.case, intro balanced_append plain names balanced_jstring rest)
  then show ?thesis unfolding data_text_split by (intro balanced_append plain_ascii names)
qed

text \<open>A named message with any number of objects, and a response of the daemon.\<close>

lemma load_response_text:
  assumes "- (2 ^ 63) \<le> v" and "v < 2 ^ 63" and "list_all (list_all field_ok) fss"
    and "case alert of Some t \<Rightarrow> scannable t | None \<Rightarrow> True"
    and "plain_name name" and "uppercasestring name \<noteq> ''ERROR''" and "uppercasestring name = ''RESP'' \<or> alert = None"
  obtains m where "load_message fresh (Some sortfields) (response_text name v alert fss) = Loaded m"
    "adds_items (msg_zero\<lparr>m_command := Some (uppercasestring name), m_version := v, m_alert := alert\<rparr>) fss m"
proof -
  let ?d = "data_text v alert fss" and ?m = "msg_zero\<lparr>m_command := Some (uppercasestring name)\<rparr>"
  note bal = balanced_data [OF assms(3,4), of v]
  have whole: "balanced (quoted_name name @ ''{'' @ ?d @ ''}'')"
    using balanced_append [OF balanced_quoted_name [OF assms(5)] balanced_object [OF bal]] by simp
  have "JSONGetObject (response_text name v alert fss) = Some (quoted_name name @ ''{'' @ ?d @ ''}'', [NL])"
    using JSONGetObject_text [OF whole, of "[NL]"] by (simp add: response_text_def)
  moreover have "JSONGetName (quoted_name name @ ''{'' @ ?d @ ''}'') = Some (name, ''{'' @ ?d @ ''}'')"
    using JSONGetName_quoted [OF assms(5), of "[]"] by (simp add: starts_value_def)
  moreover have "JSONGetObject (''{'' @ ?d @ ''}'') = Some (?d, [])" using JSONGetObject_text [OF bal, of "[]"] by simp
  ultimately have eq: "load_message fresh (Some sortfields) (response_text name v alert fss) =
      (if uppercasestring name = ''RESP'' then resp_loop else cmd_loop) fresh (Some sortfields) ?d ?m"
    using assms(6) by (simp add: load_message_def Let_def del: append.simps)
  show ?thesis
  proof (cases "uppercasestring name = ''RESP''")
    case True
    have "m_alert ?m = None" by (simp add: msg_zero_def)
    then obtain m where "resp_loop fresh (Some sortfields) ?d ?m = Loaded m" "adds_items (?m\<lparr>m_version := v, m_alert := alert\<rparr>) fss m"
      by (rule resp_loop_data [OF assms(1-3)])
    with True show ?thesis using that eq by simp
  next
    case False
    with assms(7) have "alert = None" by simp
    moreover obtain m where "cmd_loop fresh (Some sortfields) (data_text v None fss) ?m = Loaded m" "adds_items (?m\<lparr>m_version := v\<rparr>) fss m"
      by (rule cmd_loop_data [OF assms(1-3)])
    ultimately show ?thesis using False that eq by (simp add: msg_zero_def)
  qed
qed

subsection \<open>Writing a message\<close>

lemma writes_bindR:
  assumes "writes r d" and "\<And>b. bdata b = d \<Longrightarrow> buff_ok b \<Longrightarrow> writes (k b) d'"
  shows "writes (bindR r k) d'"
  using assms by (auto simp: writes_def bindR_def)

definition good_item :: "field list \<Rightarrow> bool" where
  "good_item fs \<longleftrightarrow> list_all (\<lambda>f. field_ok f \<and> f_value f \<noteq> FBool False) fs"

lemma good_item_ok: "list_all good_item fss \<Longrightarrow> list_all (list_all field_ok) fss"
  by (auto simp: good_item_def list_all_iff)

lemma writes_item:
  assumes "in_place alloc" and "good_item fs" and "buff_ok b" and "length (bdata b) + 4 * length (item_text fs) + 128 < 2 ^ 60"
  shows "writes (bindR (JSONStartObject alloc b None) (\<lambda>b. bindR (JSONAddFields alloc b fs) (JSONEndObject alloc)))
    (bdata b @ item_text fs @ '','')"
proof (rule writes_bindR)
  have fs: "concat (map (\<lambda>f. field_text f @ '','') fs) = (if fs = [] then [] else commas (map field_text fs) @ '','')"
    by (rule commas_trailing)
  show "writes (JSONStartObject alloc b None) (bdata b @ ''{'')"
    using assms(1,3,4) by (simp add: JSONStartObject_def Let_def) (intro writes_put_before, simp_all)
  fix c assume c: "bdata c = bdata b @ ''{''" "buff_ok c"
  show "writes (bindR (JSONAddFields alloc c fs) (JSONEndObject alloc)) (bdata b @ item_text fs @ '','')"
  proof (rule writes_bindR)
    show "writes (JSONAddFields alloc c fs) (bdata c @ concat (map (\<lambda>f. field_text f @ '','') fs))"
      using assms(2,4) c fs by (intro writes_JSONAddFields [OF assms(1)]) (auto simp: good_item_def item_text_def)
    fix d assume d: "bdata d = bdata c @ concat (map (\<lambda>f. field_text f @ '','') fs)" "buff_ok d"
    have "writes (close_with alloc d (CHR ''}'') '','') ((bdata b @ ''{'' @ commas (map field_text fs)) @ [CHR ''}''] @ '','')"
      using assms(4) c(1) d fs by (intro writes_close [OF assms(1)]) (auto simp: item_text_def)
    then show "writes (JSONEndObject alloc d) (bdata b @ item_text fs @ '','')"
      by (simp add: JSONEndObject_def item_text_def)
  qed
qed

lemma bindR_nested: "bindR (bindR r f) g = bindR r (\<lambda>x. bindR (f x) g)"
  by (cases r) (simp_all add: bindR_def)

lemma writes_JSONAddObjects:
  assumes "in_place alloc"
  shows "list_all good_item fss \<Longrightarrow> buff_ok b \<Longrightarrow>
    length (bdata b) + 4 * length (concat (map (\<lambda>fs. item_text fs @ '','') fss)) + 128 < 2 ^ 60 \<Longrightarrow>
    writes (JSONAddObjects alloc b fss) (bdata b @ concat (map (\<lambda>fs. item_text fs @ '','') fss))"
proof (induction fss arbitrary: b)
  case Nil
  then show ?case by (simp add: writes_def)
next
  case (Cons fs fss)
  have one: "JSONAddObjects alloc b (fs # fss) =
      bindR (bindR (JSONStartObject alloc b None) (\<lambda>b. bindR (JSONAddFields alloc b fs) (JSONEndObject alloc)))
        (\<lambda>b. JSONAddObjects alloc b fss)"
    by (simp add: bindR_nested)
  show ?case unfolding one
  proof (rule writes_bindR)
    show "writes (bindR (JSONStartObject alloc b None) (\<lambda>b. bindR (JSONAddFields alloc b fs) (JSONEndObject alloc)))
        (bdata b @ item_text fs @ '','')"
      using Cons.prems by (intro writes_item [OF assms]) simp_all
    fix c assume c: "bdata c = bdata b @ item_text fs @ '',''" "buff_ok c"
    then show "writes (JSONAddObjects alloc c fss) (bdata b @ concat (map (\<lambda>fs. item_text fs @ '','') (fs # fss)))"
      using Cons.IH [of c] Cons.prems by simp
  qed
qed

definition response_head :: "string \<Rightarrow> int \<Rightarrow> string option \<Rightarrow> string" where
  "response_head name v alert =
     ''{'' @ quoted_name name @ ''{'' @ quoted_name ''VERSION'' @ int64tostr v @ '','' @ alert_text alert @
     quoted_name ''DATA'' @ ''[''"

lemma ALERT_name: "fd_name (field_table ! ALERT) = ''ALERT''" "ALERT < ENDOFFIELDS"
  by (simp_all add: field_table_def field_rows_def mk_field_def)

lemma writes_alert:
  assumes "in_place alloc" and "buff_ok b" and "length (bdata b) + 4 * length (alert_text alert) + 64 < 2 ^ 60"
  shows "writes (case alert of None \<Rightarrow> Inr b | Some a \<Rightarrow> JSONAddString alloc b ALERT (Some a)) (bdata b @ alert_text alert)"
proof (cases alert)
  case None
  with assms(2) show ?thesis by (simp add: writes_def alert_text_def)
next
  case (Some a)
  have "writes (buffPut alloc b (length ''ALERT'' + MAX_ESC_LEN (length a) + 6) (quoted_name ''ALERT'' @ jstring a @ '',''))
      (bdata b @ quoted_name ''ALERT'' @ jstring a @ '','')"
    using assms(3) jstring_length [of a] Some
    by (intro writes_put [OF assms(1,2)]) (simp_all add: MAX_ESC_LEN_def alert_text_def)
  with Some ALERT_name show ?thesis
    by (simp add: JSONAddString_def JSONAddStringN_def with_field_name alert_text_def jstring_def Let_def)
qed

lemma writes_initNamedResponse:
  assumes "in_place alloc" and "- (2 ^ 63) \<le> v" and "v < 2 ^ 63" and "length (response_head name v alert) < 2 ^ 56"
    and "name = (case n of Some n \<Rightarrow> n | None \<Rightarrow> ''RESP'')"
  shows "\<exists>r. initNamedResponse alloc n v alert = Some r \<and> writes r (response_head name v alert)"
proof -
  obtain b0 where b0: "buffNew alloc 1024 = Some b0" "bdata b0 = []" "buff_ok b0"
    using assms(1) by (auto simp: buffNew_def in_place_def buff_ok_def)
  note len = int64tostr_length [OF assms(2,3)]
  let ?h1 = "''{'' @ quoted_name name @ ''{''"
  let ?h2 = "?h1 @ quoted_name ''VERSION'' @ int64tostr v @ '',''"
  have short: "length name + length (alert_text alert) < 2 ^ 56" using assms(4) by (simp add: response_head_def)
  have s0: "writes (JSONStart alloc b0) ''{''"
    using writes_add [OF assms(1) b0(3), of "''{''"] b0(2) by (simp add: JSONStart_def)
  have s1: "writes (JSONStartObject alloc b (Some name)) ?h1" if "bdata b = ''{''" "buff_ok b" for b
    using writes_JSONStartObject [OF assms(1) that(2), of name] short that(1) by simp
  have s2: "writes (JSONAddInt alloc b VERSION v) ?h2" if "bdata b = ?h1" "buff_ok b" for b
    unfolding JSONAddInt_VERSION
    using writes_put [OF assms(1) that(2), of "quoted_name ''VERSION'' @ int64tostr v @ '',''" 43] len short that(1) by simp
  have s3: "writes (case alert of None \<Rightarrow> Inr b | Some a \<Rightarrow> JSONAddString alloc b ALERT (Some a)) (?h2 @ alert_text alert)"
    if "bdata b = ?h2" "buff_ok b" for b
    using writes_alert [OF assms(1) that(2), of alert] len short that(1) by simp
  have s4: "writes (JSONStartArray alloc b ''DATA'') (response_head name v alert)"
    if "bdata b = ?h2 @ alert_text alert" "buff_ok b" for b
    using writes_put_before [OF assms(1) that(2), of "quoted_name ''DATA'' @ ''[''" 8] len short that(1)
    by (simp add: JSONStartArray_def response_head_def)
  have "writes (bindB (JSONStart alloc b0) (\<lambda>b. bindB (JSONStartObject alloc b (Some name)) (\<lambda>b.
      bindB (JSONAddInt alloc b VERSION v) (\<lambda>b.
      bindB (case alert of None \<Rightarrow> Inr b | Some a \<Rightarrow> JSONAddString alloc b ALERT (Some a)) (\<lambda>b.
      JSONStartArray alloc b ''DATA''))))) (response_head name v alert)"
    by (rule writes_bind [OF s0], rule writes_bind [OF s1], assumption+, rule writes_bind [OF s2], assumption+,
        rule writes_bind [OF s3], assumption+, rule s4)
  with b0 assms(5) show ?thesis by (simp add: initNamedResponse_def)
qed

lemma writes_closeResponse:
  assumes "in_place alloc" and "buff_ok b" and "length (bdata b) < 2 ^ 59"
    and "bdata b = d @ '','' \<or> bdata b = d \<and> d \<noteq> [] \<and> last d \<noteq> CHR '',''"
  shows "writes (closeResponse alloc b) (d @ '']}}'' @ [NL])"
proof -
  have "writes (JSONEndArray alloc b) (d @ '']'' @ '','')"
    unfolding JSONEndArray_def
    using writes_close [OF assms(1,2) _ assms(4), of "'',''" "CHR '']''"] assms(3) by simp
  moreover have "writes (JSONEndObject alloc c) (d @ '']}'' @ '','')"
    if c: "bdata c = d @ '']'' @ '',''" "buff_ok c" for c
    unfolding JSONEndObject_def
    using writes_close [OF assms(1) c(2), of "'',''" "d @ '']''" "CHR ''}''"] assms(3,4) c(1) by auto
  moreover have "writes (JSONEnd alloc c) (d @ '']}}'' @ [NL])"
    if c: "bdata c = d @ '']}'' @ '',''" "buff_ok c" for c
    unfolding JSONEnd_def
    using writes_close [OF assms(1) c(2), of "[NL]" "d @ '']}''" "CHR ''}''"] assms(3,4) c(1) by auto
  ultimately show ?thesis
    unfolding closeResponse_def by (blast intro: writes_bind)
qed

definition write_response :: "allocator \<Rightarrow> string option \<Rightarrow> int \<Rightarrow> string option \<Rightarrow> field list list \<Rightarrow> (fault + buff) option" where
  "write_response alloc name v alert fss =
     map_option (\<lambda>r. bindR r (\<lambda>b. bindR (JSONAddObjects alloc b fss) (closeResponse alloc)))
       (initNamedResponse alloc name v alert)"

lemma write_response_text:
  assumes "in_place alloc" and "- (2 ^ 63) \<le> v" and "v < 2 ^ 63" and "list_all good_item fss"
    and "name = (case n of Some n \<Rightarrow> n | None \<Rightarrow> ''RESP'')" and "length (response_text name v alert fss) < 2 ^ 56"
  shows "\<exists>r. write_response alloc n v alert fss = Some r \<and> writes r (response_text name v alert fss)"
proof -
  let ?head = "response_head name v alert" and ?fs = "concat (map (\<lambda>fs. item_text fs @ '','') fss)"
  have txt_eq: "response_text name v alert fss = (?head @ commas (map item_text fss)) @ '']}}'' @ [NL]"
    by (simp add: response_text_def response_head_def data_text_def)
  have fs: "?fs = (if fss = [] then [] else commas (map item_text fss) @ '','')"
    by (rule commas_trailing)
  have len: "length ?head < 2 ^ 56" "length ?fs \<le> 2 ^ 56"
    using assms(6) fs by (auto simp: txt_eq)
  obtain r where r: "initNamedResponse alloc n v alert = Some r" "writes r ?head"
    using writes_initNamedResponse [OF assms(1-3) len(1) assms(5)] by blast
  have add: "writes (JSONAddObjects alloc b fss) (?head @ ?fs)" if "bdata b = ?head" "buff_ok b" for b
    using writes_JSONAddObjects [OF assms(1,4) that(2)] len that(1) by simp
  have shape: "?head @ ?fs = (?head @ commas (map item_text fss)) @ '','' \<or>
      ?head @ ?fs = ?head @ commas (map item_text fss) \<and> ?head @ commas (map item_text fss) \<noteq> [] \<and>
      last (?head @ commas (map item_text fss)) \<noteq> CHR '',''"
    unfolding fs by (cases "fss = []") (simp_all add: response_head_def)
  have close: "writes (closeResponse alloc b) (response_text name v alert fss)"
    if "bdata b = ?head @ ?fs" "buff_ok b" for b
    unfolding txt_eq using that len shape
    by (intro writes_closeResponse [OF assms(1)]) simp_all
  have "writes (bindR r (\<lambda>b. bindR (JSONAddObjects alloc b fss) (closeResponse alloc))) (response_text name v alert fss)"
    by (rule writes_bindR [OF r(2)], rule writes_bindR [OF add close])
  with r(1) show ?thesis by (simp add: write_response_def)
qed

subsection \<open>Every reply is read back\<close>

definition short_text :: "string \<Rightarrow> bool" where
  "short_text t \<longleftrightarrow> scannable t \<and> length t < 2 ^ 50"

definition reply_ok :: "reply \<Rightarrow> bool" where
  "reply_ok r \<longleftrightarrow>
     (case r of
        RError err m \<Rightarrow> short_text (error_text err m)
      | RReturn ret \<Rightarrow> short_text ret
      | RData alert objs \<Rightarrow> list_all good_item objs \<and>
          length (response_text ''RESP'' 1 (if alert then Some ''ReadOnly mode is active'' else None) objs) < 2 ^ 56)"

text \<open>The bytes of a reply.\<close>

definition reply_text :: "reply \<Rightarrow> string" where
  "reply_text r =
     (case r of
        RError err m \<Rightarrow> ''{'' @ (quoted_name ''ERROR'' @ jstring (error_text err m)) @ ''}'' @ [NL]
      | RReturn ret \<Rightarrow> (''{'' @ quoted_name ''resp'' @ ''{'') @ (quoted_name ''RETURN_CODE'' @ jstring ret) @ ''}}'' @ [NL]
      | RData alert objs \<Rightarrow> response_text ''RESP'' 1 (if alert then Some ''ReadOnly mode is active'' else None) objs)"

text \<open>One string under one key, closed by brackets.\<close>

lemma writes_string:
  assumes "in_place alloc" and "buff_ok b" and "n < ENDOFFIELDS" and "length (bdata b) + length (fd_name (field_table ! n)) < 2 ^ 55"
    and "length t < 2 ^ 50"
  shows "writes (JSONAddString alloc b n (Some t)) ((bdata b @ quoted_name (fd_name (field_table ! n)) @ jstring t) @ '','')"
proof -
  let ?n = "fd_name (field_table ! n)"
  have "writes (buffPut alloc b (length ?n + MAX_ESC_LEN (length t) + 6) (quoted_name ?n @ jstring t @ '',''))
      (bdata b @ quoted_name ?n @ jstring t @ '','')"
    using assms(4,5) jstring_length [of t]
    by (intro writes_put [OF assms(1,2)]) (simp_all add: MAX_ESC_LEN_def)
  with assms(3) show ?thesis
    by (simp add: JSONAddString_def JSONAddStringN_def with_field_name jstring_def Let_def)
qed

lemma reply_names: "fd_name (field_table ! ERROR) = ''ERROR''" "ERROR < ENDOFFIELDS"
  "fd_name (field_table ! RETURNCODE) = ''RETURN_CODE''" "RETURNCODE < ENDOFFIELDS"
  by (simp_all add: field_table_def field_rows_def mk_field_def)

lemma error_reply:
  assumes "in_place alloc" and "short_text t" and "t = error_text err m"
  shows "\<exists>b. encode_reply alloc (RError err m) = Some (Inr b) \<and> buff_ok b \<and> bdata b = reply_text (RError err m) \<and>
    load_message fresh (Some sortfields) (bdata b) = Loaded (msg_zero\<lparr>m_error := Some t\<rparr>)"
proof -
  obtain b0 where b0: "buffNew alloc 128 = Some b0" "bdata b0 = []" "buff_ok b0"
    using assms(1) by (auto simp: buffNew_def in_place_def buff_ok_def)
  have t: "scannable t" "length t < 2 ^ 50" using assms(2) by (simp_all add: short_text_def)
  let ?e = "quoted_name ''ERROR'' @ jstring t"
  have "writes (bindR (JSONStart alloc b0) (\<lambda>b. bindR (JSONAddString alloc b ERROR (Some t)) (JSONEnd alloc)))
      (''{'' @ ?e @ ''}'' @ [NL])"
  proof (rule writes_bindR)
    show "writes (JSONStart alloc b0) ''{''"
      using writes_add [OF assms(1) b0(3), of "''{''"] b0(2) by (simp add: JSONStart_def)
    fix b assume b: "bdata b = ''{''" "buff_ok b"
    show "writes (bindR (JSONAddString alloc b ERROR (Some t)) (JSONEnd alloc)) (''{'' @ ?e @ ''}'' @ [NL])"
    proof (rule writes_bindR)
      show "writes (JSONAddString alloc b ERROR (Some t)) ((''{'' @ ?e) @ '','')"
        using writes_string [OF assms(1) b(2) reply_names(2), of t] b(1) t by (simp add: reply_names)
      fix c assume c: "bdata c = (''{'' @ ?e) @ '',''" "buff_ok c"
      show "writes (JSONEnd alloc c) (''{'' @ ?e @ ''}'' @ [NL])"
        unfolding JSONEnd_def
        using writes_close [OF assms(1) c(2), of "[NL]" "''{'' @ ?e" "CHR ''}''"] c(1) t(2) jstring_length(2) [of t] by simp
    qed
  qed
  then obtain b where b: "bindR (JSONStart alloc b0) (\<lambda>b. bindR (JSONAddString alloc b ERROR (Some t)) (JSONEnd alloc)) = Inr b"
    "bdata b = ''{'' @ ?e @ ''}'' @ [NL]" "buff_ok b" by (auto simp: writes_def)
  have "balanced ?e" using t(1) by (intro balanced_append balanced_quoted_name balanced_jstring) (simp_all add: plain_name_def)
  then have "JSONGetObject (bdata b) = Some (?e, [NL])" unfolding b(2) by (rule JSONGetObject_text)
  moreover have "JSONGetName ?e = Some (''ERROR'', jstring t)"
    using JSONGetName_quoted [of "''ERROR''" "[]" "jstring t"] starts_value_jstring [of t "[]"] by (simp add: plain_name_def)
  moreover have "JSONGetString (jstring t) = Some (Some t, [])" using JSONGetString_jstring [of t "[]"] by simp
  moreover have "uppercasestring ''ERROR'' = ''ERROR''" by (simp add: uppercasestring_def toupper_c_def)
  ultimately have "load_message fresh (Some sortfields) (bdata b) = Loaded (msg_zero\<lparr>m_error := Some t\<rparr>)"
    by (simp add: load_message_def Let_def)
  with b b0 assms(3) show ?thesis by (simp add: encode_reply_def reply_text_def)
qed

lemma return_reply:
  assumes "in_place alloc" and "short_text t"
  shows "\<exists>b. encode_reply alloc (RReturn t) = Some (Inr b) \<and> buff_ok b \<and> bdata b = reply_text (RReturn t) \<and>
    load_message fresh (Some sortfields) (bdata b) = Loaded (msg_zero\<lparr>m_command := Some t\<rparr>)"
proof -
  obtain b0 where b0: "buffNew alloc 32 = Some b0" "bdata b0 = []" "buff_ok b0"
    using assms(1) by (auto simp: buffNew_def in_place_def buff_ok_def)
  have t: "scannable t" "length t < 2 ^ 50" using assms(2) by (simp_all add: short_text_def)
  let ?e = "quoted_name ''RETURN_CODE'' @ jstring t" and ?h = "''{'' @ quoted_name ''resp'' @ ''{''"
  have s0: "writes (JSONStart alloc b0) ''{''"
    using writes_add [OF assms(1) b0(3), of "''{''"] b0(2) by (simp add: JSONStart_def)
  have s1: "writes (JSONStartObject alloc b (Some ''resp'')) ?h" if "bdata b = ''{''" "buff_ok b" for b
    using writes_JSONStartObject [OF assms(1) that(2), of "''resp''"] that(1) by simp
  have s2: "writes (JSONAddString alloc b RETURNCODE (Some t)) ((?h @ ?e) @ '','')" if "bdata b = ?h" "buff_ok b" for b
    using writes_string [OF assms(1) that(2) reply_names(4), of t] that(1) t by (simp add: reply_names)
  have s3: "writes (JSONEndObject alloc b) ((?h @ ?e @ ''}'') @ '','')" if "bdata b = (?h @ ?e) @ '',''" "buff_ok b" for b
    unfolding JSONEndObject_def
    using writes_close [OF assms(1) that(2), of "'',''" "?h @ ?e" "CHR ''}''"] that(1) t(2) jstring_length(2) [of t] by simp
  have s4: "writes (JSONEnd alloc b) (?h @ ?e @ ''}}'' @ [NL])" if "bdata b = (?h @ ?e @ ''}'') @ '',''" "buff_ok b" for b
    unfolding JSONEnd_def
    using writes_close [OF assms(1) that(2), of "[NL]" "?h @ ?e @ ''}''" "CHR ''}''"] that(1) t(2) jstring_length(2) [of t] by simp
  have "writes (bindR (JSONStart alloc b0) (\<lambda>b. bindR (JSONStartObject alloc b (Some ''resp'')) (\<lambda>b.
      bindR (JSONAddString alloc b RETURNCODE (Some t)) (\<lambda>b. bindR (JSONEndObject alloc b) (JSONEnd alloc)))))
      (?h @ ?e @ ''}}'' @ [NL])"
    by (rule writes_bindR [OF s0], rule writes_bindR [OF s1], assumption+, rule writes_bindR [OF s2], assumption+,
        rule writes_bindR [OF s3], assumption+, rule s4)
  then obtain b where b: "bindR (JSONStart alloc b0) (\<lambda>b. bindR (JSONStartObject alloc b (Some ''resp'')) (\<lambda>b.
      bindR (JSONAddString alloc b RETURNCODE (Some t)) (\<lambda>b. bindR (JSONEndObject alloc b) (JSONEnd alloc)))) = Inr b"
    "bdata b = ?h @ ?e @ ''}}'' @ [NL]" "buff_ok b" by (auto simp: writes_def)
  have bal: "balanced ?e" using t(1) by (intro balanced_append balanced_quoted_name balanced_jstring) (simp_all add: plain_name_def)
  have whole: "balanced (quoted_name ''resp'' @ ''{'' @ ?e @ ''}'')"
    using balanced_append [OF balanced_quoted_name balanced_object [OF bal], of "''resp''"] by (simp add: plain_name_def)
  have "JSONGetObject (bdata b) = Some (quoted_name ''resp'' @ ''{'' @ ?e @ ''}'', [NL])"
    using JSONGetObject_text [OF whole, of "[NL]"] by (simp add: b(2))
  moreover have "JSONGetName (quoted_name ''resp'' @ ''{'' @ ?e @ ''}'') = Some (''resp'', ''{'' @ ?e @ ''}'')"
    using JSONGetName_quoted [of "''resp''" "[]"] by (simp add: starts_value_def plain_name_def)
  moreover have "JSONGetObject (''{'' @ ?e @ ''}'') = Some (?e, [])" using JSONGetObject_text [OF bal, of "[]"] by simp
  moreover have up: "uppercasestring ''resp'' = ''RESP''" "uppercasestring ''RETURN_CODE'' = ''RETURN_CODE''" by code_simp+
  ultimately have "load_message fresh (Some sortfields) (bdata b) = resp_loop fresh (Some sortfields) ?e (msg_zero\<lparr>m_command := Some ''RESP''\<rparr>)"
    by (simp add: load_message_def Let_def del: append.simps)
  also have "JSONGetName ?e = Some (''RETURN_CODE'', jstring t)"
    using JSONGetName_quoted [of "''RETURN_CODE''" "[]" "jstring t"] starts_value_jstring [of t "[]"] by (simp add: plain_name_def)
  then have "resp_loop fresh (Some sortfields) ?e (msg_zero\<lparr>m_command := Some ''RESP''\<rparr>) = Loaded (msg_zero\<lparr>m_command := Some t\<rparr>)"
    using JSONGetString_jstring [of t "[]"] by (subst resp_loop.simps) (simp add: up)
  finally show ?thesis using b b0 by (simp add: encode_reply_def reply_text_def)
qed

definition reply_read :: "reply \<Rightarrow> msg \<Rightarrow> bool" where
  "reply_read r m \<longleftrightarrow>
    (case r of
       RError err t \<Rightarrow> m = msg_zero\<lparr>m_error := Some (error_text err t)\<rparr>
     | RReturn ret \<Rightarrow> m = msg_zero\<lparr>m_command := Some ret\<rparr>
     | RData alert objs \<Rightarrow> m_command m = Some ''RESP'' \<and> m_error m = None \<and> m_version m = 1 \<and>
         m_alert m = (if alert then Some ''ReadOnly mode is active'' else None) \<and> map item_fields (m_items m) = objs)"

lemma reply_loaded:
  assumes "in_place alloc" and "reply_ok r"
  shows "\<exists>b m. encode_reply alloc r = Some (Inr b) \<and> buff_ok b \<and> bdata b = reply_text r \<and>
    load_message fresh (Some sortfields) (bdata b) = Loaded m \<and> reply_read r m"
proof (cases r)
  case (RError err t)
  then show ?thesis using error_reply [OF assms(1) _ refl, of err t fresh] assms(2) by (auto simp: reply_ok_def reply_read_def)
next
  case (RReturn ret)
  then show ?thesis using return_reply [OF assms(1), of ret fresh] assms(2) by (auto simp: reply_ok_def reply_read_def)
next
  case (RData alert objs)
  let ?a = "if alert then Some ''ReadOnly mode is active'' else None"
  have objs: "list_all good_item objs" "length (response_text ''RESP'' 1 ?a objs) < 2 ^ 56"
    using assms(2) RData by (simp_all add: reply_ok_def)
  have "encode_reply alloc r = write_response alloc None 1 ?a objs"
    by (simp add: RData encode_reply_def write_response_def initClientResponse_def initResponseAlert_def initResponse_def)
  moreover obtain b where b: "write_response alloc None 1 ?a objs = Some (Inr b)" "bdata b = response_text ''RESP'' 1 ?a objs" "buff_ok b"
    using write_response_text [OF assms(1) _ _ objs(1), of 1 "''RESP''" None ?a] objs(2) by (auto simp: writes_def)
  moreover have up: "uppercasestring ''RESP'' = ''RESP''" by code_simp
  have pre: "- (2 ^ 63) \<le> (1 :: int)" "(1 :: int) < 2 ^ 63" "case ?a of Some t \<Rightarrow> scannable t | None \<Rightarrow> True" "plain_name ''RESP''"
    "uppercasestring ''RESP'' \<noteq> ''ERROR''" "uppercasestring ''RESP'' = ''RESP'' \<or> ?a = None"
    by (simp_all add: plain_name_def up scannable_def)
  obtain m where m: "load_message fresh (Some sortfields) (response_text ''RESP'' 1 ?a objs) = Loaded m"
    "adds_items (msg_zero\<lparr>m_command := Some (uppercasestring ''RESP''), m_version := 1, m_alert := ?a\<rparr>) objs m"
    by (rule load_response_text [OF pre(1,2) good_item_ok [OF objs(1)] pre(3-6)])
  have "load_message fresh (Some sortfields) (bdata b) = Loaded m" "m_command m = Some ''RESP''" "m_error m = None"
    "m_version m = 1" "m_alert m = ?a" "map item_fields (m_items m) = objs"
    using m(1) adds_itemsD [OF m(2)] by (simp_all add: b(2) up msg_zero_def)
  ultimately show ?thesis unfolding RData by (auto simp: reply_read_def reply_text_def)
qed

subsection \<open>A reply is one line\<close>

text \<open>
  C strings hold no NUL and the writers escape newlines, except in the keys of a map: a reply with
  plain keys has its only newline at its end.
\<close>

definition clean :: "string \<Rightarrow> bool" where
  "clean t \<longleftrightarrow> NL \<notin> set t \<and> CHR 0x00 \<notin> set t"

fun clean_value :: "field_value \<Rightarrow> bool" where
  "clean_value (FStr (Some s)) \<longleftrightarrow> CHR 0x00 \<notin> set s"
| "clean_value (FStrs ss) \<longleftrightarrow> list_all (\<lambda>s. CHR 0x00 \<notin> set (the s)) ss"
| "clean_value (FMap kvs) \<longleftrightarrow> list_all (\<lambda>(k, v). clean k \<and> CHR 0x00 \<notin> set (the v)) kvs"
| "clean_value _ \<longleftrightarrow> True"

definition clean_fields :: "field list \<Rightarrow> bool" where
  "clean_fields fs \<longleftrightarrow> list_all (\<lambda>f. f_number f < ENDOFFIELDS \<and> clean_value (f_value f)) fs"

lemma clean_append [simp]: "clean (s @ t) \<longleftrightarrow> clean s \<and> clean t"
  by (auto simp: clean_def)

lemma clean_Nil [simp]: "clean []"
  by (simp add: clean_def)

lemma clean_Cons [simp]: "clean (c # t) \<longleftrightarrow> c \<noteq> NL \<and> c \<noteq> CHR 0x00 \<and> clean t"
  by (auto simp: clean_def)

lemma clean_json_escape: "CHR 0x00 \<notin> set s \<Longrightarrow> clean (json_escape s)"
  by (induction s) auto

lemma clean_jstring: "CHR 0x00 \<notin> set s \<Longrightarrow> clean (jstring s)"
  by (simp add: jstring_def clean_json_escape)

lemma clean_number: "clean (int64tostr v)"
proof -
  have "set (int64tostr v) \<subseteq> {c. c = CHR ''-'' \<or> is_digit c}"
    using digits_rev_digits by (auto simp: int64tostr_eq)
  then show ?thesis by (auto simp: clean_def is_digit_def)
qed

lemma clean_quoted: "clean n \<Longrightarrow> clean (quoted_name n)"
  by (simp add: quoted_name_def)

lemma clean_commas: "(\<And>t. t \<in> set ts \<Longrightarrow> clean t) \<Longrightarrow> clean (commas ts)"
  by (induction ts rule: commas.induct) simp_all

lemma clean_table: "n < ENDOFFIELDS \<Longrightarrow> clean (fd_name (field_table ! n))"
proof -
  have "list_all (\<lambda>f. clean (fd_name f)) field_table" by (simp add: field_table_def field_rows_def mk_field_def)
  then show "n < ENDOFFIELDS \<Longrightarrow> ?thesis" using length_fields by (auto simp: list_all_length)
qed

lemma clean_value_text: "clean_value v \<Longrightarrow> clean (value_text v)"
proof (cases v)
  case (FStr s)
  then show "clean_value v \<Longrightarrow> ?thesis" by (cases s) (simp_all add: clean_jstring)
next
  case (FStrs ss)
  assume "clean_value v"
  with FStrs show ?thesis by (auto simp: list_all_iff intro!: clean_commas clean_jstring)
next
  case (FMap kvs)
  assume "clean_value v"
  with FMap have "\<forall>(k, v)\<in>set kvs. clean k \<and> CHR 0x00 \<notin> set (the v)" by (simp add: list_all_iff)
  then have "\<forall>(k, v)\<in>set kvs. clean (quoted_name k @ jstring (the v))"
    by (fastforce simp: clean_jstring clean_quoted)
  with FMap show ?thesis by (fastforce intro!: clean_commas)
qed (simp_all add: clean_number)

lemma clean_items: "clean_fields fs \<Longrightarrow> clean (commas (map field_text fs))"
  by (rule clean_commas)
    (auto simp: clean_fields_def list_all_iff field_text_def intro!: clean_quoted clean_table clean_value_text)

definition reply_clean :: "reply \<Rightarrow> bool" where
  "reply_clean r \<longleftrightarrow>
     (case r of
        RError err m \<Rightarrow> CHR 0x00 \<notin> set (error_text err m)
      | RReturn ret \<Rightarrow> CHR 0x00 \<notin> set ret
      | RData alert objs \<Rightarrow> list_all clean_fields objs)"

lemma reply_line:
  assumes "reply_clean r"
  obtains l where "reply_text r = l @ [NL]" "clean l"
proof (cases r)
  case (RError err m)
  with assms show ?thesis
    using that [of "''{'' @ (quoted_name ''ERROR'' @ jstring (error_text err m)) @ ''}''"]
    by (simp add: reply_text_def reply_clean_def clean_jstring quoted_name_def)
next
  case (RReturn ret)
  with assms show ?thesis
    using that [of "(''{'' @ quoted_name ''resp'' @ ''{'') @ (quoted_name ''RETURN_CODE'' @ jstring ret) @ ''}}''"]
    by (simp add: reply_text_def reply_clean_def clean_jstring quoted_name_def)
next
  case (RData alert objs)
  have "clean (commas (map item_text objs))"
    using assms RData by (auto simp: reply_clean_def list_all_iff item_text_def clean_items intro!: clean_commas)
  moreover have "clean (jstring ''ReadOnly mode is active'')" by (rule clean_jstring) simp
  ultimately have "clean (data_text 1 (if alert then Some ''ReadOnly mode is active'' else None) objs)"
    by (simp add: data_text_def alert_text_def clean_number quoted_name_def)
  then show ?thesis
    using that [of "''{'' @ quoted_name ''RESP'' @ ''{'' @ data_text 1 (if alert then Some ''ReadOnly mode is active'' else None) objs @ ''}}''"]
    by (simp add: RData reply_text_def response_text_def quoted_name_def)
qed

lemma clean_request:
  "clean_fields fs \<Longrightarrow> clean name \<Longrightarrow> clean (butlast (request_text name v fs)) \<and> last (request_text name v fs) = NL"
  by (simp add: request_text_def clean_items clean_number quoted_name_def butlast_append)

text \<open>The newline itself does not matter to the loader.\<close>

lemma scan_object_newline:
  "scan_object prev q i (s @ [NL]) = map_option (apsnd (\<lambda>r. r @ [NL])) (scan_object prev q i s)"
  by (induction prev q i s rule: scan_object.induct) (simp_all add: option.map_comp comp_def apfst_def apsnd_def map_prod_def split_def)

lemma JSONGetObject_newline: "JSONGetObject (s @ [NL]) = map_option (apsnd (\<lambda>r. r @ [NL])) (JSONGetObject s)"
proof -
  have "skipWhitespace (s @ [NL]) = skipWhitespace s @ [NL]" by (induction s) (simp_all add: skipWhitespace_def is_ws_def)
  then show ?thesis by (cases "skipWhitespace s") (simp_all add: JSONGetObject_def scan_object_newline)
qed

lemma load_message_newline: "load_message fresh sf (s @ [NL]) = load_message fresh sf s"
  by (cases "JSONGetObject s") (simp_all add: load_message_def JSONGetObject_newline split_def)



end
