(* ===== verification/Typing.thy ===== *)
theory Typing
  imports Response
begin

section \<open>Typing: every loaded field has the type of the field table\<close>

text \<open>
  A field of a message (\<open>src/src/fields.h\<close>) is a number and a union; the getters read the member
  of the union that the handler expects, without looking at what was stored. They are safe because
  the loader of \<open>src/src/fields.c\<close> only ever stores the member the table of fields prescribes. The
  theory states this as a type system: \<open>msg_typed\<close> holds of everything \<open>load_message\<close> accepts,
  whatever bytes it is given.
\<close>

fun has_type :: "ftype \<Rightarrow> field_value \<Rightarrow> bool" where
  "has_type FT_NUM (FNum _) \<longleftrightarrow> True"
| "has_type FT_BOOL (FBool _) \<longleftrightarrow> True"
| "has_type FT_STRING (FStr _) \<longleftrightarrow> True"
| "has_type FT_STRINGARRAY (FStrs _) \<longleftrightarrow> True"
| "has_type FT_MAP (FMap _) \<longleftrightarrow> True"
| "has_type _ _ \<longleftrightarrow> False"

definition field_typed :: "field \<Rightarrow> bool" where
  "field_typed f \<longleftrightarrow> f_number f \<le> ENDOFFIELDS \<and> has_type (fd_type (field_table ! f_number f)) (f_value f)"

definition items_typed :: "msg_item list \<Rightarrow> bool" where
  "items_typed its \<longleftrightarrow> list_all (\<lambda>it. list_all field_typed (item_fields it)) its"

definition msg_typed :: "msg \<Rightarrow> bool" where
  "msg_typed m \<longleftrightarrow> items_typed (m_items m)"

lemma load_value_typed: "load_value t s = Some (v, r) \<Longrightarrow> has_type t v"
  by (cases t) (auto simp: load_value_def)

lemma fieldtonum_bound: "0 \<le> fieldtonum (Some sortfields) name \<Longrightarrow> nat (fieldtonum (Some sortfields) name) \<le> ENDOFFIELDS"
proof (cases "name \<in> fd_name ` set field_table")
  case True
  then obtain n where "n < length field_table" "name = fd_name (field_table ! n)" by (auto simp: in_set_conv_nth)
  then show ?thesis by (simp add: length_fields fieldtonum_def bsearch_fields field_number_nth)
next
  case False
  assume "0 \<le> fieldtonum (Some sortfields) name"
  with False show ?thesis by (simp add: fieldtonum_def bsearch_fields_none)
qed

lemma load_fields_typed:
  "load_fields_loop sf acc obj = Some fs \<Longrightarrow> sf = Some sortfields \<Longrightarrow> list_all field_typed acc \<Longrightarrow> list_all field_typed fs"
proof (induction sf acc obj rule: load_fields_loop.induct)
  case (1 sf acc obj)
  show ?case
  proof (cases "JSONGetName obj")
    case None
    with "1.prems" show ?thesis by (subst (asm) load_fields_loop.simps) simp
  next
    case (Some p)
    obtain name pos where p: "p = (name, pos)" by (cases p)
    let ?n = "fieldtonum sf (uppercasestring name)"
    from "1.prems"(1) Some p obtain v pos' where n: "\<not> ?n < 0"
      and v: "load_value (fd_type (field_table ! nat ?n)) pos = Some (v, pos')"
      and rest: "load_fields_loop sf (acc @ [\<lparr>f_number = nat ?n, f_value = v\<rparr>]) pos' = Some fs"
      by (subst (asm) load_fields_loop.simps) (auto simp: Let_def split: if_splits option.splits prod.splits)
    have "field_typed \<lparr>f_number = nat ?n, f_value = v\<rparr>"
      using fieldtonum_bound [of "uppercasestring name"] n "1.prems"(2) load_value_typed [OF v] by (simp add: field_typed_def)
    with "1.prems"(3) have "list_all field_typed (acc @ [\<lparr>f_number = nat ?n, f_value = v\<rparr>])" by simp
    from "1.IH" [OF Some p [symmetric] refl n v refl rest "1.prems"(2) this] show ?thesis .
  qed
qed

lemma loadFields_typed:
  assumes "loadFields fresh (Some sortfields) obj m = Some m'" and "msg_typed m"
  shows "msg_typed m'"
proof -
  from assms(1) obtain fs where fs: "load_fields_loop (Some sortfields) [] obj = Some fs"
    by (auto simp: loadFields_def split: option.splits)
  have "list_all field_typed fs" using load_fields_typed [OF fs] by simp
  with assms fs show ?thesis
    by (cases "m_items m") (auto simp: loadFields_def Let_def msg_typed_def items_typed_def)
qed

lemma item_array_typed:
  "item_array_loop fresh sf pos m = Loaded (r, m') \<Longrightarrow> sf = Some sortfields \<Longrightarrow> msg_typed m \<Longrightarrow> msg_typed m'"
proof (induction fresh sf pos m rule: item_array_loop.induct)
  case (1 fresh sf pos m)
  show ?case
  proof (cases "JSONGetObject pos")
    case None
    with "1.prems" show ?thesis by (subst (asm) item_array_loop.simps) (auto split: list.splits)
  next
    case (Some p)
    obtain obj pos' where p: "p = (obj, pos')" by (cases p)
    from "1.prems"(1) Some p obtain m1 c cs where m1: "loadFields fresh sf obj m = Some m1"
      and rest: "dropWhile (\<lambda>c. c \<noteq> CHR '','' \<and> c \<noteq> CHR '']'') pos' = c # cs"
      and last: "c = CHR '']'' \<and> m' = m1 \<or> c \<noteq> CHR '']'' \<and> item_array_loop fresh sf cs m1 = Loaded (r, m')"
      by (subst (asm) item_array_loop.simps) (auto split: option.splits list.splits if_splits)
    have "msg_typed m1" using loadFields_typed m1 "1.prems"(2,3) by simp
    with last "1.IH" [OF Some p [symmetric] m1 rest] "1.prems"(2) show ?thesis by auto
  qed
qed

lemma loadItemArray_typed:
  "loadItemArray fresh (Some sortfields) s m = Loaded (r, m') \<Longrightarrow> msg_typed m \<Longrightarrow> msg_typed m'"
  by (auto simp: loadItemArray_def split: list.splits if_splits dest: item_array_typed)

lemma msg_typed_update [simp]:
  "msg_typed (m\<lparr>m_command := x\<rparr>) = msg_typed m" "msg_typed (m\<lparr>m_version := v\<rparr>) = msg_typed m"
  "msg_typed (m\<lparr>m_alert := y\<rparr>) = msg_typed m" "msg_typed (m\<lparr>m_error := z\<rparr>) = msg_typed m" "msg_typed msg_zero"
  by (simp_all add: msg_typed_def msg_zero_def items_typed_def)

text \<open>Both loops consume the text and pass a typed message on.\<close>

definition loop_goes_on :: "(string \<Rightarrow> msg \<Rightarrow> msg loaded) \<Rightarrow> string \<Rightarrow> msg \<Rightarrow> msg \<Rightarrow> bool" where
  "loop_goes_on loop obj m m' \<longleftrightarrow>
     (\<exists>pos m1. length pos < length obj \<and> loop pos m1 = Loaded m' \<and> (msg_typed m \<longrightarrow> msg_typed m1))"

lemma loop_goes_onI:
  "length pos < length obj \<Longrightarrow> loop pos m1 = Loaded m' \<Longrightarrow> (msg_typed m \<Longrightarrow> msg_typed m1) \<Longrightarrow> loop_goes_on loop obj m m'"
  by (auto simp: loop_goes_on_def)

lemma typed_by_steps:
  assumes step: "\<And>obj m. loop obj m = Loaded m' \<Longrightarrow> msg_typed m' \<or> m' = m \<or> (\<exists>rc. m' = m\<lparr>m_command := rc\<rparr>) \<or> loop_goes_on loop obj m m'"
  shows "loop obj m = Loaded m' \<Longrightarrow> msg_typed m \<Longrightarrow> msg_typed m'"
proof (induction obj arbitrary: m rule: length_induct)
  case (1 obj)
  with step [OF "1.prems"(1)] show ?case by (auto simp: loop_goes_on_def)
qed

lemma resp_loop_typed:
  "resp_loop fresh (Some sortfields) obj m = Loaded m' \<Longrightarrow> msg_typed m \<Longrightarrow> msg_typed m'"
proof (rule typed_by_steps)
  fix obj m
  assume eq: "resp_loop fresh (Some sortfields) obj m = Loaded m'"
  show "msg_typed m' \<or> m' = m \<or> (\<exists>rc. m' = m\<lparr>m_command := rc\<rparr>) \<or> loop_goes_on (resp_loop fresh (Some sortfields)) obj m m'"
  proof (cases "JSONGetName obj")
    case None
    with eq show ?thesis by (subst (asm) resp_loop.simps) simp
  next
    case (Some p)
    obtain name pos where p: "p = (name, pos)" by (cases p)
    with Some have pos: "length pos < length obj" by (auto dest: JSONGetName_shorter)
    note rule = loop_goes_onI [of _ obj "resp_loop fresh (Some sortfields)" _ m' m]
    from eq Some p consider rc where "m' = m\<lparr>m_command := rc\<rparr>"
      | v r where "JSONGetNum pos = Some (v, r)" "resp_loop fresh (Some sortfields) r (m\<lparr>m_version := v\<rparr>) = Loaded m'"
      | r m1 where "loadItemArray fresh (Some sortfields) pos m = Loaded (r, m1)" "resp_loop fresh (Some sortfields) r m1 = Loaded m'"
      | a r where "JSONGetString pos = Some (Some a, r)" "resp_loop fresh (Some sortfields) r (m\<lparr>m_alert := Some a\<rparr>) = Loaded m'"
      | "resp_loop fresh (Some sortfields) pos m = Loaded m'"
      by (subst (asm) resp_loop.simps) (auto simp: Let_def split: option.splits prod.splits if_splits loaded.splits)
    then show ?thesis
    proof cases
      case 2
      then show ?thesis using rule [OF _ 2(2)] JSONGetNum_le [OF 2(1)] pos by simp
    next
      case 3
      then show ?thesis using rule [OF _ 3(2)] loadItemArray_le [OF 3(1)] loadItemArray_typed [OF 3(1)] pos by simp
    next
      case 4
      then show ?thesis using rule [OF _ 4(2)] JSONGetString_shorter [OF 4(1)] pos by simp
    qed (use rule [OF pos] in blast)+
  qed
qed

lemma cmd_loop_typed:
  "cmd_loop fresh (Some sortfields) obj m = Loaded m' \<Longrightarrow> msg_typed m \<Longrightarrow> msg_typed m'"
proof (rule typed_by_steps)
  fix obj m
  assume eq: "cmd_loop fresh (Some sortfields) obj m = Loaded m'"
  show "msg_typed m' \<or> m' = m \<or> (\<exists>rc. m' = m\<lparr>m_command := rc\<rparr>) \<or> loop_goes_on (cmd_loop fresh (Some sortfields)) obj m m'"
  proof (cases "JSONGetName obj")
    case None
    with eq show ?thesis by (subst (asm) cmd_loop.simps) simp
  next
    case (Some p)
    obtain name pos where p: "p = (name, pos)" by (cases p)
    with Some have pos: "length pos < length obj" by (auto dest: JSONGetName_shorter)
    note rule = loop_goes_onI [of _ obj "cmd_loop fresh (Some sortfields)" _ m' m]
    from eq Some p consider v r where "JSONGetNum pos = Some (v, r)" "cmd_loop fresh (Some sortfields) r (m\<lparr>m_version := v\<rparr>) = Loaded m'"
      | r m1 where "loadItemArray fresh (Some sortfields) pos m = Loaded (r, m1)" "cmd_loop fresh (Some sortfields) r m1 = Loaded m'"
      | x r m1 where "JSONGetObject pos = Some (x, r)" "loadFields fresh (Some sortfields) x m = Some m1" "cmd_loop fresh (Some sortfields) r m1 = Loaded m'"
      | "cmd_loop fresh (Some sortfields) pos m = Loaded m'"
      by (subst (asm) cmd_loop.simps) (auto simp: Let_def split: option.splits prod.splits if_splits loaded.splits)
    then show ?thesis
    proof cases
      case 1
      then show ?thesis using rule [OF _ 1(2)] JSONGetNum_le [OF 1(1)] pos by simp
    next
      case 2
      then show ?thesis using rule [OF _ 2(2)] loadItemArray_le [OF 2(1)] loadItemArray_typed [OF 2(1)] pos by simp
    next
      case 3
      then show ?thesis using rule [OF _ 3(3)] JSONGetObject_le(2) [OF 3(1)] loadFields_typed [OF 3(2)] pos by simp
    qed (use rule [OF pos] in blast)
  qed
qed

section \<open>Properties\<close>

text \<open>C10. Every field of every message the loader accepts, whatever the bytes, has a number of the
  field table (the entry that ends the table included, whose name a client may send) and holds the member of the union that the table prescribes for that number.\<close>

theorem loaded_fields_typed:
  assumes "load_message fresh (Some sortfields) json = Loaded m"
  shows "msg_typed m"
proof -
  from assms consider err where "m = msg_zero\<lparr>m_error := err\<rparr>"
    | name obj where "resp_loop fresh (Some sortfields) obj (msg_zero\<lparr>m_command := name\<rparr>) = Loaded m"
    | name obj where "cmd_loop fresh (Some sortfields) obj (msg_zero\<lparr>m_command := name\<rparr>) = Loaded m"
    by (auto simp: load_message_def Let_def split: option.splits prod.splits if_splits)
  then show ?thesis
    by cases (auto dest: resp_loop_typed cmd_loop_typed)
qed

theorem loaded_fields_typed_witness:
  "\<exists>m. load_message [] (Some sortfields) (request_text ''JOB_DEL'' 1 [num_field JOBID 7]) = Loaded m \<and>
     map item_fields (m_items m) = [[num_field JOBID 7]] \<and> msg_typed m"
proof -
  have up: "uppercasestring ''JOB_DEL'' = ''JOB_DEL''" by code_simp
  have "list_all field_ok [num_field JOBID 7]"
    by (simp add: field_ok_def num_field_def field_table_def field_rows_def mk_field_def)
  from load_request_text [OF _ _ this, of 1 "''JOB_DEL''" "[]"] up
  obtain m where m: "load_message [] (Some sortfields) (request_text ''JOB_DEL'' 1 [num_field JOBID 7]) = Loaded m"
    "m_items m = [first_item [] [num_field JOBID 7]]" by (simp add: plain_name_def)
  from loaded_fields_typed [OF m(1)] m show ?thesis by (simp add: first_item_def)
qed

end
