(* ===== verification/Command_Job.thy ===== *)
theory Command_Job
  imports Commands
begin

section \<open>Command_Job: the job commands, command_job.c\<close>

text \<open>
  \<open>src/src/command_job.c\<close>: the requests as records, one deserializer per request and one
  handler per command. \<open>UNSET\<close> counts of \<open>jersJobMod\<close> are \<open>None\<close>. A handler that is replayed
  from the journal has no client.
\<close>

unbundle bit_operations_syntax

abbreviation (input) JERS_JOB_DEFAULT_PRIORITY :: int where "JERS_JOB_DEFAULT_PRIORITY \<equiv> 100"
abbreviation (input) JERS_JOB_MIN_PRIORITY :: int where "JERS_JOB_MIN_PRIORITY \<equiv> 0"
abbreviation (input) JERS_JOB_MAX_PRIORITY :: int where "JERS_JOB_MAX_PRIORITY \<equiv> 255"
abbreviation (input) JERS_CLEAR_NICE :: int where "JERS_CLEAR_NICE \<equiv> 100"

abbreviation (input) JERS_FILTER_JOBNAME :: flags where "JERS_FILTER_JOBNAME \<equiv> 0x01"
abbreviation (input) JERS_FILTER_QUEUE :: flags where "JERS_FILTER_QUEUE \<equiv> 0x02"
abbreviation (input) JERS_FILTER_STATE :: flags where "JERS_FILTER_STATE \<equiv> 0x04"
abbreviation (input) JERS_FILTER_TAGS :: flags where "JERS_FILTER_TAGS \<equiv> 0x08"
abbreviation (input) JERS_FILTER_RESOURCES :: flags where "JERS_FILTER_RESOURCES \<equiv> 0x10"
abbreviation (input) JERS_FILTER_UID :: flags where "JERS_FILTER_UID \<equiv> 0x20"
abbreviation (input) JERS_FILTER_NODE :: flags where "JERS_FILTER_NODE \<equiv> 0x80"
abbreviation (input) JERS_FILTER_BEFORE :: flags where "JERS_FILTER_BEFORE \<equiv> 0x0200"
abbreviation (input) JERS_FILTER_AFTER :: flags where "JERS_FILTER_AFTER \<equiv> 0x0400"

subsection \<open>Requests\<close>

record jersJobAdd =
  ja_jobid :: nat
  ja_name :: "string option"
  ja_queue :: "string option"
  ja_uid :: int
  ja_shell :: "string option"
  ja_wrapper :: "string option"
  ja_pre_cmd :: "string option"
  ja_post_cmd :: "string option"
  ja_stdout :: "string option"
  ja_stderr :: "string option"
  ja_defer_time :: int
  ja_nice :: int
  ja_priority :: int
  ja_hold :: int
  ja_argv :: "string option list"
  ja_envs :: "string option list"
  ja_tags :: "(string \<times> string option) list"
  ja_resources :: "string option list"
  ja_flags :: int

definition jersJobAdd_init :: jersJobAdd where
  "jersJobAdd_init =
     \<lparr>ja_jobid = 0, ja_name = None, ja_queue = None, ja_uid = 0, ja_shell = None, ja_wrapper = None,
      ja_pre_cmd = None, ja_post_cmd = None, ja_stdout = None, ja_stderr = None, ja_defer_time = 0,
      ja_nice = UNSET_32, ja_priority = JERS_JOB_DEFAULT_PRIORITY, ja_hold = 0, ja_argv = [],
      ja_envs = [], ja_tags = [], ja_resources = [], ja_flags = 0\<rparr>"

record jersJobMod =
  jm_jobid :: nat
  jm_name :: "string option"
  jm_queue :: "string option"
  jm_defer_time :: int
  jm_restart :: int
  jm_nice :: int
  jm_priority :: int
  jm_hold :: int
  jm_clear_resources :: int
  jm_envs :: "string option list option"
  jm_tags :: "(string \<times> string option) list option"
  jm_resources :: "string option list option"

definition jersJobMod_init :: jersJobMod where
  "jersJobMod_init =
     \<lparr>jm_jobid = 0, jm_name = None, jm_queue = None, jm_defer_time = UNSET_TIME_T, jm_restart = 0,
      jm_nice = UNSET_32, jm_priority = UNSET_32, jm_hold = UNSET_8, jm_clear_resources = 0,
      jm_envs = None, jm_tags = None, jm_resources = None\<rparr>"

record jersJobFilter =
  jf_filter_fields :: flags
  jf_return_fields :: int
  jf_jobid :: nat
  jf_job_name :: "string option"
  jf_queue_name :: "string option"
  jf_node :: "string option"
  jf_state :: flags
  jf_tags :: "(string \<times> string option) list"
  jf_resources :: "string option list"
  jf_uid :: int
  jf_before_added :: int
  jf_before_started :: int
  jf_before_finished :: int
  jf_after_added :: int
  jf_after_started :: int
  jf_after_finished :: int

definition jersJobFilter_init :: jersJobFilter where
  "jersJobFilter_init =
     \<lparr>jf_filter_fields = 0, jf_return_fields = 0, jf_jobid = 0, jf_job_name = None,
      jf_queue_name = None, jf_node = None, jf_state = 0, jf_tags = [], jf_resources = [],
      jf_uid = 0, jf_before_added = 0, jf_before_started = 0, jf_before_finished = 0,
      jf_after_added = 0, jf_after_started = 0, jf_after_finished = 0\<rparr>"

record jersJobDel =
  jd_jobid :: nat

record jersJobSig =
  js_jobid :: nat
  js_signum :: int

record jersTagSet =
  ts_jobid :: nat
  ts_key :: "string option"
  ts_value :: "string option"

record jersTagDel =
  td_jobid :: nat
  td_key :: "string option"

subsection \<open>Deserializers\<close>

text \<open>Numbers are stored at the width of the member: \<open>jobid_t\<close> and \<open>uid_t\<close> are unsigned 32 bits.\<close>

definition jobid_of :: "field \<Rightarrow> nat" where
  "jobid_of f = nat (uint32 (getNumberField f))"

definition add_job_field :: "field \<Rightarrow> jersJobAdd \<Rightarrow> jersJobAdd" where
  "add_job_field f s =
     (let n = f_number f
      in if n = JOBID then s\<lparr>ja_jobid := jobid_of f\<rparr>
         else if n = JOBNAME then s\<lparr>ja_name := Some (getStringOf f)\<rparr>
         else if n = QUEUENAME then s\<lparr>ja_queue := Some (getStringOf f)\<rparr>
         else if n = UID then s\<lparr>ja_uid := uint32 (getNumberField f)\<rparr>
         else if n = SHELL then s\<lparr>ja_shell := Some (getStringOf f)\<rparr>
         else if n = PRIORITY then s\<lparr>ja_priority := int32 (getNumberField f)\<rparr>
         else if n = HOLD then s\<lparr>ja_hold := getBoolField f\<rparr>
         else if n = ENVS then s\<lparr>ja_envs := getStringArrayField f\<rparr>
         else if n = ARGS then s\<lparr>ja_argv := getStringArrayField f\<rparr>
         else if n = PRECMD then s\<lparr>ja_pre_cmd := Some (getStringOf f)\<rparr>
         else if n = POSTCMD then s\<lparr>ja_post_cmd := Some (getStringOf f)\<rparr>
         else if n = DEFERTIME then s\<lparr>ja_defer_time := getNumberField f\<rparr>
         else if n = TAGS then s\<lparr>ja_tags := getStringMapField f\<rparr>
         else if n = RESOURCES then s\<lparr>ja_resources := getStringArrayField f\<rparr>
         else if n = STDOUT then s\<lparr>ja_stdout := Some (getStringOf f)\<rparr>
         else if n = STDERR then s\<lparr>ja_stderr := Some (getStringOf f)\<rparr>
         else if n = WRAPPER then s\<lparr>ja_wrapper := Some (getStringOf f)\<rparr>
         else if n = NICE then s\<lparr>ja_nice := int32 (getNumberField f)\<rparr>
         else if n = FLAGS then s\<lparr>ja_flags := getNumberField f\<rparr>
         else s)"

definition deserialize_add_job :: "msg \<Rightarrow> fault + jersJobAdd" where
  "deserialize_add_job = deserialize add_job_field jersJobAdd_init"

definition set_filter :: "flags \<Rightarrow> jersJobFilter \<Rightarrow> jersJobFilter" where
  "set_filter b s = s\<lparr>jf_filter_fields := set_flag (jf_filter_fields s) b\<rparr>"

definition get_job_field :: "field \<Rightarrow> jersJobFilter \<Rightarrow> jersJobFilter" where
  "get_job_field f s =
     (let n = f_number f; v = getNumberField f
      in if n = JOBID then s\<lparr>jf_jobid := jobid_of f\<rparr>
         else if n = JOBNAME then set_filter JERS_FILTER_JOBNAME (s\<lparr>jf_job_name := Some (getStringOf f)\<rparr>)
         else if n = QUEUENAME then set_filter JERS_FILTER_QUEUE (s\<lparr>jf_queue_name := Some (getStringOf f)\<rparr>)
         else if n = STATE then set_filter JERS_FILTER_STATE (s\<lparr>jf_state := of_int v\<rparr>)
         else if n = TAGS then set_filter JERS_FILTER_TAGS (s\<lparr>jf_tags := getStringMapField f\<rparr>)
         else if n = RESOURCES then set_filter JERS_FILTER_RESOURCES (s\<lparr>jf_resources := getStringArrayField f\<rparr>)
         else if n = UID then set_filter JERS_FILTER_UID (s\<lparr>jf_uid := uint32 v\<rparr>)
         else if n = NODE then set_filter JERS_FILTER_NODE (s\<lparr>jf_node := Some (getStringOf f)\<rparr>)
         else if n = BEFORE_ADDED then set_filter JERS_FILTER_BEFORE (s\<lparr>jf_before_added := v\<rparr>)
         else if n = BEFORE_STARTED then set_filter JERS_FILTER_BEFORE (s\<lparr>jf_before_started := v\<rparr>)
         else if n = BEFORE_FINISHED then set_filter JERS_FILTER_BEFORE (s\<lparr>jf_before_finished := v\<rparr>)
         else if n = AFTER_ADDED then set_filter JERS_FILTER_AFTER (s\<lparr>jf_after_added := v\<rparr>)
         else if n = AFTER_STARTED then set_filter JERS_FILTER_AFTER (s\<lparr>jf_after_started := v\<rparr>)
         else if n = AFTER_FINISHED then set_filter JERS_FILTER_AFTER (s\<lparr>jf_after_finished := v\<rparr>)
         else if n = RETFIELDS then s\<lparr>jf_return_fields := v\<rparr>
         else s)"

text \<open>Once a jobid is known the remaining fields are ignored.\<close>

definition deserialize_get_job :: "msg \<Rightarrow> fault + jersJobFilter" where
  "deserialize_get_job =
     deserialize (\<lambda>f s. if jf_jobid s \<noteq> 0 then s else get_job_field f s) jersJobFilter_init"

definition mod_job_field :: "field \<Rightarrow> jersJobMod \<Rightarrow> jersJobMod" where
  "mod_job_field f s =
     (let n = f_number f
      in if n = JOBID then s\<lparr>jm_jobid := jobid_of f\<rparr>
         else if n = JOBNAME then s\<lparr>jm_name := Some (getStringOf f)\<rparr>
         else if n = QUEUENAME then s\<lparr>jm_queue := Some (getStringOf f)\<rparr>
         else if n = DEFERTIME then s\<lparr>jm_defer_time := getNumberField f\<rparr>
         else if n = NICE then s\<lparr>jm_nice := int32 (getNumberField f)\<rparr>
         else if n = PRIORITY then s\<lparr>jm_priority := int32 (getNumberField f)\<rparr>
         else if n = HOLD then s\<lparr>jm_hold := getBoolField f\<rparr>
         else if n = RESTART then s\<lparr>jm_restart := getBoolField f\<rparr>
         else if n = ENVS then s\<lparr>jm_envs := Some (getStringArrayField f)\<rparr>
         else if n = TAGS then s\<lparr>jm_tags := Some (getStringMapField f)\<rparr>
         else if n = RESOURCES then s\<lparr>jm_resources := Some (getStringArrayField f)\<rparr>
         else if n = CLEARRES then s\<lparr>jm_clear_resources := getBoolField f\<rparr>
         else s)"

definition deserialize_mod_job :: "msg \<Rightarrow> fault + jersJobMod" where
  "deserialize_mod_job = deserialize mod_job_field jersJobMod_init"

definition deserialize_del_job :: "msg \<Rightarrow> fault + jersJobDel" where
  "deserialize_del_job =
     deserialize (\<lambda>f s. if f_number f = JOBID then s\<lparr>jd_jobid := jobid_of f\<rparr> else s) \<lparr>jd_jobid = 0\<rparr>"

definition deserialize_sig_job :: "msg \<Rightarrow> fault + jersJobSig" where
  "deserialize_sig_job =
     deserialize (\<lambda>f s. if f_number f = JOBID then s\<lparr>js_jobid := jobid_of f\<rparr>
                        else if f_number f = SIGNAL then s\<lparr>js_signum := int32 (getNumberField f)\<rparr> else s)
       \<lparr>js_jobid = 0, js_signum = 0\<rparr>"

definition deserialize_wait_job :: "msg \<Rightarrow> fault + jersJobWait" where
  "deserialize_wait_job =
     deserialize (\<lambda>f s. if f_number f = JOBID then s\<lparr>jw_jobid := jobid_of f\<rparr>
                        else if f_number f = REVISION then s\<lparr>jw_revision := getNumberField f\<rparr>
                        else if f_number f = TIMEOUT then s\<lparr>jw_timeout := getNumberField f\<rparr> else s)
       \<lparr>jw_jobid = 0, jw_revision = 0, jw_timeout = 0\<rparr>"

definition deserialize_set_tag :: "msg \<Rightarrow> fault + jersTagSet" where
  "deserialize_set_tag =
     deserialize (\<lambda>f s. if f_number f = JOBID then s\<lparr>ts_jobid := jobid_of f\<rparr>
                        else if f_number f = TAG_KEY then s\<lparr>ts_key := Some (getStringOf f)\<rparr>
                        else if f_number f = TAG_VALUE then s\<lparr>ts_value := Some (getStringOf f)\<rparr> else s)
       \<lparr>ts_jobid = 0, ts_key = None, ts_value = None\<rparr>"

definition deserialize_del_tag :: "msg \<Rightarrow> fault + jersTagDel" where
  "deserialize_del_tag =
     deserialize (\<lambda>f s. if f_number f = JOBID then s\<lparr>td_jobid := jobid_of f\<rparr>
                        else if f_number f = TAG_KEY then s\<lparr>td_key := Some (getStringOf f)\<rparr> else s)
       \<lparr>td_jobid = 0, td_key = None\<rparr>"

subsection \<open>Resource strings\<close>

text \<open>\<open>None\<close> in the list of strings is a NULL, which \<open>strdup\<close> dereferences.\<close>

definition resourceStringToResource :: "server \<Rightarrow> string \<Rightarrow> (string \<times> int) option" where
  "resourceStringToResource s str =
     (let n = takeWhile (\<lambda>c. c \<noteq> CHR '':'') str;
          needed = (case dropWhile (\<lambda>c. c \<noteq> CHR '':'') str of [] \<Rightarrow> 1 | _ # t \<Rightarrow> atoi t)
      in case findResource s n of None \<Rightarrow> None | Some r \<Rightarrow> Some (n, needed))"

fun convertResourceStrings :: "server \<Rightarrow> string option list \<Rightarrow> fault + (string \<times> int) list option" where
  "convertResourceStrings s [] = Inr (Some [])"
| "convertResourceStrings s (None # strs) = Inl NullPointer"
| "convertResourceStrings s (Some str # strs) =
     (case resourceStringToResource s str of
        None \<Rightarrow> Inr None
      | Some r \<Rightarrow> bindR (convertResourceStrings s strs) (\<lambda>rs. Inr (map_option ((#) r) rs)))"

subsection \<open>Serializing a job\<close>

text \<open>
  \<open>serialize_jersJob\<close>: the fields of a job, all of them when the mask is 0. \<open>PRECMD\<close> and
  \<open>POSTCMD\<close> carry each other's value.
\<close>

definition wanted :: "flags \<Rightarrow> flags \<Rightarrow> field list \<Rightarrow> field list" where
  "wanted rf b fs = (if rf = 0 \<or> has_flag rf b then fs else [])"

definition serialize_jersJob :: "server \<Rightarrow> job \<Rightarrow> flags \<Rightarrow> field list" where
  "serialize_jersJob s j rf =
     wanted rf 0x01 [num_field JOBID (int (j_jobid j))] @
     wanted rf 0x04 [str_field JOBNAME (Some (j_jobname j))] @
     wanted rf 0x02 [str_field QUEUENAME (Some (j_queue j))] @
     wanted rf 0x08 [num_field STATE (uint (j_state j))] @
     wanted rf 0x20 [num_field UID (j_uid j)] @
     wanted rf 0x200000 [num_field SUBMITTER (j_submitter j)] @
     wanted rf 0x0400 [num_field PRIORITY (j_priority j)] @
     wanted rf 0x0800 [num_field SUBMITTIME (j_submit_time j)] @
     wanted rf 0x008000 [num_field NICE (start_nice s j)] @
     wanted rf 0x040000 [array_field ARGS (j_argv j)] @
     wanted rf 0x100000 [str_field NODE (job_host s j)] @
     wanted rf 0x800000 [num_field REVISION (j_revision j)] @
     wanted rf 0x40 (opt_str STDOUT (j_stdout j)) @
     wanted rf 0x80 (opt_str STDERR (j_stderr j)) @
     wanted rf 0x1000 (opt_num DEFERTIME (j_defer_time j)) @
     wanted rf 0x2000 (opt_num STARTTIME (j_start_time j)) @
     wanted rf 0x4000 (opt_num FINISHTIME (j_finish_time j)) @
     wanted rf 0x0100 (if j_tags j = [] then [] else [map_field TAGS (j_tags j)]) @
     wanted rf 0x080000 (opt_str SHELL (j_shell j)) @
     wanted rf 0x010000 (opt_str POSTCMD (j_pre_cmd j)) @
     wanted rf 0x020000 (opt_str PRECMD (j_post_cmd j)) @
     wanted rf 0x0200 (if j_req_resources j = [] then []
       else [strs_field RESOURCES (convertResourceToStrings (j_req_resources j))]) @
     wanted rf 0x10000000 (if j_envs j = [] then [] else [array_field ENVS (j_envs j)]) @
     wanted rf 0x400000 (opt_num JOBPID (j_pid j)) @
     [num_field EXITCODE (j_exitcode j), num_field SIGNAL (j_signal j)] @
     opt_num PENDREASON (j_pend_reason j) @ opt_num FAILREASON (j_fail_reason j)"

subsection \<open>Adding a job\<close>

definition job_revision :: "nat \<Rightarrow> server \<Rightarrow> int option" where
  "job_revision k s = map_option j_revision (findJob s k)"

definition new_job :: "server \<Rightarrow> world \<Rightarrow> client option \<Rightarrow> jersJobAdd \<Rightarrow> string \<Rightarrow> (string \<times> int) list \<Rightarrow> nat \<Rightarrow> job" where
  "new_job s w c ja q resources k =
     job_zero\<lparr>j_jobid := k,
       j_jobname := (case ja_name ja of Some n \<Rightarrow> n | None \<Rightarrow> ''job_'' @ int64tostr (int k)),
       j_queue := q, j_shell := ja_shell ja, j_stdout := ja_stdout ja, j_stderr := ja_stderr ja,
       j_wrapper := ja_wrapper ja, j_pre_cmd := ja_pre_cmd ja, j_post_cmd := ja_post_cmd ja,
       j_argv := ja_argv ja, j_envs := ja_envs ja, j_uid := ja_uid ja,
       j_submitter := (case c of Some c \<Rightarrow> c_uid c | None \<Rightarrow> rec_uid (recovery s)),
       j_defer_time := ja_defer_time ja, j_priority := ja_priority ja, j_nice := ja_nice ja,
       j_tags := ja_tags ja, j_flags := ja_flags ja, j_req_resources := resources,
       j_state := (if ja_defer_time ja \<noteq> 0 then JERS_JOB_DEFERRED
                   else if ja_hold ja \<noteq> 0 then JERS_JOB_HOLDING else JERS_JOB_PENDING),
       j_submit_time := (if rec_in_progress (recovery s) then rec_time (recovery s) else w_now w)\<rparr>"

text \<open>The checks in the order of the source: the queue, the requested jobid, the resources.\<close>

definition add_job_queue :: "client option \<Rightarrow> jersJobAdd \<Rightarrow> server \<Rightarrow> (string \<Rightarrow> result) \<Rightarrow> result" where
  "add_job_queue c ja s k =
     (case ja_queue ja of
        None \<Rightarrow>
          (case defaultQueue s of
             None \<Rightarrow> fail c JERS_ERR_NOQUEUE (Some ''No default queue'') (-1) s
           | Some q \<Rightarrow> k q)
      | Some n \<Rightarrow>
          (case findQueue s n of
             None \<Rightarrow> Inr (finish (-1) (sendErrorFmt c JERS_ERR_NOQUEUE (''Queue '' @ [APOS] @ n @ [APOS] @ '' not found'')) s)
           | Some q \<Rightarrow>
               if has_flag (q_internal_state q) JERS_FLAG_DELETED
               then Inr (finish (-1) (sendErrorFmt c JERS_ERR_NOQUEUE (''Queue '' @ [APOS] @ n @ [APOS] @ '' not found'')) s)
               else if \<not> has_flag (q_state q) JERS_QUEUE_FLAG_OPEN
               then fail c JERS_ERR_INVSTATE (Some ''Queue is closed'') (-1) s
               else k n))"

definition add_job_reuse :: "client option \<Rightarrow> jersJobAdd \<Rightarrow> server \<Rightarrow> (server \<Rightarrow> result) \<Rightarrow> result" where
  "add_job_reuse c ja s k =
     (if ja_jobid ja = 0 then k s
      else case findJob s (ja_jobid ja) of
             None \<Rightarrow> k s
           | Some j \<Rightarrow>
               if has_flag (j_internal_state j) JERS_FLAG_DELETED then
                 (case cleanupJob (ja_jobid ja) s of
                    (rc, s') \<Rightarrow> if rc \<noteq> 0 then fail c JERS_ERR_JOBEXISTS None (-1) s' else k s')
               else fail c JERS_ERR_JOBEXISTS None (-1) s)"

definition add_job_resources :: "client option \<Rightarrow> jersJobAdd \<Rightarrow> server \<Rightarrow> ((string \<times> int) list \<Rightarrow> result) \<Rightarrow> result" where
  "add_job_resources c ja s k =
     (if ja_resources ja = [] then k []
      else bindR (convertResourceStrings s (ja_resources ja)) (\<lambda>rs.
        case rs of None \<Rightarrow> fail c JERS_ERR_NORES None (-1) s | Some rs \<Rightarrow> k rs))"

definition add_job_id :: "jersJobAdd \<Rightarrow> server \<Rightarrow> fault + nat \<times> server" where
  "add_job_id ja s =
     (if ja_jobid ja = 0 then (case getNextJobID s of None \<Rightarrow> Inl Diverges | Some r \<Rightarrow> Inr r)
      else Inr (ja_jobid ja, s))"

definition add_job_commit :: "world \<Rightarrow> client option \<Rightarrow> jersJobAdd \<Rightarrow> string \<Rightarrow> (string \<times> int) list \<Rightarrow> nat \<Rightarrow> server \<Rightarrow> result" where
  "add_job_commit w c ja q resources k s =
     (let s' = snd (addJob (new_job s w c ja q resources k) True s)
      in case c of
           None \<Rightarrow> Inr (finish 0 [] s')
         | Some _ \<Rightarrow>
             bindR (sendClientMessage c (job_revision k s') [[num_field JOBID (int k)]] s') (\<lambda>r.
             Inr (r\<lparr>o_jobid := k,
                    o_server := s'\<lparr>stats_total := (stats_total s')\<lparr>t_submitted := t_submitted (stats_total s') + 1\<rparr>\<rparr>\<rparr>)))"

definition add_job_tail :: "world \<Rightarrow> client option \<Rightarrow> jersJobAdd \<Rightarrow> string \<Rightarrow> server \<Rightarrow> result" where
  "add_job_tail w c ja q s =
     (if w_users w (ja_uid ja) = None then fail c JERS_ERR_INVARG (Some ''User not valid'') (-1) s
      else
        add_job_resources c ja s (\<lambda>resources.
          if \<not> list_all (\<lambda>(key, _). isprintable key) (ja_tags ja)
          then fail c JERS_ERR_INVTAG None (-1) s
          else
            bindR (add_job_id ja s) (\<lambda>(k, s).
              if k = 0 then fail c JERS_ERR_NOJOB (Some ''No available Job IDs'') (-1) s
              else add_job_commit w c ja q resources k s)))"

definition add_job_checked :: "world \<Rightarrow> client option \<Rightarrow> jersJobAdd \<Rightarrow> server \<Rightarrow> result" where
  "add_job_checked w c ja s =
     add_job_queue c ja s (\<lambda>q. add_job_reuse c ja s (add_job_tail w c ja q))"

definition command_add_job :: "world \<Rightarrow> client option \<Rightarrow> jersJobAdd \<Rightarrow> server \<Rightarrow> result" where
  "command_add_job w c ja s =
     (let r = recovery s
      in if rec_in_progress r \<and> findJob s (rec_jobid r) \<noteq> None then Inr (finish 0 [] s)
         else
           (let ja = (if rec_in_progress r then ja\<lparr>ja_jobid := rec_jobid r, ja_uid := rec_uid r\<rparr> else ja)
            in bindR (if ja_uid ja > 0 then Inr (ja_uid ja)
                      else case c of None \<Rightarrow> Inl NullPointer | Some c \<Rightarrow> Inr (c_uid c)) (\<lambda>uid.
               if uid = 0 then fail c JERS_ERR_INVARG (Some ''Jobs not allowed to run as root'') (-1) s
               else
                 unless_recovery s (guard_perm c uid PERM_SETUID s)
                   (add_job_checked w c (ja\<lparr>ja_uid := uid\<rparr>) s))))"

subsection \<open>Finding jobs\<close>

text \<open>\<open>matches\<close> and \<open>strchr\<close> on a tag value that is NULL dereference it.\<close>

definition matchesN :: "fnmatch \<Rightarrow> string option \<Rightarrow> string option \<Rightarrow> fault + bool" where
  "matchesN fnm pat v =
     (case pat of
        None \<Rightarrow> Inl NullPointer
      | Some p \<Rightarrow> (case v of None \<Rightarrow> Inl NullPointer | Some x \<Rightarrow> Inr (matches fnm p x = 0)))"

fun job_has_tag :: "fnmatch \<Rightarrow> string \<Rightarrow> string option \<Rightarrow> (string \<times> string option) list \<Rightarrow> fault + bool" where
  "job_has_tag fnm key pat [] = Inr False"
| "job_has_tag fnm key pat ((k, v) # tags) =
     (if k = key then bindR (matchesN fnm pat v) (\<lambda>b. if b then Inr True else job_has_tag fnm key pat tags)
      else job_has_tag fnm key pat tags)"

fun job_has_tags :: "fnmatch \<Rightarrow> nat option \<Rightarrow> nat \<Rightarrow> (string \<times> string option) list \<Rightarrow> (string \<times> string option) list \<Rightarrow> fault + bool" where
  "job_has_tags fnm indexed i [] tags = Inr True"
| "job_has_tags fnm indexed i ((key, pat) # filters) tags =
     (if indexed = Some i then job_has_tags fnm indexed (Suc i) filters tags
      else bindR (job_has_tag fnm key pat tags) (\<lambda>b.
        if b then job_has_tags fnm indexed (Suc i) filters tags else Inr False))"

definition job_before :: "jersJobFilter \<Rightarrow> job \<Rightarrow> bool" where
  "job_before f j \<longleftrightarrow>
     \<not> (jf_before_added f \<noteq> 0 \<and> j_submit_time j > jf_before_added f) \<and>
     \<not> (jf_before_started f \<noteq> 0 \<and> (j_start_time j = 0 \<or> j_start_time j > jf_before_started f)) \<and>
     \<not> (jf_before_finished f \<noteq> 0 \<and> (j_finish_time j = 0 \<or> j_finish_time j > jf_before_finished f))"

definition job_after :: "jersJobFilter \<Rightarrow> job \<Rightarrow> bool" where
  "job_after f j \<longleftrightarrow>
     \<not> (jf_after_added f \<noteq> 0 \<and> j_submit_time j < jf_after_added f) \<and>
     \<not> (jf_after_started f \<noteq> 0 \<and> (j_start_time j = 0 \<or> j_start_time j < jf_after_started f)) \<and>
     \<not> (jf_after_finished f \<noteq> 0 \<and> (j_finish_time j = 0 \<or> j_finish_time j < jf_after_finished f))"

definition filters_on :: "jersJobFilter \<Rightarrow> flags \<Rightarrow> bool" where
  "filters_on f b = has_flag (jf_filter_fields f) b"

definition str_or_empty :: "string option \<Rightarrow> string" where
  "str_or_empty v = (case v of Some x \<Rightarrow> x | None \<Rightarrow> [])"

definition job_matches :: "fnmatch \<Rightarrow> nat option \<Rightarrow> jersJobFilter \<Rightarrow> string option \<Rightarrow> job \<Rightarrow> fault + bool" where
  "job_matches fnm indexed f q j =
     (if has_flag (j_internal_state j) JERS_FLAG_DELETED then Inr False
      else if filters_on f JERS_FILTER_STATE \<and> \<not> has_flag (jf_state f) (j_state j) then Inr False
      else if filters_on f JERS_FILTER_QUEUE \<and>
              ((case q of Some n \<Rightarrow> j_queue j \<noteq> n | None \<Rightarrow> False) \<or>
               matches fnm (str_or_empty (jf_queue_name f)) (j_queue j) \<noteq> 0) then Inr False
      else if filters_on f JERS_FILTER_UID \<and> jf_uid f \<noteq> j_uid j then Inr False
      else if filters_on f JERS_FILTER_JOBNAME \<and> matches fnm (str_or_empty (jf_job_name f)) (j_jobname j) \<noteq> 0
      then Inr False
      else bindR (if filters_on f JERS_FILTER_TAGS then job_has_tags fnm indexed 0 (jf_tags f) (j_tags j)
                  else Inr True) (\<lambda>b.
        if \<not> b then Inr False
        else if filters_on f JERS_FILTER_BEFORE \<and> \<not> job_before f j then Inr False
        else if filters_on f JERS_FILTER_AFTER \<and> \<not> job_after f j then Inr False
        else Inr True))"

fun filter_jobs :: "(job \<Rightarrow> fault + bool) \<Rightarrow> job list \<Rightarrow> fault + job list" where
  "filter_jobs P [] = Inr []"
| "filter_jobs P (j # js) =
     bindR (P j) (\<lambda>b. bindR (filter_jobs P js) (\<lambda>r. Inr (if b then j # r else r)))"

text \<open>
  Which jobs the loop visits. When the request filters on the index tag with a plain value
  and the index has an entry for it, only the jobs of that entry are visited and the filter
  at that position is skipped; otherwise the whole table is.
\<close>

fun index_filter :: "string \<Rightarrow> nat \<Rightarrow> (string \<times> string option) list \<Rightarrow> (nat \<times> string option) option" where
  "index_filter tag i [] = None"
| "index_filter tag i ((k, v) # kvs) = (if k = tag then Some (i, v) else index_filter tag (Suc i) kvs)"

definition index_lookup :: "server \<Rightarrow> jersJobFilter \<Rightarrow> fault + (nat \<times> nat list) option" where
  "index_lookup s f =
     (case index_tag s of
        None \<Rightarrow> Inr None
      | Some tag \<Rightarrow>
          if \<not> filters_on f JERS_FILTER_TAGS then Inr None
          else case index_filter tag 0 (jf_tags f) of
                 None \<Rightarrow> Inr None
               | Some (i, None) \<Rightarrow> Inl NullPointer
               | Some (i, Some v) \<Rightarrow>
                   if has_wildcard v then Inr None
                   else Inr (map_option (\<lambda>(_, ids). (i, ids)) (tfind fst v (index_tag_table s))))"

definition get_job_select :: "fnmatch \<Rightarrow> jersJobFilter \<Rightarrow> string option \<Rightarrow> server \<Rightarrow> fault + job list" where
  "get_job_select fnm f q s =
     bindR (index_lookup s f) (\<lambda>it.
       case it of
         None \<Rightarrow> filter_jobs (job_matches fnm None f q) (jobTable s)
       | Some (i, ids) \<Rightarrow>
           filter_jobs (job_matches fnm (Some i) f q) (List.map_filter (findJob s) ids))"

definition may_read :: "server \<Rightarrow> client \<Rightarrow> job \<Rightarrow> bool" where
  "may_read s c j \<longleftrightarrow>
     c_uid c = 0 \<or> has_flag (u_permissions (c_user c)) PERM_READ \<or>
     ((g_self (permissions s) = [] \<or> c_uid c = 0 \<or> u_permissions (c_user c) AND PERM_SELF = PERM_SELF) \<and>
      j_uid j = c_uid c)"

definition get_jobs :: "world \<Rightarrow> client option \<Rightarrow> client \<Rightarrow> jersJobFilter \<Rightarrow> string option \<Rightarrow> server \<Rightarrow> result" where
  "get_jobs w c cl f q s =
     bindR (get_job_select (w_fnmatch w) f q s) (\<lambda>js.
       sendClientMessage c None
         (map (\<lambda>j. serialize_jersJob s j (of_int (jf_return_fields f))) (filter (may_read s cl) js)) s)"

definition command_get_job :: "world \<Rightarrow> client option \<Rightarrow> jersJobFilter \<Rightarrow> server \<Rightarrow> result" where
  "command_get_job w c f s =
     (case c of
        None \<Rightarrow> Inl NullPointer
      | Some cl \<Rightarrow>
          if jf_jobid f \<noteq> 0 then
            (let j = findJob s (jf_jobid f)
             in guard_perm c (uid_of j) PERM_READ s
                  (case j of
                     None \<Rightarrow> fail c JERS_ERR_NOJOB None 1 s
                   | Some j \<Rightarrow>
                       if has_flag (j_internal_state j) JERS_FLAG_DELETED then fail c JERS_ERR_NOJOB None 1 s
                       else sendClientMessage c None [serialize_jersJob s j 0] s))
          else if filters_on f JERS_FILTER_QUEUE \<and> \<not> has_wildcard (str_or_empty (jf_queue_name f)) then
            (case findQueue s (str_or_empty (jf_queue_name f)) of
               None \<Rightarrow> fail c JERS_ERR_NOQUEUE None (-1) s
             | Some q \<Rightarrow> get_jobs w c cl f (Some (q_name q)) s)
          else get_jobs w c cl f None s)"

subsection \<open>Deleting, signalling and waiting\<close>

definition command_del_job :: "client option \<Rightarrow> jersJobDel \<Rightarrow> server \<Rightarrow> result" where
  "command_del_job c jd s =
     (let k = jd_jobid jd; j = findJob s k
      in unless_recovery s (guard_perm c (uid_of j) PERM_WRITE s)
           (if (case j of None \<Rightarrow> True | Some j \<Rightarrow> has_flag (j_internal_state j) JERS_FLAG_DELETED) then
              (if rec_in_progress (recovery s) then Inr (finish 0 [] s)
               else fail c JERS_ERR_NOJOB None 1 s)
            else sendClientReturnCode c None ''0'' (deleteJob k s)))"

definition signal_unknown :: "world \<Rightarrow> int \<Rightarrow> job \<Rightarrow> job" where
  "signal_unknown w sig j =
     j\<lparr>j_pid := -1, j_finish_time := w_now w, j_signal := sig, j_exitcode := int32 (128 + sig)\<rparr>"

definition command_sig_job :: "world \<Rightarrow> client option \<Rightarrow> jersJobSig \<Rightarrow> server \<Rightarrow> result" where
  "command_sig_job w c js s =
     (let k = js_jobid js; sig = js_signum js
      in guard_perm c (uid_of (findJob s k)) (if sig = 0 then PERM_READ else PERM_WRITE) s
           (case findJob s k of
              None \<Rightarrow> fail c JERS_ERR_NOJOB None 1 s
            | Some j \<Rightarrow>
                if has_flag (j_internal_state j) JERS_FLAG_DELETED then fail c JERS_ERR_NOJOB None 1 s
                else if j_state j \<noteq> JERS_JOB_RUNNING then
                  (if j_state j = JERS_JOB_UNKNOWN \<and> sig \<noteq> 0 then
                     sendClientReturnCode c None ''0''
                       (deallocateRes j (changeJobState k JERS_JOB_EXITED None True
                          (on_job k (signal_unknown w sig) s)))
                   else fail c JERS_ERR_INVSTATE (Some ''Job is not running'') 1 s)
                else if sig = 0 then sendClientReturnCode c None ''0'' s
                else
                  (case (c, job_agent s j) of
                     (Some cl, Some a) \<Rightarrow>
                       sendClientReturnCode c None ''0''
                         (sendAgentMessage (Some a)
                            (''JOB_SIG'', 1, [num_field JOBID (int k), num_field SIGNAL sig,
                                             num_field UID (c_uid cl)]) s)
                   | _ \<Rightarrow> Inl NullPointer)))"

definition command_wait_job_callback :: "client option \<Rightarrow> jersJobWait \<Rightarrow> server \<Rightarrow> result" where
  "command_wait_job_callback c jw s =
     (case findJob s (jw_jobid jw) of
        None \<Rightarrow> sendClientReturnCode c None ''0'' s
      | Some j \<Rightarrow>
          if jw_revision jw \<noteq> j_revision j then sendClientReturnCode c None ''0'' s
          else Inr (finish 0 [] s))"

definition command_wait_job_timeout :: "client option \<Rightarrow> server \<Rightarrow> result" where
  "command_wait_job_timeout c s = fail c JERS_ERR_TIMEOUT None 0 s"

definition command_wait_job :: "world \<Rightarrow> client option \<Rightarrow> jersJobWait \<Rightarrow> server \<Rightarrow> result" where
  "command_wait_job w c jw s =
     guard_perm c (uid_of (findJob s (jw_jobid jw))) PERM_WRITE s
       (case findJob s (jw_jobid jw) of
          None \<Rightarrow> fail c JERS_ERR_NOJOB None 1 s
        | Some j \<Rightarrow>
            if has_flag (j_internal_state j) JERS_FLAG_DELETED then fail c JERS_ERR_NOJOB None 1 s
            else if jw_revision jw \<noteq> 0 \<and> jw_revision jw \<noteq> j_revision j
            then sendClientReturnCode c None ''0'' s
            else if jw_timeout jw = 0 then fail c JERS_ERR_NOCHANGE (Some ''Job not changed'') 1 s
            else
              Inr ((finish 0 [] s)\<lparr>o_blocking :=
                Some \<lparr>bl_data = (if jw_revision jw = 0 then jw\<lparr>jw_revision := j_revision j\<rparr> else jw),
                      bl_timeout = (if jw_timeout jw > 0 then int64 (w_now_ms w + jw_timeout jw * 1000)
                                    else 0)\<rparr>\<rparr>))"

subsection \<open>Modifying a job\<close>

definition finished_state :: "flags \<Rightarrow> bool" where
  "finished_state st \<longleftrightarrow> st = JERS_JOB_COMPLETED \<or> st = JERS_JOB_EXITED \<or> st = JERS_JOB_UNKNOWN"

text \<open>
  The members of the job the handler assigns. \<open>new\<close> are the converted resources, \<open>None\<close> when
  the request brings none or clears them. Clearing stores the request's count beside a NULL
  array; the handler below treats a count other than 0 there as the NULL dereference that
  the next reader of the array makes.
\<close>

definition mod_job_first :: "jersJobMod \<Rightarrow> job \<Rightarrow> job" where
  "mod_job_first mj j =
     j\<lparr>j_jobname := (case jm_name mj of Some n \<Rightarrow> n | None \<Rightarrow> j_jobname j),
       j_priority := (if jm_priority mj \<noteq> UNSET_32 then jm_priority mj else j_priority j)\<rparr>"

definition mod_job_rest :: "jersJobMod \<Rightarrow> (string \<times> int) list option \<Rightarrow> bool \<Rightarrow> job \<Rightarrow> job" where
  "mod_job_rest mj new completed j =
     (let j = j\<lparr>j_nice := (if jm_nice mj = UNSET_32 then j_nice j
                           else if jm_nice mj = JERS_CLEAR_NICE then UNSET_32 else jm_nice mj),
                j_envs := (case jm_envs mj of Some e \<Rightarrow> e | None \<Rightarrow> j_envs j),
                j_tags := (case jm_tags mj of Some t \<Rightarrow> t | None \<Rightarrow> j_tags j),
                j_req_resources :=
                  (if jm_clear_resources mj \<noteq> 0 then []
                   else if jm_resources mj \<noteq> None then (case new of Some r \<Rightarrow> r | None \<Rightarrow> [])
                   else j_req_resources j)\<rparr>
      in if completed \<and> jm_restart mj = 1
         then j\<lparr>j_exitcode := 0, j_signal := 0, j_start_time := 0, j_finish_time := 0, j_fail_reason := 0\<rparr>
         else j)"

definition mod_job_defer :: "jersJobMod \<Rightarrow> job \<Rightarrow> server \<Rightarrow> server" where
  "mod_job_defer mj j s =
     (if jm_defer_time mj = UNSET_TIME_T then s
      else
        (let k = j_jobid j;
             s = (if j_defer_time j \<noteq> 0 then removeDeferredJob k s else s);
             s = on_job k (\<lambda>j. j\<lparr>j_defer_time := jm_defer_time mj\<rparr>) s
         in if jm_defer_time mj \<noteq> 0 then addDeferredJob k s else s))"

definition mod_job_dirty :: "jersJobMod \<Rightarrow> (string \<times> int) list option \<Rightarrow> bool \<Rightarrow> job \<Rightarrow> bool" where
  "mod_job_dirty mj new completed j \<longleftrightarrow>
     jm_name mj \<noteq> None \<or> jm_priority mj \<noteq> UNSET_32 \<or> jm_defer_time mj \<noteq> UNSET_TIME_T \<or>
     jm_hold mj \<noteq> UNSET_8 \<or> jm_nice mj \<noteq> UNSET_32 \<or>
     (jm_resources mj \<noteq> None \<and> (j_req_resources j \<noteq> [] \<or> new \<noteq> None)) \<or>
     jm_clear_resources mj \<noteq> 0 \<or> (completed \<and> jm_restart mj = 1)"

definition mod_job_state :: "jersJobMod \<Rightarrow> job \<Rightarrow> flags" where
  "mod_job_state mj j =
     (let completed = finished_state (j_state j) \<and> jm_restart mj \<noteq> 1;
          hold = (if jm_hold mj \<noteq> UNSET_8 then jm_hold mj \<noteq> 0 else j_state j = JERS_JOB_HOLDING);
          defer = (if jm_defer_time mj \<noteq> UNSET_TIME_T then jm_defer_time mj else j_defer_time j)
      in if defer \<noteq> 0 then JERS_JOB_DEFERRED
         else if hold then JERS_JOB_HOLDING
         else if \<not> completed then JERS_JOB_PENDING
         else j_state j)"

definition mod_job_commit :: "client option \<Rightarrow> jersJobMod \<Rightarrow> string option \<Rightarrow> (string \<times> int) list option \<Rightarrow> job \<Rightarrow> server \<Rightarrow> result" where
  "mod_job_commit c mj q new j s =
     (let k = j_jobid j; completed = finished_state (j_state j); st = mod_job_state mj j;
          s = (if jm_restart mj \<noteq> 0 \<and> j_state j = JERS_JOB_UNKNOWN then deallocateRes j s else s);
          s = on_job k (mod_job_first mj) s;
          s = mod_job_defer mj j s;
          s = on_job k (mod_job_rest mj new completed) s;
          dirty = (mod_job_dirty mj new completed j \<or> q \<noteq> None \<or> st \<noteq> j_state j);
          s = changeJobState k st q dirty s
      in if jm_clear_resources mj \<noteq> 0 \<and> jm_resources mj \<noteq> None \<and> jm_resources mj \<noteq> Some []
         then Inl NullPointer
         else sendClientReturnCode c (job_revision k s) ''0'' s)"

definition mod_job_resources :: "client option \<Rightarrow> jersJobMod \<Rightarrow> server \<Rightarrow> ((string \<times> int) list option \<Rightarrow> result) \<Rightarrow> result" where
  "mod_job_resources c mj s k =
     (case jm_resources mj of
        Some (r # rs) \<Rightarrow>
          if jm_clear_resources mj = 0 then
            bindR (convertResourceStrings s (r # rs)) (\<lambda>new.
              case new of None \<Rightarrow> fail c JERS_ERR_NORES None (-1) s | Some new \<Rightarrow> k (Some new))
          else k None
      | _ \<Rightarrow> k None)"

definition mod_job_checked :: "client option \<Rightarrow> jersJobMod \<Rightarrow> job \<Rightarrow> server \<Rightarrow> result" where
  "mod_job_checked c mj j s =
     (if finished_state (j_state j) \<and> jm_restart mj \<noteq> 1 \<and>
         (jm_defer_time mj \<noteq> UNSET_TIME_T \<or> jm_hold mj \<noteq> UNSET_8)
      then fail c JERS_ERR_INVARG (Some ''Unable to modify a completed job without restart flag'') 0 s
      else if j_state j = JERS_JOB_RUNNING \<or> has_flag (j_internal_state j) JERS_FLAG_JOB_STARTED
      then fail c JERS_ERR_INVARG (Some ''Unable to modify a running job'') 0 s
      else if jm_priority mj \<noteq> UNSET_32 \<and>
              (jm_priority mj < JERS_JOB_MIN_PRIORITY \<or> jm_priority mj > JERS_JOB_MAX_PRIORITY)
      then fail c JERS_ERR_INVARG (Some ''Invalid priority specified'') 0 s
      else
        (case jm_queue mj of
           None \<Rightarrow> mod_job_resources c mj s (\<lambda>new. mod_job_commit c mj None new j s)
         | Some n \<Rightarrow>
             (case findQueue s n of
                None \<Rightarrow> fail c JERS_ERR_NOQUEUE None 0 s
              | Some q \<Rightarrow> mod_job_resources c mj s (\<lambda>new. mod_job_commit c mj (Some (q_name q)) new j s))))"

definition command_mod_job :: "client option \<Rightarrow> jersJobMod \<Rightarrow> server \<Rightarrow> result" where
  "command_mod_job c mj s =
     (if jm_jobid mj = 0 then fail c JERS_ERR_NOJOB None 0 s
      else
        unless_recovery s (guard_perm c (uid_of (findJob s (jm_jobid mj))) PERM_WRITE s)
          (case findJob s (jm_jobid mj) of
             None \<Rightarrow> fail c JERS_ERR_NOJOB None 0 s
           | Some j \<Rightarrow>
               if has_flag (j_internal_state j) JERS_FLAG_DELETED then fail c JERS_ERR_NOJOB None 0 s
               else if rec_in_progress (recovery s) \<and> j_revision j \<ge> rec_revision (recovery s)
               then Inr (finish 0 [] s)
               else mod_job_checked c mj j s))"

subsection \<open>Tags\<close>

fun set_first_tag :: "string \<Rightarrow> string option \<Rightarrow> (string \<times> string option) list \<Rightarrow> (string \<times> string option) list" where
  "set_first_tag key v [] = [(key, v)]"
| "set_first_tag key v ((k, x) # tags) = (if k = key then (k, v) # tags else (k, x) # set_first_tag key v tags)"

fun del_first_tag :: "string \<Rightarrow> (string \<times> string option) list \<Rightarrow> (string \<times> string option) list" where
  "del_first_tag key [] = []"
| "del_first_tag key ((k, x) # tags) = (if k = key then tags else (k, x) # del_first_tag key tags)"

definition has_tag :: "string \<Rightarrow> (string \<times> string option) list \<Rightarrow> bool" where
  "has_tag key tags \<longleftrightarrow> key \<in> fst ` set tags"

definition command_set_tag :: "client option \<Rightarrow> jersTagSet \<Rightarrow> server \<Rightarrow> result" where
  "command_set_tag c ts s =
     (let k = ts_jobid ts
      in unless_recovery s (guard_perm c (uid_of (findJob s k)) PERM_WRITE s)
           (case findJob s k of
              None \<Rightarrow> fail c JERS_ERR_NOJOB None 1 s
            | Some j \<Rightarrow>
                (case ts_key ts of
                   None \<Rightarrow> Inl NullPointer
                 | Some key \<Rightarrow>
                     if \<not> isprintable key then fail c JERS_ERR_INVTAG None 1 s
                     else
                       (let indexed = (index_tag s = Some key);
                            s = (if indexed \<and> has_tag key (j_tags j) then delIndexTag k s else s);
                            s = on_job k (\<lambda>j. j\<lparr>j_tags := set_first_tag key (ts_value ts) (j_tags j)\<rparr>) s
                        in case (indexed, ts_value ts) of
                             (True, None) \<Rightarrow> Inl NullPointer
                           | _ \<Rightarrow>
                               (let s = (if indexed then addIndexTag k (str_or_empty (ts_value ts)) s else s);
                                    s = updateJob k True s
                                in sendClientReturnCode c (job_revision k s) ''0'' s)))))"

definition command_del_tag :: "client option \<Rightarrow> jersTagDel \<Rightarrow> server \<Rightarrow> result" where
  "command_del_tag c td s =
     (let k = td_jobid td
      in unless_recovery s (guard_perm c (uid_of (findJob s k)) PERM_WRITE s)
           (case findJob s k of
              None \<Rightarrow> fail c JERS_ERR_NOJOB None 1 s
            | Some j \<Rightarrow>
                (case td_key td of
                   None \<Rightarrow>
                     if index_tag s = None \<and> j_tags j = [] then fail c JERS_ERR_NOTAG None 1 s
                     else Inl NullPointer
                 | Some key \<Rightarrow>
                     if \<not> has_tag key (j_tags j) then fail c JERS_ERR_NOTAG None 1 s
                     else
                       (let s = (if index_tag s = Some key then delIndexTag k s else s);
                            s = on_job k (\<lambda>j. j\<lparr>j_tags := del_first_tag key (j_tags j)\<rparr>) s;
                            s = updateJob k True s
                        in sendClientReturnCode c (job_revision k s) ''0'' s))))"

subsection \<open>The invariant\<close>

lemma new_job_simps [simp]:
  "j_jobid (new_job s w c ja q rs k) = k" "j_queue (new_job s w c ja q rs k) = q"
  "j_internal_state (new_job s w c ja q rs k) = 0"
  by (simp_all add: new_job_def job_zero_def)

lemma add_job_commit_keeps:
  assumes "daemon_ok s" and "q \<in> set (qnames s)"
  shows "keeps daemon_ok (add_job_commit w c ja q rs k s)"
proof -
  have "daemon_ok (snd (addJob (new_job s w c ja q rs k) True s))"
    using assms by (intro daemon_ok_addJob) (simp_all add: findQueue_None)
  then show ?thesis
    by (auto simp: add_job_commit_def Let_def split: option.split intro!: keeps_bind)
qed

lemma add_job_reuse_keeps:
  assumes "daemon_ok s" and "\<And>s'. daemon_ok s' \<Longrightarrow> qnames s' = qnames s \<Longrightarrow> keeps daemon_ok (k s')"
  shows "keeps daemon_ok (add_job_reuse c ja s k)"
proof (cases "findJob s (ja_jobid ja)")
  case None
  with assms show ?thesis by (simp add: add_job_reuse_def)
next
  case (Some j)
  show ?thesis
  proof (cases "has_flag (j_internal_state j) JERS_FLAG_DELETED")
    case True
    have "daemon_ok (snd (cleanupJob (ja_jobid ja) s))"
      using True Some daemon_ok_deleted [OF assms(1)] by (intro daemon_ok_cleanupJob assms(1)) auto
    with assms Some True show ?thesis
      using cleanupJob_names [of "ja_jobid ja" s]
      by (auto simp: add_job_reuse_def simp del: cleanupJob_names split: prod.split)
  next
    case False
    with assms Some show ?thesis by (simp add: add_job_reuse_def)
  qed
qed

lemma add_job_id_keeps:
  assumes "daemon_ok s" and "add_job_id ja s = Inr (k, s')"
  shows "daemon_ok s' \<and> qnames s' = qnames s"
  using assms getNextJobID_keeps [of s] by (auto simp: add_job_id_def split: if_splits option.splits)

lemma add_job_tail_keeps:
  assumes "daemon_ok s" and "q \<in> set (qnames s)"
  shows "keeps daemon_ok (add_job_tail w c ja q s)"
proof -
  have "keeps daemon_ok (bindR (add_job_id ja s) (\<lambda>(k, s). if k = 0
      then fail c JERS_ERR_NOJOB (Some ''No available Job IDs'') (-1) s else add_job_commit w c ja q rs k s))" for rs
    using assms by (intro keeps_bind) (auto dest!: add_job_id_keeps [rotated] intro!: add_job_commit_keeps)
  with assms(1) show ?thesis
    by (auto simp: add_job_tail_def add_job_resources_def split: option.split intro!: keeps_bind)
qed

lemma add_job_checked_keeps:
  assumes "daemon_ok s"
  shows "keeps daemon_ok (add_job_checked w c ja s)"
proof -
  have "keeps daemon_ok (add_job_reuse c ja s (add_job_tail w c ja q))" if "q \<in> set (qnames s)" for q
    using that by (intro add_job_reuse_keeps assms add_job_tail_keeps) simp_all
  then show ?thesis
    using assms daemon_ok_default [OF assms]
    by (auto simp: add_job_checked_def add_job_queue_def findQueue_iff [symmetric] split: option.split)
qed

lemma command_add_job_keeps:
  "daemon_ok s \<Longrightarrow> keeps daemon_ok (command_add_job w c ja s)"
  by (auto simp: command_add_job_def Let_def intro!: keeps_bind keeps_guarded add_job_checked_keeps)

lemma command_get_job_keeps: "I s \<Longrightarrow> keeps I (command_get_job w c f s)"
  by (auto simp: command_get_job_def get_jobs_def Let_def split: option.split intro!: keeps_guard keeps_bind)

lemma command_del_job_keeps: "daemon_ok s \<Longrightarrow> keeps daemon_ok (command_del_job c jd s)"
  by (auto simp: command_del_job_def Let_def split: option.split intro!: keeps_guarded daemon_ok_deleteJob)

lemma command_wait_job_keeps: "I s \<Longrightarrow> keeps I (command_wait_job w c jw s)"
  by (auto simp: command_wait_job_def split: option.split intro!: keeps_guard)

lemma findJob_agent [simp]: "findJob (on_agent n f s) k = findJob s k"
  by (simp add: findJob_def)

lemma command_sig_job_keeps:
  assumes "daemon_ok s"
  shows "keeps daemon_ok (command_sig_job w c js s)"
proof -
  let ?s = "\<lambda>k. on_job k (signal_unknown w (js_signum js)) s"
  have light: "light (signal_unknown w (js_signum js))"
    by (simp add: light_def signal_unknown_def)
  have "daemon_ok (changeJobState k JERS_JOB_EXITED None True (?s k))"
    if "findJob s k = Some j" "\<not> has_flag (j_internal_state j) JERS_FLAG_DELETED" for k j
    using that light
    by (intro daemon_ok_changeJobState daemon_ok_on_job assms) (auto simp: findJob_on_job light_def)
  then show ?thesis
    using assms unfolding command_sig_job_def Let_def
    by (intro keeps_guard)
      (auto split: option.split intro!: daemon_ok_deallocateRes sendAgentMessage_daemon_ok)
qed

lemma daemon_ok_set_tags: "daemon_ok s \<Longrightarrow> daemon_ok (on_job k (\<lambda>j. j\<lparr>j_tags := f (j_tags j)\<rparr>) s)"
  by (intro daemon_ok_on_job) (simp_all add: light_def)

lemma command_set_tag_keeps: "daemon_ok s \<Longrightarrow> keeps daemon_ok (command_set_tag c ts s)"
  unfolding command_set_tag_def Let_def
  by (intro keeps_guarded)
    (simp_all add: daemon_ok_set_tags daemon_ok_index daemon_ok_updateJob split: option.split bool.split)

lemma command_del_tag_keeps: "daemon_ok s \<Longrightarrow> keeps daemon_ok (command_del_tag c td s)"
  unfolding command_del_tag_def Let_def
  by (intro keeps_guarded)
    (simp_all add: daemon_ok_set_tags daemon_ok_index daemon_ok_updateJob split: option.split)

text \<open>Modifying: the job is found not deleted and stays so up to the final change of state.\<close>

lemma mod_job_light: "light (mod_job_first mj)" "light (mod_job_rest mj new cmp)"
  by (simp_all add: light_def mod_job_first_def mod_job_rest_def Let_def)

definition same_flags :: "nat \<Rightarrow> server \<Rightarrow> server \<Rightarrow> bool" where
  "same_flags k s s' \<longleftrightarrow> map_option j_internal_state (findJob s' k) = map_option j_internal_state (findJob s k)"

lemma same_flags_on_job: "light f \<Longrightarrow> same_flags k s s' \<Longrightarrow> same_flags k s (on_job k f s')"
  unfolding same_flags_def light_def by (cases "findJob s' k") (auto simp: findJob_on_job)

lemma mod_job_defer_keeps:
  assumes "daemon_ok s" and "same_flags (j_jobid j) t s"
  shows "daemon_ok (mod_job_defer mj j s) \<and> same_flags (j_jobid j) t (mod_job_defer mj j s) \<and>
    qnames (mod_job_defer mj j s) = qnames s"
proof -
  let ?s = "if j_defer_time j \<noteq> 0 then removeDeferredJob (j_jobid j) s else s"
  let ?f = "\<lambda>j. j\<lparr>j_defer_time := jm_defer_time mj\<rparr>"
  have f: "light ?f" by (simp add: light_def)
  have "same_flags (j_jobid j) t ?s" using assms(2) by (simp add: same_flags_def removeDeferredJob_def)
  then have "same_flags (j_jobid j) t (on_job (j_jobid j) ?f ?s)" by (rule same_flags_on_job [OF f])
  moreover have "same_flags k t (addDeferredJob k' s') = same_flags k t s'" for k k' s'
    by (simp add: same_flags_def addDeferredJob_def)
  moreover have "daemon_ok (on_job (j_jobid j) ?f ?s)"
    using assms(1) by (intro daemon_ok_on_job [OF f]) (simp add: daemon_ok_deferred)
  ultimately show ?thesis
    using assms by (cases "jm_defer_time mj = 0"; cases "j_defer_time j = 0")
      (simp_all add: mod_job_defer_def Let_def daemon_ok_deferred)
qed

lemma mod_job_commit_keeps:
  assumes "daemon_ok s" and "findJob s (j_jobid j) = Some j"
    and "\<not> has_flag (j_internal_state j) JERS_FLAG_DELETED" and "set_option q \<subseteq> set (qnames s)"
  shows "keeps daemon_ok (mod_job_commit c mj q new j s)"
proof -
  let ?k = "j_jobid j"
  let ?s1 = "if jm_restart mj \<noteq> 0 \<and> j_state j = JERS_JOB_UNKNOWN then deallocateRes j s else s"
  let ?s2 = "on_job ?k (mod_job_first mj) ?s1"
  let ?s3 = "mod_job_defer mj j ?s2"
  let ?s4 = "on_job ?k (mod_job_rest mj new (finished_state (j_state j))) ?s3"
  have "daemon_ok ?s2" "qnames ?s2 = qnames s"
    using assms(1) by (simp_all add: daemon_ok_on_job mod_job_light daemon_ok_deallocateRes)
  moreover have "same_flags ?k s ?s1" by (simp add: same_flags_def findJob_def)
  then have "same_flags ?k s ?s2" by (rule same_flags_on_job [OF mod_job_light(1)])
  ultimately have 3: "daemon_ok ?s3" "same_flags ?k s ?s3" "qnames ?s3 = qnames s"
    using mod_job_defer_keeps by metis+
  then have 4: "daemon_ok ?s4" "same_flags ?k s ?s4" "qnames ?s4 = qnames s"
    by (simp_all add: daemon_ok_on_job same_flags_on_job mod_job_light)
  have "daemon_ok (changeJobState ?k st q d ?s4)" for st d
  proof (rule daemon_ok_changeJobState [OF 4(1)])
    show "case q of None \<Rightarrow> True | Some n \<Rightarrow> findQueue ?s4 n \<noteq> None"
      unfolding findQueue_None 4(3) using assms(4) by (auto split: option.split)
    show "st \<notin> job_states \<or> \<not> has_flag (j_internal_state j') JERS_FLAG_DELETED"
      if "findJob ?s4 ?k = Some j'" for j'
      using that 4(2) assms(2,3) by (simp add: same_flags_def)
  qed
  then show ?thesis by (simp add: mod_job_commit_def Let_def)
qed

lemma command_mod_job_keeps:
  assumes "daemon_ok s"
  shows "keeps daemon_ok (command_mod_job c mj s)"
proof -
  have "keeps daemon_ok (mod_job_resources c mj s (\<lambda>new. mod_job_commit c mj q new j s))"
    if "findJob s (jm_jobid mj) = Some j" "\<not> has_flag (j_internal_state j) JERS_FLAG_DELETED"
      "set_option q \<subseteq> set (qnames s)" for q j
  proof -
    have "j_jobid j = jm_jobid mj" using that(1) by (auto simp: findJob_def dest: tfind_SomeD)
    with that assms have "keeps daemon_ok (mod_job_commit c mj q new j s)" for new
      by (intro mod_job_commit_keeps) simp_all
    with assms show ?thesis
      by (auto simp: mod_job_resources_def split: option.split list.split intro!: keeps_bind)
  qed
  moreover have "q_name q \<in> set (qnames s)" if "findQueue s n = Some q" for n q
    using that by (auto simp: qnames_def findQueue_def dest: tfind_SomeD)
  ultimately have "keeps daemon_ok (mod_job_checked c mj j s)"
    if "findJob s (jm_jobid mj) = Some j" "\<not> has_flag (j_internal_state j) JERS_FLAG_DELETED" for j
    using that assms by (simp add: mod_job_checked_def split: option.split)
  with assms show ?thesis
    by (simp add: command_mod_job_def keeps_guarded split: option.split)
qed

end
