(* ===== verification/Command_Queue.thy ===== *)
theory Command_Queue
  imports Command_Job
begin

section \<open>Command_Queue: the queue commands, command_queue.c\<close>

text \<open>\<open>src/src/command_queue.c\<close>: adding, finding, modifying and deleting queues.\<close>

unbundle bit_operations_syntax

abbreviation (input) JERS_QUEUE_DEFAULT_LIMIT :: int where "JERS_QUEUE_DEFAULT_LIMIT \<equiv> 1"
abbreviation (input) JERS_QUEUE_DEFAULT_PRIORITY :: int where "JERS_QUEUE_DEFAULT_PRIORITY \<equiv> 100"
abbreviation (input) JERS_QUEUE_DEFAULT_STATE :: flags where "JERS_QUEUE_DEFAULT_STATE \<equiv> JERS_QUEUE_FLAG_OPEN"

subsection \<open>Requests\<close>

text \<open>\<open>jersQueueAdd\<close> and \<open>jersQueueMod\<close> have the same members and the same deserializer.\<close>

record jersQueueAdd =
  qa_name :: "string option"
  qa_node :: "string option"
  qa_desc :: "string option"
  qa_state :: int
  qa_job_limit :: int
  qa_priority :: int
  qa_default_queue :: int
  qa_nice :: int

definition jersQueueAdd_init :: jersQueueAdd where
  "jersQueueAdd_init =
     \<lparr>qa_name = None, qa_node = None, qa_desc = None, qa_state = UNSET_32, qa_job_limit = UNSET_32,
      qa_priority = UNSET_32, qa_default_queue = UNSET_32, qa_nice = UNSET_32\<rparr>"

definition queue_field :: "field \<Rightarrow> jersQueueAdd \<Rightarrow> jersQueueAdd" where
  "queue_field f q =
     (let n = f_number f
      in if n = QUEUENAME then q\<lparr>qa_name := Some (getStringOf f)\<rparr>
         else if n = DESC then q\<lparr>qa_desc := Some (getStringOf f)\<rparr>
         else if n = NODE then q\<lparr>qa_node := Some (getStringOf f)\<rparr>
         else if n = PRIORITY then q\<lparr>qa_priority := int32 (getNumberField f)\<rparr>
         else if n = JOBLIMIT then q\<lparr>qa_job_limit := int32 (getNumberField f)\<rparr>
         else if n = STATE then q\<lparr>qa_state := int32 (getNumberField f)\<rparr>
         else if n = DEFAULT then q\<lparr>qa_default_queue := getBoolField f\<rparr>
         else if n = NICE then q\<lparr>qa_nice := int32 (getNumberField f)\<rparr>
         else q)"

definition deserialize_add_queue :: "msg \<Rightarrow> fault + jersQueueAdd" where
  "deserialize_add_queue = deserialize queue_field jersQueueAdd_init"

definition deserialize_mod_queue :: "msg \<Rightarrow> fault + jersQueueAdd" where
  "deserialize_mod_queue = deserialize queue_field jersQueueAdd_init"

text \<open>The filter of a lookup and the request to delete hold only a name.\<close>

definition name_field :: "nat \<Rightarrow> field \<Rightarrow> string option \<Rightarrow> string option" where
  "name_field n f v = (if f_number f = n then Some (getStringOf f) else v)"

definition deserialize_get_queue :: "msg \<Rightarrow> fault + string option" where
  "deserialize_get_queue = deserialize (name_field QUEUENAME) None"

definition deserialize_del_queue :: "msg \<Rightarrow> fault + string option" where
  "deserialize_del_queue = deserialize (name_field QUEUENAME) None"

subsection \<open>Commands\<close>

text \<open>The agent for a node name; \<open>localhost\<close> stands for the name of the daemon's own host.\<close>

definition find_node :: "world \<Rightarrow> server \<Rightarrow> string \<Rightarrow> agent option" where
  "find_node w s node =
     (let wanted = (if strcasecmp_eq node ''localhost'' then w_host w else node)
      in find (\<lambda>a. strcasecmp_eq (a_host a) wanted) (agentList s))"

definition queue_revision :: "string \<Rightarrow> server \<Rightarrow> int option" where
  "queue_revision n s = map_option q_revision (findQueue s n)"

definition unset_or :: "int \<Rightarrow> int \<Rightarrow> int" where
  "unset_or v d = (if v \<noteq> UNSET_32 then v else d)"

definition new_queue :: "server \<Rightarrow> jersQueueAdd \<Rightarrow> string \<Rightarrow> string \<Rightarrow> agent \<Rightarrow> queue" where
  "new_queue s qa name node a =
     queue_zero\<lparr>q_name := name, q_host := node, q_desc := qa_desc qa,
       q_job_limit := unset_or (qa_job_limit qa) JERS_QUEUE_DEFAULT_LIMIT,
       q_priority := unset_or (qa_priority qa) JERS_QUEUE_DEFAULT_PRIORITY,
       q_state := (if qa_state qa \<noteq> UNSET_32 then of_int (qa_state qa) else JERS_QUEUE_DEFAULT_STATE),
       q_nice := unset_or (qa_nice qa) (default_job_nice s),
       q_agent := Some (a_host a),
       q_def := (unset_or (qa_default_queue qa) 0 \<noteq> 0)\<rparr>"

text \<open>
  Creating a queue under the name of a deleted one takes the old structure out of the table
  and clears it before the node is checked.
\<close>

definition command_add_queue :: "world \<Rightarrow> client option \<Rightarrow> jersQueueAdd \<Rightarrow> server \<Rightarrow> result" where
  "command_add_queue w c qa s =
     (case qa_name qa of
        None \<Rightarrow> Inl NullPointer
      | Some name \<Rightarrow>
          (let name = lowercasestring name; old = findQueue s name
           in if check_name name \<noteq> 0 then fail c JERS_ERR_INVARG (Some ''Invalid queue name'') 1 s
              else if (case old of Some q \<Rightarrow> \<not> has_flag (q_internal_state q) JERS_FLAG_DELETED | None \<Rightarrow> False)
              then fail c JERS_ERR_QUEUEEXISTS None 1 s
              else
                (let s = (if old = None then s else s\<lparr>queueTable := tdel q_name name (queueTable s)\<rparr>);
                     node = (case qa_node qa of Some n \<Rightarrow> n | None \<Rightarrow> ''localhost'')
                 in case find_node w s node of
                      None \<Rightarrow> fail c JERS_ERR_INVARG (Some ''Invalid hostname provided'') 1 s
                    | Some a \<Rightarrow>
                        (let s = addQueue (w_fnmatch w) (new_queue s qa name node a) True s
                         in sendClientReturnCode c (queue_revision name s) ''0'' s))))"

definition serialize_jersQueue :: "server \<Rightarrow> queue \<Rightarrow> field list" where
  "serialize_jersQueue s q =
     [str_field QUEUENAME (Some (q_name q))] @ opt_str DESC (q_desc q) @
     [str_field NODE (Some (q_host q)), num_field JOBLIMIT (q_job_limit q),
      num_field STATE (uint (q_state q)), num_field PRIORITY (q_priority q),
      bool_field DEFAULT (defaultQueue s = Some (q_name q)),
      num_field NICE (unset_or (q_nice q) JERS_CLEAR_NICE),
      num_field STATSRUNNING (st_running (q_stats q)), num_field STATSPENDING (st_pending (q_stats q)),
      num_field STATSHOLDING (st_holding (q_stats q)), num_field STATSDEFERRED (st_deferred (q_stats q)),
      num_field STATSCOMPLETED (st_completed (q_stats q)), num_field STATSEXITED (st_exited (q_stats q))]"

definition queue_matches :: "fnmatch \<Rightarrow> string option \<Rightarrow> queue \<Rightarrow> bool" where
  "queue_matches fnm name q \<longleftrightarrow>
     (case name of None \<Rightarrow> True | Some n \<Rightarrow> n = ''*'' \<or> matches fnm n (q_name q) = 0) \<and>
     \<not> has_flag (q_internal_state q) JERS_FLAG_DELETED"

definition command_get_queue :: "world \<Rightarrow> client option \<Rightarrow> string option \<Rightarrow> server \<Rightarrow> result" where
  "command_get_queue w c name s =
     (case name of
        Some n \<Rightarrow>
          if \<not> has_wildcard n then
            (case findQueue s n of
               None \<Rightarrow> fail c JERS_ERR_NOQUEUE None 1 s
             | Some q \<Rightarrow>
                 if has_flag (q_internal_state q) JERS_FLAG_DELETED then fail c JERS_ERR_NOQUEUE None 1 s
                 else sendClientMessage c None [serialize_jersQueue s q] s)
          else sendClientMessage c None
                 (map (serialize_jersQueue s) (filter (queue_matches (w_fnmatch w) name) (queueTable s))) s
      | None \<Rightarrow> sendClientMessage c None
                 (map (serialize_jersQueue s) (filter (queue_matches (w_fnmatch w) name) (queueTable s))) s)"

definition mod_queue_privs :: "jersQueueAdd \<Rightarrow> flags" where
  "mod_queue_privs qm =
     (let p = (if qa_node qm \<noteq> None \<or> qa_desc qm \<noteq> None \<or> qa_nice qm \<noteq> UNSET_32 \<or>
                  qa_priority qm \<noteq> UNSET_32 \<or> qa_default_queue qm \<noteq> UNSET_32
               then set_flag 0 QUEUE_ADMIN else 0);
          p = (if qa_state qm \<noteq> UNSET_32 then set_flag p QUEUE_CONTROL else p)
      in if qa_job_limit qm \<noteq> UNSET_32 then set_flag p QUEUE_LIMIT else p)"

definition mod_queue_apply :: "jersQueueAdd \<Rightarrow> agent option \<Rightarrow> queue \<Rightarrow> queue" where
  "mod_queue_apply qm a q =
     q\<lparr>q_desc := (case qa_desc qm of Some d \<Rightarrow> Some d | None \<Rightarrow> q_desc q),
       q_host := (case qa_node qm of Some n \<Rightarrow> n | None \<Rightarrow> q_host q),
       q_agent := (if qa_node qm \<noteq> None then map_option a_host a else q_agent q),
       q_state := (if qa_state qm \<noteq> UNSET_32 then of_int (qa_state qm) else q_state q),
       q_job_limit := unset_or (qa_job_limit qm) (q_job_limit q),
       q_priority := unset_or (qa_priority qm) (q_priority q),
       q_nice := (if qa_nice qm = UNSET_32 then q_nice q
                  else if qa_nice qm = JERS_CLEAR_NICE then UNSET_32 else qa_nice qm)\<rparr>"

definition mod_queue_dirty :: "jersQueueAdd \<Rightarrow> queue \<Rightarrow> bool" where
  "mod_queue_dirty qm q \<longleftrightarrow>
     qa_desc qm \<noteq> None \<or> qa_node qm \<noteq> None \<or>
     (qa_state qm \<noteq> UNSET_32 \<and> q_state q \<noteq> of_int (qa_state qm)) \<or>
     (qa_job_limit qm \<noteq> UNSET_32 \<and> q_job_limit q \<noteq> qa_job_limit qm) \<or>
     (qa_priority qm \<noteq> UNSET_32 \<and> q_priority q \<noteq> qa_priority qm) \<or>
     qa_default_queue qm \<noteq> UNSET_32 \<or> qa_nice qm \<noteq> UNSET_32"

definition mod_queue_commit :: "client option \<Rightarrow> jersQueueAdd \<Rightarrow> queue \<Rightarrow> agent option \<Rightarrow> server \<Rightarrow> result" where
  "mod_queue_commit c qm q a s =
     (let n = q_name q;
          s = on_queue n (mod_queue_apply qm a) s;
          s = (if qa_default_queue qm \<noteq> UNSET_32 then setDefaultQueue n s else s);
          s = updateQueue n (mod_queue_dirty qm q) s
      in sendClientReturnCode c (queue_revision n s) ''0'' s)"

definition command_mod_queue :: "world \<Rightarrow> client option \<Rightarrow> jersQueueAdd \<Rightarrow> server \<Rightarrow> result" where
  "command_mod_queue w c qm s =
     (case qa_name qm of
        None \<Rightarrow> fail c JERS_ERR_INVARG (Some ''No queue provided'') 1 s
      | Some name \<Rightarrow>
          (case findQueue s name of
             None \<Rightarrow> fail c JERS_ERR_NOQUEUE None 1 s
           | Some q \<Rightarrow>
               if rec_in_progress (recovery s) \<and> q_revision q \<ge> rec_revision (recovery s)
               then Inr (finish 0 [] s)
               else if checkQueueACL c q (mod_queue_privs qm) \<noteq> 0 then fail c JERS_ERR_NOPERM None 1 s
               else
                 (case qa_node qm of
                    None \<Rightarrow> mod_queue_commit c qm q None s
                  | Some node \<Rightarrow>
                      (case find_node w s node of
                         None \<Rightarrow> fail c JERS_ERR_INVARG (Some ''Invalid hostname provided'') 1 s
                       | Some a \<Rightarrow> mod_queue_commit c qm q (Some a) s))))"

definition queue_busy :: "string \<Rightarrow> server \<Rightarrow> bool" where
  "queue_busy n s \<longleftrightarrow>
     list_ex (\<lambda>j. j_queue j = n \<and> \<not> has_flag (j_internal_state j) JERS_FLAG_DELETED) (jobTable s)"

definition command_del_queue :: "client option \<Rightarrow> string option \<Rightarrow> server \<Rightarrow> result" where
  "command_del_queue c name s =
     (case name of
        None \<Rightarrow> fail c JERS_ERR_INVARG (Some ''No queue provided'') 1 s
      | Some n \<Rightarrow>
          if (case findQueue s n of None \<Rightarrow> True | Some q \<Rightarrow> has_flag (q_internal_state q) JERS_FLAG_DELETED)
          then (if rec_in_progress (recovery s) then Inr (finish 0 [] s)
                else fail c JERS_ERR_NOQUEUE None 1 s)
          else if queue_busy n s then fail c JERS_ERR_NOTEMPTY None 1 s
          else sendClientReturnCode c None ''0''
                 (on_queue n (\<lambda>q. q\<lparr>q_internal_state := set_flag (q_internal_state q) JERS_FLAG_DELETED\<rparr>) s))"

subsection \<open>The invariant\<close>

lemma daemon_ok_on_queue [inv_rules]:
  assumes "daemon_ok s" and "\<And>q. q_name (f q) = q_name q" and "\<And>q. q_stats (f q) = q_stats q"
  shows "daemon_ok (on_queue n f s)"
proof -
  have "qnames (on_queue n f s) = qnames s" "defaultQueue (on_queue n f s) = defaultQueue s"
    using assms(2) by (simp_all add: qnames_def map_q_name_tupd) (simp add: on_queue_def)
  with assms show ?thesis by (auto simp: daemon_ok_def deleted_ok_def default_ok_def intro!: server_ok_on_queue)
qed

text \<open>
  A deleted queue that nothing refers to any more. Taking one out of the table keeps the
  invariant; taking out one that a job or the default still names does not.
\<close>

definition unreferenced :: "string \<Rightarrow> server \<Rightarrow> bool" where
  "unreferenced n s \<longleftrightarrow> list_all (\<lambda>j. j_queue j \<noteq> n) (jobTable s) \<and> defaultQueue s \<noteq> Some n"

definition dead_queues_free :: "server \<Rightarrow> bool" where
  "dead_queues_free s \<longleftrightarrow>
     list_all (\<lambda>q. has_flag (q_internal_state q) JERS_FLAG_DELETED \<longrightarrow> unreferenced (q_name q) s) (queueTable s)"

lemma daemon_ok_remove_queue:
  assumes "daemon_ok s" and "unreferenced n s"
  shows "daemon_ok (s\<lparr>queueTable := tdel q_name n (queueTable s)\<rparr>)"
proof -
  have "j_queue j \<in> q_name ` {q \<in> set (queueTable s). q_name q \<noteq> n}" if "j \<in> set (jobTable s)" for j
    using that assms by (force simp: daemon_ok_def server_ok_def tables_ok_def unreferenced_def list_all_iff)
  then have "tables_ok (s\<lparr>queueTable := tdel q_name n (queueTable s)\<rparr>)"
    using assms(1) by (simp add: daemon_ok_def server_ok_def tables_ok_def tkeys_tdel set_tdel)
  moreover have "counters_ok (s\<lparr>queueTable := tdel q_name n (queueTable s)\<rparr>)"
    using assms(1) by (simp add: daemon_ok_def server_ok_def counters_ok_def set_tdel)
  moreover have "default_ok (s\<lparr>queueTable := tdel q_name n (queueTable s)\<rparr>)"
    using assms by (cases "defaultQueue s")
      (auto simp: daemon_ok_def default_ok_def qnames_def set_tdel unreferenced_def)
  ultimately show ?thesis using assms(1) by (simp add: daemon_ok_def server_ok_def deleted_ok_def)
qed

lemma daemon_ok_updateQueue [inv_rules]: "daemon_ok s \<Longrightarrow> daemon_ok (updateQueue n d s)"
  unfolding updateQueue_eq daemon_ok_frame by (rule daemon_ok_on_queue) simp_all

lemma daemon_ok_default_queue: "daemon_ok s \<Longrightarrow> n \<in> set (qnames s) \<Longrightarrow> daemon_ok (setDefaultQueue n s)"
  by (simp add: setDefaultQueue_def daemon_ok_def deleted_ok_def default_ok_def qnames_def)

lemma daemon_ok_addQueue [inv_rules]:
  assumes "daemon_ok s" and "findQueue s (q_name q) = None" and "q_stats q = stats_zero"
  shows "daemon_ok (addQueue fnm q d s)"
proof -
  have "set (map q_name (queueTable (addQueue fnm q d s))) = insert (q_name q) (set (qnames s))"
    by (simp add: addQueue_def Let_def updateQueue_eq set_tupd image_image qnames_def setDefaultQueue_def
        image_insert cong: image_cong_simp) auto
  moreover have "set_option (defaultQueue (addQueue fnm q d s)) \<subseteq> insert (q_name q) (set_option (defaultQueue s))"
    by (auto simp: addQueue_def Let_def updateQueue_eq on_queue_def setDefaultQueue_def)
  moreover have "jobTable (addQueue fnm q d s) = jobTable s"
    by (simp add: addQueue_def Let_def setDefaultQueue_def)
  ultimately show ?thesis
    using assms by (auto simp: daemon_ok_def deleted_ok_def default_ok_def qnames_def server_ok_addQueue)
qed

lemma new_queue_simps [simp]:
  "q_name (new_queue s qa n h a) = n" "q_stats (new_queue s qa n h a) = stats_zero"
  by (simp_all add: new_queue_def queue_zero_def)

lemma command_add_queue_keeps:
  assumes "daemon_ok s" and "dead_queues_free s"
  shows "keeps daemon_ok (command_add_queue w c qa s)"
proof (cases "qa_name qa")
  case None
  then show ?thesis by (simp add: command_add_queue_def)
next
  case (Some name)
  let ?n = "lowercasestring name"
  let ?s = "if findQueue s ?n = None then s else s\<lparr>queueTable := tdel q_name ?n (queueTable s)\<rparr>"
  have gone: "findQueue ?s ?n = None" by (simp add: findQueue_def tfind_tdel)
  show ?thesis
  proof (cases "\<exists>q. findQueue s ?n = Some q \<and> \<not> has_flag (q_internal_state q) JERS_FLAG_DELETED")
    case True
    with Some assms show ?thesis by (auto simp: command_add_queue_def Let_def)
  next
    case False
    have "unreferenced ?n s" if "findQueue s ?n = Some q" for q
    proof -
      from that have "q \<in> set (queueTable s)" "q_name q = ?n" by (auto simp: findQueue_def dest: tfind_SomeD)
      with False that assms(2) show ?thesis by (auto simp: dead_queues_free_def list_all_iff)
    qed
    then have "daemon_ok ?s" using assms(1) by (cases "findQueue s ?n") (simp_all add: daemon_ok_remove_queue)
    with gone have "keeps daemon_ok (case find_node w ?s node of
        None \<Rightarrow> fail c JERS_ERR_INVARG (Some ''Invalid hostname provided'') 1 ?s
      | Some a \<Rightarrow> let s = addQueue (w_fnmatch w) (new_queue ?s qa ?n node a) True ?s
                  in sendClientReturnCode c (queue_revision ?n s) ''0'' s)" for node
      by (simp only: keeps_simps Let_def daemon_ok_addQueue new_queue_simps split: option.split) blast
    with Some False assms(1) show ?thesis
      unfolding command_add_queue_def Let_def by (simp only: option.case keeps_simps split: if_splits option.split) auto
  qed
qed

lemma command_get_queue_keeps: "I s \<Longrightarrow> keeps I (command_get_queue w c name s)"
  by (simp add: command_get_queue_def split: option.split)

lemma command_mod_queue_keeps:
  assumes "daemon_ok s"
  shows "keeps daemon_ok (command_mod_queue w c qm s)"
proof -
  have "keeps daemon_ok (mod_queue_commit c qm q a s)" if "findQueue s n = Some q" for n q a
  proof -
    have "q_name q \<in> set (qnames (on_queue (q_name q) (mod_queue_apply qm a) s))"
      using that by (auto simp: qnames_def findQueue_def mod_queue_apply_def map_q_name_tupd dest!: tfind_SomeD)
    moreover have "daemon_ok (on_queue (q_name q) (mod_queue_apply qm a) s)"
      using assms by (rule daemon_ok_on_queue) (simp_all add: mod_queue_apply_def)
    ultimately show ?thesis
      by (simp add: mod_queue_commit_def Let_def daemon_ok_updateQueue daemon_ok_default_queue)
  qed
  with assms show ?thesis by (auto simp: command_mod_queue_def split: option.split)
qed

lemma command_del_queue_keeps: "daemon_ok s \<Longrightarrow> keeps daemon_ok (command_del_queue c name s)"
  by (simp add: command_del_queue_def daemon_ok_on_queue split: option.split)

end
