(* ===== verification/Command_Resource.thy ===== *)
theory Command_Resource
  imports Command_Queue
begin

section \<open>Command_Resource: the resource commands, command_resource.c\<close>

text \<open>\<open>src/src/command_resource.c\<close>: adding, finding, modifying and deleting resources.\<close>

unbundle bit_operations_syntax

subsection \<open>Requests\<close>

record jersResourceAdd =
  ra_name :: "string option"
  ra_count :: int

definition resource_field :: "field \<Rightarrow> jersResourceAdd \<Rightarrow> jersResourceAdd" where
  "resource_field f r =
     (if f_number f = RESNAME then r\<lparr>ra_name := Some (getStringOf f)\<rparr>
      else if f_number f = RESCOUNT then r\<lparr>ra_count := int32 (getNumberField f)\<rparr>
      else r)"

definition deserialize_add_resource :: "msg \<Rightarrow> fault + jersResourceAdd" where
  "deserialize_add_resource m =
     bindR (deserialize resource_field \<lparr>ra_name = None, ra_count = 0\<rparr> m) (\<lambda>ra.
       Inr (if ra_count ra = 0 then ra\<lparr>ra_count := 1\<rparr> else ra))"

definition deserialize_get_resource :: "msg \<Rightarrow> fault + string option" where
  "deserialize_get_resource = deserialize (name_field RESNAME) None"

definition deserialize_mod_resource :: "msg \<Rightarrow> fault + jersResourceAdd" where
  "deserialize_mod_resource = deserialize resource_field \<lparr>ra_name = None, ra_count = 0\<rparr>"

definition deserialize_del_resource :: "msg \<Rightarrow> fault + string option" where
  "deserialize_del_resource = deserialize (name_field RESNAME) None"

subsection \<open>Commands\<close>

definition res_revision :: "string \<Rightarrow> server \<Rightarrow> int option" where
  "res_revision n s = map_option r_revision (findResource s n)"

text \<open>A deleted resource of the same name is taken out of the table and reused.\<close>

definition add_resource_new :: "server \<Rightarrow> string \<Rightarrow> int \<Rightarrow> resource" where
  "add_resource_new s name n =
     (case findResource s name of
        None \<Rightarrow> resource_zero
      | Some r \<Rightarrow> r\<lparr>r_internal_state := clear_flag (r_internal_state r) JERS_FLAG_DELETED\<rparr>)
       \<lparr>r_name := name, r_count := n\<rparr>"

definition command_add_resource :: "client option \<Rightarrow> jersResourceAdd \<Rightarrow> server \<Rightarrow> result" where
  "command_add_resource c ra s =
     (case ra_name ra of
        None \<Rightarrow> fail c JERS_ERR_INVARG (Some ''No resource name provided'') 1 s
      | Some name \<Rightarrow>
          if check_name name \<noteq> 0 then fail c JERS_ERR_INVARG (Some ''Invalid resource name'') 1 s
          else if findResource s name \<noteq> None \<and> rec_in_progress (recovery s) then Inr (finish 0 [] s)
          else if (case findResource s name of Some r \<Rightarrow> \<not> has_flag (r_internal_state r) JERS_FLAG_DELETED
                   | None \<Rightarrow> False) then fail c JERS_ERR_RESEXISTS None 1 s
          else
            (let r = add_resource_new s name (ra_count ra);
                 s = s\<lparr>resTable := tdel r_name name (resTable s)\<rparr>;
                 s = addRes r True s
             in sendClientReturnCode c (res_revision name s) ''0'' s))"

definition resource_json :: "resource \<Rightarrow> field list" where
  "resource_json r =
     [str_field RESNAME (Some (r_name r)), num_field RESCOUNT (r_count r), num_field RESINUSE (r_in_use r)]"

definition command_get_resource :: "world \<Rightarrow> client option \<Rightarrow> string option \<Rightarrow> server \<Rightarrow> result" where
  "command_get_resource w c name s =
     (case name of
        None \<Rightarrow> fail c JERS_ERR_INVARG (Some ''No name filter provided'') 1 s
      | Some n \<Rightarrow>
          sendClientMessage c None
            (map resource_json
               (filter (\<lambda>r. \<not> has_flag (r_internal_state r) JERS_FLAG_DELETED)
                  (if has_wildcard n then filter (\<lambda>r. matches (w_fnmatch w) n (r_name r) = 0) (resTable s)
                   else (case findResource s n of Some r \<Rightarrow> [r] | None \<Rightarrow> [])))) s)"

definition command_mod_resource :: "client option \<Rightarrow> jersResourceAdd \<Rightarrow> server \<Rightarrow> result" where
  "command_mod_resource c rm s =
     (case ra_name rm of
        None \<Rightarrow> fail c JERS_ERR_INVARG (Some ''Resource name not provided'') 1 s
      | Some name \<Rightarrow>
          (case findResource s name of
             None \<Rightarrow> fail c JERS_ERR_NORES None 1 s
           | Some r \<Rightarrow>
               if has_flag (r_internal_state r) JERS_FLAG_DELETED then fail c JERS_ERR_NORES None 1 s
               else if rec_in_progress (recovery s) \<and> r_revision r \<ge> rec_revision (recovery s)
               then Inr (finish 0 [] s)
               else
                 (let s = on_res name (\<lambda>r. r\<lparr>r_count := ra_count rm\<rparr>) s;
                      s = updateRes name True s
                  in sendClientReturnCode c (res_revision name s) ''0'' s)))"

definition resource_wanted :: "string \<Rightarrow> server \<Rightarrow> bool" where
  "resource_wanted n s \<longleftrightarrow>
     list_ex (\<lambda>j. \<not> has_flag (j_internal_state j) JERS_FLAG_DELETED \<and> n \<in> fst ` set (j_req_resources j)) (jobTable s)"

definition command_del_resource :: "client option \<Rightarrow> string option \<Rightarrow> server \<Rightarrow> result" where
  "command_del_resource c name s =
     (case name of
        None \<Rightarrow> fail c JERS_ERR_INVARG (Some ''Resource name not provided'') 1 s
      | Some n \<Rightarrow>
          (case findResource s n of
             None \<Rightarrow> fail c JERS_ERR_NORES None 1 s
           | Some r \<Rightarrow>
               if has_flag (r_internal_state r) JERS_FLAG_DELETED then fail c JERS_ERR_NORES None 1 s
               else if resource_wanted n s then fail c JERS_ERR_RESINUSE None 1 s
               else sendClientReturnCode c None ''0''
                      (on_res n (\<lambda>r. r\<lparr>r_internal_state := set_flag (r_internal_state r) JERS_FLAG_DELETED\<rparr>) s)))"

subsection \<open>The invariant\<close>

lemma daemon_ok_on_res [inv_rules]:
  "daemon_ok s \<Longrightarrow> (\<And>r. r_name (f r) = r_name r) \<Longrightarrow> daemon_ok (on_res n f s)"
  by (auto simp: daemon_ok_def deleted_ok_def default_ok_def intro!: server_ok_on_res)

lemma daemon_ok_updateRes [inv_rules]: "daemon_ok s \<Longrightarrow> daemon_ok (updateRes n d s)"
  by (simp add: updateRes_def Let_def daemon_ok_on_res)

lemma daemon_ok_resTable:
  "daemon_ok s \<Longrightarrow> tkeys r_name t \<Longrightarrow> daemon_ok (s\<lparr>resTable := t\<rparr>)"
  by (simp add: daemon_ok_def server_ok_def tables_ok_def counters_ok_def deleted_ok_def default_ok_def qnames_def)

lemma add_resource_new_name [simp]: "r_name (add_resource_new s name n) = name"
  by (simp add: add_resource_new_def)

lemma command_add_resource_keeps:
  assumes "daemon_ok s"
  shows "keeps daemon_ok (command_add_resource c ra s)"
proof -
  have "tkeys r_name (tadd (add_resource_new s n k) (tdel r_name n (resTable s)))" for n k
    using daemon_ok_keys(3) [OF assms] by (intro tkeys_tadd tkeys_tdel) (simp_all add: tfind_tdel)
  with assms show ?thesis
    by (auto simp: command_add_resource_def Let_def addRes_def split: option.split
        intro!: daemon_ok_updateRes daemon_ok_resTable)
qed

lemma command_get_resource_keeps: "I s \<Longrightarrow> keeps I (command_get_resource w c name s)"
  by (simp add: command_get_resource_def split: option.split)

lemma command_mod_resource_keeps: "daemon_ok s \<Longrightarrow> keeps daemon_ok (command_mod_resource c rm s)"
  by (simp add: command_mod_resource_def Let_def daemon_ok_updateRes daemon_ok_on_res split: option.split)

lemma command_del_resource_keeps: "daemon_ok s \<Longrightarrow> keeps daemon_ok (command_del_resource c name s)"
  by (simp add: command_del_resource_def daemon_ok_on_res split: option.split)

end
