(* ===== verification/Command_Agent.thy ===== *)
theory Command_Agent
  imports Command_Resource
begin

section \<open>Command_Agent: the messages of the agents, command_agent.c, agent.c and client.c\<close>

text \<open>
  \<open>src/src/command_agent.c\<close>, the agent list of \<open>src/src/agent.c\<close> and the client list of
  \<open>src/src/client.c\<close> as far as the proxy messages use it. An agent is named by its host; a
  message replayed from the journal has no agent. The secret, the nonces read from
  \<open>/dev/urandom\<close> and the keyed hash of the crypto library are parameters (\<open>auth\<close>): the hash
  is a function of the bytes it is fed, in order.
\<close>

unbundle bit_operations_syntax

abbreviation (input) JERS_EXIT_STATUS_MASK :: flags where "JERS_EXIT_STATUS_MASK \<equiv> 0xFF"
abbreviation (input) JERS_EXIT_FAIL :: flags where "JERS_EXIT_FAIL \<equiv> 0x1000000"
abbreviation (input) JERS_EXIT_SIGNAL :: flags where "JERS_EXIT_SIGNAL \<equiv> 0x2000000"
abbreviation (input) MAX_AUTH_TIME :: int where "MAX_AUTH_TIME \<equiv> 300"

record auth =
  au_secret :: bool
  au_nonce :: "string option"
  au_hmac :: "string \<Rightarrow> string option"

text \<open>
  A connected client: its user, the proxied process and its agent if it is proxied, the bytes
  read from it that are not processed yet, the replies written to it, and the wait it is
  blocked on.
\<close>

record pclient =
  pc_uid :: int
  pc_proxy_pid :: int
  pc_proxy_agent :: "string option"
  pc_request :: string
  pc_replies :: "reply list"
  pc_blocking :: "blocking option"

record daemon =
  d_server :: server
  d_clients :: "pclient list"

type_synonym agent_result = "fault + int \<times> daemon"

definition on_server :: "(server \<Rightarrow> server) \<Rightarrow> daemon \<Rightarrow> daemon" where
  "on_server f d = d\<lparr>d_server := f (d_server d)\<rparr>"

subsection \<open>The agent list\<close>

definition addAgent :: "agent \<Rightarrow> server \<Rightarrow> server" where
  "addAgent a s = s\<lparr>agentList := a # agentList s\<rparr>"

definition removeAgent :: "string \<Rightarrow> server \<Rightarrow> server" where
  "removeAgent h s = s\<lparr>agentList := tdel a_host h (agentList s)\<rparr>"

text \<open>An accepted connection from a resolved host name: only a known, unconnected agent is taken.\<close>

definition handleAgentConnection :: "string \<Rightarrow> server \<Rightarrow> int \<times> server" where
  "handleAgentConnection host s =
     (case findAgent s host of
        None \<Rightarrow> (1, s)
      | Some a \<Rightarrow>
          if a_connected a then (1, s)
          else (0, on_agent host (\<lambda>a. a\<lparr>a_connected := True, a_logged_in := False, a_requests := [],
                   a_sent := []\<rparr>) s))"

definition handleAgentDisconnect :: "string \<Rightarrow> server \<Rightarrow> server" where
  "handleAgentDisconnect h s =
     (let s = markJobsUnknown h s; s = markQueueStopped h s
      in on_agent h (\<lambda>a. a\<lparr>a_connected := False, a_logged_in := False, a_nonce := None,
           a_requests := [], a_sent := []\<rparr>) s)"

subsection \<open>Login and authentication\<close>

definition link_queue :: "world \<Rightarrow> string \<Rightarrow> queue \<Rightarrow> queue" where
  "link_queue w h q =
     (if q_host q = ''localhost'' then (if w_host w = h then q\<lparr>q_agent := Some h\<rparr> else q)
      else if q_host q = h then q\<lparr>q_agent := Some h\<rparr> else q)"

definition admit_agent :: "string \<Rightarrow> request \<Rightarrow> server \<Rightarrow> server" where
  "admit_agent h recon s =
     on_agent h (\<lambda>a. a\<lparr>a_recon := True, a_logged_in := True\<rparr>) (sendAgentMessage (Some h) recon s)"

definition command_agent_login :: "world \<Rightarrow> auth \<Rightarrow> string \<Rightarrow> msg \<Rightarrow> daemon \<Rightarrow> agent_result" where
  "command_agent_login w au h m d =
     (let d = on_server (\<lambda>s. s\<lparr>queueTable := map (link_queue w h) (queueTable s)\<rparr>) d
      in if au_secret au then
           (case au_nonce au of
              None \<Rightarrow> Inr (1, d)
            | Some nonce \<Rightarrow>
                Inr (0, on_server (\<lambda>s. on_agent h (\<lambda>a. a\<lparr>a_nonce := Some nonce\<rparr>)
                  (sendAgentMessage (Some h) (''AUTH_CHALLENGE'', 1, [str_field NONCE (Some nonce)]) s)) d))
         else Inr (0, on_server (admit_agent h (''RECON_REQ'', 1, [])) d))"

text \<open>The fields of an authentication response; the first nonce and the first hash count.\<close>

record auth_resp =
  ar_nonce :: "string option"
  ar_datetime :: int
  ar_hmac :: "string option"

definition auth_field :: "field \<Rightarrow> auth_resp \<Rightarrow> auth_resp" where
  "auth_field f r =
     (if f_number f = NONCE then (if ar_nonce r = None then r\<lparr>ar_nonce := Some (getStringOf f)\<rparr> else r)
      else if f_number f = DATETIME then r\<lparr>ar_datetime := getNumberField f\<rparr>
      else if f_number f = MSG_HMAC then (if ar_hmac r = None then r\<lparr>ar_hmac := Some (getStringOf f)\<rparr> else r)
      else r)"

text \<open>\<open>generateHMAC\<close> feeds the strings of a NULL-terminated array to the keyed hash.\<close>

definition generateHMAC :: "auth \<Rightarrow> string option list \<Rightarrow> string option" where
  "generateHMAC au input = au_hmac au (concat (map the (takeWhile (\<lambda>x. x \<noteq> None) input)))"

definition auth_valid :: "auth \<Rightarrow> int \<Rightarrow> string option \<Rightarrow> auth_resp \<Rightarrow> bool" where
  "auth_valid au now nonce r \<longleftrightarrow>
     ar_nonce r \<noteq> None \<and> ar_hmac r \<noteq> None \<and> ar_datetime r \<noteq> 0 \<and>
     now \<le> ar_datetime r \<and> ar_datetime r \<le> now + MAX_AUTH_TIME \<and>
     (case generateHMAC au [nonce, ar_nonce r, Some (int64tostr (ar_datetime r))] of
        None \<Rightarrow> False
      | Some v \<Rightarrow> strcasecmp_eq v (the (ar_hmac r)))"

definition command_agent_authresp :: "world \<Rightarrow> auth \<Rightarrow> string \<Rightarrow> msg \<Rightarrow> daemon \<Rightarrow> agent_result" where
  "command_agent_authresp w au h m d =
     bindR (deserialize auth_field \<lparr>ar_nonce = None, ar_datetime = 0, ar_hmac = None\<rparr> m) (\<lambda>r.
       if \<not> auth_valid au (w_now w) (case findAgent (d_server d) h of Some a \<Rightarrow> a_nonce a | None \<Rightarrow> None) r
       then Inr (1, d)
       else
         Inr (0, on_server (admit_agent h (''RECON_REQ'', 1,
           [num_field DATETIME (w_now w),
            str_field MSG_HMAC (generateHMAC au [ar_nonce r, Some (int64tostr (w_now w))])])) d))"

subsection \<open>Job events\<close>

record job_event =
  je_jobid :: nat
  je_start_time :: int
  je_finish_time :: int
  je_pid :: int
  je_exitcode :: int
  je_usage :: rusage

definition job_event_zero :: job_event where
  "job_event_zero = \<lparr>je_jobid = 0, je_start_time = 0, je_finish_time = 0, je_pid = 0, je_exitcode = 0,
     je_usage = rusage_zero\<rparr>"

definition usage_field :: "nat \<Rightarrow> int \<Rightarrow> rusage \<Rightarrow> rusage" where
  "usage_field n v u =
     (if n = USAGE_UTIME_SEC then u\<lparr>ru_utime_sec := v\<rparr>
      else if n = USAGE_UTIME_USEC then u\<lparr>ru_utime_usec := v\<rparr>
      else if n = USAGE_STIME_SEC then u\<lparr>ru_stime_sec := v\<rparr>
      else if n = USAGE_STIME_USEC then u\<lparr>ru_stime_usec := v\<rparr>
      else if n = USAGE_MAXRSS then u\<lparr>ru_maxrss := v\<rparr>
      else if n = USAGE_MINFLT then u\<lparr>ru_minflt := v\<rparr>
      else if n = USAGE_MAJFLT then u\<lparr>ru_majflt := v\<rparr>
      else if n = USAGE_INBLOCK then u\<lparr>ru_inblock := v\<rparr>
      else if n = USAGE_OUBLOCK then u\<lparr>ru_oublock := v\<rparr>
      else if n = USAGE_NVCSW then u\<lparr>ru_nvcsw := v\<rparr>
      else if n = USAGE_NIVCSW then u\<lparr>ru_nivcsw := v\<rparr>
      else u)"

definition event_field :: "field \<Rightarrow> job_event \<Rightarrow> job_event" where
  "event_field f e =
     (let n = f_number f; v = getNumberField f
      in if n = JOBID then e\<lparr>je_jobid := jobid_of f\<rparr>
         else if n = STARTTIME then e\<lparr>je_start_time := v\<rparr>
         else if n = FINISHTIME then e\<lparr>je_finish_time := v\<rparr>
         else if n = JOBPID then e\<lparr>je_pid := int32 v\<rparr>
         else if n = EXITCODE then e\<lparr>je_exitcode := int32 v\<rparr>
         else e\<lparr>je_usage := usage_field n v (je_usage e)\<rparr>)"

text \<open>The start message only reads three of the fields.\<close>

definition start_field :: "field \<Rightarrow> job_event \<Rightarrow> job_event" where
  "start_field f e = (if f_number f \<in> {JOBID, STARTTIME, JOBPID} then event_field f e else e)"

definition completed_field :: "field \<Rightarrow> job_event \<Rightarrow> job_event" where
  "completed_field f e = (if f_number f \<in> {STARTTIME, JOBPID} then e else event_field f e)"

definition job_started :: "job_event \<Rightarrow> server \<Rightarrow> server" where
  "job_started e s =
     (let k = je_jobid e;
          s = changeJobState k JERS_JOB_RUNNING None True s;
          s = on_job k (\<lambda>j. j\<lparr>j_internal_state := clear_flag (j_internal_state j) JERS_FLAG_JOB_STARTED,
                j_pend_reason := 0, j_pid := je_pid e, j_start_time := je_start_time e\<rparr>) s;
          s = (case findJob s k of
                 Some j \<Rightarrow> if rec_in_progress (recovery s) \<and> j_req_resources j \<noteq> [] then allocateRes j s else s
               | None \<Rightarrow> s)
      in s\<lparr>stats_total := (stats_total s)\<lparr>t_started := t_started (stats_total s) + 1\<rparr>\<rparr>)"

definition command_agent_jobstart :: "msg \<Rightarrow> daemon \<Rightarrow> agent_result" where
  "command_agent_jobstart m d =
     bindR (deserialize start_field (job_event_zero\<lparr>je_pid := -1\<rparr>) m) (\<lambda>e.
       case findJob (d_server d) (je_jobid e) of
         None \<Rightarrow> Inr (1, d)
       | Some j \<Rightarrow> Inr (0, on_server (job_started e) d))"

definition exit_code :: "flags \<Rightarrow> int" where
  "exit_code e =
     (let c = uint (e AND JERS_EXIT_STATUS_MASK)
      in if has_flag e JERS_EXIT_FAIL then 255
         else if has_flag e JERS_EXIT_SIGNAL then c + 128 else c)"

definition job_completed :: "job_event \<Rightarrow> job \<Rightarrow> server \<Rightarrow> server" where
  "job_completed e j s =
     (let k = je_jobid e; x = (of_int (je_exitcode e) :: flags); c = uint (x AND JERS_EXIT_STATUS_MASK);
          s = (if j_req_resources j \<noteq> [] then deallocateRes j s else s);
          s = on_job k (\<lambda>j. j\<lparr>j_exitcode := exit_code x,
                j_fail_reason := (if has_flag x JERS_EXIT_FAIL then c else j_fail_reason j),
                j_signal := (if \<not> has_flag x JERS_EXIT_FAIL \<and> has_flag x JERS_EXIT_SIGNAL then c else j_signal j),
                j_pid := -1, j_finish_time := je_finish_time e, j_usage := je_usage e\<rparr>) s;
          s = changeJobState k (if exit_code x \<noteq> 0 then JERS_JOB_EXITED else JERS_JOB_COMPLETED) None True s;
          s = on_job k (\<lambda>j. j\<lparr>j_internal_state := clear_flag (j_internal_state j) JERS_FLAG_JOB_STARTED\<rparr>) s
      in s\<lparr>stats_total :=
             (if je_exitcode e \<noteq> 0 then (stats_total s)\<lparr>t_exited := t_exited (stats_total s) + 1\<rparr>
              else (stats_total s)\<lparr>t_completed := t_completed (stats_total s) + 1\<rparr>)\<rparr>)"

definition command_agent_jobcompleted :: "msg \<Rightarrow> daemon \<Rightarrow> agent_result" where
  "command_agent_jobcompleted m d =
     bindR (deserialize completed_field job_event_zero m) (\<lambda>e.
       case findJob (d_server d) (je_jobid e) of
         None \<Rightarrow> Inr (1, d)
       | Some j \<Rightarrow> Inr (0, on_server (job_completed e j) d))"

text \<open>
  Reconciliation after a reconnect: one item per job the agent knows. A job the daemon does
  not know terminates the daemon.
\<close>

definition recon_job :: "job_event \<Rightarrow> server \<Rightarrow> server" where
  "recon_job e s =
     (let k = je_jobid e;
          s = on_job k (\<lambda>j. j\<lparr>j_pend_reason := 0,
                j_start_time := (if je_start_time e \<noteq> 0 then je_start_time e else j_start_time j)\<rparr>) s;
          s = (if je_finish_time e \<noteq> 0 then
                 changeJobState k (if je_exitcode e \<noteq> 0 then JERS_JOB_EXITED else JERS_JOB_COMPLETED) None True
                   (on_job k (\<lambda>j. j\<lparr>j_finish_time := je_finish_time e, j_exitcode := je_exitcode e\<rparr>) s)
               else s);
          s = (if je_pid e \<noteq> 0 then
                 changeJobState k JERS_JOB_RUNNING None False (on_job k (\<lambda>j. j\<lparr>j_pid := je_pid e\<rparr>) s)
               else s)
      in on_job k (\<lambda>j. j\<lparr>j_usage := je_usage e\<rparr>) s)"

fun recon_items :: "msg_item list \<Rightarrow> server \<Rightarrow> fault + server" where
  "recon_items [] s = Inr s"
| "recon_items (it # its) s =
     (let e = fold event_field (item_fields it) job_event_zero
      in case findJob s (je_jobid e) of
           None \<Rightarrow> Inl Abort
         | Some j \<Rightarrow> recon_items its (recon_job e s))"

definition command_agent_recon :: "string \<Rightarrow> msg \<Rightarrow> daemon \<Rightarrow> agent_result" where
  "command_agent_recon h m d =
     bindR (recon_items (m_items m) (d_server d)) (\<lambda>s.
       Inr (0, d\<lparr>d_server := on_agent h (\<lambda>a. a\<lparr>a_recon := False\<rparr>)
                  (sendAgentMessage (Some h) (''RECON_COMPLETE'', 1, []) s)\<rparr>))"

subsection \<open>Proxied clients\<close>

record proxy_msg =
  pm_pid :: int
  pm_uid :: int
  pm_data :: "string option"

definition proxy_field :: "field \<Rightarrow> proxy_msg \<Rightarrow> proxy_msg" where
  "proxy_field f p =
     (if f_number f = PID then p\<lparr>pm_pid := int32 (getNumberField f)\<rparr>
      else if f_number f = UID then p\<lparr>pm_uid := uint32 (getNumberField f)\<rparr>
      else if f_number f = PROXYDATA \<and> pm_data p = None then p\<lparr>pm_data := Some (getStringOf f)\<rparr>
      else p)"

definition proxy_zero :: proxy_msg where
  "proxy_zero = \<lparr>pm_pid = -1, pm_uid = uint32 (-1), pm_data = None\<rparr>"

definition is_proxy :: "string \<Rightarrow> int \<Rightarrow> pclient \<Rightarrow> bool" where
  "is_proxy h pid c \<longleftrightarrow> pc_proxy_pid c \<noteq> 0 \<and> pc_proxy_agent c = Some h \<and> pc_proxy_pid c = pid"

fun remove_first :: "('a \<Rightarrow> bool) \<Rightarrow> 'a list \<Rightarrow> 'a list" where
  "remove_first P [] = []"
| "remove_first P (x # xs) = (if P x then xs else x # remove_first P xs)"

fun update_first :: "('a \<Rightarrow> bool) \<Rightarrow> ('a \<Rightarrow> 'a) \<Rightarrow> 'a list \<Rightarrow> 'a list" where
  "update_first P f [] = []"
| "update_first P f (x # xs) = (if P x then f x # xs else x # update_first P f xs)"

definition command_agent_proxyconn :: "string \<Rightarrow> msg \<Rightarrow> daemon \<Rightarrow> agent_result" where
  "command_agent_proxyconn h m d =
     bindR (deserialize proxy_field proxy_zero m) (\<lambda>p.
       Inr (0, d\<lparr>d_clients :=
         \<lparr>pc_uid = pm_uid p, pc_proxy_pid = pm_pid p, pc_proxy_agent = Some h, pc_request = [],
          pc_replies = [], pc_blocking = None\<rparr>
           # remove_first (is_proxy h (pm_pid p)) (d_clients d)\<rparr>))"

definition command_agent_proxydata :: "string \<Rightarrow> msg \<Rightarrow> daemon \<Rightarrow> agent_result" where
  "command_agent_proxydata h m d =
     bindR (deserialize proxy_field proxy_zero m) (\<lambda>p.
       case pm_data p of
         None \<Rightarrow> Inr (1, d)
       | Some data \<Rightarrow>
           if \<not> list_ex (is_proxy h (pm_pid p)) (d_clients d) then Inr (1, d)
           else Inr (0, d\<lparr>d_clients := update_first (is_proxy h (pm_pid p))
                  (\<lambda>c. c\<lparr>pc_request := pc_request c @ data\<rparr>) (d_clients d)\<rparr>))"

definition command_agent_proxyclose :: "string \<Rightarrow> msg \<Rightarrow> daemon \<Rightarrow> agent_result" where
  "command_agent_proxyclose h m d =
     bindR (deserialize proxy_field proxy_zero m) (\<lambda>p.
       if \<not> list_ex (is_proxy h (pm_pid p)) (d_clients d) then Inr (1, d)
       else Inr (0, d\<lparr>d_clients := remove_first (is_proxy h (pm_pid p)) (d_clients d)\<rparr>))"

end
