(* ===== verification/Dispatch.thy ===== *)
theory Dispatch
  imports Command_Agent
begin

section \<open>Dispatch: finding and running commands, commands.c\<close>

text \<open>
  The rest of \<open>src/src/commands.c\<close>: the tables of client and agent commands, their sorted
  copies and the search in them, \<open>runCommand\<close>, \<open>runAgentCommand\<close>, \<open>replayCommand\<close> and the
  handlers that live in that file. An entry of the table composes the deserializer and the
  handler. A record for the journal is the argument list of \<open>stateSaveCmd\<close>.
\<close>

unbundle bit_operations_syntax

abbreviation (input) CMDFLG_REPLAY :: flags where "CMDFLG_REPLAY \<equiv> 0x01"

subsection \<open>Agents, statistics and the user cache\<close>

definition deserialize_get_agent :: "msg \<Rightarrow> fault + string option" where
  "deserialize_get_agent = deserialize (name_field NODE) None"

definition command_get_agent :: "world \<Rightarrow> client option \<Rightarrow> string option \<Rightarrow> server \<Rightarrow> result" where
  "command_get_agent w c host s =
     sendClientMessage c None
       (map (\<lambda>a. [str_field NODE (Some (a_host a)), bool_field CONNECTED (a_logged_in a)])
          (filter (\<lambda>a. case host of None \<Rightarrow> True | Some h \<Rightarrow> matches (w_fnmatch w) h (a_host a) = 0)
             (agentList s))) s"

definition command_stats :: "client option \<Rightarrow> server \<Rightarrow> result" where
  "command_stats c s =
     (let j = stats_jobs s; t = stats_total s
      in sendClientMessage c None
           [[num_field STATSRUNNING (st_running j), num_field STATSPENDING (st_pending j),
             num_field STATSDEFERRED (st_deferred j), num_field STATSHOLDING (st_holding j),
             num_field STATSCOMPLETED (st_completed j), num_field STATSEXITED (st_exited j),
             num_field STATSUNKNOWN (st_unknown j),
             num_field STATSTOTALSUBMITTED (t_submitted t), num_field STATSTOTALSTARTED (t_started t),
             num_field STATSTOTALCOMPLETED (t_completed t), num_field STATSTOTALEXITED (t_exited t),
             num_field STATSTOTALDELETED (t_deleted t), num_field STATSTOTALUNKNOWN (t_unknown t)]] s)"

definition command_clearcache :: "client option \<Rightarrow> server \<Rightarrow> result" where
  "command_clearcache c s =
     sendClientReturnCode c None ''0''
       (fold (\<lambda>a. sendAgentMessage (Some (a_host a)) (''CLEAR_CACHE'', 1, [])) (agentList s) s)"

subsection \<open>The tables\<close>

type_synonym handler = "world \<Rightarrow> client option \<Rightarrow> msg \<Rightarrow> server \<Rightarrow> result"

record command_t =
  cmd_name :: string
  cmd_perm :: flags
  cmd_flags :: flags
  cmd_func :: handler

definition cmd :: "string \<Rightarrow> flags \<Rightarrow> flags \<Rightarrow> handler \<Rightarrow> command_t" where
  "cmd n p f h = \<lparr>cmd_name = n, cmd_perm = p, cmd_flags = f, cmd_func = h\<rparr>"

definition commands :: "command_t list" where
  "commands =
     [cmd ''JOB_ADD'' 0 CMDFLG_REPLAY (\<lambda>w c m s. bindR (deserialize_add_job m) (\<lambda>x. command_add_job w c x s)),
      cmd ''JOB_GET'' 0 0 (\<lambda>w c m s. bindR (deserialize_get_job m) (\<lambda>x. command_get_job w c x s)),
      cmd ''JOB_MOD'' 0 CMDFLG_REPLAY (\<lambda>w c m s. bindR (deserialize_mod_job m) (\<lambda>x. command_mod_job c x s)),
      cmd ''JOB_DEL'' 0 CMDFLG_REPLAY (\<lambda>w c m s. bindR (deserialize_del_job m) (\<lambda>x. command_del_job c x s)),
      cmd ''JOB_SIG'' 0 0 (\<lambda>w c m s. bindR (deserialize_sig_job m) (\<lambda>x. command_sig_job w c x s)),
      cmd ''JOB_WAIT'' 0 0 (\<lambda>w c m s. bindR (deserialize_wait_job m) (\<lambda>x. command_wait_job w c x s)),
      cmd ''QUEUE_ADD'' PERM_QUEUE CMDFLG_REPLAY
        (\<lambda>w c m s. bindR (deserialize_add_queue m) (\<lambda>x. command_add_queue w c x s)),
      cmd ''QUEUE_GET'' PERM_READ 0 (\<lambda>w c m s. bindR (deserialize_get_queue m) (\<lambda>x. command_get_queue w c x s)),
      cmd ''QUEUE_MOD'' 0 CMDFLG_REPLAY
        (\<lambda>w c m s. bindR (deserialize_mod_queue m) (\<lambda>x. command_mod_queue w c x s)),
      cmd ''QUEUE_DEL'' PERM_QUEUE CMDFLG_REPLAY
        (\<lambda>w c m s. bindR (deserialize_del_queue m) (\<lambda>x. command_del_queue c x s)),
      cmd ''RESOURCE_ADD'' PERM_WRITE CMDFLG_REPLAY
        (\<lambda>w c m s. bindR (deserialize_add_resource m) (\<lambda>x. command_add_resource c x s)),
      cmd ''RESOURCE_GET'' PERM_READ 0
        (\<lambda>w c m s. bindR (deserialize_get_resource m) (\<lambda>x. command_get_resource w c x s)),
      cmd ''RESOURCE_MOD'' PERM_WRITE CMDFLG_REPLAY
        (\<lambda>w c m s. bindR (deserialize_mod_resource m) (\<lambda>x. command_mod_resource c x s)),
      cmd ''RESOURCE_DEL'' PERM_WRITE CMDFLG_REPLAY
        (\<lambda>w c m s. bindR (deserialize_del_resource m) (\<lambda>x. command_del_resource c x s)),
      cmd ''TAG_SET'' 0 CMDFLG_REPLAY (\<lambda>w c m s. bindR (deserialize_set_tag m) (\<lambda>x. command_set_tag c x s)),
      cmd ''TAG_DEL'' 0 CMDFLG_REPLAY (\<lambda>w c m s. bindR (deserialize_del_tag m) (\<lambda>x. command_del_tag c x s)),
      cmd ''AGENT_GET'' PERM_READ 0 (\<lambda>w c m s. bindR (deserialize_get_agent m) (\<lambda>x. command_get_agent w c x s)),
      cmd ''STATS'' PERM_READ 0 (\<lambda>w c m s. command_stats c s),
      cmd ''CLEAR_CACHE'' 0 0 (\<lambda>w c m s. command_clearcache c s)]"

text \<open>
  The handler of an agent command gets the agent, \<open>None\<close> when it is replayed. Only the two
  job events are replayed; the other handlers read the agent they were called for.
\<close>

type_synonym agent_handler = "world \<Rightarrow> auth \<Rightarrow> string option \<Rightarrow> msg \<Rightarrow> daemon \<Rightarrow> agent_result"

record agent_command_t =
  ac_name :: string
  ac_flags :: flags
  ac_func :: agent_handler

definition with_agent :: "(string \<Rightarrow> agent_result) \<Rightarrow> string option \<Rightarrow> agent_result" where
  "with_agent f a = (case a of None \<Rightarrow> Inl NullPointer | Some h \<Rightarrow> f h)"

definition agent_commands :: "agent_command_t list" where
  "agent_commands =
     [\<lparr>ac_name = ''JOB_STARTED'', ac_flags = CMDFLG_REPLAY, ac_func = \<lambda>w au a m d. command_agent_jobstart m d\<rparr>,
      \<lparr>ac_name = ''JOB_COMPLETED'', ac_flags = CMDFLG_REPLAY, ac_func = \<lambda>w au a m d. command_agent_jobcompleted m d\<rparr>,
      \<lparr>ac_name = ''AGENT_LOGIN'', ac_flags = 0, ac_func = \<lambda>w au a m d. with_agent (\<lambda>h. command_agent_login w au h m d) a\<rparr>,
      \<lparr>ac_name = ''RECON'', ac_flags = 0, ac_func = \<lambda>w au a m d. with_agent (\<lambda>h. command_agent_recon h m d) a\<rparr>,
      \<lparr>ac_name = ''AUTH'', ac_flags = 0, ac_func = \<lambda>w au a m d. with_agent (\<lambda>h. command_agent_authresp w au h m d) a\<rparr>,
      \<lparr>ac_name = ''PROXY_CONN'', ac_flags = 0, ac_func = \<lambda>w au a m d. with_agent (\<lambda>h. command_agent_proxyconn h m d) a\<rparr>,
      \<lparr>ac_name = ''PROXY_DATA'', ac_flags = 0, ac_func = \<lambda>w au a m d. with_agent (\<lambda>h. command_agent_proxydata h m d) a\<rparr>,
      \<lparr>ac_name = ''PROXY_CLOSE'', ac_flags = 0, ac_func = \<lambda>w au a m d. with_agent (\<lambda>h. command_agent_proxyclose h m d) a\<rparr>]"

definition cmpCommand :: "command_t \<Rightarrow> command_t \<Rightarrow> int" where
  "cmpCommand a b = strcmp (cmd_name a) (cmd_name b)"

definition cmpAgentCommand :: "agent_command_t \<Rightarrow> agent_command_t \<Rightarrow> int" where
  "cmpAgentCommand a b = strcmp (ac_name a) (ac_name b)"

definition sortCommands :: "command_t list" where
  "sortCommands = qsort cmpCommand commands"

definition sortAgentCommands :: "agent_command_t list" where
  "sortAgentCommands = qsort cmpAgentCommand agent_commands"

text \<open>Looking a name up: in the sorted copy when there is one, else by a linear scan.\<close>

definition find_command :: "command_t list option \<Rightarrow> string \<Rightarrow> command_t option" where
  "find_command sorted_commands name =
     (case sorted_commands of
        Some t \<Rightarrow> bsearch (\<lambda>x. strcmp name (cmd_name x)) t
      | None \<Rightarrow> find (\<lambda>x. cmd_name x = name) commands)"

definition find_agent_command :: "agent_command_t list option \<Rightarrow> string \<Rightarrow> agent_command_t option" where
  "find_agent_command sorted_agentcommands name =
     (case sorted_agentcommands of
        Some t \<Rightarrow> bsearch (\<lambda>x. strcmp name (ac_name x)) t
      | None \<Rightarrow> find (\<lambda>x. ac_name x = name) agent_commands)"

subsection \<open>Running a client's command\<close>

record journal_rec =
  jr_uid :: int
  jr_cmd :: string
  jr_msg :: msg
  jr_jobid :: nat
  jr_revision :: int

definition readonly_msg :: "int \<Rightarrow> string option" where
  "readonly_msg r =
     (if r = 1 then Some ''JERS is in READONLY mode. - Check disk space''
      else if r = 2 then Some ''JERS is in READONLY mode. - Check jersd logfile - Save failed''
      else None)"

definition runCommand :: "command_t list option \<Rightarrow> world \<Rightarrow> client \<Rightarrow> msg \<Rightarrow> server \<Rightarrow> fault + outcome \<times> journal_rec list" where
  "runCommand tbl w c m s =
     (case m_command m of
        None \<Rightarrow> Inr (finish 1 [] s, [])
      | Some name \<Rightarrow>
          (case find_command tbl name of
             None \<Rightarrow> Inr (finish 1 [RError JERS_ERR_INVARG (Some ''Unknown command'')] s, [])
           | Some x \<Rightarrow>
               (case validateUserAction w s c (cmd_perm x) of
                  (rc, c) \<Rightarrow>
                    if rc \<noteq> 0 then Inr (finish 1 [RError JERS_ERR_NOPERM None] s, [])
                    else if readonly s \<noteq> 0 \<and> has_flag (cmd_flags x) CMDFLG_REPLAY
                    then Inr (finish 1 [RError JERS_ERR_READONLY (readonly_msg (readonly s))] s, [])
                    else
                      bindR (cmd_func x w (Some c) m s) (\<lambda>r.
                        Inr (r, if has_flag (cmd_flags x) CMDFLG_REPLAY \<and> o_status r = 0
                                then [\<lparr>jr_uid = c_uid c, jr_cmd = name, jr_msg = m,
                                       jr_jobid = o_jobid r, jr_revision = o_revision r\<rparr>]
                                else [])))))"

subsection \<open>Running an agent's command\<close>

definition runAgentCommand :: "agent_command_t list option \<Rightarrow> world \<Rightarrow> auth \<Rightarrow> string \<Rightarrow> msg \<Rightarrow> daemon \<Rightarrow> fault + daemon \<times> journal_rec list" where
  "runAgentCommand tbl w au h m d =
     (case m_command m of
        None \<Rightarrow> Inl NullPointer
      | Some name \<Rightarrow>
          (case find_agent_command tbl name of
             None \<Rightarrow> Inr (d, [])
           | Some x \<Rightarrow>
               bindR (ac_func x w au (Some h) m d) (\<lambda>(status, d).
                 Inr (d, if status = 0 \<and> has_flag (ac_flags x) CMDFLG_REPLAY
                         then [\<lparr>jr_uid = 0, jr_cmd = name, jr_msg = m, jr_jobid = 0, jr_revision = 0\<rparr>]
                         else []))))"

subsection \<open>Replaying the journal\<close>

text \<open>
  \<open>replayCommand\<close> scans the tables linearly. A client command that fails, or that cannot be
  deserialized, terminates the daemon. The number of agent commands is computed from the
  size of the other table: the scan runs over the entries behind the agent table when the
  name is in neither, which is the fault \<open>Overflow\<close>.
\<close>

definition replay_agent :: "world \<Rightarrow> auth \<Rightarrow> string \<Rightarrow> msg \<Rightarrow> daemon \<Rightarrow> fault + daemon" where
  "replay_agent w au name m d =
     (case find (\<lambda>x. ac_name x = name) agent_commands of
        None \<Rightarrow> Inl Overflow
      | Some x \<Rightarrow> bindR (ac_func x w au None m d) (\<lambda>(_, d). Inr d))"

definition replayCommand :: "world \<Rightarrow> auth \<Rightarrow> msg \<Rightarrow> daemon \<Rightarrow> fault + daemon" where
  "replayCommand w au m d =
     (case m_command m of
        None \<Rightarrow> Inr d
      | Some name \<Rightarrow>
          (case find (\<lambda>x. cmd_name x = name) commands of
             None \<Rightarrow> replay_agent w au name m d
           | Some x \<Rightarrow>
               if \<not> has_flag (cmd_flags x) CMDFLG_REPLAY then replay_agent w au name m d
               else bindR (cmd_func x w None m (d_server d)) (\<lambda>r.
                      if o_status r \<noteq> 0 then Inl Abort else Inr (d\<lparr>d_server := o_server r\<rparr>))))"

subsection \<open>The search\<close>

text \<open>
  A table of named entries that \<open>qsort\<close> has sorted by \<open>strcmp\<close> of the names: the binary
  search finds what a linear scan of the table finds.
\<close>

locale named_table =
  fixes name :: "'a \<Rightarrow> string" and entries :: "'a list"
  assumes distinct_names: "distinct (map name entries)"
begin

lemma order: "comparator (\<lambda>_. True) (\<lambda>a b. strcmp (name a) (name b))"
  by unfold_locales (rule strcmp.cmp_flip, simp_all, erule (1) strcmp_le_trans)

lemma find_entry: "x \<in> set entries \<Longrightarrow> find (\<lambda>y. name y = name x) entries = Some x"
  using distinct_names by (induction entries) (auto simp: image_iff)

lemma bsearch_find:
  "bsearch (\<lambda>y. strcmp n (name y)) (qsort (\<lambda>a b. strcmp (name a) (name b)) entries) =
   find (\<lambda>x. name x = n) entries"
proof (cases "n \<in> name ` set entries")
  case True
  then obtain x where x: "x \<in> set entries" "n = name x" by auto
  note cmp = comparator.bsearch_complete [OF order] comparator.sorted_qsort [OF order]
  have "\<exists>y. bsearch (\<lambda>y. strcmp (name x) (name y)) (qsort (\<lambda>a b. strcmp (name a) (name b)) entries) = Some y \<and>
      y \<in> set (qsort (\<lambda>a b. strcmp (name a) (name b)) entries) \<and> strcmp (name x) (name y) = 0"
    using x by (intro cmp(1)) (auto intro!: cmp(2))
  then obtain y where y: "bsearch (\<lambda>y. strcmp n (name y)) (qsort (\<lambda>a b. strcmp (name a) (name b)) entries) = Some y"
    "y \<in> set entries" "name x = name y" using x by auto
  with x find_entry [OF y(2)] show ?thesis by simp
next
  case False
  then have "find (\<lambda>x. name x = n) entries = None" by (auto simp: find_None_iff)
  moreover have "bsearch (\<lambda>y. strcmp n (name y)) (qsort (\<lambda>a b. strcmp (name a) (name b)) entries) = None"
    using False by (cases "bsearch (\<lambda>y. strcmp n (name y)) (qsort (\<lambda>a b. strcmp (name a) (name b)) entries)")
      (auto simp: bsearch_def dest!: bsearch_in_sound)
  ultimately show ?thesis by simp
qed

end

interpretation client_commands: named_table cmd_name commands
  by unfold_locales (simp add: commands_def cmd_def)

interpretation agent_cmds: named_table ac_name agent_commands
  by unfold_locales (simp add: agent_commands_def)

lemma find_command_sorted: "find_command (Some sortCommands) n = find_command None n"
  using client_commands.bsearch_find [of n]
  by (simp add: find_command_def sortCommands_def cmpCommand_def [abs_def])

lemma find_agent_command_sorted: "find_agent_command (Some sortAgentCommands) n = find_agent_command None n"
  using agent_cmds.bsearch_find [of n]
  by (simp add: find_agent_command_def sortAgentCommands_def cmpAgentCommand_def [abs_def])

subsection \<open>What a run is\<close>

text \<open>A run that is not refused is the run of an entry's handler for the validated client.\<close>

lemma find_command_mem: "find_command None n = Some x \<Longrightarrow> x \<in> set commands \<and> cmd_name x = n"
  by (auto simp: find_command_def find_Some_iff)

lemma validateUserAction_uid: "validateUserAction w s c p = (rc, c') \<Longrightarrow> c_uid c' = c_uid c"
  by (auto simp: validateUserAction_def Let_def split: if_splits option.splits)

lemma runCommand_cases:
  assumes "tbl \<in> {None, Some sortCommands}" and "runCommand tbl w c m s = Inr (r, js)"
  obtains (refused) "o_server r = s" "js = []" "o_status r = 1"
  | (ran) x c' where "x \<in> set commands" "m_command m = Some (cmd_name x)"
      "validateUserAction w s c (cmd_perm x) = (0, c')"
      "readonly s = 0 \<or> \<not> has_flag (cmd_flags x) CMDFLG_REPLAY"
      "cmd_func x w (Some c') m s = Inr r"
      "js = (if has_flag (cmd_flags x) CMDFLG_REPLAY \<and> o_status r = 0
             then [\<lparr>jr_uid = c_uid c, jr_cmd = cmd_name x, jr_msg = m, jr_jobid = o_jobid r,
                    jr_revision = o_revision r\<rparr>] else [])"
proof -
  have tbl: "find_command tbl n = find_command None n" for n
    using assms(1) find_command_sorted by auto
  show thesis
  proof (cases "m_command m")
    case None
    with assms(2) show ?thesis by (auto simp: runCommand_def intro: refused)
  next
    case (Some n)
    show ?thesis
    proof (cases "find_command None n")
      case None
      with Some assms(2) tbl show ?thesis by (auto simp: runCommand_def intro: refused)
    next
      case (Some x)
      obtain rc c' where v: "validateUserAction w s c (cmd_perm x) = (rc, c')" by fastforce
      note body = assms(2) [unfolded runCommand_def \<open>m_command m = Some n\<close> option.case tbl Some v prod.case]
      show ?thesis
      proof (cases "rc \<noteq> 0 \<or> readonly s \<noteq> 0 \<and> has_flag (cmd_flags x) CMDFLG_REPLAY")
        case True
        with body show ?thesis by (auto intro: refused split: if_splits)
      next
        case False
        then have nr: "rc = 0" "\<not> (readonly s \<noteq> 0 \<and> has_flag (cmd_flags x) CMDFLG_REPLAY)" by auto
        from body nr(1) have run: "cmd_func x w (Some c') m s = Inr r"
          and js: "js = (if has_flag (cmd_flags x) CMDFLG_REPLAY \<and> o_status r = 0
             then [\<lparr>jr_uid = c_uid c', jr_cmd = n, jr_msg = m, jr_jobid = o_jobid r,
                    jr_revision = o_revision r\<rparr>] else [])"
          unfolding if_not_P [OF nr(2)] by (auto simp: bindR_Inr_iff split: if_splits)
        from find_command_mem [OF Some] False v \<open>m_command m = Some n\<close> run js validateUserAction_uid [OF v]
        show ?thesis by (intro ran [of x c']) auto
      qed
    qed
  qed
qed

subsection \<open>The invariant\<close>

lemma command_clearcache_keeps: "daemon_ok s \<Longrightarrow> keeps daemon_ok (command_clearcache c s)"
proof -
  have "daemon_ok s \<Longrightarrow> daemon_ok (fold (\<lambda>a. sendAgentMessage (Some (a_host a)) r) as s)" for as r s
    by (induction as arbitrary: s) (auto intro: sendAgentMessage_daemon_ok)
  then show "daemon_ok s \<Longrightarrow> keeps daemon_ok (command_clearcache c s)" by (simp add: command_clearcache_def)
qed

lemmas command_keeps = command_add_job_keeps command_get_job_keeps command_mod_job_keeps
  command_del_job_keeps command_sig_job_keeps command_wait_job_keeps command_add_queue_keeps
  command_get_queue_keeps command_mod_queue_keeps command_del_queue_keeps command_add_resource_keeps
  command_get_resource_keeps command_mod_resource_keeps command_del_resource_keeps
  command_set_tag_keeps command_del_tag_keeps command_clearcache_keeps

lemma commands_keep:
  assumes "daemon_ok s" and "dead_queues_free s" and "x \<in> set commands"
  shows "keeps daemon_ok (cmd_func x w c m s)"
proof -
  have "list_all (\<lambda>x. keeps daemon_ok (cmd_func x w c m s)) commands"
    unfolding commands_def cmd_def list.pred_inject command_t.simps
    by (intro conjI TrueI keeps_bind command_keeps assms(1,2))
      (simp_all add: command_get_agent_def command_stats_def Let_def assms)
  with assms(3) show ?thesis by (simp add: list_all_iff)
qed


subsection \<open>A server to run commands on\<close>

text \<open>
  The small server of the scheduler, users 100 (the owner of its jobs) and 200 with no
  permission of their own, and a request with the given fields.
\<close>

definition demo_world :: world where
  "demo_world = \<lparr>w_now = 1000, w_now_ms = 1000000,
     w_users = (\<lambda>u. if u \<in> {100, 200} then Some \<lparr>u_uid = u, u_permissions = 0, u_group_list = []\<rparr> else None),
     w_host = ''node'', w_fnmatch = (\<lambda>p t. p = t)\<rparr>"

definition demo_client :: "int \<Rightarrow> client" where
  "demo_client u = \<lparr>c_uid = u, c_user = \<lparr>u_uid = u, u_permissions = 0, u_group_list = []\<rparr>\<rparr>"

definition demo_msg :: "string \<Rightarrow> field list \<Rightarrow> msg" where
  "demo_msg n fs = \<lparr>m_command = Some n, m_error = None, m_version = 1,
     m_items = [\<lparr>bitmap = [], item_fields = fs\<rparr>], m_alert = None\<rparr>"

lemma demo_daemon_ok: "daemon_ok demo_server" "dead_queues_free demo_server"
  using demo_server_ok
  by (simp_all add: daemon_ok_def deleted_ok_def default_ok_def dead_queues_free_def demo_defs has_flag_def)

lemma demo_find [simp]:
  "findJob demo_server 7 = Some (demo_job 7 100)" "rec_in_progress (recovery demo_server) = False"
  "readonly demo_server = 0" "g_self (permissions demo_server) = []" "nat (uint32 7) = 7"
  by (simp_all add: findJob_def demo_defs table_simps cuint_def)

lemma find_command_list: "find_command None n = find (\<lambda>x. cmd_name x = n) commands"
  by (simp add: find_command_def)

lemmas request_simps = runCommand_def demo_msg_def find_command_list commands_def cmd_def validateUserAction_def
  demo_client_def demo_world_def Let_def deserialize_def num_field_def str_field_def jobid_of_def
  getNumberField_def getStringOf_def

lemma demo_del_foreign:
  "runCommand None demo_world (demo_client 200) (demo_msg ''JOB_DEL'' [num_field JOBID 7]) demo_server =
   Inr (finish (-1) [RError JERS_ERR_NOPERM None] demo_server, [])"
  by (simp add: request_simps deserialize_del_job_def command_del_job_def unless_recovery_def guard_perm_def
      check_perm_def uid_of_def fail_def sendError_def demo_job_def)

subsection \<open>Properties\<close>

text \<open>Whatever request a client sends, \<open>runCommand\<close> leaves a server whose tables are keyed,
  whose job counters, totals and per-queue, match the jobs, whose deleted count and default
  queue are right, provided it found one and no deleted queue is referred to any more.\<close>

theorem runCommand_keeps_ok:
  assumes "daemon_ok s" and "dead_queues_free s" and "tbl \<in> {None, Some sortCommands}"
    and "runCommand tbl w c m s = Inr (r, js)"
  shows "daemon_ok (o_server r)"
  using assms(3,4)
proof (cases rule: runCommand_cases)
  case refused
  with assms(1) show ?thesis by simp
next
  case (ran x c')
  with commands_keep [OF assms(1,2) ran(1), of w "Some c'" m] show ?thesis by simp
qed

theorem runCommand_keeps_ok_witness:
  "\<exists>r js. runCommand None demo_world (demo_client 200) (demo_msg ''JOB_DEL'' [num_field JOBID 7]) demo_server =
     Inr (r, js) \<and> daemon_ok (o_server r)"
  using runCommand_keeps_ok [OF demo_daemon_ok _ demo_del_foreign] demo_del_foreign by auto

text \<open>C37. Searching the sorted copies of the command tables, as the daemon does once they are
  built, and scanning the tables, as it does before, run the same command, for clients and for
  agents.\<close>

theorem dispatch_search_equiv:
  "runCommand (Some sortCommands) w c m s = runCommand None w c m s \<and>
   runAgentCommand (Some sortAgentCommands) w au h m d = runAgentCommand None w au h m d"
  unfolding runCommand_def runAgentCommand_def find_command_sorted find_agent_command_sorted by simp

text \<open>The permissions of a user as a command sees them.\<close>

definition effective_perm :: "world \<Rightarrow> server \<Rightarrow> client \<Rightarrow> flags \<Rightarrow> bool" where
  "effective_perm w s c p \<longleftrightarrow> c_uid c = 0 \<or>
     (case w_users w (c_uid c) of
        None \<Rightarrow> False
      | Some u \<Rightarrow> u_permissions (if u_permissions u = -1 then loadPermissions s u else u) AND p = p)"

lemma validateUserAction_iff: "fst (validateUserAction w s c p) = 0 \<longleftrightarrow> effective_perm w s c p"
  by (simp add: validateUserAction_def effective_perm_def Let_def split: option.split)

text \<open>C3. A request changes the server or is written to the journal only when it names a command
  of the table whose permission the client holds; a journalled one is moreover an update
  command, was run outside read-only mode, returned success, and its record holds the client's
  uid and the request; in read-only mode no update command changes anything.\<close>

theorem runCommand_enforces:
  assumes "tbl \<in> {None, Some sortCommands}" and "runCommand tbl w c m s = Inr (r, js)"
    and "o_server r \<noteq> s \<or> js \<noteq> []"
  shows "\<exists>x \<in> set commands. m_command m = Some (cmd_name x) \<and> effective_perm w s c (cmd_perm x) \<and>
    (has_flag (cmd_flags x) CMDFLG_REPLAY \<longrightarrow> readonly s = 0) \<and>
    list_all (\<lambda>j. has_flag (cmd_flags x) CMDFLG_REPLAY \<and> o_status r = 0 \<and> jr_uid j = c_uid c \<and>
      jr_cmd j = cmd_name x \<and> jr_msg j = m) js"
  using assms(1,2)
proof (cases rule: runCommand_cases)
  case refused
  with assms(3) show ?thesis by simp
next
  case (ran x c')
  have "effective_perm w s c (cmd_perm x)" using validateUserAction_iff ran(3) by (metis fst_conv)
  with ran show ?thesis by (intro bexI [of _ x]) auto
qed


lemma demo_add:
  "\<exists>r js. runCommand None demo_world (demo_client 100) (demo_msg ''TAG_SET''
       [num_field JOBID 7, str_field TAG_KEY (Some ''k''), str_field TAG_VALUE (Some ''v'')]) demo_server = Inr (r, js) \<and>
     js \<noteq> []"
  by (simp add: request_simps deserialize_set_tag_def command_set_tag_def unless_recovery_def guard_perm_def
      check_perm_def uid_of_def demo_job_def isprintable_def getStringField_def sendClientReturnCode_def has_flag_def)

theorem runCommand_enforces_witness:
  "\<exists>r js. runCommand None demo_world (demo_client 100) (demo_msg ''TAG_SET''
       [num_field JOBID 7, str_field TAG_KEY (Some ''k''), str_field TAG_VALUE (Some ''v'')]) demo_server = Inr (r, js) \<and>
     list_all (\<lambda>j. o_status r = 0 \<and> jr_uid j = 100) js \<and> js \<noteq> []"
proof -
  obtain r js where run: "runCommand None demo_world (demo_client 100) (demo_msg ''TAG_SET''
       [num_field JOBID 7, str_field TAG_KEY (Some ''k''), str_field TAG_VALUE (Some ''v'')]) demo_server = Inr (r, js)"
    "js \<noteq> []" using demo_add by blast
  with runCommand_enforces [OF _ run(1)] show ?thesis by (auto simp: demo_client_def list_all_iff)
qed

end
