(* ===== verification/Isolation.thy ===== *)
theory Isolation
  imports Dispatch
begin

section \<open>Isolation: what one user's command can do to another user's jobs\<close>

text \<open>
  Which jobs an operation can touch. \<open>untouched k s s'\<close> says that every job but \<open>k\<close> is the
  same before and after; the job commands only touch the job they name, and the permission
  guard makes sure that it belongs to the caller.
\<close>

unbundle bit_operations_syntax

definition untouched :: "nat \<Rightarrow> server \<Rightarrow> server \<Rightarrow> bool" where
  "untouched k s s' \<longleftrightarrow> tkeys j_jobid (jobTable s') \<and> (\<forall>k'. k' \<noteq> k \<longrightarrow> findJob s' k' = findJob s k')"

lemma untouched_refl: "daemon_ok s \<Longrightarrow> untouched k s s"
  by (simp add: untouched_def daemon_ok_keys)

lemma untouched_jobTable: "untouched k s s' \<Longrightarrow> jobTable s'' = jobTable s' \<Longrightarrow> untouched k s s''"
  by (simp add: untouched_def findJob_def)

lemma untouched_on_job:
  "untouched k s s' \<Longrightarrow> (\<And>j. j_jobid (f j) = j_jobid j) \<Longrightarrow> untouched k s (on_job k f s')"
  by (simp add: untouched_def findJob_on_job tkeys_tupd)

lemma tkeys_changeJobState:
  "tkeys j_jobid (jobTable s) \<Longrightarrow> tkeys j_jobid (jobTable (changeJobState k st q d s))"
proof (cases "findJob s k")
  case None
  then show "tkeys j_jobid (jobTable s) \<Longrightarrow> ?thesis" by (simp add: changeJobState_def)
next
  case (Some j)
  then show "tkeys j_jobid (jobTable s) \<Longrightarrow> ?thesis" by (simp add: jobTable_changeJobState tkeys_tupd)
qed

lemma untouched_changeJobState: "untouched k s s' \<Longrightarrow> untouched k s (changeJobState k st q d s')"
  by (simp add: untouched_def findJob_changeJobState tkeys_changeJobState)

lemma untouched_updateJob: "untouched k s s' \<Longrightarrow> untouched k s (updateJob k d s')"
  using untouched_on_job [of k s s' "\<lambda>j. j\<lparr>j_revision := j_revision j + 1, j_dirty := j_dirty j \<or> d\<rparr>"]
  by (simp add: updateJob_eq untouched_def findJob_def)

lemma untouched_index:
  assumes "untouched k s s'"
  shows "untouched k s (addIndexTag k v s')" "untouched k s (delIndexTag k s')"
proof -
  have "untouched k s (s'\<lparr>index_tag_table := t\<rparr>)" for t
    using assms by (rule untouched_jobTable) simp
  then show "untouched k s (addIndexTag k v s')" "untouched k s (delIndexTag k s')"
    using assms by (simp_all add: addIndexTag_def delIndexTag_def Let_def untouched_on_job split: option.split)
qed

lemma untouched_deferred:
  assumes "untouched k s s'"
  shows "untouched k s (addDeferredJob k' s')" "untouched k s (removeDeferredJob k' s')"
  by (rule untouched_jobTable [OF assms], simp add: addDeferredJob_def removeDeferredJob_def)+

lemma untouched_deallocateRes: "untouched k s s' \<Longrightarrow> untouched k s (deallocateRes j s')"
  by (rule untouched_jobTable) simp_all

lemma sendAgentMessage_jobTable [simp]: "jobTable (sendAgentMessage a r s) = jobTable s"
  by (simp add: sendAgentMessage_def split: option.split)

lemma untouched_sendAgentMessage: "untouched k s s' \<Longrightarrow> untouched k s (sendAgentMessage a r s')"
  by (rule untouched_jobTable) simp_all

lemma untouched_deleteJob: "untouched k s s' \<Longrightarrow> untouched k s (deleteJob k s')"
proof -
  assume un: "untouched k s s'"
  let ?s = "changeJobState k 0 None False
    (on_job k (\<lambda>j. j\<lparr>j_internal_state := set_flag (j_internal_state j) JERS_FLAG_DELETED\<rparr>) s')"
  have "untouched k s ?s" using un by (intro untouched_changeJobState untouched_on_job) simp_all
  then have "untouched k s (if defer_of ?s k \<noteq> 0 then removeDeferredJob k ?s else ?s)"
    by (simp add: untouched_deferred)
  then show ?thesis by (rule untouched_jobTable) (simp add: deleteJob_def Let_def)
qed

lemmas untouched_rules = untouched_on_job untouched_changeJobState untouched_updateJob untouched_index
  untouched_deferred untouched_deallocateRes untouched_sendAgentMessage untouched_deleteJob

subsection \<open>Commands that name a job\<close>

lemma mod_job_defer_untouched:
  "untouched (j_jobid j) s s' \<Longrightarrow> untouched (j_jobid j) s (mod_job_defer mj j s')"
  by (simp add: mod_job_defer_def Let_def untouched_rules)

lemma mod_job_commit_untouched:
  assumes "daemon_ok s"
  shows "keeps (untouched (j_jobid j) s) (mod_job_commit c mj q new j s)"
proof -
  have "j_jobid (mod_job_first mj j) = j_jobid j" "j_jobid (mod_job_rest mj new cp j) = j_jobid j" for j cp
    using mod_job_light by (simp_all add: light_def)
  then show ?thesis
    using untouched_refl [OF assms, of "j_jobid j"]
    by (simp add: mod_job_commit_def Let_def untouched_rules mod_job_defer_untouched)
qed

text \<open>The caller may touch the job: it does not exist, or the guard lets the caller through.\<close>

definition may_touch :: "server \<Rightarrow> client \<Rightarrow> flags \<Rightarrow> nat \<Rightarrow> bool" where
  "may_touch s c p k \<longleftrightarrow> check_perm s c (uid_of (findJob s k)) p = 0"

definition kept_for :: "client \<Rightarrow> flags \<Rightarrow> server \<Rightarrow> server \<Rightarrow> bool" where
  "kept_for c p s s' \<longleftrightarrow>
     (\<forall>k j. findJob s k = Some j \<longrightarrow> \<not> has_flag (j_internal_state j) JERS_FLAG_DELETED \<longrightarrow>
        \<not> may_touch s c p k \<longrightarrow> findJob s' k = Some j)"

lemma kept_for_refl [simp]: "kept_for c p s s"
  by (simp add: kept_for_def)

lemma kept_for_untouched: "untouched k s s' \<Longrightarrow> may_touch s c p k \<Longrightarrow> kept_for c p s s'"
  by (auto simp: kept_for_def untouched_def)

lemma keeps_mono: "keeps I r \<Longrightarrow> (\<And>s. I s \<Longrightarrow> J s) \<Longrightarrow> keeps J r"
  by (auto simp: keeps_def split: sum.splits)

text \<open>A guarded handler whose body only touches the job it names keeps every job the caller may not touch.\<close>

lemma keeps_guarded_body:
  assumes "\<not> rec_in_progress (recovery s)" and "keeps (untouched k s) r"
  shows "keeps (kept_for c p s) (guard_perm (Some c) (uid_of (findJob s k)) p s r)"
    "keeps (kept_for c p s) (unless_recovery s (guard_perm (Some c) (uid_of (findJob s k)) p s) r)"
proof -
  show "keeps (kept_for c p s) (guard_perm (Some c) (uid_of (findJob s k)) p s r)"
  proof (cases "may_touch s c p k")
    case True
    have "keeps (kept_for c p s) r" 
      using kept_for_untouched [OF _ True] by (rule keeps_mono [OF assms(2)])
    then show ?thesis by (simp add: guard_perm_def)
  next
    case False
    then show ?thesis by (simp add: guard_perm_def may_touch_def)
  qed
  with assms(1) show "keeps (kept_for c p s) (unless_recovery s (guard_perm (Some c) (uid_of (findJob s k)) p s) r)"
    by (simp add: unless_recovery_def)
qed

lemma command_mod_job_kept:
  assumes "daemon_ok s" and "\<not> rec_in_progress (recovery s)"
  shows "keeps (kept_for c PERM_WRITE s) (command_mod_job (Some c) mj s)"
proof -
  have "keeps (untouched (jm_jobid mj) s) (mod_job_checked (Some c) mj j s)"
    if "findJob s (jm_jobid mj) = Some j" for j
  proof -
    have "j_jobid j = jm_jobid mj" using that by (auto simp: findJob_def dest: tfind_SomeD)
    then have "keeps (untouched (jm_jobid mj) s) (mod_job_commit (Some c) mj q new j s)" for q new
      using mod_job_commit_untouched [OF assms(1)] by metis
    then show ?thesis using untouched_refl [OF assms(1)]
      by (auto simp: mod_job_checked_def mod_job_resources_def split: option.split list.split intro!: keeps_bind)
  qed
  then have "keeps (untouched (jm_jobid mj) s) (case findJob s (jm_jobid mj) of
      None \<Rightarrow> fail (Some c) JERS_ERR_NOJOB None 0 s
    | Some j \<Rightarrow>
        if has_flag (j_internal_state j) JERS_FLAG_DELETED then fail (Some c) JERS_ERR_NOJOB None 0 s
        else if rec_in_progress (recovery s) \<and> j_revision j \<ge> rec_revision (recovery s)
        then Inr (finish 0 [] s)
        else mod_job_checked (Some c) mj j s)"
    using untouched_refl [OF assms(1)] by (simp split: option.split)
  then show ?thesis
    unfolding command_mod_job_def using keeps_guarded_body(2) [OF assms(2)] by simp
qed

lemma command_del_job_kept:
  assumes "daemon_ok s" and "\<not> rec_in_progress (recovery s)"
  shows "keeps (kept_for c PERM_WRITE s) (command_del_job (Some c) jd s)"
  unfolding command_del_job_def Let_def
  by (rule keeps_guarded_body(2) [OF assms(2)])
    (simp add: untouched_refl [OF assms(1)] untouched_deleteJob)

lemma command_set_tag_kept:
  assumes "daemon_ok s" and "\<not> rec_in_progress (recovery s)"
  shows "keeps (kept_for c PERM_WRITE s) (command_set_tag (Some c) ts s)"
  unfolding command_set_tag_def Let_def
  by (rule keeps_guarded_body(2) [OF assms(2)])
    (simp add: untouched_refl [OF assms(1)] untouched_rules split: option.split bool.split)

lemma command_del_tag_kept:
  assumes "daemon_ok s" and "\<not> rec_in_progress (recovery s)"
  shows "keeps (kept_for c PERM_WRITE s) (command_del_tag (Some c) td s)"
  unfolding command_del_tag_def Let_def
  by (rule keeps_guarded_body(2) [OF assms(2)])
    (simp add: untouched_refl [OF assms(1)] untouched_rules split: option.split)

lemma command_sig_job_kept:
  assumes "daemon_ok s" and "\<not> rec_in_progress (recovery s)"
  shows "keeps (kept_for c (if js_signum js = 0 then PERM_READ else PERM_WRITE) s) (command_sig_job w (Some c) js s)"
  unfolding command_sig_job_def Let_def
  by (rule keeps_guarded_body(1) [OF assms(2)])
    (simp add: untouched_refl [OF assms(1)] untouched_rules signal_unknown_def split: option.split)

subsection \<open>Adding a job\<close>

text \<open>Adding only ever removes jobs that are flagged as deleted.\<close>

definition survivors :: "server \<Rightarrow> server \<Rightarrow> bool" where
  "survivors s s' \<longleftrightarrow> tkeys j_jobid (jobTable s') \<and>
     (\<forall>k j. findJob s k = Some j \<longrightarrow> \<not> has_flag (j_internal_state j) JERS_FLAG_DELETED \<longrightarrow> findJob s' k = Some j)"

lemma survivors_refl: "daemon_ok s \<Longrightarrow> survivors s s"
  by (simp add: survivors_def daemon_ok_keys)

lemma survivorsD:
  "survivors s s' \<Longrightarrow> findJob s k = Some j \<Longrightarrow> findJob s' k \<noteq> Some j \<Longrightarrow>
   has_flag (j_internal_state j) JERS_FLAG_DELETED"
  unfolding survivors_def by blast

lemma survivors_untouched:
  assumes "survivors s s'" and "untouched k s' s''"
    and "\<And>j. findJob s k = Some j \<Longrightarrow> has_flag (j_internal_state j) JERS_FLAG_DELETED"
  shows "survivors s s''"
  unfolding survivors_def
proof (intro conjI allI impI)
  show "tkeys j_jobid (jobTable s'')" using assms(2) by (simp add: untouched_def)
  fix k' j assume j: "findJob s k' = Some j" "\<not> has_flag (j_internal_state j) JERS_FLAG_DELETED"
  then have "k' \<noteq> k" using assms(3) by auto
  then have "findJob s'' k' = findJob s' k'" using assms(2) by (simp add: untouched_def)
  with j assms(1) show "findJob s'' k' = Some j" by (simp add: survivors_def)
qed

lemma untouched_cleanupJob:
  assumes "untouched k s s'"
  shows "untouched k s (snd (cleanupJob k s'))"
proof -
  have "untouched k s (stateDelJob k s')" by (rule untouched_jobTable [OF assms]) (simp add: stateDelJob_def)
  moreover have "untouched k s (t\<lparr>jobTable := tdel j_jobid k (jobTable t), candidate_pool := p, deleted := d\<rparr>)"
    if "untouched k s t" for t p d
    using that by (simp add: untouched_def findJob_def tfind_tdel tkeys_tdel)
  ultimately show ?thesis
    using assms by (cases "index_tag (stateDelJob k s')")
      (simp_all add: cleanupJob_def Let_def untouched_index split: option.split)
qed

lemma cleanupJob_gone: "fst (cleanupJob k s) = 0 \<Longrightarrow> findJob (snd (cleanupJob k s)) k = None"
  by (auto simp: cleanupJob_def Let_def findJob_def tfind_tdel split: option.splits if_splits)

lemma untouched_addJob:
  assumes "untouched (j_jobid j) s s'"
  shows "untouched (j_jobid j) s (snd (addJob j d s'))"
proof (cases "findJob s' (j_jobid j) = None")
  case True
  let ?k = "j_jobid j"
  let ?s = "s'\<lparr>jobTable := tadd (j\<lparr>j_state := 0\<rparr>) (jobTable s')\<rparr>"
  have "untouched ?k s ?s"
    using assms True by (auto simp: untouched_def findJob_def tfind_tadd tkeys_tadd split: option.split)
  moreover have "untouched ?k s (index_new_job tag ?k kvs t)" if "untouched ?k s t" for tag kvs t
    using that by (induction kvs) (auto simp: untouched_index)
  ultimately have "untouched ?k s (case index_tag ?s of None \<Rightarrow> ?s | Some tag \<Rightarrow> index_new_job tag ?k (j_tags j) ?s)"
    by (simp split: option.split)
  with True show ?thesis
    by (simp add: addJob_def Let_def untouched_rules)
next
  case False
  with assms show ?thesis by (simp add: addJob_def Let_def)
qed

lemma survivors_cleanupJob:
  assumes "survivors s s'" and "\<And>j. findJob s' k = Some j \<Longrightarrow> has_flag (j_internal_state j) JERS_FLAG_DELETED"
  shows "survivors s (snd (cleanupJob k s'))"
proof (rule survivors_untouched [OF assms(1)])
  have "untouched k s' s'" using assms(1) by (simp add: untouched_def survivors_def)
  then show "untouched k s' (snd (cleanupJob k s'))" by (rule untouched_cleanupJob)
  show "has_flag (j_internal_state j) JERS_FLAG_DELETED" if "findJob s k = Some j" for j
    using survivorsD [OF assms(1) that] assms(2) by blast
qed

lemma survivors_cleanup_jobs_loop:
  assumes "survivors s s'" and "list_all (\<lambda>j. has_flag (j_internal_state j) JERS_FLAG_DELETED \<longrightarrow>
      (\<forall>j'. findJob s' (j_jobid j) = Some j' \<longrightarrow> has_flag (j_internal_state j') JERS_FLAG_DELETED)) js"
  shows "survivors s (snd (cleanup_jobs_loop js m n s'))"
  using assms
proof (induction js m n s' rule: cleanup_jobs_loop.induct)
  case (2 j js m n s')
  let ?s = "snd (cleanupJob (j_jobid j) s')"
  note IH = 2(2) and prems = 2(4)
  show ?case
  proof (cases "has_flag (j_internal_state j) JERS_FLAG_DELETED")
    case True
    then have 1: "survivors s ?s" using 2(3,4) by (intro survivors_cleanupJob) auto
    have 2: "list_all (\<lambda>j. has_flag (j_internal_state j) JERS_FLAG_DELETED \<longrightarrow>
        (\<forall>j'. findJob ?s (j_jobid j) = Some j' \<longrightarrow> has_flag (j_internal_state j') JERS_FLAG_DELETED)) js"
      unfolding list_all_iff
    proof (intro ballI impI allI)
      fix i j' assume i: "i \<in> set js" "has_flag (j_internal_state i) JERS_FLAG_DELETED"
        and "findJob ?s (j_jobid i) = Some j'"
      then obtain j'' where "findJob s' (j_jobid i) = Some j''" "j_internal_state j' = j_internal_state j''"
        using findJob_cleanupJob by blast
      with i prems show "has_flag (j_internal_state j') JERS_FLAG_DELETED"
        unfolding list_all_iff by (metis list.set_intros(2))
    qed
    show ?thesis using True 1 IH [OF _ refl refl _ 1 2] by (simp add: Let_def)
  next
    case False
    with 2 show ?thesis by simp
  qed
qed simp

lemma survivors_cleanupJobs:
  assumes "survivors s s'"
  shows "survivors s (snd (cleanupJobs m s'))"
proof -
  have "\<forall>j'. findJob s' (j_jobid j) = Some j' \<longrightarrow> has_flag (j_internal_state j') JERS_FLAG_DELETED"
    if "j \<in> set (jobTable s')" "has_flag (j_internal_state j) JERS_FLAG_DELETED" for j
    using that assms by (auto simp: findJob_def tfind_mem survivors_def)
  then have "list_all (\<lambda>j. has_flag (j_internal_state j) JERS_FLAG_DELETED \<longrightarrow>
      (\<forall>j'. findJob s' (j_jobid j) = Some j' \<longrightarrow> has_flag (j_internal_state j') JERS_FLAG_DELETED)) (jobTable s')"
    by (auto simp: list_all_iff)
  with assms show ?thesis by (simp add: cleanupJobs_def survivors_cleanup_jobs_loop)
qed

lemma survivors_getNextJobID:
  "getNextJobID s' = Some r \<Longrightarrow> survivors s s' \<longrightarrow> survivors s (snd r) \<and>
     (fst r \<noteq> 0 \<longrightarrow> findJob (snd r) (fst r) = None)"
proof (rule getNextJobID.raw_induct [where P = "\<lambda>s' r. survivors s s' \<longrightarrow> survivors s (snd r) \<and>
    (fst r \<noteq> 0 \<longrightarrow> findJob (snd r) (fst r) = None)"])
  fix f :: "server \<Rightarrow> (nat \<times> server) option" and s' :: server and r
  assume IH: "\<And>x y. f x = Some y \<Longrightarrow> survivors s x \<longrightarrow> survivors s (snd y) \<and>
      (fst y \<noteq> 0 \<longrightarrow> findJob (snd y) (fst y) = None)"
    and body: "(case next_free s' (max_jobid s') (start_jobid s') of
        None \<Rightarrow> case cleanupJobs 5 s' of (n, s') \<Rightarrow> if n \<noteq> 0 then f s' else Some (0, s')
      | Some jid \<Rightarrow> Some (jid, s'\<lparr>start_jobid := jid\<rparr>)) = Some r"
  obtain n t where t: "cleanupJobs 5 s' = (n, t)" by fastforce
  have "survivors s s' \<longrightarrow> survivors s t" using survivors_cleanupJobs [of s s' 5] t by simp
  then show "survivors s s' \<longrightarrow> survivors s (snd r) \<and> (fst r \<noteq> 0 \<longrightarrow> findJob (snd r) (fst r) = None)"
    using IH body [unfolded t]
    by (auto dest!: next_free_unused simp: survivors_def split: option.splits if_splits)
qed

lemma survivors_commit:
  assumes "survivors s s'" and "\<And>j. findJob s k = Some j \<Longrightarrow> has_flag (j_internal_state j) JERS_FLAG_DELETED"
  shows "keeps (survivors s) (add_job_commit w c ja q rs k s')"
proof -
  let ?s = "snd (addJob (new_job s' w c ja q rs k) True s')"
  have "untouched k s' s'" using assms(1) by (simp add: untouched_def survivors_def)
  then have "untouched k s' ?s" using untouched_addJob [of "new_job s' w c ja q rs k"] by simp
  then have "survivors s ?s" by (rule survivors_untouched [OF assms(1)]) (rule assms(2))
  moreover have "survivors s (?s\<lparr>stats_total := t\<rparr>) = survivors s ?s" for t by (simp add: survivors_def)
  ultimately show ?thesis
    by (auto simp: add_job_commit_def Let_def split: option.split intro!: keeps_bind)
qed

lemma add_job_tail_survivors:
  assumes s': "survivors s s'" and free: "ja_jobid ja \<noteq> 0 \<longrightarrow> findJob s' (ja_jobid ja) = None"
  shows "keeps (survivors s) (add_job_tail w c ja q s')"
proof -
  have "keeps (survivors s) (bindR (add_job_id ja s') (\<lambda>(k, s). if k = 0
      then fail c JERS_ERR_NOJOB (Some ''No available Job IDs'') (-1) s else add_job_commit w c ja q rs k s))" for rs
  proof (rule keeps_bind, clarify)
    fix k s'' assume "add_job_id ja s' = Inr (k, s'')"
    then have "survivors s s''" and "k \<noteq> 0 \<longrightarrow> findJob s'' k = None"
      using s' free survivors_getNextJobID [of s' _ s] by (auto simp: add_job_id_def split: if_splits option.splits)
    then show "keeps (survivors s) (if k = 0 then fail c JERS_ERR_NOJOB (Some ''No available Job IDs'') (-1) s''
        else add_job_commit w c ja q rs k s'')"
      using survivorsD [of s s'' k] by (auto intro!: survivors_commit)
  qed
  with s' show ?thesis
    by (auto simp: add_job_tail_def add_job_resources_def split: option.split intro!: keeps_bind)
qed

lemma add_job_checked_survivors:
  assumes "daemon_ok s"
  shows "keeps (survivors s) (add_job_checked w c ja s)"
proof -
  let ?k = "ja_jobid ja"
  note refl = survivors_refl [OF assms]
  have "keeps (survivors s) (add_job_reuse c ja s (add_job_tail w c ja q))" for q
  proof (cases "findJob s ?k")
    case None
    with refl show ?thesis by (simp add: add_job_reuse_def add_job_tail_survivors)
  next
    case (Some j)
    have "survivors s (snd (cleanupJob ?k s))" if "has_flag (j_internal_state j) JERS_FLAG_DELETED"
      using that Some by (intro survivors_cleanupJob refl) simp
    with Some refl cleanupJob_gone [of ?k s] show ?thesis
      by (auto simp: add_job_reuse_def split_def add_job_tail_survivors)
  qed
  with refl show ?thesis by (simp add: add_job_checked_def add_job_queue_def split: option.split)
qed

lemma command_add_job_survivors: "daemon_ok s \<Longrightarrow> keeps (survivors s) (command_add_job w c ja s)"
  by (auto simp: command_add_job_def Let_def survivors_refl
      intro!: keeps_bind keeps_guarded add_job_checked_survivors)


subsection \<open>Commands that leave the jobs alone\<close>

definition jobs_kept :: "server \<Rightarrow> server \<Rightarrow> bool" where
  "jobs_kept s s' \<longleftrightarrow> jobTable s' = jobTable s"

lemma jobs_kept_simps [simp]:
  "jobs_kept s s" "jobs_kept s (on_queue n f s') = jobs_kept s s'" "jobs_kept s (on_res n g s') = jobs_kept s s'"
  "jobs_kept s (sendAgentMessage a r s') = jobs_kept s s'"
  "jobs_kept s (s'\<lparr>queueTable := qt\<rparr>) = jobs_kept s s'" "jobs_kept s (s'\<lparr>resTable := rt\<rparr>) = jobs_kept s s'"
  by (simp_all add: jobs_kept_def on_queue_def on_res_def)

lemma jobs_kept_queues [simp]:
  "jobs_kept s (updateQueue n d s') = jobs_kept s s'" "jobs_kept s (setDefaultQueue n s') = jobs_kept s s'"
  "jobs_kept s (addQueue fnm q d s') = jobs_kept s s'" "jobs_kept s (updateRes n d s') = jobs_kept s s'"
  "jobs_kept s (addRes r d s') = jobs_kept s s'"
  by (simp_all add: jobs_kept_def updateQueue_def setDefaultQueue_def addQueue_def updateRes_def addRes_def
      on_queue_def on_res_def Let_def split: option.split)

lemma command_queue_jobs:
  "keeps (jobs_kept s) (command_add_queue w c qa s)" "keeps (jobs_kept s) (command_get_queue w c n s)"
  "keeps (jobs_kept s) (command_mod_queue w c qa s)" "keeps (jobs_kept s) (command_del_queue c n s)"
  by (simp_all add: command_add_queue_def command_get_queue_def command_mod_queue_def mod_queue_commit_def
      command_del_queue_def Let_def split: option.split)

lemma command_resource_jobs:
  "keeps (jobs_kept s) (command_add_resource c ra s)" "keeps (jobs_kept s) (command_get_resource w c n s)"
  "keeps (jobs_kept s) (command_mod_resource c ra s)" "keeps (jobs_kept s) (command_del_resource c n s)"
  by (simp_all add: command_add_resource_def command_get_resource_def command_mod_resource_def
      command_del_resource_def Let_def split: option.split)

lemma jobs_kept_send_all [simp]:
  "jobs_kept s (fold (\<lambda>a. sendAgentMessage (Some (a_host a)) r) as s') = jobs_kept s s'"
  by (induction as arbitrary: s') simp_all

lemma command_other_jobs:
  "keeps (jobs_kept s) (command_get_job w c jf s)" "keeps (jobs_kept s) (command_wait_job w c jw s)"
  "keeps (jobs_kept s) (command_get_agent w c n s)" "keeps (jobs_kept s) (command_stats c s)"
  "keeps (jobs_kept s) (command_clearcache c s)"
  by (simp_all add: command_get_job_keeps command_wait_job_keeps command_get_agent_def command_stats_def
      command_clearcache_def Let_def)

subsection \<open>Isolation of users\<close>

text \<open>The jobs of other users, deleted ones apart.\<close>

definition foreign_kept :: "client \<Rightarrow> server \<Rightarrow> server \<Rightarrow> bool" where
  "foreign_kept c s s' \<longleftrightarrow>
     (\<forall>k j. findJob s k = Some j \<longrightarrow> \<not> has_flag (j_internal_state j) JERS_FLAG_DELETED \<longrightarrow>
        j_uid j \<noteq> c_uid c \<longrightarrow> findJob s' k = Some j)"

definition may_write :: "client \<Rightarrow> bool" where
  "may_write c \<longleftrightarrow> c_uid c = 0 \<or> u_permissions (c_user c) AND PERM_WRITE = PERM_WRITE"

lemma foreign_kept_intros:
  "jobs_kept s s' \<Longrightarrow> foreign_kept c s s'" "survivors s s' \<Longrightarrow> foreign_kept c s s'"
  "\<not> may_write c \<Longrightarrow> kept_for c PERM_WRITE s s' \<Longrightarrow> foreign_kept c s s'"
  by (auto simp: foreign_kept_def jobs_kept_def findJob_def survivors_def kept_for_def may_touch_def
      check_perm_def uid_of_def may_write_def)

lemma command_sig_job_foreign:
  assumes "daemon_ok s" and "\<not> rec_in_progress (recovery s)" and "\<not> may_write c"
  shows "keeps (foreign_kept c s) (command_sig_job w (Some c) js s)"
proof (cases "js_signum js = 0")
  case True
  then have "keeps (jobs_kept s) (command_sig_job w (Some c) js s)"
    unfolding command_sig_job_def Let_def by (intro keeps_guard) (simp_all split: option.split)
  then show ?thesis by (rule keeps_mono) (rule foreign_kept_intros)
next
  case False
  with command_sig_job_kept [OF assms(1,2), of c js w] have
    "keeps (kept_for c PERM_WRITE s) (command_sig_job w (Some c) js s)" by simp
  then show ?thesis by (rule keeps_mono) (rule foreign_kept_intros(3) [OF assms(3)])
qed

lemma commands_foreign:
  assumes ok: "daemon_ok s" "\<not> rec_in_progress (recovery s)" "\<not> may_write c"
    and "x \<in> set commands"
  shows "keeps (foreign_kept c s) (cmd_func x w (Some c) m s)"
proof -
  note jobs = command_queue_jobs command_resource_jobs command_other_jobs
  note named = command_mod_job_kept command_del_job_kept command_set_tag_kept command_del_tag_kept
  note rules = jobs [THEN keeps_mono, OF foreign_kept_intros(1)]
    command_add_job_survivors [OF ok(1), THEN keeps_mono, OF foreign_kept_intros(2)]
    named [OF ok(1,2), THEN keeps_mono, OF foreign_kept_intros(3) [OF ok(3)]]
    command_sig_job_foreign [OF ok]
  have "list_all (\<lambda>x. keeps (foreign_kept c s) (cmd_func x w (Some c) m s)) commands"
    unfolding commands_def cmd_def list.pred_inject command_t.simps
    by (intro conjI keeps_bind rules) simp_all
  with assms(4) show ?thesis by (simp add: list_all_iff)
qed

text \<open>C2. A client that is not root and whose groups do not give it the write permission
  cannot change or remove a job of another user, whatever command it sends: every such job
  that is not deleted is the same record after \<open>runCommand\<close> as before.\<close>

theorem users_isolated:
  assumes "daemon_ok s" and "\<not> rec_in_progress (recovery s)"
    and "tbl \<in> {None, Some sortCommands}"
    and "\<not> may_write (snd (validateUserAction w s c 0))"
    and "runCommand tbl w c m s = Inr (r, js)"
    and "findJob s k = Some j" and "\<not> has_flag (j_internal_state j) JERS_FLAG_DELETED"
    and "j_uid j \<noteq> c_uid c"
  shows "findJob (o_server r) k = Some j"
  using assms(3,5)
proof (cases rule: runCommand_cases)
  case refused
  with assms(6) show ?thesis by simp
next
  case (ran x c')
  have "snd (validateUserAction w s c p) = snd (validateUserAction w s c 0)" for p
    by (auto simp: validateUserAction_def Let_def split: option.split)
  then have c': "\<not> may_write c'" using assms(4) ran(3) by (metis snd_conv)
  have "c_uid c' = c_uid c" using ran(3) by (rule validateUserAction_uid)
  with commands_foreign [OF assms(1,2) c' ran(1), of w m] ran(5) assms(6-8)
  show ?thesis by (simp add: foreign_kept_def)
qed


theorem users_isolated_witness:
  "\<exists>r js. runCommand None demo_world (demo_client 200) (demo_msg ''JOB_DEL'' [num_field JOBID 7]) demo_server =
     Inr (r, js) \<and> findJob (o_server r) 7 = Some (demo_job 7 100)"
proof -
  have "\<not> may_write (snd (validateUserAction demo_world demo_server (demo_client 200) 0))"
    by (simp add: may_write_def validateUserAction_def demo_world_def demo_client_def)
  moreover have "\<not> has_flag (j_internal_state (demo_job 7 100)) JERS_FLAG_DELETED"
    "j_uid (demo_job 7 100) \<noteq> c_uid (demo_client 200)"
    by (simp_all add: demo_job_def job_zero_def has_flag_def demo_client_def)
  ultimately show ?thesis
    using users_isolated [OF demo_daemon_ok(1) _ _ _ demo_del_foreign, of 7 "demo_job 7 100"] demo_del_foreign
    by auto
qed

end
