(* ===== verification/Robustness.thy ===== *)
theory Robustness
  imports Isolation Wire
begin

section \<open>Robustness: requests and records that stop the daemon\<close>

text \<open>
  The error behaviour of the command layer, end to end: requests whose bytes the reader
  accepts and whose handler then dereferences NULL, journal records the daemon writes and
  cannot replay, and messages of agents that leave the counters wrong.
\<close>

unbundle bit_operations_syntax

subsection \<open>Requests without fields\<close>

definition bare_request :: "string \<Rightarrow> string" where
  "bare_request n = ''{'' @ quoted_name n @ ''{}}''"

lemma load_bare_request:
  assumes "plain_name n" and "uppercasestring n = n" and "n \<notin> {''ERROR'', ''RESP''}"
  shows "load_message fresh sf (bare_request n) = Loaded (msg_zero\<lparr>m_command := Some n\<rparr>)"
proof -
  have e: "balanced []" by (rule balanced_plain) simp
  have "balanced (quoted_name n @ ''{}'')"
    using balanced_append [OF balanced_quoted_name [OF assms(1)] balanced_object [OF e]] by simp
  then have "JSONGetObject (bare_request n) = Some (quoted_name n @ ''{}'', [])"
    using JSONGetObject_text [of "quoted_name n @ ''{}''" "[]"] by (simp add: bare_request_def)
  moreover have "JSONGetName (quoted_name n @ ''{}'') = Some (n, ''{}'')"
    using JSONGetName_quoted [OF assms(1), of "[]" "''{}''"] by (simp add: starts_value_def)
  moreover have "JSONGetObject ''{}'' = Some ([], [])"
    using JSONGetObject_text [OF e, of "[]"] by simp
  moreover have "cmd_loop fresh sf [] m = Loaded m" for m by (simp add: cmd_loop.simps [of _ _ "[]"])
  ultimately show ?thesis using assms(2,3) by (simp add: load_message_def Let_def)
qed

lemma command_names:
  "list_all (\<lambda>x. plain_name (cmd_name x) \<and> uppercasestring (cmd_name x) = cmd_name x \<and>
     cmd_name x \<notin> {''ERROR'', ''RESP''}) commands"
  by (simp add: commands_def cmd_def uppercasestring_def toupper_c_def plain_name_def)

lemma deserialize_empty: "deserialize f i (msg_zero\<lparr>m_command := n\<rparr>) = Inl NullPointer"
  by (simp add: deserialize_def msg_zero_def)

lemmas deserialize_defs = deserialize_add_job_def deserialize_get_job_def deserialize_mod_job_def
  deserialize_del_job_def deserialize_sig_job_def deserialize_wait_job_def deserialize_set_tag_def
  deserialize_del_tag_def deserialize_add_queue_def deserialize_get_queue_def deserialize_mod_queue_def
  deserialize_del_queue_def deserialize_add_resource_def deserialize_get_resource_def
  deserialize_mod_resource_def deserialize_del_resource_def deserialize_get_agent_def

lemma empty_handler:
  "list_all (\<lambda>x. cmd_name x \<in> {''STATS'', ''CLEAR_CACHE''} \<or>
     cmd_func x w c (msg_zero\<lparr>m_command := n\<rparr>) s = Inl NullPointer) commands"
  by (simp add: commands_def cmd_def deserialize_defs deserialize_empty)

lemma find_command_entry:
  "x \<in> set commands \<Longrightarrow> tbl \<in> {None, Some sortCommands} \<Longrightarrow> find_command tbl (cmd_name x) = Some x"
  using client_commands.find_entry [of x] by (auto simp: find_command_sorted find_command_list)

text \<open>A request that names a command and has no fields, as in \<open>{JOB_GET:{}}\<close> with the name quoted, is
  accepted by the reader; unless the command takes no arguments, running it dereferences NULL, so any
  client that may send the command stops the daemon with it.\<close>

theorem request_without_fields_crashes:
  assumes "x \<in> set commands" and "cmd_name x \<notin> {''STATS'', ''CLEAR_CACHE''}"
    and "effective_perm w s c (cmd_perm x)" and "readonly s = 0"
    and "tbl \<in> {None, Some sortCommands}"
  shows "\<exists>m. load_message fresh sf (bare_request (cmd_name x)) = Loaded m \<and>
    runCommand tbl w c m s = Inl NullPointer"
proof -
  let ?m = "msg_zero\<lparr>m_command := Some (cmd_name x)\<rparr>"
  have "load_message fresh sf (bare_request (cmd_name x)) = Loaded ?m"
    using assms(1) command_names by (intro load_bare_request) (auto simp: list_all_iff)
  moreover obtain c' where "validateUserAction w s c (cmd_perm x) = (0, c')"
    using validateUserAction_iff assms(3) by (metis prod.collapse)
  moreover have "cmd_func x w (Some c') ?m s = Inl NullPointer" for c'
    using empty_handler [of w "Some c'" "Some (cmd_name x)" s] assms(1,2) by (auto simp: list_all_iff)
  ultimately show ?thesis
    using find_command_entry [OF assms(1,5)] assms(4) by (simp add: runCommand_def)
qed

theorem request_without_fields_crashes_witness:
  "\<exists>m. load_message [] None (bare_request ''JOB_GET'') = Loaded m \<and>
    runCommand None demo_world (demo_client 200) m demo_server = Inl NullPointer"
proof -
  have "commands ! 1 \<in> set commands" "cmd_name (commands ! 1) = ''JOB_GET''" "cmd_perm (commands ! 1) = 0"
    by (simp_all add: commands_def cmd_def)
  moreover have "effective_perm demo_world demo_server (demo_client 200) 0"
    by (simp add: effective_perm_def demo_world_def demo_client_def)
  ultimately show ?thesis
    using request_without_fields_crashes [of "commands ! 1" demo_world demo_server "demo_client 200" None "[]" None] by simp
qed

subsection \<open>Replaying what was journalled\<close>

text \<open>When root submits a job for another user the request is journalled with uid 0, and a
  daemon that replays that record on start-up, without the job in its state files, reads the uid
  of a client that is not there.\<close>

theorem root_submission_breaks_recovery:
  assumes "tbl \<in> {None, Some sortCommands}" and "c_uid c = 0" and "m_command m = Some ''JOB_ADD''"
    and "runCommand tbl w c m s = Inr (r, [j])"
    and "rec_in_progress (recovery (d_server d))" and "rec_uid (recovery (d_server d)) = jr_uid j"
    and "findJob (d_server d) (rec_jobid (recovery (d_server d))) = None"
  shows "replayCommand w' au (jr_msg j) d = Inl NullPointer"
  using assms(1,4)
proof (cases rule: runCommand_cases)
  case (ran x c')
  have j: "jr_uid j = 0" "jr_msg j = m" using ran(6) assms(2) by (auto split: if_splits)
  have x: "x = hd commands" using ran(1,2) assms(3) by (auto simp: commands_def cmd_def)
  with ran(5) obtain ja where ja: "deserialize_add_job m = Inr ja"
    by (cases "deserialize_add_job m") (auto simp: commands_def cmd_def)
  have "command_add_job w' None ja (d_server d) = Inl NullPointer"
    using assms(5-7) j by (simp add: command_add_job_def)
  with assms(3) ja j(2) show ?thesis
    by (simp add: replayCommand_def commands_def cmd_def has_flag_def)
qed simp


definition demo_submit :: msg where
  "demo_submit = demo_msg ''JOB_ADD'' [num_field JOBID 9, str_field QUEUENAME (Some ''batch''), num_field UID 100]"

lemma demo_root_submit:
  "\<exists>r j. runCommand None demo_world (demo_client 0) demo_submit demo_server = Inr (r, [j]) \<and> jr_uid j = 0 \<and>
     jr_msg j = demo_submit"
proof -
  have q: "\<exists>q. findQueue demo_server ''batch'' = Some q \<and> \<not> has_flag (q_internal_state q) JERS_FLAG_DELETED \<and>
      has_flag (q_state q) JERS_QUEUE_FLAG_OPEN" and k: "findJob demo_server 9 = None"
    by (simp_all add: findQueue_def findJob_def demo_defs table_simps has_flag_def)
  show ?thesis using q k
    by (auto simp: demo_submit_def request_simps deserialize_add_job_def add_job_field_def command_add_job_def
        jersJobAdd_init_def unless_recovery_def guard_perm_def check_perm_def add_job_checked_def
        add_job_queue_def add_job_reuse_def add_job_tail_def add_job_resources_def add_job_id_def
        add_job_commit_def sendClientMessage_def getStringField_def cuint_def has_flag_def)
qed

definition demo_auth :: auth where
  "demo_auth = \<lparr>au_secret = False, au_nonce = None, au_hmac = \<lambda>_. None\<rparr>"

theorem root_submission_breaks_recovery_witness:
  "\<exists>r j. runCommand None demo_world (demo_client 0) demo_submit demo_server = Inr (r, [j]) \<and>
     replayCommand demo_world demo_auth (jr_msg j)
       \<lparr>d_server = init_server\<lparr>recovery := (recovery init_server)\<lparr>rec_in_progress := True, rec_uid := jr_uid j,
          rec_jobid := 9\<rparr>\<rparr>, d_clients = []\<rparr> = Inl NullPointer"
proof -
  obtain r j where run: "runCommand None demo_world (demo_client 0) demo_submit demo_server = Inr (r, [j])"
    using demo_root_submit by blast
  let ?d = "\<lparr>d_server = init_server\<lparr>recovery := (recovery init_server)\<lparr>rec_in_progress := True, rec_uid := jr_uid j,
    rec_jobid := 9\<rparr>\<rparr>, d_clients = []\<rparr>"
  have "replayCommand demo_world demo_auth (jr_msg j) ?d = Inl NullPointer"
    by (rule root_submission_breaks_recovery [OF _ _ _ run])
      (simp_all add: demo_client_def demo_submit_def demo_msg_def findJob_def init_server_def table_simps)
  with run show ?thesis by blast
qed

end
