(* ===== verification/Daemon.thy ===== *)
theory Daemon
  imports Robustness
begin

section \<open>Daemon: the scheduler, the agents and the clean-up keep the invariant\<close>

text \<open>
  The invariant \<open>daemon_ok\<close> under the operations that are not client commands: a scheduling
  pass, the release of deferred jobs, the messages of agents, their connection and
  disconnection, and the removal of deleted objects.
\<close>

unbundle bit_operations_syntax

subsection \<open>The scheduler keeps the invariant\<close>

text \<open>An update that changes the internal flags of a job without marking it deleted.\<close>

definition flagging :: "(job \<Rightarrow> job) \<Rightarrow> bool" where
  "flagging f \<longleftrightarrow> (\<forall>j. j_jobid (f j) = j_jobid j \<and> j_queue (f j) = j_queue j \<and> j_state (f j) = j_state j \<and>
     (has_flag (j_internal_state (f j)) JERS_FLAG_DELETED \<longrightarrow> has_flag (j_internal_state j) JERS_FLAG_DELETED))"

lemma flagging_flags:
  "flagging (\<lambda>j. j\<lparr>j_internal_state := set_flag (j_internal_state j) JERS_FLAG_JOB_STARTED, j_pend_reason := p\<rparr>)"
  "flagging (\<lambda>j. j\<lparr>j_internal_state := clear_flag (j_internal_state j) JERS_FLAG_JOB_STARTED\<rparr>)"
  "flagging (\<lambda>j. j\<lparr>j_internal_state := clear_flag (j_internal_state j) JERS_FLAG_JOB_STARTED,
     j_pend_reason := p, j_pid := i, j_start_time := t\<rparr>)"
  "flagging (\<lambda>j. j\<lparr>j_internal_state := 0\<rparr>)"
  by (simp_all add: flagging_def)

lemma daemon_ok_flagging [inv_rules]:
  assumes "flagging f" and "daemon_ok s"
  shows "daemon_ok (on_job k f s)"
proof -
  have "server_ok (on_job k f s)"
    using assms by (intro server_ok_on_job) (simp_all add: flagging_def daemon_ok_def)
  moreover have "deleted_ok (on_job k f s)"
    using assms by (auto simp: flagging_def daemon_ok_def deleted_ok_def set_tupd)
  ultimately show ?thesis using assms by (simp add: daemon_ok_def default_ok_def)
qed

lemma daemon_ok_allocateRes [inv_rules]:
  assumes "daemon_ok s"
  shows "daemon_ok (allocateRes j s)"
proof -
  have "defaultQueue (fold (\<lambda>(n, k). on_res n (res_take k)) rs s) = defaultQueue s" for rs
    by (induction rs arbitrary: s) auto
  then have "defaultQueue (allocateRes j s) = defaultQueue s" by (simp add: allocateRes_def)
  with assms show ?thesis
    by (simp add: daemon_ok_def server_ok_allocateRes deleted_ok_def default_ok_def qnames_def)
qed

lemma daemon_ok_start_pending [inv_rules]:
  "daemon_ok s \<Longrightarrow> daemon_ok (count_state n (start_pending_add d) s)"
  by (simp add: daemon_ok_def server_ok_start_pending deleted_ok_def default_ok_def)

lemma daemon_ok_startJob [inv_rules]: "daemon_ok s \<Longrightarrow> daemon_ok (startJob j s)"
  unfolding startJob_def Let_def allocateRes_none sendStartCmd_def
  by (intro daemon_ok_start_pending daemon_ok_flagging flagging_flags sendAgentMessage_daemon_ok
      daemon_ok_allocateRes)

lemma daemon_ok_pend: "daemon_ok s \<Longrightarrow> daemon_ok (on_job k (\<lambda>j. j\<lparr>j_pend_reason := r\<rparr>) s)"
  by (rule daemon_ok_on_job) (simp add: light_def)

lemma daemon_ok_generated:
  "daemon_ok s \<Longrightarrow> generateCandidatePool s = Inr s' \<Longrightarrow> daemon_ok s'"
  by (auto simp: generateCandidatePool_def Let_def daemon_ok_def deleted_ok_def default_ok_def qnames_def
      split: if_splits)

lemma daemon_ok_checkJobs [inv_rules]:
  assumes "daemon_ok s" and "checkJobs s = Inr s'"
  shows "daemon_ok s'"
proof -
  have loops: "daemon_ok (check_loop m n xs t)" "daemon_ok (readonly_loop xs t)" if "daemon_ok t" for m n xs t
    using that
    by (auto intro: check_loop_invariant [where X = UNIV] readonly_loop_invariant daemon_ok_pend daemon_ok_startJob)
  with assms show ?thesis
    by (auto simp: checkJobs_def split: if_splits sum.splits intro!: loops elim!: daemon_ok_generated [OF assms(1)])
qed

text \<open>A deferred job that is released must not be deleted.\<close>

definition deferred_alive :: "server \<Rightarrow> bool" where
  "deferred_alive s \<longleftrightarrow>
     (\<forall>k \<in> set (deferred_list s). \<forall>j. findJob s k = Some j \<longrightarrow> \<not> has_flag (j_internal_state j) JERS_FLAG_DELETED)"

lemma daemon_ok_release_loop:
  assumes "daemon_ok s"
    and "\<forall>k \<in> set ks. \<forall>j. findJob s k = Some j \<longrightarrow> \<not> has_flag (j_internal_state j) JERS_FLAG_DELETED"
  shows "daemon_ok (snd (release_loop now ks n s))"
  using assms
proof (induction ks arbitrary: n s)
  case (Cons k ks)
  let ?s0 = "on_job k (\<lambda>j. j\<lparr>j_defer_time := 0\<rparr>) s"
  let ?s1 = "changeJobState k JERS_JOB_PENDING None False ?s0"
  have ok0: "daemon_ok ?s0" using Cons.prems(1) by (intro daemon_ok_on_job) (simp_all add: light_def)
  note keys = daemon_ok_keys(1) [OF ok0]
  have alive: "\<not> has_flag (j_internal_state j) JERS_FLAG_DELETED"
    if "findJob ?s0 k' = Some j" "k' \<in> set (k # ks)" for k' j
    using Cons.prems(2) that by (auto simp: findJob_on_job split: if_splits)
  have "daemon_ok ?s1" using alive ok0 by (intro daemon_ok_changeJobState) auto
  moreover have "\<not> has_flag (j_internal_state j) JERS_FLAG_DELETED"
    if "findJob (removeDeferredJob k ?s1) k' = Some j" "k' \<in> set ks" for k' j
  proof -
    have "findJob ?s1 k' = Some j" using that(1) by (simp add: findJob_def removeDeferredJob_def)
    with alive that(2) keys show ?thesis
      by (auto simp: findJob_changeJobState requeue_def split: if_splits)
  qed
  ultimately have "daemon_ok (snd (release_loop now ks (Suc n) (removeDeferredJob k ?s1)))"
    by (intro Cons.IH daemon_ok_deferred) auto
  with Cons.prems(1) show ?case by simp
qed simp

lemma daemon_ok_releaseDeferred [inv_rules]:
  "daemon_ok s \<Longrightarrow> deferred_alive s \<Longrightarrow> daemon_ok (releaseDeferred now s)"
  using daemon_ok_release_loop [of s "deferred_list s" now 0]
  by (simp add: releaseDeferred_def Let_def split_def deferred_alive_def)


subsection \<open>The agents keep the invariant\<close>

text \<open>The jobs a message names must not be deleted.\<close>

definition alive :: "server \<Rightarrow> nat \<Rightarrow> bool" where
  "alive s k \<longleftrightarrow> (\<forall>j. findJob s k = Some j \<longrightarrow> \<not> has_flag (j_internal_state j) JERS_FLAG_DELETED)"

lemma alive_on_job:
  assumes "alive s k'" and "\<And>j. j_jobid (f j) = j_jobid j" and "\<And>j. j_internal_state (f j) = j_internal_state j"
  shows "alive (on_job k f s) k'"
  using assms by (auto simp: alive_def findJob_on_job split: if_splits)

lemma alive_changeJobState:
  "tkeys j_jobid (jobTable s) \<Longrightarrow> alive s k' \<Longrightarrow> alive (changeJobState k st q d s) k'"
  by (auto simp: alive_def findJob_changeJobState requeue_def split: if_splits)

lemma daemon_ok_change_alive:
  "daemon_ok s \<Longrightarrow> alive s k \<Longrightarrow> daemon_ok (changeJobState k st None d s)"
  by (rule daemon_ok_changeJobState) (auto simp: alive_def)

lemma job_started_ok:
  assumes "daemon_ok s" and "alive s (je_jobid e)"
  shows "daemon_ok (job_started e s)"
proof -
  let ?s = "on_job (je_jobid e) (\<lambda>j. j\<lparr>j_internal_state := clear_flag (j_internal_state j) JERS_FLAG_JOB_STARTED,
    j_pend_reason := 0, j_pid := je_pid e, j_start_time := je_start_time e\<rparr>)
    (changeJobState (je_jobid e) JERS_JOB_RUNNING None True s)"
  have "daemon_ok ?s" using assms by (intro daemon_ok_flagging flagging_flags daemon_ok_change_alive)
  then show ?thesis by (simp add: job_started_def Let_def daemon_ok_allocateRes split: option.split)
qed

lemma job_completed_ok:
  assumes "daemon_ok s" and "alive s (je_jobid e)"
  shows "daemon_ok (job_completed e j s)"
proof -
  let ?s = "if j_req_resources j \<noteq> [] then deallocateRes j s else s"
  have ok: "daemon_ok ?s" and al: "alive ?s (je_jobid e)"
    using assms by (simp_all add: daemon_ok_deallocateRes alive_def findJob_def)
  show ?thesis unfolding job_completed_def Let_def daemon_ok_frame
    by (intro daemon_ok_flagging flagging_flags daemon_ok_change_alive daemon_ok_on_job alive_on_job ok al)
      (simp_all add: light_def)
qed

lemma recon_job_ok:
  assumes "daemon_ok s" and "alive s (je_jobid e)"
  shows "daemon_ok (recon_job e s) \<and> (alive s k \<longrightarrow> alive (recon_job e s) k)"
proof -
  let ?I = "\<lambda>s'. daemon_ok s' \<and> alive s' (je_jobid e) \<and> (alive s k \<longrightarrow> alive s' k)"
  have job: "?I (on_job (je_jobid e) f s')" if "?I s'" "light f" for f s'
    using that by (auto intro!: daemon_ok_on_job alive_on_job simp: light_def)
  have state: "?I (changeJobState (je_jobid e) st None d s')" if "?I s'" for st d s'
    using that by (auto intro!: daemon_ok_change_alive alive_changeJobState daemon_ok_keys)
  have "?I (recon_job e s)"
    unfolding recon_job_def Let_def using assms
    by (auto intro!: job state simp: light_def simp del: fun_upd_apply split: if_split)
  then show ?thesis by blast
qed


lemma recon_items_ok:
  assumes "daemon_ok s" and "\<forall>it \<in> set its. alive s (je_jobid (fold event_field (item_fields it) job_event_zero))"
    and "recon_items its s = Inr s'"
  shows "daemon_ok s'"
  using assms
proof (induction its arbitrary: s)
  case (Cons it its)
  let ?e = "fold event_field (item_fields it) job_event_zero"
  have run: "recon_items its (recon_job ?e s) = Inr s'"
    using Cons.prems(3) by (auto simp: Let_def split: option.splits)
  have "daemon_ok (recon_job ?e s) \<and> (alive s k \<longrightarrow> alive (recon_job ?e s) k)" for k
    using Cons.prems(1,2) by (intro recon_job_ok) auto
  with Cons.prems(2) run show ?case by (intro Cons.IH) auto
qed simp

lemma daemon_ok_map_queues:
  assumes "daemon_ok s" and "\<And>q. q_name (f q) = q_name q" and "\<And>q. q_stats (f q) = q_stats q"
  shows "daemon_ok (s\<lparr>queueTable := map f (queueTable s)\<rparr>)"
proof -
  have "map (q_name \<circ> f) = map q_name" "(\<lambda>q. q_name (f q)) = q_name" using assms(2) by auto
  with assms show ?thesis
    by (auto simp: daemon_ok_def server_ok_def tables_ok_def counters_ok_def deleted_ok_def default_ok_def
        qnames_def tkeys_def image_image)
qed

lemma mark_unknown_ok: "daemon_ok s \<Longrightarrow> daemon_ok (mark_unknown a k s)"
proof -
  assume ok: "daemon_ok s"
  let ?s = "on_job k (\<lambda>j. j\<lparr>j_internal_state := 0\<rparr>) s"
  have "daemon_ok ?s" using ok by (intro daemon_ok_flagging flagging_flags)
  moreover have "alive ?s k" by (auto simp: alive_def findJob_on_job has_flag_def)
  ultimately show "daemon_ok (mark_unknown a k s)"
    using ok by (simp add: mark_unknown_def daemon_ok_change_alive split: option.split)
qed

lemma markJobsUnknown_ok: "daemon_ok s \<Longrightarrow> daemon_ok (markJobsUnknown a s)"
proof -
  have "daemon_ok s \<Longrightarrow> daemon_ok (fold (mark_unknown a) ks s)" for ks s
    by (induction ks arbitrary: s) (auto intro: mark_unknown_ok)
  then show "daemon_ok s \<Longrightarrow> daemon_ok (markJobsUnknown a s)" by (simp add: markJobsUnknown_def)
qed

lemma handleAgentDisconnect_ok: "daemon_ok s \<Longrightarrow> daemon_ok (handleAgentDisconnect h s)"
  unfolding handleAgentDisconnect_def Let_def markQueueStopped_def
  by (intro daemon_ok_on_agent daemon_ok_map_queues markJobsUnknown_ok) simp_all

lemma handleAgentConnection_ok: "daemon_ok s \<Longrightarrow> daemon_ok (snd (handleAgentConnection h s))"
  by (simp add: handleAgentConnection_def daemon_ok_on_agent split: option.split)

lemma admit_agent_ok: "daemon_ok s \<Longrightarrow> daemon_ok (admit_agent h r s)"
  unfolding admit_agent_def by (intro daemon_ok_on_agent sendAgentMessage_daemon_ok)

text \<open>The jobs an agent's message names.\<close>

definition named_jobs :: "msg \<Rightarrow> nat list" where
  "named_jobs m = map (\<lambda>it. je_jobid (fold event_field (item_fields it) job_event_zero)) (m_items m)"

definition jobid_from :: "field \<Rightarrow> nat \<Rightarrow> nat" where
  "jobid_from f k = (if f_number f = JOBID then jobid_of f else k)"

lemma je_jobid_field:
  "je_jobid (event_field f e) = jobid_from f (je_jobid e)" "je_jobid (start_field f e) = jobid_from f (je_jobid e)"
  "je_jobid (completed_field f e) = jobid_from f (je_jobid e)"
  by (simp_all add: start_field_def completed_field_def event_field_def jobid_from_def Let_def)

lemma je_jobid_fold:
  "(\<And>f e. je_jobid (g f e) = jobid_from f (je_jobid e)) \<Longrightarrow>
   je_jobid (fold g fs e) = fold jobid_from fs (je_jobid e)"
  by (induction fs arbitrary: e) auto

lemmas je_jobid_folds = je_jobid_field [THEN je_jobid_fold]

definition keeps_daemon :: "agent_result \<Rightarrow> bool" where
  "keeps_daemon r \<longleftrightarrow> (case r of Inl _ \<Rightarrow> True | Inr (_, d) \<Rightarrow> daemon_ok (d_server d))"

lemma keeps_daemon_simps [simp]:
  "keeps_daemon (Inl e)" "keeps_daemon (Inr (st, d)) = daemon_ok (d_server d)"
  "keeps_daemon (bindR (Inr x) k) = keeps_daemon (k x)"
  by (simp_all add: keeps_daemon_def)

lemma keeps_daemon_bind: "(\<And>x. r = Inr x \<Longrightarrow> keeps_daemon (k x)) \<Longrightarrow> keeps_daemon (bindR r k)"
  by (cases r) auto

lemma named_alive:
  assumes "list_all (alive s) (named_jobs m)" and "deserialize g job_event_zero' m = Inr e"
    and "\<And>f e. je_jobid (g f e) = jobid_from f (je_jobid e)" and "je_jobid job_event_zero' = 0"
  shows "alive s (je_jobid e)"
  using assms by (auto simp: named_jobs_def deserialize_def je_jobid_folds je_jobid_fold [OF assms(3)]
      job_event_zero_def split: list.splits)

lemma agent_jobs_ok:
  assumes "daemon_ok (d_server d)" and "list_all (alive (d_server d)) (named_jobs m)"
  shows "keeps_daemon (command_agent_jobstart m d)" "keeps_daemon (command_agent_jobcompleted m d)"
    "keeps_daemon (command_agent_recon h m d)"
proof -
  have "alive (d_server d) (je_jobid e)" if "deserialize start_field (job_event_zero\<lparr>je_pid := -1\<rparr>) m = Inr e" for e
    by (rule named_alive [OF assms(2) that je_jobid_field(2)]) (simp add: job_event_zero_def)
  then show "keeps_daemon (command_agent_jobstart m d)"
    unfolding command_agent_jobstart_def
    by (intro keeps_daemon_bind) (simp add: on_server_def job_started_ok assms(1) split: option.split)
  have "alive (d_server d) (je_jobid e)" if "deserialize completed_field job_event_zero m = Inr e" for e
    by (rule named_alive [OF assms(2) that je_jobid_field(3)]) (simp add: job_event_zero_def)
  then show "keeps_daemon (command_agent_jobcompleted m d)"
    unfolding command_agent_jobcompleted_def
    by (intro keeps_daemon_bind) (simp add: on_server_def job_completed_ok assms(1) split: option.split)
  have "\<forall>it \<in> set (m_items m). alive (d_server d) (je_jobid (fold event_field (item_fields it) job_event_zero))"
    using assms(2) by (auto simp: named_jobs_def list_all_iff)
  then have "daemon_ok s'" if "recon_items (m_items m) (d_server d) = Inr s'" for s'
    using recon_items_ok [OF assms(1) _ that] by blast
  then show "keeps_daemon (command_agent_recon h m d)"
    unfolding command_agent_recon_def
    by (intro keeps_daemon_bind) (simp add: daemon_ok_on_agent sendAgentMessage_daemon_ok)
qed

lemma agent_login_ok:
  assumes "daemon_ok (d_server d)"
  shows "keeps_daemon (command_agent_login w au h m d)" "keeps_daemon (command_agent_authresp w au h m d)"
proof -
  have "daemon_ok ((d_server d)\<lparr>queueTable := map (link_queue w h) (queueTable (d_server d))\<rparr>)"
    using assms by (rule daemon_ok_map_queues) (simp_all add: link_queue_def)
  then show "keeps_daemon (command_agent_login w au h m d)"
    by (simp add: command_agent_login_def Let_def on_server_def admit_agent_ok daemon_ok_on_agent
        sendAgentMessage_daemon_ok split: option.split)
  show "keeps_daemon (command_agent_authresp w au h m d)"
    unfolding command_agent_authresp_def
    by (intro keeps_daemon_bind) (simp add: on_server_def admit_agent_ok assms)
qed

lemma agent_proxy_ok:
  assumes "daemon_ok (d_server d)"
  shows "keeps_daemon (command_agent_proxyconn h m d)" "keeps_daemon (command_agent_proxydata h m d)"
    "keeps_daemon (command_agent_proxyclose h m d)"
  unfolding command_agent_proxyconn_def command_agent_proxydata_def command_agent_proxyclose_def
  by (intro keeps_daemon_bind; simp add: assms split: option.split)+

lemma agent_commands_ok:
  assumes "daemon_ok (d_server d)" and "list_all (alive (d_server d)) (named_jobs m)"
    and "x \<in> set agent_commands"
  shows "keeps_daemon (ac_func x w au (Some h) m d)"
proof -
  have "list_all (\<lambda>x. keeps_daemon (ac_func x w au (Some h) m d)) agent_commands"
    by (simp add: agent_commands_def with_agent_def agent_jobs_ok [OF assms(1,2)] agent_login_ok [OF assms(1)]
        agent_proxy_ok [OF assms(1)])
  with assms(3) show ?thesis by (simp add: list_all_iff)
qed

lemma runAgentCommand_ok:
  assumes "daemon_ok (d_server d)" and "list_all (alive (d_server d)) (named_jobs m)"
    and "tbl \<in> {None, Some sortAgentCommands}" and "runAgentCommand tbl w au h m d = Inr (d', js)"
  shows "daemon_ok (d_server d')"
proof -
  have eq: "find_agent_command tbl n = find (\<lambda>x. ac_name x = n) agent_commands" for n
    using assms(3) find_agent_command_sorted by (auto simp: find_agent_command_def)
  from assms(4) show ?thesis
    using assms(1) agent_commands_ok [OF assms(1,2)] unfolding runAgentCommand_def eq
    by (auto simp: bindR_Inr_iff find_Some_iff split: option.splits dest!: nth_mem)
      (metis keeps_daemon_simps(2))
qed


subsection \<open>Clean-up keeps the invariant\<close>

lemma daemon_ok_removed_files [simp]: "daemon_ok (s\<lparr>removed_files := x\<rparr>) = daemon_ok s"
  by (simp add: daemon_ok_def deleted_ok_def default_ok_def qnames_def)

lemma daemon_ok_cleanup_queue_loop:
  assumes "daemon_ok s"
    and "\<forall>q \<in> set qs. has_flag (q_internal_state q) JERS_FLAG_DELETED \<longrightarrow> unreferenced (q_name q) s"
  shows "daemon_ok (snd (cleanup_queue_loop qs m n s))"
  using assms
proof (induction qs m n s rule: cleanup_queue_loop.induct)
  case (2 q qs m n s)
  let ?s = "(stateDelQueue q s)\<lparr>queueTable := tdel q_name (q_name q) (queueTable (stateDelQueue q s))\<rparr>"
  have un: "unreferenced n ?s = unreferenced n s" for n by (simp add: unreferenced_def stateDelQueue_def)
  show ?case
  proof (cases "has_flag (q_internal_state q) JERS_FLAG_DELETED \<and>
      \<not> (q_dirty q \<or> has_flag (q_internal_state q) JERS_FLAG_FLUSHING)")
    case True
    have ok: "daemon_ok ?s"
      using "2.prems" True by (intro daemon_ok_remove_queue) (simp_all add: stateDelQueue_def unreferenced_def)
    have "daemon_ok (snd (cleanup_queue_loop qs m (Suc n) ?s))" if "\<not> Suc n \<ge> m"
      using "2.IH"(3) [OF _ _ refl refl refl that ok] "2.prems"(2) True un by auto
    with ok True show ?thesis by (simp add: Let_def)
  next
    case False
    with "2.IH"(1,2) "2.prems" show ?thesis by (cases "has_flag (q_internal_state q) JERS_FLAG_DELETED") auto
  qed
qed simp

lemma daemon_ok_cleanupQueues:
  "daemon_ok s \<Longrightarrow> dead_queues_free s \<Longrightarrow> daemon_ok (snd (cleanupQueues m s))"
  unfolding cleanupQueues_def by (rule daemon_ok_cleanup_queue_loop) (auto simp: dead_queues_free_def list_all_iff)


lemma daemon_ok_cleanup_res_loop:
  "daemon_ok s \<Longrightarrow> daemon_ok (snd (cleanup_res_loop rs m n s))"
proof (induction rs m n s rule: cleanup_res_loop.induct)
  case (2 r rs m n s)
  let ?s = "(stateDelResource r s)\<lparr>resTable := tdel r_name (r_name r) (resTable (stateDelResource r s))\<rparr>"
  have "daemon_ok ?s" using "2.prems" daemon_ok_keys(3) [OF "2.prems"]
    by (intro daemon_ok_resTable) (simp_all add: stateDelResource_def tkeys_tdel)
  with 2 show ?case by (simp add: Let_def)
qed simp

lemma daemon_ok_cleanupResources: "daemon_ok s \<Longrightarrow> daemon_ok (snd (cleanupResources m s))"
  by (simp add: cleanupResources_def daemon_ok_cleanup_res_loop)

end
