(* ===== verification/Events.thy ===== *)
theory Events
  imports Daemon
begin

section \<open>Events: the event loop, event.c and client.c\<close>

text \<open>
  The handlers of \<open>src/src/event.c\<close> that the main loop fires and the client connections of
  \<open>src/src/client.c\<close>. Sockets are the boundary: what \<open>recv\<close> returned is an argument. The
  environment of an event holds the clock and the user database (\<open>world\<close>), the allocator, the
  secret of the agents, the sorted tables and the bytes a fresh message item starts with.
\<close>

unbundle bit_operations_syntax

record env =
  e_world :: world
  e_alloc :: allocator
  e_auth :: auth
  e_fields :: "field_def list option"
  e_fresh :: "8 word list"
  e_commands :: "command_t list option"
  e_agent_commands :: "agent_command_t list option"

subsection \<open>Client connections\<close>

datatype received = Again | Failed | Bytes string

definition handleClientConnection :: "int \<Rightarrow> daemon \<Rightarrow> daemon" where
  "handleClientConnection uid d =
     d\<lparr>d_clients := \<lparr>pc_uid = uid, pc_proxy_pid = 0, pc_proxy_agent = None, pc_request = [],
                    pc_replies = [], pc_blocking = None\<rparr> # d_clients d\<rparr>"

definition handleClientDisconnect :: "nat \<Rightarrow> daemon \<Rightarrow> daemon" where
  "handleClientDisconnect i d = d\<lparr>d_clients := take i (d_clients d) @ drop (Suc i) (d_clients d)\<rparr>"

text \<open>\<open>recv\<close> on the socket of the client at position \<open>i\<close> of the list; no bytes is the end of the stream.\<close>

definition handleClientRead :: "received \<Rightarrow> nat \<Rightarrow> daemon \<Rightarrow> int \<times> daemon" where
  "handleClientRead r i d =
     (case r of
        Again \<Rightarrow> (0, d)
      | Failed \<Rightarrow> (1, handleClientDisconnect i d)
      | Bytes b \<Rightarrow>
          if b = [] then (1, handleClientDisconnect i d)
          else (0, d\<lparr>d_clients := (d_clients d)
                     [i := (d_clients d ! i)\<lparr>pc_request := pc_request (d_clients d ! i) @ b\<rparr>]\<rparr>))"

definition handleAgentRead :: "received \<Rightarrow> string \<Rightarrow> server \<Rightarrow> int \<times> server" where
  "handleAgentRead r h s =
     (case r of
        Again \<Rightarrow> (0, s)
      | Failed \<Rightarrow> (1, handleAgentDisconnect h s)
      | Bytes b \<Rightarrow>
          if b = [] then (1, handleAgentDisconnect h s)
          else (0, on_agent h (\<lambda>a. a\<lparr>a_requests := a_requests a @ b\<rparr>) s))"

subsection \<open>Sending a reply\<close>

text \<open>
  \<open>_sendMessage\<close>: a local client gets the reply on its socket; the reply of a proxied client
  is terminated by a NUL and sent to its agent in a \<open>PROXY_DATA\<close> request.
\<close>

definition c_str :: "string \<Rightarrow> string" where
  "c_str t = takeWhile (\<lambda>c. c \<noteq> CHR 0x00) t"

definition sendMessage :: "allocator \<Rightarrow> reply \<Rightarrow> pclient \<times> server \<Rightarrow> fault + pclient \<times> server" where
  "sendMessage alloc r cs =
     (case cs of (c, s) \<Rightarrow>
        (case pc_proxy_agent c of
           None \<Rightarrow> Inr (c\<lparr>pc_replies := pc_replies c @ [r]\<rparr>, s)
         | Some h \<Rightarrow>
             (case encode_reply alloc r of
                None \<Rightarrow> Inl NullPointer
              | Some b \<Rightarrow>
                  bindR b (\<lambda>b. bindR (buffAdd alloc b [CHR 0x00]) (\<lambda>b.
                    Inr (c, sendAgentMessage (Some h) (''PROXY_DATA'', 1,
                      [num_field PID (pc_proxy_pid c), str_field PROXYDATA (Some (c_str (bdata b)))]) s))))))"

fun sendMessages :: "allocator \<Rightarrow> reply list \<Rightarrow> pclient \<times> server \<Rightarrow> fault + pclient \<times> server" where
  "sendMessages alloc [] cs = Inr cs"
| "sendMessages alloc (r # rs) cs = bindR (sendMessage alloc r cs) (sendMessages alloc rs)"

subsection \<open>Requests of clients\<close>

text \<open>The first line of a stream and the bytes behind its newline.\<close>

definition split_line :: "string \<Rightarrow> (string \<times> string) option" where
  "split_line buf =
     (case dropWhile (\<lambda>c. c \<noteq> NL) buf of
        [] \<Rightarrow> None
      | _ # rest \<Rightarrow> Some (takeWhile (\<lambda>c. c \<noteq> NL) buf, rest))"

definition as_client :: "pclient \<Rightarrow> client" where
  "as_client c = \<lparr>c_uid = pc_uid c, c_user = \<lparr>u_uid = 0, u_permissions = 0, u_group_list = []\<rparr>\<rparr>"

text \<open>
  A wait replaces the data of an earlier one; its time limit is only stored when it has one.
  Nothing ever takes the callback off a client again.
\<close>

definition block_client :: "blocking option \<Rightarrow> pclient \<Rightarrow> pclient" where
  "block_client b c =
     (case b of
        None \<Rightarrow> c
      | Some b \<Rightarrow>
          c\<lparr>pc_blocking := Some (if jw_timeout (bl_data b) > 0 then b
              else b\<lparr>bl_timeout := (case pc_blocking c of Some old \<Rightarrow> bl_timeout old | None \<Rightarrow> 0)\<rparr>)\<rparr>)"

definition run_request :: "env \<Rightarrow> msg \<Rightarrow> pclient \<Rightarrow> server \<Rightarrow> fault + (pclient \<times> server) \<times> journal_rec list" where
  "run_request e m c s =
     bindR (runCommand (e_commands e) (e_world e) (as_client c) m s) (\<lambda>(r, js).
     bindR (sendMessages (e_alloc e) (o_replies r) (block_client (o_blocking r) c, o_server r)) (\<lambda>cs.
     Inr (cs, js)))"

fun check_clients :: "env \<Rightarrow> pclient list \<Rightarrow> server \<Rightarrow> fault + (pclient list \<times> server) \<times> journal_rec list" where
  "check_clients e [] s = Inr (([], s), [])"
| "check_clients e (c # cs) s =
     (case split_line (pc_request c) of
        None \<Rightarrow> bindR (check_clients e cs s) (\<lambda>((cs, s), js). Inr ((c # cs, s), js))
      | Some (line, rest) \<Rightarrow>
          (case load_message (e_fresh e) (e_fields e) (c_str line) of
             OutOfBounds \<Rightarrow> Inl Overflow
           | Refused \<Rightarrow> check_clients e cs s
           | Loaded m \<Rightarrow>
               bindR (run_request e m c s) (\<lambda>((c, s), js).
               bindR (check_clients e cs s) (\<lambda>((cs, s), js').
               Inr ((c\<lparr>pc_request := rest\<rparr> # cs, s), js @ js')))))"

definition checkClientEvent :: "env \<Rightarrow> daemon \<Rightarrow> fault + daemon \<times> journal_rec list" where
  "checkClientEvent e d =
     bindR (check_clients e (d_clients d) (d_server d)) (\<lambda>((cs, s), js).
       Inr (\<lparr>d_server = s, d_clients = cs\<rparr>, js))"

subsection \<open>Waiting clients\<close>

definition blocking_reply :: "int \<Rightarrow> blocking \<Rightarrow> pclient \<Rightarrow> server \<Rightarrow> result" where
  "blocking_reply now b c s =
     (if bl_timeout b > 0 \<and> now > bl_timeout b then command_wait_job_timeout (Some (as_client c)) s
      else command_wait_job_callback (Some (as_client c)) (bl_data b) s)"

fun check_blocking :: "env \<Rightarrow> pclient list \<Rightarrow> server \<Rightarrow> fault + pclient list \<times> server" where
  "check_blocking e [] s = Inr ([], s)"
| "check_blocking e (c # cs) s =
     (case pc_blocking c of
        None \<Rightarrow> bindR (check_blocking e cs s) (\<lambda>(cs, s). Inr (c # cs, s))
      | Some b \<Rightarrow>
          bindR (blocking_reply (w_now_ms (e_world e)) b c s) (\<lambda>r.
          bindR (sendMessages (e_alloc e) (o_replies r) (c, o_server r)) (\<lambda>(c, s).
          bindR (check_blocking e cs s) (\<lambda>(cs, s).
          Inr (if o_status r \<noteq> 0 then cs else c # cs, s)))))"

definition checkBlockingClientEvent :: "env \<Rightarrow> daemon \<Rightarrow> fault + daemon" where
  "checkBlockingClientEvent e d =
     bindR (check_blocking e (d_clients d) (d_server d)) (\<lambda>(cs, s).
       Inr \<lparr>d_server = s, d_clients = cs\<rparr>)"

subsection \<open>Messages of agents\<close>

text \<open>
  The walk over the lines of an agent's stream. A line that cannot be read disconnects the
  agent, which frees its stream; the bytes consumed before are then still removed from it.
\<close>

lemma split_line_iff: "split_line buf = Some (line, rest) \<longleftrightarrow> buf = line @ NL # rest \<and> NL \<notin> set line"
proof
  assume "split_line buf = Some (line, rest)"
  then obtain c where d: "dropWhile (\<lambda>c. c \<noteq> NL) buf = c # rest" and t: "takeWhile (\<lambda>c. c \<noteq> NL) buf = line"
    by (auto simp: split_line_def split: list.splits)
  have "c = NL" using hd_dropWhile [of "\<lambda>c. c \<noteq> NL" buf] d by simp
  with takeWhile_dropWhile_id [of "\<lambda>c. c \<noteq> NL" buf] d t show "buf = line @ NL # rest \<and> NL \<notin> set line"
    by (auto dest: set_takeWhileD)
next
  assume buf: "buf = line @ NL # rest \<and> NL \<notin> set line"
  then have "dropWhile (\<lambda>c. c \<noteq> NL) buf = NL # rest" "takeWhile (\<lambda>c. c \<noteq> NL) buf = line"
    by (induction line arbitrary: buf) auto
  then show "split_line buf = Some (line, rest)" by (simp add: split_line_def)
qed

lemma split_line_shorter: "split_line buf = Some (line, rest) \<Longrightarrow> length rest < length buf"
  by (simp add: split_line_iff)

function agent_lines :: "env \<Rightarrow> string \<Rightarrow> string \<Rightarrow> nat \<Rightarrow> daemon \<Rightarrow> fault + (nat \<times> daemon) \<times> journal_rec list" where
  "agent_lines e h p consumed d =
     (case split_line p of
        None \<Rightarrow> Inr ((consumed, d), [])
      | Some (line, rest) \<Rightarrow>
          (case load_message (e_fresh e) (e_fields e) (c_str line) of
             OutOfBounds \<Rightarrow> Inl Overflow
           | Refused \<Rightarrow> Inr ((consumed, on_server (handleAgentDisconnect h) d), [])
           | Loaded m \<Rightarrow>
               bindR (runAgentCommand (e_agent_commands e) (e_world e) (e_auth e) h m d) (\<lambda>(d, js).
               bindR (agent_lines e h rest (consumed + length line + 1) d) (\<lambda>(r, js').
               Inr (r, js @ js')))))"
  by pat_completeness auto
termination
  by (relation "measure (\<lambda>(e, h, p, consumed, d). length p)") (auto dest: split_line_shorter)

declare agent_lines.simps [simp del]

definition requests_of :: "string \<Rightarrow> server \<Rightarrow> string" where
  "requests_of h s = (case findAgent s h of Some a \<Rightarrow> a_requests a | None \<Rightarrow> [])"

definition check_agent :: "env \<Rightarrow> string \<Rightarrow> daemon \<Rightarrow> fault + daemon \<times> journal_rec list" where
  "check_agent e h d =
     bindR (agent_lines e h (requests_of h (d_server d)) 0 d) (\<lambda>((consumed, d), js).
     bindR (buffRemove (e_alloc e) \<lparr>bdata = requests_of h (d_server d), bsize = length (requests_of h (d_server d))\<rparr>
              consumed False) (\<lambda>b.
     Inr (on_server (on_agent h (\<lambda>a. a\<lparr>a_requests := bdata b\<rparr>)) d, js)))"

fun check_agents :: "env \<Rightarrow> string list \<Rightarrow> daemon \<Rightarrow> fault + daemon \<times> journal_rec list" where
  "check_agents e [] d = Inr (d, [])"
| "check_agents e (h # hs) d =
     bindR (check_agent e h d) (\<lambda>(d, js).
     bindR (check_agents e hs d) (\<lambda>(d, js'). Inr (d, js @ js')))"

definition checkAgentEvent :: "env \<Rightarrow> daemon \<Rightarrow> fault + daemon \<times> journal_rec list" where
  "checkAgentEvent e d = check_agents e (map a_host (agentList (d_server d))) d"


subsection \<open>Timed work\<close>

definition checkDeferEvent :: "env \<Rightarrow> server \<Rightarrow> server" where
  "checkDeferEvent e s = releaseDeferred (w_now (e_world e)) s"

definition checkJobsEvent :: "server \<Rightarrow> fault + server" where
  "checkJobsEvent s = checkJobs s"

definition cleanupEvent :: "server \<Rightarrow> server" where
  "cleanupEvent s =
     (let max_clean = (if candidate_pool s \<noteq> [] \<or> candidate_recalc s then (max_cleanup s + 1) div 2
                       else max_cleanup s);
          (cleaned, s) = cleanupJobs max_clean s
      in if cleaned \<ge> max_clean then s
         else (let (n, s) = cleanupQueues (max_clean - cleaned) s; cleaned = cleaned + n
               in if cleaned \<ge> max_clean then s
                  else snd (cleanupResources (max_clean - cleaned) s)))"

definition cleanupIndexTag :: "server \<Rightarrow> server" where
  "cleanupIndexTag s = s\<lparr>index_tag_table := filter (\<lambda>(_, ks). ks \<noteq> []) (index_tag_table s)\<rparr>"

definition auto_delete :: "int \<Rightarrow> nat \<Rightarrow> server \<Rightarrow> server" where
  "auto_delete target k s =
     (case findJob s k of
        None \<Rightarrow> s
      | Some j \<Rightarrow>
          if has_flag (j_internal_state j) JERS_FLAG_DELETED \<or> j_state j \<noteq> JERS_JOB_COMPLETED then s
          else if j_finish_time j \<le> target then deleteJob k s else s)"

definition autoCleanup :: "env \<Rightarrow> server \<Rightarrow> server" where
  "autoCleanup e s =
     fold (auto_delete (w_now (e_world e) - auto_cleanup s * 60 * 60)) (map j_jobid (jobTable s)) s"

subsection \<open>The timers\<close>

text \<open>
  The list of timed events: \<open>registerEvent\<close> puts each in front of the ones before it. A pass
  takes the time once and fires every event whose interval is over; \<open>finished\<close> gives the time
  at which an event's function returned.
\<close>

datatype event_id = CheckJobs | Cleanup | BackgroundSave | Flush | CheckDefer | CheckEmails |
  CheckAgents | CheckClients | CheckBlocking | CheckAcct | CleanupIndex | AutoCleanup

record event =
  ev_func :: event_id
  ev_interval :: int
  ev_last_fire :: int

definition registerEvent :: "event_id \<Rightarrow> int \<Rightarrow> event list \<Rightarrow> event list" where
  "registerEvent f interval es = \<lparr>ev_func = f, ev_interval = interval, ev_last_fire = 0\<rparr> # es"

record event_config =
  ec_sched_freq :: int
  ec_background_save_ms :: int
  ec_flush_defer :: bool
  ec_flush_defer_ms :: int
  ec_email_freq_ms :: int

definition initEvents :: "event_config \<Rightarrow> server \<Rightarrow> event list" where
  "initEvents cfg s =
     (let es = registerEvent CheckJobs (ec_sched_freq cfg) [];
          es = registerEvent Cleanup 1000 es;
          es = registerEvent BackgroundSave (ec_background_save_ms cfg) es;
          es = (if ec_flush_defer cfg then registerEvent Flush (ec_flush_defer_ms cfg) es else es);
          es = registerEvent CheckDefer 750 es;
          es = registerEvent CheckEmails (ec_email_freq_ms cfg) es;
          es = registerEvent CheckAgents 0 es;
          es = registerEvent CheckClients 0 es;
          es = registerEvent CheckBlocking 500 es;
          es = registerEvent CheckAcct 1000 es;
          es = (if index_tag s \<noteq> None then registerEvent CleanupIndex 5000 es else es)
      in if auto_cleanup s \<noteq> 0 then registerEvent AutoCleanup (60000 * 5) es else es)"

fun check_events :: "(event_id \<Rightarrow> 's \<Rightarrow> fault + 's) \<Rightarrow> int \<Rightarrow> (event_id \<Rightarrow> int) \<Rightarrow> event list \<Rightarrow> 's \<Rightarrow> fault + event list \<times> 's" where
  "check_events run now finished [] s = Inr ([], s)"
| "check_events run now finished (ev # es) s =
     bindR (if now \<ge> ev_last_fire ev + ev_interval ev
            then bindR (run (ev_func ev) s) (\<lambda>s. Inr (ev\<lparr>ev_last_fire := finished (ev_func ev)\<rparr>, s))
            else Inr (ev, s)) (\<lambda>(ev, s).
     bindR (check_events run now finished es s) (\<lambda>(es, s). Inr (ev # es, s)))"


subsection \<open>The input of a client as a queue\<close>

text \<open>
  The abstract view of a stream: the complete lines not yet processed, and the part of a
  line behind them. Bytes that arrive are put behind; a pass takes the first line.
\<close>

type_synonym input = "string list \<times> string"

function input_of :: "string \<Rightarrow> input" where
  "input_of buf =
     (case split_line buf of
        None \<Rightarrow> ([], buf)
      | Some (line, rest) \<Rightarrow> (let (ls, part) = input_of rest in (line # ls, part)))"
  by pat_completeness auto
termination by (relation "measure length") (auto dest: split_line_shorter)

declare input_of.simps [simp del]

definition put_input :: "string \<Rightarrow> input \<Rightarrow> input" where
  "put_input b q = (case q of (ls, part) \<Rightarrow> (case input_of (part @ b) of (ls', part') \<Rightarrow> (ls @ ls', part')))"

lemma split_line_append: "split_line buf = Some (line, rest) \<Longrightarrow> split_line (buf @ b) = Some (line, rest @ b)"
  by (simp add: split_line_iff)

lemma input_of_append: "input_of (buf @ b) = put_input b (input_of buf)"
proof (induction buf rule: input_of.induct)
  case (1 buf)
  show ?case
  proof (cases "split_line buf")
    case None
    then show ?thesis by (simp add: put_input_def input_of.simps [of buf] split: prod.split)
  next
    case (Some p)
    obtain line rest where p: "p = (line, rest)" by (cases p)
    have "input_of (rest @ b) = put_input b (input_of rest)" using 1 [OF Some p [symmetric]] .
    moreover have "split_line (buf @ b) = Some (line, rest @ b)"
      using Some p split_line_append by simp
    ultimately show ?thesis
      using Some p by (simp add: input_of.simps [of buf] input_of.simps [of "buf @ b"] put_input_def
          split: prod.split)
  qed
qed

lemma input_of_rest:
  "split_line buf = Some (line, rest) \<Longrightarrow> input_of buf = (line # fst (input_of rest), snd (input_of rest))"
  by (simp add: input_of.simps [of buf] split: prod.split)

lemma split_line_input:
  "split_line buf = (case input_of buf of ([], _) \<Rightarrow> None | (l # _, _) \<Rightarrow> Some (l, drop (Suc (length l)) buf))"
proof (cases "split_line buf")
  case None
  then show ?thesis by (simp add: input_of.simps [of buf])
next
  case (Some p)
  obtain line rest where p: "p = (line, rest)" by (cases p)
  then have sp: "split_line buf = Some (line, rest)" using Some by simp
  then have "buf = line @ NL # rest" by (simp add: split_line_iff)
  then have "drop (Suc (length line)) buf = rest" by simp
  then show ?thesis by (simp add: sp input_of_rest [OF sp])
qed

text \<open>C34. The input of a client behaves as a queue of lines, whatever the chunks in which its bytes
  arrive: reading appends to the queue, and a pass of \<open>checkClientEvent\<close> over the client takes
  exactly the first complete line, disconnecting the client when it is no message and else
  running it, or does nothing when there is none.\<close>

theorem client_input_refines_queue:
  assumes "i < length (d_clients d)" and "b \<noteq> []"
  shows "input_of (pc_request (d_clients (snd (handleClientRead (Bytes b) i d)) ! i)) =
      put_input b (input_of (pc_request (d_clients d ! i))) \<and>
    (case input_of (pc_request c) of
       ([], part) \<Rightarrow> check_clients e [c] s = Inr (([c], s), [])
     | (l # ls, part) \<Rightarrow>
         check_clients e [c] s =
           (case load_message (e_fresh e) (e_fields e) (c_str l) of
              OutOfBounds \<Rightarrow> Inl Overflow
            | Refused \<Rightarrow> Inr (([], s), [])
            | Loaded m \<Rightarrow>
                bindR (run_request e m c s) (\<lambda>((c', s'), js).
                  Inr (([c'\<lparr>pc_request := drop (Suc (length l)) (pc_request c)\<rparr>], s'), js))) \<and>
         input_of (drop (Suc (length l)) (pc_request c)) = (ls, part))"
proof -
  have "input_of (pc_request (d_clients (snd (handleClientRead (Bytes b) i d)) ! i)) =
      put_input b (input_of (pc_request (d_clients d ! i)))"
    using assms by (simp add: handleClientRead_def input_of_append)
  moreover have "check_clients e [c] s = Inr (([c], s), [])" if "input_of (pc_request c) = ([], part)" for part
    using split_line_input [of "pc_request c"] that by simp
  moreover have "check_clients e [c] s =
           (case load_message (e_fresh e) (e_fields e) (c_str l) of
              OutOfBounds \<Rightarrow> Inl Overflow
            | Refused \<Rightarrow> Inr (([], s), [])
            | Loaded m \<Rightarrow>
                bindR (run_request e m c s) (\<lambda>((c', s'), js).
                  Inr (([c'\<lparr>pc_request := drop (Suc (length l)) (pc_request c)\<rparr>], s'), js))) \<and>
      input_of (drop (Suc (length l)) (pc_request c)) = (ls, part)"
    if "input_of (pc_request c) = (l # ls, part)" for l ls part
  proof -
    have split: "split_line (pc_request c) = Some (l, drop (Suc (length l)) (pc_request c))"
      using split_line_input [of "pc_request c"] that by simp
    then show ?thesis using input_of_rest [OF split] that
      by (auto simp: bindR_def split: loaded.split sum.split prod.split)
  qed
  ultimately show ?thesis by (auto split: prod.split list.split)
qed


definition demo_env :: env where
  "demo_env = \<lparr>e_world = demo_world, e_alloc = (\<lambda>_. AllocSame), e_auth = demo_auth, e_fields = None,
     e_fresh = [], e_commands = None, e_agent_commands = None\<rparr>"

definition demo_pclient :: "string \<Rightarrow> blocking option \<Rightarrow> pclient" where
  "demo_pclient req b = \<lparr>pc_uid = 100, pc_proxy_pid = 0, pc_proxy_agent = None, pc_request = req,
     pc_replies = [], pc_blocking = b\<rparr>"

theorem client_input_refines_queue_witness:
  "input_of (pc_request (d_clients (snd (handleClientRead (Bytes ''b'') 0
     \<lparr>d_server = demo_server, d_clients = [demo_pclient ''a'' None]\<rparr>)) ! 0)) = put_input ''b'' (input_of ''a'')"
  using client_input_refines_queue [of 0 "\<lparr>d_server = demo_server, d_clients = [demo_pclient ''a'' None]\<rparr>" "''b''"]
  by (simp add: demo_pclient_def)

subsection \<open>Waiting for a job\<close>

definition answer :: "int \<Rightarrow> server \<Rightarrow> pclient \<Rightarrow> reply list" where
  "answer now s c =
     (case pc_blocking c of
        None \<Rightarrow> []
      | Some b \<Rightarrow>
          if bl_timeout b > 0 \<and> now > bl_timeout b then [RError JERS_ERR_TIMEOUT None]
          else if map_option j_revision (findJob s (jw_jobid (bl_data b))) = Some (jw_revision (bl_data b)) then []
          else [RReturn ''0''])"

definition local_client :: "pclient \<Rightarrow> bool" where
  "local_client c \<longleftrightarrow> pc_proxy_agent c = None"

lemma sendMessages_local:
  "local_client c \<Longrightarrow> sendMessages alloc rs (c, s) = Inr (c\<lparr>pc_replies := pc_replies c @ rs\<rparr>, s)"
proof (induction rs arbitrary: c)
  case (Cons r rs)
  then have "local_client (c\<lparr>pc_replies := pc_replies c @ [r]\<rparr>)" by (simp add: local_client_def)
  with Cons show ?case by (simp add: sendMessage_def local_client_def)
qed simp

lemma blocking_reply_answer:
  assumes "pc_blocking c = Some b"
  shows "\<exists>r. blocking_reply now b c s = Inr r \<and> o_status r = 0 \<and> o_replies r = answer now s c \<and> o_server r = s"
  using assms
  by (auto simp: blocking_reply_def answer_def command_wait_job_timeout_def command_wait_job_callback_def fail_def
      sendError_def sendClientReturnCode_def split: option.split)

lemma check_blocking_local:
  assumes "list_all local_client cs"
  shows "check_blocking e cs s =
    Inr (map (\<lambda>c. c\<lparr>pc_replies := pc_replies c @ answer (w_now_ms (e_world e)) s c\<rparr>) cs, s)"
  using assms
proof (induction cs)
  case (Cons c cs)
  show ?case
  proof (cases "pc_blocking c")
    case None
    with Cons show ?thesis by (simp add: answer_def)
  next
    case (Some b)
    with blocking_reply_answer [OF Some, of "w_now_ms (e_world e)" s] Cons sendMessages_local [of c]
    show ?thesis by auto
  qed
qed simp


lemma demo_wait:
  "command_wait_job demo_world (Some (as_client (demo_pclient [] None))) \<lparr>jw_jobid = 7, jw_revision = 0, jw_timeout = -1\<rparr>
     demo_server = Inr ((finish 0 [] demo_server)\<lparr>o_blocking :=
       Some \<lparr>bl_data = \<lparr>jw_jobid = 7, jw_revision = 0, jw_timeout = -1\<rparr>, bl_timeout = 0\<rparr>\<rparr>)"
  by (simp add: command_wait_job_def guard_perm_def check_perm_def as_client_def demo_pclient_def uid_of_def
      demo_job_def job_zero_def has_flag_def)


text \<open>A wait that has been answered is answered again: the callback stays on the client, so
  every later pass writes the same reply once more, which the client reads as the reply to
  its next request.\<close>

theorem wait_answered_again:
  assumes "local_client c" and "answer (w_now_ms (e_world e)) s c = [a]"
  shows "\<exists>c'. check_blocking e [c] s = Inr ([c'], s) \<and> pc_replies c' = pc_replies c @ [a] \<and>
    check_blocking e [c'] s = Inr ([c'\<lparr>pc_replies := pc_replies c @ [a, a]\<rparr>], s)"
proof -
  let ?c = "c\<lparr>pc_replies := pc_replies c @ [a]\<rparr>"
  have "answer (w_now_ms (e_world e)) s ?c = [a]" using assms(2) by (simp add: answer_def)
  moreover have "local_client ?c" using assms(1) by (simp add: local_client_def)
  ultimately show ?thesis using assms by (intro exI [of _ ?c]) (simp add: check_blocking_local del: check_blocking.simps)
qed

theorem wait_answered_again_witness:
  "\<exists>c'. check_blocking demo_env [demo_pclient [] (Some \<lparr>bl_data = \<lparr>jw_jobid = 9, jw_revision = 1, jw_timeout = 0\<rparr>,
      bl_timeout = 0\<rparr>)] demo_server = Inr ([c'], demo_server) \<and>
    check_blocking demo_env [c'] demo_server =
      Inr ([c'\<lparr>pc_replies := [RReturn ''0'', RReturn ''0'']\<rparr>], demo_server)"
proof -
  have "findJob demo_server 9 = None" by (simp add: findJob_def demo_defs table_simps)
  then show ?thesis
    using wait_answered_again [of "demo_pclient [] (Some \<lparr>bl_data = \<lparr>jw_jobid = 9, jw_revision = 1, jw_timeout = 0\<rparr>,
      bl_timeout = 0\<rparr>)" demo_env demo_server "RReturn ''0''"]
    by (auto simp: local_client_def answer_def demo_pclient_def)
qed

subsection \<open>A malformed message of an agent\<close>

lemma requests_of_disconnected: "requests_of h (handleAgentDisconnect h s) = []"
  by (auto simp: requests_of_def handleAgentDisconnect_def Let_def findAgent_def on_agent_def tfind_tupd
      split: option.splits)

text \<open>When an agent's stream holds a message and then a line that is no message, the daemon
  disconnects the agent, which frees the stream, and then removes the bytes of the first
  message from the freed stream: the length of the move wraps around.\<close>

theorem malformed_agent_message_crashes:
  assumes "requests_of h (d_server d) = l1 @ [NL] @ l2 @ [NL] @ rest" and "NL \<notin> set l1" and "NL \<notin> set l2"
    and "load_message (e_fresh e) (e_fields e) (c_str l1) = Loaded m"
    and "runAgentCommand (e_agent_commands e) (e_world e) (e_auth e) h m d = Inr (d', js)"
    and "load_message (e_fresh e) (e_fields e) (c_str l2) = Refused"
  shows "check_agent e h d = Inl Underflow"
proof -
  have s1: "split_line (requests_of h (d_server d)) = Some (l1, l2 @ NL # rest)"
    and s2: "split_line (l2 @ NL # rest) = Some (l2, rest)"
    using assms(1-3) by (simp_all add: split_line_iff)
  have "agent_lines e h (l2 @ NL # rest) n d' = Inr ((n, on_server (handleAgentDisconnect h) d'), [])" for n
    using s2 assms(6) by (subst agent_lines.simps) simp
  then have "agent_lines e h (requests_of h (d_server d)) 0 d =
      Inr ((Suc (length l1), on_server (handleAgentDisconnect h) d'), js)"
    using s1 assms(4,5) by (subst agent_lines.simps) simp
  then show ?thesis
    by (simp add: check_agent_def on_server_def requests_of_disconnected buffRemove_def)
qed


theorem malformed_agent_message_crashes_witness:
  "check_agent demo_env ''node''
     \<lparr>d_server = snd (handleAgentRead (Bytes (bare_request ''AGENT_LOGIN'' @ [NL] @ ''x'' @ [NL])) ''node'' demo_server),
      d_clients = []\<rparr> = Inl Underflow"
proof -
  let ?l = "bare_request ''AGENT_LOGIN''"
  let ?s = "snd (handleAgentRead (Bytes (?l @ [NL] @ ''x'' @ [NL])) ''node'' demo_server)"
  have "requests_of ''node'' ?s = ?l @ [NL] @ ''x'' @ [NL] @ []"
    by (simp add: handleAgentRead_def requests_of_def findAgent_def demo_defs table_simps tfind_tupd)
  moreover have "NL \<notin> set ?l" "c_str ?l = ?l" by (simp_all add: bare_request_def quoted_name_def c_str_def)
  moreover have "load_message [] None ?l = Loaded (msg_zero\<lparr>m_command := Some ''AGENT_LOGIN''\<rparr>)"
    by (rule load_bare_request) (simp_all add: plain_name_def uppercasestring_def toupper_c_def)
  moreover have "load_message [] None (c_str ''x'') = Refused"
    by (simp add: load_message_def JSONGetObject_def c_str_def skipWhitespace_def is_ws_def)
  moreover have "\<exists>r. runAgentCommand None demo_world demo_auth ''node'' (msg_zero\<lparr>m_command := Some ''AGENT_LOGIN''\<rparr>)
      \<lparr>d_server = ?s, d_clients = []\<rparr> = Inr r"
    by (simp add: runAgentCommand_def find_agent_command_def agent_commands_def with_agent_def
        command_agent_login_def demo_auth_def Let_def)
  ultimately show ?thesis
    using malformed_agent_message_crashes [of "''node''" "\<lparr>d_server = ?s, d_clients = []\<rparr>" ?l "''x''" "[]" demo_env]
    by (auto simp: demo_env_def)
qed


subsection \<open>Automatic clean-up\<close>

definition expired :: "int \<Rightarrow> job \<Rightarrow> bool" where
  "expired target j \<longleftrightarrow> \<not> has_flag (j_internal_state j) JERS_FLAG_DELETED \<and> j_state j = JERS_JOB_COMPLETED \<and>
     j_finish_time j \<le> target"

lemma auto_delete_eq:
  "auto_delete target k s = (case findJob s k of None \<Rightarrow> s | Some j \<Rightarrow> if expired target j then deleteJob k s else s)"
  by (auto simp: auto_delete_def expired_def split: option.split)

lemma auto_delete_ok: "daemon_ok s \<Longrightarrow> daemon_ok (auto_delete target k s)"
  by (simp add: auto_delete_eq daemon_ok_deleteJob split: option.split)

lemma auto_delete_other:
  "daemon_ok s \<Longrightarrow> k' \<noteq> k \<Longrightarrow> findJob (auto_delete target k s) k' = findJob s k'"
  using untouched_deleteJob [OF untouched_refl, of s k]
  by (auto simp: auto_delete_eq untouched_def split: option.split)

lemma findJob_deleteJob:
  assumes "daemon_ok s" and "findJob s k = Some j"
  shows "findJob (deleteJob k s) k =
    Some (j\<lparr>j_internal_state := set_flag (j_internal_state j) JERS_FLAG_DELETED, j_state := 0,
            j_revision := j_revision j + 1\<rparr>)"
proof -
  let ?f = "\<lambda>j. j\<lparr>j_internal_state := set_flag (j_internal_state j) JERS_FLAG_DELETED\<rparr>"
  have "tkeys j_jobid (jobTable (on_job k ?f s))"
    using daemon_ok_keys(1) [OF assms(1)] by (simp add: tkeys_tupd)
  then have "findJob (changeJobState k 0 None False (on_job k ?f s)) k =
      Some ((requeue 0 None (?f j))\<lparr>j_revision := j_revision j + 1, j_dirty := j_dirty j\<rparr>)"
    using assms(2) by (simp add: findJob_changeJobState findJob_on_job requeue_def)
  moreover have "findJob (deleteJob k s) k = findJob (changeJobState k 0 None False (on_job k ?f s)) k"
    by (simp add: deleteJob_def Let_def findJob_def removeDeferredJob_def)
  ultimately show ?thesis by (simp add: requeue_def)
qed

lemma deleteJob_flag:
  assumes "daemon_ok s" and "findJob s k = Some j"
  shows "\<exists>j'. findJob (deleteJob k s) k = Some j' \<and> has_flag (j_internal_state j') JERS_FLAG_DELETED \<and>
    j_state j' = 0 \<and> j_uid j' = j_uid j"
  by (simp add: findJob_deleteJob [OF assms])

lemma fold_auto_delete:
  assumes "daemon_ok s"
  shows "daemon_ok (fold (auto_delete target) ks s) \<and>
    (k \<notin> set ks \<longrightarrow> findJob (fold (auto_delete target) ks s) k = findJob s k)"
  using assms
proof (induction ks arbitrary: s)
  case (Cons x ks)
  then show ?case using auto_delete_ok [of s target x] auto_delete_other [of s k x target] by auto
qed simp

text \<open>C36. \<open>autoCleanup\<close> deletes exactly the completed jobs that finished before the configured age,
  each marked deleted and counted nowhere, and leaves every other job as it was; the counters
  stay right.\<close>

theorem autoCleanup_exact:
  assumes "daemon_ok s" and "findJob s k = Some j"
  shows "daemon_ok (autoCleanup e s) \<and>
    (if expired (w_now (e_world e) - auto_cleanup s * 60 * 60) j
     then \<exists>j'. findJob (autoCleanup e s) k = Some j' \<and> has_flag (j_internal_state j') JERS_FLAG_DELETED \<and>
            j_state j' = 0 \<and> j_uid j' = j_uid j
     else findJob (autoCleanup e s) k = Some j)"
proof -
  let ?t = "w_now (e_world e) - auto_cleanup s * 60 * 60"
  have "k \<in> set (map j_jobid (jobTable s))"
    using assms(2) by (auto simp: findJob_def dest: tfind_SomeD)
  then obtain xs ys where ks: "map j_jobid (jobTable s) = xs @ k # ys" by (meson split_list)
  then have dist: "k \<notin> set xs" "k \<notin> set ys"
    using daemon_ok_keys(1) [OF assms(1)] unfolding tkeys_def by auto
  let ?s1 = "fold (auto_delete ?t) xs s"
  let ?s2 = "auto_delete ?t k ?s1"
  have s1: "daemon_ok ?s1" "findJob ?s1 k = Some j" using fold_auto_delete [OF assms(1)] dist assms(2) by auto
  have s2: "daemon_ok ?s2" by (rule auto_delete_ok [OF s1(1)])
  have "autoCleanup e s = fold (auto_delete ?t) ys ?s2" unfolding autoCleanup_def ks by simp
  then have "daemon_ok (autoCleanup e s)" "findJob (autoCleanup e s) k = findJob ?s2 k"
    using fold_auto_delete [OF s2, of ?t ys k] dist by auto
  moreover have "findJob ?s2 k = (if expired ?t j then findJob (deleteJob k ?s1) k else Some j)"
    using s1(2) by (simp add: auto_delete_eq)
  ultimately show ?thesis using deleteJob_flag [OF s1] by auto
qed

theorem autoCleanup_exact_witness:
  "daemon_ok (autoCleanup demo_env demo_server) \<and> findJob (autoCleanup demo_env demo_server) 7 = Some (demo_job 7 100)"
  using autoCleanup_exact [OF demo_daemon_ok(1) demo_find(1), of demo_env]
  by (simp add: expired_def demo_job_def split: if_splits)

end
