(* ===== verification/Api.thy ===== *)
theory Api
  imports Typing Events
begin

section \<open>Api: the client library, api.c\<close>

text \<open>
  \<open>src/src/api.c\<close>: connecting to the daemon, sending a request, reading its reply, and one function
  per command. The globals of the file are the record \<open>api\<close>; the operating system below it is the
  record \<open>net\<close>: which socket paths accept a connection, what the calls of \<open>send\<close> and \<open>recv\<close> return one
  after the other, and the bytes the daemon has been sent. A call either returns a value with the new
  state, or waits for an event that has not come, or crashes. Freeing memory and the diagnostics on
  \<open>stderr\<close> are left out, and so are the receive timeouts: a timeout is an error that \<open>recv\<close> reports.
\<close>

unbundle bit_operations_syntax

abbreviation (input) JERS_ERR_OK :: int where "JERS_ERR_OK \<equiv> 0"
abbreviation (input) JERS_ERR_INIT :: int where "JERS_ERR_INIT \<equiv> 12"
abbreviation (input) JERS_ERR_MEM :: int where "JERS_ERR_MEM \<equiv> 15"
abbreviation (input) JERS_ERR_INVRESP :: int where "JERS_ERR_INVRESP \<equiv> 16"
abbreviation (input) JERS_ERR_ERECV :: int where "JERS_ERR_ERECV \<equiv> 17"
abbreviation (input) JERS_ERR_ESEND :: int where "JERS_ERR_ESEND \<equiv> 18"
abbreviation (input) JERS_ERR_DISCONNECT :: int where "JERS_ERR_DISCONNECT \<equiv> 19"
abbreviation (input) JERS_FILTER_SUBMITTER :: flags where "JERS_FILTER_SUBMITTER \<equiv> 0x0100"
abbreviation (input) SIGRTMAX :: int where "SIGRTMAX \<equiv> 64"

subsection \<open>State\<close>

text \<open>What one call of \<open>send\<close> takes, and what one call of \<open>recv\<close> finds.\<close>

datatype send_event = Sent nat | SendInterrupted | SendError string

datatype recv_event = Arrived string | RecvInterrupted | RecvError | Closed

record net =
  n_socket :: bool
  n_listening :: "string list"
  n_sockopt :: bool
  n_sends :: "send_event list"
  n_recvs :: "recv_event list"
  n_wire :: string

record api =
  ap_errno :: int
  ap_err_string :: "string option"
  ap_socket_path :: "string list"
  ap_fd :: bool
  ap_response :: buff
  ap_initalised :: bool
  ap_net :: net

datatype 'a called = Returned 'a api | Waiting api | Crashed fault

definition setJersErrno :: "int \<Rightarrow> string option \<Rightarrow> api \<Rightarrow> api" where
  "setJersErrno err m a = a\<lparr>ap_errno := err, ap_err_string := m\<rparr>"

definition getErrString :: "api \<Rightarrow> int \<Rightarrow> string" where
  "getErrString a e =
     (if e < 0 \<or> e > JERS_ERR_UNKNOWN then ''Invalid jers_errno provided''
      else case ap_err_string a of Some t \<Rightarrow> t | None \<Rightarrow> getErrMsg e)"

subsection \<open>Connecting\<close>

definition customInit :: "string \<Rightarrow> api \<Rightarrow> int \<times> api" where
  "customInit custom_config a = (0, a)"

definition defaultInit :: "api \<Rightarrow> int \<times> api" where
  "defaultInit a = (0, a\<lparr>ap_socket_path := [''/run/jers/jers.sock'', ''/run/jers/proxy.sock'']\<rparr>)"

text \<open>
  \<open>jersConnect\<close> takes the first path that accepts; a path is cut to the 107 bytes of a socket
  address. On a failure behind \<open>socket\<close> the descriptor stays open.
\<close>

definition jersConnect :: "api \<Rightarrow> int \<times> api" where
  "jersConnect a =
     (if \<not> n_socket (ap_net a) then (1, a\<lparr>ap_fd := False\<rparr>)
      else if list_ex (\<lambda>p. take 107 p \<in> set (n_listening (ap_net a))) (ap_socket_path a) \<and> n_sockopt (ap_net a)
      then (0, a\<lparr>ap_fd := True\<rparr>)
      else (1, a\<lparr>ap_fd := True\<rparr>))"

text \<open>The result of \<open>buffNew\<close> is not looked at; without memory the size is set and the block is NULL.\<close>

definition new_response :: "allocator \<Rightarrow> buff" where
  "new_response alloc =
     (case buffNew alloc 0 of Some b \<Rightarrow> b | None \<Rightarrow> \<lparr>bdata = [], bsize = BUFF_DEFAULT_SIZE\<rparr>)"

definition jersInitAPI :: "allocator \<Rightarrow> string option \<Rightarrow> api \<Rightarrow> int \<times> api" where
  "jersInitAPI alloc custom_config a =
     (if ap_initalised a \<and> custom_config = None then (0, setJersErrno JERS_ERR_OK None a)
      else
        (let (rc, a) = (case custom_config of Some c \<Rightarrow> customInit c a | None \<Rightarrow> defaultInit a)
         in if rc \<noteq> 0 then (rc, setJersErrno JERS_ERR_INIT (Some ''Init routine failed'') a)
            else
              (let (failed, a) = jersConnect a
               in if failed \<noteq> 0 then (1, setJersErrno JERS_ERR_INIT (Some ''Failed to connect'') a)
                  else (rc, a\<lparr>ap_response := new_response alloc, ap_initalised := True\<rparr>))))"

definition jersFinish :: "api \<Rightarrow> api" where
  "jersFinish a =
     setJersErrno JERS_ERR_OK None
       (a\<lparr>ap_response := buffFree (ap_response a), ap_initalised := False, ap_fd := False\<rparr>)"

subsection \<open>Sending a request\<close>

text \<open>
  The loop of \<open>sendRequest\<close>: \<open>total_sent\<close> is a \<open>size_t\<close>, and the \<open>-1\<close> of an interrupted call is
  added to it. The bytes handed to the system are those from \<open>total_sent\<close> on. The result is the
  status, \<open>None\<close> while the call waits, the events left and the bytes sent.
\<close>

fun send_loop :: "string \<Rightarrow> nat \<Rightarrow> send_event list \<Rightarrow> string \<Rightarrow> (string option) option \<times> send_event list \<times> string" where
  "send_loop request total_sent evs wire =
     (if length request \<le> total_sent then (Some None, evs, wire)
      else case evs of
             [] \<Rightarrow> (None, [], wire)
           | Sent n # evs \<Rightarrow>
               (let out = take n (drop total_sent request)
                in send_loop request (total_sent + length out) evs (wire @ out))
           | SendInterrupted # evs \<Rightarrow> send_loop request ((total_sent + size_max - 1) mod size_max) evs wire
           | SendError e # evs \<Rightarrow> (Some (Some e), evs, wire))"

declare send_loop.simps [simp del]

definition sendRequest :: "string \<Rightarrow> api \<Rightarrow> int called" where
  "sendRequest request a =
     (case send_loop request 0 (n_sends (ap_net a)) (n_wire (ap_net a)) of
        (st, evs, wire) \<Rightarrow>
          (let a = a\<lparr>ap_net := (ap_net a)\<lparr>n_sends := evs, n_wire := wire\<rparr>\<rparr>
           in case st of
                None \<Rightarrow> Waiting a
              | Some None \<Rightarrow> Returned 0 a
              | Some (Some e) \<Rightarrow> Returned 1 (setJersErrno JERS_ERR_ESEND (Some e) a)))"

subsection \<open>Reading a reply\<close>

text \<open>
  The loop of \<open>readResponse\<close>: one call of \<open>recv\<close> gives at most the room that is left, what it does
  not take stays for the next call. The search for the end of the line starts at \<open>checked\<close> and covers
  as many bytes as were read. \<open>LineEnd p\<close> is the position of the newline.
\<close>

datatype received = Pending | Failed int | LineEnd nat

definition memchr_nl :: "string \<Rightarrow> nat \<Rightarrow> nat \<Rightarrow> nat option" where
  "memchr_nl buf from n =
     (let w = take n (drop from buf)
      in if NL \<in> set w then Some (from + length (takeWhile (\<lambda>c. c \<noteq> NL) w)) else None)"

definition event_size :: "recv_event \<Rightarrow> nat" where
  "event_size e = (case e of Arrived d \<Rightarrow> Suc (length d) | _ \<Rightarrow> 1)"

lemma event_size_simps [simp]:
  "event_size (Arrived d) = Suc (length d)" "event_size RecvInterrupted = 1" "event_size RecvError = 1" "event_size Closed = 1"
  by (simp_all add: event_size_def)

function recv_loop :: "allocator \<Rightarrow> nat \<Rightarrow> recv_event list \<Rightarrow> buff \<Rightarrow> fault + received \<times> recv_event list \<times> buff" where
  "recv_loop alloc checked evs b =
     (case buffResize alloc b 0 of
        Inl e \<Rightarrow> Inl e
      | Inr (failed, moved, b) \<Rightarrow>
          if failed then Inr (Failed JERS_ERR_MEM, evs, b)
          else case evs of
                 [] \<Rightarrow> Inr (Pending, [], b)
               | RecvInterrupted # evs \<Rightarrow> recv_loop alloc checked evs b
               | RecvError # evs \<Rightarrow> Inr (Failed JERS_ERR_ERECV, evs, b)
               | Closed # evs \<Rightarrow> Inr (Failed JERS_ERR_DISCONNECT, evs, b)
               | Arrived d # evs \<Rightarrow>
                   (let room = bsize b - length (bdata b); got = take room d; left = drop room d;
                        evs = (if left = [] then evs else Arrived left # evs);
                        b = b\<lparr>bdata := bdata b @ got\<rparr>
                    in if got = [] then Inr (Failed JERS_ERR_DISCONNECT, evs, b)
                       else case memchr_nl (bdata b) checked (length got) of
                              Some p \<Rightarrow> Inr (LineEnd p, evs, b)
                            | None \<Rightarrow> recv_loop alloc (length (bdata b)) evs b))"
  by pat_completeness auto
termination
  by (relation "measure (\<lambda>(alloc, checked, evs, b). sum_list (map event_size evs))")
     (auto simp: Let_def)

declare recv_loop.simps [simp del]

text \<open>
  The line is loaded up to its newline, which is overwritten by a NUL, and removed from the buffer only
  when it could be parsed.
\<close>

definition take_reply :: "allocator \<Rightarrow> 8 word list \<Rightarrow> nat \<Rightarrow> api \<Rightarrow> (msg option) called" where
  "take_reply alloc fresh p a =
     (case load_message fresh (Some sortfields) (c_str (take p (bdata (ap_response a)))) of
        OutOfBounds \<Rightarrow> Crashed NullPointer
      | Refused \<Rightarrow>
          Returned None (setJersErrno JERS_ERR_INVRESP None
            (a\<lparr>ap_response := (ap_response a)\<lparr>bdata := (bdata (ap_response a))[p := CHR 0x00]\<rparr>\<rparr>))
      | Loaded m \<Rightarrow>
          (case buffRemove alloc (ap_response a) (Suc p) False of
             Inl e \<Rightarrow> Crashed e
           | Inr b \<Rightarrow>
               (let a = a\<lparr>ap_response := b\<rparr>
                in case m_error m of
                     Some t \<Rightarrow> Returned None (setJersErrno (fst (getJersErrno t)) (snd (getJersErrno t)) a)
                   | None \<Rightarrow> Returned (Some m) a)))"

definition readResponse :: "allocator \<Rightarrow> 8 word list \<Rightarrow> api \<Rightarrow> (msg option) called" where
  "readResponse alloc fresh a =
     (case recv_loop alloc 0 (n_recvs (ap_net a)) (ap_response a) of
        Inl e \<Rightarrow> Crashed e
      | Inr (res, evs, b) \<Rightarrow>
          (let a = a\<lparr>ap_response := b, ap_net := (ap_net a)\<lparr>n_recvs := evs\<rparr>\<rparr>
           in case res of
                Pending \<Rightarrow> Waiting a
              | Failed err \<Rightarrow> Returned None (setJersErrno err None a)
              | LineEnd p \<Rightarrow> take_reply alloc fresh p a))"

subsection \<open>One exchange\<close>

text \<open>
  What every function of the library does behind its checks: the request is written, sent and closed
  and the reply is read. \<open>failed\<close> is what the function returns on a failure, \<open>k\<close> what it does with
  the reply. Without memory for the request the writers store through NULL.
\<close>

definition exchange ::
  "allocator \<Rightarrow> 8 word list \<Rightarrow> string \<Rightarrow> field list \<Rightarrow> 'a \<Rightarrow> (msg \<Rightarrow> api \<Rightarrow> 'a called) \<Rightarrow> api \<Rightarrow> 'a called" where
  "exchange alloc fresh name fs failed k a =
     (case write_request alloc name 1 fs of
        None \<Rightarrow> Crashed NullPointer
      | Some (Inl e) \<Rightarrow> Crashed e
      | Some (Inr b) \<Rightarrow>
          (case sendRequest (bdata b) a of
             Crashed e \<Rightarrow> Crashed e
           | Waiting a \<Rightarrow> Waiting a
           | Returned rc a \<Rightarrow>
               if rc \<noteq> 0 then Returned failed a
               else (case readResponse alloc fresh a of
                       Crashed e \<Rightarrow> Crashed e
                     | Waiting a \<Rightarrow> Waiting a
                     | Returned None a \<Rightarrow> Returned failed a
                     | Returned (Some m) a \<Rightarrow> k m a)))"

definition with_api :: "allocator \<Rightarrow> 'a \<Rightarrow> (api \<Rightarrow> 'a called) \<Rightarrow> api \<Rightarrow> 'a called" where
  "with_api alloc failed k a =
     (let (rc, a) = jersInitAPI alloc None a in if rc \<noteq> 0 then Returned failed a else k a)"

definition refuse :: "int \<Rightarrow> string option \<Rightarrow> 'a \<Rightarrow> api \<Rightarrow> 'a called" where
  "refuse err m failed a = Returned failed (setJersErrno err m a)"

text \<open>A function that only reports success.\<close>

definition simple_exchange :: "allocator \<Rightarrow> 8 word list \<Rightarrow> string \<Rightarrow> field list \<Rightarrow> api \<Rightarrow> int called" where
  "simple_exchange alloc fresh name fs = exchange alloc fresh name fs 1 (\<lambda>m. Returned 0)"

subsection \<open>Jobs\<close>

record jersJobAddArg = jersJobAdd +
  ja_env_unset :: bool
  ja_envs_null :: bool

definition jersInitJobAdd :: jersJobAddArg where
  "jersInitJobAdd =
     \<lparr>ja_jobid = 0, ja_name = None, ja_queue = None, ja_uid = 0, ja_shell = None, ja_wrapper = None,
      ja_pre_cmd = None, ja_post_cmd = None, ja_stdout = None, ja_stderr = None, ja_defer_time = -1,
      ja_nice = 0, ja_priority = UNSET_32, ja_hold = 0, ja_argv = [],
      ja_envs = [], ja_tags = [], ja_resources = [], ja_flags = 0, ja_env_unset = True, ja_envs_null = True\<rparr>"

definition add_job_fields :: "jersJobAddArg \<Rightarrow> field list" where
  "add_job_fields j =
     [array_field ARGS (ja_argv j)] @
     opt_str JOBNAME (ja_name j) @
     opt_str QUEUENAME (ja_queue j) @
     (if ja_uid j > 0 then [num_field UID (ja_uid j)] else []) @
     opt_str SHELL (ja_shell j) @
     (if ja_priority j \<noteq> UNSET_32 then [num_field PRIORITY (ja_priority j)] else []) @
     (if ja_hold j \<noteq> 0 then [bool_field HOLD True] else []) @
     opt_num NICE (ja_nice j) @
     (if ja_tags j \<noteq> [] then [map_field TAGS (ja_tags j)] else []) @
     (if ja_resources j \<noteq> [] then [array_field RESOURCES (ja_resources j)] else []) @
     (if \<not> ja_env_unset j then [array_field ENVS (ja_envs j)] else []) @
     (if ja_jobid j \<noteq> 0 then [num_field JOBID (int (ja_jobid j))] else []) @
     (case ja_wrapper j of
        Some wr \<Rightarrow> [str_field WRAPPER (Some wr)]
      | None \<Rightarrow> opt_str PRECMD (ja_pre_cmd j) @ opt_str POSTCMD (ja_post_cmd j)) @
     opt_str STDOUT (ja_stdout j) @
     opt_str STDERR (ja_stderr j) @
     (if ja_defer_time j \<noteq> -1 then [num_field DEFERTIME (ja_defer_time j)] else []) @
     opt_num FLAGS (ja_flags j)"

text \<open>The reply to a submission must hold one object with one field, the jobid.\<close>

definition new_jobid :: "msg \<Rightarrow> api \<Rightarrow> nat called" where
  "new_jobid m a =
     (case m_items m of
        [it] \<Rightarrow>
          (case item_fields it of
             [f] \<Rightarrow> if f_number f = JOBID then Returned (jobid_of f) a else refuse JERS_ERR_INVRESP None 0 a
           | _ \<Rightarrow> refuse JERS_ERR_INVRESP None 0 a)
      | _ \<Rightarrow> refuse JERS_ERR_INVRESP None 0 a)"

definition jersAddJob :: "allocator \<Rightarrow> 8 word list \<Rightarrow> jersJobAddArg option \<Rightarrow> api \<Rightarrow> nat called" where
  "jersAddJob alloc fresh jo =
     with_api alloc 0 (\<lambda>a.
       case jo of
         None \<Rightarrow> refuse JERS_ERR_INVARG None 0 a
       | Some j \<Rightarrow>
           if ja_argv j = [] then refuse JERS_ERR_INVARG (Some ''argc/argv must be populated'') 0 a
           else if \<not> ja_env_unset j \<and> ja_envs j \<noteq> [] \<and> ja_envs_null j
           then refuse JERS_ERR_INVARG (Some ''env_count populated, but env not passed'') 0 a
           else exchange alloc fresh ''JOB_ADD'' (add_job_fields j) 0 new_jobid a)"

text \<open>\<open>jersInitJobMod\<close> sets the members as the deserializer of the daemon does.\<close>

definition jersInitJobMod :: jersJobMod where
  "jersInitJobMod =
     \<lparr>jm_jobid = 0, jm_name = None, jm_queue = None, jm_defer_time = UNSET_TIME_T, jm_restart = 0,
      jm_nice = UNSET_32, jm_priority = UNSET_32, jm_hold = UNSET_8, jm_clear_resources = 0,
      jm_envs = None, jm_tags = None, jm_resources = None\<rparr>"

definition mod_job_fields :: "jersJobMod \<Rightarrow> field list" where
  "mod_job_fields j =
     [num_field JOBID (int (jm_jobid j))] @
     opt_str JOBNAME (jm_name j) @
     opt_str QUEUENAME (jm_queue j) @
     (if jm_defer_time j \<noteq> UNSET_TIME_T then [num_field DEFERTIME (jm_defer_time j)] else []) @
     (if jm_restart j \<noteq> 0 then [bool_field RESTART True] else []) @
     (if jm_nice j \<noteq> UNSET_32 then [num_field NICE (jm_nice j)] else []) @
     (if jm_priority j \<noteq> UNSET_32 then [num_field PRIORITY (jm_priority j)] else []) @
     (if jm_hold j \<noteq> UNSET_8 then [bool_field HOLD (jm_hold j \<noteq> 0)] else []) @
     (case jm_envs j of Some es \<Rightarrow> [array_field ENVS es] | None \<Rightarrow> []) @
     (case jm_tags j of Some ts \<Rightarrow> [map_field TAGS ts] | None \<Rightarrow> []) @
     (case jm_resources j of Some rs \<Rightarrow> [array_field RESOURCES rs] | None \<Rightarrow> []) @
     (if jm_clear_resources j \<noteq> 0 then [bool_field CLEARRES True] else [])"

definition jersModJob :: "allocator \<Rightarrow> 8 word list \<Rightarrow> jersJobMod \<Rightarrow> api \<Rightarrow> int called" where
  "jersModJob alloc fresh j =
     with_api alloc 1 (\<lambda>a.
       if jm_jobid j = 0 then refuse JERS_ERR_INVARG (Some ''No jobid provided'') 1 a
       else simple_exchange alloc fresh ''JOB_MOD'' (mod_job_fields j) a)"

definition jersDelJob :: "allocator \<Rightarrow> 8 word list \<Rightarrow> nat \<Rightarrow> api \<Rightarrow> int called" where
  "jersDelJob alloc fresh jobid =
     with_api alloc 1 (simple_exchange alloc fresh ''JOB_DEL'' [num_field JOBID (int jobid)])"

definition jersSignalJob :: "allocator \<Rightarrow> 8 word list \<Rightarrow> nat \<Rightarrow> int \<Rightarrow> api \<Rightarrow> int called" where
  "jersSignalJob alloc fresh jobid signum =
     with_api alloc 1 (\<lambda>a.
       if jobid = 0 then refuse JERS_ERR_INVARG (Some ''No jobid provided'') 1 a
       else if signum < 0 \<or> signum \<ge> SIGRTMAX then refuse JERS_ERR_INVARG (Some ''Invalid signum provided'') 1 a
       else exchange alloc fresh ''JOB_SIG'' [num_field JOBID (int jobid), num_field SIGNAL signum] 1
              (\<lambda>m. Returned (if m_command m = Some ''0'' then 0 else 1)) a)"

definition jersWaitJob :: "allocator \<Rightarrow> 8 word list \<Rightarrow> nat \<Rightarrow> int \<Rightarrow> int \<Rightarrow> api \<Rightarrow> int called" where
  "jersWaitJob alloc fresh jobid revision timeout =
     with_api alloc 1 (simple_exchange alloc fresh ''JOB_WAIT''
       [num_field JOBID (int jobid), num_field REVISION revision, num_field TIMEOUT timeout])"

definition jersSetTag :: "allocator \<Rightarrow> 8 word list \<Rightarrow> nat \<Rightarrow> string option \<Rightarrow> string option \<Rightarrow> api \<Rightarrow> int called" where
  "jersSetTag alloc fresh jobid key v =
     with_api alloc 1 (simple_exchange alloc fresh ''TAG_SET''
       ([num_field JOBID (int jobid), str_field TAG_KEY key] @ opt_str TAG_VALUE v))"

definition jersDelTag :: "allocator \<Rightarrow> 8 word list \<Rightarrow> nat \<Rightarrow> string option \<Rightarrow> api \<Rightarrow> int called" where
  "jersDelTag alloc fresh jobid key =
     with_api alloc 1 (simple_exchange alloc fresh ''TAG_DEL''
       [num_field JOBID (int jobid), str_field TAG_KEY key])"

text \<open>A job as the library hands it to its caller; the members that no reply carries stay zero.\<close>

record jersJob =
  jj_jobid :: nat
  jj_jobname :: "string option"
  jj_queue :: "string option"
  jj_priority :: int
  jj_state :: int
  jj_nice :: int
  jj_uid :: int
  jj_submitter :: int
  jj_pid :: int
  jj_exit_code :: int
  jj_signal :: int
  jj_shell :: "string option"
  jj_pre_command :: "string option"
  jj_post_command :: "string option"
  jj_stdout :: "string option"
  jj_stderr :: "string option"
  jj_argv :: "string option list"
  jj_node :: "string option"
  jj_pend_reason :: int
  jj_fail_reason :: int
  jj_submit_time :: int
  jj_defer_time :: int
  jj_start_time :: int
  jj_finish_time :: int
  jj_tags :: "(string \<times> string option) list"
  jj_resources :: "string option list"
  jj_revision :: int
  jj_envs :: "string option list"

definition jersJob_zero :: jersJob where
  "jersJob_zero =
     \<lparr>jj_jobid = 0, jj_jobname = None, jj_queue = None, jj_priority = 0, jj_state = 0, jj_nice = 0, jj_uid = 0,
      jj_submitter = 0, jj_pid = 0, jj_exit_code = 0, jj_signal = 0, jj_shell = None, jj_pre_command = None,
      jj_post_command = None, jj_stdout = None, jj_stderr = None, jj_argv = [], jj_node = None, jj_pend_reason = 0,
      jj_fail_reason = 0, jj_submit_time = 0, jj_defer_time = 0, jj_start_time = 0, jj_finish_time = 0, jj_tags = [],
      jj_resources = [], jj_revision = 0, jj_envs = []\<rparr>"

definition job_field :: "field \<Rightarrow> jersJob \<Rightarrow> jersJob" where
  "job_field f j =
     (let n = f_number f; v = getNumberField f; t = Some (getStringOf f)
      in if n = JOBID then j\<lparr>jj_jobid := jobid_of f\<rparr>
         else if n = JOBNAME then j\<lparr>jj_jobname := t\<rparr>
         else if n = QUEUENAME then j\<lparr>jj_queue := t\<rparr>
         else if n = EXITCODE then j\<lparr>jj_exit_code := int32 v\<rparr>
         else if n = SIGNAL then j\<lparr>jj_signal := int32 v\<rparr>
         else if n = PRIORITY then j\<lparr>jj_priority := int32 v\<rparr>
         else if n = STATE then j\<lparr>jj_state := int32 v\<rparr>
         else if n = NICE then j\<lparr>jj_nice := int32 v\<rparr>
         else if n = UID then j\<lparr>jj_uid := uint32 v\<rparr>
         else if n = SUBMITTER then j\<lparr>jj_submitter := uint32 v\<rparr>
         else if n = SHELL then j\<lparr>jj_shell := t\<rparr>
         else if n = PRECMD then j\<lparr>jj_pre_command := t\<rparr>
         else if n = POSTCMD then j\<lparr>jj_post_command := t\<rparr>
         else if n = STDOUT then j\<lparr>jj_stdout := t\<rparr>
         else if n = STDERR then j\<lparr>jj_stderr := t\<rparr>
         else if n = ARGS then j\<lparr>jj_argv := getStringArrayField f\<rparr>
         else if n = DEFERTIME then j\<lparr>jj_defer_time := v\<rparr>
         else if n = SUBMITTIME then j\<lparr>jj_submit_time := v\<rparr>
         else if n = STARTTIME then j\<lparr>jj_start_time := v\<rparr>
         else if n = FINISHTIME then j\<lparr>jj_finish_time := v\<rparr>
         else if n = TAGS then j\<lparr>jj_tags := getStringMapField f\<rparr>
         else if n = RESOURCES then j\<lparr>jj_resources := getStringArrayField f\<rparr>
         else if n = NODE then j\<lparr>jj_node := t\<rparr>
         else if n = PENDREASON then j\<lparr>jj_pend_reason := int32 v\<rparr>
         else if n = FAILREASON then j\<lparr>jj_fail_reason := int32 v\<rparr>
         else if n = JOBPID then j\<lparr>jj_pid := int32 v\<rparr>
         else if n = REVISION then j\<lparr>jj_revision := v\<rparr>
         else if n = ENVS then j\<lparr>jj_envs := getStringArrayField f\<rparr>
         else j)"

definition deserialize_jersJob :: "msg_item \<Rightarrow> jersJob" where
  "deserialize_jersJob it = fold job_field (item_fields it) jersJob_zero"

text \<open>The filter of the caller; the times of \<open>after\<close> are only sent when the ones of \<open>before\<close> are set.\<close>

record jersJobFilterArg = jersJobFilter +
  jf_submitter :: int

definition wants :: "jersJobFilterArg \<Rightarrow> flags \<Rightarrow> field list \<Rightarrow> field list" where
  "wants f b fs = (if has_flag (jf_filter_fields f) b then fs else [])"

definition get_job_fields :: "nat \<Rightarrow> jersJobFilterArg option \<Rightarrow> field list" where
  "get_job_fields jobid filt =
     (if jobid \<noteq> 0 then [num_field JOBID (int jobid)]
      else case filt of
             None \<Rightarrow> []
           | Some f \<Rightarrow>
               (if jf_filter_fields f \<noteq> 0 then
                  wants f JERS_FILTER_JOBNAME [str_field JOBNAME (jf_job_name f)] @
                  wants f JERS_FILTER_QUEUE [str_field QUEUENAME (jf_queue_name f)] @
                  wants f JERS_FILTER_STATE [num_field STATE (sint (jf_state f))] @
                  wants f JERS_FILTER_TAGS [map_field TAGS (jf_tags f)] @
                  wants f JERS_FILTER_RESOURCES [array_field RESOURCES (jf_resources f)] @
                  wants f JERS_FILTER_UID [num_field UID (jf_uid f)] @
                  wants f JERS_FILTER_SUBMITTER [num_field SUBMITTER (jf_submitter f)] @
                  wants f JERS_FILTER_BEFORE
                    (opt_num BEFORE_ADDED (jf_before_added f) @ opt_num BEFORE_STARTED (jf_before_started f) @
                     opt_num BEFORE_FINISHED (jf_before_finished f)) @
                  wants f JERS_FILTER_AFTER
                    ((if jf_before_added f \<noteq> 0 then [num_field AFTER_ADDED (jf_after_added f)] else []) @
                     (if jf_before_started f \<noteq> 0 then [num_field AFTER_STARTED (jf_after_started f)] else []) @
                     (if jf_before_finished f \<noteq> 0 then [num_field AFTER_FINISHED (jf_after_finished f)] else []))
                else []) @
               opt_num RETFIELDS (jf_return_fields f))"

text \<open>
  The functions that return objects: the status and, once the structure of the caller has been
  written, its contents.
\<close>

definition jersGetJob :: "allocator \<Rightarrow> 8 word list \<Rightarrow> nat \<Rightarrow> jersJobFilterArg option \<Rightarrow> api \<Rightarrow> (int \<times> jersJob list option) called" where
  "jersGetJob alloc fresh jobid filt =
     with_api alloc (1, None)
       (exchange alloc fresh ''JOB_GET'' (get_job_fields jobid filt) (1, Some [])
          (\<lambda>m. Returned (0, Some (map deserialize_jersJob (m_items m)))))"

subsection \<open>Queues\<close>

definition jersInitQueueAdd :: jersQueueAdd where
  "jersInitQueueAdd =
     \<lparr>qa_name = None, qa_node = None, qa_desc = None, qa_state = UNSET_32, qa_job_limit = UNSET_32,
      qa_priority = UNSET_32, qa_default_queue = UNSET_32, qa_nice = UNSET_32\<rparr>"

definition jersInitQueueMod :: jersQueueAdd where
  "jersInitQueueMod = jersInitQueueAdd"

definition set32 :: "nat \<Rightarrow> int \<Rightarrow> field list" where
  "set32 n v = (if v \<noteq> UNSET_32 then [num_field n v] else [])"

definition queue_settings :: "jersQueueAdd \<Rightarrow> field list" where
  "queue_settings q =
     opt_str DESC (qa_desc q) @ set32 JOBLIMIT (qa_job_limit q) @ set32 PRIORITY (qa_priority q) @
     set32 STATE (qa_state q) @
     (if qa_default_queue q \<noteq> UNSET_32 then [bool_field DEFAULT (qa_default_queue q \<noteq> 0)] else []) @
     set32 NICE (qa_nice q)"

definition jersAddQueue :: "allocator \<Rightarrow> 8 word list \<Rightarrow> jersQueueAdd \<Rightarrow> api \<Rightarrow> int called" where
  "jersAddQueue alloc fresh q =
     with_api alloc 1 (\<lambda>a.
       if qa_name q = None then refuse JERS_ERR_INVARG (Some ''No queue name provided'') 1 a
       else if qa_node q = None then refuse JERS_ERR_INVARG (Some ''No node provided'') 1 a
       else simple_exchange alloc fresh ''QUEUE_ADD''
              ([str_field QUEUENAME (qa_name q), str_field NODE (qa_node q)] @ queue_settings q) a)"

definition jersModQueue :: "allocator \<Rightarrow> 8 word list \<Rightarrow> jersQueueAdd \<Rightarrow> api \<Rightarrow> int called" where
  "jersModQueue alloc fresh q =
     with_api alloc 1 (\<lambda>a.
       if qa_name q = None then refuse JERS_ERR_INVARG (Some ''No queue name provided'') 1 a
       else if qa_desc q = None \<and> qa_node q = None \<and> qa_job_limit q = -1 \<and> qa_priority q = -1 \<and>
               qa_state q = -1 \<and> qa_default_queue q = -1
       then refuse JERS_ERR_NOCHANGE None 1 a
       else simple_exchange alloc fresh ''QUEUE_MOD''
              ([str_field QUEUENAME (qa_name q)] @ opt_str NODE (qa_node q) @ queue_settings q) a)"

definition jersDelQueue :: "allocator \<Rightarrow> 8 word list \<Rightarrow> string option \<Rightarrow> api \<Rightarrow> int called" where
  "jersDelQueue alloc fresh name =
     with_api alloc 1 (simple_exchange alloc fresh ''QUEUE_DEL'' [str_field QUEUENAME name])"

record jersQueue =
  jq_name :: "string option"
  jq_desc :: "string option"
  jq_node :: "string option"
  jq_job_limit :: int
  jq_state :: int
  jq_priority :: int
  jq_default_queue :: int
  jq_nice :: int
  jq_stats :: jobStats

definition jersQueue_zero :: jersQueue where
  "jersQueue_zero =
     \<lparr>jq_name = None, jq_desc = None, jq_node = None, jq_job_limit = 0, jq_state = 0, jq_priority = 0,
      jq_default_queue = 0, jq_nice = 0, jq_stats = stats_zero\<rparr>"

definition queue_info_field :: "field \<Rightarrow> jersQueue \<Rightarrow> jersQueue" where
  "queue_info_field f q =
     (let n = f_number f; v = getNumberField f; t = Some (getStringOf f); st = jq_stats q
      in if n = QUEUENAME then q\<lparr>jq_name := t\<rparr>
         else if n = DESC then q\<lparr>jq_desc := t\<rparr>
         else if n = NODE then q\<lparr>jq_node := t\<rparr>
         else if n = JOBLIMIT then q\<lparr>jq_job_limit := int32 v\<rparr>
         else if n = STATE then q\<lparr>jq_state := int32 v\<rparr>
         else if n = PRIORITY then q\<lparr>jq_priority := int32 v\<rparr>
         else if n = DEFAULT then q\<lparr>jq_default_queue := getBoolField f\<rparr>
         else if n = NICE then q\<lparr>jq_nice := int32 v\<rparr>
         else if n = STATSRUNNING then q\<lparr>jq_stats := st\<lparr>st_running := v\<rparr>\<rparr>
         else if n = STATSPENDING then q\<lparr>jq_stats := st\<lparr>st_pending := v\<rparr>\<rparr>
         else if n = STATSHOLDING then q\<lparr>jq_stats := st\<lparr>st_holding := v\<rparr>\<rparr>
         else if n = STATSDEFERRED then q\<lparr>jq_stats := st\<lparr>st_deferred := v\<rparr>\<rparr>
         else if n = STATSCOMPLETED then q\<lparr>jq_stats := st\<lparr>st_completed := v\<rparr>\<rparr>
         else if n = STATSEXITED then q\<lparr>jq_stats := st\<lparr>st_exited := v\<rparr>\<rparr>
         else q)"

definition deserialize_jersQueue :: "msg_item \<Rightarrow> jersQueue" where
  "deserialize_jersQueue it = fold queue_info_field (item_fields it) jersQueue_zero"

text \<open>A failed connection makes \<open>jersGetQueue\<close> return 0.\<close>

definition jersGetQueue :: "allocator \<Rightarrow> 8 word list \<Rightarrow> string option \<Rightarrow> api \<Rightarrow> (int \<times> jersQueue list option) called" where
  "jersGetQueue alloc fresh name =
     with_api alloc (0, None)
       (exchange alloc fresh ''QUEUE_GET'' [str_field QUEUENAME (Some (case name of Some n \<Rightarrow> n | None \<Rightarrow> ''*''))] (1, Some [])
          (\<lambda>m. Returned (0, Some (map deserialize_jersQueue (m_items m)))))"

subsection \<open>Resources, agents, statistics\<close>

definition jersAddResource :: "allocator \<Rightarrow> 8 word list \<Rightarrow> string option \<Rightarrow> int \<Rightarrow> api \<Rightarrow> int called" where
  "jersAddResource alloc fresh name n =
     with_api alloc 1 (\<lambda>a.
       if name = None then refuse JERS_ERR_INVARG None 1 a
       else simple_exchange alloc fresh ''RESOURCE_ADD'' ([str_field RESNAME name] @ opt_num RESCOUNT n) a)"

definition jersModResource :: "allocator \<Rightarrow> 8 word list \<Rightarrow> string option \<Rightarrow> int \<Rightarrow> api \<Rightarrow> int called" where
  "jersModResource alloc fresh name new_count =
     with_api alloc 1 (simple_exchange alloc fresh ''RESOURCE_MOD'' [str_field RESNAME name, num_field RESCOUNT new_count])"

definition jersDelResource :: "allocator \<Rightarrow> 8 word list \<Rightarrow> string option \<Rightarrow> api \<Rightarrow> int called" where
  "jersDelResource alloc fresh name =
     with_api alloc 1 (simple_exchange alloc fresh ''RESOURCE_DEL'' [str_field RESNAME name])"

record jersResource =
  jr_name :: "string option"
  jr_count :: int
  jr_inuse :: int

definition deserialize_jersResource :: "msg_item \<Rightarrow> jersResource" where
  "deserialize_jersResource it =
     fold (\<lambda>f r. if f_number f = RESNAME then r\<lparr>jr_name := Some (getStringOf f)\<rparr>
                 else if f_number f = RESCOUNT then r\<lparr>jr_count := int32 (getNumberField f)\<rparr>
                 else if f_number f = RESINUSE then r\<lparr>jr_inuse := int32 (getNumberField f)\<rparr> else r)
       (item_fields it) \<lparr>jr_name = None, jr_count = 0, jr_inuse = 0\<rparr>"

definition jersGetResource :: "allocator \<Rightarrow> 8 word list \<Rightarrow> string option \<Rightarrow> api \<Rightarrow> (int \<times> jersResource list option) called" where
  "jersGetResource alloc fresh name =
     with_api alloc (1, None)
       (exchange alloc fresh ''RESOURCE_GET'' [str_field RESNAME (Some (case name of Some n \<Rightarrow> n | None \<Rightarrow> ''*''))] (1, Some [])
          (\<lambda>m. Returned (0, Some (map deserialize_jersResource (m_items m)))))"

record jersAgent =
  jg_host :: "string option"
  jg_connected :: int

definition deserialize_jersAgent :: "msg_item \<Rightarrow> jersAgent" where
  "deserialize_jersAgent it =
     fold (\<lambda>f g. if f_number f = NODE then g\<lparr>jg_host := Some (getStringOf f)\<rparr>
                 else if f_number f = CONNECTED then g\<lparr>jg_connected := getBoolField f\<rparr> else g)
       (item_fields it) \<lparr>jg_host = None, jg_connected = 0\<rparr>"

definition jersGetAgents :: "allocator \<Rightarrow> 8 word list \<Rightarrow> string option \<Rightarrow> api \<Rightarrow> (int \<times> jersAgent list option) called" where
  "jersGetAgents alloc fresh name =
     with_api alloc (1, None)
       (exchange alloc fresh ''AGENT_GET'' (opt_str NODE name) (1, Some [])
          (\<lambda>m. Returned (0, Some (map deserialize_jersAgent (m_items m)))))"

definition totals_zero :: total_stats where
  "totals_zero = \<lparr>t_submitted = 0, t_started = 0, t_completed = 0, t_exited = 0, t_deleted = 0, t_unknown = 0\<rparr>"

definition stats_field :: "field \<Rightarrow> jobStats \<times> total_stats \<Rightarrow> jobStats \<times> total_stats" where
  "stats_field f st =
     (let n = f_number f; v = getNumberField f; j = fst st; t = snd st
      in if n = STATSRUNNING then (j\<lparr>st_running := v\<rparr>, t)
         else if n = STATSPENDING then (j\<lparr>st_pending := v\<rparr>, t)
         else if n = STATSDEFERRED then (j\<lparr>st_deferred := v\<rparr>, t)
         else if n = STATSHOLDING then (j\<lparr>st_holding := v\<rparr>, t)
         else if n = STATSCOMPLETED then (j\<lparr>st_completed := v\<rparr>, t)
         else if n = STATSEXITED then (j\<lparr>st_exited := v\<rparr>, t)
         else if n = STATSUNKNOWN then (j\<lparr>st_unknown := v\<rparr>, t)
         else if n = STATSTOTALSUBMITTED then (j, t\<lparr>t_submitted := v\<rparr>)
         else if n = STATSTOTALSTARTED then (j, t\<lparr>t_started := v\<rparr>)
         else if n = STATSTOTALCOMPLETED then (j, t\<lparr>t_completed := v\<rparr>)
         else if n = STATSTOTALEXITED then (j, t\<lparr>t_exited := v\<rparr>)
         else if n = STATSTOTALDELETED then (j, t\<lparr>t_deleted := v\<rparr>)
         else if n = STATSTOTALUNKNOWN then (j, t\<lparr>t_unknown := v\<rparr>)
         else st)"

text \<open>The first object of the reply is read without looking at how many there are.\<close>

definition jersGetStats :: "allocator \<Rightarrow> 8 word list \<Rightarrow> api \<Rightarrow> (int \<times> (jobStats \<times> total_stats) option) called" where
  "jersGetStats alloc fresh =
     with_api alloc (1, None)
       (exchange alloc fresh ''STATS'' [] (1, Some (stats_zero, totals_zero))
          (\<lambda>m a. case m_items m of
                   [] \<Rightarrow> Crashed NullPointer
                 | it # _ \<Rightarrow> Returned (0, Some (fold stats_field (item_fields it) (stats_zero, totals_zero))) a))"

definition jersClearCache :: "allocator \<Rightarrow> 8 word list \<Rightarrow> api \<Rightarrow> int called" where
  "jersClearCache alloc fresh = with_api alloc 1 (simple_exchange alloc fresh ''CLEAR_CACHE'' [])"

section \<open>Transport\<close>

lemma send_loop_all:
  "length request \<le> t + sum_list ns \<Longrightarrow>
   \<exists>evs. send_loop request t (map Sent ns) w = (Some None, evs, w @ drop t request)"
proof (induction ns arbitrary: t w)
  case Nil
  then show ?case by (subst send_loop.simps) simp
next
  case (Cons n ns)
  show ?case
  proof (cases "length request \<le> t")
    case True
    then show ?thesis by (subst send_loop.simps) simp
  next
    case False
    let ?out = "take n (drop t request)"
    have split: "?out @ drop (t + length ?out) request = drop t request"
      by (cases "n \<le> length request - t") (simp_all add: add.commute flip: drop_drop)
    have "length request \<le> t + length ?out + sum_list ns" using Cons.prems by simp
    from Cons.IH [OF this, of "w @ ?out"] False split show ?thesis
      by (subst send_loop.simps) (simp add: Let_def)
  qed
qed

text \<open>The bytes that arrive, and event lists without an error or an end of the stream.\<close>

definition arrivals :: "recv_event list \<Rightarrow> string" where
  "arrivals evs = concat (map (\<lambda>e. case e of Arrived d \<Rightarrow> d | _ \<Rightarrow> []) evs)"

definition healthy :: "recv_event \<Rightarrow> bool" where
  "healthy e = (case e of Arrived d \<Rightarrow> d \<noteq> [] | RecvInterrupted \<Rightarrow> True | _ \<Rightarrow> False)"

lemma arrivals_simps [simp]:
  "arrivals [] = []" "arrivals (Arrived d # evs) = d @ arrivals evs" "arrivals (RecvInterrupted # evs) = arrivals evs"
  by (simp_all add: arrivals_def)

lemma healthy_simps [simp]:
  "healthy (Arrived d) \<longleftrightarrow> d \<noteq> []" "healthy RecvInterrupted" "\<not> healthy RecvError" "\<not> healthy Closed"
  by (simp_all add: healthy_def)

lemma buffResize_room:
  assumes "never_fails alloc" and "length (bdata b) < 2 ^ 62"
  obtains moved b' where "buffResize alloc b 0 = Inr (False, moved, b')" "bdata b' = bdata b" "length (bdata b) < bsize b'"
proof -
  have "roomy b BUFF_DEFAULT_SIZE" using assms(2) by (simp add: roomy_def BUFF_DEFAULT_SIZE_def)
  moreover have "buffResize alloc b 0 = buffResize alloc b BUFF_DEFAULT_SIZE" by (simp add: buffResize_def BUFF_DEFAULT_SIZE_def)
  moreover obtain moved b' where "buffResize alloc b BUFF_DEFAULT_SIZE = Inr (False, moved, b')" "bdata b' = bdata b"
    "length (bdata b) + BUFF_DEFAULT_SIZE \<le> bsize b'"
    by (rule buffResize_ok [OF calculation(1) assms(1)])
  ultimately show ?thesis using that [of moved b'] by (simp add: BUFF_DEFAULT_SIZE_def)
qed

text \<open>One call of \<open>recv\<close>, with room for at least one byte.\<close>

definition recv_split :: "nat \<Rightarrow> string \<Rightarrow> recv_event list \<Rightarrow> recv_event list" where
  "recv_split room d evs = (if drop room d = [] then evs else Arrived (drop room d) # evs)"

lemma recv_split_facts:
  "arrivals (recv_split room d evs) = drop room d @ arrivals evs"
  "list_all healthy evs \<Longrightarrow> list_all healthy (recv_split room d evs)"
  "0 < room \<Longrightarrow> d \<noteq> [] \<Longrightarrow> sum_list (map event_size (recv_split room d evs)) < Suc (length d) + sum_list (map event_size evs)"
  by (auto simp: recv_split_def)

lemma memchr_window:
  assumes "pre @ w = l @ NL # r" and "NL \<notin> set l" and "length pre \<le> length l" and "w = got @ rest"
  shows "memchr_nl (pre @ got) (length pre) (length got) = (if length l < length (pre @ got) then Some (length l) else None)"
proof -
  let ?m = "drop (length pre) l"
  have l: "l = pre @ ?m"
    using arg_cong [OF assms(1), of "take (length pre)"] assms(3) append_take_drop_id [of "length pre" l] by simp
  then have "pre @ w = pre @ ?m @ NL # r" using assms(1) by (metis append_assoc)
  then have w: "got @ rest = ?m @ NL # r" using assms(4) by simp
  have nl: "NL \<notin> set ?m" using assms(2) by (meson in_set_dropD)
  have len: "length pre + length ?m = length l" using assms(3) by simp
  show ?thesis
  proof (cases "length ?m < length got")
    case True
    have "take (length got) (?m @ NL # r) = got" using arg_cong [OF w, of "take (length got)"] by simp
    moreover obtain k where "length got - length ?m = Suc k" using True by (cases "length got - length ?m") simp_all
    ultimately have g: "got = ?m @ NL # take k r" using True by simp
    have "\<forall>c\<in>set ?m. c \<noteq> NL" using nl by blast
    then have "takeWhile (\<lambda>c. c \<noteq> NL) got = ?m" unfolding g by (subst takeWhile_append2) auto
    moreover have "NL \<in> set got" unfolding g by auto
    ultimately show ?thesis using True len by (simp add: memchr_nl_def)
  next
    case False
    have "take (length got) (?m @ NL # r) = got" using arg_cong [OF w, of "take (length got)"] by simp
    then have "got = take (length got) ?m" using False by simp
    then have "NL \<notin> set got" using nl by (metis in_set_takeD)
    then show ?thesis using False len by (simp add: memchr_nl_def)
  qed
qed

lemma recv_loop_line:
  assumes "never_fails alloc" and "NL \<notin> set l" and "length l + length r < 2 ^ 61"
  shows "list_all healthy evs \<Longrightarrow> bdata b @ arrivals evs = l @ NL # r \<Longrightarrow> length (bdata b) \<le> length l \<Longrightarrow>
    \<exists>evs' b'. recv_loop alloc (length (bdata b)) evs b = Inr (LineEnd (length l), evs', b') \<and> list_all healthy evs' \<and>
      bdata b' @ arrivals evs' = l @ NL # r \<and> length l < length (bdata b') \<and> buff_ok b'"
proof (induction "sum_list (map event_size evs)" arbitrary: evs b rule: less_induct)
  case less
  obtain moved b1 where b1: "buffResize alloc b 0 = Inr (False, moved, b1)" "bdata b1 = bdata b" "length (bdata b) < bsize b1"
  proof -
    have "length (bdata b) < 2 ^ 62" using less.prems(3) assms(3) by simp
    from buffResize_room [OF assms(1) this] show ?thesis using that by metis
  qed
  have "evs \<noteq> []" using less.prems(2,3) by (cases evs) (auto dest: arg_cong [where f=length])
  then obtain e evs1 where evs: "evs = e # evs1" by (cases evs) auto
  show ?case
  proof (cases e)
    case RecvInterrupted
    from less.hyps [of evs1 b1] less.prems evs RecvInterrupted b1(2)
    have "\<exists>evs' b'. recv_loop alloc (length (bdata b1)) evs1 b1 = Inr (LineEnd (length l), evs', b') \<and> list_all healthy evs' \<and>
      bdata b' @ arrivals evs' = l @ NL # r \<and> length l < length (bdata b') \<and> buff_ok b'" by simp
    then show ?thesis using b1 by (subst recv_loop.simps) (simp add: evs RecvInterrupted)
  next
    case (Arrived d)
    let ?room = "bsize b1 - length (bdata b)" and ?b = "b1\<lparr>bdata := bdata b @ take (bsize b1 - length (bdata b)) d\<rparr>"
    let ?evs = "recv_split ?room d evs1"
    have d: "d \<noteq> []" using less.prems(1) by (simp add: evs Arrived)
    have got: "take ?room d \<noteq> []" using d b1(3) by simp
    have whole: "take n d @ drop n d @ x = d @ x" for n x by (simp flip: append_assoc)
    have all: "bdata ?b @ arrivals ?evs = l @ NL # r"
      using less.prems(2) by (simp add: evs Arrived recv_split_facts whole)
    have chr: "memchr_nl (bdata ?b) (length (bdata b)) (length (take ?room d)) =
        (if length l < length (bdata ?b) then Some (length l) else None)"
      using memchr_window [OF less.prems(2) assms(2) less.prems(3), of "take ?room d" "drop ?room d @ arrivals evs1"]
      by (simp add: evs Arrived)
    have ok: "buff_ok ?b" using b1(3) by (simp add: buff_ok_def)
    have step: "recv_loop alloc (length (bdata b)) evs b =
        (case memchr_nl (bdata ?b) (length (bdata b)) (length (take ?room d)) of
           Some p \<Rightarrow> Inr (LineEnd p, ?evs, ?b) | None \<Rightarrow> recv_loop alloc (length (bdata ?b)) ?evs ?b)"
      using b1 got by (subst recv_loop.simps) (simp add: evs Arrived Let_def recv_split_def cong: option.case_cong)
    have healthy: "list_all healthy ?evs" using less.prems(1) by (simp add: evs recv_split_facts)
    show ?thesis
    proof (cases "length l < length (bdata ?b)")
      case True
      with step chr healthy all ok show ?thesis by auto
    next
      case False
      have "sum_list (map event_size ?evs) < sum_list (map event_size evs)"
        using recv_split_facts(3) [of ?room d evs1] b1(3) d by (simp add: evs Arrived)
      from less.hyps [OF this healthy all] False step chr show ?thesis by simp
    qed
  qed (use less.prems(1) evs in simp_all)
qed

subsection \<open>A reply in any pieces\<close>

text \<open>A library that is connected and has read everything it was sent.\<close>

definition idle :: "api \<Rightarrow> bool" where
  "idle a \<longleftrightarrow> ap_initalised a \<and> bdata (ap_response a) = [] \<and> buff_ok (ap_response a)"

lemma c_str_clean: "clean l \<Longrightarrow> c_str l = l"
  by (auto simp: c_str_def clean_def takeWhile_eq_all_conv)

lemma readResponse_line:
  assumes "never_fails alloc" and "bdata (ap_response a) = []" and "n_recvs (ap_net a) = evs" and "list_all healthy evs"
    and "arrivals evs = (l @ [NL]) @ r" and "clean l" and "length l + length r < 2 ^ 61"
    and "load_message fresh (Some sortfields) (l @ [NL]) = Loaded m"
  obtains a' where "readResponse alloc fresh a =
      (case m_error m of Some t \<Rightarrow> Returned None (setJersErrno (fst (getJersErrno t)) (snd (getJersErrno t)) a')
       | None \<Rightarrow> Returned (Some m) a')"
    "n_wire (ap_net a') = n_wire (ap_net a)" "ap_initalised a' = ap_initalised a" "buff_ok (ap_response a')"
    "bdata (ap_response a') @ arrivals (n_recvs (ap_net a')) = r" "list_all healthy (n_recvs (ap_net a'))"
proof -
  have "\<exists>evs' b'. recv_loop alloc (length (bdata (ap_response a))) evs (ap_response a) = Inr (LineEnd (length l), evs', b') \<and>
      list_all healthy evs' \<and> bdata b' @ arrivals evs' = l @ NL # r \<and> length l < length (bdata b') \<and> buff_ok b'"
    by (rule recv_loop_line [OF assms(1) _ assms(7,4)]) (use assms(2,5,6) in \<open>simp_all add: clean_def\<close>)
  then obtain evs' b' where loop: "recv_loop alloc 0 evs (ap_response a) = Inr (LineEnd (length l), evs', b')"
    and healthy: "list_all healthy evs'" and all: "bdata b' @ arrivals evs' = l @ NL # r"
    and len: "length l < length (bdata b')" and ok: "buff_ok b'" using assms(2) by auto
  have d: "bdata b' = (l @ [NL]) @ drop (Suc (length l)) (bdata b')"
    using arg_cong [OF all, of "take (Suc (length l))"] len append_take_drop_id [of "Suc (length l)" "bdata b'"] by simp
  then have rest: "drop (Suc (length l)) (bdata b') @ arrivals evs' = r"
    using all by (metis append_Cons append_Nil append_assoc same_append_eq list.inject)
  have ln: "take (length l) (bdata b') = l" by (subst d) simp
  have msg: "load_message fresh (Some sortfields) (c_str l) = Loaded m"
    using assms(6,8) by (simp add: c_str_clean load_message_newline)
  let ?b = "b'\<lparr>bdata := drop (Suc (length l)) (bdata b')\<rparr>"
  let ?a = "a\<lparr>ap_net := (ap_net a)\<lparr>n_recvs := evs'\<rparr>, ap_response := ?b\<rparr>"
  have rem: "buffRemove alloc b' (Suc (length l)) False = Inr ?b" using len by (simp add: buffRemove_def Let_def)
  have "readResponse alloc fresh a = (case m_error m of
      Some t \<Rightarrow> Returned None (setJersErrno (fst (getJersErrno t)) (snd (getJersErrno t)) ?a) | None \<Rightarrow> Returned (Some m) ?a)"
    using loop assms(3) by (simp add: readResponse_def take_reply_def ln msg rem Let_def)
  moreover have "buff_ok ?b" using ok by (simp add: buff_ok_def)
  ultimately show ?thesis using that [of ?a] rest healthy by simp
qed

lemma sendRequest_all:
  assumes "n_sends (ap_net a) = map Sent ns" and "length t \<le> sum_list ns"
  obtains evs where "sendRequest t a = Returned 0 (a\<lparr>ap_net := (ap_net a)\<lparr>n_sends := evs, n_wire := n_wire (ap_net a) @ t\<rparr>\<rparr>)"
  using send_loop_all [of t 0 ns "n_wire (ap_net a)"] assms by (auto simp: sendRequest_def)

lemma exchange_first:
  assumes "in_place alloc" and "idle a" and "good_item fs" and "length (request_text name 1 fs) < 2 ^ 56"
    and "n_sends (ap_net a) = map Sent ns" and "length (request_text name 1 fs) \<le> sum_list ns"
    and "list_all healthy (n_recvs (ap_net a))" and "arrivals (n_recvs (ap_net a)) = reply_text r @ rest"
    and "reply_ok r" and "reply_clean r" and "length (reply_text r) + length rest < 2 ^ 60"
  obtains m a' where "reply_read r m"
    "exchange alloc fresh name fs failed k a = (case m_error m of
       Some t \<Rightarrow> Returned failed (setJersErrno (fst (getJersErrno t)) (snd (getJersErrno t)) a') | None \<Rightarrow> k m a')"
    "n_wire (ap_net a') = n_wire (ap_net a) @ request_text name 1 fs" "ap_initalised a'" "buff_ok (ap_response a')"
    "bdata (ap_response a') @ arrivals (n_recvs (ap_net a')) = rest"
proof -
  let ?t = "request_text name 1 fs"
  have fs: "list_all (\<lambda>f. field_ok f \<and> f_value f \<noteq> FBool False) fs" using assms(3) by (simp add: good_item_def)
  obtain b where b: "write_request alloc name 1 fs = Some (Inr b)" "bdata b = ?t"
    using write_request_text [OF assms(1) _ _ fs assms(4)] by (auto simp: writes_def)
  obtain evs where sent: "sendRequest ?t a = Returned 0 (a\<lparr>ap_net := (ap_net a)\<lparr>n_sends := evs, n_wire := n_wire (ap_net a) @ ?t\<rparr>\<rparr>)"
    by (rule sendRequest_all [OF assms(5,6)])
  let ?a = "a\<lparr>ap_net := (ap_net a)\<lparr>n_sends := evs, n_wire := n_wire (ap_net a) @ ?t\<rparr>\<rparr>"
  obtain l where l: "reply_text r = l @ [NL]" "clean l" by (rule reply_line [OF assms(10)])
  obtain m where m: "load_message fresh (Some sortfields) (l @ [NL]) = Loaded m" "reply_read r m"
    using reply_loaded [OF assms(1,9), of fresh] l(1) by auto
  have pre: "bdata (ap_response ?a) = []" "n_recvs (ap_net ?a) = n_recvs (ap_net a)"
    "arrivals (n_recvs (ap_net a)) = (l @ [NL]) @ rest" "length l + length rest < 2 ^ 61"
    using assms(2,8,11) l(1) by (simp_all add: idle_def)
  obtain a' where a': "readResponse alloc fresh ?a =
      (case m_error m of Some t \<Rightarrow> Returned None (setJersErrno (fst (getJersErrno t)) (snd (getJersErrno t)) a')
       | None \<Rightarrow> Returned (Some m) a')"
    "n_wire (ap_net a') = n_wire (ap_net ?a)" "ap_initalised a' = ap_initalised ?a" "buff_ok (ap_response a')"
    "bdata (ap_response a') @ arrivals (n_recvs (ap_net a')) = rest"
    by (rule readResponse_line [OF in_place_never_fails [OF assms(1)] pre(1,2) assms(7) pre(3) l(2) pre(4) m(1)])
  have "exchange alloc fresh name fs failed k a = (case m_error m of
       Some t \<Rightarrow> Returned failed (setJersErrno (fst (getJersErrno t)) (snd (getJersErrno t)) a') | None \<Rightarrow> k m a')"
    by (simp add: exchange_def b sent a'(1) split: option.split)
  then show ?thesis using that [OF m(2), of a'] a'(2-5) assms(2) by (simp add: idle_def)
qed

lemma exchange_reply:
  assumes "in_place alloc" and "idle a" and "good_item fs" and "length (request_text name 1 fs) < 2 ^ 56"
    and "n_sends (ap_net a) = map Sent ns" and "length (request_text name 1 fs) \<le> sum_list ns"
    and "list_all healthy (n_recvs (ap_net a))" and "arrivals (n_recvs (ap_net a)) = reply_text r"
    and "reply_ok r" and "reply_clean r" and "length (reply_text r) < 2 ^ 60"
  obtains m a' where "reply_read r m"
    "exchange alloc fresh name fs failed k a = (case m_error m of
       Some t \<Rightarrow> Returned failed (setJersErrno (fst (getJersErrno t)) (snd (getJersErrno t)) a') | None \<Rightarrow> k m a')"
    "n_wire (ap_net a') = n_wire (ap_net a) @ request_text name 1 fs" "idle a'"
proof -
  have rest: "arrivals (n_recvs (ap_net a)) = reply_text r @ []" "length (reply_text r) + length ([] :: string) < 2 ^ 60"
    using assms(8,11) by simp_all
  obtain m a' where "reply_read r m"
    "exchange alloc fresh name fs failed k a = (case m_error m of
       Some t \<Rightarrow> Returned failed (setJersErrno (fst (getJersErrno t)) (snd (getJersErrno t)) a') | None \<Rightarrow> k m a')"
    "n_wire (ap_net a') = n_wire (ap_net a) @ request_text name 1 fs" "ap_initalised a'" "buff_ok (ap_response a')"
    "bdata (ap_response a') @ arrivals (n_recvs (ap_net a')) = []"
    by (rule exchange_first [OF assms(1-7) rest(1) assms(9,10) rest(2)])
  then show ?thesis using that [of m a'] by (simp add: idle_def)
qed

lemma with_api_idle: "idle a \<Longrightarrow> with_api alloc failed k a = k (setJersErrno JERS_ERR_OK None a)"
  by (simp add: with_api_def jersInitAPI_def idle_def)

lemma setJersErrno_simps [simp]:
  "ap_net (setJersErrno e m a) = ap_net a" "ap_errno (setJersErrno e m a) = e" "ap_err_string (setJersErrno e m a) = m"
  "idle (setJersErrno e m a) = idle a"
  by (simp_all add: setJersErrno_def idle_def)

end
