(* ===== verification/Client.thy ===== *)
theory Client
  imports Api
begin

section \<open>Client: requests and replies end to end\<close>

text \<open>
  What the functions of the client library (\<open>src/src/api.c\<close>, theory \<open>Api\<close>) and the deserializers and
  serializers of the daemon (\<open>src/src/command_job.c\<close>) make of each other's messages: the job the daemon
  receives for the structure of a caller, the jobs a caller sees for the jobs of the daemon, the errors
  that are passed on, and the ways in which a reply can be lost.
\<close>

subsection \<open>Submitting a job\<close>

lemma field_getters [simp]:
  "f_number (num_field n v) = n" "getNumberField (num_field n v) = v"
  "f_number (str_field n t) = n" "getStringOf (str_field n (Some s)) = s"
  "f_number (array_field n ss) = n" "getStringArrayField (array_field n ss) = ss"
  "f_number (strs_field n us) = n" "getStringArrayField (strs_field n us) = map Some us"
  "f_number (map_field n kvs) = n" "getStringMapField (map_field n kvs) = kvs"
  "f_number (bool_field n b) = n" "getBoolField (bool_field n b) = (if b then 1 else 0)"
  "jobid_of (num_field n v) = nat (uint32 v)"
  by (simp_all add: num_field_def str_field_def array_field_def strs_field_def map_field_def bool_field_def getNumberField_def
      getStringOf_def getStringArrayField_def getStringMapField_def getBoolField_def getStringField_def jobid_of_def)

lemma fold_optional:
  "fold g (if c then [f] else []) s = (if c then g f s else s)"
  "fold g (opt_str n t) s = (case t of Some x \<Rightarrow> g (str_field n (Some x)) s | None \<Rightarrow> s)"
  "fold g (opt_num n v) s = (if v \<noteq> 0 then g (num_field n v) s else s)"
  by (simp_all add: opt_str_def opt_num_def split: option.split)

text \<open>Members at the width of the C structure.\<close>

definition fits32 :: "int \<Rightarrow> bool" where
  "fits32 v \<longleftrightarrow> - (2 ^ 31) \<le> v \<and> v < 2 ^ 31"

definition fits_unsigned :: "int \<Rightarrow> bool" where
  "fits_unsigned v \<longleftrightarrow> 0 \<le> v \<and> v < 2 ^ 32"

lemma fits_same: "fits32 v \<Longrightarrow> int32 v = v" "fits_unsigned v \<Longrightarrow> uint32 v = v"
  by (simp_all add: fits32_def fits_unsigned_def cint_def cuint_def)

definition add_arg_ok :: "jersJobAddArg \<Rightarrow> bool" where
  "add_arg_ok j \<longleftrightarrow> fits_unsigned (int (ja_jobid j)) \<and> fits_unsigned (ja_uid j) \<and> fits32 (ja_nice j) \<and> fits32 (ja_priority j)"

text \<open>
  What the daemon gets for the structure of the caller: a niceness of 0 arrives as unset, an unset
  priority as the default, the time \<open>-1\<close> as 0, and with a wrapper the pre and post commands are dropped.
\<close>

definition received_job :: "jersJobAddArg \<Rightarrow> jersJobAdd" where
  "received_job j =
     \<lparr>ja_jobid = ja_jobid j, ja_name = ja_name j, ja_queue = ja_queue j, ja_uid = ja_uid j, ja_shell = ja_shell j,
      ja_wrapper = ja_wrapper j,
      ja_pre_cmd = (if ja_wrapper j = None then ja_pre_cmd j else None),
      ja_post_cmd = (if ja_wrapper j = None then ja_post_cmd j else None),
      ja_stdout = ja_stdout j, ja_stderr = ja_stderr j,
      ja_defer_time = (if ja_defer_time j = -1 then 0 else ja_defer_time j),
      ja_nice = (if ja_nice j = 0 then UNSET_32 else ja_nice j),
      ja_priority = (if ja_priority j = UNSET_32 then JERS_JOB_DEFAULT_PRIORITY else ja_priority j),
      ja_hold = (if ja_hold j = 0 then 0 else 1), ja_argv = ja_argv j,
      ja_envs = (if ja_env_unset j then [] else ja_envs j), ja_tags = ja_tags j, ja_resources = ja_resources j,
      ja_flags = ja_flags j\<rparr>"

text \<open>Each piece of the request sets its member and leaves the others.\<close>

lemma add_job_pieces:
  "add_job_field (array_field ARGS as) s = s\<lparr>ja_argv := as\<rparr>"
  "fold add_job_field (opt_str JOBNAME t) s = s\<lparr>ja_name := (case t of Some x \<Rightarrow> Some x | None \<Rightarrow> ja_name s)\<rparr>"
  "fold add_job_field (opt_str QUEUENAME t) s = s\<lparr>ja_queue := (case t of Some x \<Rightarrow> Some x | None \<Rightarrow> ja_queue s)\<rparr>"
  "fold add_job_field (if c then [num_field UID v] else []) s = s\<lparr>ja_uid := (if c then uint32 v else ja_uid s)\<rparr>"
  "fold add_job_field (opt_str SHELL t) s = s\<lparr>ja_shell := (case t of Some x \<Rightarrow> Some x | None \<Rightarrow> ja_shell s)\<rparr>"
  "fold add_job_field (if c then [num_field PRIORITY v] else []) s = s\<lparr>ja_priority := (if c then int32 v else ja_priority s)\<rparr>"
  "fold add_job_field (if c then [bool_field HOLD True] else []) s = s\<lparr>ja_hold := (if c then 1 else ja_hold s)\<rparr>"
  "fold add_job_field (opt_num NICE v) s = s\<lparr>ja_nice := (if v \<noteq> 0 then int32 v else ja_nice s)\<rparr>"
  "fold add_job_field (if c then [map_field TAGS kvs] else []) s = s\<lparr>ja_tags := (if c then kvs else ja_tags s)\<rparr>"
  "fold add_job_field (if c then [array_field RESOURCES as] else []) s = s\<lparr>ja_resources := (if c then as else ja_resources s)\<rparr>"
  "fold add_job_field (if c then [array_field ENVS as] else []) s = s\<lparr>ja_envs := (if c then as else ja_envs s)\<rparr>"
  "fold add_job_field (if c then [num_field JOBID v] else []) s = s\<lparr>ja_jobid := (if c then nat (uint32 v) else ja_jobid s)\<rparr>"
  "add_job_field (str_field WRAPPER (Some x)) s = s\<lparr>ja_wrapper := Some x\<rparr>"
  "fold add_job_field (opt_str PRECMD t) s = s\<lparr>ja_pre_cmd := (case t of Some x \<Rightarrow> Some x | None \<Rightarrow> ja_pre_cmd s)\<rparr>"
  "fold add_job_field (opt_str POSTCMD t) s = s\<lparr>ja_post_cmd := (case t of Some x \<Rightarrow> Some x | None \<Rightarrow> ja_post_cmd s)\<rparr>"
  "fold add_job_field (opt_str STDOUT t) s = s\<lparr>ja_stdout := (case t of Some x \<Rightarrow> Some x | None \<Rightarrow> ja_stdout s)\<rparr>"
  "fold add_job_field (opt_str STDERR t) s = s\<lparr>ja_stderr := (case t of Some x \<Rightarrow> Some x | None \<Rightarrow> ja_stderr s)\<rparr>"
  "fold add_job_field (if c then [num_field DEFERTIME v] else []) s = s\<lparr>ja_defer_time := (if c then v else ja_defer_time s)\<rparr>"
  "fold add_job_field (opt_num FLAGS v) s = s\<lparr>ja_flags := (if v \<noteq> 0 then v else ja_flags s)\<rparr>"
  by (simp_all add: fold_optional add_job_field_def split: option.split)

lemma some_or_none [simp]: "(case t of Some x \<Rightarrow> Some x | None \<Rightarrow> None) = t"
  by (cases t) simp_all

lemma add_job_received:
  assumes "add_arg_ok j"
  shows "fold add_job_field (add_job_fields j) jersJobAdd_init = received_job j"
proof -
  have ok: "int32 (ja_nice j) = ja_nice j" "int32 (ja_priority j) = ja_priority j" "nat (uint32 (int (ja_jobid j))) = ja_jobid j"
    "(if ja_uid j > 0 then uint32 (ja_uid j) else 0) = ja_uid j"
    using assms by (auto simp: add_arg_ok_def fits_same fits_unsigned_def)
  have lists: "(if xs \<noteq> [] then xs else []) = xs"
    "(if \<not> ja_env_unset j then ja_envs j else []) = (if ja_env_unset j then [] else ja_envs j)" for xs :: "'a list" by auto
  have ints: "(if v \<noteq> 0 then v else 0) = v" "(if v = 0 then 0 else v) = v" "(if v \<noteq> w then v else d) = (if v = w then d else v)"
    "(if v \<noteq> 0 then 1 else d) = (if v = 0 then d else 1)" for v w d :: int by auto
  have nats: "(if n \<noteq> 0 then n else 0) = n" for n :: nat by auto
  show ?thesis
    unfolding add_job_fields_def received_job_def jersJobAdd_init_def
    by (cases "ja_wrapper j")
      (simp_all only: fold_append comp_apply fold_simps option.case add_job_pieces jersJobAdd.simps jersJobAdd.update_convs ok
        some_or_none lists ints nats option.distinct refl if_True if_False simp_thms)
qed

definition mod_arg_ok :: "jersJobMod \<Rightarrow> bool" where
  "mod_arg_ok j \<longleftrightarrow> fits_unsigned (int (jm_jobid j)) \<and> fits32 (jm_nice j) \<and> fits32 (jm_priority j)"

text \<open>A modification arrives as it was given, with the flags as 0 or 1.\<close>

definition received_mod :: "jersJobMod \<Rightarrow> jersJobMod" where
  "received_mod j =
     j\<lparr>jm_restart := (if jm_restart j = 0 then 0 else 1),
       jm_hold := (if jm_hold j = UNSET_8 then UNSET_8 else if jm_hold j = 0 then 0 else 1),
       jm_clear_resources := (if jm_clear_resources j = 0 then 0 else 1)\<rparr>"

lemma mod_job_pieces:
  "mod_job_field (num_field JOBID v) s = s\<lparr>jm_jobid := nat (uint32 v)\<rparr>"
  "fold mod_job_field (opt_str JOBNAME t) s = s\<lparr>jm_name := (case t of Some x \<Rightarrow> Some x | None \<Rightarrow> jm_name s)\<rparr>"
  "fold mod_job_field (opt_str QUEUENAME t) s = s\<lparr>jm_queue := (case t of Some x \<Rightarrow> Some x | None \<Rightarrow> jm_queue s)\<rparr>"
  "fold mod_job_field (if c then [num_field DEFERTIME v] else []) s = s\<lparr>jm_defer_time := (if c then v else jm_defer_time s)\<rparr>"
  "fold mod_job_field (if c then [bool_field RESTART True] else []) s = s\<lparr>jm_restart := (if c then 1 else jm_restart s)\<rparr>"
  "fold mod_job_field (if c then [num_field NICE v] else []) s = s\<lparr>jm_nice := (if c then int32 v else jm_nice s)\<rparr>"
  "fold mod_job_field (if c then [num_field PRIORITY v] else []) s = s\<lparr>jm_priority := (if c then int32 v else jm_priority s)\<rparr>"
  "fold mod_job_field (if c then [bool_field HOLD b] else []) s = s\<lparr>jm_hold := (if c then if b then 1 else 0 else jm_hold s)\<rparr>"
  "fold mod_job_field (case es of Some x \<Rightarrow> [array_field ENVS x] | None \<Rightarrow> []) s = s\<lparr>jm_envs := (case es of Some x \<Rightarrow> Some x | None \<Rightarrow> jm_envs s)\<rparr>"
  "fold mod_job_field (case ts of Some y \<Rightarrow> [map_field TAGS y] | None \<Rightarrow> []) s = s\<lparr>jm_tags := (case ts of Some y \<Rightarrow> Some y | None \<Rightarrow> jm_tags s)\<rparr>"
  "fold mod_job_field (case es of Some x \<Rightarrow> [array_field RESOURCES x] | None \<Rightarrow> []) s = s\<lparr>jm_resources := (case es of Some x \<Rightarrow> Some x | None \<Rightarrow> jm_resources s)\<rparr>"
  "fold mod_job_field (if c then [bool_field CLEARRES True] else []) s = s\<lparr>jm_clear_resources := (if c then 1 else jm_clear_resources s)\<rparr>"
  by (simp_all add: fold_optional mod_job_field_def split: option.split)

lemma mod_job_received:
  assumes "mod_arg_ok j"
  shows "fold mod_job_field (mod_job_fields j) jersJobMod_init = received_mod j"
proof -
  have ok: "int32 (jm_nice j) = jm_nice j" "int32 (jm_priority j) = jm_priority j" "nat (uint32 (int (jm_jobid j))) = jm_jobid j"
    using assms by (simp_all add: mod_arg_ok_def fits_same)
  have ints: "(if v \<noteq> w then v else w) = v" "(if v \<noteq> 0 then 1 else d) = (if v = 0 then d else 1)"
    "(if v \<noteq> w then d else w) = (if v = w then w else d)" for v w d :: int by auto
  have "fold mod_job_field (mod_job_fields j) jersJobMod_init =
      \<lparr>jm_jobid = jm_jobid j, jm_name = jm_name j, jm_queue = jm_queue j, jm_defer_time = jm_defer_time j,
       jm_restart = (if jm_restart j = 0 then 0 else 1), jm_nice = jm_nice j, jm_priority = jm_priority j,
       jm_hold = (if jm_hold j = UNSET_8 then UNSET_8 else if jm_hold j = 0 then 0 else 1),
       jm_clear_resources = (if jm_clear_resources j = 0 then 0 else 1),
       jm_envs = jm_envs j, jm_tags = jm_tags j, jm_resources = jm_resources j\<rparr>"
    unfolding mod_job_fields_def jersJobMod_init_def
    by (simp only: fold_append comp_apply fold_simps mod_job_pieces jersJobMod.simps jersJobMod.update_convs ok
        some_or_none ints refl if_True if_False simp_thms)
  also have "\<dots> = received_mod j" by (cases j) (simp only: received_mod_def jersJobMod.simps jersJobMod.update_convs)
  finally show ?thesis .
qed

subsection \<open>Reading jobs\<close>

text \<open>
  A job as the caller of the library sees it: what the daemon holds, but for the pre and the post
  command, which carry each other's value.
\<close>

definition client_view :: "server \<Rightarrow> job \<Rightarrow> jersJob" where
  "client_view s j =
     \<lparr>jj_jobid = j_jobid j, jj_jobname = Some (j_jobname j), jj_queue = Some (j_queue j), jj_priority = j_priority j,
      jj_state = uint (j_state j), jj_nice = start_nice s j, jj_uid = j_uid j, jj_submitter = j_submitter j,
      jj_pid = j_pid j, jj_exit_code = j_exitcode j, jj_signal = j_signal j, jj_shell = j_shell j,
      jj_pre_command = j_post_cmd j, jj_post_command = j_pre_cmd j, jj_stdout = j_stdout j, jj_stderr = j_stderr j,
      jj_argv = j_argv j, jj_node = Some (getStringField (job_host s j)), jj_pend_reason = j_pend_reason j,
      jj_fail_reason = j_fail_reason j, jj_submit_time = j_submit_time j, jj_defer_time = j_defer_time j,
      jj_start_time = j_start_time j, jj_finish_time = j_finish_time j, jj_tags = j_tags j,
      jj_resources = map Some (convertResourceToStrings (j_req_resources j)), jj_revision = j_revision j, jj_envs = j_envs j\<rparr>"

definition job_fits :: "server \<Rightarrow> job \<Rightarrow> bool" where
  "job_fits s j \<longleftrightarrow> fits_unsigned (int (j_jobid j)) \<and> fits_unsigned (j_uid j) \<and> fits_unsigned (j_submitter j) \<and>
     list_all fits32 [j_priority j, uint (j_state j), start_nice s j, j_pid j, j_exitcode j, j_signal j, j_pend_reason j, j_fail_reason j]"

lemma job_pieces:
  "job_field (num_field JOBID v) s = s\<lparr>jj_jobid := nat (uint32 v)\<rparr>"
  "job_field (str_field JOBNAME (Some x)) s = s\<lparr>jj_jobname := Some x\<rparr>"
  "job_field (str_field QUEUENAME (Some x)) s = s\<lparr>jj_queue := Some x\<rparr>"
  "job_field (num_field STATE v) s = s\<lparr>jj_state := int32 v\<rparr>"
  "job_field (num_field UID v) s = s\<lparr>jj_uid := uint32 v\<rparr>"
  "job_field (num_field SUBMITTER v) s = s\<lparr>jj_submitter := uint32 v\<rparr>"
  "job_field (num_field PRIORITY v) s = s\<lparr>jj_priority := int32 v\<rparr>"
  "job_field (num_field SUBMITTIME v) s = s\<lparr>jj_submit_time := v\<rparr>"
  "job_field (num_field NICE v) s = s\<lparr>jj_nice := int32 v\<rparr>"
  "job_field (array_field ARGS as) s = s\<lparr>jj_argv := as\<rparr>"
  "job_field (str_field NODE t) s = s\<lparr>jj_node := Some (getStringField t)\<rparr>"
  "job_field (num_field REVISION v) s = s\<lparr>jj_revision := v\<rparr>"
  "job_field (num_field EXITCODE v) s = s\<lparr>jj_exit_code := int32 v\<rparr>"
  "job_field (num_field SIGNAL v) s = s\<lparr>jj_signal := int32 v\<rparr>"
  "fold job_field (opt_str STDOUT t) s = s\<lparr>jj_stdout := (case t of Some x \<Rightarrow> Some x | None \<Rightarrow> jj_stdout s)\<rparr>"
  "fold job_field (opt_str STDERR t) s = s\<lparr>jj_stderr := (case t of Some x \<Rightarrow> Some x | None \<Rightarrow> jj_stderr s)\<rparr>"
  "fold job_field (opt_str SHELL t) s = s\<lparr>jj_shell := (case t of Some x \<Rightarrow> Some x | None \<Rightarrow> jj_shell s)\<rparr>"
  "fold job_field (opt_str PRECMD t) s = s\<lparr>jj_pre_command := (case t of Some x \<Rightarrow> Some x | None \<Rightarrow> jj_pre_command s)\<rparr>"
  "fold job_field (opt_str POSTCMD t) s = s\<lparr>jj_post_command := (case t of Some x \<Rightarrow> Some x | None \<Rightarrow> jj_post_command s)\<rparr>"
  "fold job_field (opt_num DEFERTIME v) s = s\<lparr>jj_defer_time := (if v = 0 then jj_defer_time s else v)\<rparr>"
  "fold job_field (opt_num STARTTIME v) s = s\<lparr>jj_start_time := (if v = 0 then jj_start_time s else v)\<rparr>"
  "fold job_field (opt_num FINISHTIME v) s = s\<lparr>jj_finish_time := (if v = 0 then jj_finish_time s else v)\<rparr>"
  "fold job_field (opt_num JOBPID v) s = s\<lparr>jj_pid := (if v = 0 then jj_pid s else int32 v)\<rparr>"
  "fold job_field (opt_num PENDREASON v) s = s\<lparr>jj_pend_reason := (if v = 0 then jj_pend_reason s else int32 v)\<rparr>"
  "fold job_field (opt_num FAILREASON v) s = s\<lparr>jj_fail_reason := (if v = 0 then jj_fail_reason s else int32 v)\<rparr>"
  "fold job_field (if c then [] else [map_field TAGS kvs]) s = s\<lparr>jj_tags := (if c then jj_tags s else kvs)\<rparr>"
  "fold job_field (if c then [] else [strs_field RESOURCES us]) s = s\<lparr>jj_resources := (if c then jj_resources s else map Some us)\<rparr>"
  "fold job_field (if c then [] else [array_field ENVS as]) s = s\<lparr>jj_envs := (if c then jj_envs s else as)\<rparr>"
  by (simp_all add: opt_str_def opt_num_def job_field_def getStringOf_def getStringField_def str_field_def split: option.split)

lemma wanted_all: "wanted 0 b fs = fs"
  by (simp add: wanted_def)

lemma job_reported:
  assumes "job_fits s j"
  shows "fold job_field (serialize_jersJob s j 0) jersJob_zero = client_view s j"
proof -
  have ok: "nat (uint32 (int (j_jobid j))) = j_jobid j" "uint32 (j_uid j) = j_uid j" "uint32 (j_submitter j) = j_submitter j"
    "int32 (j_priority j) = j_priority j" "int32 (uint (j_state j)) = uint (j_state j)" "int32 (start_nice s j) = start_nice s j"
    "int32 (j_pid j) = j_pid j" "int32 (j_exitcode j) = j_exitcode j" "int32 (j_signal j) = j_signal j"
    "int32 (j_pend_reason j) = j_pend_reason j" "int32 (j_fail_reason j) = j_fail_reason j"
    using assms by (simp_all add: job_fits_def fits_same)
  have ifs: "(if v = 0 then 0 else v) = v" "(if kvs = [] then [] else kvs) = kvs"
    "(if rs = [] then [] else map Some (convertResourceToStrings rs)) = map Some (convertResourceToStrings rs)"
    for v :: int and kvs :: "'a list" and rs :: "(string \<times> int) list"
    by (simp_all add: convertResourceToStrings_def)
  show ?thesis
    unfolding serialize_jersJob_def wanted_all client_view_def jersJob_zero_def
    by (simp only: fold_append comp_apply fold_simps job_pieces jersJob.simps jersJob.update_convs ok some_or_none ifs)
qed

subsection \<open>Errors\<close>

lemma errors_found: "list_all (\<lambda>n. errno_from jers_errors 0 (fst (jers_errors ! n)) = int n) [0..<25]"
  by (simp add: jers_errors_def upt_rec [of _ 25] numeral_eq_Suc [of "Num.One"])

lemma errors_are_words: "list_all (\<lambda>(t, m). t \<noteq> [] \<and> length t \<le> 31 \<and> list_all (\<lambda>c. \<not> scan_ws c) t) jers_errors"
  by (simp add: jers_errors_def scan_ws_def is_ws_def)

lemma error_type_facts:
  assumes "0 \<le> err" and "err \<le> JERS_ERR_UNKNOWN"
  shows "lookup_jers_errno (getErrType err) = err" "getErrType err \<noteq> []" "length (getErrType err) \<le> 31"
    "\<And>c. c \<in> set (getErrType err) \<Longrightarrow> \<not> scan_ws c"
proof -
  have n: "nat err < 25" "getErrType err = fst (jers_errors ! nat err)" using assms by (simp_all add: getErrType_def)
  have len: "length jers_errors = 25" by (simp add: jers_errors_def)
  show "lookup_jers_errno (getErrType err) = err"
    using errors_found n assms(1) by (simp add: lookup_jers_errno_def list_all_iff)
  have "jers_errors ! nat err \<in> set jers_errors" using n(1) len by simp
  with errors_are_words n(2) show "getErrType err \<noteq> []" "length (getErrType err) \<le> 31"
    "\<And>c. c \<in> set (getErrType err) \<Longrightarrow> \<not> scan_ws c"
    by (fastforce simp: list_all_iff)+
qed

text \<open>The message a caller gets for the message the daemon sent: without leading white space, up to a newline, 127 bytes.\<close>

definition passed_message :: "int \<Rightarrow> string option \<Rightarrow> string option" where
  "passed_message err m =
     (let t = take (1022 - length (getErrType err)) (case m of Some t \<Rightarrow> t | None \<Rightarrow> []);
          p = take 127 (takeWhile (\<lambda>c. c \<noteq> NL) (dropWhile scan_ws t))
      in if p = [] then None else Some p)"

lemma error_read:
  assumes "0 \<le> err" and "err \<le> JERS_ERR_UNKNOWN"
  shows "getJersErrno (error_text err m) = (err, passed_message err m)"
proof -
  note ty = error_type_facts [OF assms]
  let ?ty = "getErrType err" and ?m = "case m of Some t \<Rightarrow> t | None \<Rightarrow> []"
  have whole: "error_text err m = ?ty @ CHR '' '' # take (1022 - length ?ty) ?m"
  proof -
    have "1023 - length ?ty = Suc (1022 - length ?ty)" using ty(3) by linarith
    then show ?thesis using ty(3) by (simp add: error_text_def)
  qed
  have d: "dropWhile scan_ws (?ty @ r) = ?ty @ r" for r using ty(2,4) by (cases ?ty) auto
  have sp: "scan_ws (CHR '' '')" by (simp add: scan_ws_def is_ws_def)
  have w: "takeWhile (\<lambda>c. \<not> scan_ws c) (?ty @ CHR '' '' # r) = ?ty" for r
    using ty(4) sp by (subst takeWhile_append2) auto
  show ?thesis
    using ty(1,2,3) sp by (simp add: getJersErrno_def whole d w passed_message_def Let_def)
qed

subsection \<open>The job in the daemon\<close>

text \<open>The job a request to add one leaves in the table.\<close>

definition submitted_as :: "int \<Rightarrow> int \<Rightarrow> jersJobAdd \<Rightarrow> nat \<Rightarrow> job \<Rightarrow> bool" where
  "submitted_as uid submitter ja k j \<longleftrightarrow>
     j_jobid j = k \<and> j_jobname j = (case ja_name ja of Some n \<Rightarrow> n | None \<Rightarrow> ''job_'' @ int64tostr (int k)) \<and>
     j_uid j = uid \<and> j_submitter j = submitter \<and>
     j_shell j = ja_shell ja \<and> j_wrapper j = ja_wrapper ja \<and> j_pre_cmd j = ja_pre_cmd ja \<and> j_post_cmd j = ja_post_cmd ja \<and>
     j_stdout j = ja_stdout ja \<and> j_stderr j = ja_stderr ja \<and> j_argv j = ja_argv ja \<and> j_envs j = ja_envs ja \<and>
     j_defer_time j = ja_defer_time ja \<and> j_priority j = ja_priority ja \<and> j_nice j = ja_nice ja \<and> j_tags j = ja_tags ja \<and>
     j_state j = (if ja_defer_time ja \<noteq> 0 then JERS_JOB_DEFERRED else if ja_hold ja \<noteq> 0 then JERS_JOB_HOLDING else JERS_JOB_PENDING)"

lemma tkeys_index_new_job: "tkeys j_jobid (jobTable s) \<Longrightarrow> tkeys j_jobid (jobTable (index_new_job tag k kvs s))"
  by (induction tag k kvs s rule: index_new_job.induct) (auto simp: addIndexTag_def Let_def tkeys_tupd)

lemma index_new_job_found:
  "findJob s k = Some j \<Longrightarrow> \<exists>x. findJob (index_new_job tag k kvs s) k = Some (j\<lparr>j_index_table := x\<rparr>)"
proof (induction tag k kvs s rule: index_new_job.induct)
  case (1 tag k s)
  then show ?case by (intro exI [of _ "j_index_table j"]) simp
next
  case (2 tag k key v kvs s)
  then show ?case by (auto simp: addIndexTag_def Let_def findJob_on_job)
qed

lemma addJob_found:
  assumes "tkeys j_jobid (jobTable s)" and "findJob s (j_jobid j) = None"
  shows "\<exists>x. findJob (snd (addJob j True s)) (j_jobid j) = Some (j\<lparr>j_index_table := x, j_revision := j_revision j + 1, j_dirty := True\<rparr>)"
proof -
  let ?k = "j_jobid j" and ?s1 = "s\<lparr>jobTable := tadd (j\<lparr>j_state := 0\<rparr>) (jobTable s)\<rparr>"
  let ?s2 = "case index_tag ?s1 of None \<Rightarrow> ?s1 | Some tag \<Rightarrow> index_new_job tag ?k (j_tags j) ?s1"
  let ?s3 = "if j_defer_time j \<noteq> 0 then addDeferredJob ?k ?s2 else ?s2"
  have keys1: "tkeys j_jobid (jobTable ?s1)" using assms by (simp add: findJob_def tkeys_tadd)
  have f1: "findJob ?s1 ?k = Some (j\<lparr>j_state := 0\<rparr>)" using assms(2) by (simp add: findJob_def tfind_tadd)
  have keys2: "tkeys j_jobid (jobTable ?s2)" using keys1 by (simp add: tkeys_index_new_job split: option.split)
  have "\<exists>x. findJob ?s2 ?k = Some (j\<lparr>j_state := 0, j_index_table := x\<rparr>)"
  proof (cases "index_tag ?s1")
    case None
    then show ?thesis using f1 by (intro exI [of _ "j_index_table j"]) simp
  next
    case (Some tag)
    then show ?thesis using index_new_job_found [OF f1, of tag "j_tags j"] by simp
  qed
  then obtain x where x: "findJob ?s2 ?k = Some (j\<lparr>j_state := 0, j_index_table := x\<rparr>)" by blast
  have "findJob ?s3 ?k = findJob ?s2 ?k" "tkeys j_jobid (jobTable ?s3)" using keys2 by (simp_all add: addDeferredJob_def)
  moreover have "snd (addJob j True s) = changeJobState ?k (j_state j) None True ?s3"
    using assms(2) by (simp add: addJob_def Let_def)
  ultimately show ?thesis using x by (auto simp: findJob_changeJobState requeue_def)
qed

lemma add_job_commit_found:
  assumes "daemon_ok s" and "findJob s k = None" and "add_job_commit w (Some c) ja q rs k s = Inr out"
  shows "o_replies out = [RData (readonly (snd (addJob (new_job s w (Some c) ja q rs k) True s)) \<noteq> 0) [[num_field JOBID (int k)]]]"
    "o_jobid out = k" "\<exists>j. findJob (o_server out) k = Some j \<and> submitted_as (ja_uid ja) (c_uid c) ja k j"
proof -
  let ?j = "new_job s w (Some c) ja q rs k" and ?s = "snd (addJob (new_job s w (Some c) ja q rs k) True s)"
  have k: "j_jobid ?j = k" by (simp add: new_job_def)
  have out: "o_replies out = [RData (readonly ?s \<noteq> 0) [[num_field JOBID (int k)]]]" "o_jobid out = k"
    "findJob (o_server out) k = findJob ?s k"
    using assms(3) by (auto simp: add_job_commit_def sendClientMessage_def Let_def)
  show "o_replies out = [RData (readonly ?s \<noteq> 0) [[num_field JOBID (int k)]]]" "o_jobid out = k" by (fact out)+
  have "tkeys j_jobid (jobTable s)" using assms(1) by (simp add: daemon_ok_def server_ok_def tables_ok_def)
  from addJob_found [OF this, of ?j] assms(2) k obtain x where
    "findJob ?s k = Some (?j\<lparr>j_index_table := x, j_revision := j_revision ?j + 1, j_dirty := True\<rparr>)" by auto
  then show "\<exists>j. findJob (o_server out) k = Some j \<and> submitted_as (ja_uid ja) (c_uid c) ja k j"
    using out(3) by (simp add: submitted_as_def new_job_def)
qed

text \<open>What a successful handler of a submission has done.\<close>

definition added :: "int \<Rightarrow> client \<Rightarrow> jersJobAdd \<Rightarrow> outcome \<Rightarrow> bool" where
  "added uid c ja out \<longleftrightarrow>
     o_jobid out \<noteq> 0 \<and> (\<exists>ro. o_replies out = [RData ro [[num_field JOBID (int (o_jobid out))]]]) \<and>
     (\<exists>j. findJob (o_server out) (o_jobid out) = Some j \<and> submitted_as uid (c_uid c) ja (o_jobid out) j)"

definition succeeds_with :: "(outcome \<Rightarrow> bool) \<Rightarrow> result \<Rightarrow> bool" where
  "succeeds_with P r \<longleftrightarrow> (\<forall>out. r = Inr out \<longrightarrow> o_status out = 0 \<longrightarrow> P out)"

lemma succeeds_simps [simp]:
  "succeeds_with P (Inl flt)" "succeeds_with P (Inr x) \<longleftrightarrow> (o_status x = 0 \<longrightarrow> P x)"
  "st \<noteq> 0 \<Longrightarrow> succeeds_with P (fail c e m st s)"
  by (simp_all add: succeeds_with_def fail_def)

lemma succeeds_bind: "(\<And>x. r = Inr x \<Longrightarrow> succeeds_with P (k x)) \<Longrightarrow> succeeds_with P (bindR r k)"
  by (cases r) simp_all

lemma add_job_tail_added:
  assumes "daemon_ok s" and "ja_jobid ja \<noteq> 0 \<Longrightarrow> findJob s (ja_jobid ja) = None"
  shows "succeeds_with (added (ja_uid ja) c ja) (add_job_tail w (Some c) ja q s)"
proof -
  have commit: "succeeds_with (added (ja_uid ja) c ja) (add_job_commit w (Some c) ja q rs k s')"
    if "add_job_id ja s = Inr (k, s')" "k \<noteq> 0" for rs k s'
  proof -
    have "daemon_ok s' \<and> findJob s' k = None"
      using that assms getNextJobID_keeps [of s] by (auto simp: add_job_id_def split: if_splits option.splits)
    then show ?thesis
      using that(2) add_job_commit_found [of s' k w c ja q rs] unfolding succeeds_with_def added_def by blast
  qed
  have "succeeds_with (added (ja_uid ja) c ja) (bindR (add_job_id ja s) (\<lambda>(k, s).
      if k = 0 then fail (Some c) JERS_ERR_NOJOB (Some ''No available Job IDs'') (-1) s else add_job_commit w (Some c) ja q rs k s))" for rs
    using commit by (intro succeeds_bind) (auto split: prod.split)
  then show ?thesis
    by (auto simp: add_job_tail_def add_job_resources_def intro!: succeeds_bind split: option.split)
qed

lemma command_add_job_added:
  assumes "daemon_ok s" and "\<not> rec_in_progress (recovery s)"
  shows "succeeds_with (added (if ja_uid ja > 0 then ja_uid ja else c_uid c) c ja) (command_add_job w (Some c) ja s)"
proof -
  let ?uid = "if ja_uid ja > 0 then ja_uid ja else c_uid c" and ?ja = "ja\<lparr>ja_uid := if ja_uid ja > 0 then ja_uid ja else c_uid c\<rparr>"
  have same: "added ?uid c ?ja = added ?uid c ja" by (simp add: added_def submitted_as_def fun_eq_iff)
  have tail: "succeeds_with (added ?uid c ja) (add_job_tail w (Some c) ?ja q s')"
    if "daemon_ok s'" "ja_jobid ja \<noteq> 0 \<Longrightarrow> findJob s' (ja_jobid ja) = None" for q s'
    using add_job_tail_added [of s' ?ja c w q] that same by simp
  have reuse: "succeeds_with (added ?uid c ja) (add_job_reuse (Some c) ?ja s (add_job_tail w (Some c) ?ja q))" for q
    using assms(1) tail daemon_ok_cleanupJob [of s "ja_jobid ja"] cleanupJob_gone [of "ja_jobid ja" s] daemon_ok_deleted [OF assms(1)]
    by (auto simp: add_job_reuse_def split: option.split prod.split)
  have "succeeds_with (added ?uid c ja) (add_job_checked w (Some c) ?ja s)"
    using reuse by (auto simp: add_job_checked_def add_job_queue_def split: option.split)
  then show ?thesis
    using assms(2) by (auto simp: command_add_job_def Let_def unless_recovery_def guard_perm_def)
qed

text \<open>The table entry that a submission runs.\<close>

lemma find_JOB_ADD:
  assumes "tbl \<in> {None, Some sortCommands}"
  shows "find_command tbl ''JOB_ADD'' = Some (cmd ''JOB_ADD'' 0 CMDFLG_REPLAY
    (\<lambda>w c m s. bindR (deserialize_add_job m) (\<lambda>x. command_add_job w c x s)))"
proof -
  let ?x = "cmd ''JOB_ADD'' 0 CMDFLG_REPLAY (\<lambda>w c m s. bindR (deserialize_add_job m) (\<lambda>x. command_add_job w c x s))"
  have "?x \<in> set commands" by (simp add: commands_def)
  from find_command_entry [OF this assms] show ?thesis by (simp add: cmd_def)
qed

lemma run_submission:
  assumes "tbl \<in> {None, Some sortCommands}" and "m_command m = Some ''JOB_ADD''" and "deserialize_add_job m = Inr ja"
    and "daemon_ok s" and "\<not> rec_in_progress (recovery s)"
    and "runCommand tbl w c m s = Inr (out, js)" and "o_status out = 0"
  shows "added (if ja_uid ja > 0 then ja_uid ja else c_uid c) c ja out"
proof -
  obtain rc c' where v: "validateUserAction w s c 0 = (rc, c')" by fastforce
  have uid: "c_uid c' = c_uid c" using validateUserAction_uid [OF v] .
  have "command_add_job w (Some c') ja s = Inr out"
    using assms(2,3,6,7) v by (auto simp: runCommand_def find_JOB_ADD [OF assms(1)] cmd_def bindR_Inr_iff split: if_splits)
  then have "added (if ja_uid ja > 0 then ja_uid ja else c_uid c') c' ja out"
    using command_add_job_added [OF assms(4,5), of ja c' w] assms(7) by (simp add: succeeds_with_def)
  then show ?thesis unfolding added_def uid .
qed

lemma request_at_daemon:
  assumes "good_item fs" and "plain_name name" and "uppercasestring name = name" and "name \<notin> {''ERROR'', ''RESP''}"
  shows "load_message fresh (Some sortfields) (request_text name 1 fs) =
    Loaded \<lparr>m_command = Some name, m_error = None, m_version = 1, m_items = [first_item fresh fs], m_alert = None\<rparr>"
proof -
  have "list_all field_ok fs" using assms(1) by (simp add: good_item_def list_all_iff)
  from load_request_text [OF _ _ this assms(2), of 1] assms(3,4) show ?thesis by simp
qed

section \<open>Properties\<close>


subsubsection \<open>A small submission\<close>

definition demo_arg :: jersJobAddArg where
  "demo_arg = jersInitJobAdd\<lparr>ja_jobid := 9, ja_queue := Some ''batch'', ja_argv := [Some ''x'']\<rparr>"

definition demo_api :: "recv_event list \<Rightarrow> api" where
  "demo_api evs =
     \<lparr>ap_errno = 0, ap_err_string = None, ap_socket_path = [], ap_fd = True, ap_response = \<lparr>bdata = [], bsize = 4096\<rparr>,
      ap_initalised = True,
      ap_net = \<lparr>n_socket = True, n_listening = [], n_sockopt = True, n_sends = map Sent [10, 1000000], n_recvs = evs, n_wire = []\<rparr>\<rparr>"

lemma demo_api_simps [simp]:
  "idle (demo_api evs)" "n_sends (ap_net (demo_api evs)) = map Sent [10, 1000000]" "n_recvs (ap_net (demo_api evs)) = evs"
  "n_wire (ap_net (demo_api evs)) = []"
  by (simp_all add: idle_def demo_api_def buff_ok_def)

lemma demo_names:
  "fd_name (field_table ! ARGS) = ''ARGS''" "fd_type (field_table ! ARGS) = FT_STRINGARRAY"
  "fd_name (field_table ! QUEUENAME) = ''QUEUENAME''" "fd_type (field_table ! QUEUENAME) = FT_STRING"
  "fd_name (field_table ! JOBID) = ''JOBID''" "fd_type (field_table ! JOBID) = FT_NUM"
  by (simp_all add: field_table_def field_rows_def mk_field_def)

lemma demo_arg_fields:
  "add_job_fields demo_arg = [array_field ARGS [Some ''x''], str_field QUEUENAME (Some ''batch''), num_field JOBID 9]"
  by (simp add: add_job_fields_def demo_arg_def jersInitJobAdd_def opt_str_def opt_num_def)

lemma demo_arg_ok:
  "good_item (add_job_fields demo_arg)" "add_arg_ok demo_arg" "length (request_text ''JOB_ADD'' 1 (add_job_fields demo_arg)) \<le> 1000"
proof -
  have "length (int64tostr 9) \<le> 21" "length (int64tostr 1) \<le> 21" by (rule int64tostr_length; simp)+
  moreover have "length (jstring ''x'') \<le> 4" "length (jstring ''batch'') \<le> 12"
    using jstring_length(2) [of "''x''"] jstring_length(2) [of "''batch''"] by simp_all
  ultimately show "length (request_text ''JOB_ADD'' 1 (add_job_fields demo_arg)) \<le> 1000"
    by (simp add: demo_arg_fields request_text_def field_text_def array_field_def str_field_def num_field_def
        demo_names demo_names [unfolded One_nat_def])
  show "good_item (add_job_fields demo_arg)"
    by (simp add: demo_arg_fields good_item_def field_ok_def array_field_def str_field_def num_field_def scannable_def
        demo_names demo_names [unfolded One_nat_def])
  show "add_arg_ok demo_arg"
    by (simp add: add_arg_ok_def demo_arg_def jersInitJobAdd_def fits32_def fits_unsigned_def)
qed

definition demo_request :: msg where
  "demo_request = \<lparr>m_command = Some ''JOB_ADD'', m_error = None, m_version = 1,
     m_items = [first_item [] (add_job_fields demo_arg)], m_alert = None\<rparr>"

lemma demo_request_loaded: "load_message [] (Some sortfields) (request_text ''JOB_ADD'' 1 (add_job_fields demo_arg)) = Loaded demo_request"
proof -
  have "uppercasestring ''JOB_ADD'' = ''JOB_ADD''" by code_simp
  from request_at_daemon [OF demo_arg_ok(1) _ this] show ?thesis by (simp add: plain_name_def demo_request_def)
qed

lemma demo_run: "\<exists>out js. runCommand None demo_world (demo_client 100) demo_request demo_server = Inr (out, js) \<and> o_status out = 0 \<and> o_jobid out = 9"
proof -
  have q: "\<exists>q. findQueue demo_server ''batch'' = Some q \<and> \<not> has_flag (q_internal_state q) JERS_FLAG_DELETED \<and>
      has_flag (q_state q) JERS_QUEUE_FLAG_OPEN" and k: "findJob demo_server 9 = None"
    by (simp_all add: findQueue_def findJob_def demo_defs table_simps has_flag_def)
  show ?thesis using q k
    by (auto simp: demo_request_def demo_arg_fields first_item_def array_field_def getStringArrayField_def request_simps
        deserialize_add_job_def add_job_field_def command_add_job_def jersJobAdd_init_def unless_recovery_def guard_perm_def check_perm_def
        add_job_checked_def add_job_queue_def add_job_reuse_def add_job_tail_def add_job_resources_def add_job_id_def
        add_job_commit_def sendClientMessage_def getStringField_def cuint_def has_flag_def)
qed



text \<open>The smallest reply: no job matches.\<close>

lemma empty_reply: "reply_ok (RData False [])" "reply_clean (RData False [])"
proof -
  have "length (int64tostr 1) \<le> 21" by (rule int64tostr_length) simp_all
  then show "reply_ok (RData False [])"
    by (simp add: reply_ok_def response_text_def data_text_def alert_text_def)
  show "reply_clean (RData False [])" by (simp add: reply_clean_def)
qed

lemma get_request_ok:
  assumes "name \<in> {''JOB_GET'', ''JOB_DEL''}"
  shows "good_item [num_field JOBID 9]" "length (request_text name 1 [num_field JOBID 9]) \<le> 1000"
proof -
  have "length (int64tostr 9) \<le> 21" "length (int64tostr 1) \<le> 21" by (rule int64tostr_length; simp)+
  then show "length (request_text name 1 [num_field JOBID 9]) \<le> 1000"
    using assms by (auto simp: request_text_def field_text_def num_field_def demo_names)
  show "good_item [num_field JOBID 9]" by (simp add: good_item_def field_ok_def num_field_def demo_names)
qed


text \<open>An error of the daemon reaches the caller of any function of the library: its number, and its text
  without leading white space, up to a newline and 127 bytes.\<close>

theorem error_reported:
  assumes "in_place alloc" and "idle a" and "good_item fs" and "length (request_text name 1 fs) < 2 ^ 56"
    and "n_sends (ap_net a) = map Sent ns" and "length (request_text name 1 fs) \<le> sum_list ns"
    and "0 \<le> err" and "err \<le> JERS_ERR_UNKNOWN" and "reply_ok (RError err t)" and "reply_clean (RError err t)"
    and "list_all healthy (n_recvs (ap_net a))" and "arrivals (n_recvs (ap_net a)) = reply_text (RError err t)"
  shows "\<exists>a'. exchange alloc fresh name fs failed k a = Returned failed a' \<and> ap_errno a' = err \<and>
    ap_err_string a' = passed_message err t \<and> idle a'"
proof -
  have len: "length (reply_text (RError err t)) < 2 ^ 60"
    using jstring_length(2) [of "error_text err t"] assms(9) by (simp add: reply_text_def reply_ok_def short_text_def quoted_name_def)
  obtain m a' where m: "reply_read (RError err t) m"
    "exchange alloc fresh name fs failed k a = (case m_error m of
       Some t \<Rightarrow> Returned failed (setJersErrno (fst (getJersErrno t)) (snd (getJersErrno t)) a') | None \<Rightarrow> k m a')" "idle a'"
    by (rule exchange_reply [OF assms(1-6) assms(11,12,9,10) len])
  then show ?thesis by (simp add: reply_read_def error_read [OF assms(7,8)])
qed

lemma refusal_ok: "reply_ok (RError JERS_ERR_NOPERM None)" "reply_clean (RError JERS_ERR_NOPERM None)"
  by (simp_all add: reply_ok_def reply_clean_def error_text_def getErrType_def jers_errors_def short_text_def scannable_def)

lemma reply_text_nonempty: "reply_text r \<noteq> []"
  by (cases r) (simp_all add: reply_text_def response_text_def)

theorem error_reported_witness:
  "\<exists>a'. jersDelJob (\<lambda>_. AllocSame) [] 9 (demo_api [Arrived (reply_text (RError JERS_ERR_NOPERM None))]) = Returned 1 a' \<and>
     ap_errno a' = JERS_ERR_NOPERM"
proof -
  have "\<exists>a'. exchange (\<lambda>_. AllocSame) [] ''JOB_DEL'' [num_field JOBID 9] 1 (\<lambda>m. Returned 0)
      (setJersErrno JERS_ERR_OK None (demo_api [Arrived (reply_text (RError JERS_ERR_NOPERM None))])) = Returned 1 a' \<and>
      ap_errno a' = JERS_ERR_NOPERM \<and> ap_err_string a' = passed_message JERS_ERR_NOPERM None \<and> idle a'"
    by (rule error_reported [where ns = "[10, 1000000]"])
      (use get_request_ok [of "''JOB_DEL''"] refusal_ok in \<open>simp_all add: in_place_def reply_text_nonempty\<close>)
  then show ?thesis by (auto simp: jersDelJob_def with_api_idle simple_exchange_def)
qed

text \<open>C40. A reply that is still in the stream, as the second answer of the daemon to a wait, is taken for the
  answer to the next request: a deletion that the daemon refuses is reported as done, and its refusal is
  left for the request after it.\<close>

theorem stale_reply_hides_refusal:
  assumes "in_place alloc" and "idle a" and "good_item [num_field JOBID (int k)]"
    and "length (request_text ''JOB_DEL'' 1 [num_field JOBID (int k)]) < 2 ^ 56"
    and "n_sends (ap_net a) = map Sent ns" and "length (request_text ''JOB_DEL'' 1 [num_field JOBID (int k)]) \<le> sum_list ns"
    and "list_all healthy (n_recvs (ap_net a))" and "reply_ok (RError err t)"
    and "arrivals (n_recvs (ap_net a)) = reply_text (RReturn ''0'') @ reply_text (RError err t)"
  shows "\<exists>a'. jersDelJob alloc fresh k a = Returned 0 a' \<and>
    bdata (ap_response a') @ arrivals (n_recvs (ap_net a')) = reply_text (RError err t)"
proof -
  let ?a = "setJersErrno JERS_ERR_OK None a"
  have len: "length (reply_text (RReturn ''0'')) + length (reply_text (RError err t)) < 2 ^ 60"
    using jstring_length(2) [of "error_text err t"] jstring_length(2) [of "''0''"] assms(8)
    by (simp add: reply_text_def reply_ok_def short_text_def quoted_name_def)
  have r: "reply_ok (RReturn ''0'')" "reply_clean (RReturn ''0'')"
    by (simp_all add: reply_ok_def reply_clean_def short_text_def scannable_def)
  have pre: "idle ?a" "n_sends (ap_net ?a) = map Sent ns" "list_all healthy (n_recvs (ap_net ?a))"
    "arrivals (n_recvs (ap_net ?a)) = reply_text (RReturn ''0'') @ reply_text (RError err t)"
    using assms(2,5,7,9) by simp_all
  obtain m a' where m: "reply_read (RReturn ''0'') m"
    "exchange alloc fresh ''JOB_DEL'' [num_field JOBID (int k)] (1 :: int) (\<lambda>m. Returned 0) ?a = (case m_error m of
       Some t \<Rightarrow> Returned 1 (setJersErrno (fst (getJersErrno t)) (snd (getJersErrno t)) a') | None \<Rightarrow> Returned 0 a')"
    "bdata (ap_response a') @ arrivals (n_recvs (ap_net a')) = reply_text (RError err t)"
    by (rule exchange_first [OF assms(1) pre(1) assms(3,4) pre(2) assms(6) pre(3,4) r len])
  have "m_error m = None" using m(1) by (simp add: reply_read_def msg_zero_def)
  with m assms(2) show ?thesis by (intro exI [of _ a']) (simp add: jersDelJob_def with_api_idle simple_exchange_def)
qed

theorem stale_reply_hides_refusal_witness:
  "\<exists>a'. jersDelJob (\<lambda>_. AllocSame) [] 9 (demo_api [Arrived (reply_text (RReturn ''0'')),
      Arrived (reply_text (RError JERS_ERR_NOPERM None))]) = Returned 0 a'"
proof -
  have "\<exists>a'. jersDelJob (\<lambda>_. AllocSame) [] 9 (demo_api [Arrived (reply_text (RReturn ''0'')),
      Arrived (reply_text (RError JERS_ERR_NOPERM None))]) = Returned 0 a' \<and>
      bdata (ap_response a') @ arrivals (n_recvs (ap_net a')) = reply_text (RError JERS_ERR_NOPERM None)"
    by (rule stale_reply_hides_refusal [where ns = "[10, 1000000]"])
      (use get_request_ok [of "''JOB_DEL''"] refusal_ok in \<open>simp_all add: in_place_def reply_text_nonempty\<close>)
  then show ?thesis by blast
qed

text \<open>A send that is interrupted before the first byte is taken for a complete one: nothing is sent, and
  the caller goes on to wait for a reply.\<close>

theorem interrupted_send_is_lost:
  assumes "n_sends (ap_net a) = SendInterrupted # evs" and "t \<noteq> []" and "length t < size_max"
  shows "\<exists>a'. sendRequest t a = Returned 0 a' \<and> n_wire (ap_net a') = n_wire (ap_net a)"
proof -
  have "send_loop t (size_max - 1) evs w = (Some None, evs, w)" for w
    using assms(3) by (subst send_loop.simps) auto
  moreover have "\<not> length t \<le> 0" using assms(2) by simp
  ultimately have "send_loop t 0 (SendInterrupted # evs) w = (Some None, evs, w)" for w
    by (subst send_loop.simps) simp
  then show ?thesis using assms(1) by (simp add: sendRequest_def)
qed

theorem interrupted_send_is_lost_witness:
  "\<exists>a'. sendRequest ''x'' ((demo_api [])\<lparr>ap_net := (ap_net (demo_api []))\<lparr>n_sends := [SendInterrupted, Sent 5]\<rparr>\<rparr>) = Returned 0 a' \<and>
     n_wire (ap_net a') = []"
  using interrupted_send_is_lost [of "(demo_api [])\<lparr>ap_net := (ap_net (demo_api []))\<lparr>n_sends := [SendInterrupted, Sent 5]\<rparr>\<rparr>" "[Sent 5]" "''x''"]
  by simp

end
