(* ===== verification/Users.thy ===== *)
theory Users
  imports Commands
begin

section \<open>Users: the cache of user details, common.c\<close>

text \<open>
  \<open>lookup_user\<close> and \<open>load_users_env\<close> of \<open>src/src/common.c\<close>. The user database, the group database
  and what the environment helper \<open>jers_dump_env\<close> writes are parameters. A cached entry keeps the
  strings of the environment in an array of \<open>env_size\<close> pointers; \<open>Freed\<close> is a pointer to an array that
  has been freed.
\<close>

abbreviation (input) CACHE_EXPIRY :: int where "CACHE_EXPIRY \<equiv> 900"

datatype env_block = NoEnv | Env "string list" | Freed

record cached_user =
  cu_uid :: int
  cu_gid :: int
  cu_permissions :: int
  cu_username :: string
  cu_shell :: string
  cu_home_dir :: string
  cu_group_list :: "int list"
  cu_env_size :: nat
  cu_users_env :: env_block
  cu_expiry :: int

record passwd =
  pw_name :: string
  pw_gid :: int
  pw_shell :: string
  pw_dir :: string

record user_db =
  db_getpwuid :: "int \<Rightarrow> passwd option"
  db_getgrouplist :: "string \<Rightarrow> int \<Rightarrow> int list option"
  db_dump_env :: "string \<Rightarrow> string option"

record user_cache =
  uc_users :: "cached_user list"
  uc_clear :: bool

subsection \<open>The environment of a user\<close>

text \<open>
  The loop that splits the bytes of the helper: \<open>rest\<close> are the bytes from \<open>ptr\<close> to \<open>end\<close>, behind
  which the buffer has a NUL. The pointer is stored and then moved by one byte before the end of
  the string is looked for. The array doubles when it is full.
\<close>

lemma next_string_shorter: "rest \<noteq> [] \<Longrightarrow> length (drop 1 (dropWhile P (tl rest))) < length rest"
  using length_dropWhile_le [of P "tl rest"] by (cases rest) auto

function split_env :: "nat \<Rightarrow> string list \<Rightarrow> string \<Rightarrow> fault + string list \<times> nat" where
  "split_env env_size envs rest =
     (if rest = [] then (if length envs < env_size then Inr (envs, env_size) else Inl Overflow)
      else if env_size \<le> length envs then Inl Overflow
      else (let envs = envs @ [takeWhile (\<lambda>c. c \<noteq> CHR 0x00) rest];
                env_size = (if length envs = env_size then env_size * 2 else env_size)
            in split_env env_size envs (drop 1 (dropWhile (\<lambda>c. c \<noteq> CHR 0x00) (tl rest)))))"
  by pat_completeness auto

termination
  by (relation "measure (\<lambda>(env_size, envs, rest). length rest)", simp)
     (simp only: in_measure case_prod_conv next_string_shorter not_False_eq_True)

declare split_env.simps [simp del]

definition load_users_env :: "string option \<Rightarrow> cached_user \<Rightarrow> fault + cached_user option" where
  "load_users_env dump u =
     (case dump of
        None \<Rightarrow> Inr None
      | Some bytes \<Rightarrow>
          bindR (split_env (if cu_env_size u = 0 then 256 else cu_env_size u) [] bytes) (\<lambda>(envs, env_size).
          Inr (Some (u\<lparr>cu_env_size := env_size, cu_users_env := Env envs\<rparr>))))"

subsection \<open>The cache\<close>

definition freeUserCache :: "user_cache \<Rightarrow> user_cache" where
  "freeUserCache uc = uc\<lparr>uc_users := []\<rparr>"

definition clearCacheHandler :: "user_cache \<Rightarrow> user_cache" where
  "clearCacheHandler uc = uc\<lparr>uc_clear := True\<rparr>"

definition zero_user :: cached_user where
  "zero_user = \<lparr>cu_uid = 0, cu_gid = 0, cu_permissions = 0, cu_username = [], cu_shell = [], cu_home_dir = [], cu_group_list = [],
     cu_env_size = 0, cu_users_env = NoEnv, cu_expiry = 0\<rparr>"

text \<open>\<open>free\<close> on the array of an entry that is refreshed.\<close>

definition free_env :: "env_block \<Rightarrow> fault + env_block" where
  "free_env e = (case e of NoEnv \<Rightarrow> Inr NoEnv | Env _ \<Rightarrow> Inr Freed | Freed \<Rightarrow> Inl StalePointer)"

definition refresh_user :: "user_db \<Rightarrow> int \<Rightarrow> int \<Rightarrow> bool \<Rightarrow> cached_user \<Rightarrow> fault + cached_user option" where
  "refresh_user db now uid load_env u =
     (case db_getpwuid db uid of
        None \<Rightarrow> Inr None
      | Some pw \<Rightarrow>
          (case db_getgrouplist db (pw_name pw) (pw_gid pw) of
             None \<Rightarrow> Inr None
           | Some groups \<Rightarrow>
               bindR (if load_env then load_users_env (db_dump_env db (pw_name pw)) u else Inr (Some u)) (\<lambda>r.
               Inr (map_option (\<lambda>u. u\<lparr>cu_uid := uid, cu_gid := pw_gid pw, cu_username := pw_name pw,
                  cu_shell := pw_shell pw, cu_home_dir := pw_dir pw, cu_group_list := groups,
                  cu_expiry := now + CACHE_EXPIRY, cu_permissions := -1\<rparr>) r))))"

definition lookup_user :: "user_db \<Rightarrow> int \<Rightarrow> int \<Rightarrow> bool \<Rightarrow> user_cache \<Rightarrow> fault + cached_user option \<times> user_cache" where
  "lookup_user db now uid load_env uc =
     (let uc = (if uc_clear uc then freeUserCache (uc\<lparr>uc_clear := False\<rparr>) else uc);
          found = tfind cu_uid uid (uc_users uc)
      in case found of
           None \<Rightarrow>
             bindR (refresh_user db now uid load_env zero_user) (\<lambda>r.
             Inr (r, case r of None \<Rightarrow> uc | Some u \<Rightarrow> uc\<lparr>uc_users := tadd u (uc_users uc)\<rparr>))
         | Some u \<Rightarrow>
             if now < cu_expiry u \<and> (\<not> load_env \<or> cu_users_env u \<noteq> NoEnv) then Inr (Some u, uc)
             else
               bindR (free_env (cu_users_env u)) (\<lambda>e.
               bindR (refresh_user db now uid load_env (u\<lparr>cu_users_env := e\<rparr>)) (\<lambda>r.
               Inr (r, uc\<lparr>uc_users := (case r of None \<Rightarrow> tdel cu_uid uid (uc_users uc)
                                              | Some u' \<Rightarrow> tupd cu_uid uid (\<lambda>_. u') (uc_users uc))\<rparr>))))"

subsection \<open>Lemmas\<close>

text \<open>The strings a block of NUL-terminated strings holds.\<close>

lemma split_env_strings:
  assumes "list_all (\<lambda>s. s \<noteq> [] \<and> CHR 0x00 \<notin> set s) ss" and "length envs < n"
  shows "\<exists>n'. split_env n envs (concat (map (\<lambda>s. s @ [CHR 0x00]) ss)) = Inr (envs @ ss, n') \<and> length envs + length ss < n'"
  using assms
proof (induction ss arbitrary: n envs)
  case Nil
  then show ?case by (subst split_env.simps) simp
next
  case (Cons s ss)
  then obtain c cs where s: "s = c # cs" by (cases s) auto
  let ?n = "if Suc (length envs) = n then n * 2 else n"
  have first: "takeWhile (\<lambda>c. c \<noteq> CHR 0x00) (s @ CHR 0x00 # r) = s" for r
    using Cons.prems by (auto intro!: takeWhile_append_stop)
  have skip: "dropWhile (\<lambda>c. c \<noteq> CHR 0x00) (cs @ CHR 0x00 # r) = CHR 0x00 # r" for r
    using Cons.prems s by (auto intro: dropWhile_append_stop)
  have "split_env n envs (concat (map (\<lambda>s. s @ [CHR 0x00]) (s # ss))) =
      split_env ?n (envs @ [s]) (concat (map (\<lambda>s. s @ [CHR 0x00]) ss))"
    using Cons.prems first skip s by (subst split_env.simps) (simp add: Let_def)
  moreover have "length (envs @ [s]) < ?n" using Cons.prems by auto
  ultimately show ?case using Cons.IH [of "envs @ [s]" ?n] Cons.prems by auto
qed

text \<open>The splitting never leaves the array, whatever the bytes.\<close>

lemma split_env_total: "length envs < n \<Longrightarrow> \<exists>es n'. split_env n envs rest = Inr (es, n') \<and> length es < n'"
proof (induction n envs rest rule: split_env.induct)
  case (1 n envs rest)
  show ?case
  proof (cases "rest = []")
    case True
    with 1 show ?thesis by (subst split_env.simps) simp
  next
    case False
    let ?envs = "envs @ [takeWhile (\<lambda>c. c \<noteq> CHR 0x00) rest]"
    let ?n = "if length ?envs = n then n * 2 else n"
    have "length ?envs < ?n" using 1(2) by auto
    then show ?thesis using False 1 by (subst split_env.simps) (simp add: Let_def)
  qed
qed

end
