(* ===== verification/State_File.thy ===== *)
theory State_File
  imports Events
begin

section \<open>State files: what the daemon writes to disk and reads back, state.c\<close>

text \<open>
  The saving and loading half of \<open>src/src/state.c\<close>: the files of jobs, queues and resources
  and the file with the jobid hint. A file is the text \<open>fprintf\<close> writes into it and \<open>getline\<close>
  reads from it; the state directory is a prefix of the paths. What \<open>glob\<close> finds is a list
  of paths and contents. An array that is indexed outside what was allocated for it is the
  fault \<open>Overflow\<close>, \<open>error_die\<close> is \<open>Abort\<close>; an array slot that was allocated and never
  written holds \<open>None\<close> or the empty string.
\<close>

unbundle bit_operations_syntax

abbreviation (input) JERS_QUEUE_DEFAULT_LIMIT :: int where "JERS_QUEUE_DEFAULT_LIMIT \<equiv> 1"
abbreviation (input) JERS_QUEUE_DEFAULT_PRIORITY :: int where "JERS_QUEUE_DEFAULT_PRIORITY \<equiv> 100"
abbreviation (input) JERS_QUEUE_DEFAULT_STATE :: flags where "JERS_QUEUE_DEFAULT_STATE \<equiv> JERS_QUEUE_FLAG_OPEN"
abbreviation (input) STATE_DIV_FACTOR :: nat where "STATE_DIV_FACTOR \<equiv> 10000"
abbreviation SLASH :: char where "SLASH \<equiv> CHR ''/''"

subsection \<open>Lines of a file\<close>

text \<open>\<open>getline\<close>: a line with its newline, and the text behind it.\<close>

fun getline :: "string \<Rightarrow> string \<times> string" where
  "getline [] = ([], [])"
| "getline (c # cs) = (if c = NL then ([c], cs) else (let (l, r) = getline cs in (c # l, r)))"

lemma getline_append: "fst (getline t) @ snd (getline t) = t"
  by (induction t) (auto simp: split_def Let_def)

lemma getline_shorter: "t \<noteq> [] \<Longrightarrow> length (snd (getline t)) < length t"
proof -
  have "length (snd (getline t)) \<le> length t" for t
    by (induction t) (auto simp: split_def Let_def)
  then show "t \<noteq> [] \<Longrightarrow> length (snd (getline t)) < length t"
    by (cases t) (auto simp: split_def Let_def less_Suc_eq_le)
qed

function file_lines :: "string \<Rightarrow> string list" where
  "file_lines t = (if t = [] then [] else fst (getline t) # file_lines (snd (getline t)))"
  by pat_completeness auto
termination
  by (relation "measure length") (simp_all add: getline_shorter)

declare file_lines.simps [simp del]

definition chomp :: "string \<Rightarrow> string" where
  "chomp l = (if l \<noteq> [] \<and> last l = NL then butlast l else l)"

definition file_text :: "string list \<Rightarrow> string" where
  "file_text ls = concat (map (\<lambda>l. l @ [NL]) ls)"

text \<open>\<open>strrchr\<close>: the text behind the last occurrence, and the text before it.\<close>

definition after_last :: "char \<Rightarrow> string \<Rightarrow> string option" where
  "after_last c t = (if c \<in> set t then Some (rev (takeWhile (\<lambda>d. d \<noteq> c) (rev t))) else None)"

definition before_last :: "char \<Rightarrow> string \<Rightarrow> string option" where
  "before_last c t = (if c \<in> set t then Some (rev (tl (dropWhile (\<lambda>d. d \<noteq> c) (rev t)))) else None)"

subsection \<open>Paths\<close>

definition job_path :: "string \<Rightarrow> nat \<Rightarrow> string" where
  "job_path dir k = dir @ ''/jobs/'' @ int64tostr (int (k div STATE_DIV_FACTOR)) @ ''/'' @ int64tostr (int k) @ ''.job''"

definition queue_path :: "string \<Rightarrow> string \<Rightarrow> string" where
  "queue_path dir n = dir @ ''/queues/'' @ n @ ''.queue''"

definition res_path :: "string \<Rightarrow> string \<Rightarrow> string" where
  "res_path dir n = dir @ ''/resources/'' @ n @ ''.resource''"

subsection \<open>Saving\<close>

definition line :: "string \<Rightarrow> string \<Rightarrow> string" where
  "line key v = key @ SPC # v"

definition indexed :: "string \<Rightarrow> nat \<Rightarrow> string \<Rightarrow> string" where
  "indexed key i v = key @ ''['' @ int64tostr (int i) @ '']'' @ SPC # v"

definition str_line :: "string \<Rightarrow> string option \<Rightarrow> string list" where
  "str_line key v = (case v of None \<Rightarrow> [] | Some v \<Rightarrow> [line key (escape_chars v)])"

definition num_line :: "string \<Rightarrow> int \<Rightarrow> string list" where
  "num_line key n = (if n = 0 then [] else [line key (int64tostr n)])"

definition nice_line :: "int \<Rightarrow> string list" where
  "nice_line n = (if n = UNSET_32 then [] else [line ''NICE'' (int64tostr n)])"

definition list_lines :: "string \<Rightarrow> ('a \<Rightarrow> string) \<Rightarrow> 'a list \<Rightarrow> string list" where
  "list_lines key f xs = map (\<lambda>i. indexed key i (f (xs ! i))) [0 ..< length xs]"

text \<open>\<open>printf\<close> prints a NULL string as \<open>(null)\<close>; \<open>escapeString\<close> does not accept one.\<close>

definition env_text :: "string option \<Rightarrow> string" where
  "env_text e = (case e of Some e \<Rightarrow> e | None \<Rightarrow> ''(null)'')"

definition tag_text :: "string \<times> string option \<Rightarrow> string" where
  "tag_text t = fst t @ TAB # (case snd t of Some v \<Rightarrow> escape_chars v | None \<Rightarrow> [])"

definition res_text :: "string \<times> int \<Rightarrow> string" where
  "res_text r = fst r @ CHR '':'' # int64tostr (int32 (snd r))"

definition usage_lines :: "rusage \<Rightarrow> string list" where
  "usage_lines u =
     [line ''USAGE_UTIME_SEC'' (int64tostr (ru_utime_sec u)),
      line ''USAGE_UTIME_USEC'' (int64tostr (ru_utime_usec u)),
      line ''USAGE_STIME_SEC'' (int64tostr (ru_stime_sec u)),
      line ''USAGE_STIME_USEC'' (int64tostr (ru_stime_usec u)),
      line ''USAGE_MAXRSS'' (int64tostr (ru_maxrss u)),
      line ''USAGE_MINFLT'' (int64tostr (ru_minflt u)),
      line ''USAGE_MAJFLT'' (int64tostr (ru_majflt u)),
      line ''USAGE_INBLOCK'' (int64tostr (ru_inblock u)),
      line ''USAGE_OUBLOCK'' (int64tostr (ru_oublock u)),
      line ''USAGE_NVCSW'' (int64tostr (ru_nvcsw u)),
      line ''USAGE_NIVCSW'' (int64tostr (ru_nivcsw u))]"

text \<open>The lines behind the two comments at the head of the file.\<close>

definition job_lines :: "job \<Rightarrow> string list" where
  "job_lines j =
     [line ''REVISION'' (int64tostr (j_revision j)),
      line ''JOBNAME'' (escape_chars (j_jobname j)),
      line ''QUEUENAME'' (escape_chars (j_queue j)),
      line ''SUBMITTIME'' (int64tostr (j_submit_time j)),
      line ''SUBMITTER'' (int64tostr (int32 (j_submitter j))),
      line ''ARGC'' (int64tostr (int (length (j_argv j))))] @
     list_lines ''ARGV'' (\<lambda>a. escape_chars (the a)) (j_argv j) @
     str_line ''SHELL'' (j_shell j) @
     str_line ''PRECMD'' (j_pre_cmd j) @
     str_line ''POSTCMD'' (j_post_cmd j) @
     str_line ''STDOUT'' (j_stdout j) @
     str_line ''STDERR'' (j_stderr j) @
     num_line ''ENV_COUNT'' (int (length (j_envs j))) @
     list_lines ''ENV'' env_text (j_envs j) @
     num_line ''TAG_COUNT'' (int (length (j_tags j))) @
     list_lines ''TAG'' tag_text (j_tags j) @
     num_line ''RES_COUNT'' (int (length (j_req_resources j))) @
     list_lines ''RES'' res_text (j_req_resources j) @
     num_line ''UID'' (int32 (j_uid j)) @
     nice_line (j_nice j) @
     num_line ''STATE'' (sint (j_state j)) @
     num_line ''PRIORITY'' (j_priority j) @
     num_line ''DEFERTIME'' (j_defer_time j) @
     num_line ''STARTTIME'' (j_start_time j) @
     num_line ''FINISHTIME'' (j_finish_time j) @
     num_line ''EXITCODE'' (j_exitcode j) @
     num_line ''SIGNAL'' (j_signal j) @
     num_line ''FLAGS'' (j_flags j) @
     (if j_finish_time j = 0 then [] else usage_lines (j_usage j))"

definition stateSaveJob :: "int \<Rightarrow> job \<Rightarrow> fault + string" where
  "stateSaveJob now j =
     (if None \<in> set (j_argv j) then Inl NullPointer
      else Inr (file_text
        ([''# JOB '' @ int64tostr (int (j_jobid j)), ''# SAVETIME '' @ int64tostr now] @ job_lines j)))"

definition stateSaveQueue :: "int \<Rightarrow> server \<Rightarrow> queue \<Rightarrow> string" where
  "stateSaveQueue now s q =
     file_text
       ([''# QUEUE '' @ q_name q, ''# SAVETIME '' @ int64tostr now] @
        (case q_desc q of None \<Rightarrow> [] | Some d \<Rightarrow> [line ''DESC'' d]) @
        [line ''JOBLIMIT'' (int64tostr (q_job_limit q)), line ''PRIORITY'' (int64tostr (q_priority q)),
         line ''HOST'' (q_host q), line ''REVISION'' (int64tostr (q_revision q))] @
        nice_line (q_nice q) @
        (if defaultQueue s = Some (q_name q) then [line ''DEFAULT'' ''1''] else []))"

definition stateSaveResource :: "int \<Rightarrow> resource \<Rightarrow> string" where
  "stateSaveResource now r =
     file_text
       [''# RESOURCE '' @ r_name r, ''# SAVETIME '' @ int64tostr now,
        line ''COUNT'' (int64tostr (r_count r)), line ''REVISION'' (int64tostr (r_revision r))]"

definition stateSaveJobID :: "nat \<Rightarrow> string" where
  "stateSaveJobID k = int64tostr (int k)"

text \<open>The file may be missing or empty.\<close>

definition stateLoadJobID :: "string option \<Rightarrow> nat" where
  "stateLoadJobID f =
     (case f of None \<Rightarrow> 0
      | Some t \<Rightarrow> if t = [] then 0 else nat (uint32 (atoi (fst (getline t)))))"

subsection \<open>Loading\<close>

fun load_lines :: "(string \<Rightarrow> int \<Rightarrow> string \<Rightarrow> 'a \<Rightarrow> fault + 'a) \<Rightarrow> string list \<Rightarrow> 'a \<Rightarrow> fault + 'a" where
  "load_lines set_key [] a = Inr a"
| "load_lines set_key (l # ls) a =
     (case loadKeyValue (chomp l) of
        KvNone \<Rightarrow> load_lines set_key ls a
      | KvFault \<Rightarrow> Inl Overflow
      | KvPair key ix v \<Rightarrow>
          bindR (set_key key (case ix of Some i \<Rightarrow> i | None \<Rightarrow> 0) v a) (load_lines set_key ls))"

definition put :: "int \<Rightarrow> 'a \<Rightarrow> 'a list \<Rightarrow> fault + 'a list" where
  "put i x xs = (if 0 \<le> i \<and> i < int (length xs) then Inr (xs[nat i := x]) else Inl Overflow)"

definition split_tag :: "string \<Rightarrow> string \<times> string option" where
  "split_tag v =
     (takeWhile (\<lambda>c. c \<noteq> TAB) v,
      case dropWhile (\<lambda>c. c \<noteq> TAB) v of [] \<Rightarrow> None | _ # t \<Rightarrow> Some t)"

text \<open>The \<open>USAGE_\<close> keys; every other key is skipped without a message.\<close>

definition set_usage :: "string \<Rightarrow> int \<Rightarrow> rusage \<Rightarrow> rusage" where
  "set_usage key n u =
     (if key = ''USAGE_UTIME_SEC'' then u\<lparr>ru_utime_sec := n\<rparr>
      else if key = ''USAGE_UTIME_USEC'' then u\<lparr>ru_utime_usec := n\<rparr>
      else if key = ''USAGE_STIME_SEC'' then u\<lparr>ru_stime_sec := n\<rparr>
      else if key = ''USAGE_STIME_USEC'' then u\<lparr>ru_stime_usec := n\<rparr>
      else if key = ''USAGE_MAXRSS'' then u\<lparr>ru_maxrss := n\<rparr>
      else if key = ''USAGE_MINFLT'' then u\<lparr>ru_minflt := n\<rparr>
      else if key = ''USAGE_MAJFLT'' then u\<lparr>ru_majflt := n\<rparr>
      else if key = ''USAGE_INBLOCK'' then u\<lparr>ru_inblock := n\<rparr>
      else if key = ''USAGE_OUBLOCK'' then u\<lparr>ru_oublock := n\<rparr>
      else if key = ''USAGE_NVCSW'' then u\<lparr>ru_nvcsw := n\<rparr>
      else if key = ''USAGE_NIVCSW'' then u\<lparr>ru_nivcsw := n\<rparr>
      else u)"

text \<open>
  One line of a job file. The pair holds the queue pointer, NULL until \<open>QUEUENAME\<close> was
  read, and the other members.
\<close>

definition set_job :: "server \<Rightarrow> string \<Rightarrow> int \<Rightarrow> string \<Rightarrow> string option \<times> job \<Rightarrow> fault + string option \<times> job" where
  "set_job s key ix v qj =
     (let qp = fst qj; j = snd qj in
      if key = ''JOBNAME'' then Inr (qp, j\<lparr>j_jobname := v\<rparr>)
      else if key = ''QUEUENAME'' then
        (case findQueue s v of None \<Rightarrow> Inl Abort | Some q \<Rightarrow> Inr (Some (q_name q), j))
      else if key = ''SHELL'' then Inr (qp, j\<lparr>j_shell := Some v\<rparr>)
      else if key = ''PRECMD'' then Inr (qp, j\<lparr>j_pre_cmd := Some v\<rparr>)
      else if key = ''POSTCMD'' then Inr (qp, j\<lparr>j_post_cmd := Some v\<rparr>)
      else if key = ''STDOUT'' then Inr (qp, j\<lparr>j_stdout := Some v\<rparr>)
      else if key = ''STDERR'' then Inr (qp, j\<lparr>j_stderr := Some v\<rparr>)
      else if key = ''ARGC'' then Inr (qp, j\<lparr>j_argv := replicate (nat (atoi v)) None\<rparr>)
      else if key = ''ARGV'' then bindR (put ix (Some v) (j_argv j)) (\<lambda>xs. Inr (qp, j\<lparr>j_argv := xs\<rparr>))
      else if key = ''ENV_COUNT'' then Inr (qp, j\<lparr>j_envs := replicate (nat (atoi v)) None\<rparr>)
      else if key = ''ENV'' then bindR (put ix (Some v) (j_envs j)) (\<lambda>xs. Inr (qp, j\<lparr>j_envs := xs\<rparr>))
      else if key = ''TAG_COUNT'' then Inr (qp, j\<lparr>j_tags := replicate (nat (atoi v)) ([], None)\<rparr>)
      else if key = ''TAG'' then bindR (put ix (split_tag v) (j_tags j)) (\<lambda>xs. Inr (qp, j\<lparr>j_tags := xs\<rparr>))
      else if key = ''RES_COUNT'' then Inr (qp, j\<lparr>j_req_resources := replicate (nat (atoi v)) ([], 0)\<rparr>)
      else if key = ''RES'' then
        (case resourceStringToResource s v of
           None \<Rightarrow> Inl Abort
         | Some r \<Rightarrow> bindR (put ix r (j_req_resources j)) (\<lambda>xs. Inr (qp, j\<lparr>j_req_resources := xs\<rparr>)))
      else if key = ''UID'' then Inr (qp, j\<lparr>j_uid := uint32 (atoi v)\<rparr>)
      else if key = ''SUBMITTER'' then Inr (qp, j\<lparr>j_submitter := uint32 (atoi v)\<rparr>)
      else if key = ''NICE'' then Inr (qp, j\<lparr>j_nice := atoi v\<rparr>)
      else if key = ''STATE'' then Inr (qp, j\<lparr>j_state := word_of_int (atoi v)\<rparr>)
      else if key = ''PRIORITY'' then Inr (qp, j\<lparr>j_priority := atoi v\<rparr>)
      else if key = ''SUBMITTIME'' then Inr (qp, j\<lparr>j_submit_time := fst (strtoint64 v)\<rparr>)
      else if key = ''DEFERTIME'' then Inr (qp, j\<lparr>j_defer_time := fst (strtoint64 v)\<rparr>)
      else if key = ''FINISHTIME'' then Inr (qp, j\<lparr>j_finish_time := fst (strtoint64 v)\<rparr>)
      else if key = ''STARTTIME'' then Inr (qp, j\<lparr>j_start_time := fst (strtoint64 v)\<rparr>)
      else if key = ''EXITCODE'' then Inr (qp, j\<lparr>j_exitcode := atoi v\<rparr>)
      else if key = ''SIGNAL'' then Inr (qp, j\<lparr>j_signal := atoi v\<rparr>)
      else if key = ''FLAGS'' then Inr (qp, j\<lparr>j_flags := fst (strtoint64 v)\<rparr>)
      else if key = ''REVISION'' then Inr (qp, j\<lparr>j_revision := fst (strtoint64 v)\<rparr>)
      else Inr (qp, j\<lparr>j_usage := set_usage key (fst (strtoint64 v)) (j_usage j)\<rparr>))"

definition stateLoadJob :: "server \<Rightarrow> string \<Rightarrow> string \<Rightarrow> fault + job" where
  "stateLoadJob s fileName t =
     (case after_last SLASH fileName of
        None \<Rightarrow> Inl Abort
      | Some name \<Rightarrow>
          bindR (load_lines (set_job s) (file_lines t) (None, job_zero\<lparr>j_jobid := nat (uint32 (atoi name))\<rparr>))
            (\<lambda>(qp, j). case qp of
               None \<Rightarrow> Inl Abort
             | Some n \<Rightarrow> Inr (j\<lparr>j_queue := n, j_state := if j_state j = 0 then JERS_JOB_PENDING else j_state j\<rparr>)))"

text \<open>The result of \<open>addJob\<close> is ignored.\<close>

fun stateLoadJobs :: "(string \<times> string) list \<Rightarrow> server \<Rightarrow> fault + server" where
  "stateLoadJobs [] s = Inr s"
| "stateLoadJobs ((p, t) # fs) s =
     bindR (stateLoadJob s p t) (\<lambda>j. stateLoadJobs fs (snd (addJob j False s)))"

text \<open>The name a queue or resource file carries: the file name up to its last dot.\<close>

definition file_stem :: "string \<Rightarrow> fault + string" where
  "file_stem fileName =
     (case after_last SLASH fileName of
        None \<Rightarrow> Inl Abort
      | Some name \<Rightarrow> (case before_last (CHR ''.'') name of None \<Rightarrow> Inl Abort | Some n \<Rightarrow> Inr n))"

definition set_queue :: "string \<Rightarrow> int \<Rightarrow> string \<Rightarrow> string option \<times> queue \<Rightarrow> fault + string option \<times> queue" where
  "set_queue key ix v hq =
     (let h = fst hq; q = snd hq in
      if key = ''DESC'' then Inr (h, q\<lparr>q_desc := Some v\<rparr>)
      else if key = ''JOBLIMIT'' then Inr (h, q\<lparr>q_job_limit := atoi v\<rparr>)
      else if key = ''PRIORITY'' then Inr (h, q\<lparr>q_priority := atoi v\<rparr>)
      else if key = ''DEFAULT'' then Inr (h, q\<lparr>q_def := (atoi v \<noteq> 0)\<rparr>)
      else if key = ''HOST'' then Inr (Some v, q)
      else if key = ''REVISION'' then Inr (h, q\<lparr>q_revision := fst (strtoint64 v)\<rparr>)
      else if key = ''NICE'' then Inr (h, q\<lparr>q_nice := atoi v\<rparr>)
      else Inr (h, q))"

definition stateLoadQueue :: "string \<Rightarrow> string \<Rightarrow> fault + queue" where
  "stateLoadQueue fileName t =
     bindR (file_stem fileName) (\<lambda>name.
     bindR (load_lines set_queue (file_lines t)
       (None, queue_zero\<lparr>q_name := name, q_job_limit := JERS_QUEUE_DEFAULT_LIMIT,
                q_priority := JERS_QUEUE_DEFAULT_PRIORITY, q_state := JERS_QUEUE_DEFAULT_STATE,
                q_nice := UNSET_32\<rparr>)) (\<lambda>(h, q).
     case h of None \<Rightarrow> Inl Abort | Some host \<Rightarrow> Inr (q\<lparr>q_host := host\<rparr>)))"

fun stateLoadQueues :: "fnmatch \<Rightarrow> (string \<times> string) list \<Rightarrow> server \<Rightarrow> fault + server" where
  "stateLoadQueues fnm [] s = Inr s"
| "stateLoadQueues fnm ((p, t) # fs) s =
     bindR (stateLoadQueue p t) (\<lambda>q. stateLoadQueues fnm fs (addQueue fnm q False s))"

definition set_resource :: "string \<Rightarrow> int \<Rightarrow> string \<Rightarrow> resource \<Rightarrow> fault + resource" where
  "set_resource key ix v r =
     (if key = ''COUNT'' then Inr (r\<lparr>r_count := atoi v\<rparr>)
      else if key = ''REVISION'' then Inr (r\<lparr>r_revision := fst (strtoint64 v)\<rparr>)
      else Inr r)"

definition stateLoadResource :: "string \<Rightarrow> string \<Rightarrow> fault + resource" where
  "stateLoadResource fileName t =
     bindR (file_stem fileName) (\<lambda>name.
       load_lines set_resource (file_lines t) (resource_zero\<lparr>r_name := name\<rparr>))"

fun stateLoadResources :: "(string \<times> string) list \<Rightarrow> server \<Rightarrow> fault + server" where
  "stateLoadResources [] s = Inr s"
| "stateLoadResources ((p, t) # fs) s =
     bindR (stateLoadResource p t) (\<lambda>r. stateLoadResources fs (addRes r False s))"

subsection \<open>Text and lines\<close>

lemma getline_line: "NL \<notin> set l \<Longrightarrow> getline (l @ NL # t) = (l @ [NL], t)"
  by (induction l) auto

lemma file_lines_text:
  "\<forall>l \<in> set ls. NL \<notin> set l \<Longrightarrow> file_lines (file_text ls) = map (\<lambda>l. l @ [NL]) ls"
proof (induction ls)
  case Nil
  then show ?case by (simp add: file_text_def file_lines.simps)
next
  case (Cons l ls)
  have "file_text (l # ls) = l @ NL # file_text ls" by (simp add: file_text_def)
  with Cons show ?case by (subst file_lines.simps) (simp add: getline_line)
qed

lemma concat_file_lines: "concat (file_lines t) = t"
proof (induction t rule: file_lines.induct)
  case (1 t)
  then show ?case by (subst file_lines.simps) (auto simp: getline_append)
qed

lemma chomp_line [simp]: "chomp (l @ [NL]) = l"
  by (simp add: chomp_def)

text \<open>Loading the lines that were written.\<close>

definition load_text :: "(string \<Rightarrow> int \<Rightarrow> string \<Rightarrow> 'a \<Rightarrow> fault + 'a) \<Rightarrow> string list \<Rightarrow> 'a \<Rightarrow> fault + 'a" where
  "load_text set_key ls a = load_lines set_key (map (\<lambda>l. l @ [NL]) ls) a"

lemma load_file_text:
  "\<forall>l \<in> set ls. NL \<notin> set l \<Longrightarrow> load_lines f (file_lines (file_text ls)) a = load_text f ls a"
  by (simp add: load_text_def file_lines_text)

lemma load_lines_Nil [simp]: "load_lines f [] = Inr"
  by (rule ext) simp

lemma load_text_Nil [simp]: "load_text f [] = Inr"
  by (rule ext) (simp add: load_text_def)

lemma bindR_assoc [simp]: "bindR (bindR r f) g = bindR r (\<lambda>x. bindR (f x) g)"
  by (cases r) (simp_all add: bindR_def)

lemma bindR_Inr [simp]: "bindR (Inr x) k = k x" "bindR (Inl e) k = Inl e"
  by (simp_all add: bindR_def)

lemma bindR_right [simp]: "bindR r Inr = r"
  by (cases r) (simp_all add: bindR_def)

lemma load_text_Cons: "load_text f (l # ls) a = bindR (load_text f [l] a) (load_text f ls)"
  by (auto simp: load_text_def [abs_def] split: kv_result.split)

lemma load_text_append: "load_text f (ks @ ls) a = bindR (load_text f ks a) (load_text f ls)"
proof (induction ks arbitrary: a)
  case (Cons k ks)
  have "load_text f (ks @ ls) = (\<lambda>a. bindR (load_text f ks a) (load_text f ls))"
    by (rule ext) (rule Cons.IH)
  then show ?case by (simp add: load_text_Cons [of f k "ks @ ls"] load_text_Cons [of f k ks])
qed simp

lemma load_text_line:
  assumes "plain_key key" and "unescapeString txt = Some v"
  shows "load_text f [line key txt] a = f key 0 v a"
proof -
  have "loadKeyValue (line key txt) = KvPair key None v"
    using loadKeyValue_plain [OF assms] by (simp add: line_def)
  then show ?thesis by (simp add: load_text_def)
qed

lemma load_text_comment: "load_text f ((CHR ''#'' # l) # ls) a = load_text f ls a"
  by (simp add: load_text_def loadKeyValue_def skipWhitespace_def is_ws_def chomp_def)

lemma digits_no_ws: "0 \<le> i \<Longrightarrow> \<forall>c \<in> set (int64tostr i). \<not> is_ws c"
  using digits_rev_digits [of "nat i"] by (auto simp: int64tostr_eq is_ws_def is_digit_def)

lemma load_text_indexed:
  assumes "plain_key key" and "unescapeString txt = Some v" and "i < 2 ^ 31"
  shows "load_text f [indexed key i txt] a = f key (int i) v a"
proof -
  have "atoi (int64tostr (int i) @ '']'') = int i"
    using assms(3) by (intro atoi_int64tostr) (simp_all add: is_digit_def)
  then have "loadKeyValue (indexed key i txt) = KvPair key (Some (int i)) v"
    using loadKeyValue_indexed [OF assms(1,2) digits_no_ws [of "int i"]] by (simp add: indexed_def)
  then show ?thesis by (simp add: load_text_def)
qed

lemma no_BSL_int64tostr: "BSL \<notin> set (int64tostr n)" "NL \<notin> set (int64tostr n)"
  using digits_rev_digits [of "nat n"] digits_rev_digits [of "nat (uint64 (int64 (- n)))"]
  by (auto simp: int64tostr_eq is_digit_def)

lemma unescape_number [simp]: "unescapeString (int64tostr n) = Some (int64tostr n)"
  by (simp add: unescape_plain no_BSL_int64tostr)

definition in32 :: "int \<Rightarrow> bool" where
  "in32 n \<longleftrightarrow> - (2 ^ 31) \<le> n \<and> n < 2 ^ 31"

definition in64 :: "int \<Rightarrow> bool" where
  "in64 n \<longleftrightarrow> - (2 ^ 63) \<le> n \<and> n < 2 ^ 63"

definition inu32 :: "int \<Rightarrow> bool" where
  "inu32 n \<longleftrightarrow> 0 \<le> n \<and> n < 2 ^ 32"

lemma atoi_number [simp]: "in32 n \<Longrightarrow> atoi (int64tostr n) = n"
  using atoi_int64tostr [of n "[]"] by (simp add: in32_def)

lemma strtoint64_number [simp]: "in64 n \<Longrightarrow> strtoint64 (int64tostr n) = (n, [])"
  using strtoint64_int64tostr [of n "[]"] by (simp add: in64_def)

lemma in32_int32 [simp]: "in32 (int32 n)"
  using cint_range [of 32 n] by (simp add: in32_def)

lemma int32_in32 [simp]: "in32 n \<Longrightarrow> int32 n = n"
  by (rule cint_id) (simp_all add: in32_def)

lemma uint32_int32: "inu32 n \<Longrightarrow> uint32 (int32 n) = n"
  using cint_congruent [of 32 n] by (simp add: cuint_def inu32_def)

lemma in32_sint [simp]: "in32 (sint (w :: flags))"
  using sint_range_size [of w] by (simp add: in32_def word_size)

subsection \<open>Arrays of a structure\<close>

text \<open>
  A member of a structure that holds an array, read and written through the structure. The
  lines of an array that was allocated with its length before fill it completely.
\<close>

locale array_member =
  fixes get :: "'s \<Rightarrow> 'a list" and upd :: "'a list \<Rightarrow> 's \<Rightarrow> 's"
  assumes get_upd: "get (upd xs s) = xs"
    and upd_upd: "upd xs (upd ys s) = upd xs s"
    and upd_get: "upd (get s) s = s"
begin

lemma load_array:
  assumes key: "plain_key key" and enc: "\<And>x. x \<in> set xs \<Longrightarrow> unescapeString (g x) = Some (u x)"
    and step: "\<And>x i s. x \<in> set xs \<Longrightarrow>
      f key (int i) (u x) (c, s) = bindR (put (int i) (w x) (get s)) (\<lambda>ys. Inr (c, upd ys s))"
    and len: "length (get s) = length xs" "length xs < 2 ^ 31"
  shows "load_text f (list_lines key g xs) (c, s) = Inr (c, upd (map w xs) s)"
proof -
  let ?l = "\<lambda>i. indexed key i (g (xs ! i))"
  have "load_text f (map ?l [0 ..< k]) (c, s) = Inr (c, upd (map w (take k xs) @ drop k (get s)) s)"
    if "k \<le> length xs" for k
    using that
  proof (induction k)
    case 0
    then show ?case by (simp add: upd_get)
  next
    case (Suc k)
    let ?ys = "map w (take k xs) @ drop k (get s)"
    have k: "k < length xs" using Suc.prems by simp
    then have mem: "xs ! k \<in> set xs" by simp
    have "?ys[k := w (xs ! k)] = map w (take (Suc k) xs) @ drop (Suc k) (get s)"
      using k len by (simp add: list_update_append take_Suc_conv_app_nth Cons_nth_drop_Suc [symmetric])
    moreover have "put (int k) (w (xs ! k)) ?ys = Inr (?ys[k := w (xs ! k)])"
      using k len by (simp add: put_def)
    ultimately have "load_text f [?l k] (c, upd ?ys s) =
        Inr (c, upd (map w (take (Suc k) xs) @ drop (Suc k) (get s)) s)"
      using k len by (simp add: load_text_indexed [OF key enc [OF mem]] step [OF mem] get_upd upd_upd)
    then show ?case using Suc k by (simp add: load_text_append)
  qed
  from this [of "length xs"] show ?thesis using len by (simp add: list_lines_def)
qed

end

interpretation argv: array_member j_argv "\<lambda>xs j. j\<lparr>j_argv := xs\<rparr>"
  by unfold_locales simp_all

interpretation envs: array_member j_envs "\<lambda>xs j. j\<lparr>j_envs := xs\<rparr>"
  by unfold_locales simp_all

interpretation tags: array_member j_tags "\<lambda>xs j. j\<lparr>j_tags := xs\<rparr>"
  by unfold_locales simp_all

interpretation req_resources: array_member j_req_resources "\<lambda>xs j. j\<lparr>j_req_resources := xs\<rparr>"
  by unfold_locales simp_all

subsection \<open>A job survives being saved and loaded\<close>

text \<open>
  What comes back: everything the file has, a missing number as 0, an unset niceness as 0,
  a state 0 as pending, the value of a tag that has none as the empty string. The wrapper,
  the reasons a job is pending or failed, the pid, the e-mail settings and the internal
  flags are not in the file.
\<close>

definition persisted :: "job \<Rightarrow> job" where
  "persisted j =
     job_zero\<lparr>j_revision := j_revision j, j_jobid := j_jobid j, j_jobname := j_jobname j, j_queue := j_queue j,
       j_shell := j_shell j, j_pre_cmd := j_pre_cmd j, j_post_cmd := j_post_cmd j, j_stdout := j_stdout j,
       j_stderr := j_stderr j, j_flags := j_flags j, j_argv := j_argv j, j_envs := j_envs j, j_uid := j_uid j,
       j_submitter := j_submitter j, j_nice := if j_nice j = UNSET_32 then 0 else j_nice j,
       j_exitcode := j_exitcode j, j_signal := j_signal j,
       j_usage := if j_finish_time j = 0 then rusage_zero else j_usage j,
       j_state := if j_state j = 0 then JERS_JOB_PENDING else j_state j, j_priority := j_priority j,
       j_submit_time := j_submit_time j, j_start_time := j_start_time j, j_defer_time := j_defer_time j,
       j_finish_time := j_finish_time j,
       j_tags := map (\<lambda>(k, v). (k, Some (case v of Some v \<Rightarrow> v | None \<Rightarrow> []))) (j_tags j),
       j_req_resources := j_req_resources j\<rparr>"

text \<open>The members of a C structure are in the range of their types.\<close>

definition usage_in_range :: "rusage \<Rightarrow> bool" where
  "usage_in_range u \<longleftrightarrow>
     in64 (ru_utime_sec u) \<and> in64 (ru_utime_usec u) \<and> in64 (ru_stime_sec u) \<and> in64 (ru_stime_usec u) \<and>
     in64 (ru_maxrss u) \<and> in64 (ru_minflt u) \<and> in64 (ru_majflt u) \<and> in64 (ru_inblock u) \<and>
     in64 (ru_oublock u) \<and> in64 (ru_nvcsw u) \<and> in64 (ru_nivcsw u)"

definition job_in_range :: "job \<Rightarrow> bool" where
  "job_in_range j \<longleftrightarrow>
     in64 (j_revision j) \<and> j_jobid j < 2 ^ 31 \<and> in64 (j_flags j) \<and> inu32 (j_uid j) \<and> inu32 (j_submitter j) \<and>
     in32 (j_nice j) \<and> in32 (j_exitcode j) \<and> in32 (j_signal j) \<and> in32 (j_priority j) \<and>
     in64 (j_submit_time j) \<and> in64 (j_start_time j) \<and> in64 (j_defer_time j) \<and> in64 (j_finish_time j) \<and>
     length (j_argv j) < 2 ^ 31 \<and> length (j_envs j) < 2 ^ 31 \<and> length (j_tags j) < 2 ^ 31 \<and>
     length (j_req_resources j) < 2 ^ 31 \<and> list_all (\<lambda>r. in32 (snd r)) (j_req_resources j) \<and>
     usage_in_range (j_usage j)"

text \<open>What is written without escaping must not need it, and what is referred to must exist.\<close>

definition bare :: "string \<Rightarrow> bool" where
  "bare t \<longleftrightarrow> BSL \<notin> set t \<and> NL \<notin> set t"

definition job_savable :: "server \<Rightarrow> job \<Rightarrow> bool" where
  "job_savable s j \<longleftrightarrow>
     job_in_range j \<and> findQueue s (j_queue j) \<noteq> None \<and> None \<notin> set (j_argv j) \<and>
     list_all (\<lambda>e. case e of Some e \<Rightarrow> bare e | None \<Rightarrow> False) (j_envs j) \<and>
     list_all (\<lambda>(k, v). bare k \<and> TAB \<notin> set k) (j_tags j) \<and>
     list_all (\<lambda>(n, needed). bare n \<and> CHR '':'' \<notin> set n \<and> findResource s n \<noteq> None) (j_req_resources j)"

lemmas key_simps = plain_key_def is_ws_def

lemma set_job_simps:
  "set_job s ''JOBNAME'' ix v (qp, j) = Inr (qp, j\<lparr>j_jobname := v\<rparr>)"
  "set_job s ''SHELL'' ix v (qp, j) = Inr (qp, j\<lparr>j_shell := Some v\<rparr>)"
  "set_job s ''PRECMD'' ix v (qp, j) = Inr (qp, j\<lparr>j_pre_cmd := Some v\<rparr>)"
  "set_job s ''POSTCMD'' ix v (qp, j) = Inr (qp, j\<lparr>j_post_cmd := Some v\<rparr>)"
  "set_job s ''STDOUT'' ix v (qp, j) = Inr (qp, j\<lparr>j_stdout := Some v\<rparr>)"
  "set_job s ''STDERR'' ix v (qp, j) = Inr (qp, j\<lparr>j_stderr := Some v\<rparr>)"
  "set_job s ''ARGC'' ix v (qp, j) = Inr (qp, j\<lparr>j_argv := replicate (nat (atoi v)) None\<rparr>)"
  "set_job s ''ENV_COUNT'' ix v (qp, j) = Inr (qp, j\<lparr>j_envs := replicate (nat (atoi v)) None\<rparr>)"
  "set_job s ''TAG_COUNT'' ix v (qp, j) = Inr (qp, j\<lparr>j_tags := replicate (nat (atoi v)) ([], None)\<rparr>)"
  "set_job s ''RES_COUNT'' ix v (qp, j) = Inr (qp, j\<lparr>j_req_resources := replicate (nat (atoi v)) ([], 0)\<rparr>)"
  "set_job s ''UID'' ix v (qp, j) = Inr (qp, j\<lparr>j_uid := uint32 (atoi v)\<rparr>)"
  "set_job s ''SUBMITTER'' ix v (qp, j) = Inr (qp, j\<lparr>j_submitter := uint32 (atoi v)\<rparr>)"
  "set_job s ''NICE'' ix v (qp, j) = Inr (qp, j\<lparr>j_nice := atoi v\<rparr>)"
  "set_job s ''STATE'' ix v (qp, j) = Inr (qp, j\<lparr>j_state := word_of_int (atoi v)\<rparr>)"
  "set_job s ''PRIORITY'' ix v (qp, j) = Inr (qp, j\<lparr>j_priority := atoi v\<rparr>)"
  "set_job s ''SUBMITTIME'' ix v (qp, j) = Inr (qp, j\<lparr>j_submit_time := fst (strtoint64 v)\<rparr>)"
  "set_job s ''DEFERTIME'' ix v (qp, j) = Inr (qp, j\<lparr>j_defer_time := fst (strtoint64 v)\<rparr>)"
  "set_job s ''FINISHTIME'' ix v (qp, j) = Inr (qp, j\<lparr>j_finish_time := fst (strtoint64 v)\<rparr>)"
  "set_job s ''STARTTIME'' ix v (qp, j) = Inr (qp, j\<lparr>j_start_time := fst (strtoint64 v)\<rparr>)"
  "set_job s ''EXITCODE'' ix v (qp, j) = Inr (qp, j\<lparr>j_exitcode := atoi v\<rparr>)"
  "set_job s ''SIGNAL'' ix v (qp, j) = Inr (qp, j\<lparr>j_signal := atoi v\<rparr>)"
  "set_job s ''FLAGS'' ix v (qp, j) = Inr (qp, j\<lparr>j_flags := fst (strtoint64 v)\<rparr>)"
  "set_job s ''REVISION'' ix v (qp, j) = Inr (qp, j\<lparr>j_revision := fst (strtoint64 v)\<rparr>)"
  by (simp_all add: set_job_def)

lemma set_job_arrays:
  "set_job s ''ARGV'' ix v (qp, j) = bindR (put ix (Some v) (j_argv j)) (\<lambda>xs. Inr (qp, j\<lparr>j_argv := xs\<rparr>))"
  "set_job s ''ENV'' ix v (qp, j) = bindR (put ix (Some v) (j_envs j)) (\<lambda>xs. Inr (qp, j\<lparr>j_envs := xs\<rparr>))"
  "set_job s ''TAG'' ix v (qp, j) = bindR (put ix (split_tag v) (j_tags j)) (\<lambda>xs. Inr (qp, j\<lparr>j_tags := xs\<rparr>))"
  "set_job s ''RES'' ix v (qp, j) =
     (case resourceStringToResource s v of
        None \<Rightarrow> Inl Abort
      | Some r \<Rightarrow> bindR (put ix r (j_req_resources j)) (\<lambda>xs. Inr (qp, j\<lparr>j_req_resources := xs\<rparr>)))"
  "set_job s ''QUEUENAME'' ix v (qp, j) =
     (case findQueue s v of None \<Rightarrow> Inl Abort | Some q \<Rightarrow> Inr (Some (q_name q), j))"
  by (simp_all add: set_job_def)

lemma load_str:
  assumes "plain_key key" and "\<And>v. f key 0 v (c, j) = Inr (c, upd (Some v))" and "upd None = j"
  shows "load_text f (str_line key x) (c, j) = Inr (c, upd x)"
  using assms by (cases x) (simp_all add: str_line_def load_text_line)

lemma load_num:
  assumes "plain_key key" and "f key 0 (int64tostr n) (c, j) = Inr (c, upd n)" and "upd 0 = j"
  shows "load_text f (num_line key n) (c, j) = Inr (c, upd n)"
  using assms by (simp add: num_line_def load_text_line)

lemma load_job_strings:
  "j_shell j = None \<Longrightarrow> load_text (set_job s) (str_line ''SHELL'' x) (c, j) = Inr (c, j\<lparr>j_shell := x\<rparr>)"
  "j_pre_cmd j = None \<Longrightarrow> load_text (set_job s) (str_line ''PRECMD'' x) (c, j) = Inr (c, j\<lparr>j_pre_cmd := x\<rparr>)"
  "j_post_cmd j = None \<Longrightarrow> load_text (set_job s) (str_line ''POSTCMD'' x) (c, j) = Inr (c, j\<lparr>j_post_cmd := x\<rparr>)"
  "j_stdout j = None \<Longrightarrow> load_text (set_job s) (str_line ''STDOUT'' x) (c, j) = Inr (c, j\<lparr>j_stdout := x\<rparr>)"
  "j_stderr j = None \<Longrightarrow> load_text (set_job s) (str_line ''STDERR'' x) (c, j) = Inr (c, j\<lparr>j_stderr := x\<rparr>)"
  by (rule load_str; simp add: set_job_simps key_simps)+

lemma load_job_numbers:
  "inu32 n \<Longrightarrow> j_uid j = 0 \<Longrightarrow> load_text (set_job s) (num_line ''UID'' (int32 n)) (c, j) = Inr (c, j\<lparr>j_uid := n\<rparr>)"
  "j_state j = 0 \<Longrightarrow> load_text (set_job s) (num_line ''STATE'' (sint st)) (c, j) = Inr (c, j\<lparr>j_state := st\<rparr>)"
  "in32 n \<Longrightarrow> j_priority j = 0 \<Longrightarrow> load_text (set_job s) (num_line ''PRIORITY'' n) (c, j) = Inr (c, j\<lparr>j_priority := n\<rparr>)"
  "in64 n \<Longrightarrow> j_defer_time j = 0 \<Longrightarrow> load_text (set_job s) (num_line ''DEFERTIME'' n) (c, j) = Inr (c, j\<lparr>j_defer_time := n\<rparr>)"
  "in64 n \<Longrightarrow> j_start_time j = 0 \<Longrightarrow> load_text (set_job s) (num_line ''STARTTIME'' n) (c, j) = Inr (c, j\<lparr>j_start_time := n\<rparr>)"
  "in64 n \<Longrightarrow> j_finish_time j = 0 \<Longrightarrow> load_text (set_job s) (num_line ''FINISHTIME'' n) (c, j) = Inr (c, j\<lparr>j_finish_time := n\<rparr>)"
  "in32 n \<Longrightarrow> j_exitcode j = 0 \<Longrightarrow> load_text (set_job s) (num_line ''EXITCODE'' n) (c, j) = Inr (c, j\<lparr>j_exitcode := n\<rparr>)"
  "in32 n \<Longrightarrow> j_signal j = 0 \<Longrightarrow> load_text (set_job s) (num_line ''SIGNAL'' n) (c, j) = Inr (c, j\<lparr>j_signal := n\<rparr>)"
  "in64 n \<Longrightarrow> j_flags j = 0 \<Longrightarrow> load_text (set_job s) (num_line ''FLAGS'' n) (c, j) = Inr (c, j\<lparr>j_flags := n\<rparr>)"
  subgoal
    using load_num [of "''UID''" "set_job s" "int32 n" c j "\<lambda>m. j\<lparr>j_uid := uint32 m\<rparr>"]
    by (simp add: set_job_simps key_simps uint32_int32 cuint_id)
  subgoal
    using load_num [of "''STATE''" "set_job s" "sint st" c j "\<lambda>m. j\<lparr>j_state := word_of_int m\<rparr>"]
    by (simp add: set_job_simps key_simps)
  by (rule load_num; simp add: set_job_simps key_simps)+

lemma load_job_counts:
  "n < 2 ^ 31 \<Longrightarrow> j_envs j = [] \<Longrightarrow>
   load_text (set_job s) (num_line ''ENV_COUNT'' (int n)) (c, j) = Inr (c, j\<lparr>j_envs := replicate n None\<rparr>)"
  "n < 2 ^ 31 \<Longrightarrow> j_tags j = [] \<Longrightarrow>
   load_text (set_job s) (num_line ''TAG_COUNT'' (int n)) (c, j) = Inr (c, j\<lparr>j_tags := replicate n ([], None)\<rparr>)"
  "n < 2 ^ 31 \<Longrightarrow> j_req_resources j = [] \<Longrightarrow>
   load_text (set_job s) (num_line ''RES_COUNT'' (int n)) (c, j) = Inr (c, j\<lparr>j_req_resources := replicate n ([], 0)\<rparr>)"
  subgoal
    using load_num [of "''ENV_COUNT''" "set_job s" "int n" c j "\<lambda>m. j\<lparr>j_envs := replicate (nat m) None\<rparr>"]
    by (simp add: set_job_simps key_simps in32_def)
  subgoal
    using load_num [of "''TAG_COUNT''" "set_job s" "int n" c j "\<lambda>m. j\<lparr>j_tags := replicate (nat m) ([], None)\<rparr>"]
    by (simp add: set_job_simps key_simps in32_def)
  subgoal
    using load_num [of "''RES_COUNT''" "set_job s" "int n" c j "\<lambda>m. j\<lparr>j_req_resources := replicate (nat m) ([], 0)\<rparr>"]
    by (simp add: set_job_simps key_simps in32_def)
  done

lemma split_at_char:
  "c \<notin> set xs \<Longrightarrow> takeWhile (\<lambda>d. d \<noteq> c) (xs @ c # ys) = xs"
  "c \<notin> set xs \<Longrightarrow> dropWhile (\<lambda>d. d \<noteq> c) (xs @ c # ys) = c # ys"
  by (auto intro: takeWhile_append_stop dropWhile_append_stop)

lemma bare_unescape: "bare t \<Longrightarrow> unescapeString t = Some t"
  by (simp add: bare_def unescape_plain)

lemma unescape_append: "BSL \<notin> set t \<Longrightarrow> unescapeString (t @ u) = map_option ((@) t) (unescapeString u)"
  by (induction t) (cases "unescapeString u", auto)+

lemma load_job_arrays:
  assumes "length xs < 2 ^ 31"
  shows "None \<notin> set xs \<Longrightarrow> length (j_argv j) = length xs \<Longrightarrow>
      load_text (set_job s) (list_lines ''ARGV'' (\<lambda>a. escape_chars (the a)) xs) (c, j) = Inr (c, j\<lparr>j_argv := xs\<rparr>)"
    and "list_all (\<lambda>e. case e of Some e \<Rightarrow> bare e | None \<Rightarrow> False) xs \<Longrightarrow> length (j_envs j) = length xs \<Longrightarrow>
      load_text (set_job s) (list_lines ''ENV'' env_text xs) (c, j) = Inr (c, j\<lparr>j_envs := xs\<rparr>)"
proof -
  have the_id: "map (\<lambda>a. Some (the a)) xs = xs" if "None \<notin> set xs"
    using that by (intro map_idI) (metis option.collapse)
  show "load_text (set_job s) (list_lines ''ARGV'' (\<lambda>a. escape_chars (the a)) xs) (c, j) = Inr (c, j\<lparr>j_argv := xs\<rparr>)"
    if "None \<notin> set xs" "length (j_argv j) = length xs"
    using argv.load_array [where w = "\<lambda>a. Some (the a)" and u = the and f = "set_job s" and key = "''ARGV''"
        and xs = xs and g = "\<lambda>a. escape_chars (the a)" and s = j and c = c] that assms
    by (simp add: set_job_arrays key_simps the_id)
  assume e: "list_all (\<lambda>e. case e of Some e \<Rightarrow> bare e | None \<Rightarrow> False) xs" and len: "length (j_envs j) = length xs"
  have "None \<notin> set xs" and "\<And>x. x \<in> set xs \<Longrightarrow> unescapeString (env_text x) = Some (the x)"
    using e by (auto simp: list_all_iff env_text_def bare_unescape split: option.splits)
  then show "load_text (set_job s) (list_lines ''ENV'' env_text xs) (c, j) = Inr (c, j\<lparr>j_envs := xs\<rparr>)"
    using envs.load_array [where w = "\<lambda>a. Some (the a)" and u = the and f = "set_job s" and key = "''ENV''"
        and xs = xs and g = env_text and s = j and c = c] assms len
    by (simp add: set_job_arrays key_simps the_id)
qed

definition tag_loaded :: "string \<times> string option \<Rightarrow> string \<times> string option" where
  "tag_loaded t = (fst t, Some (case snd t of Some v \<Rightarrow> v | None \<Rightarrow> []))"

lemma load_job_tags:
  assumes "length xs < 2 ^ 31" and "list_all (\<lambda>(k, v). bare k \<and> TAB \<notin> set k) xs" and "length (j_tags j) = length xs"
  shows "load_text (set_job s) (list_lines ''TAG'' tag_text xs) (c, j) = Inr (c, j\<lparr>j_tags := map tag_loaded xs\<rparr>)"
proof (rule tags.load_array [where w = tag_loaded and u = "\<lambda>t. fst t @ TAB # the (snd (tag_loaded t))"])
  fix x assume x: "x \<in> set xs"
  then have k: "BSL \<notin> set (fst x)" "TAB \<notin> set (fst x)" using assms(2) by (auto simp: list_all_iff bare_def)
  then show "unescapeString (tag_text x) = Some (fst x @ TAB # the (snd (tag_loaded x)))"
    by (auto simp: tag_text_def tag_loaded_def unescape_append split: option.split)
  have "split_tag (fst x @ TAB # t) = (fst x, Some t)" for t
    using k by (simp add: split_tag_def split_at_char)
  then show "set_job s ''TAG'' (int i) (fst x @ TAB # the (snd (tag_loaded x))) (c, j') =
      bindR (put (int i) (tag_loaded x) (j_tags j')) (\<lambda>ys. Inr (c, j'\<lparr>j_tags := ys\<rparr>))" for i j'
    by (simp add: set_job_arrays tag_loaded_def)
qed (use assms in \<open>simp_all add: key_simps\<close>)

lemma load_job_resources:
  assumes "length xs < 2 ^ 31" and "length (j_req_resources j) = length xs"
    and ok: "list_all (\<lambda>(n, needed). bare n \<and> CHR '':'' \<notin> set n \<and> findResource s n \<noteq> None) xs"
    and range: "list_all (\<lambda>r. in32 (snd r)) xs"
  shows "load_text (set_job s) (list_lines ''RES'' res_text xs) (c, j) = Inr (c, j\<lparr>j_req_resources := map (\<lambda>x. x) xs\<rparr>)"
proof (rule req_resources.load_array [where u = res_text])
  fix x assume x: "x \<in> set xs"
  obtain n needed where nn: "x = (n, needed)" by (cases x)
  with x ok range have n: "bare n" "CHR '':'' \<notin> set n" "findResource s n \<noteq> None" "in32 needed"
    by (auto simp: list_all_iff)
  show "unescapeString (res_text x) = Some (res_text x)"
    using n nn by (simp add: res_text_def bare_def unescape_append)
  have "resourceStringToResource s (res_text x) = Some x"
    using n nn by (auto simp: resourceStringToResource_def res_text_def split_at_char)
  then show "set_job s ''RES'' (int i) (res_text x) (c, j') =
      bindR (put (int i) x (j_req_resources j')) (\<lambda>ys. Inr (c, j'\<lparr>j_req_resources := ys\<rparr>))" for i j'
    by (simp add: set_job_arrays)
qed (use assms in \<open>simp_all add: key_simps\<close>)

lemma load_job_usage:
  assumes "usage_in_range u"
  shows "load_text (set_job s) (usage_lines u) (c, j) = Inr (c, j\<lparr>j_usage := u\<rparr>)"
  using assms
  by (cases u)
    (simp add: usage_lines_def usage_in_range_def load_text_Cons [of _ _ "_ # _"] load_text_line key_simps
      set_job_def set_usage_def)

lemma load_job_nice:
  assumes "in32 n" and "j_nice j = 0"
  shows "load_text (set_job s) (nice_line n) (c, j) =
    Inr (c, j\<lparr>j_nice := if n = UNSET_32 then 0 else n\<rparr>)"
proof (cases "n = UNSET_32")
  case True
  with assms(2) show ?thesis by (cases j) (simp add: nice_line_def)
next
  case False
  with assms(1) show ?thesis by (simp add: nice_line_def load_text_line set_job_simps key_simps)
qed

lemma load_job_tail:
  assumes "usage_in_range u" and "j_usage j = rusage_zero"
  shows "load_text (set_job s) (if n = 0 then [] else usage_lines u) (c, j) =
    Inr (c, j\<lparr>j_usage := if n = 0 then rusage_zero else u\<rparr>)"
proof (cases "n = 0")
  case True
  with assms(2) show ?thesis by (cases j) simp
next
  case False
  with assms(1) show ?thesis by (simp add: load_job_usage)
qed

lemma load_job_head:
  assumes "findQueue s n \<noteq> None" and "in64 rv" and "in64 st" and "inu32 sub" and "ac < 2 ^ 31"
  shows "load_text (set_job s)
     [line ''REVISION'' (int64tostr rv), line ''JOBNAME'' (escape_chars name), line ''QUEUENAME'' (escape_chars n),
      line ''SUBMITTIME'' (int64tostr st), line ''SUBMITTER'' (int64tostr (int32 sub)), line ''ARGC'' (int64tostr (int ac))]
     (c, j) =
   Inr (Some n, j\<lparr>j_revision := rv, j_jobname := name, j_submit_time := st, j_submitter := sub,
     j_argv := replicate ac None\<rparr>)"
proof -
  obtain q where q: "findQueue s n = Some q" using assms(1) by auto
  then have "q_name q = n" unfolding findQueue_def by (blast dest: tfind_SomeD)
  moreover have "in32 (int ac)" using assms(5) by (simp add: in32_def)
  ultimately show ?thesis using q assms(2-4)
    by (simp add: load_text_Cons [of _ _ "_ # _"] load_text_line key_simps set_job_simps set_job_arrays uint32_int32)
qed

lemmas load_job_segments = load_job_head load_job_arrays load_job_strings load_job_counts load_job_tags
  load_job_resources load_job_numbers load_job_nice load_job_tail

lemma load_job_lines:
  assumes "job_savable s j"
  shows "load_text (set_job s) (job_lines j) (None, job_zero\<lparr>j_jobid := j_jobid j\<rparr>) =
    Inr (Some (j_queue j), (persisted j)\<lparr>j_queue := [], j_state := j_state j\<rparr>)"
proof -
  have zero: "j_argv job_zero = []" "j_envs job_zero = []" "j_tags job_zero = []" "j_req_resources job_zero = []"
    "j_shell job_zero = None" "j_pre_cmd job_zero = None" "j_post_cmd job_zero = None" "j_stdout job_zero = None"
    "j_stderr job_zero = None" "j_uid job_zero = 0" "j_nice job_zero = 0" "j_state job_zero = 0"
    "j_priority job_zero = 0" "j_defer_time job_zero = 0" "j_start_time job_zero = 0" "j_finish_time job_zero = 0"
    "j_exitcode job_zero = 0" "j_signal job_zero = 0" "j_flags job_zero = 0" "j_usage job_zero = rusage_zero"
    by (simp_all add: job_zero_def)
  have tags: "map tag_loaded (j_tags j) = map (\<lambda>(k, v). (k, Some (case v of Some v \<Rightarrow> v | None \<Rightarrow> []))) (j_tags j)"
    by (simp add: tag_loaded_def split_def)
  show ?thesis
    unfolding job_lines_def load_text_append using assms unfolding job_savable_def job_in_range_def
    by (simp add: load_job_segments zero tags split del: if_split) (simp add: persisted_def job_zero_def)
qed

lemma clean_segments:
  assumes "NL \<notin> set key"
  shows "NL \<notin> set v \<Longrightarrow> NL \<notin> set (line key v)"
    and "list_all (\<lambda>l. NL \<notin> set l) (str_line key x)"
    and "list_all (\<lambda>l. NL \<notin> set l) (num_line key n)"
    and "(\<And>x. x \<in> set xs \<Longrightarrow> NL \<notin> set (g x)) \<Longrightarrow> list_all (\<lambda>l. NL \<notin> set l) (list_lines key g xs)"
  using assms
  by (auto simp: line_def str_line_def num_line_def list_lines_def indexed_def no_BSL_int64tostr escape_chars_clean
      list_all_iff split: option.splits if_splits)

lemma job_lines_clean:
  assumes "job_savable s j"
  shows "list_all (\<lambda>l. NL \<notin> set l) (job_lines j)"
proof -
  have "\<And>e. e \<in> set (j_envs j) \<Longrightarrow> NL \<notin> set (env_text e)"
    "\<And>x. x \<in> set (j_tags j) \<Longrightarrow> NL \<notin> set (tag_text x)"
    "\<And>r. r \<in> set (j_req_resources j) \<Longrightarrow> NL \<notin> set (res_text r)"
    using assms unfolding job_savable_def list_all_iff
    by (auto simp: env_text_def tag_text_def res_text_def bare_def escape_chars_clean no_BSL_int64tostr
        split: option.splits)
  then show ?thesis
    unfolding job_lines_def usage_lines_def nice_line_def list_all_append
    by (simp add: clean_segments no_BSL_int64tostr escape_chars_clean)
qed

lemma after_last_append: "c \<notin> set b \<Longrightarrow> after_last c (a @ c # b) = Some b"
  unfolding after_last_def using split_at_char(1) [of c "rev b" "rev a"] by simp

lemma before_last_append: "c \<notin> set b \<Longrightarrow> before_last c (a @ c # b) = Some a"
  unfolding before_last_def using split_at_char(2) [of c "rev b" "rev a"] by simp

lemma digits_only: "0 \<le> n \<Longrightarrow> c \<in> set (int64tostr n) \<Longrightarrow> is_digit c"
  using digits_rev_digits [of "nat n"] by (auto simp: int64tostr_eq)

lemma job_path_id:
  assumes "k < 2 ^ 31"
  shows "\<exists>name. after_last SLASH (job_path dir k) = Some name \<and> nat (uint32 (atoi name)) = k"
proof -
  let ?name = "int64tostr (int k) @ ''.job''"
  have "SLASH \<notin> set ?name" using digits_only [of "int k" SLASH] by (auto simp: is_digit_def)
  moreover have "job_path dir k = (dir @ ''/jobs/'' @ int64tostr (int (k div STATE_DIV_FACTOR))) @ SLASH # ?name"
    by (simp add: job_path_def)
  ultimately have "after_last SLASH (job_path dir k) = Some ?name" using after_last_append by metis
  moreover have "atoi ?name = int k" using assms by (intro atoi_int64tostr) (simp_all add: is_digit_def)
  moreover have "nat (uint32 (int k)) = k" using assms by (simp add: cuint_id)
  ultimately show ?thesis by auto
qed

lemma job_file_loads:
  assumes "job_savable s j"
  shows "bindR (stateSaveJob now j) (stateLoadJob s (job_path dir (j_jobid j))) = Inr (persisted j)"
proof -
  let ?ls = "[''# JOB '' @ int64tostr (int (j_jobid j)), ''# SAVETIME '' @ int64tostr now] @ job_lines j"
  have ok: "None \<notin> set (j_argv j)" "j_jobid j < 2 ^ 31"
    using assms by (simp_all add: job_savable_def job_in_range_def)
  have "\<forall>l \<in> set ?ls. NL \<notin> set l" using job_lines_clean [OF assms] by (auto simp: no_BSL_int64tostr list_all_iff)
  then have "load_lines (set_job s) (file_lines (file_text ?ls)) a = load_text (set_job s) ?ls a" for a
    by (rule load_file_text)
  then have "load_lines (set_job s) (file_lines (file_text ?ls)) a = load_text (set_job s) (job_lines j) a" for a
    by (simp add: load_text_comment)
  moreover obtain name where "after_last SLASH (job_path dir (j_jobid j)) = Some name"
    and "nat (uint32 (atoi name)) = j_jobid j" using job_path_id [OF ok(2)] by blast
  ultimately show ?thesis
    using ok(1) load_job_lines [OF assms]
    by (simp add: stateSaveJob_def stateLoadJob_def) (simp add: persisted_def job_zero_def)
qed


definition demo_saved_job :: job where
  "demo_saved_job = job_zero\<lparr>j_jobid := 7, j_jobname := [TAB, BSL], j_queue := ''q'', j_argv := [Some ''ls'', Some [NL]],
     j_envs := [Some ''A=1''], j_tags := [(''t'', None)], j_req_resources := [(''r'', 2)], j_nice := UNSET_32,
     j_uid := 4294967294, j_finish_time := 5\<rparr>"

definition demo_saved_server :: server where
  "demo_saved_server = init_server\<lparr>queueTable := [queue_zero\<lparr>q_name := ''q''\<rparr>],
     resTable := [resource_zero\<lparr>r_name := ''r'', r_count := 4\<rparr>]\<rparr>"


subsection \<open>Queues and resources survive being saved and loaded\<close>

lemma file_stem_path:
  assumes "SLASH \<notin> set n" and "SLASH \<notin> set ext" and "CHR ''.'' \<notin> set ext"
  shows "file_stem (dir @ SLASH # n @ CHR ''.'' # ext) = Inr n"
  using assms after_last_append [of SLASH "n @ CHR ''.'' # ext" dir] before_last_append [of "CHR ''.''" ext n]
  by (simp add: file_stem_def)

lemma file_stem_queue: "SLASH \<notin> set n \<Longrightarrow> file_stem (queue_path dir n) = Inr n"
  using file_stem_path [of n "''queue''" "dir @ ''/queues''"] by (simp add: queue_path_def)

lemma file_stem_resource: "SLASH \<notin> set n \<Longrightarrow> file_stem (res_path dir n) = Inr n"
  using file_stem_path [of n "''resource''" "dir @ ''/resources''"] by (simp add: res_path_def)

definition persisted_queue :: "server \<Rightarrow> queue \<Rightarrow> queue" where
  "persisted_queue s q =
     queue_zero\<lparr>q_revision := q_revision q, q_name := q_name q, q_desc := q_desc q, q_job_limit := q_job_limit q,
       q_state := JERS_QUEUE_FLAG_OPEN, q_priority := q_priority q, q_nice := q_nice q,
       q_def := (defaultQueue s = Some (q_name q)), q_host := q_host q\<rparr>"

definition queue_savable :: "queue \<Rightarrow> bool" where
  "queue_savable q \<longleftrightarrow>
     in64 (q_revision q) \<and> in32 (q_job_limit q) \<and> in32 (q_priority q) \<and> in32 (q_nice q) \<and>
     SLASH \<notin> set (q_name q) \<and> NL \<notin> set (q_name q) \<and> bare (q_host q) \<and>
     (case q_desc q of None \<Rightarrow> True | Some d \<Rightarrow> bare d)"

lemma set_queue_simps:
  "set_queue ''DESC'' ix v (h, q) = Inr (h, q\<lparr>q_desc := Some v\<rparr>)"
  "set_queue ''JOBLIMIT'' ix v (h, q) = Inr (h, q\<lparr>q_job_limit := atoi v\<rparr>)"
  "set_queue ''PRIORITY'' ix v (h, q) = Inr (h, q\<lparr>q_priority := atoi v\<rparr>)"
  "set_queue ''DEFAULT'' ix v (h, q) = Inr (h, q\<lparr>q_def := (atoi v \<noteq> 0)\<rparr>)"
  "set_queue ''HOST'' ix v (h, q) = Inr (Some v, q)"
  "set_queue ''REVISION'' ix v (h, q) = Inr (h, q\<lparr>q_revision := fst (strtoint64 v)\<rparr>)"
  "set_queue ''NICE'' ix v (h, q) = Inr (h, q\<lparr>q_nice := atoi v\<rparr>)"
  by (simp_all add: set_queue_def)

lemma load_queue_desc:
  assumes "case d of None \<Rightarrow> True | Some d \<Rightarrow> bare d" and "q_desc q = None"
  shows "load_text set_queue (case d of None \<Rightarrow> [] | Some d \<Rightarrow> [line ''DESC'' d]) (h, q) = Inr (h, q\<lparr>q_desc := d\<rparr>)"
  using assms
  by (cases d; cases q) (simp_all add: load_text_line bare_unescape set_queue_simps key_simps)

lemma load_queue_nice:
  assumes "in32 n" and "q_nice q = UNSET_32"
  shows "load_text set_queue (nice_line n) (h, q) = Inr (h, q\<lparr>q_nice := n\<rparr>)"
  using assms by (cases q) (simp add: nice_line_def load_text_line set_queue_simps key_simps)

lemma load_queue_default:
  assumes "\<not> q_def q"
  shows "load_text set_queue (if b then [line ''DEFAULT'' ''1''] else []) (h, q) = Inr (h, q\<lparr>q_def := b\<rparr>)"
proof -
  have "atoi ''1'' = 1" by (simp add: atoi_def is_ws_def is_digit_def char_digit_def cint_id)
  with assms show ?thesis
    by (cases q) (simp add: load_text_line unescape_plain set_queue_simps key_simps)
qed

lemma load_queue_middle:
  assumes "in32 l" and "in32 p" and "bare host" and "in64 rv"
  shows "load_text set_queue
      [line ''JOBLIMIT'' (int64tostr l), line ''PRIORITY'' (int64tostr p), line ''HOST'' host,
       line ''REVISION'' (int64tostr rv)] (h, q) =
    Inr (Some host, q\<lparr>q_job_limit := l, q_priority := p, q_revision := rv\<rparr>)"
  using assms by (simp add: load_text_Cons [of _ _ "_ # _"] load_text_line bare_unescape set_queue_simps key_simps)

lemma queue_file_loads:
  assumes "queue_savable q"
  shows "stateLoadQueue (queue_path dir (q_name q)) (stateSaveQueue now s q) = Inr (persisted_queue s q)"
proof -
  let ?rest = "(case q_desc q of None \<Rightarrow> [] | Some d \<Rightarrow> [line ''DESC'' d]) @
        [line ''JOBLIMIT'' (int64tostr (q_job_limit q)), line ''PRIORITY'' (int64tostr (q_priority q)),
         line ''HOST'' (q_host q), line ''REVISION'' (int64tostr (q_revision q))] @
        nice_line (q_nice q) @ (if defaultQueue s = Some (q_name q) then [line ''DEFAULT'' ''1''] else [])"
  let ?ls = "[''# QUEUE '' @ q_name q, ''# SAVETIME '' @ int64tostr now] @ ?rest"
  have ok: "SLASH \<notin> set (q_name q)" "NL \<notin> set (q_name q)" "bare (q_host q)"
    "case q_desc q of None \<Rightarrow> True | Some d \<Rightarrow> bare d"
    and range: "in64 (q_revision q)" "in32 (q_job_limit q)" "in32 (q_priority q)" "in32 (q_nice q)"
    using assms by (simp_all add: queue_savable_def)
  have "list_all (\<lambda>l. NL \<notin> set l) ?ls"
    using ok by (auto simp: no_BSL_int64tostr nice_line_def bare_def clean_segments(1) split: option.split)
  then have "load_lines set_queue (file_lines (file_text ?ls)) a = load_text set_queue ?rest a" for a
    by (simp add: load_file_text list_all_iff load_text_comment)
  moreover have "load_text set_queue ?rest (None, q0) =
      Inr (Some (q_host q), q0\<lparr>q_desc := q_desc q, q_job_limit := q_job_limit q, q_priority := q_priority q,
        q_revision := q_revision q, q_nice := q_nice q, q_def := (defaultQueue s = Some (q_name q))\<rparr>)"
    if "q_desc q0 = None" "q_nice q0 = UNSET_32" "\<not> q_def q0" for q0
    unfolding load_text_append using that ok range
    by (simp add: load_queue_desc load_queue_middle load_queue_nice load_queue_default split del: if_split)
  ultimately show ?thesis
    unfolding stateLoadQueue_def stateSaveQueue_def file_stem_queue [OF ok(1)]
    by (simp add: persisted_queue_def queue_zero_def)
qed

definition persisted_resource :: "resource \<Rightarrow> resource" where
  "persisted_resource r = resource_zero\<lparr>r_revision := r_revision r, r_name := r_name r, r_count := r_count r\<rparr>"

definition resource_savable :: "resource \<Rightarrow> bool" where
  "resource_savable r \<longleftrightarrow>
     in64 (r_revision r) \<and> in32 (r_count r) \<and> SLASH \<notin> set (r_name r) \<and> NL \<notin> set (r_name r)"

lemma resource_file_loads:
  assumes "resource_savable r"
  shows "stateLoadResource (res_path dir (r_name r)) (stateSaveResource now r) = Inr (persisted_resource r)"
proof -
  let ?rest = "[line ''COUNT'' (int64tostr (r_count r)), line ''REVISION'' (int64tostr (r_revision r))]"
  let ?ls = "[''# RESOURCE '' @ r_name r, ''# SAVETIME '' @ int64tostr now] @ ?rest"
  have ok: "SLASH \<notin> set (r_name r)" "NL \<notin> set (r_name r)" "in64 (r_revision r)" "in32 (r_count r)"
    using assms by (simp_all add: resource_savable_def)
  then have "\<forall>l \<in> set ?ls. NL \<notin> set l" by (simp add: no_BSL_int64tostr clean_segments(1))
  then have "load_lines set_resource (file_lines (file_text ?ls)) a = load_text set_resource ?ls a" for a
    by (rule load_file_text)
  then have "load_lines set_resource (file_lines (file_text ?ls)) a = load_text set_resource ?rest a" for a
    by (simp add: load_text_comment)
  then show ?thesis
    unfolding stateLoadResource_def stateSaveResource_def file_stem_resource [OF ok(1)]
    using ok(3,4)
    by (simp add: load_text_Cons [of _ _ "_ # _"] load_text_line set_resource_def key_simps persisted_resource_def)
qed

subsection \<open>What a restart loses\<close>

text \<open>
  Adding an object to its table raises its revision, also when it is loaded from disk. A
  transaction is replayed only when its revision is above the object's.
\<close>

lemma loaded_revision:
  "findResource s n = None \<Longrightarrow> r_name r = n \<Longrightarrow>
   findResource (addRes r False s) n = Some (r\<lparr>r_revision := r_revision r + 1\<rparr>)"
  by (simp add: addRes_def updateRes_def on_res_def findResource_def tfind_tupd tfind_tadd)

text \<open>The first change of a resource after it was saved is lost when the daemon recovers:
  the daemon saves the resource, a client changes its count and the change is journalled
  with the new revision, the daemon restarts, loads the file and replays the record. Loading
  has raised the revision to that of the record, which is therefore skipped: the resource
  keeps the old count.\<close>

theorem resource_change_lost:
  assumes "findResource s n = Some r" and "resource_savable r"
    and "\<not> has_flag (r_internal_state r) JERS_FLAG_DELETED"
    and "ra_name rm = Some n" and "\<not> rec_in_progress (recovery s)"
    and modify: "command_mod_resource (Some c) rm s = Inr out"
    and load: "findResource s' n = None" "stateLoadResources [(res_path dir n, stateSaveResource now r)] s' = Inr s1"
    and replay: "s2 = s1\<lparr>recovery := rc\<rparr>" "rec_in_progress rc" "rec_revision rc = o_revision out"
  shows "o_status out = 0 \<and> map_option r_count (findResource (o_server out) n) = Some (ra_count rm) \<and>
         command_mod_resource None rm s2 = Inr (finish 0 [] s2) \<and>
         map_option r_count (findResource s2 n) = Some (r_count r)"
proof -
  have n: "r_name r = n" using assms(1) unfolding findResource_def by (blast dest: tfind_SomeD)
  let ?s = "updateRes n True (on_res n (\<lambda>r. r\<lparr>r_count := ra_count rm\<rparr>) s)"
  have now: "findResource ?s n = Some (r\<lparr>r_count := ra_count rm, r_revision := r_revision r + 1, r_dirty := True\<rparr>)"
    using assms(1) by (simp add: updateRes_def on_res_def findResource_def tfind_tupd)
  then have out: "o_status out = 0" "o_revision out = r_revision r + 1" "o_server out = ?s"
    using modify assms(1,3-5) n by (auto simp: command_mod_resource_def sendClientReturnCode_def res_revision_def)
  have "s1 = addRes (persisted_resource r) False s'"
    using load resource_file_loads [OF assms(2), of dir now] n by simp
  then have "findResource s2 n = Some ((persisted_resource r)\<lparr>r_revision := r_revision r + 1\<rparr>)"
    using loaded_revision [OF load(1), of "persisted_resource r"] n replay(1)
    by (simp add: persisted_resource_def findResource_def)
  then show ?thesis
    using now out replay assms(4)
    by (simp add: command_mod_resource_def persisted_resource_def resource_zero_def)
qed

theorem resource_change_lost_witness:
  "\<exists>out s1 s2. command_mod_resource (Some \<lparr>c_uid = 0, c_user = \<lparr>u_uid = 0, u_permissions = 0, u_group_list = []\<rparr>\<rparr>)
       \<lparr>ra_name = Some ''r'', ra_count = 9\<rparr> demo_saved_server = Inr out \<and>
     stateLoadResources [(res_path ''/s'' ''r'', stateSaveResource 0 (resource_zero\<lparr>r_name := ''r'', r_count := 4\<rparr>))]
       init_server = Inr s1 \<and>
     s2 = s1\<lparr>recovery := \<lparr>rec_in_progress = True, rec_uid = 0, rec_time = 0, rec_jobid = 0, rec_revision = o_revision out\<rparr>\<rparr> \<and>
     map_option r_count (findResource (o_server out) ''r'') = Some 9 \<and>
     command_mod_resource None \<lparr>ra_name = Some ''r'', ra_count = 9\<rparr> s2 = Inr (finish 0 [] s2) \<and>
     map_option r_count (findResource s2 ''r'') = Some 4"
proof -
  let ?r = "resource_zero\<lparr>r_name := ''r'', r_count := 4\<rparr>" and ?rm = "\<lparr>ra_name = Some ''r'', ra_count = 9\<rparr>"
  let ?c = "\<lparr>c_uid = 0, c_user = \<lparr>u_uid = 0, u_permissions = 0, u_group_list = []\<rparr>\<rparr>"
  let ?load = "stateLoadResources [(res_path ''/s'' ''r'', stateSaveResource 0 ?r)] init_server"
  have r: "findResource demo_saved_server ''r'' = Some ?r" "\<not> rec_in_progress (recovery demo_saved_server)"
    by (simp_all add: demo_saved_server_def findResource_def table_simps resource_zero_def init_server_def)
  have ok: "resource_savable ?r" by (simp add: resource_savable_def resource_zero_def in64_def in32_def)
  obtain out where out: "command_mod_resource (Some ?c) ?rm demo_saved_server = Inr out"
    using r by (auto simp: command_mod_resource_def resource_zero_def sendClientReturnCode_def Let_def)
  obtain s1 where s1: "?load = Inr s1"
    using resource_file_loads [OF ok, of "''/s''" 0] by (simp add: resource_zero_def)
  let ?s2 = "s1\<lparr>recovery := \<lparr>rec_in_progress = True, rec_uid = 0, rec_time = 0, rec_jobid = 0, rec_revision = o_revision out\<rparr>\<rparr>"
  have "o_status out = 0 \<and> map_option r_count (findResource (o_server out) ''r'') = Some (ra_count ?rm) \<and>
      command_mod_resource None ?rm ?s2 = Inr (finish 0 [] ?s2) \<and> map_option r_count (findResource ?s2 ''r'') = Some (r_count ?r)"
    by (rule resource_change_lost [OF r(1) ok _ _ r(2) out _ s1 refl])
      (simp_all add: resource_zero_def init_server_def findResource_def table_simps)
  with out s1 show ?thesis by (intro exI [of _ out] exI [of _ s1] exI [of _ ?s2]) simp
qed

text \<open>A deleted job that is still to be written to disk comes back: deleting leaves it as
  dirty as it was and takes its state away; a job without a state is written without one, and a
  file without a state is loaded as a pending job.\<close>

theorem deleted_job_resurrected:
  assumes "daemon_ok s" and "findJob s k = Some j0" and "findJob (deleteJob k s) k = Some j" and "job_savable s0 j"
  shows "has_flag (j_internal_state j) JERS_FLAG_DELETED \<and> j_dirty j = j_dirty j0 \<and>
    (\<exists>j'. bindR (stateSaveJob now j) (stateLoadJob s0 (job_path dir k)) = Inr j' \<and>
       j_jobid j' = k \<and> j_state j' = JERS_JOB_PENDING \<and> \<not> has_flag (j_internal_state j') JERS_FLAG_DELETED)"
proof -
  have j: "j = j0\<lparr>j_internal_state := set_flag (j_internal_state j0) JERS_FLAG_DELETED, j_state := 0,
      j_revision := j_revision j0 + 1\<rparr>" "j_jobid j0 = k"
    using assms(3) findJob_deleteJob [OF assms(1,2)] assms(2) by (auto simp: findJob_def dest: tfind_SomeD)
  then have "bindR (stateSaveJob now j) (stateLoadJob s0 (job_path dir k)) = Inr (persisted j)"
    using job_file_loads [OF assms(4)] by simp
  then show ?thesis using j by (simp add: persisted_def job_zero_def)
qed

theorem deleted_job_resurrected_witness:
  "\<exists>j j'. findJob (deleteJob 7 demo_server) 7 = Some j \<and> has_flag (j_internal_state j) JERS_FLAG_DELETED \<and>
     bindR (stateSaveJob 0 j) (stateLoadJob demo_server (job_path ''/s'' 7)) = Inr j' \<and> j_state j' = JERS_JOB_PENDING"
proof -
  let ?j = "(demo_job 7 100)\<lparr>j_internal_state := set_flag (j_internal_state (demo_job 7 100)) JERS_FLAG_DELETED,
      j_state := 0, j_revision := j_revision (demo_job 7 100) + 1\<rparr>"
  have found: "findJob demo_server 7 = Some (demo_job 7 100)" by (simp add: request_simps)
  then have "findJob (deleteJob 7 demo_server) 7 = Some ?j" by (rule findJob_deleteJob [OF demo_daemon_ok(1)])
  moreover have "job_savable demo_server ?j"
    by (simp add: job_savable_def job_in_range_def demo_job_def demo_server_def job_zero_def
        init_server_def queue_zero_def resource_zero_def rusage_zero_def usage_in_range_def in32_def in64_def inu32_def
        bare_def findQueue_def findResource_def table_simps)
  ultimately show ?thesis
    using deleted_job_resurrected [OF demo_daemon_ok(1) found, of ?j demo_server 0 "''/s''"] by blast
qed

end
