(* ===== verification/Journal.thy ===== *)
theory Journal
  imports State_File
begin

section \<open>The journal and its replay, state.c\<close>

text \<open>
  The journal half of \<open>src/src/state.c\<close>. A journal file is its bytes, the records followed by
  the zero bytes that were written to reserve space. \<open>localtime\<close> and \<open>mktime\<close> are the functions
  that give the date of a file name and the next midnight; the results of the system calls that
  write are arguments: the results of the successive \<open>pwrite\<close> calls of an extension (when they
  are used up the rest is written in full) and the number of bytes the final \<open>write\<close> wrote.
\<close>

abbreviation NUL :: char where "NUL \<equiv> CHR 0x00"
abbreviation STAR :: char where "STAR \<equiv> CHR ''*''"
abbreviation DOLLAR :: char where "DOLLAR \<equiv> CHR ''$''"
abbreviation (input) READONLY_ENOSPACE :: int where "READONLY_ENOSPACE \<equiv> 1"
abbreviation (input) READONLY_BGSAVE :: int where "READONLY_BGSAVE \<equiv> 2"

subsection \<open>State\<close>

record journal =
  jn_open :: bool
  jn_datetime :: string
  jn_text :: string
  jn_pos :: nat
  jn_len :: nat
  jn_limit :: int
  jn_size :: nat
  jn_extend_block_size :: nat
  jn_last_commit :: nat
  jn_record :: int
  jn_next_rollover :: int
  jn_files :: "(string \<times> string) list"
  flush_defer :: bool
  flush_dirty :: int

datatype write_result = Written nat | NoSpace | Interrupted | WriteError

record journal_env =
  je_sec :: int
  je_msec :: int
  je_rollover :: "int \<Rightarrow> int"
  je_date :: "int \<Rightarrow> string"
  je_junk :: string
  je_opened :: "write_result list"
  je_extended :: "write_result list"
  je_written :: "nat option"

text \<open>Bytes written into a file at an offset; a gap behind the end is filled with zeros.\<close>

definition pwrite :: "nat \<Rightarrow> string \<Rightarrow> string \<Rightarrow> string" where
  "pwrite off bytes f =
     take off (f @ replicate (off - length f) NUL) @ bytes @ drop (off + length bytes) f"

subsection \<open>The end of an existing journal\<close>

text \<open>
  The file is read in chunks of 8192 bytes into a buffer whose last byte is kept zero; a
  shorter chunk leaves the bytes of the one before it behind its end. The result is the
  offset of the first zero byte and the number of newlines seen.
\<close>

definition newlines :: "string \<Rightarrow> nat" where
  "newlines t = length (filter (\<lambda>c. c = NL) t)"

definition read_chunk :: "string \<Rightarrow> string \<Rightarrow> string" where
  "read_chunk data chunk = take 8192 (chunk @ drop (length chunk) data) @ [NUL]"

function findJournalEnd :: "string \<Rightarrow> string \<Rightarrow> nat \<Rightarrow> nat \<Rightarrow> nat \<times> nat" where
  "findJournalEnd data f offset record =
     (if f = [] then (offset, record)
      else (let chunk = take 8192 f;
                data = read_chunk data chunk;
                record = record + newlines (c_str data)
            in if last chunk = NUL then (offset + length (c_str data), record)
               else findJournalEnd data (drop 8192 f) (offset + length chunk) record))"
  by pat_completeness auto
termination
  by (relation "measure (\<lambda>(data, f, offset, record). length f)") auto

declare findJournalEnd.simps [simp del]

subsection \<open>Reserving space\<close>

text \<open>
  \<open>data\<close> has as many bytes as the first \<open>fill_size\<close>. An interrupted call returns -1, which is
  subtracted from the size and added to the offset like any other result.
\<close>

fun fill_loop :: "write_result list \<Rightarrow> nat \<Rightarrow> nat \<Rightarrow> nat \<Rightarrow> string \<Rightarrow> fault + bool \<times> string" where
  "fill_loop rs data_len fill_size offset f =
     (if fill_size = 0 then Inr (True, f)
      else if fill_size > data_len then Inl Overflow
      else (case rs of
              [] \<Rightarrow> Inr (True, pwrite offset (replicate fill_size NUL) f)
            | r # rs \<Rightarrow>
                (case r of
                   Written n \<Rightarrow>
                     fill_loop rs data_len (fill_size - min n fill_size) (offset + min n fill_size)
                       (pwrite offset (replicate (min n fill_size) NUL) f)
                 | NoSpace \<Rightarrow> Inr (False, f)
                 | Interrupted \<Rightarrow> fill_loop rs data_len (fill_size + 1) (offset - 1) f
                 | WriteError \<Rightarrow> Inl Abort)))"

declare fill_loop.simps [simp del]

definition extendJournal :: "write_result list \<Rightarrow> journal \<times> server \<Rightarrow> fault + int \<times> journal \<times> server" where
  "extendJournal rs js =
     (let (j, s) = js;
          new_size = jn_size j + jn_extend_block_size j;
          new_size = (if jn_limit j = 0 then new_size + jn_extend_block_size j else new_size);
          fill_size = new_size - jn_size j
      in bindR (fill_loop rs fill_size fill_size (jn_size j) (jn_text j)) (\<lambda>(ok, f).
           if \<not> ok then
             Inr (1, j\<lparr>jn_text := f\<rparr>, if readonly s = 0 then s\<lparr>readonly := READONLY_ENOSPACE\<rparr> else s)
           else
             Inr (0, j\<lparr>jn_text := f, jn_size := new_size,
                       jn_limit := int new_size - int (jn_extend_block_size j)\<rparr>,
                  if readonly s = READONLY_ENOSPACE then s\<lparr>readonly := 0\<rparr> else s)))"

subsection \<open>Opening a journal\<close>

definition openStateFile :: "journal_env \<Rightarrow> journal \<Rightarrow> journal" where
  "openStateFile e j =
     (let j = j\<lparr>jn_record := 0, jn_datetime := je_date e (je_sec e), jn_open := True\<rparr>
      in case tfind fst (jn_datetime j) (jn_files j) of
           None \<Rightarrow> j\<lparr>jn_text := [], jn_pos := 0, jn_len := 0, jn_size := 0, jn_limit := 0, jn_record := 0\<rparr>
         | Some (_, f) \<Rightarrow>
             (let (len, record) = findJournalEnd (je_junk e) f 0 0;
                  limit = int (length f) - int (jn_extend_block_size j)
              in j\<lparr>jn_text := f, jn_pos := len, jn_len := len, jn_size := length f,
                   jn_limit := if limit \<le> 0 then int len else limit, jn_record := int record,
                   jn_files := tdel fst (jn_datetime j) (jn_files j)\<rparr>))"

text \<open>The end marker is written at the position of the file, which is then closed.\<close>

definition closeJournal :: "journal \<Rightarrow> journal" where
  "closeJournal j =
     (if jn_open j then
        j\<lparr>jn_open := False,
          jn_files := tadd (jn_datetime j, pwrite (jn_pos j) [DOLLAR, NL] (jn_text j)) (jn_files j)\<rparr>
      else j)"

subsection \<open>Writing a record\<close>

definition msec_text :: "int \<Rightarrow> string" where
  "msec_text m = (let t = int64tostr m in replicate (3 - length t) (CHR ''0'') @ t)"

definition journal_line :: "int \<Rightarrow> int \<Rightarrow> int \<Rightarrow> string \<Rightarrow> int \<Rightarrow> int \<Rightarrow> string option \<Rightarrow> string" where
  "journal_line sec msec uid command jobid revision m =
     SPC # int64tostr sec @ CHR ''.'' # msec_text msec @ TAB # int64tostr (int32 uid) @ TAB # command @
     TAB # int64tostr (int32 jobid) @ TAB # int64tostr revision @ TAB #
     (case m of Some m \<Rightarrow> m | None \<Rightarrow> []) @ [NL]"

definition roll_journal :: "journal_env \<Rightarrow> journal \<times> server \<Rightarrow> fault + int \<times> journal \<times> server" where
  "roll_journal e js =
     (let (j, s) = js
      in if je_sec e < jn_next_rollover j then Inr (0, j, s)
         else
           (let j = closeJournal j
            in if je_rollover e (je_sec e) < 0 then Inl Abort
               else
                 (let j = openStateFile e (j\<lparr>jn_next_rollover := je_rollover e (je_sec e)\<rparr>)
                  in if jn_size j = 0 \<or> int (jn_len j) \<ge> jn_limit j then extendJournal (je_opened e) (j, s)
                     else Inr (0, j, s))))"

definition write_record :: "journal_env \<Rightarrow> string \<Rightarrow> journal \<Rightarrow> int \<times> journal" where
  "write_record e l j =
     (case je_written e of
        None \<Rightarrow> (1, j)
      | Some n \<Rightarrow>
          (let n = min n (length l)
           in (0, j\<lparr>jn_text := pwrite (jn_pos j) (take n l) (jn_text j), jn_pos := jn_pos j + n,
                    jn_len := jn_len j + n, jn_record := jn_record j + 1,
                    flush_dirty := if flush_defer j then flush_dirty j + 1 else flush_dirty j,
                    jn_last_commit := jn_pos j\<rparr>)))"

definition stateSaveCmd :: "journal_env \<Rightarrow> int \<Rightarrow> string \<Rightarrow> string option \<Rightarrow> int \<Rightarrow> int \<Rightarrow> journal \<times> server \<Rightarrow>
  fault + int \<times> journal \<times> server" where
  "stateSaveCmd e uid command m jobid revision js =
     bindR (roll_journal e js) (\<lambda>(rc, j, s).
       if rc \<noteq> 0 then Inr (1, j, s)
       else
         (let l = journal_line (je_sec e) (je_msec e) uid command jobid revision m
          in bindR (if int (jn_len j + length l) \<ge> jn_limit j then extendJournal (je_extended e) (j, s)
                    else Inr (0, j, s)) (\<lambda>(_, j, s).
               (let (rc, j) = write_record e l j in Inr (rc, j, s)))))"

definition flush_journal :: "bool \<Rightarrow> journal \<Rightarrow> journal" where
  "flush_journal force j = (if \<not> force \<and> flush_dirty j = 0 then j else j\<lparr>flush_dirty := 0\<rparr>)"

subsection \<open>Reading a record\<close>

text \<open>
  \<open>sscanf\<close>: a number is preceded by white space and a sign and has at least one digit; white
  space in the format skips any white space, also none; any other character stands for itself.
\<close>

definition scan_blank :: "string \<Rightarrow> string" where
  "scan_blank t = dropWhile scan_ws t"

definition scan_number :: "string \<Rightarrow> (int \<times> string) option" where
  "scan_number t =
     (let t = scan_blank t;
          neg = (t \<noteq> [] \<and> hd t = CHR ''-'');
          t = (if t \<noteq> [] \<and> hd t \<in> {CHR ''-'', CHR ''+''} then tl t else t)
      in if t = [] \<or> \<not> is_digit (hd t) then None
         else (case strtoint64_digits 0 t of (n, r) \<Rightarrow> Some (if neg then int64 (- n) else n, r)))"

definition scan_char :: "char \<Rightarrow> string \<Rightarrow> string option" where
  "scan_char c t = (case t of d # r \<Rightarrow> if d = c then Some r else None | [] \<Rightarrow> None)"

definition scan_word :: "nat \<Rightarrow> string \<Rightarrow> (string \<times> string) option" where
  "scan_word n t =
     (let t = scan_blank t; w = take n (takeWhile (\<lambda>c. \<not> scan_ws c) t)
      in if w = [] then None else Some (w, drop (length w) t))"

record journal_entry =
  en_time :: int
  en_uid :: int
  en_command :: string
  en_jobid :: nat
  en_revision :: int
  en_json :: string

definition bindO :: "'a option \<Rightarrow> ('a \<Rightarrow> 'b option) \<Rightarrow> 'b option" where
  "bindO x f = (case x of None \<Rightarrow> None | Some y \<Rightarrow> f y)"

definition scan_entry :: "string \<Rightarrow> journal_entry option" where
  "scan_entry t =
     bindO (scan_number (scan_blank t)) (\<lambda>(sec, t).
     bindO (scan_char (CHR ''.'') t) (\<lambda>t.
     bindO (scan_number t) (\<lambda>(_, t).
     bindO (scan_number (scan_blank t)) (\<lambda>(uid, t).
     bindO (scan_word 64 (scan_blank t)) (\<lambda>(command, t).
     bindO (scan_number (scan_blank t)) (\<lambda>(jobid, t).
     bindO (scan_number (scan_blank t)) (\<lambda>(revision, t).
     Some \<lparr>en_time = sec, en_uid = uint32 uid, en_command = command, en_jobid = nat (uint32 jobid),
           en_revision = revision, en_json = scan_blank t\<rparr>)))))))"

text \<open>The message, if the record has one; an unreadable record or message ends the daemon.\<close>

definition convertJournalEntry :: "env \<Rightarrow> string \<Rightarrow> server \<Rightarrow> fault + msg option \<times> server" where
  "convertJournalEntry e entry s =
     (case scan_entry entry of
        None \<Rightarrow> Inl Abort
      | Some en \<Rightarrow>
          bindR (if en_json en = [] then Inr None
                 else (case load_message (e_fresh e) (e_fields e) (en_json en) of
                         Loaded m \<Rightarrow> Inr (Some m)
                       | Refused \<Rightarrow> Inl Abort
                       | OutOfBounds \<Rightarrow> Inl Overflow)) (\<lambda>m.
            Inr (m, s\<lparr>recovery := (recovery s)\<lparr>rec_time := en_time en, rec_uid := en_uid en,
                        rec_jobid := en_jobid en, rec_revision := en_revision en\<rparr>\<rparr>)))"

definition replayTransaction :: "env \<Rightarrow> string \<Rightarrow> daemon \<Rightarrow> fault + daemon" where
  "replayTransaction e entry d =
     (let entry = takeWhile (\<lambda>c. c \<noteq> NL) (c_str entry)
      in if entry = [] \<or> hd entry = DOLLAR then Inr d
         else bindR (convertJournalEntry e entry (d_server d)) (\<lambda>(m, s).
                (case m of
                   None \<Rightarrow> Inr (d\<lparr>d_server := s\<rparr>)
                 | Some m \<Rightarrow> replayCommand (e_world e) (e_auth e) m (d\<lparr>d_server := s\<rparr>))))"

subsection \<open>Replaying the journals\<close>

text \<open>The offset behind the last line that starts with a star, or -1.\<close>

fun commit_offset :: "nat \<Rightarrow> int \<Rightarrow> string list \<Rightarrow> int" where
  "commit_offset pos last_commit [] = last_commit"
| "commit_offset pos last_commit (l # ls) =
     commit_offset (pos + length l) (if l \<noteq> [] \<and> hd l = STAR then int (pos + length l) else last_commit) ls"

definition checkForLastCommit :: "string \<Rightarrow> int" where
  "checkForLastCommit f = commit_offset 0 (-1) (file_lines f)"

fun replay_lines :: "env \<Rightarrow> string list \<Rightarrow> daemon \<Rightarrow> fault + daemon" where
  "replay_lines e [] d = Inr d"
| "replay_lines e (l # ls) d = bindR (replayTransaction e l d) (replay_lines e ls)"

definition replayJournal :: "env \<Rightarrow> string \<Rightarrow> int \<Rightarrow> daemon \<Rightarrow> fault + daemon" where
  "replayJournal e f offset d = replay_lines e (file_lines (if offset \<ge> 0 then drop (nat offset) f else f)) d"

text \<open>The journals from the newest to the oldest, until one has a commit.\<close>

fun find_commit :: "string list \<Rightarrow> nat \<Rightarrow> nat \<times> int" where
  "find_commit js 0 = (0, -1)"
| "find_commit js (Suc i) =
     (if checkForLastCommit (js ! i) \<ge> 0 then (Suc i, checkForLastCommit (js ! i)) else find_commit js i)"

fun replay_journals :: "env \<Rightarrow> string list \<Rightarrow> int \<Rightarrow> daemon \<Rightarrow> fault + daemon" where
  "replay_journals e [] offset d = Inr d"
| "replay_journals e (f # fs) offset d = bindR (replayJournal e f offset d) (replay_journals e fs (-1))"

definition replay_from_commit :: "env \<Rightarrow> string list \<Rightarrow> daemon \<Rightarrow> fault + daemon" where
  "replay_from_commit e js d =
     (let (i, offset) = find_commit js (length js);
          (i, offset) = (if offset = -1 then (1, 0) else (i, offset))
      in replay_journals e (drop (i - 1) js) offset d)"

definition recover_job :: "nat \<Rightarrow> server \<Rightarrow> server" where
  "recover_job k s =
     (case findJob s k of
        None \<Rightarrow> s
      | Some j \<Rightarrow>
          if j_state j = JERS_JOB_RUNNING \<or> has_flag (j_internal_state j) JERS_FLAG_JOB_STARTED then
            (let s = changeJobState k JERS_JOB_UNKNOWN None True s;
                 s = on_job k (\<lambda>j. j\<lparr>j_internal_state := clear_flag (j_internal_state j) JERS_FLAG_JOB_STARTED\<rparr>) s
             in allocateRes j s)
          else s)"

definition set_recovery :: "bool \<Rightarrow> server \<Rightarrow> server" where
  "set_recovery b s = s\<lparr>recovery := (recovery s)\<lparr>rec_in_progress := b\<rparr>\<rparr>"

definition clear_recovery :: "server \<Rightarrow> server" where
  "clear_recovery s = s\<lparr>recovery := (recovery s)\<lparr>rec_in_progress := False, rec_time := 0, rec_uid := 0, rec_jobid := 0\<rparr>\<rparr>"

text \<open>Without any journal the function returns before the jobs are looked at.\<close>

definition stateReplayJournal :: "env \<Rightarrow> journal_env \<Rightarrow> int \<Rightarrow> string list \<Rightarrow> daemon \<times> journal \<Rightarrow> fault + daemon \<times> journal" where
  "stateReplayJournal e je uid js dj =
     (let (d, j) = dj
      in if js = [] then Inr (d, j)
         else
           bindR (replay_from_commit e js (on_server (set_recovery True) d)) (\<lambda>d.
             let s = clear_recovery (d_server d);
                 s = fold recover_job (map j_jobid (jobTable s)) s
             in bindR (stateSaveCmd je uid ''REPLAY_COMPLETE'' None 0 0 (j, s)) (\<lambda>(_, j, s).
                  Inr (d\<lparr>d_server := s\<rparr>, j))))"

subsection \<open>The end of a journal is found\<close>

lemma c_str_stop: "NUL \<notin> set t \<Longrightarrow> c_str (t @ NUL # u) = t"
  unfolding c_str_def by (intro takeWhile_append_stop) auto

lemma c_str_id: "NUL \<notin> set t \<Longrightarrow> c_str t = t"
  unfolding c_str_def by (intro takeWhile_all) auto

lemma newlines_append [simp]: "newlines (t @ u) = newlines t + newlines u"
  by (simp add: newlines_def)

lemma findJournalEnd_eq:
  assumes "NUL \<notin> set body" and "0 < n"
  shows "findJournalEnd data (body @ replicate n NUL) offset recs = (offset + length body, recs + newlines body)"
  using assms
proof (induction body arbitrary: data offset recs rule: length_induct)
  case (1 body)
  let ?f = "body @ replicate n NUL"
  show ?case
  proof (cases "length body < 8192")
    case True
    let ?m = "min n (8192 - length body)"
    have chunk: "take 8192 ?f = body @ replicate ?m NUL" and "0 < ?m" using True "1.prems" by simp_all
    then obtain k where k: "?m = Suc k" by (cases ?m) auto
    have lst: "last (body @ replicate ?m NUL) = NUL" unfolding k by (simp add: replicate_append_same [symmetric])
    obtain r where "8192 - length body = Suc r" using True by (metis Suc_diff_Suc)
    then have "c_str (read_chunk data (body @ replicate ?m NUL)) = body"
      unfolding read_chunk_def k using True "1.prems"(1) by (simp add: c_str_stop)
    then show ?thesis
      using "1.prems"(2) lst by (subst findJournalEnd.simps) (simp only: chunk Let_def, simp)
  next
    case False
    let ?c = "take 8192 body"
    have len: "length ?c = 8192" using False by simp
    have chunk: "take 8192 ?f = ?c" using False by simp
    have clean: "NUL \<notin> set ?c" using "1.prems"(1) by (meson in_set_takeD)
    have "last ?c \<in> set ?c" using len by (intro last_in_set) auto
    with clean have lst: "last ?c \<noteq> NUL" by metis
    have data: "read_chunk data ?c = ?c @ [NUL]" using len by (simp add: read_chunk_def)
    have "findJournalEnd (?c @ [NUL]) (drop 8192 body @ replicate n NUL) (offset + 8192) (recs + newlines ?c) =
        (offset + 8192 + length (drop 8192 body), recs + newlines ?c + newlines (drop 8192 body))"
      using False "1.prems" by (intro "1.IH" [rule_format]) (auto dest: in_set_dropD)
    moreover have "newlines ?c + newlines (drop 8192 body) = newlines body"
      by (simp flip: newlines_append)
    moreover have "drop 8192 ?f = drop 8192 body @ replicate n NUL" using False by simp
    ultimately show ?thesis
      using False lst len "1.prems"(2) by (subst findJournalEnd.simps) (simp add: chunk data Let_def c_str_stop [OF clean])
  qed
qed

subsection \<open>What a replay replays\<close>

definition starred :: "string \<Rightarrow> bool" where
  "starred l \<longleftrightarrow> l \<noteq> [] \<and> hd l = STAR"

text \<open>The lines behind the last one with a star.\<close>

definition after_commit :: "string list \<Rightarrow> string list" where
  "after_commit ls = rev (takeWhile (\<lambda>l. \<not> starred l) (rev ls))"

lemma after_commit_append:
  "after_commit (ks @ ls) = (if list_ex starred ls then after_commit ls else after_commit ks @ ls)"
proof (cases "list_ex starred ls")
  case True
  then obtain l where "l \<in> set (rev ls)" "starred l" by (auto simp: list_ex_iff)
  then have "takeWhile (\<lambda>l. \<not> starred l) (rev ls @ rev ks) = takeWhile (\<lambda>l. \<not> starred l) (rev ls)"
    by (intro takeWhile_append1) auto
  with True show ?thesis by (simp add: after_commit_def)
next
  case False
  then have "\<And>l. l \<in> set (rev ls) \<Longrightarrow> \<not> starred l" by (auto simp: list_ex_iff)
  then have "takeWhile (\<lambda>l. \<not> starred l) (rev ls @ rev ks) = rev ls @ takeWhile (\<lambda>l. \<not> starred l) (rev ks)"
    by (rule takeWhile_append2)
  with False show ?thesis by (simp add: after_commit_def)
qed

lemma after_commit_plain: "\<not> list_ex starred ls \<Longrightarrow> after_commit ls = ls"
  using after_commit_append [of "[]" ls] by (simp add: after_commit_def)

lemma after_commit_snoc: "after_commit (ls @ [l]) = (if starred l then [] else after_commit ls @ [l])"
  by (simp add: after_commit_append) (simp add: after_commit_def)

lemma after_commit_suffix: "\<exists>ks. ls = ks @ after_commit ls"
  unfolding after_commit_def by (metis rev_append rev_rev_ident takeWhile_dropWhile_id)

lemma commit_offset_eq:
  "commit_offset pos acc ls =
   (if list_ex starred ls then int (pos + length (concat ls) - length (concat (after_commit ls))) else acc)"
proof (induction ls arbitrary: pos acc)
  case (Cons l ls)
  obtain ks where ks: "ls = ks @ after_commit ls" using after_commit_suffix by blast
  then have "length (concat (after_commit ls)) \<le> length (concat ls)" by (metis concat_append length_append le_add2)
  moreover have "after_commit (l # ls) = (if list_ex starred ls then after_commit ls else if starred l then ls else l # ls)"
    using after_commit_append [of "[l]" ls] by (simp add: after_commit_def)
  ultimately show ?case using Cons.IH by (simp flip: starred_def)
qed simp

lemma file_lines_drop: "file_lines (drop (length (concat (take k (file_lines t)))) t) = drop k (file_lines t)"
proof (induction k arbitrary: t)
  case (Suc k)
  show ?case
  proof (cases "t = []")
    case True
    then show ?thesis by (simp add: file_lines.simps)
  next
    case False
    then have ls: "file_lines t = fst (getline t) # file_lines (snd (getline t))" by (subst file_lines.simps) simp
    have "drop (length (fst (getline t)) + n) t = drop n (snd (getline t))" for n
      by (metis add.commute append_eq_conv_conj drop_drop getline_append)
    then show ?thesis using Suc.IH [of "snd (getline t)"] by (simp add: ls)
  qed
qed simp

lemma file_lines_suffix: "file_lines t = ks @ ls \<Longrightarrow> file_lines (drop (length t - length (concat ls)) t) = ls"
proof -
  assume t: "file_lines t = ks @ ls"
  then have "length t - length (concat ls) = length (concat ks)"
    by (metis add_diff_cancel_right' concat_append concat_file_lines length_append)
  then show ?thesis using file_lines_drop [of "length ks" t] t by simp
qed

lemma checkForLastCommit_nonneg: "0 \<le> checkForLastCommit f \<longleftrightarrow> list_ex starred (file_lines f)"
  by (simp add: checkForLastCommit_def commit_offset_eq)

lemma checkForLastCommit_none: "\<not> list_ex starred (file_lines f) \<Longrightarrow> checkForLastCommit f = -1"
  by (simp add: checkForLastCommit_def commit_offset_eq)

lemma replayJournal_commit:
  "list_ex starred (file_lines f) \<Longrightarrow>
   replayJournal e f (checkForLastCommit f) d = replay_lines e (after_commit (file_lines f)) d"
proof -
  assume st: "list_ex starred (file_lines f)"
  obtain ks where "file_lines f = ks @ after_commit (file_lines f)" using after_commit_suffix by blast
  from file_lines_suffix [OF this] st show ?thesis
    by (simp add: replayJournal_def checkForLastCommit_def commit_offset_eq concat_file_lines)
qed

lemma replay_lines_Nil [simp]: "replay_lines e [] = Inr"
  by (rule ext) simp

lemma replay_lines_one: "replay_lines e [l] = replayTransaction e l"
  by (rule ext) simp

lemma replay_lines_append: "replay_lines e (ks @ ls) d = bindR (replay_lines e ks d) (replay_lines e ls)"
  by (induction ks arbitrary: d) (simp_all add: bindR_def split: sum.split)

lemma replay_all: "replay_journals e fs (-1) = replay_lines e (concat (map file_lines fs))"
proof (induction fs)
  case (Cons f fs)
  show ?case
    by (rule ext) (simp add: Cons.IH replayJournal_def replay_lines_append)
qed (rule ext, simp)

lemma find_commit_cases:
  assumes "find_commit js n = (i, offset)" and "n \<le> length js"
  obtains (none) "i = 0" "offset = -1" "\<forall>k < n. \<not> list_ex starred (file_lines (js ! k))"
  | (some) k where "i = Suc k" "k < n" "offset = checkForLastCommit (js ! k)" "list_ex starred (file_lines (js ! k))"
      "\<forall>m. k < m \<and> m < n \<longrightarrow> \<not> list_ex starred (file_lines (js ! m))"
  using assms
proof (induction n arbitrary: thesis)
  case (Suc n)
  show ?case
  proof (cases "list_ex starred (file_lines (js ! n))")
    case True
    with Suc.prems show ?thesis by (intro Suc.prems(2)) (auto simp: checkForLastCommit_nonneg)
  next
    case False
    with Suc.prems(3) have "find_commit js n = (i, offset)" by (simp add: checkForLastCommit_nonneg)
    then show ?thesis
    proof (rule Suc.IH [rotated 2])
      show "n \<le> length js" using Suc.prems(4) by simp
    next
      assume "i = 0" "offset = -1" "\<forall>k<n. \<not> list_ex starred (file_lines (js ! k))"
      with False show ?thesis by (intro Suc.prems(1)) (auto simp: less_Suc_eq)
    next
      fix k assume "i = Suc k" "k < n" "offset = checkForLastCommit (js ! k)" "list_ex starred (file_lines (js ! k))"
        "\<forall>m. k < m \<and> m < n \<longrightarrow> \<not> list_ex starred (file_lines (js ! m))"
      with False show ?thesis by (intro Suc.prems(2) [of k]) (auto simp: less_Suc_eq)
    qed
  qed
qed simp

lemma no_commit_concat:
  "(\<And>f. f \<in> set fs \<Longrightarrow> \<not> list_ex starred (file_lines f)) \<Longrightarrow> \<not> list_ex starred (concat (map file_lines fs))"
  by (auto simp: list_ex_iff)

lemma replay_from_commit_eq: "replay_from_commit e js d = replay_lines e (after_commit (concat (map file_lines js))) d"
proof -
  obtain i offset where fc: "find_commit js (length js) = (i, offset)" by (cases "find_commit js (length js)")
  show ?thesis
  proof (rule find_commit_cases [OF fc order.refl])
    assume *: "i = 0" "offset = -1" "\<forall>k < length js. \<not> list_ex starred (file_lines (js ! k))"
    then have "\<not> list_ex starred (concat (map file_lines js))"
      by (intro no_commit_concat) (auto simp: in_set_conv_nth)
    moreover have "replay_journals e js 0 = replay_journals e js (-1)"
      by (cases js) (auto simp: replayJournal_def)
    ultimately show ?thesis using * by (simp add: replay_from_commit_def fc replay_all after_commit_plain)
  next
    fix k assume *: "i = Suc k" "k < length js" "offset = checkForLastCommit (js ! k)"
      "list_ex starred (file_lines (js ! k))" "\<forall>m. k < m \<and> m < length js \<longrightarrow> \<not> list_ex starred (file_lines (js ! m))"
    have drop: "drop k js = js ! k # drop (Suc k) js" using *(2) by (simp add: Cons_nth_drop_Suc)
    have "\<not> list_ex starred (file_lines f)" if f: "f \<in> set (drop (Suc k) js)" for f
    proof -
      obtain m where "m < length (drop (Suc k) js)" "drop (Suc k) js ! m = f" using f by (metis in_set_conv_nth)
      then have "Suc k + m < length js" "f = js ! (Suc k + m)" by auto
      with *(5) show ?thesis by auto
    qed
    then have rest: "\<not> list_ex starred (concat (map file_lines (drop (Suc k) js)))" by (rule no_commit_concat)
    have "concat (map file_lines js) =
        concat (map file_lines (take k js)) @ file_lines (js ! k) @ concat (map file_lines (drop (Suc k) js))"
      by (metis append_take_drop_id concat.simps(2) concat_append drop list.simps(9) map_append)
    moreover have "after_commit (file_lines (js ! k) @ concat (map file_lines (drop (Suc k) js))) =
        after_commit (file_lines (js ! k)) @ concat (map file_lines (drop (Suc k) js))"
      using rest by (simp add: after_commit_append)
    ultimately have "after_commit (concat (map file_lines js)) =
        after_commit (file_lines (js ! k)) @ concat (map file_lines (drop (Suc k) js))"
      using *(4) by (simp add: after_commit_append [of "concat (map file_lines (take k js))"])
    moreover have "offset \<noteq> -1" using *(3,4) checkForLastCommit_nonneg [of "js ! k"] by auto
    ultimately show ?thesis
      using * drop by (simp add: replay_from_commit_def fc replay_all replay_lines_append replayJournal_commit)
  qed
qed

text \<open>C28. Recovery replays exactly the journal lines behind the last committed one, in order and
  across journal files: searching the files from the newest to the oldest for the byte offset
  behind the last line with a star, seeking there and reading on through the newer files is
  the same as taking all lines of all files and dropping everything up to the last star.\<close>

theorem replay_after_last_commit:
  "replay_from_commit e js d = replay_lines e (after_commit (concat (map file_lines js))) d"
  by (rule replay_from_commit_eq)

subsection \<open>A record is read back\<close>

lemma scan_ws_digit: "is_digit c \<Longrightarrow> \<not> scan_ws c"
  by (auto simp: scan_ws_def is_ws_def is_digit_def)

lemma int64tostr_first:
  "0 \<le> n \<Longrightarrow> \<exists>c cs. int64tostr n = c # cs \<and> is_digit c"
  "n < 0 \<Longrightarrow> \<exists>c cs. int64tostr n = CHR ''-'' # c # cs \<and> is_digit c"
proof -
  have first: "\<exists>c cs. rev (digits_rev v) = c # cs \<and> is_digit c" for v
    using hd_rev_digits [of v] by (cases "rev (digits_rev v)") auto
  show "\<exists>c cs. int64tostr n = c # cs \<and> is_digit c" if "0 \<le> n"
    using first [of "nat n"] that by (simp add: int64tostr_eq)
  show "\<exists>c cs. int64tostr n = CHR ''-'' # c # cs \<and> is_digit c" if "n < 0"
    using first [of "nat (uint64 (int64 (- n)))"] that by (auto simp: int64tostr_eq)
qed

lemma scan_blank_stop: "\<not> scan_ws c \<Longrightarrow> scan_blank (c # t) = c # t"
  by (simp add: scan_blank_def)

lemma scan_blank_skip: "scan_ws c \<Longrightarrow> scan_blank (c # t) = scan_blank t"
  by (simp add: scan_blank_def)

lemma ws_chars [simp]: "scan_ws SPC" "scan_ws TAB" "scan_ws NL" "\<not> scan_ws (CHR ''-'')" "\<not> scan_ws (CHR ''.'')"
  by (simp_all add: scan_ws_def is_ws_def)

lemma digit_chars [simp]: "\<not> is_digit (CHR ''+'')" "\<not> is_digit (CHR ''.'')" "\<not> is_digit TAB" "\<not> is_digit NL"
  by (simp_all add: is_digit_def)

lemma scan_blank_idem [simp]: "scan_blank (scan_blank t) = scan_blank t"
  by (induction t) (auto simp: scan_blank_def)

lemma scan_number_blank [simp]: "scan_number (scan_blank t) = scan_number t"
  by (simp add: scan_number_def)

lemma scan_word_blank [simp]: "scan_word n (scan_blank t) = scan_word n t"
  by (simp add: scan_word_def)

lemma scan_number_text:
  assumes "in64 n" and "rest = [] \<or> \<not> is_digit (hd rest)"
  shows "scan_number (int64tostr n @ rest) = Some (n, rest)"
proof -
  have r: "strtoint64 (int64tostr n @ rest) = (n, rest)"
    using assms by (intro strtoint64_int64tostr) (simp_all add: in64_def)
  show ?thesis
  proof (cases "n < 0")
    case True
    then obtain c cs where c: "int64tostr n = CHR ''-'' # c # cs" "is_digit c" using int64tostr_first(2) by blast
    obtain v w where vw: "strtoint64_digits 0 (c # cs @ rest) = (v, w)" by fastforce
    with r c have "int64 (- v) = n" "w = rest" by (simp_all add: strtoint64_def)
    with vw c show ?thesis by (simp add: scan_number_def scan_blank_stop)
  next
    case False
    then obtain c cs where c: "int64tostr n = c # cs" "is_digit c" using int64tostr_first(1) [of n] by auto
    then have "c \<noteq> CHR ''-''" "c \<noteq> CHR ''+''" by auto
    with r c show ?thesis by (simp add: scan_number_def scan_blank_stop scan_ws_digit strtoint64_def)
  qed
qed

lemma scan_number_after: "scan_ws c \<Longrightarrow> scan_number (c # t) = scan_number t"
  using scan_number_blank [of "c # t"] scan_number_blank [of t] by (simp add: scan_blank_skip)

lemma scan_word_after: "scan_ws c \<Longrightarrow> scan_word n (c # t) = scan_word n t"
  by (simp add: scan_word_def scan_blank_skip)

lemma strtoint64_zeros: "strtoint64_digits 0 (replicate k (CHR ''0'') @ t) = strtoint64_digits 0 t"
proof (induction k)
  case (Suc k)
  have "is_digit (CHR ''0'')" "char_digit (CHR ''0'') = 0" "int64 0 = 0"
    by (simp_all add: is_digit_def char_digit_def cint_id)
  with Suc show ?case by simp
qed simp

lemma scan_msec:
  assumes "0 \<le> m" and "m < 1000" and "rest = [] \<or> \<not> is_digit (hd rest)"
  shows "scan_number (msec_text m @ rest) = Some (m, rest)"
proof -
  obtain c cs where c: "int64tostr m = c # cs" "is_digit c" using int64tostr_first(1) [OF assms(1)] by blast
  let ?k = "3 - length (int64tostr m)"
  have "strtoint64 (int64tostr m @ rest) = (m, rest)" using assms by (intro strtoint64_int64tostr) simp_all
  with c have "strtoint64_digits 0 (int64tostr m @ rest) = (m, rest)" by (auto simp: strtoint64_def split: if_splits)
  then have digits: "strtoint64_digits 0 (msec_text m @ rest) = (m, rest)"
    by (simp add: msec_text_def Let_def strtoint64_zeros)
  have zero: "is_digit (CHR ''0'')" by (simp add: is_digit_def)
  obtain d ds where d: "msec_text m @ rest = d # ds" "is_digit d"
    using c zero by (cases ?k) (auto simp: msec_text_def Let_def)
  then have "d \<noteq> CHR ''-''" "d \<noteq> CHR ''+''" by auto
  with d digits show ?thesis by (simp add: scan_number_def scan_blank_stop scan_ws_digit)
qed

lemma scan_word_text:
  assumes "w \<noteq> []" and "length w \<le> n" and "\<forall>c \<in> set w. \<not> scan_ws c" and "scan_ws b"
  shows "scan_word n (w @ b # rest) = Some (w, b # rest)"
proof -
  have "scan_blank (w @ b # rest) = w @ b # rest" using assms(1,3) by (cases w) (simp_all add: scan_blank_def)
  moreover have "takeWhile (\<lambda>c. \<not> scan_ws c) (w @ b # rest) = w" using assms by (intro takeWhile_append_stop) auto
  ultimately show ?thesis using assms by (cases n) (auto simp: scan_word_def)
qed

text \<open>What the arguments of \<open>stateSaveCmd\<close> are in the daemon: the message is one line of JSON.\<close>

definition json_line :: "string option \<Rightarrow> bool" where
  "json_line m \<longleftrightarrow> (case m of None \<Rightarrow> True
     | Some t \<Rightarrow> NL \<notin> set t \<and> NUL \<notin> set t \<and> t \<noteq> [] \<and> \<not> scan_ws (hd t))"

definition recordable :: "int \<Rightarrow> int \<Rightarrow> int \<Rightarrow> string \<Rightarrow> int \<Rightarrow> int \<Rightarrow> string option \<Rightarrow> bool" where
  "recordable sec msec uid command jobid revision m \<longleftrightarrow>
     0 \<le> sec \<and> in64 sec \<and> 0 \<le> msec \<and> msec < 1000 \<and> inu32 uid \<and> inu32 jobid \<and> in64 revision \<and>
     command \<noteq> [] \<and> length command \<le> 64 \<and> list_all (\<lambda>c. \<not> scan_ws c \<and> c \<noteq> NUL) command \<and> json_line m"

definition record_text :: "int \<Rightarrow> int \<Rightarrow> int \<Rightarrow> string \<Rightarrow> int \<Rightarrow> int \<Rightarrow> string option \<Rightarrow> string" where
  "record_text sec msec uid command jobid revision m =
     SPC # int64tostr sec @ CHR ''.'' # msec_text msec @ TAB # int64tostr (int32 uid) @ TAB # command @
     TAB # int64tostr (int32 jobid) @ TAB # int64tostr revision @ TAB # (case m of Some m \<Rightarrow> m | None \<Rightarrow> [])"

lemma journal_line_text: "journal_line sec msec uid command jobid revision m = record_text sec msec uid command jobid revision m @ [NL]"
  by (simp add: journal_line_def record_text_def)

lemma no_NUL_int64tostr: "NUL \<notin> set (int64tostr n)"
  using digits_rev_digits [of "nat n"] digits_rev_digits [of "nat (uint64 (int64 (- n)))"]
  by (auto simp: int64tostr_eq is_digit_def)

lemma record_text_clean:
  assumes "recordable sec msec uid command jobid revision m"
  shows "NL \<notin> set (record_text sec msec uid command jobid revision m)"
    and "NUL \<notin> set (record_text sec msec uid command jobid revision m)"
proof -
  have "\<forall>c \<in> set command. \<not> scan_ws c \<and> c \<noteq> NUL" using assms by (simp add: recordable_def list_all_iff)
  then have "NL \<notin> set command" "NUL \<notin> set command" using ws_chars(3) by blast+
  moreover have "NL \<notin> set (msec_text msec)" "NUL \<notin> set (msec_text msec)"
    by (simp_all add: msec_text_def Let_def no_BSL_int64tostr no_NUL_int64tostr)
  ultimately show "NL \<notin> set (record_text sec msec uid command jobid revision m)"
    "NUL \<notin> set (record_text sec msec uid command jobid revision m)"
    using assms unfolding record_text_def recordable_def json_line_def
    by (cases m; simp add: no_BSL_int64tostr no_NUL_int64tostr)+
qed

lemma scan_record_text:
  assumes "recordable sec msec uid command jobid revision m"
  shows "scan_entry (record_text sec msec uid command jobid revision m) =
    Some \<lparr>en_time = sec, en_uid = uid, en_command = command, en_jobid = nat jobid, en_revision = revision,
          en_json = (case m of Some m \<Rightarrow> m | None \<Rightarrow> [])\<rparr>"
proof -
  let ?json = "case m of Some m \<Rightarrow> m | None \<Rightarrow> []"
  have ok: "0 \<le> sec" "in64 sec" "0 \<le> msec" "msec < 1000" "inu32 uid" "inu32 jobid" "in64 revision"
    "command \<noteq> []" "length command \<le> 64" "\<forall>c \<in> set command. \<not> scan_ws c" and m: "json_line m"
    using assms by (auto simp: recordable_def list_all_iff)
  have narrow: "in64 (int32 n)" for n using in32_int32 [of n] by (simp add: in32_def in64_def)
  have json: "scan_blank ?json = ?json"
    using m by (cases "?json") (auto simp: json_line_def scan_blank_def split: option.splits)
  show ?thesis
    unfolding record_text_def scan_entry_def bindO_def
    by (simp add: scan_number_after scan_number_text ok narrow scan_msec scan_char_def scan_word_after scan_word_text scan_blank_skip json
        uint32_int32)
qed

subsection \<open>A record is appended\<close>

text \<open>
  The invariant of an open journal: the records end where the file position is, the reserved
  space behind them is zero, and the file is as long as the daemon thinks it is.
\<close>

definition journal_body :: "journal \<Rightarrow> string" where
  "journal_body j = take (jn_len j) (jn_text j)"

definition journal_ok :: "journal \<Rightarrow> bool" where
  "journal_ok j \<longleftrightarrow>
     jn_pos j = jn_len j \<and> jn_len j \<le> jn_size j \<and> jn_size j = length (jn_text j) \<and> jn_limit j \<le> int (jn_size j) \<and>
     jn_text j = journal_body j @ replicate (jn_size j - jn_len j) NUL \<and>
     NUL \<notin> set (journal_body j) \<and> (journal_body j = [] \<or> last (journal_body j) = NL)"

lemma journal_ok_text:
  assumes "journal_ok j"
  obtains body k where "jn_text j = body @ replicate k NUL" "journal_body j = body" "jn_len j = length body"
    "jn_pos j = length body" "jn_size j = length body + k" "NUL \<notin> set body" "body = [] \<or> last body = NL"
    "jn_limit j \<le> int (length body + k)"
proof -
  have le: "jn_len j \<le> jn_size j" "jn_size j = length (jn_text j)" and rest: "jn_pos j = jn_len j"
      "jn_limit j \<le> int (jn_size j)" "NUL \<notin> set (journal_body j)" "journal_body j = [] \<or> last (journal_body j) = NL"
    and whole: "jn_text j = journal_body j @ replicate (jn_size j - jn_len j) NUL"
    using assms unfolding journal_ok_def by blast+
  have "jn_len j = length (journal_body j)" using le by (simp add: journal_body_def)
  with le(1) rest show ?thesis by (intro that [OF whole refl]) simp_all
qed

lemma pwrite_end: "pwrite (length f) bytes f = f @ bytes"
  by (simp add: pwrite_def)

lemma pwrite_pad:
  "length l \<le> k \<Longrightarrow> pwrite (length body) l (body @ replicate k NUL) = (body @ l) @ replicate (k - length l) NUL"
  by (simp add: pwrite_def)

lemma fill_ok: "fill_loop [] n n off f = Inr (True, if n = 0 then f else pwrite off (replicate n NUL) f)"
  by (subst fill_loop.simps) simp

lemma extend_size:
  assumes "0 < jn_extend_block_size j"
  obtains j' s' n where "extendJournal [] (j, s) = Inr (0, j', s')" "jn_extend_block_size j \<le> n"
    "jn_limit j \<noteq> 0 \<longrightarrow> n = jn_extend_block_size j"
    "jn_text j' = pwrite (jn_size j) (replicate n NUL) (jn_text j)" "jn_size j' = jn_size j + n"
    "jn_limit j' = int (jn_size j + n) - int (jn_extend_block_size j)"
    "jn_pos j' = jn_pos j" "jn_len j' = jn_len j" "jn_extend_block_size j' = jn_extend_block_size j"
    "jn_next_rollover j' = jn_next_rollover j"
proof -
  define n where "n = (if jn_limit j = 0 then jn_extend_block_size j + jn_extend_block_size j else jn_extend_block_size j)"
  have n: "jn_extend_block_size j \<le> n" "0 < n" using assms by (auto simp: n_def)
  have "(if jn_limit j = 0 then jn_size j + jn_extend_block_size j + jn_extend_block_size j
      else jn_size j + jn_extend_block_size j) = jn_size j + n"
    by (simp add: n_def)
  then have "extendJournal [] (j, s) = Inr (0, j\<lparr>jn_text := pwrite (jn_size j) (replicate n NUL) (jn_text j),
      jn_size := jn_size j + n, jn_limit := int (jn_size j + n) - int (jn_extend_block_size j)\<rparr>,
      if readonly s = READONLY_ENOSPACE then s\<lparr>readonly := 0\<rparr> else s)"
    unfolding extendJournal_def Let_def prod.case using n(2) by (simp add: fill_ok)
  then show ?thesis by (rule that [where n = n]) (use n in \<open>simp_all add: n_def\<close>)
qed

text \<open>Reserving space in a consistent journal.\<close>

lemma extend_consistent:
  assumes "jn_text j = body @ replicate k NUL" and "jn_size j = length body + k" and "0 < jn_extend_block_size j"
  obtains j' s' k' where "extendJournal [] (j, s) = Inr (0, j', s')" "jn_text j' = body @ replicate k' NUL"
    "jn_size j' = length body + k'" "k + jn_extend_block_size j \<le> k'" "jn_limit j' \<le> int (jn_size j')"
    "jn_pos j' = jn_pos j" "jn_len j' = jn_len j" "jn_extend_block_size j' = jn_extend_block_size j"
proof -
  obtain j' s' n where j': "extendJournal [] (j, s) = Inr (0, j', s')" "jn_extend_block_size j \<le> n"
    "jn_text j' = pwrite (jn_size j) (replicate n NUL) (jn_text j)" "jn_size j' = jn_size j + n"
    "jn_limit j' = int (jn_size j + n) - int (jn_extend_block_size j)"
    "jn_pos j' = jn_pos j" "jn_len j' = jn_len j" "jn_extend_block_size j' = jn_extend_block_size j"
    using extend_size [OF assms(3)] by metis
  have "jn_size j = length (jn_text j)" using assms by simp
  then have "jn_text j' = body @ replicate (k + n) NUL"
    unfolding j'(3) by (simp only: pwrite_end) (simp add: assms(1) replicate_add)
  then show ?thesis using j'(2-) assms(2) by (intro that [OF j'(1), where k' = "k + n"]) simp_all
qed

lemma stateSaveCmd_appends:
  assumes ok: "journal_ok j" and env: "je_sec e < jn_next_rollover j" "je_extended e = []" "je_written e = Some n" "length l \<le> n"
    and l: "l = journal_line (je_sec e) (je_msec e) uid command jobid revision m"
    and clean: "recordable (je_sec e) (je_msec e) uid command jobid revision m"
    and block: "length l \<le> jn_extend_block_size j"
  obtains j' s' k' where "stateSaveCmd e uid command m jobid revision (j, s) = Inr (0, j', s')" "journal_ok j'"
    "jn_text j' = (journal_body j @ l) @ replicate k' NUL" "journal_body j' = journal_body j @ l"
    "jn_last_commit j' = jn_len j"
proof -
  obtain body k where b: "jn_text j = body @ replicate k NUL" "journal_body j = body" "jn_len j = length body"
    "jn_pos j = length body" "jn_size j = length body + k" "NUL \<notin> set body" "body = [] \<or> last body = NL"
    "jn_limit j \<le> int (length body + k)"
    using journal_ok_text [OF ok] by blast
  have nl: "last l = NL" "NUL \<notin> set l" "l \<noteq> []"
    unfolding l journal_line_text using record_text_clean(2) [OF clean] by auto
  then have pos: "0 < jn_extend_block_size j" using block by (cases l) auto
  let ?more = "int (jn_len j + length l) \<ge> jn_limit j"
  obtain j1 s1 k1 where j1: "(if ?more then extendJournal (je_extended e) (j, s) else Inr (0, j, s)) = Inr (0, j1, s1)"
    "jn_text j1 = body @ replicate k1 NUL" "jn_size j1 = length body + k1" "length l \<le> k1" "jn_limit j1 \<le> int (jn_size j1)"
    "jn_pos j1 = length body" "jn_len j1 = length body"
  proof (cases ?more)
    case True
    then show ?thesis using extend_consistent [OF b(1,5) pos, of s thesis] block b(3,4) env(2) that by fastforce
  next
    case False
    then have "length l \<le> k" using b(3,8) by linarith
    with False show ?thesis using b by (intro that [of j s k]) auto
  qed
  let ?j = "j1\<lparr>jn_text := (body @ l) @ replicate (k1 - length l) NUL, jn_pos := length body + length l,
    jn_len := length body + length l, jn_record := jn_record j1 + 1,
    flush_dirty := if flush_defer j1 then flush_dirty j1 + 1 else flush_dirty j1, jn_last_commit := length body\<rparr>"
  have "write_record e l j1 = (0, ?j)"
    using env(3,4) j1 by (simp add: write_record_def Let_def min_absorb2 pwrite_pad)
  then have "stateSaveCmd e uid command m jobid revision (j, s) = Inr (0, ?j, s1)"
    using env(1) j1(1) by (simp add: stateSaveCmd_def roll_journal_def flip: l)
  moreover have "journal_body ?j = body @ l" by (simp add: journal_body_def)
  moreover have "journal_ok ?j" using calculation(2) j1 nl b(6) by (auto simp: journal_ok_def)
  ultimately show ?thesis using b by (intro that [of ?j s1 "k1 - length l"]) simp_all
qed

subsection \<open>What was journalled is replayed\<close>

lemma file_lines_append:
  "t = [] \<or> last t = NL \<Longrightarrow> file_lines (t @ u) = file_lines t @ file_lines u"
proof (induction t rule: file_lines.induct)
  case (1 t)
  show ?case
  proof (cases "t = []")
    case True
    then show ?thesis by (simp add: file_lines.simps [of "[]"])
  next
    case False
    have ne: "getline (t @ u) = (fst (getline t), snd (getline t) @ u)"
      using "1.prems" False by (induction t) (auto simp: Let_def split_def split: if_splits)
    have "snd (getline t) = [] \<or> last (snd (getline t)) = NL"
      using "1.prems" False by (metis getline_append last_appendR)
    with "1.IH" [OF False] ne False show ?thesis
      by (subst file_lines.simps, subst file_lines.simps [of t]) simp
  qed
qed

lemma file_lines_one: "NL \<notin> set l \<Longrightarrow> file_lines (l @ [NL]) = [l @ [NL]]"
  by (subst file_lines.simps) (simp add: getline_line, simp add: file_lines.simps)

lemma file_lines_zeros: "file_lines (replicate k NUL) = (if k = 0 then [] else [replicate k NUL])"
proof -
  have "getline (replicate k NUL) = (replicate k NUL, [])" by (induction k) auto
  then show ?thesis by (subst file_lines.simps) (simp add: file_lines.simps [of "[]"])
qed

lemma replay_zeros: "replay_lines e (file_lines (replicate k NUL)) d = Inr d"
  unfolding file_lines_zeros by (cases k) (simp_all add: replayTransaction_def c_str_def)

lemma not_starred_zeros: "\<not> list_ex starred (file_lines (replicate k NUL))"
  unfolding file_lines_zeros by (cases k) (simp_all add: starred_def)

text \<open>Appending whole lines to the newest journal.\<close>

lemma replay_appended:
  assumes "body = [] \<or> last body = NL" and "NL \<notin> set l"
  shows "replay_from_commit e (fs @ [(body @ l @ [NL]) @ replicate k NUL]) d =
    (if starred (l @ [NL]) then Inr d
     else bindR (replay_from_commit e (fs @ [body @ replicate k' NUL]) d) (replayTransaction e (l @ [NL])))"
proof -
  let ?old = "concat (map file_lines fs) @ file_lines body"
  have whole: "replay_from_commit e (fs @ [t @ replicate n NUL]) d =
      replay_lines e (after_commit (concat (map file_lines fs) @ file_lines t)) d"
    if "t = [] \<or> last t = NL" for t n
  proof -
    have "replay_lines e (ls @ file_lines (replicate n NUL)) d = replay_lines e ls d" for ls
      by (simp add: replay_lines_append replay_zeros bindR_def split: sum.split)
    moreover have "after_commit (ls @ file_lines (replicate n NUL)) = after_commit ls @ file_lines (replicate n NUL)" for ls
      by (simp add: after_commit_append not_starred_zeros)
    ultimately show ?thesis
      using file_lines_append [OF that] by (simp add: replay_from_commit_eq flip: append_assoc)
  qed
  have "file_lines (body @ l @ [NL]) = file_lines body @ [l @ [NL]]"
    using file_lines_append [OF assms(1)] file_lines_one [OF assms(2)] by simp
  moreover have "after_commit (?old @ [l @ [NL]]) = (if starred (l @ [NL]) then [] else after_commit ?old @ [l @ [NL]])"
    by (rule after_commit_snoc)
  ultimately show ?thesis
    using whole [of "body @ l @ [NL]" k] whole [OF assms(1), of k']
    by (simp add: replay_lines_append replay_lines_one del: replay_lines.simps)
qed

text \<open>The marker the saving process writes over the first byte of the last record.\<close>

definition mark_commit :: "journal \<Rightarrow> journal" where
  "mark_commit j = j\<lparr>jn_text := pwrite (jn_last_commit j) [STAR] (jn_text j)\<rparr>"

definition with_entry :: "int \<Rightarrow> int \<Rightarrow> nat \<Rightarrow> int \<Rightarrow> server \<Rightarrow> server" where
  "with_entry time uid jobid revision s =
     s\<lparr>recovery := (recovery s)\<lparr>rec_time := time, rec_uid := uid, rec_jobid := jobid, rec_revision := revision\<rparr>\<rparr>"

lemma replay_record:
  assumes "recordable sec msec uid command jobid revision (Some t)" and "load_message (e_fresh e) (e_fields e) t = Loaded m"
  shows "replayTransaction e (journal_line sec msec uid command jobid revision (Some t)) d =
    replayCommand (e_world e) (e_auth e) m (on_server (with_entry sec uid (nat jobid) revision) d)"
proof -
  let ?r = "record_text sec msec uid command jobid revision (Some t)"
  have "c_str (?r @ [NL]) = ?r @ [NL]"
    using record_text_clean(2) [OF assms(1)] by (intro c_str_id) auto
  moreover have "takeWhile (\<lambda>c. c \<noteq> NL) (?r @ [NL]) = ?r"
    using record_text_clean(1) [OF assms(1)] by (rule split_at_char)
  moreover have "?r \<noteq> []" "hd ?r \<noteq> DOLLAR" by (simp_all add: record_text_def)
  moreover have "t \<noteq> []" using assms(1) by (simp add: recordable_def json_line_def)
  ultimately show ?thesis
    using scan_record_text [OF assms(1)] assms(2)
    by (simp add: replayTransaction_def convertJournalEntry_def journal_line_text on_server_def with_entry_def)
qed

text \<open>C27. A command that was journalled survives a crash: after \<open>stateSaveCmd\<close> has written its
  record, recovery does what it did before and then runs the command once more, with the time,
  user, jobid and revision of the record; after the saving process has marked the record,
  recovery replays nothing. The record has to fit into one block of the reserved space.\<close>

theorem journalled_is_replayed:
  assumes "journal_ok j" and "je_sec je < jn_next_rollover j" and "je_extended je = []"
    and "recordable (je_sec je) (je_msec je) uid command jobid revision (Some t)"
    and "length (journal_line (je_sec je) (je_msec je) uid command jobid revision (Some t)) \<le> jn_extend_block_size j"
    and "je_written je = Some n" and "jn_extend_block_size j \<le> n"
    and "load_message (e_fresh e) (e_fields e) t = Loaded m"
    and "stateSaveCmd je uid command (Some t) jobid revision (j, s) = Inr (rc, j', s')"
  shows "rc = 0 \<and> journal_ok j' \<and>
    replay_from_commit e (fs @ [jn_text j']) d =
      bindR (replay_from_commit e (fs @ [jn_text j]) d) (\<lambda>d.
        replayCommand (e_world e) (e_auth e) m (on_server (with_entry (je_sec je) uid (nat jobid) revision) d)) \<and>
    replay_from_commit e (fs @ [jn_text (mark_commit j')]) d = Inr d"
proof -
  let ?r = "record_text (je_sec je) (je_msec je) uid command jobid revision (Some t)"
  let ?l = "journal_line (je_sec je) (je_msec je) uid command jobid revision (Some t)"
  have l: "?l = ?r @ [NL]" by (rule journal_line_text)
  obtain k' where j': "rc = 0" "journal_ok j'" "jn_text j' = (journal_body j @ ?l) @ replicate k' NUL"
    "jn_last_commit j' = jn_len j"
    using stateSaveCmd_appends [OF assms(1-3,6) _ refl assms(4,5), of s] assms(5,7,9) by fastforce
  obtain body k where b: "jn_text j = body @ replicate k NUL" "journal_body j = body" "jn_len j = length body"
    "body = [] \<or> last body = NL"
    using journal_ok_text [OF assms(1)] by blast
  have clean: "NL \<notin> set ?r" using record_text_clean(1) [OF assms(4)] .
  have "\<not> starred (?r @ [NL])" by (simp add: starred_def record_text_def)
  then have "replay_from_commit e (fs @ [jn_text j']) d =
      bindR (replay_from_commit e (fs @ [jn_text j]) d) (replayTransaction e ?l)"
    using replay_appended [OF b(4) clean, of e fs k' d k] b(1,2) j'(3) l by simp
  moreover have "replayTransaction e ?l = (\<lambda>d. replayCommand (e_world e) (e_auth e) m
      (on_server (with_entry (je_sec je) uid (nat jobid) revision) d))"
    using replay_record [OF assms(4,8)] by (intro ext)
  moreover have "jn_text (mark_commit j') = (body @ (STAR # tl ?r) @ [NL]) @ replicate k' NUL"
    using b j' l by (simp add: mark_commit_def pwrite_def) (simp add: record_text_def)
  moreover have "NL \<notin> set (STAR # tl ?r)" using clean by (cases ?r) auto
  moreover have "starred ((STAR # tl ?r) @ [NL])" by (simp add: starred_def)
  ultimately show ?thesis
    using replay_appended [OF b(4), of "STAR # tl ?r" e fs k' d k] j'(1,2) by simp
qed

definition demo_journal :: "nat \<Rightarrow> journal" where
  "demo_journal n = \<lparr>jn_open = True, jn_datetime = ''20200101'', jn_text = [], jn_pos = 0, jn_len = 0, jn_limit = 0,
     jn_size = 0, jn_extend_block_size = n, jn_last_commit = 0, jn_record = 0, jn_next_rollover = 100, jn_files = [],
     flush_defer = False, flush_dirty = 0\<rparr>"

definition demo_journal_env :: "nat \<Rightarrow> journal_env" where
  "demo_journal_env n = \<lparr>je_sec = 5, je_msec = 42, je_rollover = (\<lambda>t. t + 100), je_date = (\<lambda>_. ''20200101''), je_junk = [],
     je_opened = [], je_extended = [], je_written = Some n\<rparr>"

lemma demo_journal_ok: "journal_ok (demo_journal n)"
  by (simp add: journal_ok_def journal_body_def demo_journal_def)

lemma demo_recordable: "recordable 5 42 100 ''STATS'' 0 0 (Some (bare_request ''STATS''))"
  by (simp add: recordable_def in64_def inu32_def json_line_def bare_request_def quoted_name_def scan_ws_def is_ws_def)

theorem journalled_is_replayed_witness:
  "\<exists>n j' s'. stateSaveCmd (demo_journal_env n) 100 ''STATS'' (Some (bare_request ''STATS'')) 0 0 (demo_journal n, demo_server) =
       Inr (0, j', s') \<and>
     replay_from_commit demo_env [jn_text j'] \<lparr>d_server = demo_server, d_clients = []\<rparr> =
       bindR (replay_from_commit demo_env [jn_text (demo_journal n)] \<lparr>d_server = demo_server, d_clients = []\<rparr>) (\<lambda>d.
         replayCommand demo_world demo_auth (msg_zero\<lparr>m_command := Some ''STATS''\<rparr>) (on_server (with_entry 5 100 0 0) d)) \<and>
     replay_from_commit demo_env [jn_text (mark_commit j')] \<lparr>d_server = demo_server, d_clients = []\<rparr> =
       Inr \<lparr>d_server = demo_server, d_clients = []\<rparr>"
proof -
  let ?t = "bare_request ''STATS''"
  let ?n = "length (journal_line 5 42 100 ''STATS'' 0 0 (Some ?t))"
  let ?d = "\<lparr>d_server = demo_server, d_clients = []\<rparr>"
  have env: "je_sec (demo_journal_env ?n) = 5" "je_msec (demo_journal_env ?n) = 42" "je_extended (demo_journal_env ?n) = []"
    "je_written (demo_journal_env ?n) = Some ?n" "jn_extend_block_size (demo_journal ?n) = ?n"
    "jn_next_rollover (demo_journal ?n) = 100" "e_fresh demo_env = []" "e_fields demo_env = None"
    "e_world demo_env = demo_world" "e_auth demo_env = demo_auth"
    by (simp_all add: demo_journal_env_def demo_journal_def demo_env_def)
  have load: "load_message (e_fresh demo_env) (e_fields demo_env) ?t = Loaded (msg_zero\<lparr>m_command := Some ''STATS''\<rparr>)"
    unfolding env by (rule load_bare_request) (simp_all add: plain_name_def uppercasestring_def toupper_c_def)
  note rule_env = demo_journal_ok [of ?n] _ env(3) _ _ env(4)
  have rec: "recordable (je_sec (demo_journal_env ?n)) (je_msec (demo_journal_env ?n)) 100 ''STATS'' 0 0 (Some ?t)"
    unfolding env by (rule demo_recordable)
  obtain j' s' where save: "stateSaveCmd (demo_journal_env ?n) 100 ''STATS'' (Some ?t) 0 0 (demo_journal ?n, demo_server) = Inr (0, j', s')"
    by (rule stateSaveCmd_appends [OF demo_journal_ok [of ?n] _ env(3,4) _ refl rec, where s = demo_server]) (simp_all add: env)
  have "0 = (0 :: int) \<and> journal_ok j' \<and>
      replay_from_commit demo_env ([] @ [jn_text j']) ?d =
        bindR (replay_from_commit demo_env ([] @ [jn_text (demo_journal ?n)]) ?d) (\<lambda>d.
          replayCommand (e_world demo_env) (e_auth demo_env) (msg_zero\<lparr>m_command := Some ''STATS''\<rparr>)
            (on_server (with_entry (je_sec (demo_journal_env ?n)) 100 (nat 0) 0) d)) \<and>
      replay_from_commit demo_env ([] @ [jn_text (mark_commit j')]) ?d = Inr ?d"
    by (rule journalled_is_replayed [OF demo_journal_ok [of ?n] _ env(3) rec _ env(4) _ load save]) (simp_all add: env)
  then have "replay_from_commit demo_env [jn_text j'] ?d =
        bindR (replay_from_commit demo_env [jn_text (demo_journal ?n)] ?d) (\<lambda>d.
          replayCommand demo_world demo_auth (msg_zero\<lparr>m_command := Some ''STATS''\<rparr>) (on_server (with_entry 5 100 0 0) d))"
    "replay_from_commit demo_env [jn_text (mark_commit j')] ?d = Inr ?d"
    unfolding env by simp_all
  with save show ?thesis by blast
qed

subsection \<open>A record that does not fit\<close>

lemma nth_pwrite: "i < length f \<Longrightarrow> off \<le> length f \<Longrightarrow>
   pwrite off bytes f ! i = (if off \<le> i \<and> i < off + length bytes then bytes ! (i - off) else f ! i)"
  by (auto simp: pwrite_def nth_append)

text \<open>One record written without a change of file, into a journal that is extended for it.\<close>

lemma save_extended:
  assumes "je_sec e < jn_next_rollover j" and "je_extended e = []" and "je_written e = Some n"
    and l: "l = journal_line (je_sec e) (je_msec e) uid command jobid revision m" and "length l \<le> n"
    and "jn_limit j \<le> int (jn_len j + length l)" and "0 < jn_extend_block_size j"
    and "stateSaveCmd e uid command m jobid revision (j, s) = Inr (rc, j', s')"
  obtains k where "rc = 0" "jn_extend_block_size j \<le> k" "jn_limit j \<noteq> 0 \<longrightarrow> k = jn_extend_block_size j"
    "jn_text j' = pwrite (jn_pos j) l (pwrite (jn_size j) (replicate k NUL) (jn_text j))" "jn_size j' = jn_size j + k"
    "jn_limit j' = int (jn_size j + k) - int (jn_extend_block_size j)" "jn_pos j' = jn_pos j + length l"
    "jn_len j' = jn_len j + length l" "jn_extend_block_size j' = jn_extend_block_size j"
    "jn_next_rollover j' = jn_next_rollover j"
proof -
  obtain j1 s1 k where j1: "extendJournal [] (j, s) = Inr (0, j1, s1)" "jn_extend_block_size j \<le> k"
    "jn_limit j \<noteq> 0 \<longrightarrow> k = jn_extend_block_size j"
    "jn_text j1 = pwrite (jn_size j) (replicate k NUL) (jn_text j)" "jn_size j1 = jn_size j + k"
    "jn_limit j1 = int (jn_size j + k) - int (jn_extend_block_size j)"
    "jn_pos j1 = jn_pos j" "jn_len j1 = jn_len j" "jn_extend_block_size j1 = jn_extend_block_size j"
    "jn_next_rollover j1 = jn_next_rollover j"
    using extend_size [OF assms(7)] by metis
  have "write_record e l j1 = (0, j1\<lparr>jn_text := pwrite (jn_pos j1) l (jn_text j1), jn_pos := jn_pos j1 + length l,
      jn_len := jn_len j1 + length l, jn_record := jn_record j1 + 1,
      flush_dirty := if flush_defer j1 then flush_dirty j1 + 1 else flush_dirty j1, jn_last_commit := jn_pos j1\<rparr>)"
    using assms(3,5) by (simp add: write_record_def Let_def min_absorb2)
  then have "rc = 0" "j' = j1\<lparr>jn_text := pwrite (jn_pos j1) l (jn_text j1), jn_pos := jn_pos j1 + length l,
      jn_len := jn_len j1 + length l, jn_record := jn_record j1 + 1,
      flush_dirty := if flush_defer j1 then flush_dirty j1 + 1 else flush_dirty j1, jn_last_commit := jn_pos j1\<rparr>"
    using assms(1,2,6,8) j1(1) by (simp_all add: stateSaveCmd_def roll_journal_def flip: l)
  then show ?thesis using j1 by (intro that [of k]) simp_all
qed

text \<open>A record that is longer than the space the journal is extended by is destroyed by the
  next one: only one block is added, the record runs past the size the daemon believes the file
  has, and extending the journal for the next record writes zeros from there on, into the record.\<close>

theorem long_record_destroyed:
  assumes ok: "journal_ok j" "jn_limit j \<noteq> 0" "0 < jn_extend_block_size j"
    and e1: "je_sec e1 < jn_next_rollover j" "je_extended e1 = []" "je_written e1 = Some n1"
    and l1: "l1 = journal_line (je_sec e1) (je_msec e1) uid1 cmd1 jobid1 rv1 m1" "length l1 \<le> n1"
      "recordable (je_sec e1) (je_msec e1) uid1 cmd1 jobid1 rv1 m1"
    and long: "jn_size j + jn_extend_block_size j < jn_len j + length l1"
    and s1: "stateSaveCmd e1 uid1 cmd1 m1 jobid1 rv1 (j, s) = Inr (rc1, j1, s1)"
    and e2: "je_sec e2 < jn_next_rollover j" "je_extended e2 = []" "je_written e2 = Some n2"
    and l2: "length (journal_line (je_sec e2) (je_msec e2) uid2 cmd2 jobid2 rv2 m2) \<le> n2"
    and s2: "stateSaveCmd e2 uid2 cmd2 m2 jobid2 rv2 (j1, s1) = Inr (rc2, j2, s2)"
  shows "rc1 = 0 \<and> rc2 = 0 \<and> jn_text j1 = journal_body j @ l1 \<and>
    (\<exists>i. jn_len j \<le> i \<and> i < jn_len j + length l1 \<and> jn_text j2 ! i = NUL \<and> jn_text j1 ! i \<noteq> NUL)"
proof -
  obtain body k where b: "jn_text j = body @ replicate k NUL" "journal_body j = body" "jn_len j = length body"
    "jn_pos j = length body" "jn_size j = length body + k" "NUL \<notin> set body" "jn_limit j \<le> int (length body + k)"
    using journal_ok_text [OF ok(1)] by metis
  let ?b = "jn_extend_block_size j" and ?l2 = "journal_line (je_sec e2) (je_msec e2) uid2 cmd2 jobid2 rv2 m2"
  have more: "jn_limit j \<le> int (jn_len j + length l1)" using b(3,7) long b(5) by linarith
  obtain j1eq: "rc1 = 0" "jn_text j1 = pwrite (jn_pos j) l1 (pwrite (jn_size j) (replicate ?b NUL) (jn_text j))"
    "jn_size j1 = jn_size j + ?b" "jn_limit j1 = int (jn_size j)" "jn_pos j1 = jn_pos j + length l1"
    "jn_len j1 = jn_len j + length l1" "jn_extend_block_size j1 = ?b" "jn_next_rollover j1 = jn_next_rollover j"
    using save_extended [OF e1 l1(1,2) more ok(3) s1] ok(2) by auto
  have txt1: "jn_text j1 = body @ l1"
    unfolding j1eq(2) using b long pwrite_end [of "jn_text j" "replicate ?b NUL"] by (simp add: pwrite_def)
  have more2: "jn_limit j1 \<le> int (jn_len j1 + length ?l2)" using j1eq long by simp
  obtain k2 where j2: "rc2 = 0" "?b \<le> k2"
    "jn_text j2 = pwrite (jn_pos j1) ?l2 (pwrite (jn_size j1) (replicate k2 NUL) (jn_text j1))"
    using save_extended [OF _ e2(2,3) refl l2 more2 _ s2] e2(1) ok(3) j1eq(7,8) by metis
  let ?i = "jn_size j1"
  have i: "?i < length (jn_text j1)" "jn_len j \<le> ?i" "?i < jn_len j + length l1" "?i < jn_pos j1"
    using txt1 b long j1eq by simp_all
  let ?t = "pwrite (jn_size j1) (replicate k2 NUL) (jn_text j1)"
  have "length (jn_text j1) \<le> length ?t" using i by (simp add: pwrite_def)
  then have "jn_text j2 ! ?i = ?t ! ?i"
    unfolding j2(3) using i j1eq(5) b txt1 by (subst nth_pwrite) simp_all
  also have "?t ! ?i = NUL" using i j2(2) ok(3) by (subst nth_pwrite) simp_all
  finally have "jn_text j2 ! ?i = NUL" .
  moreover have "jn_text j1 ! ?i \<noteq> NUL"
  proof -
    have "NUL \<notin> set (jn_text j1)"
      unfolding txt1 l1(1) journal_line_text using b(6) record_text_clean(2) [OF l1(3)] by simp
    then show ?thesis using i(1) by (metis nth_mem)
  qed
  ultimately show ?thesis using i j1eq(1) j2(1) txt1 b(2) by blast
qed

lemma save_returns:
  assumes "je_sec e < jn_next_rollover j" and "je_extended e = []" and "0 < jn_extend_block_size j"
  obtains rc j' s' where "stateSaveCmd e uid command m jobid revision (j, s) = Inr (rc, j', s')"
proof -
  let ?l = "journal_line (je_sec e) (je_msec e) uid command jobid revision m"
  have "\<exists>rc j1 s1. (if int (jn_len j + length ?l) \<ge> jn_limit j then extendJournal (je_extended e) (j, s) else Inr (0, j, s)) =
      Inr (rc, j1, s1)"
    using extend_size [OF assms(3), of s] assms(2) by (metis (full_types))
  then obtain rc j1 s1 where "(if int (jn_len j + length ?l) \<ge> jn_limit j then extendJournal (je_extended e) (j, s)
      else Inr (0, j, s)) = Inr (rc, j1, s1)" by blast
  then show ?thesis
    using assms(1) that by (cases "write_record e ?l j1") (simp add: stateSaveCmd_def roll_journal_def)
qed

theorem long_record_destroyed_witness:
  "\<exists>n j1 s1 j2 s2 i. let j = (demo_journal 1)\<lparr>jn_text := [NUL, NUL], jn_size := 2, jn_limit := 1\<rparr> in
     stateSaveCmd (demo_journal_env n) 100 ''STATS'' (Some (bare_request ''STATS'')) 0 0 (j, demo_server) = Inr (0, j1, s1) \<and>
     stateSaveCmd (demo_journal_env n) 100 ''STATS'' (Some (bare_request ''STATS'')) 0 0 (j1, s1) = Inr (0, j2, s2) \<and>
     jn_text j1 ! i \<noteq> NUL \<and> jn_text j2 ! i = NUL"
proof -
  let ?t = "bare_request ''STATS''"
  define l where "l = journal_line 5 42 100 ''STATS'' 0 0 (Some ?t)"
  define j where "j = (demo_journal 1)\<lparr>jn_text := [NUL, NUL], jn_size := 2, jn_limit := 1\<rparr>"
  define e where "e = demo_journal_env (length l)"
  have env: "je_sec e < jn_next_rollover j" "je_extended e = []" "je_written e = Some (length l)"
    "0 < jn_extend_block_size j" "jn_limit j \<noteq> 0"
    by (simp_all add: e_def j_def demo_journal_env_def demo_journal_def)
  have l: "l = journal_line (je_sec e) (je_msec e) 100 ''STATS'' 0 0 (Some ?t)"
    "recordable (je_sec e) (je_msec e) 100 ''STATS'' 0 0 (Some ?t)"
    using demo_recordable by (simp_all add: l_def e_def demo_journal_env_def)
  have ok: "journal_ok j" by (simp add: j_def journal_ok_def journal_body_def demo_journal_def numeral_2_eq_2)
  have long: "jn_size j + jn_extend_block_size j < jn_len j + length l"
    by (simp add: j_def l_def demo_journal_def journal_line_def)
  obtain rc1 j1 s1 where s1: "stateSaveCmd e 100 ''STATS'' (Some ?t) 0 0 (j, demo_server) = Inr (rc1, j1, s1)"
    by (rule save_returns [OF env(1,2,4)])
  have more: "jn_limit j \<le> int (jn_len j + length l)" by (simp add: j_def l_def demo_journal_def journal_line_def)
  have roll: "jn_extend_block_size j1 = jn_extend_block_size j" "jn_next_rollover j1 = jn_next_rollover j"
    by (rule save_extended [OF env(1-3) l(1) order.refl more env(4) s1], simp)+
  obtain rc2 j2 s2 where s2: "stateSaveCmd e 100 ''STATS'' (Some ?t) 0 0 (j1, s1) = Inr (rc2, j2, s2)"
    by (rule save_returns [of e j1]) (use roll env in simp_all)
  have "rc1 = 0 \<and> rc2 = 0 \<and> jn_text j1 = journal_body j @ l \<and>
      (\<exists>i. jn_len j \<le> i \<and> i < jn_len j + length l \<and> jn_text j2 ! i = NUL \<and> jn_text j1 ! i \<noteq> NUL)"
    by (rule long_record_destroyed [OF ok env(5,4,1-3) l(1) order.refl l(2) long s1 env(1-3) _ s2]) (simp flip: l(1))
  with s1 s2 show ?thesis unfolding e_def j_def Let_def by blast
qed

subsection \<open>A journal is opened again\<close>

text \<open>A daemon that opens the journal of the day again goes on behind the last record: it finds
  the records that were written, their number, and a consistent journal, whatever the size of
  the file.\<close>

theorem reopened_journal:
  assumes "journal_ok j" and "jn_len j < jn_size j"
    and "tfind fst (je_date e (je_sec e)) (jn_files j0) = Some (name, jn_text j)"
  shows "let j' = openStateFile e j0 in journal_ok j' \<and> journal_body j' = journal_body j \<and>
    jn_size j' = jn_size j \<and> jn_record j' = int (newlines (journal_body j))"
proof -
  obtain body k where b: "jn_text j = body @ replicate k NUL" "journal_body j = body" "jn_len j = length body"
    "jn_size j = length body + k" "NUL \<notin> set body" "body = [] \<or> last body = NL"
    using journal_ok_text [OF assms(1)] by metis
  then have "findJournalEnd (je_junk e) (jn_text j) 0 0 = (length body, newlines body)"
    using assms(2) findJournalEnd_eq [of body k] by simp
  then show ?thesis
    using assms(3) b by (auto simp: openStateFile_def Let_def journal_ok_def journal_body_def)
qed

theorem reopened_journal_witness:
  "let j = (demo_journal 1)\<lparr>jn_text := ''a'' @ [NL, NUL], jn_size := 3, jn_len := 2, jn_pos := 2\<rparr>;
       j' = openStateFile (demo_journal_env 0) (j\<lparr>jn_files := [(''20200101'', jn_text j)]\<rparr>)
   in journal_ok j \<and> journal_ok j' \<and> journal_body j' = ''a'' @ [NL] \<and> jn_record j' = 1"
proof -
  define j where "j = (demo_journal 1)\<lparr>jn_text := ''a'' @ [NL, NUL], jn_size := 3, jn_len := 2, jn_pos := 2\<rparr>"
  have ok: "journal_ok j" "jn_len j < jn_size j" "journal_body j = ''a'' @ [NL]"
    by (simp_all add: j_def journal_ok_def journal_body_def demo_journal_def numeral_3_eq_3)
  have "let j' = openStateFile (demo_journal_env 0) (j\<lparr>jn_files := [(''20200101'', jn_text j)]\<rparr>)
    in journal_ok j' \<and> journal_body j' = journal_body j \<and> jn_size j' = jn_size j \<and>
       jn_record j' = int (newlines (journal_body j))"
    by (rule reopened_journal [OF ok(1,2), where name = "''20200101''"]) (simp add: demo_journal_env_def table_simps)
  with ok show ?thesis unfolding Let_def j_def [symmetric] by (simp add: newlines_def)
qed

end
