(* ===== verification/Background_Save.thy ===== *)
theory Background_Save
  imports Journal
begin

section \<open>The background save, state.c\<close>

text \<open>
  \<open>stateSaveToDisk\<close> of \<open>src/src/state.c\<close>: it collects the dirty objects, marks them as being
  flushed and starts a child process that writes their state files and then marks the last
  record of the journal; a later call looks at the child and clears the marks, or makes the
  objects dirty again when the child failed. The arrays of pointers to the objects being
  flushed are lists of their keys. What \<open>waitpid\<close> reports is an argument.
\<close>

unbundle bit_operations_syntax

record flush =
  fl_nosave :: bool
  fl_pid :: bool
  fl_jobs :: "nat list"
  fl_queues :: "string list"
  fl_resources :: "string list"

datatype wait_result = StillRunning | Exited int | Signaled int | UnknownStatus

subsection \<open>The child\<close>

fun save_jobs :: "string \<Rightarrow> int \<Rightarrow> job list \<Rightarrow> fault + (string \<times> string) list" where
  "save_jobs dir now [] = Inr []"
| "save_jobs dir now (j # js) =
     bindR (stateSaveJob now j) (\<lambda>t.
     bindR (save_jobs dir now js) (\<lambda>fs. Inr ((job_path dir (j_jobid j), t) # fs)))"

text \<open>The files in the order they are written: the jobid, resources, queues, jobs.\<close>

definition stateSaveToDiskChild :: "string \<Rightarrow> int \<Rightarrow> server \<Rightarrow> flush \<Rightarrow> fault + (string \<times> string) list" where
  "stateSaveToDiskChild dir now s fl =
     bindR (save_jobs dir now (List.map_filter (findJob s) (fl_jobs fl))) (\<lambda>fs.
       Inr ([(dir @ ''/jobid'', stateSaveJobID (start_jobid s))] @
            map (\<lambda>r. (res_path dir (r_name r), stateSaveResource now r))
              (List.map_filter (findResource s) (fl_resources fl)) @
            map (\<lambda>q. (queue_path dir (q_name q), stateSaveQueue now s q))
              (List.map_filter (findQueue s) (fl_queues fl)) @ fs))"

subsection \<open>The parent\<close>

definition mark_flushing :: "flags \<Rightarrow> flags" where
  "mark_flushing x = set_flag x JERS_FLAG_FLUSHING"

definition flush_job :: "job \<Rightarrow> job" where
  "flush_job j = (if j_dirty j then j\<lparr>j_dirty := False, j_internal_state := mark_flushing (j_internal_state j)\<rparr> else j)"

definition flush_queue :: "queue \<Rightarrow> queue" where
  "flush_queue q = (if q_dirty q then q\<lparr>q_dirty := False, q_internal_state := mark_flushing (q_internal_state q)\<rparr> else q)"

definition flush_resource :: "resource \<Rightarrow> resource" where
  "flush_resource r = (if r_dirty r then r\<lparr>r_dirty := False, r_internal_state := mark_flushing (r_internal_state r)\<rparr> else r)"

text \<open>The loops over the tables, each guarded by its flag.\<close>

definition collect_dirty :: "flush \<times> server \<Rightarrow> flush \<times> server" where
  "collect_dirty fs =
     (let (fl, s) = fs;
          (fl, s) = (if dirty_jobs s
             then (fl\<lparr>fl_jobs := map j_jobid (filter j_dirty (jobTable s))\<rparr>, s\<lparr>jobTable := map flush_job (jobTable s)\<rparr>)
             else (fl, s));
          (fl, s) = (if dirty_queues s
             then (fl\<lparr>fl_queues := map q_name (filter q_dirty (queueTable s))\<rparr>,
                   s\<lparr>queueTable := map flush_queue (queueTable s)\<rparr>)
             else (fl, s));
          (fl, s) = (if dirty_resources s
             then (fl\<lparr>fl_resources := map r_name (filter r_dirty (resTable s))\<rparr>,
                   s\<lparr>resTable := map flush_resource (resTable s)\<rparr>)
             else (fl, s))
      in (fl\<lparr>fl_pid := True\<rparr>, s\<lparr>dirty_jobs := False, dirty_queues := False, dirty_resources := False\<rparr>))"

definition save_readonly :: "int \<Rightarrow> server \<Rightarrow> server" where
  "save_readonly status s =
     (if status \<noteq> 0 then (if readonly s = 0 then s\<lparr>readonly := READONLY_BGSAVE\<rparr> else s)
      else if readonly s = READONLY_BGSAVE then s\<lparr>readonly := 0\<rparr> else s)"

definition clear_flushing :: "flush \<Rightarrow> server \<Rightarrow> server" where
  "clear_flushing fl s =
     (let s = fold (\<lambda>k. on_job k (\<lambda>j. j\<lparr>j_internal_state := clear_flag (j_internal_state j) JERS_FLAG_FLUSHING\<rparr>)) (fl_jobs fl) s;
          s = fold (\<lambda>n. on_queue n (\<lambda>q. q\<lparr>q_internal_state := clear_flag (q_internal_state q) JERS_FLAG_FLUSHING\<rparr>)) (fl_queues fl) s
      in fold (\<lambda>n. on_res n (\<lambda>r. r\<lparr>r_internal_state := clear_flag (r_internal_state r) JERS_FLAG_FLUSHING\<rparr>)) (fl_resources fl) s)"

definition dirty_again :: "flush \<Rightarrow> server \<Rightarrow> server" where
  "dirty_again fl s =
     (let s = fold (\<lambda>k. on_job k (\<lambda>j. j\<lparr>j_dirty := True\<rparr>)) (fl_jobs fl) s;
          s = (if fl_jobs fl \<noteq> [] then s\<lparr>dirty_jobs := True\<rparr> else s);
          s = fold (\<lambda>n. on_queue n (\<lambda>q. q\<lparr>q_dirty := True\<rparr>)) (fl_queues fl) s;
          s = (if fl_queues fl \<noteq> [] then s\<lparr>dirty_queues := True\<rparr> else s);
          s = fold (\<lambda>n. on_res n (\<lambda>r. r\<lparr>r_dirty := True\<rparr>)) (fl_resources fl) s
      in if fl_resources fl \<noteq> [] then s\<lparr>dirty_resources := True\<rparr> else s)"

definition save_finished :: "int \<Rightarrow> flush \<times> server \<Rightarrow> flush \<times> server" where
  "save_finished status fs =
     (let (fl, s) = fs;
          s = save_readonly status s;
          s = clear_flushing fl s;
          s = (if status \<noteq> 0 then dirty_again fl s else s)
      in (fl\<lparr>fl_jobs := [], fl_queues := [], fl_resources := [], fl_pid := False\<rparr>, s))"

definition check_save :: "wait_result \<Rightarrow> flush \<times> server \<Rightarrow> fault + flush \<times> server" where
  "check_save w fs =
     (case w of
        StillRunning \<Rightarrow> Inr fs
      | Exited status \<Rightarrow> Inr (save_finished status fs)
      | Signaled _ \<Rightarrow> Inl Abort
      | UnknownStatus \<Rightarrow> Inl Abort)"

text \<open>
  \<open>rs\<close> are the results of the writes of an extension of the journal, \<open>w\<close> what \<open>waitpid\<close>
  reports: at once when a save is under way, or after the start when the caller blocks.
\<close>

definition stateSaveToDisk :: "bool \<Rightarrow> wait_result \<Rightarrow> write_result list \<Rightarrow> flush \<times> journal \<times> server \<Rightarrow>
  fault + flush \<times> journal \<times> server" where
  "stateSaveToDisk block w rs fjs =
     (let (fl, j, s) = fjs
      in if fl_nosave fl then Inr (fl, j, s)
         else if fl_pid fl then bindR (check_save w (fl, s)) (\<lambda>(fl, s). Inr (fl, j, s))
         else if \<not> dirty_jobs s \<and> \<not> dirty_queues s \<and> \<not> dirty_resources s then Inr (fl, j, s)
         else
           bindR (if readonly s = READONLY_ENOSPACE then extendJournal rs (j, s) else Inr (0, j, s)) (\<lambda>(rc, j, s).
             if rc \<noteq> 0 then Inr (fl, j, s)
             else
               (let (fl, s) = collect_dirty (fl, s)
                in if block then bindR (check_save w (fl, s)) (\<lambda>(fl, s). Inr (fl, j, s))
                   else Inr (fl, j, s))))"

subsection \<open>A failed save is undone\<close>

lemma fold_tupd:
  assumes "\<And>v. key (f v) = key v" and "distinct ks"
  shows "fold (\<lambda>k. tupd key k f) ks t = map (\<lambda>v. if key v \<in> set ks then f v else v) t"
  using assms(2)
proof (induction ks arbitrary: t)
  case (Cons k ks)
  then have "fold (\<lambda>k. tupd key k f) (k # ks) t = map (\<lambda>v. if key v \<in> set ks then f v else v) (tupd key k f t)"
    by simp
  also have "\<dots> = map (\<lambda>v. if key v \<in> set (k # ks) then f v else v) t"
    using Cons.prems by (auto simp: tupd_def assms(1))
  finally show ?case .
qed simp

lemma clear_set_flag: "\<not> has_flag x b \<Longrightarrow> clear_flag (set_flag x b) b = x"
  by (simp add: has_flag_def clear_flag_def set_flag_def bit.conj_disj_distrib2 bit_eq_iff bit_and_iff bit_or_iff bit_not_iff)
    blast

text \<open>
  A kind of object that is flushed: marking a dirty object, taking the mark away and making it
  dirty again gives the object back, and marking leaves a clean one alone. Then a save that
  fails gives a whole table back.
\<close>

locale flushable =
  fixes key :: "'v \<Rightarrow> 'k" and dirty :: "'v \<Rightarrow> bool" and flushing :: "'v \<Rightarrow> bool"
    and mark :: "'v \<Rightarrow> 'v" and unmark :: "'v \<Rightarrow> 'v" and redirty :: "'v \<Rightarrow> 'v"
  assumes key_mark: "key (mark v) = key v" and key_unmark: "key (unmark v) = key v" and key_redirty: "key (redirty v) = key v"
    and restored: "dirty v \<Longrightarrow> \<not> flushing v \<Longrightarrow> redirty (unmark (mark v)) = v"
    and clean: "\<not> dirty v \<Longrightarrow> mark v = v"
begin

lemma table_restored:
  assumes "tkeys key t" and "list_all (\<lambda>v. \<not> flushing v) t" and "ks = map key (filter dirty t)"
  shows "fold (\<lambda>k. tupd key k redirty) ks (fold (\<lambda>k. tupd key k unmark) ks (map mark t)) = t"
proof -
  have dist: "distinct ks" using assms(1,3) by (simp add: tkeys_def distinct_map_filter)
  have "key v \<in> set ks \<longleftrightarrow> dirty v" if "v \<in> set t" for v
    using assms(1,3) that by (auto simp: tkeys_def distinct_map inj_on_def)
  then show ?thesis
    unfolding fold_tupd [where key = key and f = unmark, OF key_unmark dist]
      fold_tupd [where key = key and f = redirty, OF key_redirty dist] map_map
    using assms(2) by (intro map_idI) (auto simp: key_mark key_unmark restored clean list_all_iff)
qed

end

interpretation saved_job: flushable j_jobid j_dirty "\<lambda>j. has_flag (j_internal_state j) JERS_FLAG_FLUSHING" flush_job
  "\<lambda>j. j\<lparr>j_internal_state := clear_flag (j_internal_state j) JERS_FLAG_FLUSHING\<rparr>" "\<lambda>j. j\<lparr>j_dirty := True\<rparr>"
  by unfold_locales (simp_all add: flush_job_def mark_flushing_def clear_set_flag)

interpretation saved_queue: flushable q_name q_dirty "\<lambda>q. has_flag (q_internal_state q) JERS_FLAG_FLUSHING" flush_queue
  "\<lambda>q. q\<lparr>q_internal_state := clear_flag (q_internal_state q) JERS_FLAG_FLUSHING\<rparr>" "\<lambda>q. q\<lparr>q_dirty := True\<rparr>"
  by unfold_locales (simp_all add: flush_queue_def mark_flushing_def clear_set_flag)

interpretation saved_resource: flushable r_name r_dirty "\<lambda>r. has_flag (r_internal_state r) JERS_FLAG_FLUSHING" flush_resource
  "\<lambda>r. r\<lparr>r_internal_state := clear_flag (r_internal_state r) JERS_FLAG_FLUSHING\<rparr>" "\<lambda>r. r\<lparr>r_dirty := True\<rparr>"
  by unfold_locales (simp_all add: flush_resource_def mark_flushing_def clear_set_flag)

text \<open>The updates through the pointers, table by table.\<close>

lemma fold_on_job: "fold (\<lambda>k. on_job k f) ks s = s\<lparr>jobTable := fold (\<lambda>k. tupd j_jobid k f) ks (jobTable s)\<rparr>"
  by (induction ks arbitrary: s) (simp_all add: on_job_def)

lemma fold_on_queue: "fold (\<lambda>k. on_queue k f) ks s = s\<lparr>queueTable := fold (\<lambda>k. tupd q_name k f) ks (queueTable s)\<rparr>"
  by (induction ks arbitrary: s) (simp_all add: on_queue_def)

lemma fold_on_res: "fold (\<lambda>k. on_res k f) ks s = s\<lparr>resTable := fold (\<lambda>k. tupd r_name k f) ks (resTable s)\<rparr>"
  by (induction ks arbitrary: s) (simp_all add: on_res_def)

lemmas fold_on = fold_on_job fold_on_queue fold_on_res

text \<open>Between two saves: no list is kept, nothing is marked, and the dirty objects are announced.\<close>

definition save_idle :: "flush \<Rightarrow> server \<Rightarrow> bool" where
  "save_idle fl s \<longleftrightarrow>
     fl_jobs fl = [] \<and> fl_queues fl = [] \<and> fl_resources fl = [] \<and>
     list_all (\<lambda>j. \<not> has_flag (j_internal_state j) JERS_FLAG_FLUSHING) (jobTable s) \<and>
     list_all (\<lambda>q. \<not> has_flag (q_internal_state q) JERS_FLAG_FLUSHING) (queueTable s) \<and>
     list_all (\<lambda>r. \<not> has_flag (r_internal_state r) JERS_FLAG_FLUSHING) (resTable s) \<and>
     dirty_jobs s = list_ex j_dirty (jobTable s) \<and> dirty_queues s = list_ex q_dirty (queueTable s) \<and>
     dirty_resources s = list_ex r_dirty (resTable s)"

lemma list_ex_filter: "list_ex P xs \<longleftrightarrow> filter P xs \<noteq> []"
  by (induction xs) auto

lemma collect_dirty_idle:
  assumes "save_idle fl s"
  shows "collect_dirty (fl, s) =
    (fl\<lparr>fl_pid := True, fl_jobs := map j_jobid (filter j_dirty (jobTable s)),
        fl_queues := map q_name (filter q_dirty (queueTable s)), fl_resources := map r_name (filter r_dirty (resTable s))\<rparr>,
     s\<lparr>jobTable := map flush_job (jobTable s), queueTable := map flush_queue (queueTable s),
       resTable := map flush_resource (resTable s), dirty_jobs := False, dirty_queues := False, dirty_resources := False\<rparr>)"
proof -
  have same: "map flush_job (jobTable s) = jobTable s" if "filter j_dirty (jobTable s) = []"
    using that by (intro map_idI) (auto simp: filter_empty_conv flush_job_def)
  have "map flush_queue (queueTable s) = queueTable s" if "filter q_dirty (queueTable s) = []"
    using that by (intro map_idI) (auto simp: filter_empty_conv flush_queue_def)
  moreover have "map flush_resource (resTable s) = resTable s" if "filter r_dirty (resTable s) = []"
    using that by (intro map_idI) (auto simp: filter_empty_conv flush_resource_def)
  ultimately show ?thesis
    using assms same by (cases fl; cases s) (auto simp: collect_dirty_def save_idle_def list_ex_filter Let_def)
qed

lemma clear_flushing_eq:
  "clear_flushing fl s = s\<lparr>
     jobTable := fold (\<lambda>k. tupd j_jobid k (\<lambda>j. j\<lparr>j_internal_state := clear_flag (j_internal_state j) JERS_FLAG_FLUSHING\<rparr>)) (fl_jobs fl) (jobTable s),
     queueTable := fold (\<lambda>k. tupd q_name k (\<lambda>q. q\<lparr>q_internal_state := clear_flag (q_internal_state q) JERS_FLAG_FLUSHING\<rparr>)) (fl_queues fl) (queueTable s),
     resTable := fold (\<lambda>k. tupd r_name k (\<lambda>r. r\<lparr>r_internal_state := clear_flag (r_internal_state r) JERS_FLAG_FLUSHING\<rparr>)) (fl_resources fl) (resTable s)\<rparr>"
  unfolding clear_flushing_def Let_def fold_on by simp

lemma dirty_again_eq:
  "dirty_again fl s = s\<lparr>
     jobTable := fold (\<lambda>k. tupd j_jobid k (\<lambda>j. j\<lparr>j_dirty := True\<rparr>)) (fl_jobs fl) (jobTable s),
     queueTable := fold (\<lambda>k. tupd q_name k (\<lambda>q. q\<lparr>q_dirty := True\<rparr>)) (fl_queues fl) (queueTable s),
     resTable := fold (\<lambda>k. tupd r_name k (\<lambda>r. r\<lparr>r_dirty := True\<rparr>)) (fl_resources fl) (resTable s),
     dirty_jobs := dirty_jobs s \<or> fl_jobs fl \<noteq> [], dirty_queues := dirty_queues s \<or> fl_queues fl \<noteq> [],
     dirty_resources := dirty_resources s \<or> fl_resources fl \<noteq> []\<rparr>"
  unfolding dirty_again_def Let_def fold_on by simp

text \<open>C31. A background save that fails loses nothing: when the child that was started for the
  dirty objects reports a failure, every job, queue and resource is what it was before the
  save, the dirty ones are dirty and announced again, nothing is left marked as being
  flushed, and the daemon is in read-only mode.\<close>

theorem failed_save_restores:
  assumes "daemon_ok s" and "save_idle fl s" and "collect_dirty (fl, s) = (fl1, s1)"
    and "save_finished status (fl1, s1) = (fl2, s2)" and "status \<noteq> 0"
  shows "jobTable s2 = jobTable s \<and> queueTable s2 = queueTable s \<and> resTable s2 = resTable s \<and>
    save_idle fl2 s2 \<and> readonly s2 = (if readonly s = 0 then READONLY_BGSAVE else readonly s)"
proof -
  have keys: "tkeys j_jobid (jobTable s)" "tkeys q_name (queueTable s)" "tkeys r_name (resTable s)"
    using assms(1) by (simp_all add: daemon_ok_def server_ok_def tables_ok_def)
  have idle: "list_all (\<lambda>j. \<not> has_flag (j_internal_state j) JERS_FLAG_FLUSHING) (jobTable s)"
    "list_all (\<lambda>q. \<not> has_flag (q_internal_state q) JERS_FLAG_FLUSHING) (queueTable s)"
    "list_all (\<lambda>r. \<not> has_flag (r_internal_state r) JERS_FLAG_FLUSHING) (resTable s)"
    using assms(2) by (simp_all add: save_idle_def)
  note undone = saved_job.table_restored [OF keys(1) idle(1) refl] saved_queue.table_restored [OF keys(2) idle(2) refl]
    saved_resource.table_restored [OF keys(3) idle(3) refl]
  let ?fl = "fl\<lparr>fl_pid := True, fl_jobs := map j_jobid (filter j_dirty (jobTable s)),
        fl_queues := map q_name (filter q_dirty (queueTable s)), fl_resources := map r_name (filter r_dirty (resTable s))\<rparr>"
  let ?s = "s\<lparr>readonly := if readonly s = 0 then READONLY_BGSAVE else readonly s, dirty_jobs := list_ex j_dirty (jobTable s),
      dirty_queues := list_ex q_dirty (queueTable s), dirty_resources := list_ex r_dirty (resTable s)\<rparr>"
  have s1: "fl1 = ?fl" "s1 = s\<lparr>jobTable := map flush_job (jobTable s), queueTable := map flush_queue (queueTable s),
       resTable := map flush_resource (resTable s), dirty_jobs := False, dirty_queues := False, dirty_resources := False\<rparr>"
    using assms(3) collect_dirty_idle [OF assms(2)] by simp_all
  have "s2 = dirty_again fl1 (clear_flushing fl1 (save_readonly status s1))"
    and fl2: "fl2 = fl1\<lparr>fl_jobs := [], fl_queues := [], fl_resources := [], fl_pid := False\<rparr>"
    using assms(4,5) by (simp_all add: save_finished_def Let_def)
  moreover have "save_readonly status s1 = s1\<lparr>readonly := if readonly s = 0 then READONLY_BGSAVE else readonly s\<rparr>"
    using assms(5) by (simp add: save_readonly_def s1)
  ultimately have "s2 = ?s"
    unfolding dirty_again_eq clear_flushing_eq s1 using undone by (simp add: list_ex_filter)
  then show ?thesis using idle fl2 by (simp add: save_idle_def)
qed

definition demo_flush :: flush where
  "demo_flush = \<lparr>fl_nosave = False, fl_pid = False, fl_jobs = [], fl_queues = [], fl_resources = []\<rparr>"

definition demo_dirty_server :: server where
  "demo_dirty_server = on_job 7 (\<lambda>j. j\<lparr>j_dirty := True\<rparr>) (demo_server\<lparr>dirty_jobs := True\<rparr>)"

lemma demo_dirty_ok: "daemon_ok demo_dirty_server" "save_idle demo_flush demo_dirty_server"
proof -
  show "daemon_ok demo_dirty_server"
    unfolding demo_dirty_server_def using demo_daemon_ok(1) by (intro daemon_ok_on_job) (simp_all add: light_def)
  show "save_idle demo_flush demo_dirty_server"
    by (simp add: save_idle_def demo_flush_def demo_dirty_server_def demo_server_def demo_job_def init_server_def
        on_job_def tupd_def job_zero_def queue_zero_def resource_zero_def)
qed

theorem failed_save_restores_witness:
  "\<exists>fl1 s1 fl2 s2. collect_dirty (demo_flush, demo_dirty_server) = (fl1, s1) \<and> save_finished 1 (fl1, s1) = (fl2, s2) \<and>
     jobTable s2 = jobTable demo_dirty_server \<and> save_idle fl2 s2"
proof -
  obtain fl1 s1 where c: "collect_dirty (demo_flush, demo_dirty_server) = (fl1, s1)" by fastforce
  obtain fl2 s2 where f: "save_finished 1 (fl1, s1) = (fl2, s2)" by fastforce
  have "jobTable s2 = jobTable demo_dirty_server \<and> queueTable s2 = queueTable demo_dirty_server \<and>
      resTable s2 = resTable demo_dirty_server \<and> save_idle fl2 s2 \<and>
      readonly s2 = (if readonly demo_dirty_server = 0 then READONLY_BGSAVE else readonly demo_dirty_server)"
    by (rule failed_save_restores [OF demo_dirty_ok c f]) simp
  with c f show ?thesis by blast
qed

subsection \<open>What the child writes can be loaded\<close>

lemma save_jobs_member:
  "save_jobs dir now js = Inr fs \<Longrightarrow> j \<in> set js \<Longrightarrow>
   \<exists>t. stateSaveJob now j = Inr t \<and> (job_path dir (j_jobid j), t) \<in> set fs"
proof (induction js arbitrary: fs)
  case (Cons j' js)
  from Cons.prems(1) obtain t fs' where "stateSaveJob now j' = Inr t" "save_jobs dir now js = Inr fs'"
    "fs = (job_path dir (j_jobid j'), t) # fs'"
    by (auto simp: bindR_def split: sum.splits)
  with Cons.IH [of fs'] Cons.prems(2) show ?case by auto
qed simp

lemma save_jobs_ok: "list_all (\<lambda>j. None \<notin> set (j_argv j)) js \<Longrightarrow> \<exists>fs. save_jobs dir now js = Inr fs"
  by (induction js) (auto simp: stateSaveJob_def)

lemma flush_job_saved:
  "j_jobid (flush_job j) = j_jobid j" "j_argv (flush_job j) = j_argv j" "persisted (flush_job j) = persisted j"
  "job_savable s (flush_job j) = job_savable s j"
  by (simp_all add: flush_job_def persisted_def job_savable_def job_in_range_def)

text \<open>A background save writes every dirty job so that it can be loaded: the child ends
  normally, and for each job that was dirty there is a file under the path of its jobid whose
  text, loaded on a server with the same queues and resources, is that job.\<close>

theorem saved_jobs_load:
  assumes "daemon_ok s" and "save_idle fl s" and "collect_dirty (fl, s) = (fl1, s1)"
    and "\<forall>j \<in> set (jobTable s). j_dirty j \<longrightarrow> job_savable s j"
  shows "\<exists>fs. stateSaveToDiskChild dir now s1 fl1 = Inr fs \<and>
    (\<forall>j \<in> set (jobTable s). j_dirty j \<longrightarrow>
       (\<exists>t. (job_path dir (j_jobid j), t) \<in> set fs \<and>
            stateLoadJob s (job_path dir (j_jobid j)) t = Inr (persisted j)))"
proof -
  have s1: "fl_jobs fl1 = map j_jobid (filter j_dirty (jobTable s))" "jobTable s1 = map flush_job (jobTable s)"
    using assms(3) collect_dirty_idle [OF assms(2)] by auto
  let ?js = "List.map_filter (findJob s1) (fl_jobs fl1)"
  have "tkeys j_jobid (jobTable s1)"
    using assms(1) by (simp add: s1 daemon_ok_def server_ok_def tables_ok_def tkeys_def comp_def flush_job_saved)
  then have found: "findJob s1 (j_jobid j) = Some (flush_job j)" if "j \<in> set (jobTable s)" for j
    using that tfind_mem [of j_jobid "jobTable s1" "flush_job j"] by (simp add: findJob_def s1 flush_job_saved)
  have mem: "set ?js = flush_job ` {j \<in> set (jobTable s). j_dirty j}"
    by (force simp: map_filter_def s1 found)
  have savable: "job_savable s j" if "j \<in> set ?js" for j
    using that assms(4) by (auto simp: mem flush_job_saved)
  then have "list_all (\<lambda>j. None \<notin> set (j_argv j)) ?js" by (auto simp: list_all_iff job_savable_def)
  then obtain fs where fs: "save_jobs dir now ?js = Inr fs" using save_jobs_ok by blast
  then obtain gs where gs: "stateSaveToDiskChild dir now s1 fl1 = Inr (gs @ fs)"
    by (auto simp: stateSaveToDiskChild_def)
  have "\<exists>t. (job_path dir (j_jobid j), t) \<in> set (gs @ fs) \<and>
      stateLoadJob s (job_path dir (j_jobid j)) t = Inr (persisted j)" if j: "j \<in> set (jobTable s)" "j_dirty j" for j
  proof -
    have js: "flush_job j \<in> set ?js" using j by (auto simp: mem)
    from save_jobs_member [OF fs this] obtain t where t: "stateSaveJob now (flush_job j) = Inr t"
      "(job_path dir (j_jobid j), t) \<in> set fs" by (auto simp: flush_job_saved)
    with job_file_loads [OF savable [OF js], of now dir] show ?thesis by (auto simp: flush_job_saved)
  qed
  with gs show ?thesis by blast
qed

theorem saved_jobs_load_witness:
  "\<exists>fl1 s1 fs t. collect_dirty (demo_flush, demo_dirty_server) = (fl1, s1) \<and>
     stateSaveToDiskChild ''/s'' 0 s1 fl1 = Inr fs \<and> (job_path ''/s'' 7, t) \<in> set fs \<and>
     stateLoadJob demo_dirty_server (job_path ''/s'' 7) t = Inr (persisted ((demo_job 7 100)\<lparr>j_dirty := True\<rparr>))"
proof -
  let ?j = "(demo_job 7 100)\<lparr>j_dirty := True\<rparr>"
  obtain fl1 s1 where c: "collect_dirty (demo_flush, demo_dirty_server) = (fl1, s1)" by fastforce
  have jobs: "jobTable demo_dirty_server = [?j, demo_job 8 200]"
    by (simp add: demo_dirty_server_def demo_server_def on_job_def tupd_def demo_job_def)
  have "job_savable demo_dirty_server ?j"
    by (simp add: job_savable_def job_in_range_def demo_job_def demo_dirty_server_def demo_server_def job_zero_def
        init_server_def queue_zero_def resource_zero_def rusage_zero_def usage_in_range_def in32_def in64_def inu32_def
        bare_def findQueue_def findResource_def table_simps on_job_def)
  then have sav: "\<forall>j \<in> set (jobTable demo_dirty_server). j_dirty j \<longrightarrow> job_savable demo_dirty_server j"
    by (simp add: jobs) (simp add: demo_job_def job_zero_def)
  have "?j \<in> set (jobTable demo_dirty_server)" "j_dirty ?j" "j_jobid ?j = 7" by (simp_all add: jobs demo_job_def)
  with saved_jobs_load [OF demo_dirty_ok c sav, of "''/s''" 0] c show ?thesis by metis
qed

subsection \<open>The invariant\<close>

text \<open>Updates that leave what the invariant speaks about alone.\<close>

definition inert :: "(job \<Rightarrow> job) \<Rightarrow> bool" where
  "inert f \<longleftrightarrow> (\<forall>j. j_jobid (f j) = j_jobid j \<and> j_queue (f j) = j_queue j \<and> j_state (f j) = j_state j \<and>
     has_flag (j_internal_state (f j)) JERS_FLAG_DELETED = has_flag (j_internal_state j) JERS_FLAG_DELETED)"

lemma daemon_ok_map_jobs:
  assumes "daemon_ok s" and "inert f"
  shows "daemon_ok (s\<lparr>jobTable := map f (jobTable s)\<rparr>)"
proof -
  have f: "j_jobid (f j) = j_jobid j" "j_queue (f j) = j_queue j" "j_state (f j) = j_state j"
    "has_flag (j_internal_state (f j)) JERS_FLAG_DELETED = has_flag (j_internal_state j) JERS_FLAG_DELETED" for j
    using assms(2) by (simp_all add: inert_def)
  have "stats_match x P (map f js) = stats_match x (\<lambda>j. P (f j)) js" for x P js
    by (simp add: stats_match_def tcount_def filter_map comp_def f)
  with assms(1) show ?thesis
    by (simp add: daemon_ok_def server_ok_def tables_ok_def counters_ok_def deleted_ok_def default_ok_def qnames_def
        tkeys_def comp_def f)
qed

lemma daemon_ok_flush_queues:
  assumes "daemon_ok s" and "\<And>q. q_name (g q) = q_name q" and "\<And>q. q_stats (g q) = q_stats q"
  shows "daemon_ok (s\<lparr>queueTable := map g (queueTable s)\<rparr>)"
  using assms server_ok_map_queues [of s g]
  by (simp add: daemon_ok_def deleted_ok_def default_ok_def qnames_def comp_def)

lemma daemon_ok_inert_job: "daemon_ok s \<Longrightarrow> inert f \<Longrightarrow> daemon_ok (on_job k f s)"
  unfolding on_job_def tupd_def by (rule daemon_ok_map_jobs) (auto simp: inert_def)

lemma daemon_ok_fold: "daemon_ok s \<Longrightarrow> (\<And>k s. daemon_ok s \<Longrightarrow> daemon_ok (f k s)) \<Longrightarrow> daemon_ok (fold f ks s)"
  by (induction ks arbitrary: s) auto

lemma daemon_ok_flags:
  "daemon_ok (s\<lparr>dirty_jobs := a\<rparr>) = daemon_ok s" "daemon_ok (s\<lparr>dirty_queues := a\<rparr>) = daemon_ok s"
  "daemon_ok (s\<lparr>dirty_resources := a\<rparr>) = daemon_ok s" "daemon_ok (s\<lparr>readonly := n\<rparr>) = daemon_ok s"
  by (simp_all add: daemon_ok_def server_ok_def tables_ok_def counters_ok_def deleted_ok_def default_ok_def qnames_def)

lemma inert_flush: "inert flush_job"
  "inert (\<lambda>j. j\<lparr>j_internal_state := clear_flag (j_internal_state j) JERS_FLAG_FLUSHING\<rparr>)" "inert (\<lambda>j. j\<lparr>j_dirty := True\<rparr>)"
  by (simp_all add: inert_def flush_job_def mark_flushing_def)

lemma daemon_ok_collect_dirty: "daemon_ok s \<Longrightarrow> daemon_ok (snd (collect_dirty (fl, s)))"
proof -
  have res: "daemon_ok s \<Longrightarrow> daemon_ok (s\<lparr>resTable := map flush_resource (resTable s)\<rparr>)" for s
    by (rule daemon_ok_resTable)
      (simp_all add: daemon_ok_def server_ok_def tables_ok_def tkeys_def comp_def flush_resource_def if_distrib cong: if_cong)
  have que: "daemon_ok s \<Longrightarrow> daemon_ok (s\<lparr>queueTable := map flush_queue (queueTable s)\<rparr>)" for s
    by (rule daemon_ok_flush_queues) (simp_all add: flush_queue_def)
  note job = daemon_ok_map_jobs [OF _ inert_flush(1)]
  assume "daemon_ok s"
  with job [of s] que [of s] res [of s] que [OF job, of s] res [OF job, of s] res [OF que, of s] res [OF que [OF job], of s]
  show ?thesis by (auto simp: collect_dirty_def Let_def daemon_ok_flags)
qed

lemma daemon_ok_save_finished: "daemon_ok s \<Longrightarrow> daemon_ok (snd (save_finished status (fl, s)))"
proof -
  assume s: "daemon_ok s"
  have "daemon_ok (save_readonly status s)" using s by (simp add: save_readonly_def daemon_ok_flags)
  then have c: "daemon_ok (clear_flushing fl (save_readonly status s))"
    unfolding clear_flushing_def Let_def
    by (intro daemon_ok_fold daemon_ok_on_res daemon_ok_on_queue daemon_ok_inert_job inert_flush) simp_all
  have "daemon_ok (dirty_again fl t)" if "daemon_ok t" for t
  proof -
    have "daemon_ok (fold (\<lambda>n. on_res n (\<lambda>r. r\<lparr>r_dirty := True\<rparr>)) (fl_resources fl)
        (fold (\<lambda>n. on_queue n (\<lambda>q. q\<lparr>q_dirty := True\<rparr>)) (fl_queues fl)
          (fold (\<lambda>k. on_job k (\<lambda>j. j\<lparr>j_dirty := True\<rparr>)) (fl_jobs fl) t)))"
      using that by (intro daemon_ok_fold daemon_ok_on_res daemon_ok_on_queue daemon_ok_inert_job inert_flush) simp_all
    then show ?thesis unfolding dirty_again_eq fold_on by (simp add: daemon_ok_flags)
  qed
  with c show ?thesis by (auto simp: save_finished_def Let_def)
qed

end
