(* ===== verification/Recovery.thy ===== *)
theory Recovery
  imports Background_Save
begin

section \<open>Recovery: starting the daemon from its state files and journals\<close>

text \<open>
  How \<open>main\<close> of \<open>src/src/jersd.c\<close> brings the daemon up: the jobid hint, the queues, the
  resources and the jobs are loaded from their files, then the journals are replayed. What
  is on the disk is a record of the files that \<open>glob\<close> finds.
\<close>

unbundle bit_operations_syntax

record disk =
  dk_jobid :: "string option"
  dk_queues :: "(string \<times> string) list"
  dk_resources :: "(string \<times> string) list"
  dk_jobs :: "(string \<times> string) list"
  dk_journals :: "string list"

definition stateInit :: "disk \<Rightarrow> server \<Rightarrow> server" where
  "stateInit dk s = s\<lparr>start_jobid := stateLoadJobID (dk_jobid dk)\<rparr>"

definition load_state :: "fnmatch \<Rightarrow> disk \<Rightarrow> server \<Rightarrow> fault + server" where
  "load_state fnm dk s =
     bindR (stateLoadQueues fnm (dk_queues dk) (stateInit dk s)) (\<lambda>s.
     bindR (stateLoadResources (dk_resources dk) s) (\<lambda>s.
     stateLoadJobs (dk_jobs dk) s))"

definition startup :: "env \<Rightarrow> journal_env \<Rightarrow> int \<Rightarrow> disk \<Rightarrow> daemon \<times> journal \<Rightarrow> fault + daemon \<times> journal" where
  "startup e je uid dk dj =
     bindR (load_state (w_fnmatch (e_world e)) dk (d_server (fst dj))) (\<lambda>s.
     stateReplayJournal e je uid (dk_journals dk) ((fst dj)\<lparr>d_server := s\<rparr>, snd dj))"

subsection \<open>Loading any files gives a consistent server\<close>

lemma load_lines_inv:
  assumes "\<And>key ix v a b. I a \<Longrightarrow> set_key key ix v a = Inr b \<Longrightarrow> I b" and "load_lines set_key ls a = Inr b" and "I a"
  shows "I b"
  using assms(2,3)
proof (induction ls arbitrary: a)
  case (Cons l ls)
  show ?case
  proof (cases "loadKeyValue (chomp l)")
    case KvNone
    with Cons show ?thesis by auto
  next
    case KvFault
    with Cons.prems show ?thesis by simp
  next
    case (KvPair key ix v)
    with Cons.prems obtain a' where "set_key key (case ix of Some i \<Rightarrow> i | None \<Rightarrow> 0) v a = Inr a'"
      "load_lines set_key ls a' = Inr b" by (auto simp: bindR_Inr_iff)
    with Cons.IH Cons.prems(2) assms(1) show ?thesis by blast
  qed
qed simp

lemma loaded_queue:
  assumes "stateLoadQueue p t = Inr q"
  shows "file_stem p = Inr (q_name q)" and "q_stats q = stats_zero"
proof -
  obtain name h q' where name: "file_stem p = Inr name" and q: "q = q'\<lparr>q_host := h\<rparr>"
    and load: "load_lines set_queue (file_lines t)
       (None, queue_zero\<lparr>q_name := name, q_job_limit := JERS_QUEUE_DEFAULT_LIMIT,
                q_priority := JERS_QUEUE_DEFAULT_PRIORITY, q_state := JERS_QUEUE_DEFAULT_STATE,
                q_nice := UNSET_32\<rparr>) = Inr (Some h, q')"
    using assms by (auto simp: stateLoadQueue_def bindR_Inr_iff split: option.splits)
  have "(\<lambda>hq. q_name (snd hq) = name \<and> q_stats (snd hq) = stats_zero) (Some h, q')"
    by (rule load_lines_inv [OF _ load])
      (auto simp: set_queue_def Let_def queue_zero_def split: if_splits)
  with name q show "file_stem p = Inr (q_name q)" "q_stats q = stats_zero" by simp_all
qed

lemma loaded_resource:
  assumes "stateLoadResource p t = Inr r"
  shows "file_stem p = Inr (r_name r)"
proof -
  obtain name where name: "file_stem p = Inr name"
    and load: "load_lines set_resource (file_lines t) (resource_zero\<lparr>r_name := name\<rparr>) = Inr r"
    using assms by (auto simp: stateLoadResource_def bindR_Inr_iff)
  have "r_name r = name"
    by (rule load_lines_inv [OF _ load]) (auto simp: set_resource_def split: if_splits)
  with name show ?thesis by simp
qed

lemma loaded_job:
  assumes "stateLoadJob s p t = Inr j"
  shows "findQueue s (j_queue j) \<noteq> None" and "j_internal_state j = 0" and "j_state j \<noteq> 0"
proof -
  obtain name n j' where j: "j = j'\<lparr>j_queue := n, j_state := if j_state j' = 0 then JERS_JOB_PENDING else j_state j'\<rparr>"
    and load: "load_lines (set_job s) (file_lines t) (None, job_zero\<lparr>j_jobid := nat (uint32 (atoi name))\<rparr>) = Inr (Some n, j')"
    using assms by (auto simp: stateLoadJob_def bindR_Inr_iff split: option.splits)
  let ?I = "\<lambda>(qp, j). (case qp of None \<Rightarrow> True | Some n \<Rightarrow> findQueue s n \<noteq> None) \<and> j_internal_state j = 0"
  have step: "?I b" if "?I a" "set_job s key ix v a = Inr b" for key ix v a b
  proof -
    have "findQueue s (q_name q) \<noteq> None" if "findQueue s v = Some q" for q
      using that tfind_SomeD [of q_name v "queueTable s" q] by (simp add: findQueue_def)
    with that show ?thesis
      by (cases a) (auto simp: set_job_def Let_def bindR_Inr_iff split: if_splits option.splits)
  qed
  have "?I (Some n, j')" by (rule load_lines_inv [OF step load]) (simp_all add: job_zero_def)
  with j show "findQueue s (j_queue j) \<noteq> None" "j_internal_state j = 0" "j_state j \<noteq> 0" by simp_all
qed

lemma names_addQueue: "findQueue (addQueue fnm q d s) n = None \<longleftrightarrow> findQueue s n = None \<and> n \<noteq> q_name q"
proof -
  have "set (qnames (addQueue fnm q d s)) = insert (q_name q) (set (qnames s))"
    by (simp add: addQueue_def Let_def updateQueue_eq set_tupd image_image qnames_def setDefaultQueue_def
        image_insert cong: image_cong_simp) auto
  then show ?thesis by (auto simp: findQueue_None)
qed

lemma addQueue_frame [simp]: "jobTable (addQueue fnm q d s) = jobTable s" "resTable (addQueue fnm q d s) = resTable s"
  by (simp_all add: addQueue_def Let_def setDefaultQueue_def updateQueue_def on_queue_def)

lemma load_queues_ok:
  assumes "stateLoadQueues fnm fs s = Inr s'" and "daemon_ok s" and "distinct (map (file_stem \<circ> fst) fs)"
    and "\<forall>f \<in> set fs. \<forall>n. file_stem (fst f) = Inr n \<longrightarrow> findQueue s n = None"
  shows "daemon_ok s' \<and> jobTable s' = jobTable s \<and> resTable s' = resTable s"
  using assms
proof (induction fs arbitrary: s)
  case (Cons f fs)
  obtain p t where f: "f = (p, t)" by fastforce
  with Cons.prems(1) obtain q where q: "stateLoadQueue p t = Inr q" "stateLoadQueues fnm fs (addQueue fnm q False s) = Inr s'"
    by (auto simp: bindR_Inr_iff)
  note name = loaded_queue [OF q(1)]
  have "daemon_ok (addQueue fnm q False s)"
    using Cons.prems(2,4) name f by (intro daemon_ok_addQueue) auto
  moreover have "\<forall>f \<in> set fs. \<forall>n. file_stem (fst f) = Inr n \<longrightarrow> findQueue (addQueue fnm q False s) n = None"
    using Cons.prems(3,4) name(1) f by (auto simp: names_addQueue) (metis image_eqI fst_conv)
  ultimately show ?case using Cons.IH [OF q(2)] Cons.prems(3) by simp
qed simp

lemma addRes_frame [simp]: "jobTable (addRes r d s) = jobTable s" "queueTable (addRes r d s) = queueTable s"
  by (simp_all add: addRes_def updateRes_def on_res_def Let_def)

lemma names_addRes: "findResource (addRes r d s) n = None \<longleftrightarrow> findResource s n = None \<and> n \<noteq> r_name r"
  by (auto simp: addRes_def updateRes_eq findResource_def tfind_None_iff set_tupd on_res_def image_iff)

lemma load_resources_ok:
  assumes "stateLoadResources fs s = Inr s'" and "daemon_ok s" and "distinct (map (file_stem \<circ> fst) fs)"
    and "\<forall>f \<in> set fs. \<forall>n. file_stem (fst f) = Inr n \<longrightarrow> findResource s n = None"
  shows "daemon_ok s'"
  using assms
proof (induction fs arbitrary: s)
  case (Cons f fs)
  obtain p t where f: "f = (p, t)" by fastforce
  with Cons.prems(1) obtain r where r: "stateLoadResource p t = Inr r" "stateLoadResources fs (addRes r False s) = Inr s'"
    by (auto simp: bindR_Inr_iff)
  note name = loaded_resource [OF r(1)]
  have "tkeys r_name (tadd r (resTable s))"
    using Cons.prems(2,4) name f
    by (intro tkeys_tadd) (auto simp: daemon_ok_def server_ok_def tables_ok_def findResource_def)
  with Cons.prems(2) have "daemon_ok (addRes r False s)"
    unfolding addRes_def by (intro daemon_ok_updateRes daemon_ok_resTable)
  moreover have "\<forall>f \<in> set fs. \<forall>n. file_stem (fst f) = Inr n \<longrightarrow> findResource (addRes r False s) n = None"
    using Cons.prems(3,4) name f by (auto simp: names_addRes) (metis image_eqI fst_conv)
  ultimately show ?case using Cons.IH [OF r(2)] Cons.prems(3) by simp
qed simp

lemma load_jobs_ok: "stateLoadJobs fs s = Inr s' \<Longrightarrow> daemon_ok s \<Longrightarrow> daemon_ok s'"
proof (induction fs arbitrary: s)
  case (Cons f fs)
  obtain p t where f: "f = (p, t)" by fastforce
  with Cons.prems(1) obtain j where j: "stateLoadJob s p t = Inr j" "stateLoadJobs fs (snd (addJob j False s)) = Inr s'"
    by (auto simp: bindR_Inr_iff)
  then have "daemon_ok (snd (addJob j False s))"
    using loaded_job [OF j(1)] Cons.prems(2) by (intro daemon_ok_addJob) simp_all
  from Cons.IH [OF j(2) this] show ?case .
qed simp

lemma load_state_ok:
  assumes "daemon_ok s" and "queueTable s = []" and "resTable s = []"
    and "distinct (map (file_stem \<circ> fst) (dk_queues dk))" and "distinct (map (file_stem \<circ> fst) (dk_resources dk))"
    and "load_state fnm dk s = Inr s'"
  shows "daemon_ok s'"
proof -
  obtain s1 s2 where load: "stateLoadQueues fnm (dk_queues dk) (stateInit dk s) = Inr s1"
    "stateLoadResources (dk_resources dk) s1 = Inr s2" "stateLoadJobs (dk_jobs dk) s2 = Inr s'"
    using assms(6) by (auto simp: load_state_def bindR_Inr_iff)
  have "daemon_ok (stateInit dk s)"
    using assms(1) by (simp add: stateInit_def daemon_ok_def server_ok_def tables_ok_def counters_ok_def deleted_ok_def
        default_ok_def qnames_def)
  then have s1: "daemon_ok s1 \<and> jobTable s1 = jobTable (stateInit dk s) \<and> resTable s1 = resTable (stateInit dk s)"
    using assms(2,4) by (intro load_queues_ok [OF load(1)]) (simp_all add: findQueue_def stateInit_def table_simps)
  then have "daemon_ok s2"
    using assms(3,5) by (intro load_resources_ok [OF load(2)]) (simp_all add: findResource_def stateInit_def table_simps)
  with load(3) show ?thesis by (rule load_jobs_ok)
qed

subsection \<open>Jobs that were running\<close>

text \<open>What recovery makes of a job once the journals are replayed.\<close>

definition was_running :: "job \<Rightarrow> bool" where
  "was_running j \<longleftrightarrow> j_state j = JERS_JOB_RUNNING \<or> has_flag (j_internal_state j) JERS_FLAG_JOB_STARTED"

definition recovered :: "job \<Rightarrow> job" where
  "recovered j = (if was_running j
     then j\<lparr>j_state := JERS_JOB_UNKNOWN, j_revision := j_revision j + 1, j_dirty := True,
            j_internal_state := clear_flag (j_internal_state j) JERS_FLAG_JOB_STARTED\<rparr> else j)"

definition no_dead_starts :: "server \<Rightarrow> bool" where
  "no_dead_starts s \<longleftrightarrow> (\<forall>j \<in> set (jobTable s). has_flag (j_internal_state j) JERS_FLAG_DELETED \<longrightarrow>
     \<not> has_flag (j_internal_state j) JERS_FLAG_JOB_STARTED)"

lemma recover_job_ok:
  assumes "daemon_ok s" and "no_dead_starts s"
  shows "daemon_ok (recover_job k s)"
    and "findJob (recover_job k s) k' = (if k' = k then map_option recovered (findJob s k) else findJob s k')"
    and "map j_jobid (jobTable (recover_job k s)) = map j_jobid (jobTable s)"
proof -
  note keys = daemon_ok_keys(1) [OF assms(1)]
  have "daemon_ok (recover_job k s) \<and>
    findJob (recover_job k s) k' = (if k' = k then map_option recovered (findJob s k) else findJob s k') \<and>
    map j_jobid (jobTable (recover_job k s)) = map j_jobid (jobTable s)"
  proof (cases "\<exists>j. findJob s k = Some j \<and> was_running j")
    case False
    then have "recover_job k s = s" by (auto simp: recover_job_def was_running_def split: option.split)
    moreover have "map_option recovered (findJob s k) = findJob s k"
      using False by (cases "findJob s k") (auto simp: recovered_def)
    ultimately show ?thesis using assms(1) by simp
  next
    case True
    then obtain j where j: "findJob s k = Some j" "was_running j" by blast
    let ?s = "changeJobState k JERS_JOB_UNKNOWN None True s"
    let ?f = "\<lambda>j. j\<lparr>j_internal_state := clear_flag (j_internal_state j) JERS_FLAG_JOB_STARTED\<rparr>"
    have mem: "j \<in> set (jobTable s)" using j(1) by (auto simp: findJob_def dest: tfind_SomeD)
    have "\<not> has_flag (j_internal_state j) JERS_FLAG_DELETED"
      using mem j(2) assms by (auto simp: was_running_def no_dead_starts_def daemon_ok_def deleted_ok_def job_states_def)
    with j(1) assms(1) have "daemon_ok ?s" by (intro daemon_ok_changeJobState) auto
    then have "daemon_ok (on_job k ?f ?s)" by (rule daemon_ok_inert_job) (simp add: inert_def)
    moreover have "findJob (on_job k ?f ?s) k' = (if k' = k then Some (recovered j) else findJob s k')"
      using j by (simp add: findJob_on_job findJob_changeJobState [OF keys] requeue_def recovered_def)
    moreover have "map j_jobid (jobTable (on_job k ?f ?s)) = map j_jobid (jobTable s)"
      by (simp add: on_job_def map_key_tupd jobTable_changeJobState [OF keys j(1)] requeue_def)
    moreover have "recover_job k s = allocateRes j (on_job k ?f ?s)"
      using j by (simp add: recover_job_def was_running_def Let_def)
    ultimately show ?thesis using j(1) by (simp add: daemon_ok_allocateRes findJob_def)
  qed
  then show "daemon_ok (recover_job k s)"
    "findJob (recover_job k s) k' = (if k' = k then map_option recovered (findJob s k) else findJob s k')"
    "map j_jobid (jobTable (recover_job k s)) = map j_jobid (jobTable s)" by simp_all
qed

lemma recovered_flags: "has_flag (j_internal_state (recovered j)) JERS_FLAG_DELETED = has_flag (j_internal_state j) JERS_FLAG_DELETED"
  "has_flag (j_internal_state (recovered j)) JERS_FLAG_JOB_STARTED \<Longrightarrow> has_flag (j_internal_state j) JERS_FLAG_JOB_STARTED"
  "\<not> was_running (recovered j)"
  by (auto simp: recovered_def was_running_def split: if_splits)

lemma in_table: "daemon_ok s \<Longrightarrow> j \<in> set (jobTable s) \<longleftrightarrow> findJob s (j_jobid j) = Some j"
  using jobs.lookup_entries [of "jobTable s" "j_jobid j" j] daemon_ok_keys(1) [of s] by (simp add: findJob_def)

lemma no_dead_starts_recover:
  assumes "daemon_ok s" and "no_dead_starts s"
  shows "no_dead_starts (recover_job k s)"
  unfolding no_dead_starts_def
proof (intro ballI impI)
  fix j assume "j \<in> set (jobTable (recover_job k s))" and del: "has_flag (j_internal_state j) JERS_FLAG_DELETED"
  then have j: "findJob (recover_job k s) (j_jobid j) = Some j" using in_table [OF recover_job_ok(1) [OF assms]] by blast
  then obtain j0 where "findJob s (j_jobid j) = Some j0" "j = j0 \<or> j = recovered j0"
    unfolding recover_job_ok(2) [OF assms] by (auto split: if_splits)
  with assms(2) del show "\<not> has_flag (j_internal_state j) JERS_FLAG_JOB_STARTED"
    by (auto simp: no_dead_starts_def findJob_def recovered_flags(1) dest: recovered_flags(2) tfind_SomeD)
qed

lemma recover_all:
  assumes "daemon_ok s" and "no_dead_starts s" and "distinct ks"
  shows "daemon_ok (fold recover_job ks s) \<and>
    findJob (fold recover_job ks s) k = (if k \<in> set ks then map_option recovered (findJob s k) else findJob s k)"
  using assms
proof (induction ks arbitrary: s)
  case (Cons k' ks)
  note step = recover_job_ok [OF Cons.prems(1,2)] no_dead_starts_recover [OF Cons.prems(1,2)]
  show ?case using Cons.IH [OF step(1,4)] Cons.prems(3) by (auto simp: step(2))
qed simp

lemma recover_job_recovery: "recovery (recover_job k s) = recovery s"
proof -
  have alloc: "recovery (allocateRes j s) = recovery s" for j s
  proof -
    have "recovery (fold (\<lambda>(n, needed). on_res n (res_take needed)) rs s) = recovery s" for rs
      by (induction rs arbitrary: s) (auto simp: on_res_def)
    then show ?thesis by (simp add: allocateRes_def)
  qed
  have "recovery (changeJobState k st q b s) = recovery s" for st q b
    by (simp add: changeJobState_def Let_def decrement_state_def increment_state_def updateJob_def on_job_def on_queue_def
        generateEmail_def addEmail_def count_state_def split: option.split)
  then show ?thesis by (simp add: recover_job_def Let_def alloc on_job_def split: option.split)
qed

lemma fill_readonly: "extendJournal rs (j, s) = Inr (rc, j', s') \<Longrightarrow> \<exists>n. s' = s\<lparr>readonly := n\<rparr>"
proof -
  have keep: "s = s\<lparr>readonly := readonly s\<rparr>" for s :: server by simp
  assume "extendJournal rs (j, s) = Inr (rc, j', s')"
  then consider "s' = s" | n where "s' = s\<lparr>readonly := n\<rparr>"
    by (fastforce simp: extendJournal_def Let_def bindR_Inr_iff split: if_splits)
  then show ?thesis using keep by metis
qed

lemma save_readonly_only:
  assumes "stateSaveCmd e uid command m jobid revision (j, s) = Inr (rc, j', s')"
  shows "\<exists>n. s' = s\<lparr>readonly := n\<rparr>"
proof -
  have keep: "\<exists>n. s = s\<lparr>readonly := n\<rparr>" for s :: server by (rule exI [of _ "readonly s"]) simp
  have roll: "\<exists>n. s1 = s\<lparr>readonly := n\<rparr>" if "roll_journal e (j, s) = Inr (rc1, j1, s1)" for rc1 j1 s1
    using that keep by (auto simp: roll_journal_def Let_def dest: fill_readonly split: if_splits)
  obtain rc1 j1 s1 where r: "roll_journal e (j, s) = Inr (rc1, j1, s1)"
    using assms by (auto simp: stateSaveCmd_def bindR_Inr_iff)
  from roll [OF this] obtain n1 where n1: "s1 = s\<lparr>readonly := n1\<rparr>" by blast
  let ?l = "journal_line (je_sec e) (je_msec e) uid command jobid revision m"
  let ?x = "if int (jn_len j1 + length ?l) \<ge> jn_limit j1 then extendJournal (je_extended e) (j1, s1) else Inr (0, j1, s1)"
  have extend: "\<exists>n. s2 = s1\<lparr>readonly := n\<rparr>" if "?x = Inr (rc2, j2, s2)" for rc2 j2 s2
    using that keep by (auto dest: fill_readonly split: if_splits)
  have "s' = s1 \<or> (\<exists>rc2 j2. ?x = Inr (rc2, j2, s'))"
    using assms r by (auto simp: stateSaveCmd_def Let_def bindR_Inr_iff split_beta split: if_splits)
  then have "\<exists>n. s' = s1\<lparr>readonly := n\<rparr>" using extend keep by blast
  with n1 show ?thesis by auto
qed



end
