(* ===== verification/Config.thy ===== *)
theory Config
  imports Recovery
begin

section \<open>The configuration, config.c, and the secret, auth.c\<close>

text \<open>
  \<open>loadConfig\<close> of \<open>src/src/config.c\<close>: the defaults, the lines of the file, the access control
  entries of queues and the allowed agents, and what it leaves in the server. The group
  database is a function from names to ids, the host's name and the secret file are arguments.
  \<open>loadSecret\<close> and \<open>generateNonce\<close> of \<open>src/src/auth.c\<close> are here too, with the hash and the
  bytes that \<open>read\<close> returns as arguments.
\<close>

unbundle bit_operations_syntax

abbreviation (input) GROUP_LIMIT :: nat where "GROUP_LIMIT \<equiv> 32"
abbreviation COMMA :: char where "COMMA \<equiv> CHR 0x2C"

type_synonym groups_db = "string \<Rightarrow> int option"

text \<open>The tokens that repeated calls of \<open>strtok\<close> with one separator return.\<close>

function strtok :: "char \<Rightarrow> string \<Rightarrow> string list" where
  "strtok sep t =
     (let u = dropWhile (\<lambda>c. c = sep) t
      in if u = [] then [] else takeWhile (\<lambda>c. c \<noteq> sep) u # strtok sep (dropWhile (\<lambda>c. c \<noteq> sep) u))"
  by pat_completeness auto
termination
proof (relation "measure (\<lambda>(sep, t). length t)")
  fix sep :: char and t u :: string
  assume u: "u = dropWhile (\<lambda>c. c = sep) t" "u \<noteq> []"
  obtain c cs where c: "u = c # cs" using u(2) by (cases u) auto
  then have "c \<noteq> sep" using hd_dropWhile [of "\<lambda>c. c = sep" t] u by auto
  with c have "length (dropWhile (\<lambda>c. c \<noteq> sep) u) < length u" by (simp add: le_imp_less_Suc length_dropWhile_le)
  also have "length u \<le> length t" unfolding u by (rule length_dropWhile_le)
  finally show "((sep, dropWhile (\<lambda>c. c \<noteq> sep) u), sep, t) \<in> measure (\<lambda>(sep, t). length t)" by simp
qed simp

declare strtok.simps [simp del]

subsection \<open>Groups and agents\<close>

definition getGroup :: "groups_db \<Rightarrow> string \<Rightarrow> fault + int" where
  "getGroup db name = (case db name of None \<Rightarrow> Inl Abort | Some g \<Rightarrow> Inr g)"

fun add_groups :: "groups_db \<Rightarrow> nat \<Rightarrow> string list \<Rightarrow> fault + int list" where
  "add_groups db n [] = Inr []"
| "add_groups db n (tok # toks) =
     (if n + 1 > GROUP_LIMIT then Inl Abort
      else bindR (getGroup db tok) (\<lambda>g. bindR (add_groups db (n + 1) toks) (\<lambda>gs. Inr (g # gs))))"

definition getGroups :: "groups_db \<Rightarrow> string \<Rightarrow> fault + int list" where
  "getGroups db groups = add_groups db 0 (strtok SPC groups)"

definition agent_zero :: "string \<Rightarrow> agent" where
  "agent_zero h = \<lparr>a_host = h, a_connected = False, a_logged_in = False, a_recon = False, a_nonce = None,
     a_requests = [], a_sent = []\<rparr>"

definition loadAllowedAgents :: "string \<Rightarrow> server \<Rightarrow> server" where
  "loadAllowedAgents agents s = fold (\<lambda>h. addAgent (agent_zero h)) (strtok SPC agents) s"

subsection \<open>Access control entries of queues\<close>

definition cmp_queue_acl :: "queue_acl \<Rightarrow> queue_acl \<Rightarrow> int" where
  "cmp_queue_acl a b = of_bool (acl_allow b) - of_bool (acl_allow a)"

fun acl_perms :: "flags \<Rightarrow> string list \<Rightarrow> fault + flags" where
  "acl_perms p [] = Inr p"
| "acl_perms p (tok # toks) =
     (if strcasecmp_eq tok ''control'' then acl_perms (p OR QUEUE_CONTROL) toks
      else if strcasecmp_eq tok ''limit'' then acl_perms (p OR QUEUE_LIMIT) toks
      else if strcasecmp_eq tok ''admin'' then Inr (p OR QUEUE_ADMIN)
      else Inl Abort)"

definition acl_kind :: "string \<Rightarrow> fault + bool" where
  "acl_kind allow =
     (if strcasecmp_eq allow ''ALLOW'' then Inr True
      else if strcasecmp_eq allow ''DENY'' then Inr False else Inl Abort)"

text \<open>The array of group ids has 32 zeroed elements; the first zero ends the list for its readers.\<close>

definition acl_of :: "bool \<Rightarrow> flags \<Rightarrow> int list \<Rightarrow> string \<Rightarrow> queue_acl" where
  "acl_of allow p gids expr =
     \<lparr>acl_expr = expr, acl_allow = allow, acl_gids = gids @ replicate (GROUP_LIMIT - length gids) 0, acl_permissions = p\<rparr>"

definition loadQueueACL :: "groups_db \<Rightarrow> string \<Rightarrow> server \<Rightarrow> fault + server" where
  "loadQueueACL db in_acl s =
     (case strtok SPC in_acl of
        kind # perms # exprs # groups # _ \<Rightarrow>
          bindR (acl_kind kind) (\<lambda>allow.
          bindR (acl_perms 0 (strtok COMMA perms)) (\<lambda>p.
          bindR (add_groups db 0 (strtok COMMA groups)) (\<lambda>gids.
          Inr (s\<lparr>queue_acls := queue_acls s @ map (acl_of allow p gids) (strtok COMMA exprs)\<rparr>))))
      | _ \<Rightarrow> Inl Abort)"

subsection \<open>The secret and the nonce\<close>

record secret_file =
  sf_uid :: int
  sf_gid :: int
  sf_mode :: flags
  sf_size :: nat
  sf_reads :: "string list"

fun read_secret :: "nat \<Rightarrow> string \<Rightarrow> string list \<Rightarrow> string option" where
  "read_secret n bytes rs =
     (if n = 0 then Some bytes
      else (case rs of
              [] \<Rightarrow> None
            | r # rs \<Rightarrow> if r = [] then None else read_secret (n - length (take n r)) (bytes @ take n r) rs))"

declare read_secret.simps [simp del]

text \<open>\<open>S_IRWXO | S_IRWXG\<close> are the low six bits of the mode.\<close>

definition loadSecret :: "int \<Rightarrow> int \<Rightarrow> (string \<Rightarrow> string option) \<Rightarrow> secret_file option \<Rightarrow> string option" where
  "loadSecret uid gid sha256 f =
     (case f of
        None \<Rightarrow> None
      | Some f \<Rightarrow>
          if uid \<noteq> 0 \<and> (uid \<noteq> sf_uid f \<or> gid \<noteq> sf_gid f) then None
          else if uid \<noteq> 0 \<and> sf_mode f AND 0x3F \<noteq> 0 then None
          else Option.bind (read_secret (sf_size f) [] (sf_reads f)) sha256)"

text \<open>A read of the random device returns bytes or fails; \<open>None\<close> as a whole is no result at all.\<close>

fun generateNonce :: "nat \<Rightarrow> 8 word list \<Rightarrow> 8 word list option list \<Rightarrow> string option option" where
  "generateNonce n bytes rs =
     (if n = 0 then Some (Some (hexEncode bytes))
      else (case rs of
              [] \<Rightarrow> None
            | None # _ \<Rightarrow> Some None
            | Some r # rs \<Rightarrow> generateNonce (n - length (take n r)) (bytes @ take n r) rs))"

declare generateNonce.simps [simp del]

subsection \<open>The file\<close>

record config =
  cf_server :: server
  cf_events :: event_config
  cf_extend_block_size :: nat
  cf_state_dir :: string
  cf_event_freq :: int
  cf_socket_path :: string
  cf_agent_socket_path :: string
  cf_acct_socket_path :: string
  cf_agent_port :: int
  cf_logfile :: "string option"
  cf_logging_mode :: int
  cf_secret :: "string option"
  cf_slowrequest_logging :: int
  cf_slow_threshold_ms :: int

record config_env =
  ce_groups :: groups_db
  ce_host :: string
  ce_secret :: "string \<Rightarrow> string option"

abbreviation (input) JERS_LOG_DEBUG :: int where "JERS_LOG_DEBUG \<equiv> 0"
abbreviation (input) JERS_LOG_INFO :: int where "JERS_LOG_INFO \<equiv> 1"
abbreviation (input) JERS_LOG_WARNING :: int where "JERS_LOG_WARNING \<equiv> 2"
abbreviation (input) JERS_LOG_CRITICAL :: int where "JERS_LOG_CRITICAL \<equiv> 3"
abbreviation (input) SLOWREQUEST_OFF :: int where "SLOWREQUEST_OFF \<equiv> 0"
abbreviation (input) SLOWREQUEST_ON :: int where "SLOWREQUEST_ON \<equiv> 1"
abbreviation (input) SLOWREQUEST_ALL :: int where "SLOWREQUEST_ALL \<equiv> 2"

definition default_config :: config where
  "default_config = \<lparr>cf_server = init_server,
     cf_events = \<lparr>ec_sched_freq = 25, ec_background_save_ms = 30000, ec_flush_defer = True, ec_flush_defer_ms = 5000,
                 ec_email_freq_ms = 5000\<rparr>,
     cf_extend_block_size = 524288, cf_state_dir = ''/var/spool/jers/state'', cf_event_freq = 10,
     cf_socket_path = ''/var/run/jers/jers.socket'', cf_agent_socket_path = ''/var/run/jers/agent.socket'',
     cf_acct_socket_path = ''/var/run/jers/accounting.socket'', cf_agent_port = 0, cf_logfile = None,
     cf_logging_mode = JERS_LOG_DEBUG, cf_secret = None, cf_slowrequest_logging = SLOWREQUEST_ON,
     cf_slow_threshold_ms = 50\<rparr>"

definition cf_on_server :: "(server \<Rightarrow> server) \<Rightarrow> config \<Rightarrow> config" where
  "cf_on_server f c = c\<lparr>cf_server := f (cf_server c)\<rparr>"

definition cf_on_events :: "(event_config \<Rightarrow> event_config) \<Rightarrow> config \<Rightarrow> config" where
  "cf_on_events f c = c\<lparr>cf_events := f (cf_events c)\<rparr>"

definition set_perms :: "groups_db \<Rightarrow> string \<Rightarrow> (int list \<Rightarrow> perm_groups \<Rightarrow> perm_groups) \<Rightarrow> config \<Rightarrow> fault + config" where
  "set_perms db v upd c =
     bindR (getGroups db v) (\<lambda>gs. Inr (cf_on_server (\<lambda>s. s\<lparr>permissions := upd gs (permissions s)\<rparr>) c))"

definition log_mode :: "string \<Rightarrow> int" where
  "log_mode v =
     (if v = ''DEBUG'' then JERS_LOG_DEBUG
      else if strcasecmp_eq v ''INFO'' then JERS_LOG_INFO
      else if strcasecmp_eq v ''WARNING'' then JERS_LOG_WARNING
      else if strcasecmp_eq v ''CRITICAL'' then JERS_LOG_CRITICAL
      else JERS_LOG_INFO)"

definition default_nice :: "string \<Rightarrow> int" where
  "default_nice v = (let n = atoi v in if n < -20 \<or> n > 19 then 0 else n)"

definition set_slow :: "string \<Rightarrow> config \<Rightarrow> config" where
  "set_slow v c =
     (if strcasecmp_eq v ''off'' then c\<lparr>cf_slowrequest_logging := SLOWREQUEST_OFF\<rparr>
      else if strcasecmp_eq v ''all'' then c\<lparr>cf_slowrequest_logging := SLOWREQUEST_ALL\<rparr>
      else c\<lparr>cf_slow_threshold_ms := atoi v\<rparr>)"

text \<open>One key; the plain settings first, then the lists and the secret.\<close>

definition set_plain :: "string \<Rightarrow> string \<Rightarrow> config \<Rightarrow> config option" where
  "set_plain key v c =
     (if key = ''state_dir'' then Some (c\<lparr>cf_state_dir := v\<rparr>)
      else if key = ''flush_defer'' then Some (cf_on_events (\<lambda>e. e\<lparr>ec_flush_defer := strcasecmp_eq v ''yes''\<rparr>) c)
      else if key = ''flush_defer_ms'' then Some (cf_on_events (\<lambda>e. e\<lparr>ec_flush_defer_ms := atoi v\<rparr>) c)
      else if key = ''background_save_ms'' then Some (cf_on_events (\<lambda>e. e\<lparr>ec_background_save_ms := atoi v\<rparr>) c)
      else if key = ''event_freq'' then Some (c\<lparr>cf_event_freq := atoi v\<rparr>)
      else if key = ''sched_freq'' then Some (cf_on_events (\<lambda>e. e\<lparr>ec_sched_freq := atoi v\<rparr>) c)
      else if key = ''sched_max'' then Some (cf_on_server (\<lambda>s. s\<lparr>sched_max := atoi v\<rparr>) c)
      else if key = ''max_system_jobs'' then Some (cf_on_server (\<lambda>s. s\<lparr>max_run_jobs := atoi v\<rparr>) c)
      else if key = ''max_jobid'' then Some (cf_on_server (\<lambda>s. s\<lparr>max_jobid := nat (uint32 (atoi v))\<rparr>) c)
      else if key = ''max_clean_job'' then Some (cf_on_server (\<lambda>s. s\<lparr>max_cleanup := nat (uint32 (atoi v))\<rparr>) c)
      else if key = ''client_listen_socket'' then Some (c\<lparr>cf_socket_path := v\<rparr>)
      else if key = ''agent_listen_port'' then Some (c\<lparr>cf_agent_port := atoi v\<rparr>)
      else if key = ''agent_listen_socket'' then Some (c\<lparr>cf_agent_socket_path := v\<rparr>)
      else if key = ''logfile'' then Some (c\<lparr>cf_logfile := Some v\<rparr>)
      else if key = ''logging_mode'' then Some (c\<lparr>cf_logging_mode := log_mode v\<rparr>)
      else if key = ''auto_cleanup'' then Some (cf_on_server (\<lambda>s. s\<lparr>auto_cleanup := atoi v\<rparr>) c)
      else if key = ''default_job_nice'' then Some (cf_on_server (\<lambda>s. s\<lparr>default_job_nice := default_nice v\<rparr>) c)
      else if key = ''slowrequest_threshold'' then Some (set_slow v c)
      else if key = ''index_tag'' then Some (cf_on_server (\<lambda>s. s\<lparr>index_tag := Some v\<rparr>) c)
      else None)"

definition set_config :: "config_env \<Rightarrow> string \<Rightarrow> string \<Rightarrow> config \<Rightarrow> fault + config" where
  "set_config e key v c =
     (case set_plain key v c of
        Some c \<Rightarrow> Inr c
      | None \<Rightarrow>
          if key = ''read_group'' then set_perms (ce_groups e) v (\<lambda>gs p. p\<lparr>g_read := gs\<rparr>) c
          else if key = ''write_group'' then set_perms (ce_groups e) v (\<lambda>gs p. p\<lparr>g_write := gs\<rparr>) c
          else if key = ''setuid_group'' then set_perms (ce_groups e) v (\<lambda>gs p. p\<lparr>g_setuid := gs\<rparr>) c
          else if key = ''self_group'' then set_perms (ce_groups e) v (\<lambda>gs p. p\<lparr>g_self := gs\<rparr>) c
          else if key = ''queue_admin'' \<or> key = ''queue_group'' then set_perms (ce_groups e) v (\<lambda>gs p. p\<lparr>g_queue := gs\<rparr>) c
          else if key = ''agents'' then Inr (cf_on_server (loadAllowedAgents v) c)
          else if key = ''secret'' then
            (case ce_secret e v of None \<Rightarrow> Inl Abort | Some h \<Rightarrow> Inr (c\<lparr>cf_secret := Some h\<rparr>))
          else if key = ''queue_acl'' then
            bindR (loadQueueACL (ce_groups e) v (cf_server c)) (\<lambda>s. Inr (c\<lparr>cf_server := s\<rparr>))
          else Inr c)"

fun config_lines :: "config_env \<Rightarrow> string list \<Rightarrow> config \<Rightarrow> fault + config" where
  "config_lines e [] c = Inr c"
| "config_lines e (l # ls) c =
     (case splitConfigLine (c_str (chomp l)) of
        None \<Rightarrow> config_lines e ls c
      | Some (key, v) \<Rightarrow> bindR (set_config e key v c) (config_lines e ls))"

text \<open>Without an allowed agent the local host is one; the access control entries are sorted last.\<close>

definition config_done :: "config_env \<Rightarrow> server \<Rightarrow> server" where
  "config_done e s =
     (let s = (if agentList s = [] then s\<lparr>agentList := [agent_zero (ce_host e)]\<rparr> else s)
      in s\<lparr>queue_acls := qsort cmp_queue_acl (queue_acls s)\<rparr>)"

definition loadConfig :: "config_env \<Rightarrow> string \<Rightarrow> fault + config" where
  "loadConfig e f = bindR (config_lines e (file_lines f) default_config) (\<lambda>c. Inr (cf_on_server (config_done e) c))"

subsection \<open>What a configuration leaves alone\<close>

definition bare_server :: "server \<Rightarrow> bool" where
  "bare_server s \<longleftrightarrow> jobTable s = [] \<and> queueTable s = [] \<and> resTable s = [] \<and> stats_jobs s = stats_zero \<and>
     defaultQueue s = None"

lemma bare_server_ok: "bare_server s \<Longrightarrow> daemon_ok s"
  by (simp add: bare_server_def daemon_ok_def server_ok_def tables_ok_def counters_ok_def stats_match_def tkeys_def
      tcount_def stat_get_def stats_zero_def deleted_ok_def default_ok_def qnames_def)

lemma loadAllowedAgents_eq:
  "loadAllowedAgents v s = s\<lparr>agentList := rev (map agent_zero (strtok SPC v)) @ agentList s\<rparr>"
proof -
  have "fold (\<lambda>h. addAgent (agent_zero h)) hs s = s\<lparr>agentList := rev (map agent_zero hs) @ agentList s\<rparr>" for hs
    by (induction hs arbitrary: s) (simp_all add: addAgent_def)
  then show ?thesis by (simp add: loadAllowedAgents_def)
qed

lemma loadQueueACL_acls:
  assumes "loadQueueACL db v s = Inr s'"
  obtains acls where "s' = s\<lparr>queue_acls := queue_acls s @ acls\<rparr>"
    "\<And>s0. loadQueueACL db v s0 = Inr (s0\<lparr>queue_acls := queue_acls s0 @ acls\<rparr>)"
  using assms that by (auto simp: loadQueueACL_def bindR_Inr_iff split: list.splits)

text \<open>Going down a chain of comparisons, forgetting the ones that failed.\<close>

lemma if_SomeE: "(if b then Some x else y) = Some z \<Longrightarrow> (b \<Longrightarrow> z = x \<Longrightarrow> Q) \<Longrightarrow> (y = Some z \<Longrightarrow> Q) \<Longrightarrow> Q"
  by (cases b) auto

lemma if_eqE: "(if b then x else y) = z \<Longrightarrow> (x = z \<Longrightarrow> Q) \<Longrightarrow> (y = z \<Longrightarrow> Q) \<Longrightarrow> Q"
  by (cases b) auto

text \<open>A plain setting changes neither the tables nor the access control entries.\<close>

lemma set_plain_frame:
  assumes "set_plain key v c = Some c'"
  shows "bare_server (cf_server c') = bare_server (cf_server c)" and "queue_acls (cf_server c') = queue_acls (cf_server c)"
    and "key \<noteq> ''queue_acl''"
proof -
  have "bare_server (cf_server c') = bare_server (cf_server c) \<and> queue_acls (cf_server c') = queue_acls (cf_server c) \<and>
      key \<noteq> ''queue_acl''"
    using assms unfolding set_plain_def
    by (elim if_SomeE) (simp_all add: cf_on_server_def cf_on_events_def set_slow_def bare_server_def)
  then show "bare_server (cf_server c') = bare_server (cf_server c)" "queue_acls (cf_server c') = queue_acls (cf_server c)"
    "key \<noteq> ''queue_acl''" by simp_all
qed

definition line_acls :: "config_env \<Rightarrow> string \<Rightarrow> queue_acl list" where
  "line_acls e l =
     (case splitConfigLine (c_str (chomp l)) of
        Some (key, v) \<Rightarrow>
          if key = ''queue_acl'' then
            (case loadQueueACL (ce_groups e) v init_server of Inr s \<Rightarrow> queue_acls s | Inl _ \<Rightarrow> []) else []
      | None \<Rightarrow> [])"

lemma set_config_frame:
  assumes "set_config e key v c = Inr c'"
  shows "bare_server (cf_server c) \<Longrightarrow> bare_server (cf_server c')"
    and "splitConfigLine (c_str (chomp l)) = Some (key, v) \<Longrightarrow>
      queue_acls (cf_server c') = queue_acls (cf_server c) @ line_acls e l"
proof -
  have "(bare_server (cf_server c) \<longrightarrow> bare_server (cf_server c')) \<and> (splitConfigLine (c_str (chomp l)) = Some (key, v) \<longrightarrow>
      queue_acls (cf_server c') = queue_acls (cf_server c) @ line_acls e l)"
  proof (cases "set_plain key v c")
    case (Some c1)
    with assms set_plain_frame [OF Some] show ?thesis by (simp add: set_config_def line_acls_def)
  next
    case None
    show ?thesis
    proof (cases "key = ''queue_acl''")
      case True
      then obtain s' where s': "loadQueueACL (ce_groups e) v (cf_server c) = Inr s'" "c' = c\<lparr>cf_server := s'\<rparr>"
        using assms None by (auto simp: set_config_def bindR_Inr_iff)
      obtain acls where acls: "s' = cf_server c\<lparr>queue_acls := queue_acls (cf_server c) @ acls\<rparr>"
        "\<And>s0. loadQueueACL (ce_groups e) v s0 = Inr (s0\<lparr>queue_acls := queue_acls s0 @ acls\<rparr>)"
        by (rule loadQueueACL_acls [OF s'(1)]) (rule that)
      then show ?thesis using True s'(2) by (simp add: bare_server_def line_acls_def init_server_def)
    next
      case False
      have "(bare_server (cf_server c) \<longrightarrow> bare_server (cf_server c')) \<and> queue_acls (cf_server c') = queue_acls (cf_server c)"
        using assms unfolding set_config_def None option.case if_not_P [OF False]
        by (elim if_eqE) (auto simp: set_perms_def bindR_Inr_iff cf_on_server_def loadAllowedAgents_eq bare_server_def
            split: option.splits)
      with False show ?thesis by (simp add: line_acls_def)
    qed
  qed
  then show "bare_server (cf_server c) \<Longrightarrow> bare_server (cf_server c')"
    "splitConfigLine (c_str (chomp l)) = Some (key, v) \<Longrightarrow>
      queue_acls (cf_server c') = queue_acls (cf_server c) @ line_acls e l" by simp_all
qed

lemma config_lines_frame:
  assumes "config_lines e ls c = Inr c'"
  shows "bare_server (cf_server c) \<Longrightarrow> bare_server (cf_server c')"
    and "queue_acls (cf_server c') = queue_acls (cf_server c) @ concat (map (line_acls e) ls)"
proof -
  have "(bare_server (cf_server c) \<longrightarrow> bare_server (cf_server c')) \<and>
      queue_acls (cf_server c') = queue_acls (cf_server c) @ concat (map (line_acls e) ls)"
    using assms
  proof (induction ls arbitrary: c)
    case (Cons l ls)
    show ?case
    proof (cases "splitConfigLine (c_str (chomp l))")
      case None
      with Cons show ?thesis by (simp add: line_acls_def)
    next
      case (Some kv)
      obtain key v where kv: "kv = (key, v)" by (cases kv)
      with Some Cons.prems obtain c1 where c1: "set_config e key v c = Inr c1" "config_lines e ls c1 = Inr c'"
        by (auto simp: bindR_Inr_iff)
      show ?thesis using set_config_frame [OF c1(1)] Cons.IH [OF c1(2)] Some kv by simp
    qed
  qed simp
  then show "bare_server (cf_server c) \<Longrightarrow> bare_server (cf_server c')"
    "queue_acls (cf_server c') = queue_acls (cf_server c) @ concat (map (line_acls e) ls)" by simp_all
qed

lemma loadConfig_frame:
  assumes "loadConfig e f = Inr c"
  shows "bare_server (cf_server c)"
    and "queue_acls (cf_server c) = qsort cmp_queue_acl (concat (map (line_acls e) (file_lines f)))"
proof -
  obtain c1 where c1: "config_lines e (file_lines f) default_config = Inr c1" "c = cf_on_server (config_done e) c1"
    using assms by (auto simp: loadConfig_def bindR_Inr_iff)
  have "bare_server (cf_server default_config)" "queue_acls (cf_server default_config) = []"
    by (simp_all add: default_config_def init_server_def bare_server_def)
  with config_lines_frame [OF c1(1)] show "bare_server (cf_server c)"
    "queue_acls (cf_server c) = qsort cmp_queue_acl (concat (map (line_acls e) (file_lines f)))"
    by (simp_all add: c1(2) cf_on_server_def config_done_def Let_def bare_server_def)
qed

subsection \<open>Deny entries win\<close>

interpretation acl_order: comparator "\<lambda>_. True" cmp_queue_acl
  by unfold_locales (auto simp: cmp_queue_acl_def of_bool_def split: if_splits)

lemma acls_last_allow:
  assumes "sorted_wrt (\<lambda>a b. cmp_queue_acl a b \<le> 0) d"
  shows "d \<noteq> [] \<and> acl_allow (last d) \<longleftrightarrow> (\<exists>a \<in> set d. acl_allow a) \<and> (\<forall>a \<in> set d. acl_allow a)"
  using assms
proof (induction d rule: rev_induct)
  case (snoc a d)
  have "acl_allow b" if "b \<in> set d" "acl_allow a" for b
    using snoc.prems that by (auto simp: sorted_wrt_append cmp_queue_acl_def of_bool_def split: if_splits)
  then show ?case by auto
qed simp

lemma loaded_acl_bit:
  assumes "loadConfig e f = Inr c" and "queue_acls s = queue_acls (cf_server c)"
    and "findQueue s (q_name q) = None" and "q_permissions q = []" and "i < 32"
  obtains q' where "findQueue (addQueue fnm q dirty s) (q_name q) = Some q'"
    "\<And>g. bit (perm_of (q_permissions q') g) i \<longleftrightarrow>
       (\<exists>l \<in> set (file_lines f). \<exists>a \<in> set (line_acls e l). acl_allow a \<and> acl_decides fnm (q_name q) g i a) \<and>
       \<not> (\<exists>l \<in> set (file_lines f). \<exists>a \<in> set (line_acls e l). \<not> acl_allow a \<and> acl_decides fnm (q_name q) g i a)"
proof -
  let ?acls = "concat (map (line_acls e) (file_lines f))"
  have acls: "queue_acls s = qsort cmp_queue_acl ?acls" using assms(2) loadConfig_frame(2) [OF assms(1)] by simp
  obtain q' where q': "findQueue (addQueue fnm q dirty s) (q_name q) = Some q'"
    "\<And>g. bit (perm_of (q_permissions q') g) i \<longleftrightarrow>
      (let d = filter (acl_decides fnm (q_name q) g i) (queue_acls s) in d \<noteq> [] \<and> acl_allow (last d))"
    using queue_acl_last_wins [OF assms(3-5), of fnm dirty] by blast
  have "sorted_wrt (\<lambda>a b. cmp_queue_acl a b \<le> 0) (queue_acls s)" unfolding acls by (rule acl_order.sorted_qsort) simp
  then have "bit (perm_of (q_permissions q') g) i \<longleftrightarrow>
      (\<exists>a \<in> set (filter (acl_decides fnm (q_name q) g i) (queue_acls s)). acl_allow a) \<and>
      (\<forall>a \<in> set (filter (acl_decides fnm (q_name q) g i) (queue_acls s)). acl_allow a)" for g
    unfolding q'(2) Let_def by (intro acls_last_allow sorted_wrt_filter)
  with q'(1) show ?thesis by (intro that [OF q'(1)]) (auto simp: acls)
qed


definition demo_config_env :: config_env where
  "demo_config_env = \<lparr>ce_groups = (\<lambda>n. if n = ''ops'' then Some 7 else None), ce_host = ''node'', ce_secret = (\<lambda>_. None)\<rparr>"

definition demo_rules :: "string list" where
  "demo_rules = [''queue_acl deny control * ops'', ''queue_acl allow control,limit * ops'']"

lemma demo_rules_split:
  "splitConfigLine (c_str ''queue_acl deny control * ops'') = Some (''queue_acl'', ''deny control * ops'')"
  "splitConfigLine (c_str ''queue_acl allow control,limit * ops'') = Some (''queue_acl'', ''allow control,limit * ops'')"
  by (simp_all add: splitConfigLine_def removeWhitespace_def is_ws_def c_str_def)

lemma demo_words:
  "\<not> strcasecmp_eq ''deny'' ''ALLOW''" "strcasecmp_eq ''deny'' ''DENY''" "strcasecmp_eq ''allow'' ''ALLOW''"
  "strcasecmp_eq ''control'' ''control''" "\<not> strcasecmp_eq ''limit'' ''control''" "strcasecmp_eq ''limit'' ''limit''"
  by code_simp+

lemma demo_rules_load:
  "loadQueueACL (ce_groups demo_config_env) ''deny control * ops'' s =
     Inr (s\<lparr>queue_acls := queue_acls s @ [acl_of False 1 [7] ''*'']\<rparr>)"
  "loadQueueACL (ce_groups demo_config_env) ''allow control,limit * ops'' s =
     Inr (s\<lparr>queue_acls := queue_acls s @ [acl_of True 3 [7] ''*'']\<rparr>)"
  by (simp_all add: loadQueueACL_def strtok.simps acl_kind_def demo_words getGroup_def demo_config_env_def)

lemma config_acl_line:
  assumes "splitConfigLine (c_str l) = Some (''queue_acl'', v)" and "\<And>s. loadQueueACL (ce_groups e) v s = Inr (g s)"
  shows "config_lines e ((l @ [NL]) # ls) c = config_lines e ls (c\<lparr>cf_server := g (cf_server c)\<rparr>)"
    and "line_acls e (l @ [NL]) = queue_acls (g init_server)"
proof -
  have "set_plain ''queue_acl'' v c = None" by (simp add: set_plain_def)
  then show "config_lines e ((l @ [NL]) # ls) c = config_lines e ls (c\<lparr>cf_server := g (cf_server c)\<rparr>)"
    by (simp add: assms set_config_def)
  show "line_acls e (l @ [NL]) = queue_acls (g init_server)" by (simp add: assms line_acls_def)
qed

lemmas demo_rule_lines = config_acl_line [OF demo_rules_split(1) demo_rules_load(1)] config_acl_line [OF demo_rules_split(2) demo_rules_load(2)]

lemma demo_config_loads:
  obtains c where "loadConfig demo_config_env (file_text demo_rules) = Inr c"
    "concat (map (line_acls demo_config_env) (file_lines (file_text demo_rules))) = [acl_of False 1 [7] ''*'', acl_of True 3 [7] ''*'']"
proof -
  have ls: "file_lines (file_text demo_rules) = [''queue_acl deny control * ops'' @ [NL], ''queue_acl allow control,limit * ops'' @ [NL]]"
    using file_lines_text [of demo_rules] by (simp add: demo_rules_def)
  have "\<exists>c. loadConfig demo_config_env (file_text demo_rules) = Inr c"
    unfolding loadConfig_def ls demo_rule_lines by simp
  moreover have "concat (map (line_acls demo_config_env) (file_lines (file_text demo_rules))) =
      [acl_of False 1 [7] ''*'', acl_of True 3 [7] ''*'']"
    unfolding ls list.map demo_rule_lines by (simp add: init_server_def)
  ultimately show ?thesis using that by blast
qed


text \<open>The place of the rules in the file has no effect on what they grant.\<close>

corollary queue_acl_order:
  assumes "loadConfig e f1 = Inr c1" and "loadConfig e f2 = Inr c2" and "set (file_lines f1) = set (file_lines f2)"
    and "queue_acls s1 = queue_acls (cf_server c1)" and "queue_acls s2 = queue_acls (cf_server c2)"
    and "findQueue s1 (q_name q) = None" and "findQueue s2 (q_name q) = None" and "q_permissions q = []" and "i < 32"
  obtains q1 q2 where "findQueue (addQueue fnm q dirty s1) (q_name q) = Some q1"
    "findQueue (addQueue fnm q dirty s2) (q_name q) = Some q2"
    "bit (perm_of (q_permissions q1) g) i = bit (perm_of (q_permissions q2) g) i"
proof -
  let ?P = "\<lambda>f. (\<exists>l \<in> set (file_lines f). \<exists>a \<in> set (line_acls e l). acl_allow a \<and> acl_decides fnm (q_name q) g i a) \<and>
       \<not> (\<exists>l \<in> set (file_lines f). \<exists>a \<in> set (line_acls e l). \<not> acl_allow a \<and> acl_decides fnm (q_name q) g i a)"
  have granted: "\<exists>q'. findQueue (addQueue fnm q dirty s) (q_name q) = Some q' \<and> bit (perm_of (q_permissions q') g) i = ?P f"
    if "loadConfig e f = Inr c" "queue_acls s = queue_acls (cf_server c)" "findQueue s (q_name q) = None" for f c s
    by (rule loaded_acl_bit [OF that assms(8,9), of fnm dirty]) blast
  have "?P f1 = ?P f2" unfolding assms(3) ..
  with granted [OF assms(1,4,6)] granted [OF assms(2,5,7)] show ?thesis by (elim exE conjE) (rule that, assumption+, simp)
qed

subsection \<open>Starting from a configuration and state files\<close>

text \<open>C30. A daemon that comes up is consistent, whatever its configuration and state files hold: when
  the configuration is accepted and loading the files succeeds, every job has its queue, the ids
  and names are distinct and every counter of the server and of each queue is the number of jobs
  it counts. A file that refers to a missing queue or resource ends the daemon instead.\<close>

theorem configured_start_consistent:
  assumes "loadConfig e f = Inr c"
    and "distinct (map (file_stem \<circ> fst) (dk_queues dk))" and "distinct (map (file_stem \<circ> fst) (dk_resources dk))"
    and "load_state fnm dk (cf_server c) = Inr s"
  shows "daemon_ok s"
  using load_state_ok [OF _ _ _ assms(2-4)] bare_server_ok loadConfig_frame(1) [OF assms(1)] by (simp add: bare_server_def)

theorem configured_start_consistent_witness:
  "\<exists>t c s'. let j = job_zero\<lparr>j_jobid := 7, j_queue := ''q'', j_state := JERS_JOB_RUNNING\<rparr>;
            q = queue_zero\<lparr>q_name := ''q'', q_host := ''node''\<rparr>
     in loadConfig demo_config_env (file_text demo_rules) = Inr c \<and> stateSaveJob 0 j = Inr t \<and>
        load_state (\<lambda>_ _. False) \<lparr>dk_jobid = None, dk_queues = [(queue_path ''/s'' ''q'', stateSaveQueue 0 init_server q)],
          dk_resources = [], dk_jobs = [(job_path ''/s'' 7, t)], dk_journals = []\<rparr> (cf_server c) = Inr s' \<and> daemon_ok s'"
proof -
  obtain c where c: "loadConfig demo_config_env (file_text demo_rules) = Inr c" by (rule demo_config_loads)
  define j where "j = job_zero\<lparr>j_jobid := 7, j_queue := ''q'', j_state := JERS_JOB_RUNNING\<rparr>"
  define q where "q = queue_zero\<lparr>q_name := ''q'', q_host := ''node''\<rparr>"
  have ids: "j_jobid j = 7" "q_name q = ''q''" by (simp_all add: j_def q_def)
  obtain t where t: "stateSaveJob 0 j = Inr t" by (simp add: stateSaveJob_def j_def job_zero_def)
  let ?dk = "\<lparr>dk_jobid = None, dk_queues = [(queue_path ''/s'' ''q'', stateSaveQueue 0 init_server q)],
          dk_resources = [], dk_jobs = [(job_path ''/s'' 7, t)], dk_journals = []\<rparr>"
  have "queue_savable q" by (simp add: q_def queue_zero_def queue_savable_def in64_def in32_def bare_def)
  then have lq: "stateLoadQueue (queue_path ''/s'' ''q'') (stateSaveQueue 0 init_server q) = Inr (persisted_queue init_server q)"
    using queue_file_loads [of q "''/s''" 0 init_server] by (simp add: ids)
  let ?s = "addQueue (\<lambda>_ _. False) (persisted_queue init_server q) False (stateInit ?dk (cf_server c))"
  have "findQueue ?s ''q'' \<noteq> None" using names_addQueue by (simp add: persisted_queue_def ids)
  then have "job_savable ?s j"
    by (simp add: job_savable_def job_in_range_def j_def job_zero_def rusage_zero_def usage_in_range_def in32_def in64_def inu32_def)
  then have "stateLoadJob ?s (job_path ''/s'' 7) t = Inr (persisted j)"
    using job_file_loads [of ?s j 0 "''/s''"] t by (simp add: ids)
  then obtain s' where s': "load_state (\<lambda>_ _. False) ?dk (cf_server c) = Inr s'"
    using lq by (simp add: load_state_def)
  have "daemon_ok s'"
    by (rule configured_start_consistent [OF c _ _ s']) simp_all
  with c t s' show ?thesis unfolding Let_def j_def [symmetric] q_def [symmetric] by blast
qed

subsection \<open>The secret\<close>

lemma read_secret_bytes:
  "read_secret n bytes rs = Some b \<Longrightarrow> b = bytes @ take n (concat rs) \<and> n \<le> length (concat rs)"
proof (induction n bytes rs rule: read_secret.induct)
  case (1 n bytes rs)
  show ?case
  proof (cases "n = 0 \<or> rs = []")
    case True
    with 1(2) show ?thesis by (auto simp: read_secret.simps [of n] split: if_splits)
  next
    case False
    then obtain r rs' where rs: "rs = r # rs'" by (cases rs) auto
    with False 1(2) have ne: "r \<noteq> []" and next_: "read_secret (n - length (take n r)) (bytes @ take n r) rs' = Some b"
      by (auto simp: read_secret.simps [of n] split: if_splits)
    from 1(1) [OF _ rs ne next_] False show ?thesis by (auto simp: rs min_def)
  qed
qed

text \<open>A secret is only taken from a file that nobody but the user of the daemon (or root) could have
  written or read, and the key is the hash of the whole file.\<close>

theorem loadSecret_private:
  assumes "loadSecret uid gid sha256 (Some f) = Some h"
  shows "(uid = 0 \<or> uid = sf_uid f \<and> gid = sf_gid f \<and> sf_mode f AND 0x3F = 0) \<and> sf_size f \<le> length (concat (sf_reads f)) \<and>
    sha256 (take (sf_size f) (concat (sf_reads f))) = Some h"
proof -
  obtain b where b: "read_secret (sf_size f) [] (sf_reads f) = Some b" "sha256 b = Some h"
    using assms by (auto simp: loadSecret_def Option.bind_eq_Some_conv split: if_splits)
  from assms have "uid = 0 \<or> uid = sf_uid f \<and> gid = sf_gid f \<and> sf_mode f AND 0x3F = 0"
    by (auto simp: loadSecret_def split: if_splits)
  with b read_secret_bytes [OF b(1)] show ?thesis by simp
qed

lemma generateNonce_length:
  "generateNonce n bytes rs = Some (Some t) \<Longrightarrow> length t = 2 * (n + length bytes)"
proof (induction n bytes rs rule: generateNonce.induct)
  case (1 n bytes rs)
  show ?case
  proof (cases "n = 0 \<or> rs = []")
    case True
    with 1(2) show ?thesis by (auto simp: generateNonce.simps [of n] length_hexEncode split: if_splits)
  next
    case False
    then obtain r rs' where rs: "rs = Some r # rs'"
      using 1(2) by (cases rs; cases "hd rs") (auto simp: generateNonce.simps [of n])
    with False 1(2) have "generateNonce (n - length (take n r)) (bytes @ take n r) rs' = Some (Some t)"
      by (simp add: generateNonce.simps [of n])
    from 1(1) [OF _ rs refl this] False show ?thesis by (simp add: min_def split: if_splits)
  qed
qed

end
