(* ===== verification/Agent_Job.thy ===== *)
theory Agent_Job
  imports Users Config
begin

section \<open>Agent\_Job: the process around a job, jers\_agentd.c\<close>

text \<open>
  The part of \<open>src/src/jers_agentd.c\<close> that runs in the forked process of a job: the temporary script,
  the log files, dropping of privileges, environment and arguments of the job, the wait for its end,
  the signal handler, and the adopt file a restarted agent finds it by. Results of system calls
  are arguments; the file system of the log files is a map from names to contents.
\<close>

unbundle bit_operations_syntax

abbreviation (input) NULc :: char where "NULc \<equiv> CHR 0x00"
abbreviation (input) JERS_FAIL_PID :: int where "JERS_FAIL_PID \<equiv> 2"
abbreviation (input) JERS_FAIL_LOGERR :: int where "JERS_FAIL_LOGERR \<equiv> 3"
abbreviation (input) JERS_FAIL_TMPSCRIPT :: int where "JERS_FAIL_TMPSCRIPT \<equiv> 4"
abbreviation (input) JERS_FAIL_START :: int where "JERS_FAIL_START \<equiv> 5"
abbreviation (input) JERS_FAIL_INIT :: int where "JERS_FAIL_INIT \<equiv> 6"
abbreviation (input) JERS_FAIL_UNKNOWN :: int where "JERS_FAIL_UNKNOWN \<equiv> 8"

record jersJobSpawn =
  sp_jobid :: nat
  sp_name :: "string option"
  sp_queue :: "string option"
  sp_shell :: "string option"
  sp_wrapper :: "string option"
  sp_temp_script :: "string option"
  sp_pre_command :: "string option"
  sp_post_command :: "string option"
  sp_uid :: int
  sp_nice :: int
  sp_flags :: int
  sp_argv :: "string option list"
  sp_envs :: "string option list"
  sp_resources :: "string option list"
  sp_stdout :: "string option"
  sp_stderr :: "string option"

text \<open>\<open>%s\<close> of a NULL pointer in the GNU library.\<close>

definition pr_str :: "string option \<Rightarrow> string" where
  "pr_str s = (case s of Some t \<Rightarrow> t | None \<Rightarrow> ''(null)'')"

subsection \<open>Configuration of the agent\<close>

record agent_config =
  ac_daemon_socket_path :: string
  ac_daemon_host :: "string option"
  ac_daemon_port :: int
  ac_tmpdir :: string

datatype config_file = NoFile | NoAccess | ConfigFile string

definition agent_setting :: "(string \<Rightarrow> bool) \<Rightarrow> string \<Rightarrow> string \<Rightarrow> agent_config \<Rightarrow> agent_config" where
  "agent_setting exists key v c =
     (if key = ''daemon_socket'' then c\<lparr>ac_daemon_socket_path := v\<rparr>
      else if key = ''daemon_port'' then c\<lparr>ac_daemon_port := atoi v\<rparr>
      else if key = ''daemon_host'' then
        c\<lparr>ac_daemon_host := Some v, ac_daemon_port := (if ac_daemon_port c = 0 then 7000 else ac_daemon_port c)\<rparr>
      else if key = ''default_tmpdir'' then (if exists v then c\<lparr>ac_tmpdir := v\<rparr> else c)
      else c)"

definition agent_config_line :: "(string \<Rightarrow> bool) \<Rightarrow> string \<Rightarrow> agent_config \<Rightarrow> agent_config" where
  "agent_config_line exists l c =
     (case splitConfigLine (c_str (takeWhile (\<lambda>c. c \<noteq> NL) l)) of
        None \<Rightarrow> c
      | Some (key, v) \<Rightarrow> agent_setting exists key v c)"

definition loadConfig_agentd :: "(string \<Rightarrow> bool) \<Rightarrow> config_file \<Rightarrow> agent_config \<Rightarrow> fault + agent_config" where
  "loadConfig_agentd exists f c =
     (let c = c\<lparr>ac_daemon_socket_path := ''/run/jers/agent.sock'', ac_tmpdir := ''/tmp''\<rparr>
      in case f of
           NoFile \<Rightarrow> Inr c
         | NoAccess \<Rightarrow> Inl Abort
         | ConfigFile t \<Rightarrow> Inr (fold (agent_config_line exists) (file_lines t) c))"

subsection \<open>Log files\<close>

text \<open>
  \<open>open_logfile\<close> on a file system no one else changes meanwhile. \<open>stamp k\<close> is the time as 14 digits
  at the \<open>k\<close>-th attempt. \<open>lf_open\<close>, \<open>lf_link\<close> and \<open>lf_unlink\<close> tell which calls fail for a reason
  of their own (no permission, no space). The loop around \<open>link\<close> makes 999 calls at most.
\<close>

record log_env =
  lf_stamp :: "nat \<Rightarrow> string"
  lf_open :: bool
  lf_link :: bool
  lf_unlink :: bool

type_synonym files = "string \<Rightarrow> string option"

datatype renamed = Linked files | NotLinked | LinkFailed

fun rename_loop :: "bool \<Rightarrow> string \<Rightarrow> string \<Rightarrow> string \<Rightarrow> nat \<Rightarrow> files \<Rightarrow> renamed" where
  "rename_loop denied file newfilename retry 0 fs = NotLinked"
| "rename_loop denied file newfilename retry (Suc n) fs =
     (if fs file = None \<or> fs newfilename \<noteq> None then rename_loop denied file retry retry n fs
      else if denied then LinkFailed
      else Linked (fs(newfilename := fs file)))"

definition logname :: "log_env \<Rightarrow> string \<Rightarrow> nat \<Rightarrow> string" where
  "logname e file k = file @ ''_'' @ lf_stamp e k"

definition logname_retry :: "log_env \<Rightarrow> string \<Rightarrow> nat \<Rightarrow> string" where
  "logname_retry e file k = logname e file k @ ''_'' @ int64tostr (int k)"

function open_logfile :: "log_env \<Rightarrow> string \<Rightarrow> nat \<Rightarrow> files \<Rightarrow> fault + bool \<times> files" where
  "open_logfile e file attempts fs =
     (if fs file = None then (if lf_open e then Inr (False, fs) else Inr (True, fs(file := Some [])))
      else if Suc attempts > 10 then Inr (False, fs)
      else if length (logname_retry e file (Suc attempts)) + 1 > length file + 20 then Inl Overflow
      else (case rename_loop (lf_link e) file (logname e file (Suc attempts)) (logname_retry e file (Suc attempts)) 999 fs of
              LinkFailed \<Rightarrow> Inr (False, fs)
            | NotLinked \<Rightarrow> open_logfile e file (Suc attempts) fs
            | Linked fs \<Rightarrow>
                if lf_unlink e then Inr (False, fs)
                else open_logfile e file (Suc attempts) (fs(file := None))))"
  by pat_completeness auto
termination by (relation "measure (\<lambda>(e, file, attempts, fs). 11 - attempts)") auto

declare open_logfile.simps [simp del]

subsection \<open>The temporary script\<close>

text \<open>The first word is the command itself, the others are put in double quotes as they are.\<close>

definition script_text :: "jersJobSpawn \<Rightarrow> cached_user \<Rightarrow> fault + string" where
  "script_text j u =
     (case sp_argv j of
        Some a # as \<Rightarrow>
          Inr (''#!'' @ (case sp_shell j of Some s \<Rightarrow> s | None \<Rightarrow> cu_shell u) @ [NL] @
            (case sp_pre_command j of Some c \<Rightarrow> c @ [NL] | None \<Rightarrow> []) @ a @
            concat (map (\<lambda>x. SPC # QUOTE # pr_str x @ [QUOTE]) as) @
            (case sp_post_command j of Some c \<Rightarrow> NL # NL # c @ [NL] | None \<Rightarrow> []))
      | _ \<Rightarrow> Inl NullPointer)"

definition temp_script_name :: "nat \<Rightarrow> string" where
  "temp_script_name jobid = ''/run/jers/tmp/jers_'' @ int64tostr (int jobid)"

subsection \<open>The adopt file\<close>

definition adoptFilename :: "nat \<Rightarrow> string" where
  "adoptFilename jobid = ''/run/jers/adopt/.'' @ int64tostr (int32 (int jobid)) @ ''.adopt''"

definition createAdoptFile :: "int \<Rightarrow> int \<Rightarrow> int \<Rightarrow> string" where
  "createAdoptFile pid jobPid start_time =
     int64tostr pid @ [SPC] @ int64tostr jobPid @ [SPC] @ int64tostr start_time @ [NL]"

text \<open>
  At most 64 bytes of the file are read; behind them the buffer holds what the stack held, \<open>junk\<close>.
\<close>

definition loadAdoptFile :: "string \<Rightarrow> string option \<Rightarrow> (int \<times> int \<times> int) option" where
  "loadAdoptFile junk f =
     bindO f (\<lambda>t.
       let line = take 64 t
       in if line = [] \<or> last line \<noteq> NL then None
          else bindO (scan_number (line @ junk)) (\<lambda>(pid, t).
               bindO (scan_number (scan_blank t)) (\<lambda>(jobPid, t).
               bindO (scan_number (scan_blank t)) (\<lambda>(start_time, t).
               Some (int32 pid, int32 jobPid, start_time)))))"

subsection \<open>Starting the job\<close>

text \<open>
  What the calls before the \<open>fork\<close> return. The process has to be an ordinary user's before it opens
  a log file.
\<close>

record launch_env =
  le_script :: bool
  le_setgroups :: bool
  le_setgid :: bool
  le_setuid :: bool
  le_getuid :: int
  le_stdout :: bool
  le_stderr :: bool
  le_stdin :: bool
  le_home :: bool
  le_default_dir :: bool
  le_fork :: bool

definition shares_log :: "jersJobSpawn \<Rightarrow> bool" where
  "shares_log j \<longleftrightarrow> (case sp_stderr j of None \<Rightarrow> True | Some e \<Rightarrow> sp_stdout j = Some e)"

text \<open>\<open>launch_status\<close> when the job could not be started, 0 when the job process was forked.\<close>

definition launch_job :: "launch_env \<Rightarrow> jersJobSpawn \<Rightarrow> cached_user \<Rightarrow> int" where
  "launch_job e j u =
     (if sp_wrapper j = None \<and> \<not> le_script e then JERS_FAIL_TMPSCRIPT
      else if cu_uid u = 0 then JERS_FAIL_INIT
      else if \<not> le_setgroups e then JERS_FAIL_INIT
      else if \<not> le_setgid e then JERS_FAIL_INIT
      else if \<not> le_setuid e then JERS_FAIL_INIT
      else if le_getuid e = 0 then JERS_FAIL_INIT
      else if \<not> le_stdout e then JERS_FAIL_LOGERR
      else if \<not> shares_log j \<and> \<not> le_stderr e then JERS_FAIL_LOGERR
      else if \<not> le_stdin e then JERS_FAIL_INIT
      else if \<not> le_home e \<and> \<not> le_default_dir e then JERS_FAIL_INIT
      else if \<not> le_fork e then JERS_FAIL_START
      else 0)"

definition env_var :: "string \<Rightarrow> string \<Rightarrow> string" where
  "env_var name v = name @ ''='' @ v"

text \<open>
  The variables the agent adds behind those of the user, in the order the code writes them.
\<close>

fun numbered :: "string \<Rightarrow> nat \<Rightarrow> string option list \<Rightarrow> string list" where
  "numbered name i [] = []"
| "numbered name i (x # xs) = env_var (name @ int64tostr (int i)) (pr_str x) # numbered name (Suc i) xs"

definition jers_vars :: "jersJobSpawn \<Rightarrow> string list" where
  "jers_vars j =
     [env_var ''JERS_JOBID'' (int64tostr (int32 (int (sp_jobid j)))),
      env_var ''JERS_QUEUE'' (pr_str (sp_queue j)),
      env_var ''JERS_JOBNAME'' (pr_str (sp_name j)),
      env_var ''JERS_STDOUT'' (case sp_stdout j of Some f \<Rightarrow> f | None \<Rightarrow> ''/dev/null''),
      env_var ''JERS_STDERR'' (case sp_stderr j of Some f \<Rightarrow> f
         | None \<Rightarrow> (case sp_stdout j of Some f \<Rightarrow> f | None \<Rightarrow> ''/dev/null'')),
      env_var ''JERS_ARGC'' (int64tostr (int (length (sp_argv j))))] @
     numbered ''JERS_ARGV'' 0 (sp_argv j) @
     [env_var ''JERS_RESCOUNT'' (int64tostr (int (length (sp_resources j))))] @
     numbered ''JERS_RES'' 0 (sp_resources j)"

text \<open>
  The array of the environment: \<open>capacity\<close> slots, of which \<open>slots\<close> are filled. Storing at the end
  needs a free slot, and so does the final NULL. The first variable of the user moves to the end
  to make room for \<open>TMPDIR\<close>. The second component is the array up to that NULL.
\<close>

fun push_all :: "nat \<Rightarrow> string option list \<Rightarrow> string option list \<Rightarrow> fault + string option list" where
  "push_all capacity slots [] = Inr slots"
| "push_all capacity slots (x # xs) =
     (if capacity \<le> length slots then Inl Overflow else push_all capacity (slots @ [x]) xs)"

definition env_capacity :: "jersJobSpawn \<Rightarrow> nat \<Rightarrow> nat \<Rightarrow> nat" where
  "env_capacity j env_count env_size =
     (let to_add = int32 (10 + int (length (sp_argv j)) + int (length (sp_envs j)) + int (length (sp_resources j)))
      in if to_add \<ge> int env_size - int env_count then nat (int env_count + to_add + 1) else env_size)"

definition tmpdir_first :: "string \<Rightarrow> string list \<Rightarrow> string option list" where
  "tmpdir_first tmpdir envs =
     Some (env_var ''TMPDIR'' tmpdir) # map Some (case envs of [] \<Rightarrow> [] | v # vs \<Rightarrow> vs @ [v])"

definition job_environment :: "string \<Rightarrow> jersJobSpawn \<Rightarrow> nat \<Rightarrow> string list \<Rightarrow> fault + string list" where
  "job_environment tmpdir j env_size envs =
     (let capacity = env_capacity j (length envs) env_size
      in if capacity \<le> length envs then Inl Overflow
         else bindR (push_all capacity (tmpdir_first tmpdir envs) (sp_envs j @ map Some (jers_vars j))) (\<lambda>slots.
              if capacity \<le> length slots then Inl Overflow
              else Inr (map the (takeWhile (\<lambda>x. x \<noteq> None) slots))))"

text \<open>The argument vector has room for \<open>argc + 3\<close> pointers, the final NULL among them.\<close>

definition job_argv :: "jersJobSpawn \<Rightarrow> cached_user \<Rightarrow> fault + string list" where
  "job_argv j u =
     bindR (push_all (length (sp_argv j) + 3) []
       (Some (case sp_shell j of Some s \<Rightarrow> s | None \<Rightarrow> cu_shell u) #
        (case sp_wrapper j of Some w \<Rightarrow> Some w # sp_argv j | None \<Rightarrow> [sp_temp_script j]) @ [None])) (\<lambda>av.
     Inr (map the (takeWhile (\<lambda>x. x \<noteq> None) av)))"

subsection \<open>Waiting for the job\<close>

text \<open>
  \<open>wait4\<close> fails with \<open>EINTR\<close>, after which the signal handler may have set \<open>killed\<close>, or for another
  reason, or returns a wait status and the resource usage.
\<close>

datatype wait_event = WaitIntr bool | WaitError | WaitDone int rusage

datatype wait_end = Reaped int rusage | KilledFirst | WaitFails | StillWaiting

fun wait_job :: "wait_event list \<Rightarrow> wait_end" where
  "wait_job [] = StillWaiting"
| "wait_job (WaitIntr killed # es) = (if killed then KilledFirst else wait_job es)"
| "wait_job (WaitError # es) = WaitFails"
| "wait_job (WaitDone rc ru # es) = Reaped rc ru"

text \<open>The second wait, after the last process of the group is gone, is repeated whatever happens.\<close>

fun reap_killed :: "wait_event list \<Rightarrow> wait_end" where
  "reap_killed [] = StillWaiting"
| "reap_killed (WaitDone rc ru # es) = Reaped rc ru"
| "reap_killed (_ # es) = reap_killed es"

text \<open>The macros of \<open>sys/wait.h\<close>, on the status as a non-negative integer.\<close>

definition WIFEXITED :: "int \<Rightarrow> bool" where "WIFEXITED rc \<longleftrightarrow> rc mod 128 = 0"
definition WEXITSTATUS :: "int \<Rightarrow> int" where "WEXITSTATUS rc = (rc div 256) mod 256"
definition WTERMSIG :: "int \<Rightarrow> int" where "WTERMSIG rc = rc mod 128"
definition WIFSIGNALED :: "int \<Rightarrow> bool" where "WIFSIGNALED rc \<longleftrightarrow> rc mod 128 \<noteq> 0 \<and> rc mod 128 \<noteq> 127"

definition flagged :: "int \<Rightarrow> flags \<Rightarrow> int" where
  "flagged v f = uint ((of_int v :: flags) OR f)"

text \<open>The code sent to the agent, the one shown in the log, and the signal.\<close>

definition completion_codes :: "int \<Rightarrow> int \<times> int \<times> int" where
  "completion_codes rc =
     (if WIFEXITED rc then (flagged (WEXITSTATUS rc) 0, WEXITSTATUS rc, 0)
      else if WIFSIGNALED rc then (flagged (WTERMSIG rc) 0x2000000, 128 + WTERMSIG rc, WTERMSIG rc)
      else (0, 0, 0))"

text \<open>Leftover processes of the group of a killed job, from the lines of \<open>/proc/*/stat\<close>.\<close>

definition upto_last :: "char \<Rightarrow> string \<Rightarrow> string option" where
  "upto_last c t = (if c \<in> set t then Some (rev (tl (dropWhile (\<lambda>x. x \<noteq> c) (rev t)))) else None)"

definition behind_last :: "char \<Rightarrow> string \<Rightarrow> string" where
  "behind_last c t = rev (takeWhile (\<lambda>x. x \<noteq> c) (rev t))"

definition stat_process :: "int \<Rightarrow> int \<Rightarrow> string \<Rightarrow> (int \<times> int \<times> int \<times> string) option" where
  "stat_process job_pid target_pgrp l =
     (if CHR ''('' \<notin> set l then None
      else bindO (upto_last (CHR '')'') l) (\<lambda>upto.
           case scan_blank (behind_last (CHR '')'') l) of
             [] \<Rightarrow> None
           | _ # t \<Rightarrow>
               bindO (scan_number (scan_blank t)) (\<lambda>(ppid, t).
               bindO (scan_number (scan_blank t)) (\<lambda>(pgrp, t).
               let pid = atoi l
               in if int32 pgrp \<noteq> target_pgrp \<or> pid = job_pid then None
                  else Some (pid, int32 ppid, int32 pgrp,
                    drop 1 (dropWhile (\<lambda>x. x \<noteq> CHR ''('') (if CHR ''('' \<in> set upto then upto else l)))))))"

definition print_processgroup :: "int \<Rightarrow> int \<Rightarrow> string list \<Rightarrow> (int \<times> int \<times> int \<times> string) list" where
  "print_processgroup job_pid target_pgrp stats =
     concat (map (\<lambda>l. case stat_process job_pid target_pgrp l of Some p \<Rightarrow> [p] | None \<Rightarrow> []) stats)"

subsection \<open>Signals of a job\<close>

text \<open>The table of signal names with the numbers of Linux.\<close>

definition sig_names :: "(string \<times> int) list" where
  "sig_names =
     [(''SIGHUP'', 1), (''SIGINT'', 2), (''SIGQUIT'', 3), (''SIGILL'', 4), (''SIGTRAP'', 5), (''SIGABRT'', 6),
      (''SIGBUS'', 7), (''SIGFPE'', 8), (''SIGKILL'', 9), (''SIGUSR1'', 10), (''SIGSEGV'', 11), (''SIGUSR2'', 12),
      (''SIGPIPE'', 13), (''SIGALRM'', 14), (''SIGTERM'', 15), (''SIGSTKFLT'', 16), (''SIGCHLD'', 17), (''SIGCONT'', 18),
      (''SIGSTOP'', 19), (''SIGTSTP'', 20), (''SIGTTIN'', 21), (''SIGTTOU'', 22), (''SIGURG'', 23), (''SIGXCPU'', 24),
      (''SIGXFSZ'', 25), (''SIGVTALRM'', 26), (''SIGPROF'', 27), (''SIGWINCH'', 28), (''SIGIO'', 29), (''SIGPWR'', 30),
      (''SIGSYS'', 31)]"

fun sig_name_in :: "(string \<times> int) list \<Rightarrow> int \<Rightarrow> string option" where
  "sig_name_in [] n = None"
| "sig_name_in ((name, k) # t) n = (if k = n then Some name else sig_name_in t n)"

definition getSignalName :: "int \<Rightarrow> string option" where
  "getSignalName n = sig_name_in sig_names n"

fun sig_number_in :: "(string \<times> int) list \<Rightarrow> string \<Rightarrow> int" where
  "sig_number_in [] s = -1"
| "sig_number_in ((name, k) # t) s = (if strcasecmp_eq name s then k else sig_number_in t s)"

definition getSignalNumber :: "string \<Rightarrow> int" where
  "getSignalNumber s = sig_number_in sig_names s"

text \<open>
  The payload of the agent's signal: the user and the number as a \<open>char\<close>. \<open>Delivered\<close> tells what the
  handler writes to the log of the job, and the process group and signal it passes on if the job runs.
\<close>

abbreviation (input) SIGTERMc :: int where "SIGTERMc \<equiv> 15"
abbreviation (input) SIGKILLJOB :: int where "SIGKILLJOB \<equiv> 35"

record job_signal =
  jsg_uid :: int
  jsg_signum :: int

datatype delivery = Ignored | Delivered string "(int \<times> int) option"

definition job_sighandler :: "int \<Rightarrow> job_signal \<Rightarrow> int \<Rightarrow> int \<Rightarrow> fault + delivery" where
  "job_sighandler signum payload si_uid job_pid =
     (if signum \<noteq> SIGKILLJOB \<and> signum \<noteq> SIGTERMc then Inr Ignored
      else (let ki = (if signum = SIGKILLJOB then payload else \<lparr>jsg_uid = si_uid, jsg_signum = signum\<rparr>)
            in case getSignalName (jsg_signum ki) of
                 None \<Rightarrow> Inl NullPointer
               | Some name \<Rightarrow>
                   Inr (Delivered (''*** JERS - Signal received: '' @ name @ '' UID:'' @ int64tostr (jsg_uid ki) @ [NL])
                     (if job_pid \<noteq> -1 then Some (- job_pid, jsg_signum ki) else None))))"

definition signal_payload :: "int \<Rightarrow> int \<Rightarrow> job_signal" where
  "signal_payload uid signum = \<lparr>jsg_uid = uid, jsg_signum = cint 8 signum\<rparr>"

subsection \<open>Old log files are kept\<close>

lemma rename_loop_Linked:
  "rename_loop denied file n r k fs = Linked fs' \<Longrightarrow>
   \<exists>p c. p \<in> {n, r} \<and> fs p = None \<and> fs file = Some c \<and> fs' = fs(p := Some c)"
  by (induction k arbitrary: n) (simp, fastforce split: if_splits)

text \<open>What opening a log file keeps: every other file as it is, the old log under its name or a new one.\<close>

definition logs_kept :: "string \<Rightarrow> files \<Rightarrow> files \<Rightarrow> bool" where
  "logs_kept file fs fs' \<longleftrightarrow>
     (\<forall>p. p \<noteq> file \<longrightarrow> fs p \<noteq> None \<longrightarrow> fs' p = fs p) \<and>
     (\<forall>c. fs file = Some c \<longrightarrow> fs' file = Some c \<or> (\<exists>p. p \<noteq> file \<and> fs p = None \<and> fs' p = Some c))"

lemma logs_kept_refl [simp]: "logs_kept file fs fs"
  by (simp add: logs_kept_def)

lemma logs_kept_new: "fs file = None \<Longrightarrow> logs_kept file fs (fs(file := x))"
  by (simp add: logs_kept_def)

lemma logs_kept_moved:
  assumes "fs p = None" and "fs file = Some c" and "logs_kept file (fs(p := Some c, file := None)) fs'"
  shows "logs_kept file fs fs'"
proof -
  have "p \<noteq> file" using assms(1,2) by auto
  with assms show ?thesis unfolding logs_kept_def by (auto intro!: exI [of _ p])
qed

lemma stamp_fits: "k \<le> 10 \<Longrightarrow> length (int64tostr (int k)) \<le> 2"
proof -
  have "list_all (\<lambda>k. length (int64tostr (int k)) \<le> 2) [0..<11]" by code_simp
  then show "k \<le> 10 \<Longrightarrow> length (int64tostr (int k)) \<le> 2" by (simp add: list_all_iff)
qed

lemma open_logfile_step:
  assumes "fs lf \<noteq> None" and "k < 10" and "length (lf_stamp e (Suc k)) = 14"
  shows "open_logfile e lf k fs =
    (case rename_loop (lf_link e) lf (logname e lf (Suc k)) (logname_retry e lf (Suc k)) 999 fs of
       LinkFailed \<Rightarrow> Inr (False, fs)
     | NotLinked \<Rightarrow> open_logfile e lf (Suc k) fs
     | Linked fs \<Rightarrow> if lf_unlink e then Inr (False, fs) else open_logfile e lf (Suc k) (fs(lf := None)))"
proof -
  have "length (logname_retry e lf (Suc k)) + 1 \<le> length lf + 20"
    using stamp_fits [of "Suc k"] assms by (simp add: logname_retry_def logname_def)
  with assms(1,2) show ?thesis by (subst open_logfile.simps) auto
qed

lemma open_logfile_total:
  assumes "\<forall>k. length (lf_stamp e k) = 14"
  shows "\<exists>ok fs'. open_logfile e file k fs = Inr (ok, fs') \<and> logs_kept file fs fs' \<and> (ok \<longrightarrow> fs' file = Some [])"
proof (induction "11 - k" arbitrary: k fs rule: less_induct)
  case less
  consider "fs file = None" | "fs file \<noteq> None" "k \<ge> 10" | "fs file \<noteq> None" "k < 10" by linarith
  then show ?case
  proof cases
    case 1
    then show ?thesis by (subst open_logfile.simps) (auto simp: logs_kept_new)
  next
    case 2
    then show ?thesis by (subst open_logfile.simps) auto
  next
    case 3
    note step = open_logfile_step [where fs = fs and lf = "file" and k = k and e = e, OF 3] assms
    let ?r = "rename_loop (lf_link e) file (logname e file (Suc k)) (logname_retry e file (Suc k)) 999 fs"
    show ?thesis
    proof (cases ?r)
      case (Linked fs1)
      then obtain p c where p: "fs p = None" "fs file = Some c" "fs1 = fs(p := Some c)" by (auto dest: rename_loop_Linked)
      obtain ok fs' where r: "open_logfile e file (Suc k) (fs1(file := None)) = Inr (ok, fs')"
        "logs_kept file (fs1(file := None)) fs'" "ok \<longrightarrow> fs' file = Some []"
        using less [of "Suc k" "fs1(file := None)"] 3(2) by fastforce
      have "logs_kept file fs fs'" using logs_kept_moved [OF p(1,2)] r(2) p(3) by simp
      moreover have "logs_kept file fs fs1" using p by (auto simp: logs_kept_def)
      ultimately show ?thesis using step Linked r by auto
    next
      case NotLinked
      then show ?thesis using step less [of "Suc k" fs] 3(2) by auto
    next
      case LinkFailed
      then show ?thesis using step by auto
    qed
  qed
qed

subsection \<open>The environment fits\<close>

lemma push_all_fits: "length slots + length xs \<le> n \<Longrightarrow> push_all n slots xs = Inr (slots @ xs)"
  by (induction n slots xs rule: push_all.induct) auto

lemma length_numbered [simp]: "length (numbered name i xs) = length xs"
  by (induction name i xs rule: numbered.induct) auto

lemma length_jers_vars: "length (jers_vars j) = 7 + length (sp_argv j) + length (sp_resources j)"
  by (simp add: jers_vars_def)

lemma length_tmpdir_first: "length (tmpdir_first d envs) = Suc (length envs)"
  by (cases envs) (simp_all add: tmpdir_first_def)

definition job_size :: "jersJobSpawn \<Rightarrow> nat" where
  "job_size j = length (sp_argv j) + length (sp_envs j) + length (sp_resources j)"

lemma env_capacity_enough:
  assumes "job_size j < 2 ^ 30"
  shows "length envs + job_size j + 8 < env_capacity j (length envs) env_size"
proof -
  have "int32 (10 + int (length (sp_argv j)) + int (length (sp_envs j)) + int (length (sp_resources j))) = 10 + int (job_size j)"
    using assms by (subst cint_id) (auto simp: job_size_def)
  then show ?thesis by (auto simp: env_capacity_def Let_def)
qed

text \<open>The value the last entry with a name binds it to: what a shell takes over.\<close>

definition binds :: "string \<Rightarrow> string \<Rightarrow> bool" where
  "binds name v \<longleftrightarrow> take (Suc (length name)) v = name @ ''=''"

definition last_binding :: "string \<Rightarrow> string list \<Rightarrow> string option" where
  "last_binding name env =
     (case filter (binds name) env of
        [] \<Rightarrow> None
      | vs \<Rightarrow> Some (drop (Suc (length name)) (last vs)))"

definition wanted_env :: "string \<Rightarrow> jersJobSpawn \<Rightarrow> string list \<Rightarrow> string list" where
  "wanted_env tmpdir j envs =
     env_var ''TMPDIR'' tmpdir # (case envs of [] \<Rightarrow> [] | v # vs \<Rightarrow> vs @ [v]) @ map the (sp_envs j) @ jers_vars j"

lemma job_environment_all:
  assumes "job_size j < 2 ^ 30" and "None \<notin> set (sp_envs j)"
  shows "job_environment tmpdir j env_size envs = Inr (wanted_env tmpdir j envs)"
proof -
  let ?slots = "tmpdir_first tmpdir envs" and ?new = "sp_envs j @ map Some (jers_vars j)"
  let ?cap = "env_capacity j (length envs) env_size"
  have len: "length ?slots + length ?new = length envs + job_size j + 8"
    by (simp add: length_tmpdir_first length_jers_vars job_size_def)
  note cap = env_capacity_enough [OF assms(1), of envs env_size]
  have push: "push_all ?cap ?slots ?new = Inr (?slots @ ?new)"
    using cap len by (intro push_all_fits) simp
  have "\<forall>x \<in> set (?slots @ ?new). x \<noteq> None"
    using assms(2) by (auto simp: tmpdir_first_def) (metis not_None_eq)
  then have stop: "takeWhile (\<lambda>x. x \<noteq> None) (?slots @ ?new) = ?slots @ ?new" by (rule takeWhile_all)
  have room: "length envs < ?cap" "length (?slots @ ?new) < ?cap" using cap len by simp_all
  have "job_environment tmpdir j env_size envs = Inr (map the (?slots @ ?new))"
    unfolding job_environment_def Let_def push bindR_def sum.case stop using room by simp
  then show ?thesis by (simp add: wanted_env_def tmpdir_first_def comp_def split: list.split)
qed

lemma numbered_other:
  assumes "\<And>t. \<not> binds name (pre @ t)"
  shows "filter (binds name) (numbered pre i xs) = []"
  using assms by (induction pre i xs rule: numbered.induct) (auto simp: env_var_def)

lemma binds_other: "\<not> binds ''JERS_JOBID'' (''JERS_ARGV'' @ t)" "\<not> binds ''JERS_JOBID'' (''JERS_RES'' @ t)"
  by (simp_all add: binds_def)

lemma last_jobid: "last_binding ''JERS_JOBID'' (vs @ jers_vars j) = Some (int64tostr (int32 (int (sp_jobid j))))"
proof -
  have "filter (binds ''JERS_JOBID'') (jers_vars j) = [env_var ''JERS_JOBID'' (int64tostr (int32 (int (sp_jobid j))))]"
    using numbered_other [OF binds_other(1)] numbered_other [OF binds_other(2)]
    by (simp add: jers_vars_def) (simp add: env_var_def binds_def)
  moreover have "last_binding n (vs @ ws) = Some (drop (Suc (length n)) w)" if "filter (binds n) ws = [w]" for n ws w
    using that by (cases "filter (binds n) vs") (simp_all add: last_binding_def)
  ultimately show ?thesis by (simp add: env_var_def)
qed

subsection \<open>The adopt file is read back\<close>

lemma int32_text_length: "in32 v \<Longrightarrow> length (int64tostr v) \<le> 11"
proof -
  assume v: "in32 v"
  have "nat v < 10 ^ Suc 9" using v by (auto simp: in32_def nat_less_iff)
  moreover have "nat (uint64 (int64 (- v))) < 10 ^ Suc 9" if "v < 0"
    using v that by (simp add: in32_def cint_id cuint_id)
  ultimately show ?thesis
    using digits_rev_length [of "nat v" 9] digits_rev_length [of "nat (uint64 (int64 (- v)))" 9]
    by (simp add: int64tostr_eq)
qed

lemma adopt_file_loads:
  assumes "in32 pid" and "in32 job_pid" and "in64 start_time"
  shows "loadAdoptFile junk (Some (createAdoptFile pid job_pid start_time)) = Some (pid, job_pid, start_time)"
proof -
  have in64: "in64 pid" "in64 job_pid" using assms(1,2) by (simp_all add: in32_def in64_def)
  have n: "- (2 ^ 63) \<le> pid" "pid < 2 ^ 63" "- (2 ^ 63) \<le> job_pid" "job_pid < 2 ^ 63" "- (2 ^ 63) \<le> start_time" "start_time < 2 ^ 63"
    using in64 assms(3) by (simp_all add: in64_def)
  have "length (int64tostr pid) \<le> 11" "length (int64tostr job_pid) \<le> 11" "length (int64tostr start_time) \<le> 21"
    using assms(1,2) n(5,6) by (simp_all add: int32_text_length int64tostr_length)
  then have short: "take 64 (createAdoptFile pid job_pid start_time) = createAdoptFile pid job_pid start_time"
    by (simp add: createAdoptFile_def)
  have r1: "scan_number (int64tostr pid @ SPC # r) = Some (pid, SPC # r)" for r
    using in64 by (intro scan_number_text) (simp_all add: is_digit_def)
  have r2: "scan_number (SPC # int64tostr job_pid @ SPC # r) = Some (job_pid, SPC # r)" for r
    using in64 scan_number_text [of job_pid "SPC # r"] by (simp add: scan_number_after is_digit_def)
  have r3: "scan_number (SPC # int64tostr start_time @ NL # r) = Some (start_time, NL # r)" for r
    using assms(3) scan_number_text [of start_time "NL # r"] by (simp add: scan_number_after)
  have "int32 pid = pid" "int32 job_pid = job_pid" using assms(1,2) by (simp_all add: in32_def cint_id)
  then show ?thesis
    unfolding loadAdoptFile_def bindO_def Let_def option.case short
    by (simp add: createAdoptFile_def r1 r2 r3)
qed

section \<open>Properties\<close>




definition demo_spawn :: jersJobSpawn where
  "demo_spawn = \<lparr>sp_jobid = 7, sp_name = Some ''n'', sp_queue = Some ''q'', sp_shell = None, sp_wrapper = None,
     sp_temp_script = Some ''t'', sp_pre_command = None, sp_post_command = None, sp_uid = 100, sp_nice = 0, sp_flags = 0,
     sp_argv = [Some ''run'', Some ''x''], sp_envs = [Some ''JERS_JOBID=1''], sp_resources = [], sp_stdout = None,
     sp_stderr = None\<rparr>"


end
