(* ===== verification/Agentd.thy ===== *)
theory Agentd
  imports Agent_Job Response
begin

section \<open>Agentd: the agent daemon, jers\_agentd.c and proxy.c\<close>

text \<open>
  The main process of \<open>src/src/jers_agentd.c\<close> and the proxied clients of \<open>src/src/proxy.c\<close>. The global
  \<open>struct agent\<close> is the record \<open>agentd\<close>: the buffers of the connection to the daemon, the list of
  jobs, the list of proxied clients. The clock, the allocator, the keyed hash, the secret file and
  the user database form the environment \<open>agent_env\<close>; what a system call returned is an argument of
  the operation that makes it.
\<close>

unbundle bit_operations_syntax

abbreviation (input) JERS_ERR_NOTCONN :: int where "JERS_ERR_NOTCONN \<equiv> 22"
abbreviation (input) RECONNECT_WAIT :: int where "RECONNECT_WAIT \<equiv> 20"

record completion =
  cm_exitcode :: int
  cm_finish_time :: int
  cm_usage :: rusage

definition completion_zero :: completion where
  "completion_zero = \<lparr>cm_exitcode = 0, cm_finish_time = 0, cm_usage = rusage_zero\<rparr>"

text \<open>
  The socket to the process of a job, from the side of the agent: the process id and the completion
  that can be read, in this order, and whether the other side has closed it.
\<close>

record job_socket =
  jk_pid :: "int option"
  jk_completion :: "completion option"
  jk_eof :: bool

record runningJob =
  rj_temp_script :: "string option"
  rj_pid :: int
  rj_job_pid :: int
  rj_jobid :: nat
  rj_start_time :: int
  rj_open :: bool
  rj_socket :: job_socket
  rj_completion :: completion
  rj_adopted :: bool
  rj_completion_read :: nat
  rj_adopt_open :: bool

abbreviation (input) COMPLETION_SIZE :: nat where "COMPLETION_SIZE \<equiv> 160"

record proxyClient =
  px_uid :: int
  px_pid :: int
  px_request :: string
  px_response :: string
  px_response_sent :: nat
  px_connect_sent :: bool
  px_clean_up :: bool
  px_error :: bool

record agentd =
  ag_requests :: buff
  ag_responses :: buff
  ag_responses_sent :: nat
  ag_writable :: bool
  ag_in_recon :: bool
  ag_secret :: bool
  ag_nonce :: "string option"
  ag_connected :: bool
  ag_next_connect :: int
  ag_jobs :: "runningJob list"
  ag_running_jobs :: int
  ag_proxies :: "proxyClient list"
  ag_users :: user_cache
  ag_signals :: "(int \<times> job_signal) list"

record agent_env =
  ae_alloc :: allocator
  ae_fresh :: "8 word list"
  ae_now :: int
  ae_auth :: auth
  ae_db :: user_db

subsection \<open>The list of jobs\<close>

definition removeJob_agentd :: "agentd \<Rightarrow> agentd" where
  "removeJob_agentd a = a\<lparr>ag_running_jobs := ag_running_jobs a - 1\<rparr>"

definition addJob_agentd :: "runningJob \<Rightarrow> agentd \<Rightarrow> agentd" where
  "addJob_agentd j a = a\<lparr>ag_jobs := j # ag_jobs a, ag_running_jobs := ag_running_jobs a + 1\<rparr>"

definition no_socket :: job_socket where
  "no_socket = \<lparr>jk_pid = None, jk_completion = None, jk_eof = False\<rparr>"

definition addOrphanJob :: "nat \<Rightarrow> int \<Rightarrow> int \<Rightarrow> int \<Rightarrow> agentd \<Rightarrow> agentd" where
  "addOrphanJob jobid pid job_pid start_time a =
     addJob_agentd \<lparr>rj_temp_script = None, rj_pid = pid, rj_job_pid = job_pid, rj_jobid = jobid,
       rj_start_time = start_time, rj_open = False, rj_socket = no_socket, rj_completion = completion_zero,
       rj_adopted = True, rj_completion_read = 0, rj_adopt_open = False\<rparr> a"

text \<open>An operation on the first job that satisfies a condition; \<open>None\<close> is a job that is gone.\<close>

definition on_first ::
  "('a \<Rightarrow> bool) \<Rightarrow> ('a \<Rightarrow> 's \<Rightarrow> fault + 'a option \<times> 's) \<Rightarrow> 'a list \<Rightarrow> 's \<Rightarrow> fault + 'a list \<times> 's" where
  "on_first P f xs s =
     (case dropWhile (\<lambda>x. \<not> P x) xs of
        [] \<Rightarrow> Inr (xs, s)
      | x # rest \<Rightarrow>
          bindR (f x s) (\<lambda>(r, s).
          Inr (takeWhile (\<lambda>x. \<not> P x) xs @ (case r of Some x \<Rightarrow> [x] | None \<Rightarrow> []) @ rest, s)))"

text \<open>A walk over a list whose step may drop the element it is at.\<close>

fun walk :: "('a \<Rightarrow> 's \<Rightarrow> fault + 'a option \<times> 's) \<Rightarrow> 'a list \<Rightarrow> 's \<Rightarrow> fault + 'a list \<times> 's" where
  "walk f [] s = Inr ([], s)"
| "walk f (x # xs) s =
     bindR (f x s) (\<lambda>(r, s).
     bindR (walk f xs s) (\<lambda>(xs, s).
     Inr ((case r of Some x \<Rightarrow> x # xs | None \<Rightarrow> xs), s)))"

subsection \<open>Messages to the daemon\<close>

text \<open>
  \<open>_sendMsg\<close>: the message goes behind what is still to be sent. A message whose buffer could not be
  allocated is written through a NULL pointer.
\<close>

definition sendMsg :: "agent_env \<Rightarrow> (fault + buff) option \<Rightarrow> agentd \<Rightarrow> fault + agentd" where
  "sendMsg e r a =
     (case r of
        None \<Rightarrow> Inl NullPointer
      | Some r \<Rightarrow>
          bindR r (\<lambda>b.
          bindR (buffAddBuff (ae_alloc e) (ag_responses a) b) (\<lambda>rs.
          Inr (a\<lparr>ag_responses := rs,
                 ag_writable := ag_writable a \<or> ag_responses_sent a \<le> length (bdata (ag_responses a))\<rparr>))))"

definition sendRequest_agentd :: "agent_env \<Rightarrow> string \<Rightarrow> field list \<Rightarrow> agentd \<Rightarrow> fault + agentd" where
  "sendRequest_agentd e name fs a = sendMsg e (write_request (ae_alloc e) name 1 fs) a"

definition sendResponse_agentd :: "agent_env \<Rightarrow> string \<Rightarrow> field list list \<Rightarrow> agentd \<Rightarrow> fault + agentd" where
  "sendResponse_agentd e name fss a = sendMsg e (write_response (ae_alloc e) (Some name) 1 None fss) a"

definition send_start :: "agent_env \<Rightarrow> runningJob \<Rightarrow> agentd \<Rightarrow> fault + agentd" where
  "send_start e j a =
     sendRequest_agentd e ''JOB_STARTED''
       [num_field JOBID (int (rj_jobid j)), num_field JOBPID (rj_pid j), num_field STARTTIME (rj_start_time j)] a"

definition send_job_initfail :: "agent_env \<Rightarrow> nat \<Rightarrow> int \<Rightarrow> agentd \<Rightarrow> fault + agentd" where
  "send_job_initfail e jobid status a =
     sendRequest_agentd e ''JOB_COMPLETED''
       [num_field JOBID (int jobid), num_field FINISHTIME (ae_now e), num_field EXITCODE (flagged status JERS_EXIT_FAIL)] a"

definition usage_fields :: "rusage \<Rightarrow> field list" where
  "usage_fields u =
     [num_field USAGE_UTIME_SEC (ru_utime_sec u), num_field USAGE_UTIME_USEC (ru_utime_usec u),
      num_field USAGE_STIME_SEC (ru_stime_sec u), num_field USAGE_STIME_USEC (ru_stime_usec u),
      num_field USAGE_MAXRSS (ru_maxrss u), num_field USAGE_MINFLT (ru_minflt u),
      num_field USAGE_MAJFLT (ru_majflt u), num_field USAGE_INBLOCK (ru_inblock u),
      num_field USAGE_OUBLOCK (ru_oublock u), num_field USAGE_NVCSW (ru_nvcsw u),
      num_field USAGE_NIVCSW (ru_nivcsw u)]"

definition completion_fields :: "runningJob \<Rightarrow> field list" where
  "completion_fields j =
     [num_field JOBID (int (rj_jobid j)), num_field EXITCODE (cm_exitcode (rj_completion j)),
      num_field FINISHTIME (cm_finish_time (rj_completion j))] @ usage_fields (cm_usage (rj_completion j))"

text \<open>
  \<open>send_completion\<close>: without a connection, or while the daemon reconciles, the job is kept with the
  process id -1; otherwise the completion is queued and the job is forgotten.
\<close>

definition send_completion :: "agent_env \<Rightarrow> runningJob \<Rightarrow> agentd \<Rightarrow> fault + runningJob option \<times> agentd" where
  "send_completion e j a =
     (let j = j\<lparr>rj_open := False\<rparr>
      in if \<not> ag_connected a \<or> ag_in_recon a then Inr (Some (j\<lparr>rj_pid := -1\<rparr>), a)
         else bindR (sendRequest_agentd e ''JOB_COMPLETED'' (completion_fields j) a) (\<lambda>a.
              Inr (None, removeJob_agentd a)))"

definition send_login :: "agent_env \<Rightarrow> agentd \<Rightarrow> fault + agentd" where
  "send_login e a = sendRequest_agentd e ''AGENT_LOGIN'' [] a"

subsection \<open>The ends of jobs\<close>

definition read_pid :: "runningJob \<Rightarrow> runningJob" where
  "read_pid j =
     (if rj_job_pid j = 0 \<and> rj_open j
      then (case jk_pid (rj_socket j) of
              Some p \<Rightarrow> j\<lparr>rj_job_pid := p, rj_socket := (rj_socket j)\<lparr>jk_pid := None\<rparr>\<rparr>
            | None \<Rightarrow> j)
      else j)"

text \<open>
  The result 1 is \<open>EAGAIN\<close>: the completion is looked for again later. At the end of the stream the
  completion stays as it is.
\<close>

definition get_job_completion :: "runningJob \<Rightarrow> int \<times> runningJob" where
  "get_job_completion j =
     (let j = read_pid j
      in if \<not> rj_open j then
           (0, j\<lparr>rj_completion := (rj_completion j)\<lparr>cm_exitcode := flagged JERS_FAIL_UNKNOWN JERS_EXIT_FAIL\<rparr>\<rparr>)
         else (case jk_completion (rj_socket j) of
                 Some c \<Rightarrow> (0, j\<lparr>rj_completion := c, rj_socket := (rj_socket j)\<lparr>jk_completion := None\<rparr>\<rparr>)
               | None \<Rightarrow> if jk_eof (rj_socket j) then (0, j) else (1, j\<lparr>rj_pid := 0\<rparr>)))"

definition collect :: "agent_env \<Rightarrow> runningJob \<Rightarrow> agentd \<Rightarrow> fault + runningJob option \<times> agentd" where
  "collect e j a =
     (case get_job_completion j of (rc, j) \<Rightarrow> if rc = 0 then send_completion e j a else Inr (Some j, a))"

definition poll_job :: "agent_env \<Rightarrow> runningJob \<Rightarrow> agentd \<Rightarrow> fault + runningJob option \<times> agentd" where
  "poll_job e j a =
     (let j = read_pid j
      in if rj_pid j = 0 then collect e j a
         else if rj_adopted j \<and> rj_completion_read j = COMPLETION_SIZE then send_completion e j a
         else Inr (Some j, a))"

definition fail_status :: "int \<Rightarrow> int" where
  "fail_status child_status =
     (if WIFEXITED child_status then flagged (WEXITSTATUS child_status) JERS_EXIT_FAIL
      else if WIFSIGNALED child_status then flagged (WTERMSIG child_status) JERS_EXIT_SIGNAL
      else flagged JERS_FAIL_UNKNOWN JERS_EXIT_FAIL)"

definition reap_job :: "agent_env \<Rightarrow> int \<Rightarrow> runningJob \<Rightarrow> agentd \<Rightarrow> fault + runningJob option \<times> agentd" where
  "reap_job e child_status j a =
     (let j = j\<lparr>rj_temp_script := None\<rparr>
      in if child_status \<noteq> 0 then
           send_completion e (j\<lparr>rj_completion := (rj_completion j)\<lparr>cm_exitcode := fail_status child_status,
             cm_finish_time := ae_now e\<rparr>\<rparr>) a
         else collect e j a)"

definition with_jobs :: "(runningJob list \<Rightarrow> agentd \<Rightarrow> fault + runningJob list \<times> agentd) \<Rightarrow> agentd \<Rightarrow> fault + agentd" where
  "with_jobs f a = bindR (f (ag_jobs a) a) (\<lambda>(js, a). Inr (a\<lparr>ag_jobs := js\<rparr>))"

fun reap_children :: "agent_env \<Rightarrow> (int \<times> int) list \<Rightarrow> agentd \<Rightarrow> fault + agentd" where
  "reap_children e [] a = Inr a"
| "reap_children e ((pid, child_status) # cs) a =
     bindR (with_jobs (on_first (\<lambda>j. rj_pid j = pid) (reap_job e child_status)) a) (reap_children e cs)"

definition check_children :: "agent_env \<Rightarrow> (int \<times> int) list \<Rightarrow> agentd \<Rightarrow> fault + agentd" where
  "check_children e children a = bindR (with_jobs (walk (poll_job e)) a) (reap_children e children)"

subsection \<open>Commands of the daemon\<close>

definition spawn_zero :: jersJobSpawn where
  "spawn_zero = \<lparr>sp_jobid = 0, sp_name = None, sp_queue = None, sp_shell = None, sp_wrapper = None, sp_temp_script = None,
     sp_pre_command = None, sp_post_command = None, sp_uid = 0, sp_nice = 0, sp_flags = 0, sp_argv = [], sp_envs = [],
     sp_resources = [], sp_stdout = None, sp_stderr = None\<rparr>"

definition spawn_field :: "field \<Rightarrow> jersJobSpawn \<Rightarrow> jersJobSpawn" where
  "spawn_field f j =
     (let n = f_number f
      in if n = JOBID then j\<lparr>sp_jobid := jobid_of f\<rparr>
         else if n = JOBNAME then j\<lparr>sp_name := Some (getStringOf f)\<rparr>
         else if n = QUEUENAME then j\<lparr>sp_queue := Some (getStringOf f)\<rparr>
         else if n = UID then j\<lparr>sp_uid := uint32 (getNumberField f)\<rparr>
         else if n = NICE then j\<lparr>sp_nice := int32 (getNumberField f)\<rparr>
         else if n = SHELL then j\<lparr>sp_shell := Some (getStringOf f)\<rparr>
         else if n = ENVS then j\<lparr>sp_envs := getStringArrayField f\<rparr>
         else if n = ARGS then j\<lparr>sp_argv := getStringArrayField f\<rparr>
         else if n = PRECMD then j\<lparr>sp_pre_command := Some (getStringOf f)\<rparr>
         else if n = POSTCMD then j\<lparr>sp_post_command := Some (getStringOf f)\<rparr>
         else if n = STDOUT then j\<lparr>sp_stdout := Some (getStringOf f)\<rparr>
         else if n = STDERR then j\<lparr>sp_stderr := Some (getStringOf f)\<rparr>
         else if n = WRAPPER then j\<lparr>sp_wrapper := Some (getStringOf f)\<rparr>
         else if n = RESOURCES then j\<lparr>sp_resources := getStringArrayField f\<rparr>
         else if n = FLAGS then j\<lparr>sp_flags := getNumberField f\<rparr>
         else j)"

record spawn_env =
  se_socketpair :: bool
  se_fork :: "int option"

definition spawn_job :: "agent_env \<Rightarrow> spawn_env \<Rightarrow> jersJobSpawn \<Rightarrow> agentd \<Rightarrow> (int + runningJob) \<times> agentd" where
  "spawn_job e se j a =
     (if \<not> se_socketpair se then (Inl JERS_FAIL_INIT, a)
      else case se_fork se of
             None \<Rightarrow> (Inl JERS_FAIL_INIT, a)
           | Some pid \<Rightarrow>
               (let job = \<lparr>rj_temp_script = (if sp_wrapper j = None then Some (temp_script_name (sp_jobid j)) else None),
                     rj_pid = pid, rj_job_pid = 0, rj_jobid = sp_jobid j, rj_start_time = ae_now e, rj_open = True,
                     rj_socket = no_socket, rj_completion = completion_zero, rj_adopted = False, rj_completion_read = 0,
                     rj_adopt_open = False\<rparr>
                in (Inr job, addJob_agentd job a)))"

definition start_command :: "agent_env \<Rightarrow> spawn_env \<Rightarrow> msg \<Rightarrow> agentd \<Rightarrow> fault + int \<times> agentd" where
  "start_command e se m a =
     bindR (deserialize spawn_field spawn_zero m) (\<lambda>j.
     bindR (lookup_user (ae_db e) (ae_now e) (sp_uid j) True (ag_users a)) (\<lambda>(u, us).
     let a = a\<lparr>ag_users := us\<rparr>
     in case u of
          None \<Rightarrow> bindR (send_job_initfail e (sp_jobid j) JERS_FAIL_INIT a) (\<lambda>a. Inr (0, a))
        | Some _ \<Rightarrow>
            (case spawn_job e se j a of
               (Inl status, a) \<Rightarrow> bindR (send_job_initfail e (sp_jobid j) status a) (\<lambda>a. Inr (0, a))
             | (Inr job, a) \<Rightarrow> bindR (send_start e job a) (\<lambda>a. Inr (0, a)))))"

definition clearcache_command :: "agentd \<Rightarrow> int \<times> agentd" where
  "clearcache_command a = (0, a\<lparr>ag_users := clearCacheHandler (ag_users a)\<rparr>)"

record signal_msg =
  sm_jobid :: nat
  sm_signum :: int
  sm_uid :: int

definition signal_field :: "field \<Rightarrow> signal_msg \<Rightarrow> signal_msg" where
  "signal_field f s =
     (if f_number f = JOBID then s\<lparr>sm_jobid := jobid_of f\<rparr>
      else if f_number f = SIGNAL then s\<lparr>sm_signum := int32 (getNumberField f)\<rparr>
      else if f_number f = UID then s\<lparr>sm_uid := uint32 (getNumberField f)\<rparr>
      else s)"

definition signal_command :: "msg \<Rightarrow> agentd \<Rightarrow> fault + int \<times> agentd" where
  "signal_command m a =
     bindR (deserialize signal_field \<lparr>sm_jobid = 0, sm_signum = 0, sm_uid = 0\<rparr> m) (\<lambda>s.
     Inr (0,
       if sm_jobid s = 0 then a
       else case find (\<lambda>j. rj_jobid j = sm_jobid s) (ag_jobs a) of
              None \<Rightarrow> a
            | Some j \<Rightarrow> a\<lparr>ag_signals := ag_signals a @ [(rj_pid j, signal_payload (sm_uid s) (sm_signum s))]\<rparr>))"

definition recon_fields :: "runningJob \<Rightarrow> field list" where
  "recon_fields j =
     [num_field JOBID (int (rj_jobid j)), num_field STARTTIME (rj_start_time j)] @
     (if rj_pid j = -1 then
        [num_field EXITCODE (cm_exitcode (rj_completion j)), num_field FINISHTIME (cm_finish_time (rj_completion j))] @
        usage_fields (cm_usage (rj_completion j))
      else if rj_pid j = 0 then []
      else [num_field JOBPID (rj_pid j)])"

record recon_msg =
  rm_hmac :: "string option"
  rm_datetime :: int

definition recon_field :: "field \<Rightarrow> recon_msg \<Rightarrow> recon_msg" where
  "recon_field f r =
     (if f_number f = MSG_HMAC then r\<lparr>rm_hmac := Some (getStringOf f)\<rparr>
      else if f_number f = DATETIME then r\<lparr>rm_datetime := getNumberField f\<rparr>
      else r)"

text \<open>The check of the daemon's hash; without items there is nothing to read.\<close>

definition recon_allowed :: "agent_env \<Rightarrow> recon_msg \<Rightarrow> agentd \<Rightarrow> bool" where
  "recon_allowed e r a \<longleftrightarrow>
     \<not> ag_secret a \<or>
     rm_hmac r \<noteq> None \<and> rm_datetime r \<noteq> 0 \<and>
     (case generateHMAC (ae_auth e) [ag_nonce a, Some (int64tostr (rm_datetime r))] of
        None \<Rightarrow> False
      | Some v \<Rightarrow> strcasecmp_eq v (the (rm_hmac r)))"

text \<open>
  With a secret the hash string is freed after the check and once more at the end.
\<close>

definition recon_command :: "agent_env \<Rightarrow> msg \<Rightarrow> agentd \<Rightarrow> fault + int \<times> agentd" where
  "recon_command e m a =
     (let r = fold recon_field (case m_items m of [] \<Rightarrow> [] | it # _ \<Rightarrow> item_fields it) \<lparr>rm_hmac = None, rm_datetime = 0\<rparr>
      in if \<not> recon_allowed e r a then Inr (1, a)
         else bindR (sendResponse_agentd e ''RECON'' (map recon_fields (ag_jobs a)) a) (\<lambda>a.
              if ag_secret a then Inl StalePointer else Inr (0, a\<lparr>ag_in_recon := True\<rparr>)))"

definition recon_complete :: "agentd \<Rightarrow> int \<times> agentd" where
  "recon_complete a =
     (0, a\<lparr>ag_jobs := filter (\<lambda>j. rj_pid j \<noteq> -1) (ag_jobs a),
           ag_running_jobs := ag_running_jobs a - int (length (filter (\<lambda>j. rj_pid j = -1) (ag_jobs a))),
           ag_in_recon := False\<rparr>)"

record proxy_data =
  pd_pid :: int
  pd_data :: "string option"

definition proxy_data_field :: "field \<Rightarrow> proxy_data \<Rightarrow> proxy_data" where
  "proxy_data_field f p =
     (if f_number f = PID then p\<lparr>pd_pid := int32 (getNumberField f)\<rparr>
      else if f_number f = PROXYDATA then p\<lparr>pd_data := Some (getStringOf f)\<rparr>
      else p)"

definition proxy_response :: "msg \<Rightarrow> agentd \<Rightarrow> fault + int \<times> agentd" where
  "proxy_response m a =
     bindR (deserialize proxy_data_field \<lparr>pd_pid = 0, pd_data = None\<rparr> m) (\<lambda>p.
     Inr (0,
       if pd_pid p = 0 then a
       else a\<lparr>ag_proxies := update_first (\<lambda>c. px_pid c = pd_pid p)
                (\<lambda>c. c\<lparr>px_response := px_response c @ (case pd_data p of Some d \<Rightarrow> d | None \<Rightarrow> [])\<rparr>) (ag_proxies a)\<rparr>))"

definition challenge_field :: "field \<Rightarrow> string option \<Rightarrow> string option" where
  "challenge_field f nonce = (if f_number f = NONCE \<and> nonce = None then Some (getStringOf f) else nonce)"

definition auth_challenge :: "agent_env \<Rightarrow> msg \<Rightarrow> agentd \<Rightarrow> fault + int \<times> agentd" where
  "auth_challenge e m a =
     bindR (deserialize challenge_field None m) (\<lambda>nonce.
     if nonce = None then Inr (1, a)
     else if \<not> ag_secret a \<and> \<not> au_secret (ae_auth e) then Inr (1, a)
     else (let a = a\<lparr>ag_secret := True, ag_nonce := au_nonce (ae_auth e)\<rparr>;
               hmac = generateHMAC (ae_auth e) [nonce, ag_nonce a, Some (int64tostr (ae_now e))]
           in bindR (sendRequest_agentd e ''AUTH''
                [num_field DATETIME (ae_now e), str_field NONCE (ag_nonce a), str_field MSG_HMAC hmac] a) (\<lambda>a.
              Inr (0, a))))"

definition process_message :: "agent_env \<Rightarrow> spawn_env \<Rightarrow> msg \<Rightarrow> agentd \<Rightarrow> fault + int \<times> agentd" where
  "process_message e se m a =
     (case m_command m of
        None \<Rightarrow> Inr (1, a)
      | Some c \<Rightarrow>
          if c = ''START_JOB'' then start_command e se m a
          else if c = ''JOB_SIG'' then signal_command m a
          else if c = ''RECON_REQ'' then recon_command e m a
          else if c = ''RECON_COMPLETE'' then Inr (recon_complete a)
          else if c = ''AUTH_CHALLENGE'' then auth_challenge e m a
          else if c = ''PROXY_DATA'' then proxy_response m a
          else if c = ''CLEAR_CACHE'' then Inr (clearcache_command a)
          else Inr (1, a))"

subsection \<open>The connection to the daemon\<close>

definition drop_bytes :: "buff \<Rightarrow> buff" where
  "drop_bytes b = b\<lparr>bdata := []\<rparr>"

definition disconnectFromDaemon :: "agent_env \<Rightarrow> agentd \<Rightarrow> agentd" where
  "disconnectFromDaemon e a =
     a\<lparr>ag_connected := False, ag_next_connect := ae_now e + RECONNECT_WAIT, ag_requests := drop_bytes (ag_requests a),
       ag_responses := drop_bytes (ag_responses a), ag_responses_sent := 0, ag_writable := False\<rparr>"

text \<open>
  The walk over the lines that have arrived, \<open>se\<close> giving the results of the system calls of the
  message at an offset. A message that cannot be loaded or is refused ends the connection.
\<close>

function message_lines :: "agent_env \<Rightarrow> (nat \<Rightarrow> spawn_env) \<Rightarrow> string \<Rightarrow> nat \<Rightarrow> agentd \<Rightarrow> fault + nat \<times> agentd" where
  "message_lines e se p consumed a =
     (case split_line p of
        None \<Rightarrow> Inr (consumed, a)
      | Some (l, rest) \<Rightarrow>
          (case load_message (ae_fresh e) (Some sortfields) (c_str l) of
             OutOfBounds \<Rightarrow> Inl Overflow
           | Refused \<Rightarrow> Inr (consumed, disconnectFromDaemon e a)
           | Loaded m \<Rightarrow>
               bindR (process_message e (se consumed) m a) (\<lambda>(status, a).
               if status \<noteq> 0 then Inr (consumed, disconnectFromDaemon e a)
               else message_lines e se rest (consumed + length l + 1) a)))"
  by pat_completeness auto
termination
  by (relation "measure (\<lambda>(e, se, p, consumed, a). length p)") (auto dest: split_line_shorter)

declare message_lines.simps [simp del]

definition process_messages :: "agent_env \<Rightarrow> (nat \<Rightarrow> spawn_env) \<Rightarrow> agentd \<Rightarrow> fault + agentd" where
  "process_messages e se a =
     bindR (message_lines e se (bdata (ag_requests a)) 0 a) (\<lambda>(consumed, a).
     bindR (buffRemove (ae_alloc e) (ag_requests a) consumed False) (\<lambda>b.
     Inr (a\<lparr>ag_requests := b\<rparr>)))"

definition connectjers :: "agent_env \<Rightarrow> bool \<Rightarrow> agentd \<Rightarrow> fault + int \<times> agentd" where
  "connectjers e accepted a =
     (if ae_now e < ag_next_connect a then Inr (1, a)
      else if \<not> accepted then Inr (1, a)
      else bindR (send_login e (a\<lparr>ag_connected := True\<rparr>)) (\<lambda>a. Inr (0, a)))"

text \<open>The two events of the socket of the daemon in the main loop.\<close>

definition daemon_readable :: "agent_env \<Rightarrow> received \<Rightarrow> agentd \<Rightarrow> fault + agentd" where
  "daemon_readable e r a =
     (case r of
        Bytes t \<Rightarrow>
          if t = [] then Inr (disconnectFromDaemon e a)
          else bindR (buffResize (ae_alloc e) (ag_requests a) 65536) (\<lambda>(_, _, b).
               if bsize b < length (bdata b) + length t then Inl Overflow
               else Inr (a\<lparr>ag_requests := b\<lparr>bdata := bdata b @ t\<rparr>\<rparr>))
      | _ \<Rightarrow> Inr (disconnectFromDaemon e a))"

definition daemon_writable :: "agent_env \<Rightarrow> nat option \<Rightarrow> agentd \<Rightarrow> agentd" where
  "daemon_writable e sent a =
     (if length (bdata (ag_responses a)) - ag_responses_sent a = 0 then a
      else case sent of
             None \<Rightarrow> disconnectFromDaemon e a
           | Some n \<Rightarrow>
               if n = 0 then disconnectFromDaemon e a
               else if ag_responses_sent a + n = length (bdata (ag_responses a))
               then a\<lparr>ag_responses := drop_bytes (ag_responses a), ag_responses_sent := 0, ag_writable := False\<rparr>
               else a\<lparr>ag_responses_sent := ag_responses_sent a + n\<rparr>)"

subsection \<open>Proxied clients\<close>

definition handleClientProxyConnection :: "int \<Rightarrow> int \<Rightarrow> agentd \<Rightarrow> agentd" where
  "handleClientProxyConnection uid pid a =
     a\<lparr>ag_proxies := \<lparr>px_uid = uid, px_pid = pid, px_request = [], px_response = [], px_response_sent = 0,
         px_connect_sent = False, px_clean_up = False, px_error = False\<rparr> # ag_proxies a\<rparr>"

definition handleClientProxyDisconnect :: "proxyClient \<Rightarrow> proxyClient" where
  "handleClientProxyDisconnect c = c\<lparr>px_request := [], px_response := [], px_clean_up := True\<rparr>"

definition handleClientProxyRead :: "received \<Rightarrow> proxyClient \<Rightarrow> int \<times> proxyClient" where
  "handleClientProxyRead r c =
     (case r of
        Again \<Rightarrow> (0, c)
      | Failed \<Rightarrow> (1, handleClientProxyDisconnect c)
      | Bytes t \<Rightarrow> if t = [] then (1, handleClientProxyDisconnect c) else (0, c\<lparr>px_request := px_request c @ t\<rparr>))"

definition handleClientProxyWrite :: "nat option \<Rightarrow> proxyClient \<Rightarrow> int \<times> proxyClient" where
  "handleClientProxyWrite sent c =
     (case sent of
        None \<Rightarrow> (1, handleClientProxyDisconnect c)
      | Some n \<Rightarrow>
          (0, if px_response_sent c + n = length (px_response c) then c\<lparr>px_response := [], px_response_sent := 0\<rparr>
              else c\<lparr>px_response_sent := px_response_sent c + n\<rparr>))"

definition send_proxy_connect :: "agent_env \<Rightarrow> proxyClient \<Rightarrow> agentd \<Rightarrow> fault + agentd" where
  "send_proxy_connect e c a = sendRequest_agentd e ''PROXY_CONN'' [num_field PID (px_pid c), num_field UID (px_uid c)] a"

definition send_proxy_data :: "agent_env \<Rightarrow> proxyClient \<Rightarrow> string \<Rightarrow> agentd \<Rightarrow> fault + agentd" where
  "send_proxy_data e c t a =
     sendRequest_agentd e ''PROXY_DATA'' [num_field PID (px_pid c), str_field PROXYDATA (Some t)] a"

definition send_proxy_close :: "agent_env \<Rightarrow> proxyClient \<Rightarrow> agentd \<Rightarrow> fault + agentd" where
  "send_proxy_close e c a = sendRequest_agentd e ''PROXY_CLOSE'' [num_field PID (px_pid c)] a"

definition proxy_cleanup :: "agent_env \<Rightarrow> proxyClient \<Rightarrow> agentd \<Rightarrow> fault + proxyClient option \<times> agentd" where
  "proxy_cleanup e c a =
     bindR (if ag_connected a then send_proxy_close e c a else Inr a) (\<lambda>a. Inr (None, a))"

text \<open>The error text is cut to the 127 characters of its buffer.\<close>

definition sendProxyError :: "agent_env \<Rightarrow> proxyClient \<Rightarrow> int \<Rightarrow> string \<Rightarrow> fault + proxyClient" where
  "sendProxyError e c err m =
     (case buffNew (ae_alloc e) 256 of
        None \<Rightarrow> Inl NullPointer
      | Some b \<Rightarrow>
          bindR (JSONStart (ae_alloc e) b) (\<lambda>b.
          bindR (JSONAddString (ae_alloc e) b ERROR (Some (take 127 (getErrType err @ [SPC] @ m)))) (\<lambda>b.
          bindR (JSONEnd (ae_alloc e) b) (\<lambda>b.
          Inr (c\<lparr>px_response := px_response c @ bdata b\<rparr>)))))"

definition check_proxy_client :: "agent_env \<Rightarrow> proxyClient \<Rightarrow> agentd \<Rightarrow> fault + proxyClient option \<times> agentd" where
  "check_proxy_client e c a =
     (if px_clean_up c then proxy_cleanup e c a
      else if px_error c then Inr (Some c, a)
      else if \<not> px_connect_sent c \<and> (\<not> ag_connected a \<or> ag_in_recon a) then
        bindR (sendProxyError e c JERS_ERR_NOTCONN ''Agent not connected'') (\<lambda>c. Inr (Some (c\<lparr>px_error := True\<rparr>), a))
      else bindR (if px_connect_sent c then Inr a else send_proxy_connect e c a) (\<lambda>a.
           let c = c\<lparr>px_connect_sent := True\<rparr>
           in if px_request c = [] then Inr (Some c, a)
              else bindR (send_proxy_data e c (px_request c) a) (\<lambda>a. Inr (Some (c\<lparr>px_request := []\<rparr>), a))))"

definition check_proxy_clients :: "agent_env \<Rightarrow> agentd \<Rightarrow> fault + agentd" where
  "check_proxy_clients e a =
     bindR (walk (check_proxy_client e) (ag_proxies a) a) (\<lambda>(cs, a). Inr (a\<lparr>ag_proxies := cs\<rparr>))"

subsection \<open>Jobs of an earlier agent\<close>

text \<open>
  The adoption scan: the \<open>cmdline\<close> of every process, whose name is \<open>jers_agentd[<jobid>]\<close> for a job.
  \<open>adopt jobid k\<close> is the content of the adopt file at the \<open>k\<close>-th of at most five attempts.
\<close>

fun adopt_attempts :: "string \<Rightarrow> (nat \<Rightarrow> string option) \<Rightarrow> nat \<Rightarrow> nat \<Rightarrow> (int \<times> int \<times> int) option" where
  "adopt_attempts junk file k 0 = None"
| "adopt_attempts junk file k (Suc n) =
     (case loadAdoptFile junk (file k) of Some r \<Rightarrow> Some r | None \<Rightarrow> adopt_attempts junk file (Suc k) n)"

fun adoptionScan :: "string \<Rightarrow> (nat \<Rightarrow> nat \<Rightarrow> string option) \<Rightarrow> string list \<Rightarrow> agentd \<Rightarrow> fault + agentd" where
  "adoptionScan junk adopt [] a = Inr a"
| "adoptionScan junk adopt (l # ls) a =
     (if take 12 l \<noteq> ''jers_agentd['' then adoptionScan junk adopt ls a
      else (let jobid = nat (uint32 (atoi (drop 12 l)))
            in case adopt_attempts junk (adopt jobid) 0 5 of
                 None \<Rightarrow> Inl Abort
               | Some (pid, job_pid, start_time) \<Rightarrow>
                   adoptionScan junk adopt ls (addOrphanJob jobid pid job_pid start_time a)))"

text \<open>
  The orphan with the process id of the connection delivers its completion \<open>c\<close> over it, in pieces of
  \<open>n\<close> bytes.
\<close>

definition handleJobAdoptConnection :: "int option \<Rightarrow> agentd \<Rightarrow> int \<times> agentd" where
  "handleJobAdoptConnection peer a =
     (case peer of
        None \<Rightarrow> (1, a)
      | Some pid \<Rightarrow>
          if \<not> list_ex (\<lambda>j. rj_pid j = pid) (ag_jobs a) then (1, a)
          else (0, a\<lparr>ag_jobs := update_first (\<lambda>j. rj_pid j = pid) (\<lambda>j. j\<lparr>rj_adopt_open := True\<rparr>) (ag_jobs a)\<rparr>))"

definition handleJobAdoptRead :: "nat option \<Rightarrow> completion \<Rightarrow> runningJob \<Rightarrow> int \<times> runningJob" where
  "handleJobAdoptRead r c j =
     (case r of
        None \<Rightarrow> (1, j\<lparr>rj_adopt_open := False\<rparr>)
      | Some n \<Rightarrow>
          if n = 0 then (1, j\<lparr>rj_adopt_open := False\<rparr>)
          else (let k = rj_completion_read j + n
                in (0, j\<lparr>rj_completion_read := k, rj_completion := (if k = COMPLETION_SIZE then c else rj_completion j),
                         rj_adopt_open := (rj_adopt_open j \<and> k \<noteq> COMPLETION_SIZE)\<rparr>)))"

end
