(* ===== verification/System.thy ===== *)
theory System
  imports Recovery
begin

section \<open>System: the daemon as a transition system\<close>

text \<open>
  One step of the daemon: a connection, bytes read from a client or an agent, a line of a
  client's or an agent's stream processed, a scheduling pass, the release of deferred jobs, a
  clean-up, the start and the end of a background save. Two guards are stated on the steps whose code does not check them: a message of an
  agent names no deleted job, and a queue is only created over a deleted one, and deleted
  queues are only cleaned up, when nothing refers to the deleted ones any more.
\<close>

unbundle bit_operations_syntax

inductive step :: "daemon \<Rightarrow> daemon \<Rightarrow> bool" where
  connect: "step d (handleClientConnection uid d)"
| read_client: "i < length (d_clients d) \<Longrightarrow> step d (snd (handleClientRead r i d))"
| connect_agent: "step d (on_server (\<lambda>s. snd (handleAgentConnection h s)) d)"
| read_agent: "step d (on_server (\<lambda>s. snd (handleAgentRead r h s)) d)"
| request: "i < length (d_clients d) \<Longrightarrow> split_line (pc_request (d_clients d ! i)) = Some (ls, rest) \<Longrightarrow>
    load_message (e_fresh (e :: env)) (e_fields e) (c_str ls) = Loaded m \<Longrightarrow>
    e_commands e \<in> {None, Some sortCommands} \<Longrightarrow>
    run_request e m (d_clients d ! i) (d_server d) = Inr ((c, s), js) \<Longrightarrow>
    m_command m = Some ''QUEUE_ADD'' \<longrightarrow> dead_queues_free (d_server d) \<Longrightarrow>
    step d \<lparr>d_server = s, d_clients = (d_clients d)[i := c\<lparr>pc_request := rest\<rparr>]\<rparr>"
| bad_request: "i < length (d_clients d) \<Longrightarrow> split_line (pc_request (d_clients d ! i)) = Some (ls, rest) \<Longrightarrow>
    load_message (e_fresh (e :: env)) (e_fields e) (c_str ls) = Refused \<Longrightarrow> step d (handleClientDisconnect i d)"
| wake: "checkBlockingClientEvent e d = Inr d' \<Longrightarrow> step d d'"
| message: "split_line (requests_of h (d_server d)) = Some (ls, rest) \<Longrightarrow>
    load_message (e_fresh (e :: env)) (e_fields e) (c_str ls) = Loaded m \<Longrightarrow>
    e_agent_commands e \<in> {None, Some sortAgentCommands} \<Longrightarrow>
    list_all (alive (d_server d)) (named_jobs m) \<Longrightarrow>
    runAgentCommand (e_agent_commands e) (e_world e) (e_auth e) h m d = Inr (d', js) \<Longrightarrow>
    step d (on_server (on_agent h (\<lambda>a. a\<lparr>a_requests := rest\<rparr>)) d')"
| bad_message: "split_line (requests_of h (d_server d)) = Some (ls, rest) \<Longrightarrow>
    load_message (e_fresh (e :: env)) (e_fields e) (c_str ls) = Refused \<Longrightarrow>
    step d (on_server (handleAgentDisconnect h) d)"
| schedule: "checkJobsEvent (d_server d) = Inr s \<Longrightarrow> step d (d\<lparr>d_server := s\<rparr>)"
| release: "deferred_alive (d_server d) \<Longrightarrow> step d (on_server (checkDeferEvent e) d)"
| clean_jobs: "step d (on_server (\<lambda>s. snd (cleanupJobs n s)) d)"
| clean_queues: "dead_queues_free (d_server d) \<Longrightarrow> step d (on_server (\<lambda>s. snd (cleanupQueues n s)) d)"
| clean_resources: "step d (on_server (\<lambda>s. snd (cleanupResources n s)) d)"
| clean_index: "step d (on_server cleanupIndexTag d)"
| auto_clean: "step d (on_server (autoCleanup e) d)"
| save_start: "step d (on_server (\<lambda>s. snd (collect_dirty (fl, s))) d)"
| save_finish: "step d (on_server (\<lambda>s. snd (save_finished status (fl, s))) d)"

inductive_cases step_cases: "step d d'"

subsection \<open>Invariants of a transition system\<close>

locale transition_system =
  fixes step :: "'s \<Rightarrow> 's \<Rightarrow> bool" and inv :: "'s \<Rightarrow> bool"
  assumes inv_step: "inv s \<Longrightarrow> step s s' \<Longrightarrow> inv s'"
begin

lemma inv_reachable: "step\<^sup>*\<^sup>* s s' \<Longrightarrow> inv s \<Longrightarrow> inv s'"
  by (induction rule: rtranclp_induct) (auto intro: inv_step)

end

lemma commands_keep_guarded:
  assumes "daemon_ok s" and "cmd_name x = ''QUEUE_ADD'' \<longrightarrow> dead_queues_free s" and "x \<in> set commands"
  shows "keeps daemon_ok (cmd_func x w c m s)"
proof -
  have "list_all (\<lambda>x. (cmd_name x = ''QUEUE_ADD'' \<longrightarrow> dead_queues_free s) \<longrightarrow>
      keeps daemon_ok (cmd_func x w c m s)) commands"
    unfolding commands_def cmd_def list.pred_inject command_t.simps
    by (intro conjI impI keeps_bind command_keeps assms(1))
      (simp_all add: command_get_agent_def command_stats_def Let_def assms(1))
  with assms(2,3) show ?thesis by (simp add: list_all_iff)
qed


lemma runCommand_guarded:
  assumes "daemon_ok s" and "m_command m = Some ''QUEUE_ADD'' \<longrightarrow> dead_queues_free s"
    and "tbl \<in> {None, Some sortCommands}" and "runCommand tbl w c m s = Inr (r, js)"
  shows "daemon_ok (o_server r)"
  using assms(3,4)
proof (cases rule: runCommand_cases)
  case refused
  with assms(1) show ?thesis by simp
next
  case (ran x c')
  then have "keeps daemon_ok (cmd_func x w (Some c') m s)"
    using assms(1,2) by (intro commands_keep_guarded) auto
  with ran(5) show ?thesis by simp
qed

lemma sendMessages_ok:
  "daemon_ok s \<Longrightarrow> sendMessages alloc rs (c, s) = Inr (c', s') \<Longrightarrow> daemon_ok s'"
proof (induction rs arbitrary: c s)
  case (Cons r rs)
  from Cons.prems(2) obtain c1 s1 where one: "sendMessage alloc r (c, s) = Inr (c1, s1)"
    and rest: "sendMessages alloc rs (c1, s1) = Inr (c', s')" by (auto simp: bindR_Inr_iff)
  from one Cons.prems(1) have "daemon_ok s1"
    by (auto simp: sendMessage_def bindR_Inr_iff sendAgentMessage_daemon_ok split: option.splits)
  from Cons.IH [OF this rest] show ?case .
qed simp

lemma run_request_ok:
  assumes "daemon_ok s" and "m_command m = Some ''QUEUE_ADD'' \<longrightarrow> dead_queues_free s"
    and "e_commands e \<in> {None, Some sortCommands}" and "run_request e m c s = Inr ((c', s'), js)"
  shows "daemon_ok s'"
proof -
  obtain r where "runCommand (e_commands e) (e_world e) (as_client c) m s = Inr (r, js)"
    and "sendMessages (e_alloc e) (o_replies r) (block_client (o_blocking r) c, o_server r) = Inr (c', s')"
    using assms(4) by (auto simp: run_request_def bindR_Inr_iff)
  then show ?thesis using runCommand_guarded [OF assms(1-3)] sendMessages_ok by blast
qed

lemma check_blocking_ok:
  "daemon_ok s \<Longrightarrow> check_blocking e cs s = Inr (cs', s') \<Longrightarrow> daemon_ok s'"
proof (induction cs arbitrary: s cs' s')
  case (Cons c cs)
  show ?case
  proof (cases "pc_blocking c")
    case None
    with Cons show ?thesis by (auto simp: bindR_Inr_iff)
  next
    case (Some b)
    obtain r where r: "blocking_reply (w_now_ms (e_world e)) b c s = Inr r" "o_server r = s"
      using blocking_reply_answer [OF Some] by blast
    with Some Cons.prems(2) obtain c1 s1 cs1 where
      "sendMessages (e_alloc e) (o_replies r) (c, s) = Inr (c1, s1)" "check_blocking e cs s1 = Inr (cs1, s')"
      by (auto simp: bindR_Inr_iff split: if_splits)
    with Cons.IH Cons.prems(1) sendMessages_ok show ?thesis by blast
  qed
qed simp

lemma step_ok: "daemon_ok (d_server d) \<Longrightarrow> step d d' \<Longrightarrow> daemon_ok (d_server d')"
proof (erule step.cases, goal_cases)
  case (5 d i ls rest e m c s js)
  then show ?case using run_request_ok by simp
next
  case (8 h d ls rest e m d'' js)
  then show ?case using runAgentCommand_ok by (simp add: on_server_def daemon_ok_on_agent)
qed (auto simp: handleClientConnection_def handleClientRead_def handleClientDisconnect_def handleAgentRead_def
    on_server_def checkBlockingClientEvent_def bindR_Inr_iff checkJobsEvent_def checkDeferEvent_def
    cleanupIndexTag_def autoCleanup_def handleAgentConnection_ok handleAgentDisconnect_ok daemon_ok_on_agent
    daemon_ok_releaseDeferred daemon_ok_cleanupJobs daemon_ok_cleanupQueues daemon_ok_cleanupResources
    fold_auto_delete daemon_ok_collect_dirty daemon_ok_save_finished split: received.splits if_splits
    intro: daemon_ok_checkJobs check_blocking_ok)

interpretation daemon: transition_system step "\<lambda>d. daemon_ok (d_server d)"
  by unfold_locales (rule step_ok)




end
