(* ===== verification/Agent_Invariant.thy ===== *)
theory Agent_Invariant
  imports Agentd System
begin

section \<open>Agent\_Invariant: the agent as a transition system\<close>

text \<open>
  The main loop of \<open>jers_agentd.c\<close> as a step relation over \<open>agentd\<close>: one rule per event and per pass
  of the loop. In every reachable state the counter of running jobs is the length of the list, and
  nothing read from a connection outlives it.
\<close>

definition agentd_ok :: "agentd \<Rightarrow> bool" where
  "agentd_ok a \<longleftrightarrow> ag_running_jobs a = int (length (ag_jobs a)) \<and> (\<not> ag_connected a \<longrightarrow> bdata (ag_requests a) = [])"

text \<open>Operations that only write to the stream or to other members.\<close>

definition same_jobs :: "agentd \<Rightarrow> agentd \<Rightarrow> bool" where
  "same_jobs a a' \<longleftrightarrow> ag_jobs a' = ag_jobs a \<and> ag_running_jobs a' = ag_running_jobs a \<and> ag_connected a' = ag_connected a \<and>
     ag_requests a' = ag_requests a"

lemma same_jobs_ok: "same_jobs a a' \<Longrightarrow> agentd_ok a' = agentd_ok a"
  by (simp add: same_jobs_def agentd_ok_def)

lemma bindR_InrE: "bindR r k = Inr y \<Longrightarrow> (\<And>x. r = Inr x \<Longrightarrow> k x = Inr y \<Longrightarrow> P) \<Longrightarrow> P"
  by (cases r) (auto simp: bindR_def)

lemma sendMsg_same: "sendMsg e r a = Inr a' \<Longrightarrow> same_jobs a a'"
  by (auto simp: sendMsg_def same_jobs_def split: option.splits elim!: bindR_InrE)

lemma sends_same:
  "sendRequest_agentd e name fs a = Inr a' \<Longrightarrow> same_jobs a a'"
  "sendResponse_agentd e name fss a = Inr a' \<Longrightarrow> same_jobs a a'"
  by (auto simp: sendRequest_agentd_def sendResponse_agentd_def dest: sendMsg_same)

subsection \<open>Walks over the jobs\<close>

text \<open>The contract of a step on one job as far as the counter goes.\<close>

locale counting_step =
  fixes step :: "runningJob \<Rightarrow> agentd \<Rightarrow> fault + runningJob option \<times> agentd"
  assumes step_counts: "step j a = Inr (r, a') \<Longrightarrow>
    ag_running_jobs a' = ag_running_jobs a - (if r = None then 1 else 0) \<and> ag_jobs a' = ag_jobs a \<and>
    ag_connected a' = ag_connected a \<and> ag_requests a' = ag_requests a"
begin

lemma walk_counts:
  "walk step js a = Inr (js', a') \<Longrightarrow>
   ag_running_jobs a' - int (length js') = ag_running_jobs a - int (length js) \<and>
   ag_connected a' = ag_connected a \<and> ag_requests a' = ag_requests a"
proof (induction js arbitrary: a js')
  case (Cons j js)
  then obtain r a1 js1 where s: "step j a = Inr (r, a1)" "walk step js a1 = Inr (js1, a')"
    "js' = (case r of Some x \<Rightarrow> x # js1 | None \<Rightarrow> js1)"
    by (auto elim!: bindR_InrE)
  from Cons.IH [OF s(2)] step_counts [OF s(1)] s(3) show ?case by (cases r) auto
qed simp

lemma first_counts:
  assumes "on_first P step js a = Inr (js', a')"
  shows "ag_running_jobs a' - int (length js') = ag_running_jobs a - int (length js) \<and>
   ag_connected a' = ag_connected a \<and> ag_requests a' = ag_requests a"
proof (cases "dropWhile (\<lambda>x. \<not> P x) js")
  case Nil
  with assms show ?thesis unfolding on_first_def Nil by simp
next
  case (Cons j rest)
  with assms obtain r where s: "step j a = Inr (r, a')"
    "js' = takeWhile (\<lambda>x. \<not> P x) js @ (case r of Some x \<Rightarrow> [x] | None \<Rightarrow> []) @ rest"
    unfolding on_first_def Cons by (auto elim!: bindR_InrE)
  have "length js = length (takeWhile (\<lambda>x. \<not> P x) js) + length (dropWhile (\<lambda>x. \<not> P x) js)"
    by (metis length_append takeWhile_dropWhile_id)
  with s step_counts [OF s(1)] Cons show ?thesis by (cases r) auto
qed

end

lemma send_completion_counts:
  "send_completion e j a = Inr (r, a') \<Longrightarrow>
    ag_running_jobs a' = ag_running_jobs a - (if r = None then 1 else 0) \<and> ag_jobs a' = ag_jobs a \<and>
    ag_connected a' = ag_connected a \<and> ag_requests a' = ag_requests a"
  by (auto simp: send_completion_def removeJob_agentd_def Let_def same_jobs_def split: if_splits elim!: bindR_InrE dest!: sends_same)

interpretation counts_poll: counting_step "poll_job e" for e
  by unfold_locales
    (auto simp: poll_job_def collect_def Let_def split: if_splits prod.splits dest!: send_completion_counts)

interpretation counts_reap: counting_step "reap_job e st" for e st
  by unfold_locales
    (auto simp: reap_job_def collect_def Let_def split: if_splits prod.splits dest!: send_completion_counts)

lemma with_jobs_ok:
  assumes "with_jobs f a = Inr a'" and "agentd_ok a"
    and "\<And>js b. f (ag_jobs a) a = Inr (js, b) \<Longrightarrow> ag_running_jobs b - int (length js) = ag_running_jobs a - int (length (ag_jobs a)) \<and>
      ag_connected b = ag_connected a \<and> ag_requests b = ag_requests a"
  shows "agentd_ok a'"
  using assms by (fastforce simp: with_jobs_def agentd_ok_def elim!: bindR_InrE)

lemma reap_children_ok: "reap_children e cs a = Inr a' \<Longrightarrow> agentd_ok a \<Longrightarrow> agentd_ok a'"
proof (induction cs arbitrary: a)
  case (Cons c cs)
  obtain pid st where c: "c = (pid, st)" by (cases c)
  from Cons.prems(1) obtain a1 where a1: "with_jobs (on_first (\<lambda>j. rj_pid j = pid) (reap_job e st)) a = Inr a1" "reap_children e cs a1 = Inr a'"
    unfolding c by (auto elim!: bindR_InrE)
  have "agentd_ok a1" by (rule with_jobs_ok [OF a1(1) Cons.prems(2)]) (rule counts_reap.first_counts)
  then show ?case by (rule Cons.IH [OF a1(2)])
qed simp

lemma check_children_ok:
  assumes "check_children e cs a = Inr a'" and "agentd_ok a"
  shows "agentd_ok a'"
proof -
  obtain a1 where a1: "with_jobs (walk (poll_job e)) a = Inr a1" "reap_children e cs a1 = Inr a'"
    using assms(1) by (auto simp: check_children_def elim!: bindR_InrE)
  have "agentd_ok a1" by (rule with_jobs_ok [OF a1(1) assms(2)]) (rule counts_poll.walk_counts)
  then show ?thesis by (rule reap_children_ok [OF a1(2)])
qed

subsection \<open>Messages\<close>

text \<open>A message changes the jobs and the counter together and leaves the connection alone.\<close>

definition counted_alike :: "agentd \<Rightarrow> agentd \<Rightarrow> bool" where
  "counted_alike a a' \<longleftrightarrow> ag_running_jobs a' - int (length (ag_jobs a')) = ag_running_jobs a - int (length (ag_jobs a)) \<and>
     ag_connected a' = ag_connected a \<and> ag_requests a' = ag_requests a"

lemma same_counted: "same_jobs a a' \<Longrightarrow> counted_alike a a'"
  by (simp add: same_jobs_def counted_alike_def)

lemma start_command_counts: "start_command e se m a = Inr (st, a') \<Longrightarrow> counted_alike a a'"
  by (auto simp: start_command_def spawn_job_def addJob_agentd_def send_start_def send_job_initfail_def Let_def counted_alike_def same_jobs_def
      split: option.splits if_splits elim!: bindR_InrE dest!: sends_same)

lemma process_message_counts:
  assumes "process_message e se m a = Inr (st, a')"
  shows "counted_alike a a'"
proof -
  have signal: "counted_alike a a'" if "signal_command m a = Inr (st, a')"
    using that by (auto simp: signal_command_def counted_alike_def split: option.splits if_splits elim!: bindR_InrE)
  have recon: "counted_alike a a'" if "recon_command e m a = Inr (st, a')"
    using that by (auto simp: recon_command_def counted_alike_def same_jobs_def Let_def split: if_splits elim!: bindR_InrE dest!: sends_same)
  have complete: "counted_alike a (snd (recon_complete a))"
    using sum_length_filter_compl [of "\<lambda>j. rj_pid j = -1" "ag_jobs a"] by (simp add: recon_complete_def counted_alike_def)
  have auth: "counted_alike a a'" if "auth_challenge e m a = Inr (st, a')"
    using that by (auto simp: auth_challenge_def counted_alike_def same_jobs_def Let_def split: if_splits elim!: bindR_InrE dest!: sends_same)
  have proxy: "counted_alike a a'" if "proxy_response m a = Inr (st, a')"
    using that by (auto simp: proxy_response_def counted_alike_def split: if_splits elim!: bindR_InrE)
  have clear: "counted_alike a (snd (clearcache_command a))" by (simp add: clearcache_command_def counted_alike_def)
  have refl: "counted_alike a a" by (simp add: counted_alike_def)
  show ?thesis
    using assms signal recon complete auth proxy clear refl start_command_counts [of e se m a st a']
    unfolding process_message_def by (auto split: option.splits if_splits)
qed

lemma disconnect_ok: "agentd_ok a \<Longrightarrow> agentd_ok (disconnectFromDaemon e a)"
  by (simp add: agentd_ok_def disconnectFromDaemon_def drop_bytes_def)

lemma counted_ok: "counted_alike a a' \<Longrightarrow> agentd_ok a \<Longrightarrow> agentd_ok a'"
  by (auto simp: counted_alike_def agentd_ok_def)

lemma message_lines_ok:
  "message_lines e se p consumed a = Inr (n, a') \<Longrightarrow> agentd_ok a \<Longrightarrow> agentd_ok a'"
proof (induction p arbitrary: consumed a rule: length_induct)
  case (1 p)
  show ?case
  proof (cases "split_line p")
    case None
    with 1 show ?thesis by (subst (asm) message_lines.simps) simp
  next
    case (Some lr)
    obtain l rest where lr: "lr = (l, rest)" by (cases lr)
    with Some have shorter: "length rest < length p" by (simp add: split_line_shorter)
    from "1.prems"(1) Some lr consider "a' = disconnectFromDaemon e a"
      | a1 where "a' = disconnectFromDaemon e a1" "counted_alike a a1"
      | a1 where "counted_alike a a1" "message_lines e se rest (consumed + length l + 1) a1 = Inr (n, a')"
      by (subst (asm) message_lines.simps)
        (auto split: loaded.splits if_splits elim!: bindR_InrE dest!: process_message_counts)
    then show ?thesis
    proof cases
      case 3
      then show ?thesis using "1.IH" shorter counted_ok "1.prems"(2) by blast
    qed (use "1.prems"(2) in \<open>auto intro: disconnect_ok counted_ok\<close>)
  qed
qed

lemma process_messages_ok:
  assumes "process_messages e se a = Inr a'" and "agentd_ok a"
  shows "agentd_ok a'"
proof -
  obtain n a1 b where "message_lines e se (bdata (ag_requests a)) 0 a = Inr (n, a1)" and b: "buffRemove (ae_alloc e) (ag_requests a1) n False = Inr b"
    and a': "a' = a1\<lparr>ag_requests := b\<rparr>"
    using assms(1) by (auto simp: process_messages_def elim!: bindR_InrE)
  then have "agentd_ok a1" using message_lines_ok assms(2) by blast
  moreover have "bdata (ag_requests a1) = [] \<Longrightarrow> bdata b = []" using b by (auto simp: buffRemove_def Let_def split: if_splits)
  ultimately show ?thesis by (simp add: a' agentd_ok_def)
qed

subsection \<open>Proxied clients and the connection\<close>

lemma check_proxy_client_same: "check_proxy_client e c a = Inr (r, a') \<Longrightarrow> same_jobs a a'"
  by (auto simp: check_proxy_client_def proxy_cleanup_def send_proxy_close_def send_proxy_connect_def send_proxy_data_def Let_def
      same_jobs_def split: if_splits elim!: bindR_InrE dest!: sends_same)

lemma walk_same:
  assumes "\<And>x a r a'. f x a = Inr (r, a') \<Longrightarrow> same_jobs a a'"
  shows "walk f xs a = Inr (ys, a') \<Longrightarrow> same_jobs a a'"
proof (induction xs arbitrary: a ys)
  case (Cons x xs)
  then obtain r a1 zs where "f x a = Inr (r, a1)" "walk f xs a1 = Inr (zs, a')" by (auto elim!: bindR_InrE)
  then show ?case using assms [of x a r a1] Cons.IH [of a1 zs] by (simp add: same_jobs_def)
qed (simp add: same_jobs_def)

lemma check_proxy_clients_ok: "check_proxy_clients e a = Inr a' \<Longrightarrow> agentd_ok a \<Longrightarrow> agentd_ok a'"
  using walk_same [of "check_proxy_client e", OF check_proxy_client_same]
  by (fastforce simp: check_proxy_clients_def agentd_ok_def same_jobs_def elim!: bindR_InrE)

inductive agent_step :: "agentd \<Rightarrow> agentd \<Rightarrow> bool" where
  messages: "process_messages e se a = Inr a' \<Longrightarrow> agent_step a a'"
| children: "check_children e cs a = Inr a' \<Longrightarrow> agent_step a a'"
| proxies: "check_proxy_clients e a = Inr a' \<Longrightarrow> agent_step a a'"
| connect: "\<not> ag_connected a \<Longrightarrow> connectjers e ok a = Inr (st, a') \<Longrightarrow> agent_step a a'"
| readable: "ag_connected a \<Longrightarrow> daemon_readable e r a = Inr a' \<Longrightarrow> agent_step a a'"
| writable: "ag_connected a \<Longrightarrow> agent_step a (daemon_writable e sent a)"
| proxy_connection: "agent_step a (handleClientProxyConnection uid pid a)"
| proxy_read: "agent_step a (a\<lparr>ag_proxies := (ag_proxies a)[i := snd (handleClientProxyRead r (ag_proxies a ! i))]\<rparr>)"
| proxy_write: "agent_step a (a\<lparr>ag_proxies := (ag_proxies a)[i := snd (handleClientProxyWrite sent (ag_proxies a ! i))]\<rparr>)"
| job_output: "agent_step a (a\<lparr>ag_jobs := (ag_jobs a)[i := (ag_jobs a ! i)\<lparr>rj_socket := s\<rparr>]\<rparr>)"
| adopt_connection: "agent_step a (snd (handleJobAdoptConnection peer a))"
| adopt_read: "agent_step a (a\<lparr>ag_jobs := (ag_jobs a)[i := snd (handleJobAdoptRead r c (ag_jobs a ! i))]\<rparr>)"

inductive_cases agent_stepE: "agent_step a a'"

text \<open>The agent behind its start: the jobs of its predecessor adopted, no connection yet.\<close>

definition agent_start :: "agentd \<Rightarrow> bool" where
  "agent_start a \<longleftrightarrow> (\<exists>junk adopt procs a0. ag_jobs a0 = [] \<and> ag_running_jobs a0 = 0 \<and> bdata (ag_requests a0) = [] \<and>
     \<not> ag_connected a0 \<and> adoptionScan junk adopt procs a0 = Inr a)"

lemma adoptionScan_ok: "adoptionScan junk adopt procs a = Inr a' \<Longrightarrow> agentd_ok a \<Longrightarrow> agentd_ok a'"
proof (induction procs arbitrary: a)
  case (Cons l ls)
  from Cons.prems(1) consider "adoptionScan junk adopt ls a = Inr a'"
    | k pid jp st where "adoptionScan junk adopt ls (addOrphanJob k pid jp st a) = Inr a'"
    by (auto simp: Let_def split: if_splits option.splits)
  then show ?case
    by cases (use Cons.IH Cons.prems(2) in \<open>auto simp: addOrphanJob_def addJob_agentd_def agentd_ok_def\<close>)
qed simp

lemma length_update_first: "length (update_first P f xs) = length xs"
  by (induction xs) auto

lemma agent_step_ok: "agent_step a a' \<Longrightarrow> agentd_ok a \<Longrightarrow> agentd_ok a'"
proof (induction rule: agent_step.induct)
  case (messages e se a a')
  then show ?case by (rule process_messages_ok)
next
  case (children e cs a a')
  then show ?case by (rule check_children_ok)
next
  case (proxies e a a')
  then show ?case by (rule check_proxy_clients_ok)
next
  case (connect a e ok st a')
  then show ?case
    by (auto simp: connectjers_def send_login_def agentd_ok_def same_jobs_def split: if_splits elim!: bindR_InrE dest!: sends_same)
next
  case (readable a e r a')
  then show ?case
    by (auto simp: daemon_readable_def disconnect_ok agentd_ok_def split: received.splits if_splits elim!: bindR_InrE)
      (simp_all add: disconnectFromDaemon_def drop_bytes_def)
next
  case (writable a e sent)
  then show ?case
    by (auto simp: daemon_writable_def disconnect_ok split: option.split) (simp_all add: agentd_ok_def)
next
  case (adopt_connection a peer)
  then show ?case
    by (simp add: handleJobAdoptConnection_def agentd_ok_def length_update_first split: option.split)
qed (simp_all add: agentd_ok_def handleClientProxyConnection_def)

interpretation agent_loop: transition_system agent_step agentd_ok
  by unfold_locales (rule agent_step_ok)

section \<open>Properties\<close>

text \<open>C14. In every state the agent reaches, whatever connects, arrives, ends or fails, the counter of
  running jobs is the length of the list of jobs, and no byte of a lost connection is left to be
  read as part of the next one.\<close>

theorem agent_reachable_ok:
  assumes "agent_start a" and "agent_step\<^sup>*\<^sup>* a a'"
  shows "ag_running_jobs a' = int (length (ag_jobs a')) \<and> (\<not> ag_connected a' \<longrightarrow> bdata (ag_requests a') = [])"
proof -
  obtain junk adopt procs a0 where "ag_jobs a0 = []" "ag_running_jobs a0 = 0" "bdata (ag_requests a0) = []"
    and "adoptionScan junk adopt procs a0 = Inr a"
    using assms(1) by (auto simp: agent_start_def)
  then have "agentd_ok a" using adoptionScan_ok by (auto simp: agentd_ok_def)
  with assms(2) have "agentd_ok a'" by (rule agent_loop.inv_reachable)
  then show ?thesis by (simp add: agentd_ok_def)
qed

definition idle_agentd :: agentd where
  "idle_agentd = \<lparr>ag_requests = \<lparr>bdata = [], bsize = 65536\<rparr>, ag_responses = \<lparr>bdata = [], bsize = 4096\<rparr>, ag_responses_sent = 0,
     ag_writable = False, ag_in_recon = False, ag_secret = False, ag_nonce = None, ag_connected = False, ag_next_connect = 0,
     ag_jobs = [], ag_running_jobs = 0, ag_proxies = [], ag_users = \<lparr>uc_users = [], uc_clear = False\<rparr>, ag_signals = []\<rparr>"

theorem agent_reachable_ok_witness:
  "\<exists>a'. agent_step\<^sup>*\<^sup>* idle_agentd a' \<and> length (ag_proxies a') = 1 \<and> ag_running_jobs a' = int (length (ag_jobs a'))"
proof -
  have "agent_start idle_agentd"
    unfolding agent_start_def
    by (intro exI [of _ "[]"] exI [of _ "\<lambda>k n. None"] exI [of _ idle_agentd]) (simp add: idle_agentd_def)
  moreover have "agent_step\<^sup>*\<^sup>* idle_agentd (handleClientProxyConnection 100 60 idle_agentd)"
    by (rule r_into_rtranclp, rule agent_step.proxy_connection)
  ultimately show ?thesis
    using agent_reachable_ok by (fastforce simp: handleClientProxyConnection_def idle_agentd_def)
qed

end
