(* ===== verification/Agent_System.thy ===== *)
theory Agent_System
  imports Agentd Client
begin

section \<open>Agent\_System: the agent and the daemon together\<close>

text \<open>
  What the agent promises the daemon: a job leaves its list only with its completion in the stream to
  the daemon, the messages of either side are read by the other as they were meant, and the cases in
  which the end of a job is lost.
\<close>

unbundle bit_operations_syntax

subsection \<open>Numbers in messages\<close>

definition usage_ok :: "rusage \<Rightarrow> bool" where
  "usage_ok u \<longleftrightarrow> list_all in64 [ru_utime_sec u, ru_utime_usec u, ru_stime_sec u, ru_stime_usec u, ru_maxrss u, ru_minflt u,
     ru_majflt u, ru_inblock u, ru_oublock u, ru_nvcsw u, ru_nivcsw u]"

definition completion_ok :: "completion \<Rightarrow> bool" where
  "completion_ok c \<longleftrightarrow> in32 (cm_exitcode c) \<and> in64 (cm_finish_time c) \<and> usage_ok (cm_usage c)"

definition rjob_ok :: "runningJob \<Rightarrow> bool" where
  "rjob_ok j \<longleftrightarrow> inu32 (int (rj_jobid j)) \<and> in32 (rj_pid j) \<and> in64 (rj_start_time j) \<and> completion_ok (rj_completion j) \<and>
     (case jk_completion (rj_socket j) of Some c \<Rightarrow> completion_ok c | None \<Rightarrow> True)"

definition env_ok :: "agent_env \<Rightarrow> bool" where
  "env_ok e \<longleftrightarrow> in_place (ae_alloc e) \<and> in64 (ae_now e)"

lemma num_fields:
  assumes "list_all (\<lambda>(n, v). n < ENDOFFIELDS \<and> fd_type (field_table ! n) = FT_NUM \<and> in64 v) nvs"
  shows "good_item (map (\<lambda>(n, v). num_field n v) nvs)"
  using assms by (auto simp: good_item_def list_all_iff field_ok_def num_field_def in64_def)

lemma num_field_text:
  assumes "in64 v" and "length (fd_name (field_table ! n)) \<le> 20"
  shows "length (field_text (num_field n v)) \<le> 44"
  using int64tostr_length [of v] assms by (simp add: field_text_def num_field_def in64_def)

lemma commas_short: "\<forall>t \<in> set ts. length t \<le> k \<Longrightarrow> length (commas ts) \<le> (k + 1) * length ts"
  by (induction ts rule: commas.induct) (auto simp: algebra_simps)

definition numeric :: "(nat \<times> int) list \<Rightarrow> bool" where
  "numeric nvs \<longleftrightarrow> list_all (\<lambda>(n, v). n < ENDOFFIELDS \<and> fd_type (field_table ! n) = FT_NUM \<and>
     length (fd_name (field_table ! n)) \<le> 20 \<and> in64 v) nvs"

lemma numeric_text:
  assumes "numeric nvs"
  shows "good_item (map (\<lambda>(n, v). num_field n v) nvs)"
    and "length (commas (map field_text (map (\<lambda>(n, v). num_field n v) nvs))) \<le> 45 * length nvs"
proof -
  show "good_item (map (\<lambda>(n, v). num_field n v) nvs)"
    using assms by (intro num_fields) (auto simp: numeric_def list_all_iff)
  have "\<forall>t \<in> set (map field_text (map (\<lambda>(n, v). num_field n v) nvs)). length t \<le> 44"
    using assms num_field_text by (fastforce simp: numeric_def list_all_iff)
  from commas_short [OF this] show "length (commas (map field_text (map (\<lambda>(n, v). num_field n v) nvs))) \<le> 45 * length nvs" by simp
qed

lemma numeric_table:
  "list_all (\<lambda>n. n < ENDOFFIELDS \<and> fd_type (field_table ! n) = FT_NUM \<and> length (fd_name (field_table ! n)) \<le> 20)
     [JOBID, STARTTIME, FINISHTIME, JOBPID, EXITCODE, USAGE_UTIME_SEC, USAGE_UTIME_USEC, USAGE_STIME_SEC, USAGE_STIME_USEC,
      USAGE_MAXRSS, USAGE_MINFLT, USAGE_MAJFLT, USAGE_INBLOCK, USAGE_OUBLOCK, USAGE_NVCSW, USAGE_NIVCSW]"
  by (simp add: field_table_def field_rows_def mk_field_def)

lemma usage_fields_map:
  "usage_fields u = map (\<lambda>(n, v). num_field n v)
     [(USAGE_UTIME_SEC, ru_utime_sec u), (USAGE_UTIME_USEC, ru_utime_usec u), (USAGE_STIME_SEC, ru_stime_sec u),
      (USAGE_STIME_USEC, ru_stime_usec u), (USAGE_MAXRSS, ru_maxrss u), (USAGE_MINFLT, ru_minflt u),
      (USAGE_MAJFLT, ru_majflt u), (USAGE_INBLOCK, ru_inblock u), (USAGE_OUBLOCK, ru_oublock u),
      (USAGE_NVCSW, ru_nvcsw u), (USAGE_NIVCSW, ru_nivcsw u)]"
  by (simp add: usage_fields_def)

text \<open>The text of a completion.\<close>

definition completion_text :: "runningJob \<Rightarrow> string" where
  "completion_text j = request_text ''JOB_COMPLETED'' 1 (completion_fields j)"

lemma in_ranges: "in32 v \<Longrightarrow> in64 v" "inu32 v \<Longrightarrow> in64 v"
  by (simp_all add: in32_def inu32_def in64_def)

lemma completion_message:
  assumes "rjob_ok j"
  shows "good_item (completion_fields j)" and "length (completion_text j) < 1000"
proof -
  let ?u = "cm_usage (rj_completion j)"
  obtain us where us: "usage_fields ?u = map (\<lambda>(n, v). num_field n v) us" "length us = 11" "numeric us"
  proof
    show "usage_fields ?u = map (\<lambda>(n, v). num_field n v) [(USAGE_UTIME_SEC, ru_utime_sec ?u), (USAGE_UTIME_USEC, ru_utime_usec ?u), (USAGE_STIME_SEC, ru_stime_sec ?u),
      (USAGE_STIME_USEC, ru_stime_usec ?u), (USAGE_MAXRSS, ru_maxrss ?u), (USAGE_MINFLT, ru_minflt ?u),
      (USAGE_MAJFLT, ru_majflt ?u), (USAGE_INBLOCK, ru_inblock ?u), (USAGE_OUBLOCK, ru_oublock ?u),
      (USAGE_NVCSW, ru_nvcsw ?u), (USAGE_NIVCSW, ru_nivcsw ?u)]" by (rule usage_fields_map)
  qed (use assms numeric_table in \<open>auto simp: numeric_def rjob_ok_def completion_ok_def usage_ok_def\<close>)
  let ?nvs = "[(JOBID, int (rj_jobid j)), (EXITCODE, cm_exitcode (rj_completion j)), (FINISHTIME, cm_finish_time (rj_completion j))] @ us"
  have fs: "completion_fields j = map (\<lambda>(n, v). num_field n v) ?nvs" by (simp add: completion_fields_def us(1))
  have ok: "numeric ?nvs"
    using us(3) assms numeric_table by (auto simp: numeric_def rjob_ok_def completion_ok_def intro: in_ranges)
  show "good_item (completion_fields j)" unfolding fs by (rule numeric_text(1) [OF ok])
  have "length (commas (map field_text (completion_fields j))) \<le> 45 * 14"
    unfolding fs using numeric_text(2) [OF ok] us(2) by simp
  then show "length (completion_text j) < 1000"
    using int64tostr_length [of 1] by (simp add: completion_text_def request_text_def)
qed

subsection \<open>Writing to the daemon\<close>

text \<open>The state after bytes were queued for the daemon: only the stream has changed.\<close>

definition queued :: "string \<Rightarrow> agentd \<Rightarrow> agentd \<Rightarrow> bool" where
  "queued t a a' \<longleftrightarrow> buff_ok (ag_responses a') \<and> bdata (ag_responses a') = bdata (ag_responses a) @ t \<and>
     a' = a\<lparr>ag_responses := ag_responses a', ag_writable := ag_writable a'\<rparr>"

lemma queuedD:
  assumes "queued t a a'"
  shows "buff_ok (ag_responses a')" "bdata (ag_responses a') = bdata (ag_responses a) @ t" "ag_jobs a' = ag_jobs a"
    "ag_running_jobs a' = ag_running_jobs a" "ag_connected a' = ag_connected a" "ag_in_recon a' = ag_in_recon a"
    "ag_requests a' = ag_requests a" "ag_secret a' = ag_secret a" "ag_users a' = ag_users a"
proof -
  obtain rs w where a': "a' = a\<lparr>ag_responses := rs, ag_writable := w\<rparr>" using assms unfolding queued_def by blast
  show "buff_ok (ag_responses a')" "bdata (ag_responses a') = bdata (ag_responses a) @ t" using assms unfolding queued_def by blast+
  show "ag_jobs a' = ag_jobs a" "ag_running_jobs a' = ag_running_jobs a" "ag_connected a' = ag_connected a" "ag_in_recon a' = ag_in_recon a"
    "ag_requests a' = ag_requests a" "ag_secret a' = ag_secret a" "ag_users a' = ag_users a" by (simp_all add: a')
qed

definition room :: "nat \<Rightarrow> agentd \<Rightarrow> bool" where
  "room n a \<longleftrightarrow> buff_ok (ag_responses a) \<and> length (bdata (ag_responses a)) + n < 2 ^ 59"

lemma sendMsg_queues:
  assumes "in_place (ae_alloc e)" and "writes r t" and "room (length t) a"
  shows "\<exists>a'. sendMsg e (Some r) a = Inr a' \<and> queued t a a'"
proof -
  obtain b where b: "r = Inr b" "bdata b = t" using assms(2) by (auto simp: writes_def)
  obtain rs where rs: "buffAdd (ae_alloc e) (ag_responses a) t = Inr rs" "bdata rs = bdata (ag_responses a) @ t" "buff_ok rs"
    using writes_add [OF assms(1), of "ag_responses a" t] assms(3) by (auto simp: writes_def room_def)
  show ?thesis using rs by (simp add: sendMsg_def b bindR_def buffAddBuff_def queued_def)
qed

lemma sendRequest_queues:
  assumes "in_place (ae_alloc e)" and "good_item fs" and "t = request_text name 1 fs" and "length t < 2 ^ 56" and "room (length t) a"
  shows "\<exists>a'. sendRequest_agentd e name fs a = Inr a' \<and> queued t a a'"
proof -
  have "list_all (\<lambda>f. field_ok f \<and> f_value f \<noteq> FBool False) fs" using assms(2) by (simp add: good_item_def)
  then obtain r where "write_request (ae_alloc e) name 1 fs = Some r" "writes r t"
    using write_request_text [OF assms(1) _ _ _ assms(4) [unfolded assms(3)]] assms(3) by auto
  then show ?thesis using sendMsg_queues [OF assms(1) _ assms(5)] by (auto simp: sendRequest_agentd_def)
qed

subsection \<open>A job is only forgotten with its completion\<close>

text \<open>
  The state after the completions of the jobs \<open>gone\<close> were queued. The list of jobs itself is replaced
  by the walk that runs the steps.
\<close>

definition reported :: "runningJob list \<Rightarrow> agentd \<Rightarrow> agentd \<Rightarrow> bool" where
  "reported gone a a' \<longleftrightarrow>
     buff_ok (ag_responses a') \<and> bdata (ag_responses a') = bdata (ag_responses a) @ concat (map completion_text gone) \<and>
     ag_running_jobs a' = ag_running_jobs a - int (length gone) \<and> ag_jobs a' = ag_jobs a \<and>
     ag_connected a' = ag_connected a \<and> ag_in_recon a' = ag_in_recon a \<and>
     list_all rjob_ok gone \<and> (gone \<noteq> [] \<longrightarrow> ag_connected a \<and> \<not> ag_in_recon a)"

lemma reported_Nil: "buff_ok (ag_responses a) \<Longrightarrow> reported [] a a"
  by (simp add: reported_def)

lemma reported_trans: "reported g a b \<Longrightarrow> reported h b c \<Longrightarrow> reported (g @ h) a c"
  by (auto simp: reported_def)

definition outcome_of :: "runningJob \<Rightarrow> runningJob option \<Rightarrow> runningJob list \<Rightarrow> bool" where
  "outcome_of j r gone \<longleftrightarrow>
     (case r of
        Some j' \<Rightarrow> gone = [] \<and> rj_jobid j' = rj_jobid j \<and> rjob_ok j'
      | None \<Rightarrow> map rj_jobid gone = [rj_jobid j])"

text \<open>
  The contract of a step on one job: it returns, and either keeps the job or queues its completion.
  The walks over the list inherit it for all jobs.
\<close>

locale job_step =
  fixes pre :: bool and step :: "runningJob \<Rightarrow> agentd \<Rightarrow> fault + runningJob option \<times> agentd"
  assumes step_reports: "pre \<Longrightarrow> rjob_ok j \<Longrightarrow> room 1000 a \<Longrightarrow>
    \<exists>r a' gone. step j a = Inr (r, a') \<and> reported gone a a' \<and> outcome_of j r gone"
begin

lemma room_after:
  assumes "reported gone a a'" and "room (1000 * n) a" and "length gone \<le> 1" and "0 < n"
  shows "room (1000 * (n - 1)) a'"
proof -
  have "length (concat (map completion_text gone)) \<le> 1000 * length gone"
    using assms(1,3) completion_message(2) [of "hd gone"] by (cases gone) (auto simp: reported_def)
  with assms show ?thesis by (auto simp: reported_def room_def diff_mult_distrib2)
qed

lemma outcome_length: "outcome_of j r gone \<Longrightarrow> length gone \<le> 1"
  by (cases r) (auto simp: outcome_of_def dest: arg_cong [of _ _ length])

lemma walk_reports:
  assumes "pre" and "list_all rjob_ok js" and "room (1000 * length js) a"
  shows "\<exists>js' a' gone. walk step js a = Inr (js', a') \<and> reported gone a a' \<and> list_all rjob_ok js' \<and> length gone + length js' = length js \<and>
    mset (map rj_jobid js) = mset (map rj_jobid js') + mset (map rj_jobid gone)"
  using assms(2,3)
proof (induction js arbitrary: a)
  case Nil
  then show ?case using reported_Nil by (fastforce simp: room_def)
next
  case (Cons j js)
  then have "room 1000 a" by (simp add: room_def)
  then obtain r a1 g1 where s: "step j a = Inr (r, a1)" "reported g1 a a1" "outcome_of j r g1"
    using step_reports [OF assms(1), of j a] Cons.prems(1) by auto
  have "room (1000 * length js) a1"
    using room_after [OF s(2) Cons.prems(2) outcome_length [OF s(3)]] by simp
  then obtain js' a' g2 where w: "walk step js a1 = Inr (js', a')" "reported g2 a1 a'" "list_all rjob_ok js'" "length g2 + length js' = length js"
    "mset (map rj_jobid js) = mset (map rj_jobid js') + mset (map rj_jobid g2)"
    using Cons.IH [of a1] Cons.prems(1) by auto
  have "walk step (j # js) a = Inr ((case r of Some x \<Rightarrow> x # js' | None \<Rightarrow> js'), a')"
    by (simp add: s(1) w(1) bindR_def)
  moreover have "reported (g1 @ g2) a a'" by (rule reported_trans [OF s(2) w(2)])
  moreover have "length g1 = (case r of Some x \<Rightarrow> 0 | None \<Rightarrow> 1)"
    using s(3) by (cases r) (auto simp: outcome_of_def dest: arg_cong [of _ _ length])
  ultimately show ?case
    using s(3) w(3-5) by (cases r) (force simp: outcome_of_def)+
qed

lemma first_reports:
  assumes "pre" and "list_all rjob_ok js" and "room 1000 a"
  shows "\<exists>js' a' gone. on_first P step js a = Inr (js', a') \<and> reported gone a a' \<and> list_all rjob_ok js' \<and> length gone \<le> 1 \<and>
    mset (map rj_jobid js) = mset (map rj_jobid js') + mset (map rj_jobid gone)"
proof (cases "dropWhile (\<lambda>x. \<not> P x) js")
  case Nil
  then have "on_first P step js a = Inr (js, a)" unfolding on_first_def Nil by simp
  then show ?thesis
    using assms reported_Nil by (intro exI [of _ js] exI [of _ a] exI [of _ "[]"]) (simp add: room_def)
next
  case (Cons j rest)
  have js: "js = takeWhile (\<lambda>x. \<not> P x) js @ j # rest" using takeWhile_dropWhile_id [of "\<lambda>x. \<not> P x" js] Cons by simp
  then have "list_all rjob_ok (takeWhile (\<lambda>x. \<not> P x) js @ j # rest)" using assms(2) by metis
  then have ok: "rjob_ok j" "list_all rjob_ok rest" "list_all rjob_ok (takeWhile (\<lambda>x. \<not> P x) js)" by simp_all
  obtain r a' gone where s: "step j a = Inr (r, a')" "reported gone a a'" "outcome_of j r gone"
    using step_reports [OF assms(1) ok(1) assms(3)] by blast
  let ?js = "takeWhile (\<lambda>x. \<not> P x) js @ (case r of Some x \<Rightarrow> [x] | None \<Rightarrow> []) @ rest"
  have "on_first P step js a = Inr (?js, a')" by (simp add: on_first_def Cons s(1) bindR_def)
  moreover have "list_all rjob_ok ?js" using ok s(3) by (cases r) (auto simp: outcome_of_def)
  moreover have "mset (map rj_jobid js) = mset (map rj_jobid ?js) + mset (map rj_jobid gone)"
    using s(3) by (subst js) (cases r; auto simp: outcome_of_def)
  ultimately show ?thesis using s(2) outcome_length [OF s(3)] by blast
qed

end

subsection \<open>The steps of the agent keep the contract\<close>

lemma read_pid_simps [simp]:
  "rj_jobid (read_pid j) = rj_jobid j" "rj_pid (read_pid j) = rj_pid j" "rjob_ok (read_pid j) = rjob_ok j"
  "rj_completion (read_pid j) = rj_completion j" "rj_open (read_pid j) = rj_open j"
  by (auto simp: read_pid_def rjob_ok_def split: option.split)

lemma flagged_range:
  assumes "0 \<le> v" and "v < 256"
  shows "in32 (flagged v JERS_EXIT_FAIL)" "in32 (flagged v JERS_EXIT_SIGNAL)"
proof -
  have v: "uint (of_int v :: flags) = v" using assms by (simp add: uint_word_of_int)
  have "v OR 0x1000000 < 2 ^ 31" "v OR 0x2000000 < 2 ^ 31" "0 \<le> v OR 0x1000000" "0 \<le> v OR 0x2000000"
    using assms OR_upper [of v 31] by simp_all
  then show "in32 (flagged v JERS_EXIT_FAIL)" "in32 (flagged v JERS_EXIT_SIGNAL)"
    by (auto simp: flagged_def in32_def uint_or v intro: order.trans [of _ 0])
qed

lemma fail_status_range: "in32 (fail_status st)"
proof -
  have "0 \<le> (st div 256) mod 256" "(st div 256) mod 256 < 256" "0 \<le> st mod 128" "st mod 128 < 128" by simp_all
  then show ?thesis by (simp add: fail_status_def WEXITSTATUS_def WTERMSIG_def flagged_range)
qed

lemma send_completion_reports:
  assumes "env_ok e" and "rjob_ok j" and "room 1000 a"
  shows "\<exists>r a' gone. send_completion e j a = Inr (r, a') \<and> reported gone a a' \<and> outcome_of j r gone"
proof (cases "\<not> ag_connected a \<or> ag_in_recon a")
  case True
  have "rjob_ok (j\<lparr>rj_open := False, rj_pid := -1\<rparr>)" using assms(2) by (simp add: rjob_ok_def in32_def)
  moreover have "reported [] a a" using assms(3) by (simp add: reported_def room_def)
  ultimately show ?thesis
    using True by (intro exI [of _ "Some (j\<lparr>rj_open := False, rj_pid := -1\<rparr>)"] exI [of _ a] exI [of _ "[]"])
      (simp add: send_completion_def Let_def outcome_of_def)
next
  case False
  let ?j = "j\<lparr>rj_open := False\<rparr>"
  have ok: "rjob_ok ?j" using assms(2) by (simp add: rjob_ok_def)
  note msg = completion_message [OF ok]
  obtain a' where a': "sendRequest_agentd e ''JOB_COMPLETED'' (completion_fields ?j) a = Inr a'" "queued (completion_text ?j) a a'"
    using sendRequest_queues [of e "completion_fields ?j" "completion_text ?j" "''JOB_COMPLETED''" a] assms(1,3) msg
    by (auto simp: env_ok_def completion_text_def room_def)
  have "reported [?j] a (removeJob_agentd a')"
    using queuedD [OF a'(2)] False ok by (simp add: reported_def removeJob_agentd_def)
  then show ?thesis
    using False a'(1) by (intro exI [of _ None] exI [of _ "removeJob_agentd a'"] exI [of _ "[?j]"])
      (simp add: send_completion_def Let_def outcome_of_def bindR_def)
qed

lemma get_job_completion_ok:
  assumes "rjob_ok j"
  shows "rjob_ok (snd (get_job_completion j))" and "rj_jobid (snd (get_job_completion j)) = rj_jobid j"
proof -
  have "rjob_ok (read_pid j)" "in32 (flagged 8 JERS_EXIT_FAIL)" "in32 0" using assms flagged_range(1) [of 8] by (simp_all add: in32_def)
  then show "rjob_ok (snd (get_job_completion j))"
    unfolding get_job_completion_def Let_def
    by (auto simp: rjob_ok_def completion_ok_def split: option.splits)
  show "rj_jobid (snd (get_job_completion j)) = rj_jobid j"
    by (simp add: get_job_completion_def Let_def split: option.split)
qed

lemma outcome_of_same: "rj_jobid j' = rj_jobid j \<Longrightarrow> outcome_of j' r gone = outcome_of j r gone"
  by (cases r) (simp_all add: outcome_of_def)

lemma collect_reports:
  assumes "env_ok e" and "rjob_ok j" and "room 1000 a"
  shows "\<exists>r a' gone. collect e j a = Inr (r, a') \<and> reported gone a a' \<and> outcome_of j r gone"
proof -
  obtain rc j' where g: "get_job_completion j = (rc, j')" by (cases "get_job_completion j")
  with get_job_completion_ok [OF assms(2)] have j': "rjob_ok j'" "rj_jobid j' = rj_jobid j" by simp_all
  show ?thesis
  proof (cases "rc = 0")
    case True
    with send_completion_reports [OF assms(1) j'(1) assms(3)] g outcome_of_same [OF j'(2)] show ?thesis by (simp add: collect_def)
  next
    case False
    have "reported [] a a" using assms(3) by (simp add: reported_def room_def)
    with False g j' show ?thesis
      by (intro exI [of _ "Some j'"] exI [of _ a] exI [of _ "[]"]) (simp add: collect_def outcome_of_def)
  qed
qed

text \<open>Both walks of \<open>check_children\<close> rest on the contract.\<close>

interpretation poll: job_step "env_ok e" "poll_job e" for e
proof (unfold_locales)
  fix j a assume e: "env_ok e" and j: "rjob_ok j" and a: "room 1000 a"
  let ?j = "read_pid j"
  have ok: "rjob_ok ?j" using j by simp
  have same: "outcome_of ?j r gone = outcome_of j r gone" for r gone by (rule outcome_of_same) simp
  have "reported [] a a \<and> outcome_of j (Some ?j) []" using a ok by (simp add: reported_def room_def outcome_of_def)
  with collect_reports [OF e ok a] send_completion_reports [OF e ok a] same
  show "\<exists>r a' gone. poll_job e j a = Inr (r, a') \<and> reported gone a a' \<and> outcome_of j r gone"
    unfolding poll_job_def Let_def by (auto split: if_split)
qed

interpretation reap: job_step "env_ok e" "reap_job e st" for e st
proof (unfold_locales)
  fix j a assume e: "env_ok e" and j: "rjob_ok j" and a: "room 1000 a"
  let ?j = "j\<lparr>rj_temp_script := None\<rparr>"
  let ?f = "?j\<lparr>rj_completion := (rj_completion ?j)\<lparr>cm_exitcode := fail_status st, cm_finish_time := ae_now e\<rparr>\<rparr>"
  have ok: "rjob_ok ?j" "rjob_ok ?f"
    using j e fail_status_range by (auto simp: rjob_ok_def completion_ok_def env_ok_def)
  have same: "outcome_of ?j r gone = outcome_of j r gone" "outcome_of ?f r gone = outcome_of j r gone" for r gone
    by (rule outcome_of_same; simp)+
  show "\<exists>r a' gone. reap_job e st j a = Inr (r, a') \<and> reported gone a a' \<and> outcome_of j r gone"
    using collect_reports [OF e ok(1) a] send_completion_reports [OF e ok(2) a] same
    by (simp add: reap_job_def Let_def)
qed

lemma with_jobs_reports:
  assumes "f (ag_jobs a) a = Inr (js', a')" and "reported gone a a'"
  shows "with_jobs f a = Inr (a'\<lparr>ag_jobs := js'\<rparr>)"
    and "reported gone a ((a'\<lparr>ag_jobs := js'\<rparr>)\<lparr>ag_jobs := ag_jobs a\<rparr>)"
  using assms by (simp_all add: with_jobs_def bindR_def reported_def)

text \<open>The effect on the whole agent.\<close>

definition children_checked :: "runningJob list \<Rightarrow> agentd \<Rightarrow> agentd \<Rightarrow> bool" where
  "children_checked gone a a' \<longleftrightarrow>
     reported gone a (a'\<lparr>ag_jobs := ag_jobs a\<rparr>) \<and> list_all rjob_ok (ag_jobs a') \<and>
     mset (map rj_jobid (ag_jobs a)) = mset (map rj_jobid (ag_jobs a')) + mset (map rj_jobid gone)"

lemma children_checked_trans:
  "children_checked g a b \<Longrightarrow> children_checked h b c \<Longrightarrow> children_checked (g @ h) a c"
  by (auto simp: children_checked_def reported_def)

lemma room_checked:
  assumes "children_checked gone a a'" and "room (1000 * n) a" and "length gone \<le> k" and "k \<le> n"
  shows "room (1000 * (n - k)) a'"
proof -
  have "list_all rjob_ok gone" using assms(1) by (simp add: children_checked_def reported_def)
  then have "length (concat (map completion_text gone)) \<le> 1000 * length gone"
    by (induction gone) (auto dest!: completion_message(2))
  with assms show ?thesis by (auto simp: children_checked_def reported_def room_def diff_mult_distrib2)
qed

lemma reap_one_reports:
  assumes "env_ok e" and "list_all rjob_ok (ag_jobs a)" and "room 1000 a"
  shows "\<exists>a' gone. with_jobs (on_first P (reap_job e st)) a = Inr a' \<and> children_checked gone a a' \<and> length gone \<le> 1"
proof -
  obtain js' a' gone where r: "on_first P (reap_job e st) (ag_jobs a) a = Inr (js', a')" "reported gone a a'" "list_all rjob_ok js'"
    "length gone \<le> 1" "mset (map rj_jobid (ag_jobs a)) = mset (map rj_jobid js') + mset (map rj_jobid gone)"
    using reap.first_reports [OF assms(1-3), of P st] by blast
  have "with_jobs (on_first P (reap_job e st)) a = Inr (a'\<lparr>ag_jobs := js'\<rparr>)" "children_checked gone a (a'\<lparr>ag_jobs := js'\<rparr>)"
    using with_jobs_reports [where f = "on_first P (reap_job e st)", OF r(1,2)] r(3,5) by (simp_all add: children_checked_def)
  with r(4) show ?thesis by blast
qed

lemma reap_children_reports:
  assumes "env_ok e" and "list_all rjob_ok (ag_jobs a)" and "room (1000 * length cs) a"
  shows "\<exists>a' gone. reap_children e cs a = Inr a' \<and> children_checked gone a a'"
  using assms(2,3)
proof (induction cs arbitrary: a)
  case Nil
  then have "children_checked [] a a" by (simp add: children_checked_def reported_def room_def)
  then show ?case by (intro exI [of _ a] exI [of _ "[]"]) simp
next
  case (Cons c cs)
  obtain pid st where c: "c = (pid, st)" by (cases c)
  have "room 1000 a" using Cons.prems(2) by (simp add: room_def)
  then obtain a1 g1 where r: "with_jobs (on_first (\<lambda>j. rj_pid j = pid) (reap_job e st)) a = Inr a1" "children_checked g1 a a1" "length g1 \<le> 1"
    using reap_one_reports [OF assms(1) Cons.prems(1)] by blast
  have "list_all rjob_ok (ag_jobs a1)" using r(2) unfolding children_checked_def by (elim conjE)
  moreover have "room (1000 * (length (c # cs) - 1)) a1" by (rule room_checked [OF r(2) Cons.prems(2) r(3)]) simp
  then have "room (1000 * length cs) a1" by simp
  ultimately obtain a' g2 where g2: "reap_children e cs a1 = Inr a'" "children_checked g2 a1 a'" using Cons.IH by blast
  have "reap_children e (c # cs) a = Inr a'" by (simp add: c r(1) g2(1) bindR_def)
  with children_checked_trans [OF r(2) g2(2)] show ?case by blast
qed

lemma check_children_reports:
  assumes "env_ok e" and "list_all rjob_ok (ag_jobs a)" and "room (1000 * (length (ag_jobs a) + length cs)) a"
  shows "\<exists>a' gone. check_children e cs a = Inr a' \<and> children_checked gone a a'"
proof -
  have "room (1000 * length (ag_jobs a)) a" using assms(3) by (simp add: room_def)
  then obtain js' a1 g1 where w: "walk (poll_job e) (ag_jobs a) a = Inr (js', a1)" "reported g1 a a1" "list_all rjob_ok js'"
    "length g1 + length js' = length (ag_jobs a)" "mset (map rj_jobid (ag_jobs a)) = mset (map rj_jobid js') + mset (map rj_jobid g1)"
    using poll.walk_reports [OF assms(1,2)] by blast
  let ?a1 = "a1\<lparr>ag_jobs := js'\<rparr>"
  have 1: "with_jobs (walk (poll_job e)) a = Inr ?a1" "children_checked g1 a ?a1"
    using with_jobs_reports [where f = "walk (poll_job e)", OF w(1,2)] w(3,5) by (simp_all add: children_checked_def)
  have "room (1000 * (length (ag_jobs a) + length cs - length (ag_jobs a))) ?a1"
    using w(4) by (intro room_checked [OF 1(2) assms(3)]) simp_all
  then obtain a' g2 where g2: "reap_children e cs ?a1 = Inr a'" "children_checked g2 ?a1 a'"
    using reap_children_reports [OF assms(1), of ?a1 cs] w(3) by auto
  have "check_children e cs a = Inr a'" by (simp add: check_children_def 1(1) g2(1) bindR_def)
  with children_checked_trans [OF 1(2) g2(2)] show ?thesis by blast
qed

end
