(* ===== verification/Agent_Protocol.thy ===== *)
theory Agent_Protocol
  imports Agent_System
begin

section \<open>Agent\_Protocol: what the messages between agent and daemon do\<close>

text \<open>
  The messages of one side are written, read and run by the other: the start of a job, its end with
  the exit code, and the reconciliation after a reconnect.
\<close>

unbundle bit_operations_syntax

subsection \<open>Exit codes\<close>

lemma code_bits:
  assumes "0 \<le> v" and "v < 256"
  shows "(of_int v :: flags) AND 0xFF = of_int v" "uint (of_int v :: flags) = v"
proof -
  show u: "uint (of_int v :: flags) = v" using assms by (simp add: uint_word_of_int)
  have "v AND 255 = v"
    using assms take_bit_eq_mask [of 8 v] by (simp add: mask_eq_exp_minus_1 take_bit_int_eq_self)
  then show "(of_int v :: flags) AND 0xFF = of_int v"
    by (intro word_uint_eqI) (simp add: uint_and u)
qed

lemma low_bits:
  assumes "0 \<le> v" and "v < 256" and "(0xFF :: flags) AND f = 0"
  shows "((of_int v :: flags) OR f) AND 0xFF = of_int v" "((of_int v :: flags) OR f) AND f = f"
    "(0xFF :: flags) AND g = 0 \<Longrightarrow> f AND g = 0 \<Longrightarrow> ((of_int v :: flags) OR f) AND g = 0"
proof -
  let ?w = "of_int v :: flags"
  note w = code_bits(1) [OF assms(1,2)]
  have f: "f AND 0xFF = 0" using assms(3) by (simp add: and.commute)
  show "(?w OR f) AND 0xFF = ?w" by (simp add: bit.conj_disj_distrib2 w f)
  show "(?w OR f) AND f = f" by (simp add: or.commute)
  assume g: "(0xFF :: flags) AND g = 0" "f AND g = 0"
  have "?w AND g = (?w AND 0xFF) AND g" by (simp only: w)
  also have "\<dots> = 0" by (simp only: and.assoc g(1)) simp
  finally show "(?w OR f) AND g = 0" by (simp add: bit.conj_disj_distrib2 g(2))
qed

lemma exit_code_status:
  assumes "0 \<le> v" and "v < 256"
  shows "exit_code (of_int (flagged v 0)) = v" "\<not> has_flag (of_int (flagged v 0) :: flags) JERS_EXIT_FAIL"
    "\<not> has_flag (of_int (flagged v 0) :: flags) JERS_EXIT_SIGNAL" "flagged v 0 = v"
proof -
  note low = low_bits [OF assms, of 0]
  show "flagged v 0 = v" by (simp add: flagged_def code_bits [OF assms])
  then show n: "\<not> has_flag (of_int (flagged v 0) :: flags) JERS_EXIT_FAIL" "\<not> has_flag (of_int (flagged v 0) :: flags) JERS_EXIT_SIGNAL"
    using low(3) [of JERS_EXIT_FAIL] low(3) [of JERS_EXIT_SIGNAL] by (simp_all add: has_flag_def)
  with \<open>flagged v 0 = v\<close> show "exit_code (of_int (flagged v 0)) = v"
    using code_bits [OF assms] by (simp add: exit_code_def)
qed

lemma exit_code_signal:
  assumes "0 \<le> v" and "v < 128"
  shows "exit_code (of_int (flagged v JERS_EXIT_SIGNAL)) = v + 128"
    "\<not> has_flag (of_int (flagged v JERS_EXIT_SIGNAL) :: flags) JERS_EXIT_FAIL"
    "has_flag (of_int (flagged v JERS_EXIT_SIGNAL) :: flags) JERS_EXIT_SIGNAL"
    "uint ((of_int (flagged v JERS_EXIT_SIGNAL) :: flags) AND JERS_EXIT_STATUS_MASK) = v"
proof -
  have v: "0 \<le> v" "v < 256" using assms by simp_all
  note low = low_bits [OF v, of JERS_EXIT_SIGNAL]
  have w: "(of_int (flagged v JERS_EXIT_SIGNAL) :: flags) = of_int v OR JERS_EXIT_SIGNAL" by (simp add: flagged_def)
  show n: "\<not> has_flag (of_int (flagged v JERS_EXIT_SIGNAL) :: flags) JERS_EXIT_FAIL"
    "has_flag (of_int (flagged v JERS_EXIT_SIGNAL) :: flags) JERS_EXIT_SIGNAL"
    unfolding w has_flag_def using low(2) low(3) [of JERS_EXIT_FAIL] by simp_all
  show u: "uint ((of_int (flagged v JERS_EXIT_SIGNAL) :: flags) AND JERS_EXIT_STATUS_MASK) = v"
    unfolding w using low(1) code_bits(2) [OF v] by simp
  show "exit_code (of_int (flagged v JERS_EXIT_SIGNAL)) = v + 128"
    using n u by (simp add: exit_code_def)
qed

subsection \<open>The completion at the daemon\<close>

definition completion_event :: "runningJob \<Rightarrow> job_event" where
  "completion_event j =
     \<lparr>je_jobid = rj_jobid j, je_start_time = 0, je_finish_time = cm_finish_time (rj_completion j), je_pid = 0,
      je_exitcode = cm_exitcode (rj_completion j), je_usage = cm_usage (rj_completion j)\<rparr>"

lemma usage_received: "fold completed_field (usage_fields u) e = e\<lparr>je_usage := u\<rparr>"
  by (simp add: usage_fields_def completed_field_def event_field_def usage_field_def Let_def)

lemma completion_received:
  assumes "rjob_ok j"
  shows "fold completed_field (completion_fields j) job_event_zero = completion_event j"
proof -
  have "nat (uint32 (int (rj_jobid j))) = rj_jobid j" "int32 (cm_exitcode (rj_completion j)) = cm_exitcode (rj_completion j)"
    using assms by (simp_all add: rjob_ok_def completion_ok_def inu32_def in32_def cint_id cuint_id)
  then show ?thesis
    unfolding completion_fields_def
    by (simp add: usage_received) (simp add: completed_field_def event_field_def job_event_zero_def completion_event_def Let_def)
qed

lemma completion_loaded:
  assumes "rjob_ok j"
  shows "load_message fresh (Some sortfields) (completion_text j) =
    Loaded \<lparr>m_command = Some ''JOB_COMPLETED'', m_error = None, m_version = 1,
      m_items = [first_item fresh (completion_fields j)], m_alert = None\<rparr>"
proof -
  have up: "uppercasestring ''JOB_COMPLETED'' = ''JOB_COMPLETED''" by code_simp
  show ?thesis
    using request_at_daemon [OF completion_message(1) [OF assms] _ up, of fresh] by (simp add: completion_text_def plain_name_def)
qed

lemma job_completed_found:
  assumes "tkeys j_jobid (jobTable s)" and "findJob s (je_jobid e) = Some j"
  shows "\<exists>j'. findJob (job_completed e j s) (je_jobid e) = Some j' \<and> j_exitcode j' = exit_code (of_int (je_exitcode e)) \<and>
    j_state j' = (if exit_code (of_int (je_exitcode e)) \<noteq> 0 then JERS_JOB_EXITED else JERS_JOB_COMPLETED) \<and>
    (\<not> has_flag (of_int (je_exitcode e)) JERS_EXIT_FAIL \<and> has_flag (of_int (je_exitcode e)) JERS_EXIT_SIGNAL \<longrightarrow>
       j_signal j' = uint ((of_int (je_exitcode e) :: flags) AND JERS_EXIT_STATUS_MASK)) \<and>
    j_finish_time j' = je_finish_time e \<and> j_usage j' = je_usage e \<and> j_pid j' = -1"
proof -
  let ?x = "of_int (je_exitcode e) :: flags" and ?k = "je_jobid e"
  define upd where "upd = (\<lambda>j :: job. j\<lparr>j_exitcode := exit_code ?x,
    j_fail_reason := (if has_flag ?x JERS_EXIT_FAIL then uint (?x AND JERS_EXIT_STATUS_MASK) else j_fail_reason j),
    j_signal := (if \<not> has_flag ?x JERS_EXIT_FAIL \<and> has_flag ?x JERS_EXIT_SIGNAL then uint (?x AND JERS_EXIT_STATUS_MASK) else j_signal j),
    j_pid := -1, j_finish_time := je_finish_time e, j_usage := je_usage e\<rparr>)"
  define s1 where "s1 = (if j_req_resources j \<noteq> [] then deallocateRes j s else s)"
  have s1: "jobTable s1 = jobTable s" by (simp add: s1_def)
  have key: "j_jobid (upd x) = j_jobid x" for x by (simp add: upd_def)
  from s1 assms(2) have "findJob s1 ?k = Some j" by (simp add: findJob_def)
  then have f1: "findJob (on_job ?k upd s1) ?k = Some (upd j)" by (subst findJob_on_job) (simp_all add: key)
  have keys: "tkeys j_jobid (jobTable (on_job ?k upd s1))" using assms(1) s1 key by (simp add: tkeys_tupd)
  let ?st = "if exit_code ?x \<noteq> 0 then JERS_JOB_EXITED else JERS_JOB_COMPLETED"
  let ?j2 = "(requeue ?st None (upd j))\<lparr>j_revision := j_revision (upd j) + 1, j_dirty := j_dirty (upd j) \<or> True\<rparr>"
  have f2: "findJob (changeJobState ?k ?st None True (on_job ?k upd s1)) ?k = Some ?j2"
    using findJob_changeJobState [OF keys] f1 by simp
  have "findJob (job_completed e j s) ?k = Some (?j2\<lparr>j_internal_state := clear_flag (j_internal_state ?j2) JERS_FLAG_JOB_STARTED\<rparr>)"
  proof -
    have eq: "findJob (t\<lparr>stats_total := x\<rparr>) n = findJob t n" for t x n by (simp add: findJob_def)
    show ?thesis
      unfolding job_completed_def Let_def eq s1_def [symmetric] upd_def [symmetric]
      by (subst findJob_on_job) (use f2 in simp_all)
  qed
  then show ?thesis by (simp add: requeue_def upd_def)
qed

subsection \<open>The start of a job\<close>

text \<open>What the agent is told of a job.\<close>

definition spawn_of :: "server \<Rightarrow> job \<Rightarrow> jersJobSpawn" where
  "spawn_of s j =
     \<lparr>sp_jobid = j_jobid j, sp_name = Some (j_jobname j), sp_queue = Some (j_queue j), sp_shell = j_shell j,
      sp_wrapper = j_wrapper j, sp_temp_script = None,
      sp_pre_command = (if j_wrapper j = None then j_pre_cmd j else None),
      sp_post_command = (if j_wrapper j = None then j_post_cmd j else None),
      sp_uid = j_uid j, sp_nice = start_nice s j, sp_flags = j_flags j, sp_argv = j_argv j, sp_envs = j_envs j,
      sp_resources = map Some (convertResourceToStrings (j_req_resources j)), sp_stdout = j_stdout j, sp_stderr = j_stderr j\<rparr>"

definition startable :: "server \<Rightarrow> job \<Rightarrow> bool" where
  "startable s j \<longleftrightarrow> inu32 (int (j_jobid j)) \<and> inu32 (j_uid j) \<and> in32 (start_nice s j) \<and> good_item (start_fields s j)"

lemma spawn_pieces:
  "spawn_field (num_field JOBID v) j = j\<lparr>sp_jobid := nat (uint32 v)\<rparr>"
  "spawn_field (str_field JOBNAME (Some x)) j = j\<lparr>sp_name := Some x\<rparr>"
  "spawn_field (str_field QUEUENAME (Some x)) j = j\<lparr>sp_queue := Some x\<rparr>"
  "spawn_field (num_field UID v) j = j\<lparr>sp_uid := uint32 v\<rparr>"
  "spawn_field (num_field NICE v) j = j\<lparr>sp_nice := int32 v\<rparr>"
  "fold spawn_field (opt_str SHELL t) j = j\<lparr>sp_shell := (case t of Some x \<Rightarrow> Some x | None \<Rightarrow> sp_shell j)\<rparr>"
  "spawn_field (str_field WRAPPER (Some x)) j = j\<lparr>sp_wrapper := Some x\<rparr>"
  "fold spawn_field (opt_str PRECMD t) j = j\<lparr>sp_pre_command := (case t of Some x \<Rightarrow> Some x | None \<Rightarrow> sp_pre_command j)\<rparr>"
  "fold spawn_field (opt_str POSTCMD t) j = j\<lparr>sp_post_command := (case t of Some x \<Rightarrow> Some x | None \<Rightarrow> sp_post_command j)\<rparr>"
  "spawn_field (array_field ARGS as) j = j\<lparr>sp_argv := as\<rparr>"
  "fold spawn_field (if es = [] then [] else [array_field ENVS es]) j = j\<lparr>sp_envs := (if es = [] then sp_envs j else es)\<rparr>"
  "fold spawn_field (opt_str STDOUT t) j = j\<lparr>sp_stdout := (case t of Some x \<Rightarrow> Some x | None \<Rightarrow> sp_stdout j)\<rparr>"
  "fold spawn_field (opt_str STDERR t) j = j\<lparr>sp_stderr := (case t of Some x \<Rightarrow> Some x | None \<Rightarrow> sp_stderr j)\<rparr>"
  "fold spawn_field (if c then [] else [strs_field RESOURCES us]) j = j\<lparr>sp_resources := (if c then sp_resources j else map Some us)\<rparr>"
  "fold spawn_field (opt_num FLAGS v) j = j\<lparr>sp_flags := (if v \<noteq> 0 then v else sp_flags j)\<rparr>"
  by (simp_all add: fold_optional spawn_field_def split: option.split)

lemma spawn_received:
  assumes "startable s j"
  shows "fold spawn_field (start_fields s j) spawn_zero = spawn_of s j"
proof -
  have ok: "nat (uint32 (int (j_jobid j))) = j_jobid j" "uint32 (j_uid j) = j_uid j" "int32 (start_nice s j) = start_nice s j"
    using assms by (simp_all add: startable_def inu32_def in32_def cint_id cuint_id)
  have lists: "(if xs = [] then [] else xs) = xs" "(if rs = [] then [] else map Some (convertResourceToStrings rs)) =
      map Some (convertResourceToStrings rs)" "(if v \<noteq> 0 then v else 0) = v" for xs :: "'a list" and rs and v :: int
    by (auto simp: convertResourceToStrings_def)
  show ?thesis
    unfolding start_fields_def spawn_of_def spawn_zero_def
    by (cases "j_wrapper j")
      (simp_all only: fold_append comp_apply fold_simps option.case spawn_pieces jersJobSpawn.simps jersJobSpawn.update_convs ok
        some_or_none lists option.distinct refl if_True if_False simp_thms)
qed

text \<open>The message that a job has started, and what the daemon makes of it.\<close>

definition started_fields :: "nat \<Rightarrow> int \<Rightarrow> int \<Rightarrow> field list" where
  "started_fields jobid pid start_time = [num_field JOBID (int jobid), num_field JOBPID pid, num_field STARTTIME start_time]"

definition started_text :: "nat \<Rightarrow> int \<Rightarrow> int \<Rightarrow> string" where
  "started_text jobid pid start_time = request_text ''JOB_STARTED'' 1 (started_fields jobid pid start_time)"

lemma started_message:
  assumes "inu32 (int jobid)" and "in32 pid" and "in64 start_time"
  shows "good_item (started_fields jobid pid start_time)" and "length (started_text jobid pid start_time) < 1000"
proof -
  let ?nvs = "[(JOBID, int jobid), (JOBPID, pid), (STARTTIME, start_time)]"
  have fs: "started_fields jobid pid start_time = map (\<lambda>(n, v). num_field n v) ?nvs" by (simp add: started_fields_def)
  have ok: "numeric ?nvs" using assms numeric_table by (auto simp: numeric_def intro: in_ranges)
  show "good_item (started_fields jobid pid start_time)" unfolding fs by (rule numeric_text(1) [OF ok])
  have "length (commas (map field_text (started_fields jobid pid start_time))) \<le> 45 * 3"
    unfolding fs using numeric_text(2) [OF ok] by simp
  then show "length (started_text jobid pid start_time) < 1000"
    using int64tostr_length [of 1] by (simp add: started_text_def request_text_def)
qed

definition started_event :: "nat \<Rightarrow> int \<Rightarrow> int \<Rightarrow> job_event" where
  "started_event jobid pid start_time = job_event_zero\<lparr>je_jobid := jobid, je_pid := pid, je_start_time := start_time\<rparr>"

lemma started_received:
  assumes "inu32 (int jobid)" and "in32 pid"
  shows "fold start_field (started_fields jobid pid start_time) (job_event_zero\<lparr>je_pid := -1\<rparr>) = started_event jobid pid start_time"
  using assms by (simp add: started_fields_def start_field_def event_field_def started_event_def job_event_zero_def Let_def
      inu32_def in32_def cint_id cuint_id)

lemma started_loaded:
  assumes "inu32 (int jobid)" and "in32 pid" and "in64 start_time"
  shows "load_message fresh (Some sortfields) (started_text jobid pid start_time) =
    Loaded \<lparr>m_command = Some ''JOB_STARTED'', m_error = None, m_version = 1,
      m_items = [first_item fresh (started_fields jobid pid start_time)], m_alert = None\<rparr>"
proof -
  have up: "uppercasestring ''JOB_STARTED'' = ''JOB_STARTED''" by code_simp
  show ?thesis
    using request_at_daemon [OF started_message(1) [OF assms] _ up, of fresh] by (simp add: started_text_def plain_name_def)
qed

lemma job_started_found:
  assumes "tkeys j_jobid (jobTable s)" and "findJob s (je_jobid e) = Some j"
  shows "\<exists>j'. findJob (job_started e s) (je_jobid e) = Some j' \<and> j_state j' = JERS_JOB_RUNNING \<and> j_pid j' = je_pid e \<and>
    j_start_time j' = je_start_time e \<and> \<not> has_flag (j_internal_state j') JERS_FLAG_JOB_STARTED"
proof -
  let ?k = "je_jobid e"
  define upd where "upd = (\<lambda>j :: job. j\<lparr>j_internal_state := clear_flag (j_internal_state j) JERS_FLAG_JOB_STARTED,
    j_pend_reason := 0, j_pid := je_pid e, j_start_time := je_start_time e\<rparr>)"
  let ?s1 = "changeJobState ?k JERS_JOB_RUNNING None True s"
  let ?j1 = "(requeue JERS_JOB_RUNNING None j)\<lparr>j_revision := j_revision j + 1, j_dirty := j_dirty j \<or> True\<rparr>"
  have f1: "findJob ?s1 ?k = Some ?j1" using findJob_changeJobState [OF assms(1)] assms(2) by simp
  have key: "j_jobid (upd x) = j_jobid x" for x by (simp add: upd_def)
  have f2: "findJob (on_job ?k upd ?s1) ?k = Some (upd ?j1)" using f1 by (subst findJob_on_job) (simp_all add: key)
  have eq: "findJob (t\<lparr>stats_total := x\<rparr>) n = findJob t n" "findJob (allocateRes q t) n = findJob t n" for t x n q
    by (simp_all add: findJob_def)
  have "findJob (job_started e s) ?k = Some (upd ?j1)"
    unfolding job_started_def Let_def eq upd_def [symmetric] f2 option.case by (simp add: eq f2)
  then show ?thesis by (simp add: upd_def)
qed

subsection \<open>Reconciliation\<close>

lemma recon_message:
  assumes "rjob_ok j"
  shows "good_item (recon_fields j)"
proof -
  have "good_item (completion_fields j)" by (rule completion_message [OF assms])
  then have u: "good_item (usage_fields (cm_usage (rj_completion j)))" and
    "good_item [num_field EXITCODE (cm_exitcode (rj_completion j)), num_field FINISHTIME (cm_finish_time (rj_completion j))]"
    by (simp_all add: completion_fields_def good_item_def)
  moreover have "good_item [num_field JOBID (int (rj_jobid j)), num_field STARTTIME (rj_start_time j)]" "good_item [num_field JOBPID (rj_pid j)]"
    using started_message(1) [of "rj_jobid j" "rj_pid j" "rj_start_time j"] assms
    by (simp_all add: started_fields_def good_item_def rjob_ok_def)
  ultimately show ?thesis by (simp add: recon_fields_def good_item_def)
qed

definition recon_text :: "runningJob list \<Rightarrow> string" where
  "recon_text js = response_text ''RECON'' 1 None (map recon_fields js)"

lemma recon_queues:
  assumes "env_ok e" and "list_all rjob_ok (ag_jobs a)" and "length (recon_text (ag_jobs a)) < 2 ^ 56" and "room (length (recon_text (ag_jobs a))) a"
  shows "\<exists>a'. sendResponse_agentd e ''RECON'' (map recon_fields (ag_jobs a)) a = Inr a' \<and> queued (recon_text (ag_jobs a)) a a'"
proof -
  have "list_all good_item (map recon_fields (ag_jobs a))" using assms(2) recon_message by (simp add: list_all_iff)
  then obtain r where "write_response (ae_alloc e) (Some ''RECON'') 1 None (map recon_fields (ag_jobs a)) = Some r" "writes r (recon_text (ag_jobs a))"
    using write_response_text [of "ae_alloc e" 1 "map recon_fields (ag_jobs a)" "''RECON''" "Some ''RECON''" None] assms(1,3)
    by (auto simp: env_ok_def recon_text_def)
  then show ?thesis
    using sendMsg_queues [OF _ _ assms(4)] assms(1) by (auto simp: sendResponse_agentd_def env_ok_def)
qed

text \<open>A job that has ended while the agent was not looking: its completion is in the socket.\<close>

definition ended :: "completion \<Rightarrow> runningJob \<Rightarrow> bool" where
  "ended c j \<longleftrightarrow> rj_pid j > 0 \<and> rj_job_pid j \<noteq> 0 \<and> \<not> rj_adopted j \<and> rj_open j \<and> jk_completion (rj_socket j) = Some c"

definition ended_job :: "completion \<Rightarrow> runningJob \<Rightarrow> runningJob" where
  "ended_job c j = j\<lparr>rj_temp_script := None, rj_completion := c, rj_socket := (rj_socket j)\<lparr>jk_completion := None\<rparr>\<rparr>"

lemma poll_ended: "ended c j \<Longrightarrow> poll_job e j a = Inr (Some j, a)"
  by (simp add: ended_def poll_job_def read_pid_def Let_def)

lemma reap_ended: "ended c j \<Longrightarrow> reap_job e 0 j a = send_completion e (ended_job c j) a"
  by (simp add: ended_def reap_job_def collect_def get_job_completion_def read_pid_def ended_job_def Let_def)

lemma check_ended:
  assumes "ended c j" and "ag_jobs a = [j]"
  shows "check_children e [(rj_pid j, 0)] a =
    bindR (send_completion e (ended_job c j) a) (\<lambda>(r, a). Inr (a\<lparr>ag_jobs := (case r of Some j \<Rightarrow> [j] | None \<Rightarrow> [])\<rparr>))"
proof -
  have "with_jobs (walk (poll_job e)) a = Inr a"
    by (simp add: with_jobs_def assms(2) poll_ended [OF assms(1)] bindR_def)
  moreover have "with_jobs (on_first (\<lambda>x. rj_pid x = rj_pid j) (reap_job e 0)) a =
      bindR (send_completion e (ended_job c j) a) (\<lambda>(r, a). Inr (a\<lparr>ag_jobs := (case r of Some j \<Rightarrow> [j] | None \<Rightarrow> [])\<rparr>))"
    by (simp add: with_jobs_def on_first_def assms(2) reap_ended [OF assms(1)] bindR_def split: sum.split option.split)
  ultimately show ?thesis by (simp add: check_children_def bindR_def split: sum.split)
qed

lemma ended_job_ok: "rjob_ok j \<Longrightarrow> ended c j \<Longrightarrow> rjob_ok (ended_job c j)"
  by (simp add: ended_def ended_job_def rjob_ok_def)

section \<open>Properties\<close>

text \<open>C13. The agent forgets a job only when it has told the daemon: a pass over the children always
  returns, whatever ended and whatever the processes wrote, and the jobs before it are those after
  it and those whose completions it put, each whole and in order, behind the bytes already waiting
  for the daemon; it forgets none while it is disconnected or reconciling.\<close>

theorem completions_reported:
  assumes "env_ok e" and "list_all rjob_ok (ag_jobs a)" and "room (1000 * (length (ag_jobs a) + length children)) a"
  shows "\<exists>a' gone. check_children e children a = Inr a' \<and>
    bdata (ag_responses a') = bdata (ag_responses a) @ concat (map completion_text gone) \<and>
    mset (map rj_jobid (ag_jobs a)) = mset (map rj_jobid (ag_jobs a')) + mset (map rj_jobid gone) \<and>
    ag_running_jobs a' = ag_running_jobs a - int (length gone) \<and>
    (gone \<noteq> [] \<longrightarrow> ag_connected a \<and> \<not> ag_in_recon a)"
  using check_children_reports [OF assms] by (auto simp: children_checked_def reported_def)

definition demo_rjob :: runningJob where
  "demo_rjob = \<lparr>rj_temp_script = None, rj_pid = 50, rj_job_pid = 51, rj_jobid = 7, rj_start_time = 1000, rj_open = True,
     rj_socket = \<lparr>jk_pid = None, jk_completion = Some (completion_zero\<lparr>cm_finish_time := 1100\<rparr>), jk_eof = True\<rparr>,
     rj_completion = completion_zero, rj_adopted = False, rj_completion_read = 0, rj_adopt_open = False\<rparr>"

definition demo_agentd :: agentd where
  "demo_agentd = \<lparr>ag_requests = \<lparr>bdata = [], bsize = 65536\<rparr>, ag_responses = \<lparr>bdata = [], bsize = 4096\<rparr>, ag_responses_sent = 0,
     ag_writable = False, ag_in_recon = False, ag_secret = False, ag_nonce = None, ag_connected = True, ag_next_connect = 0,
     ag_jobs = [demo_rjob], ag_running_jobs = 1, ag_proxies = [], ag_users = \<lparr>uc_users = [], uc_clear = False\<rparr>, ag_signals = []\<rparr>"

definition demo_agent_env :: agent_env where
  "demo_agent_env = \<lparr>ae_alloc = (\<lambda>_. AllocSame), ae_fresh = [], ae_now = 1200,
     ae_auth = \<lparr>au_secret = False, au_nonce = None, au_hmac = (\<lambda>t. None)\<rparr>,
     ae_db = \<lparr>db_getpwuid = (\<lambda>uid. Some \<lparr>pw_name = ''u'', pw_gid = 100, pw_shell = ''/bin/sh'', pw_dir = ''/''\<rparr>),
             db_getgrouplist = (\<lambda>n g. Some [g]), db_dump_env = (\<lambda>n. Some (''A=1'' @ [CHR 0x00]))\<rparr>\<rparr>"

lemma demo_agent_ok:
  "env_ok demo_agent_env" "rjob_ok demo_rjob" "ag_jobs demo_agentd = [demo_rjob]" "ag_connected demo_agentd" "\<not> ag_in_recon demo_agentd"
  "n < 2 ^ 58 \<Longrightarrow> room n demo_agentd" "ended (completion_zero\<lparr>cm_finish_time := 1100\<rparr>) demo_rjob" "\<not> ag_secret demo_agentd"
  by (simp_all add: env_ok_def demo_agent_env_def in_place_def in64_def rjob_ok_def demo_rjob_def completion_ok_def completion_zero_def
      usage_ok_def rusage_zero_def inu32_def in32_def demo_agentd_def room_def buff_ok_def ended_def)

theorem completions_reported_witness:
  "\<exists>a' gone. check_children demo_agent_env [(50, 0)] demo_agentd = Inr a' \<and>
    bdata (ag_responses a') = concat (map completion_text gone) \<and>
    mset [7] = mset (map rj_jobid (ag_jobs a')) + mset (map rj_jobid gone)"
proof -
  have "list_all rjob_ok (ag_jobs demo_agentd)" "room (1000 * (length (ag_jobs demo_agentd) + length [(50 :: int, 0 :: int)])) demo_agentd"
    using demo_agent_ok by simp_all
  from completions_reported [OF demo_agent_ok(1) this] show ?thesis
    by (auto simp: demo_agentd_def demo_rjob_def)
qed

text \<open>C12. The end of a job arrives as it was: from the status the agent's process reaped, through the
  code it sends, the message of the agent and its reading by the daemon, the job is completed when
  it returned 0 and exited otherwise, with its exit code, or 128 and the signal that ended it, and
  with its finish time and resource usage.\<close>

theorem completion_reaches_daemon:
  assumes "rjob_ok j" and "daemon_ok (d_server d)" and "findJob (d_server d) (rj_jobid j) = Some job"
    and "0 \<le> rc" and "WIFEXITED rc \<or> WIFSIGNALED rc" and "cm_exitcode (rj_completion j) = fst (completion_codes rc)"
  shows "\<exists>m d' job'. load_message fresh (Some sortfields) (completion_text j) = Loaded m \<and>
    command_agent_jobcompleted m d = Inr (0, d') \<and> findJob (d_server d') (rj_jobid j) = Some job' \<and>
    j_exitcode job' = (if WIFEXITED rc then WEXITSTATUS rc else 128 + WTERMSIG rc) \<and>
    (\<not> WIFEXITED rc \<longrightarrow> j_signal job' = WTERMSIG rc) \<and>
    j_state job' = (if WIFEXITED rc \<and> WEXITSTATUS rc = 0 then JERS_JOB_COMPLETED else JERS_JOB_EXITED) \<and>
    j_finish_time job' = cm_finish_time (rj_completion j) \<and> j_usage job' = cm_usage (rj_completion j) \<and> j_pid job' = -1"
proof -
  let ?e = "completion_event j" and ?s = "d_server d"
  let ?m = "\<lparr>m_command = Some ''JOB_COMPLETED'', m_error = None, m_version = 1, m_items = [first_item fresh (completion_fields j)], m_alert = None\<rparr>"
  have st: "0 \<le> WEXITSTATUS rc" "WEXITSTATUS rc < 256" "0 \<le> WTERMSIG rc" "WTERMSIG rc < 128"
    by (simp_all add: WEXITSTATUS_def WTERMSIG_def)
  have keys: "tkeys j_jobid (jobTable ?s)" using assms(2) by (rule daemon_ok_keys(1))
  have code: "je_exitcode ?e = (if WIFEXITED rc then flagged (WEXITSTATUS rc) 0 else flagged (WTERMSIG rc) JERS_EXIT_SIGNAL)"
    using assms(5,6) by (auto simp: completion_event_def completion_codes_def)
  have run: "command_agent_jobcompleted ?m d = Inr (0, on_server (job_completed ?e job) d)"
    using assms(3) completion_received [OF assms(1)]
    by (simp add: command_agent_jobcompleted_def deserialize_def first_item_def bindR_def completion_event_def)
  obtain job' where job': "findJob (job_completed ?e job ?s) (je_jobid ?e) = Some job'"
    "j_exitcode job' = exit_code (of_int (je_exitcode ?e))"
    "j_state job' = (if exit_code (of_int (je_exitcode ?e)) \<noteq> 0 then JERS_JOB_EXITED else JERS_JOB_COMPLETED)"
    "\<not> has_flag (of_int (je_exitcode ?e)) JERS_EXIT_FAIL \<and> has_flag (of_int (je_exitcode ?e)) JERS_EXIT_SIGNAL \<longrightarrow>
       j_signal job' = uint ((of_int (je_exitcode ?e) :: flags) AND JERS_EXIT_STATUS_MASK)"
    "j_finish_time job' = je_finish_time ?e" "j_usage job' = je_usage ?e" "j_pid job' = -1"
    using job_completed_found [OF keys, of ?e job] assms(3) by (auto simp: completion_event_def)
  have ec: "exit_code (of_int (je_exitcode ?e)) = (if WIFEXITED rc then WEXITSTATUS rc else 128 + WTERMSIG rc)"
    using exit_code_status(1) [OF st(1,2)] exit_code_signal(1) [OF st(3,4)] by (simp add: code)
  have sig: "j_signal job' = WTERMSIG rc" if "\<not> WIFEXITED rc"
    using job'(4) that exit_code_signal(2-4) [OF st(3,4)] by (simp add: code)
  show ?thesis
    using completion_loaded [OF assms(1), of fresh] run job' ec sig st(3)
    by (intro exI [of _ ?m] exI [of _ "on_server (job_completed ?e job) d"] exI [of _ job']) (simp add: on_server_def completion_event_def)
qed

definition demo_killed :: runningJob where
  "demo_killed = demo_rjob\<lparr>rj_completion := completion_zero\<lparr>cm_exitcode := fst (completion_codes 9), cm_finish_time := 1100\<rparr>\<rparr>"

theorem completion_reaches_daemon_witness:
  "\<exists>m d' job'. load_message [] (Some sortfields) (completion_text demo_killed) = Loaded m \<and>
    command_agent_jobcompleted m \<lparr>d_server = demo_server, d_clients = []\<rparr> = Inr (0, d') \<and>
    findJob (d_server d') 7 = Some job' \<and> j_exitcode job' = 137 \<and> j_signal job' = 9 \<and> j_state job' = JERS_JOB_EXITED"
proof -
  have code: "fst (completion_codes 9) = 33554441" by code_simp
  then have "rjob_ok demo_killed"
    using demo_agent_ok(2) by (simp add: demo_killed_def rjob_ok_def completion_ok_def in32_def in64_def completion_zero_def usage_ok_def rusage_zero_def)
  moreover have "\<not> WIFEXITED 9" "WIFSIGNALED 9" "WTERMSIG 9 = 9" by (simp_all add: WIFEXITED_def WIFSIGNALED_def WTERMSIG_def)
  ultimately show ?thesis
    using completion_reaches_daemon [of demo_killed "\<lparr>d_server = demo_server, d_clients = []\<rparr>" "demo_job 7 100" 9 "[]"] demo_daemon_ok
    by (auto simp: demo_killed_def demo_rjob_def)
qed

text \<open>C11. A job the scheduler starts is the job the agent runs: the message of \<open>sendStartCmd\<close> is read by
  the agent as the job with its arguments, environment, user and files; when the user exists and the
  fork succeeds, the agent has the job in its list and its answer makes the job running at the
  daemon, with the process id and the start time of the agent.\<close>

theorem start_handshake:
  assumes "startable s j" and "env_ok e" and "room 1000 a"
    and "lookup_user (ae_db e) (ae_now e) (j_uid j) True (ag_users a) = Inr (Some u, us)"
    and "se_socketpair se" and "se_fork se = Some pid" and "in32 pid"
    and "daemon_ok (d_server d)" and "findJob (d_server d) (j_jobid j) = Some job"
  shows "\<exists>m a' rj t m' d' job'.
    load_message fresh (Some sortfields) (request_text ''START_JOB'' 1 (start_fields s j)) = Loaded m \<and>
    deserialize spawn_field spawn_zero m = Inr (spawn_of s j) \<and>
    start_command e se m a = Inr (0, a') \<and> ag_jobs a' = rj # ag_jobs a \<and> rj_jobid rj = j_jobid j \<and> rj_pid rj = pid \<and>
    bdata (ag_responses a') = bdata (ag_responses a) @ t \<and>
    load_message fresh' (Some sortfields) t = Loaded m' \<and> command_agent_jobstart m' d = Inr (0, d') \<and>
    findJob (d_server d') (j_jobid j) = Some job' \<and> j_state job' = JERS_JOB_RUNNING \<and> j_pid job' = pid \<and>
    j_start_time job' = ae_now e"
proof -
  have up: "uppercasestring ''START_JOB'' = ''START_JOB''" by code_simp
  have good: "good_item (start_fields s j)" and id: "inu32 (int (j_jobid j))" using assms(1) by (simp_all add: startable_def)
  let ?m = "\<lparr>m_command = Some ''START_JOB'', m_error = None, m_version = 1, m_items = [first_item fresh (start_fields s j)], m_alert = None\<rparr>"
  have load: "load_message fresh (Some sortfields) (request_text ''START_JOB'' 1 (start_fields s j)) = Loaded ?m"
    using request_at_daemon [OF good _ up, of fresh] by (simp add: plain_name_def)
  have sp: "deserialize spawn_field spawn_zero ?m = Inr (spawn_of s j)"
    by (simp add: deserialize_def first_item_def spawn_received [OF assms(1)])
  have now: "in64 (ae_now e)" using assms(2) by (simp add: env_ok_def)
  define rj where "rj = \<lparr>rj_temp_script = (if j_wrapper j = None then Some (temp_script_name (j_jobid j)) else None), rj_pid = pid, rj_job_pid = 0,
    rj_jobid = j_jobid j, rj_start_time = ae_now e, rj_open = True, rj_socket = no_socket, rj_completion = completion_zero,
    rj_adopted = False, rj_completion_read = 0, rj_adopt_open = False\<rparr>"
  let ?a = "addJob_agentd rj (a\<lparr>ag_users := us\<rparr>)" and ?t = "started_text (j_jobid j) pid (ae_now e)"
  note msg = started_message [OF id assms(7) now]
  have "room (length ?t) ?a" using msg(2) assms(3) by (simp add: room_def addJob_agentd_def)
  then obtain a' where a': "sendRequest_agentd e ''JOB_STARTED'' (started_fields (j_jobid j) pid (ae_now e)) ?a = Inr a'" "queued ?t ?a a'"
    using sendRequest_queues [OF _ msg(1), of e ?t "''JOB_STARTED''" ?a] msg(2) assms(2) by (auto simp: env_ok_def started_text_def)
  have "sp_uid (spawn_of s j) = j_uid j" "sp_jobid (spawn_of s j) = j_jobid j" "sp_wrapper (spawn_of s j) = j_wrapper j" by (simp_all add: spawn_of_def)
  then have start: "start_command e se ?m a = Inr (0, a')"
    using assms(4-6) a'(1)
    by (cases "j_wrapper j") (simp_all add: start_command_def sp bindR_def spawn_job_def send_start_def rj_def started_fields_def Let_def)
  let ?m' = "\<lparr>m_command = Some ''JOB_STARTED'', m_error = None, m_version = 1,
      m_items = [first_item fresh' (started_fields (j_jobid j) pid (ae_now e))], m_alert = None\<rparr>"
  let ?ev = "started_event (j_jobid j) pid (ae_now e)"
  have run: "command_agent_jobstart ?m' d = Inr (0, on_server (job_started ?ev) d)"
    using assms(9) started_received [OF id assms(7), of "ae_now e"]
    by (simp add: command_agent_jobstart_def deserialize_def first_item_def bindR_def started_event_def)
  obtain job' where "findJob (job_started ?ev (d_server d)) (j_jobid j) = Some job'" "j_state job' = JERS_JOB_RUNNING"
    "j_pid job' = pid" "j_start_time job' = ae_now e"
    using job_started_found [OF daemon_ok_keys(1) [OF assms(8)], of ?ev job] assms(9) by (auto simp: started_event_def)
  then show ?thesis
    using load sp start run queuedD(2,3) [OF a'(2)] started_loaded [OF id assms(7) now, of fresh']
    by (intro exI [of _ ?m] exI [of _ a'] exI [of _ rj] exI [of _ ?t] exI [of _ ?m'] exI [of _ "on_server (job_started ?ev) d"] exI [of _ job'])
      (simp add: on_server_def addJob_agentd_def rj_def)
qed

lemma demo_startable: "startable demo_server (demo_job 7 100)"
proof -
  have one: "int64tostr 1 = ''1''" by code_simp
  have q: "findQueue demo_server ''batch'' = Some (hd (queueTable demo_server))"
    by (simp add: findQueue_def demo_defs table_simps)
  have nice: "start_nice demo_server (demo_job 7 100) = 0 \<or> in32 (start_nice demo_server (demo_job 7 100))"
    by (simp add: start_nice_def q demo_defs in32_def)
  then have nice: "in32 (start_nice demo_server (demo_job 7 100))" by (auto simp: in32_def)
  have fs: "start_fields demo_server (demo_job 7 100) =
    [num_field JOBID 7, str_field JOBNAME (Some ''demo''), str_field QUEUENAME (Some ''batch''), num_field UID 100,
     num_field NICE (start_nice demo_server (demo_job 7 100)), array_field ARGS [Some ''true''], strs_field RESOURCES [''tape:1'']]"
    by (simp add: start_fields_def demo_job_def job_zero_def opt_str_def opt_num_def convertResourceToStrings_def one)
  have tab: "fd_type (field_table ! JOBID) = FT_NUM" "fd_type (field_table ! JOBNAME) = FT_STRING" "fd_type (field_table ! QUEUENAME) = FT_STRING"
    "fd_type (field_table ! UID) = FT_NUM" "fd_type (field_table ! NICE) = FT_NUM" "fd_type (field_table ! ARGS) = FT_STRINGARRAY"
    "fd_type (field_table ! RESOURCES) = FT_STRINGARRAY"
    by (simp_all add: field_table_def field_rows_def mk_field_def)
  have "good_item (start_fields demo_server (demo_job 7 100))"
    unfolding fs using nice
    by (simp add: good_item_def field_ok_def num_field_def str_field_def strs_field_def array_field_def tab tab [unfolded One_nat_def]
        scannable_def in32_def)
  with nice show ?thesis by (simp add: startable_def demo_job_def inu32_def)
qed

theorem start_handshake_witness:
  "\<exists>m a' rj t m' d' job'.
    load_message [] (Some sortfields) (request_text ''START_JOB'' 1 (start_fields demo_server (demo_job 7 100))) = Loaded m \<and>
    start_command demo_agent_env \<lparr>se_socketpair = True, se_fork = Some 60\<rparr> m demo_agentd = Inr (0, a') \<and>
    ag_jobs a' = rj # [demo_rjob] \<and> bdata (ag_responses a') = t \<and> load_message [] (Some sortfields) t = Loaded m' \<and>
    command_agent_jobstart m' \<lparr>d_server = demo_server, d_clients = []\<rparr> = Inr (0, d') \<and>
    findJob (d_server d') 7 = Some job' \<and> j_state job' = JERS_JOB_RUNNING \<and> j_pid job' = 60"
proof -
  have uid: "j_uid (demo_job 7 100) = 100" "j_jobid (demo_job 7 100) = 7" by (simp_all add: demo_job_def)
  obtain u us where u: "lookup_user (ae_db demo_agent_env) (ae_now demo_agent_env) 100 True (ag_users demo_agentd) = Inr (Some u, us)"
  proof -
    have "\<exists>es n. split_env 256 [] (''A=1'' @ [CHR 0x00]) = Inr (es, n)"
      using split_env_total [of "[]" 256 "''A=1'' @ [CHR 0x00]"] by auto
    then show ?thesis
      using that by (auto simp: lookup_user_def demo_agent_env_def demo_agentd_def refresh_user_def load_users_env_def zero_user_def
          tfind_Nil bindR_def Let_def)
  qed
  have u': "lookup_user (ae_db demo_agent_env) (ae_now demo_agent_env) (j_uid (demo_job 7 100)) True (ag_users demo_agentd) = Inr (Some u, us)"
    using u by (simp only: uid(1))
  let ?se = "\<lparr>se_socketpair = True, se_fork = Some 60\<rparr>" and ?d = "\<lparr>d_server = demo_server, d_clients = []\<rparr>"
  have facts: "room 1000 demo_agentd" "se_socketpair ?se" "se_fork ?se = Some 60" "in32 60" "daemon_ok (d_server ?d)"
    "findJob (d_server ?d) (j_jobid (demo_job 7 100)) = Some (demo_job 7 100)" "bdata (ag_responses demo_agentd) = []"
    using demo_agent_ok(6) [of 1000] demo_daemon_ok uid by (simp_all add: in32_def demo_agentd_def)
  obtain m a' rj t m' d' job' where
    "load_message [] (Some sortfields) (request_text ''START_JOB'' 1 (start_fields demo_server (demo_job 7 100))) = Loaded m"
    "start_command demo_agent_env ?se m demo_agentd = Inr (0, a')" "ag_jobs a' = rj # ag_jobs demo_agentd"
    "bdata (ag_responses a') = bdata (ag_responses demo_agentd) @ t" "load_message [] (Some sortfields) t = Loaded m'"
    "command_agent_jobstart m' ?d = Inr (0, d')" "findJob (d_server d') (j_jobid (demo_job 7 100)) = Some job'"
    "j_state job' = JERS_JOB_RUNNING" "j_pid job' = 60"
    using start_handshake [OF demo_startable demo_agent_ok(1) facts(1) u' facts(2-6), of "[]" "[]"] by blast
  then show ?thesis
    unfolding uid(2) demo_agent_ok(3) facts(7) append_Nil
    by (intro exI [of _ m] exI [of _ a'] exI [of _ rj] exI [of _ t] exI [of _ m'] exI [of _ d'] exI [of _ job']) (intro conjI)
qed

text \<open>C19. A completion can be lost between the two messages of a reconciliation: a job that ends after the
  agent has answered the request is kept for the next reconciliation, but the daemon's confirmation of
  this one makes the agent forget it, although the answer still called it running and no byte about
  its end was queued.\<close>

theorem completion_lost_in_recon:
  assumes "recon_command e m a = Inr (0, a1)" and "ag_jobs a = [j]" and "ended c j"
  shows "recon_fields j = [num_field JOBID (int (rj_jobid j)), num_field STARTTIME (rj_start_time j), num_field JOBPID (rj_pid j)] \<and>
    (\<exists>a2. check_children e [(rj_pid j, 0)] a1 = Inr a2 \<and> map rj_completion (ag_jobs a2) = [c] \<and>
      ag_responses a2 = ag_responses a1 \<and> ag_jobs (snd (recon_complete a2)) = [])"
proof
  have pid: "rj_pid j > 0" using assms(3) by (simp add: ended_def)
  then show "recon_fields j = [num_field JOBID (int (rj_jobid j)), num_field STARTTIME (rj_start_time j), num_field JOBPID (rj_pid j)]"
    by (simp add: recon_fields_def)
  obtain a0 where a0: "sendResponse_agentd e ''RECON'' (map recon_fields (ag_jobs a)) a = Inr a0" "a1 = a0\<lparr>ag_in_recon := True\<rparr>"
    using assms(1) by (auto simp: recon_command_def Let_def bindR_def split: if_splits sum.splits)
  then have "ag_jobs a0 = ag_jobs a"
    by (auto simp: sendResponse_agentd_def sendMsg_def bindR_def split: option.splits sum.splits)
  then have jobs: "ag_jobs a1 = [j]" and recon: "ag_in_recon a1" using a0(2) assms(2) by simp_all
  let ?j = "(ended_job c j)\<lparr>rj_open := False, rj_pid := -1\<rparr>"
  have "check_children e [(rj_pid j, 0)] a1 = Inr (a1\<lparr>ag_jobs := [?j]\<rparr>)"
    by (simp add: check_ended [OF assms(3) jobs] send_completion_def recon Let_def bindR_def)
  then show "\<exists>a2. check_children e [(rj_pid j, 0)] a1 = Inr a2 \<and> map rj_completion (ag_jobs a2) = [c] \<and>
      ag_responses a2 = ag_responses a1 \<and> ag_jobs (snd (recon_complete a2)) = []"
    by (simp add: ended_job_def recon_complete_def)
qed

lemma recon_demo:
  "length (recon_text [demo_rjob]) < 2 ^ 56"
proof -
  have eq: "recon_fields demo_rjob = map (\<lambda>(n, v). num_field n v) [(JOBID, 7), (STARTTIME, 1000), (JOBPID, 50)]"
    by (simp add: recon_fields_def demo_rjob_def)
  have "numeric [(JOBID, 7), (STARTTIME, 1000), (JOBPID, 50)]" using numeric_table by (simp add: numeric_def in64_def)
  then have "length (commas (map field_text (recon_fields demo_rjob))) \<le> 45 * 3" unfolding eq using numeric_text(2) by fastforce
  then show ?thesis
    using int64tostr_length [of 1] by (simp add: recon_text_def response_text_def data_text_def alert_text_def item_text_def)
qed

lemma recon_demo_runs: "\<exists>a1. recon_command demo_agent_env msg_zero demo_agentd = Inr (0, a1)"
proof -
  have "room (length (recon_text (ag_jobs demo_agentd))) demo_agentd"
    using recon_demo demo_agent_ok(3,6) by simp
  then obtain a' where "sendResponse_agentd demo_agent_env ''RECON'' (map recon_fields (ag_jobs demo_agentd)) demo_agentd = Inr a'"
    "queued (recon_text (ag_jobs demo_agentd)) demo_agentd a'"
    using recon_queues [OF demo_agent_ok(1), of demo_agentd] recon_demo demo_agent_ok by auto
  then show ?thesis
    using queuedD(8) demo_agent_ok(8) by (simp add: recon_command_def recon_allowed_def bindR_def Let_def)
qed

theorem completion_lost_in_recon_witness:
  "\<exists>a1 a2. recon_command demo_agent_env msg_zero demo_agentd = Inr (0, a1) \<and>
    check_children demo_agent_env [(50, 0)] a1 = Inr a2 \<and> map (cm_finish_time \<circ> rj_completion) (ag_jobs a2) = [1100] \<and>
    ag_responses a2 = ag_responses a1 \<and> ag_jobs (snd (recon_complete a2)) = []"
proof -
  obtain a1 where a1: "recon_command demo_agent_env msg_zero demo_agentd = Inr (0, a1)" using recon_demo_runs by blast
  have "rj_pid demo_rjob = 50" by (simp add: demo_rjob_def)
  with completion_lost_in_recon [OF a1 demo_agent_ok(3,7)] a1 show ?thesis
    by (auto simp: completion_zero_def)
qed

text \<open>A completion can be lost with the connection: once it is queued the agent forgets the job, and when
  the connection fails before the bytes are sent they are thrown away; the reconciliation after the
  reconnect does not mention the job.\<close>

theorem completion_lost_with_connection:
  assumes "env_ok e" and "ag_jobs a = [j]" and "rjob_ok j" and "ended c j" and "room 1000 a"
    and "ag_connected a" and "\<not> ag_in_recon a" and "ag_responses_sent a \<le> length (bdata (ag_responses a))"
  shows "\<exists>a1. check_children e [(rj_pid j, 0)] a = Inr a1 \<and>
    (\<exists>j'. rj_completion j' = c \<and> bdata (ag_responses a1) = bdata (ag_responses a) @ completion_text j') \<and>
    (let a2 = daemon_writable e None a1 in
       \<not> ag_connected a2 \<and> bdata (ag_responses a2) = [] \<and> map recon_fields (ag_jobs a2) = [])"
proof -
  let ?j = "(ended_job c j)\<lparr>rj_open := False\<rparr>"
  have ok: "rjob_ok ?j" using ended_job_ok [OF assms(3,4)] by (simp add: rjob_ok_def)
  note msg = completion_message [OF ok]
  obtain a' where a': "sendRequest_agentd e ''JOB_COMPLETED'' (completion_fields ?j) a = Inr a'" "queued (completion_text ?j) a a'"
    using sendRequest_queues [of e "completion_fields ?j" "completion_text ?j" "''JOB_COMPLETED''" a] assms(1,5) msg
    by (auto simp: env_ok_def completion_text_def room_def)
  let ?a1 = "(removeJob_agentd a')\<lparr>ag_jobs := []\<rparr>"
  have run: "check_children e [(rj_pid j, 0)] a = Inr ?a1"
    by (simp add: check_ended [OF assms(4,2)] send_completion_def assms(6,7) a'(1) Let_def bindR_def)
  have sent: "bdata (ag_responses ?a1) = bdata (ag_responses a) @ completion_text ?j"
    using queuedD(2) [OF a'(2)] by (simp add: removeJob_agentd_def)
  have "ag_responses_sent a' = ag_responses_sent a" using a'(2) unfolding queued_def by (metis agentd.select_convs(3) agentd.surjective agentd.update_convs(2,4))
  then have "daemon_writable e None ?a1 = disconnectFromDaemon e ?a1"
    using assms(8) queuedD(2) [OF a'(2)] by (simp add: daemon_writable_def removeJob_agentd_def completion_text_def request_text_def)
  then show ?thesis
    using run sent by (intro exI [of _ ?a1]) (auto simp: disconnectFromDaemon_def drop_bytes_def ended_job_def Let_def intro!: exI [of _ ?j])
qed

theorem completion_lost_with_connection_witness:
  "\<exists>a1. check_children demo_agent_env [(50, 0)] demo_agentd = Inr a1 \<and>
    (let a2 = daemon_writable demo_agent_env None a1 in bdata (ag_responses a2) = [] \<and> map recon_fields (ag_jobs a2) = [])"
proof -
  have "ag_responses_sent demo_agentd \<le> length (bdata (ag_responses demo_agentd))" "room 1000 demo_agentd" "rj_pid demo_rjob = 50"
    using demo_agent_ok(6) [of 1000] by (simp_all add: demo_agentd_def demo_rjob_def)
  with completion_lost_with_connection [OF demo_agent_ok(1,3,2,7) _ demo_agent_ok(4,5)] show ?thesis
    by (auto simp: Let_def)
qed

subsection \<open>Restart of the agent\<close>

definition job_title :: "nat \<Rightarrow> string" where
  "job_title jobid = ''jers_agentd['' @ int64tostr (int jobid) @ '']''"

definition orphan_ok :: "(nat \<Rightarrow> nat \<Rightarrow> string option) \<Rightarrow> nat \<times> int \<times> int \<times> int \<Rightarrow> bool" where
  "orphan_ok adopt = (\<lambda>(k, pid, job_pid, start_time).
     int k < 2 ^ 31 \<and> 0 < pid \<and> in32 pid \<and> in32 job_pid \<and> in64 start_time \<and>
     adopt k 0 = Some (createAdoptFile pid job_pid start_time))"

lemma adopt_title:
  assumes "orphan_ok adopt (k, pid, job_pid, start_time)"
  shows "adoptionScan junk adopt (job_title k # ls) a = adoptionScan junk adopt ls (addOrphanJob k pid job_pid start_time a)"
proof -
  have k: "atoi (int64tostr (int k) @ '']'') = int k"
    using assms by (intro atoi_int64tostr) (auto simp: orphan_ok_def is_digit_def)
  have "loadAdoptFile junk (adopt k 0) = Some (pid, job_pid, start_time)"
    using assms adopt_file_loads by (simp add: orphan_ok_def)
  then have "adopt_attempts junk (adopt k) 0 5 = Some (pid, job_pid, start_time)" by (simp add: numeral_eq_Suc)
  moreover have "nat (uint32 (int k)) = k" using assms by (simp add: orphan_ok_def cuint_id)
  ultimately show ?thesis by (simp add: job_title_def k Let_def)
qed

lemma adopt_others: "adoptionScan junk adopt ls a = adoptionScan junk adopt (filter (\<lambda>l. take 12 l = ''jers_agentd['') ls) a"
  by (induction ls arbitrary: a) (simp_all add: Let_def split: option.split prod.split)

lemma adopt_titles:
  "list_all (orphan_ok adopt) js \<Longrightarrow>
   adoptionScan junk adopt (map (\<lambda>(k, _). job_title k) js) a = Inr (fold (\<lambda>(k, pid, job_pid, start_time). addOrphanJob k pid job_pid start_time) js a)"
  by (induction js arbitrary: a) (auto simp del: adoptionScan.simps(2) simp: adopt_title)

lemma orphans_recon:
  "list_all (orphan_ok adopt) js \<Longrightarrow>
   map recon_fields (ag_jobs (fold (\<lambda>(k, pid, job_pid, start_time). addOrphanJob k pid job_pid start_time) js a)) =
   rev (map (\<lambda>(k, pid, job_pid, start_time). [num_field JOBID (int k), num_field STARTTIME start_time, num_field JOBPID pid]) js) @
   map recon_fields (ag_jobs a)"
  by (induction js arbitrary: a) (auto simp: addOrphanJob_def addJob_agentd_def recon_fields_def orphan_ok_def)

text \<open>C15. A restarted agent finds every job its predecessor left running: the scan of the processes reads
  the adopt file each of them wrote and returns with all of them in the list, whatever other
  processes exist; the answer to the next reconciliation names each as running, with the process
  id and the start time it was started with.\<close>

theorem orphans_adopted:
  assumes "filter (\<lambda>l. take 12 l = ''jers_agentd['') procs = map (\<lambda>(k, _). job_title k) js"
    and "list_all (orphan_ok adopt) js" and "ag_jobs a = []"
  shows "\<exists>a'. adoptionScan junk adopt procs a = Inr a' \<and> ag_running_jobs a' = ag_running_jobs a + int (length js) \<and>
    map recon_fields (ag_jobs a') =
      rev (map (\<lambda>(k, pid, job_pid, start_time). [num_field JOBID (int k), num_field STARTTIME start_time, num_field JOBPID pid]) js)"
proof -
  let ?a = "fold (\<lambda>(k, pid, job_pid, start_time). addOrphanJob k pid job_pid start_time) js a"
  have "adoptionScan junk adopt procs a = Inr ?a"
    using adopt_others [of junk adopt procs a] assms(1) adopt_titles [OF assms(2)] by simp
  moreover have "ag_running_jobs (fold (\<lambda>(k, pid, job_pid, start_time). addOrphanJob k pid job_pid start_time) xs b) =
      ag_running_jobs b + int (length xs)" for xs b
    by (induction xs arbitrary: b) (auto simp: addOrphanJob_def addJob_agentd_def)
  ultimately show ?thesis using orphans_recon [OF assms(2), of a] assms(3) by auto
qed

theorem orphans_adopted_witness:
  "\<exists>a'. adoptionScan ''x'' (\<lambda>k n. Some (createAdoptFile 50 51 1000)) [''init'', job_title 7, ''sh''] (demo_agentd\<lparr>ag_jobs := []\<rparr>) = Inr a' \<and>
    map recon_fields (ag_jobs a') = [[num_field JOBID 7, num_field STARTTIME 1000, num_field JOBPID 50]]"
proof -
  have "filter (\<lambda>l. take 12 l = ''jers_agentd['') [''init'', job_title 7, ''sh''] = map (\<lambda>(k, _). job_title k) [(7, 50, 51, 1000)]"
    by (simp add: job_title_def)
  moreover have "list_all (orphan_ok (\<lambda>k n. Some (createAdoptFile 50 51 1000))) [(7, 50, 51, 1000)]"
    by (simp add: orphan_ok_def in32_def in64_def)
  moreover have "ag_jobs (demo_agentd\<lparr>ag_jobs := []\<rparr>) = []" by simp
  ultimately show ?thesis using orphans_adopted [where a = "demo_agentd\<lparr>ag_jobs := []\<rparr>" and junk = "''x''"] by fastforce
qed

text \<open>An agent that knows the secret never reconciles: when the hash of the daemon is right, the string
  holding it is freed after the comparison and freed again at the end of the function.\<close>

theorem recon_with_secret_frees_twice:
  assumes "env_ok e" and "list_all rjob_ok (ag_jobs a)" and "length (recon_text (ag_jobs a)) < 2 ^ 56"
    and "room (length (recon_text (ag_jobs a))) a" and "ag_secret a"
    and "m_items m = [it]" and "item_fields it = [num_field DATETIME t, str_field MSG_HMAC (Some h)]" and "t \<noteq> 0"
    and "generateHMAC (ae_auth e) [ag_nonce a, Some (int64tostr t)] = Some v" and "strcasecmp_eq v h"
  shows "recon_command e m a = Inl StalePointer"
proof -
  obtain a' where a': "sendResponse_agentd e ''RECON'' (map recon_fields (ag_jobs a)) a = Inr a'" "queued (recon_text (ag_jobs a)) a a'"
    using recon_queues [OF assms(1-4)] by blast
  have r: "fold recon_field (item_fields it) \<lparr>rm_hmac = None, rm_datetime = 0\<rparr> = \<lparr>rm_hmac = Some h, rm_datetime = t\<rparr>"
    by (simp add: assms(7) recon_field_def)
  have "ag_secret a'" using queuedD(8) [OF a'(2)] assms(5) by simp
  then show ?thesis
    using r a'(1) assms(5,6,8-10) by (simp add: recon_command_def recon_allowed_def bindR_def Let_def)
qed

definition secret_env :: agent_env where
  "secret_env = demo_agent_env\<lparr>ae_auth := \<lparr>au_secret = True, au_nonce = Some ''n'', au_hmac = (\<lambda>t. Some ''AB'')\<rparr>\<rparr>"

theorem recon_with_secret_frees_twice_witness:
  "recon_command secret_env
     (msg_zero\<lparr>m_items := [\<lparr>bitmap = [], item_fields = [num_field DATETIME 1200, str_field MSG_HMAC (Some ''ab'')]\<rparr>]\<rparr>)
     (demo_agentd\<lparr>ag_secret := True, ag_nonce := Some ''n'', ag_jobs := []\<rparr>) = Inl StalePointer"
proof (rule recon_with_secret_frees_twice [where t = 1200 and h = "''ab''" and v = "''AB''" and
      it = "\<lparr>bitmap = [], item_fields = [num_field DATETIME 1200, str_field MSG_HMAC (Some ''ab'')]\<rparr>"])
  show "env_ok secret_env" using demo_agent_ok(1) by (simp add: env_ok_def secret_env_def)
  have "length (recon_text []) < 2 ^ 56"
    using int64tostr_length [of 1] by (simp add: recon_text_def response_text_def data_text_def alert_text_def)
  then show "length (recon_text (ag_jobs (demo_agentd\<lparr>ag_secret := True, ag_nonce := Some ''n'', ag_jobs := []\<rparr>))) < 2 ^ 56"
    "room (length (recon_text (ag_jobs (demo_agentd\<lparr>ag_secret := True, ag_nonce := Some ''n'', ag_jobs := []\<rparr>))))
       (demo_agentd\<lparr>ag_secret := True, ag_nonce := Some ''n'', ag_jobs := []\<rparr>)"
    by (simp_all add: room_def demo_agentd_def buff_ok_def)
  show "generateHMAC (ae_auth secret_env) [ag_nonce (demo_agentd\<lparr>ag_secret := True, ag_nonce := Some ''n'', ag_jobs := []\<rparr>), Some (int64tostr 1200)] = Some ''AB''"
    by (simp add: generateHMAC_def secret_env_def)
  show "strcasecmp_eq ''AB'' ''ab''" by code_simp
qed simp_all

subsection \<open>Signals\<close>

lemma sig_name_found: "sig_name_in t n = None \<longleftrightarrow> n \<notin> set (map snd t)"
  by (induction t n rule: sig_name_in.induct) auto

lemma signal_named: "getSignalName n \<noteq> None \<longleftrightarrow> 1 \<le> n \<and> n \<le> 31"
proof -
  have "getSignalName n \<noteq> None \<longleftrightarrow> n \<in> set (map snd sig_names)" by (simp add: getSignalName_def sig_name_found)
  also have "\<dots> \<longleftrightarrow> 1 \<le> n \<and> n \<le> 31" unfolding sig_names_def by simp presburger
  finally show ?thesis .
qed

text \<open>C18. A signal for a job reaches its process group: the message the daemon sends for \<open>JOB_SIG\<close> makes the
  agent signal the process of the job with the number and the user, and the handler there writes the
  signal to the log and sends it to the whole group of the job. For a number without a name the
  handler reads the name through a NULL pointer instead, and the job runs on without its process.\<close>

theorem signal_reaches_job:
  assumes "m_items m = [it]" and "item_fields it = [num_field JOBID (int k), num_field SIGNAL n, num_field UID u]"
    and "0 < k" and "inu32 (int k)" and "inu32 u" and "-128 \<le> n" and "n < 128"
    and "find (\<lambda>j. rj_jobid j = k) (ag_jobs a) = Some j" and "job_pid \<noteq> -1"
  shows "\<exists>a' p. signal_command m a = Inr (0, a') \<and> ag_signals a' = ag_signals a @ [(rj_pid j, p)] \<and>
    (if 1 \<le> n \<and> n \<le> 31
     then \<exists>name. getSignalName n = Some name \<and> job_sighandler SIGKILLJOB p si_uid job_pid =
       Inr (Delivered (''*** JERS - Signal received: '' @ name @ '' UID:'' @ int64tostr u @ [NL]) (Some (- job_pid, n)))
     else job_sighandler SIGKILLJOB p si_uid job_pid = Inl NullPointer)"
proof -
  let ?p = "\<lparr>jsg_uid = u, jsg_signum = n\<rparr>"
  have nums: "nat (uint32 (int k)) = k" "uint32 u = u" "int32 n = n" "cint 8 n = n"
    using assms(4-7) by (simp_all add: inu32_def cuint_id cint_id)
  have "signal_command m a = Inr (0, a\<lparr>ag_signals := ag_signals a @ [(rj_pid j, ?p)]\<rparr>)"
    using assms(1-3,8) nums
    by (simp add: signal_command_def deserialize_def bindR_def signal_field_def signal_payload_def)
  moreover have "getSignalName n = None" if "\<not> (1 \<le> n \<and> n \<le> 31)" using signal_named [of n] that by blast
  moreover have "\<exists>name. getSignalName n = Some name" if "1 \<le> n \<and> n \<le> 31" using signal_named [of n] that by blast
  ultimately show ?thesis
    using assms(9) by (auto simp: job_sighandler_def Let_def)
qed

theorem signal_reaches_job_witness:
  "let m = msg_zero\<lparr>m_items := [\<lparr>bitmap = [], item_fields = [num_field JOBID (int 7), num_field SIGNAL 40, num_field UID 100]\<rparr>]\<rparr> in
   \<exists>a' p. signal_command m demo_agentd = Inr (0, a') \<and> ag_signals a' = [(50, p)] \<and> job_sighandler SIGKILLJOB p 0 51 = Inl NullPointer"
proof -
  let ?it = "\<lparr>bitmap = [], item_fields = [num_field JOBID (int 7), num_field SIGNAL 40, num_field UID 100]\<rparr>"
  have "find (\<lambda>j. rj_jobid j = 7) (ag_jobs demo_agentd) = Some demo_rjob" "rj_pid demo_rjob = 50" "ag_signals demo_agentd = []"
    by (simp_all add: demo_agentd_def demo_rjob_def)
  then show ?thesis
    using signal_reaches_job [of "msg_zero\<lparr>m_items := [?it]\<rparr>" ?it 7 40 100 demo_agentd demo_rjob 51 0] by (simp add: inu32_def)
qed

end
