(* ===== verification/Acct.thy ===== *)
theory Acct
  imports Journal Response
begin

section \<open>The accounting stream, acct.c\<close>

text \<open>
  \<open>src/src/acct.c\<close>: for every accounting connection the daemon forks a process that sends the
  queues, resources and jobs as they were at the fork and then every record of the journal
  from there on. The process shares the journal files with the daemon, everything else is a
  copy of the daemon's state at the fork. The files are an argument of every step, by the date
  in their name and in the order \<open>glob\<close> lists them; what \<open>accept\<close>, \<open>fork\<close>, \<open>recv\<close>, \<open>send\<close> and
  \<open>waitpid\<close> returned are arguments too. The position in the open journal is the offset of its
  \<open>FILE\<close>.
\<close>

subsection \<open>The clients the daemon knows\<close>

record acct_entry =
  ae_addr :: nat
  ae_uid :: int
  ae_pid :: int
  ae_socket :: int
  ae_freed :: bool

definition addAcctClient :: "acct_entry \<Rightarrow> acct_entry list \<Rightarrow> acct_entry list" where
  "addAcctClient a as = a # as"

definition removeAcctClient :: "nat \<Rightarrow> acct_entry list \<Rightarrow> acct_entry list" where
  "removeAcctClient addr as = filter (\<lambda>a. ae_addr a \<noteq> addr) as"

datatype forked = ForkFailed | ForkParent int

text \<open>
  The daemon's side of a connection; \<open>addr\<close> is the address \<open>calloc\<close> returned. When \<open>fork\<close>
  fails the entry is freed and stays in the list.
\<close>

definition handleAcctClientConnection ::
  "int option \<Rightarrow> int option \<Rightarrow> forked \<Rightarrow> nat \<Rightarrow> acct_entry list \<Rightarrow> int \<times> acct_entry list" where
  "handleAcctClientConnection accepted creds fork addr as =
     (case accepted of
        None \<Rightarrow> (1, as)
      | Some fd \<Rightarrow>
          (case creds of
             None \<Rightarrow> (1, as)
           | Some uid \<Rightarrow>
               (let a = \<lparr>ae_addr = addr, ae_uid = uid, ae_pid = 0, ae_socket = fd, ae_freed = False\<rparr>
                in case fork of
                     ForkFailed \<Rightarrow> (1, addAcctClient (a\<lparr>ae_freed := True\<rparr>) as)
                   | ForkParent pid \<Rightarrow> (0, addAcctClient (a\<lparr>ae_pid := pid\<rparr>) as))))"

text \<open>\<open>exited\<close>: whether \<open>waitpid\<close> collects the process. The second list is the rest of the walk.\<close>

fun check_acct :: "(int \<Rightarrow> bool) \<Rightarrow> acct_entry list \<Rightarrow> acct_entry list \<Rightarrow> fault + acct_entry list" where
  "check_acct exited as [] = Inr as"
| "check_acct exited as (a # rest) =
     (if ae_freed a then Inl StalePointer
      else check_acct exited (if exited (ae_pid a) then removeAcctClient (ae_addr a) as else as) rest)"

definition checkAcctEvent :: "(int \<Rightarrow> bool) \<Rightarrow> acct_entry list \<Rightarrow> fault + acct_entry list" where
  "checkAcctEvent exited as = check_acct exited as as"

text \<open>The part of \<open>serverShutdown\<close> that ends the streams: the processes that get a \<open>SIGTERM\<close>.\<close>

fun shutdown_acct :: "acct_entry list \<Rightarrow> fault + int list" where
  "shutdown_acct [] = Inr []"
| "shutdown_acct (a # as) =
     (if ae_freed a then Inl StalePointer else bindR (shutdown_acct as) (\<lambda>pids. Inr (ae_pid a # pids)))"

subsection \<open>The state of a stream\<close>

datatype acctStates = ACCT_STOPPED | ACCT_STARTED

record acctClient =
  ac_request :: buff
  ac_pos :: nat
  ac_response :: buff
  ac_response_sent :: nat
  ac_writable :: bool
  ac_state :: acctStates
  ac_id :: "string option"
  ac_journal :: "(string \<times> nat) option"
  ac_record :: int
  ac_datetime :: string
  ac_initalised :: bool

text \<open>What the process sees: its copy of the daemon's state and journal position, the directory, the allocator and the files.\<close>

record acct_env =
  ax_server :: server
  ax_journal :: journal
  ax_dir :: string
  ax_alloc :: allocator
  ax_files :: "(string \<times> string) list"

subsection \<open>Reading and writing the socket\<close>

definition handleAcctClientRead :: "allocator \<Rightarrow> received \<Rightarrow> acctClient \<Rightarrow> fault + int \<times> acctClient" where
  "handleAcctClientRead alloc r a =
     (case buffResize alloc (ac_request a) 0 of
        Inl e \<Rightarrow> Inl e
      | Inr (_, _, b) \<Rightarrow>
          (case r of
             Again \<Rightarrow> Inr (0, a\<lparr>ac_request := b\<rparr>)
           | Failed \<Rightarrow> Inr (1, a\<lparr>ac_request := b\<rparr>)
           | Bytes t \<Rightarrow>
               (let t = take (bsize b - length (bdata b)) t
                in if t = [] then Inr (1, a\<lparr>ac_request := b\<rparr>)
                   else Inr (0, a\<lparr>ac_request := b\<lparr>bdata := bdata b @ t\<rparr>\<rparr>))))"

text \<open>\<open>sent\<close>: how many bytes \<open>send\<close> took, if it did not fail. The result is what went out.\<close>

definition handleAcctClientWrite :: "nat option \<Rightarrow> acctClient \<Rightarrow> int \<times> string \<times> acctClient" where
  "handleAcctClientWrite sent a =
     (let out = drop (ac_response_sent a) (bdata (ac_response a))
      in case sent of
           None \<Rightarrow> (1, [], a)
         | Some n \<Rightarrow>
             (let n = min n (length out);
                  a = a\<lparr>ac_response_sent := ac_response_sent a + n\<rparr>
              in (0, take n out,
                  if ac_response_sent a = length (bdata (ac_response a))
                  then a\<lparr>ac_writable := False, ac_response_sent := 0, ac_response := (ac_response a)\<lparr>bdata := []\<rparr>\<rparr>
                  else a)))"

subsection \<open>The initial state of the daemon\<close>

fun toJSON_all :: "('v \<Rightarrow> allocator \<Rightarrow> buff \<Rightarrow> fault + buff) \<Rightarrow> allocator \<Rightarrow> 'v list \<Rightarrow> buff \<Rightarrow> fault + buff" where
  "toJSON_all f alloc [] b = Inr b"
| "toJSON_all f alloc (v # vs) b = bindR (f v alloc b) (toJSON_all f alloc vs)"

text \<open>The position of the daemon in its journal, \<open>asprintf ("%s:%ld")\<close>.\<close>

definition stream_id :: "string \<Rightarrow> int \<Rightarrow> string" where
  "stream_id date record = date @ CHR '':'' # int64tostr record"

definition stream_start :: "allocator \<Rightarrow> string \<Rightarrow> (fault + buff) option" where
  "stream_start alloc ident =
     map_option (\<lambda>b.
       bindR (JSONStart alloc b) (\<lambda>b.
       bindR (JSONStartObject alloc b (Some ''STREAM_START'')) (\<lambda>b.
       bindR (JSONAddString alloc b ACCT_ID (Some ident)) (\<lambda>b.
       bindR (JSONEndObject alloc b) (JSONEnd alloc)))))
     (buffNew alloc 0)"

definition sendInitial :: "acct_env \<Rightarrow> acctClient \<Rightarrow> fault + acctClient" where
  "sendInitial e a =
     (let s = ax_server e; alloc = ax_alloc e; ident = stream_id (jn_datetime (ax_journal e)) (jn_record (ax_journal e))
      in bindR (toJSON_all (queueToJSON s) alloc (queueTable s) (ac_response a)) (\<lambda>b.
         bindR (toJSON_all resourceToJSON alloc (resTable s) b) (\<lambda>b.
         bindR (toJSON_all (jobToJSON s) alloc (jobTable s) b) (\<lambda>b.
           (case stream_start alloc ident of
              None \<Rightarrow> Inl NullPointer
            | Some r \<Rightarrow>
                bindR r (\<lambda>m. bindR (buffAddBuff alloc b m) (\<lambda>b.
                  Inr (a\<lparr>ac_response := b, ac_id := Some ident, ac_writable := True\<rparr>))))))))"

subsection \<open>Locating a position in the journal\<close>

definition atol :: "string \<Rightarrow> int" where
  "atol s =
     (let t = dropWhile (\<lambda>c. is_ws c \<or> c \<in> {NL, CHR 0x0B, CHR 0x0C, CHR 0x0D}) s
      in int64 (case t of
           [] \<Rightarrow> 0
         | c # cs \<Rightarrow> if c = CHR ''-'' then - fst (strtoint64_digits 0 cs)
                     else if c = CHR ''+'' then fst (strtoint64_digits 0 cs)
                     else fst (strtoint64_digits 0 t)))"

text \<open>The offset behind the record with the given number, or behind the reserved space when there is none.\<close>

fun locate_loop :: "int \<Rightarrow> int \<Rightarrow> nat \<Rightarrow> string list \<Rightarrow> nat" where
  "locate_loop record current pos [] = pos"
| "locate_loop record current pos (l # ls) =
     (if hd l = NUL then pos + length l
      else if current + 1 = record then pos + length l
      else locate_loop record (current + 1) (pos + length l) ls)"

text \<open>
  \<open>ident\<close> is the client's own \<open>id\<close>, which is cut at the colon. The date is stored before its
  characters are checked. A journal that cannot be opened ends the process.
\<close>

definition locateJournal :: "acct_env \<Rightarrow> string \<Rightarrow> acctClient \<Rightarrow> fault + int \<times> acctClient" where
  "locateJournal e ident a =
     (case dropWhile (\<lambda>c. c \<noteq> CHR '':'') ident of
        [] \<Rightarrow> Inr (1, a)
      | _ # sep \<Rightarrow>
          (let date = takeWhile (\<lambda>c. c \<noteq> CHR '':'') ident; a = a\<lparr>ac_id := Some date\<rparr>
           in if length date > 8 then Inr (1, a)
              else
                (let a = a\<lparr>ac_datetime := date\<rparr>
                 in if \<not> list_all is_digit date then Inr (1, a)
                    else
                      (let a = a\<lparr>ac_record := atol sep\<rparr>
                       in case map_of (ax_files e) (ac_datetime a) of
                            None \<Rightarrow> Inl Abort
                          | Some f \<Rightarrow>
                              Inr (0, a\<lparr>ac_journal := Some (ac_datetime a, locate_loop (ac_record a) 0 0 (file_lines f))\<rparr>)))))"

subsection \<open>Requests of the client\<close>

text \<open>The result of \<open>locateJournal\<close> is not looked at.\<close>

definition processRequest :: "acct_env \<Rightarrow> string \<Rightarrow> acctClient \<Rightarrow> fault + int \<times> acctClient" where
  "processRequest e req a =
     (if strcasecmp_eq (take 5 req) ''START'' then
        bindR
          (if length req > 6 then
             bindR (locateJournal e (drop 6 req) (a\<lparr>ac_id := Some (drop 6 req)\<rparr>)) (\<lambda>(_, a). Inr a)
           else if \<not> ac_initalised a then
             bindR (sendInitial e a) (\<lambda>a.
               let ident = stream_id (jn_datetime (ax_journal e)) (jn_record (ax_journal e))
               in bindR (locateJournal e ident (a\<lparr>ac_initalised := True, ac_id := Some ident\<rparr>)) (\<lambda>(_, a). Inr a))
           else Inr a)
          (\<lambda>a. Inr (0, a\<lparr>ac_state := ACCT_STARTED\<rparr>))
      else if strcasecmp_eq req ''STOP'' then Inr (0, a\<lparr>ac_state := ACCT_STOPPED\<rparr>)
      else Inr (1, a))"

text \<open>
  The bytes from \<open>pos\<close> on, line by line; the newline of a line is overwritten. The results of
  the requests are not looked at, and no byte is ever taken out of the buffer.
\<close>

function checkRequests :: "acct_env \<Rightarrow> acctClient \<Rightarrow> fault + acctClient" where
  "checkRequests e a =
     (case split_line (drop (ac_pos a) (bdata (ac_request a))) of
        None \<Rightarrow> Inr a
      | Some (req, rest) \<Rightarrow>
          (case processRequest e (c_str req) a of
             Inl f \<Rightarrow> Inl f
           | Inr (_, a') \<Rightarrow>
               checkRequests e (a'\<lparr>ac_request := (ac_request a)\<lparr>bdata := (bdata (ac_request a))[ac_pos a + length req := NUL]\<rparr>,
                                    ac_pos := ac_pos a + length req + 1\<rparr>)))"
  by pat_completeness auto
termination
proof (relation "measure (\<lambda>(e, a). length (bdata (ac_request a)) - ac_pos a)")
  fix e a req rest x f y a'
  assume "split_line (drop (ac_pos a) (bdata (ac_request a))) = Some x" "(req, rest) = x"
  then have "ac_pos a < length (bdata (ac_request a))"
    by (auto simp: split_line_def split: list.splits) (metis drop_eq_Nil dropWhile.simps(1) list.distinct(1) not_le)
  then show "((e, a'\<lparr>ac_request := (ac_request a)\<lparr>bdata := (bdata (ac_request a))[ac_pos a + length req := NUL]\<rparr>,
      ac_pos := ac_pos a + length req + 1\<rparr>), e, a) \<in> measure (\<lambda>(e, a). length (bdata (ac_request a)) - ac_pos a)"
    by simp
qed simp

declare checkRequests.simps [simp del]

subsection \<open>Sending the records\<close>

text \<open>
  \<open>sscanf ("%*c%64s\t%d\t%64s\t%u\t%ld\t%n")\<close>: the time stamp, the user, the command, the
  jobid, the revision and the text behind them.
\<close>

definition scan_update :: "string \<Rightarrow> (string \<times> int \<times> string \<times> nat \<times> int \<times> string) option" where
  "scan_update t =
     (case t of
        [] \<Rightarrow> None
      | _ # t \<Rightarrow>
          bindO (scan_word 64 t) (\<lambda>(timestamp, t).
          bindO (scan_number (scan_blank t)) (\<lambda>(uid, t).
          bindO (scan_word 64 (scan_blank t)) (\<lambda>(command, t).
          bindO (scan_number (scan_blank t)) (\<lambda>(jobid, t).
          bindO (scan_number (scan_blank t)) (\<lambda>(revision, t).
          Some (timestamp, uint32 uid, command, nat (uint32 jobid), revision, scan_blank t)))))))"

text \<open>The message of one record, written into the scratch buffer.\<close>

definition update_json :: "allocator \<Rightarrow> string \<Rightarrow> string \<Rightarrow> string \<Rightarrow> int \<Rightarrow> nat \<Rightarrow> string \<Rightarrow> buff \<Rightarrow> fault + buff" where
  "update_json alloc ident timestamp command uid jobid m b =
     bindR (JSONStart alloc b) (\<lambda>b.
     bindR (JSONStartObject alloc b (Some ''UPDATE'')) (\<lambda>b.
     bindR (JSONAddString alloc b ACCT_ID (Some ident)) (\<lambda>b.
     bindR (JSONAddString alloc b TIMESTAMP (Some timestamp)) (\<lambda>b.
     bindR (JSONAddString alloc b COMMAND (Some command)) (\<lambda>b.
     bindR (JSONAddInt alloc b UID uid) (\<lambda>b.
     bindR (if jobid \<noteq> 0 then JSONAddInt alloc b JOBID (int jobid) else Inr b) (\<lambda>b.
     bindR (buffAdd alloc b (quoted_name ''MESSAGE'')) (\<lambda>b.
     bindR (buffAdd alloc b m) (\<lambda>b.
     bindR (JSONEndObject alloc b) (JSONEnd alloc))))))))))"

text \<open>
  The arrays of 64 bytes for the time stamp and the command have no room for the zero byte
  behind a word of 64 characters; \<open>id\<close> has 32 bytes.
\<close>

definition send_update :: "acct_env \<Rightarrow> string \<Rightarrow> acctClient \<times> buff \<Rightarrow> fault + bool \<times> acctClient \<times> buff" where
  "send_update e t ab =
     (let (a, b) = ab; alloc = ax_alloc e
      in case scan_update t of
           None \<Rightarrow> Inl Abort
         | Some (timestamp, uid, command, jobid, revision, m) \<Rightarrow>
             if length timestamp = 64 \<or> length command = 64 then Inl Overflow
             else if command = ''REPLAY_COMPLETE'' then Inr (False, a, b)
             else
               (let ident = stream_id (ac_datetime a) (ac_record a)
                in if length ident \<ge> 32 then Inl Overflow
                   else
                     bindR (update_json alloc ident timestamp command uid jobid m b) (\<lambda>b.
                     bindR (buffAddBuff alloc (ac_response a) b) (\<lambda>r.
                     bindR (buffAdd alloc r [NL]) (\<lambda>r.
                       Inr (True, a\<lparr>ac_response := r, ac_writable := True\<rparr>, buffClear alloc b 0))))))"

text \<open>The journal behind the one with the given date, in the order of the files.\<close>

fun next_journal :: "string \<Rightarrow> string list \<Rightarrow> string option" where
  "next_journal date [] = None"
| "next_journal date (d # ds) = (if d = date then (case ds of [] \<Rightarrow> None | d # _ \<Rightarrow> Some d) else next_journal date ds)"

text \<open>The new date is what follows the first dot of the whole path, copied into 10 bytes.\<close>

definition switch_journal :: "acct_env \<Rightarrow> acctClient \<Rightarrow> fault + acctClient" where
  "switch_journal e a =
     (case next_journal (ac_datetime a) (map fst (ax_files e)) of
        None \<Rightarrow> Inr a
      | Some d \<Rightarrow>
          (let dot = tl (dropWhile (\<lambda>c. c \<noteq> CHR ''.'') (ax_dir e @ ''/journal.'' @ d))
           in if length dot \<ge> 10 then Inl Overflow
              else Inr (a\<lparr>ac_record := 0, ac_datetime := dot, ac_journal := Some (d, 0)\<rparr>)))"

text \<open>
  The lines from the position on, up to the reserved space; \<open>shut\<close> is whether the process has
  been told to end, by the number of the record it has just sent.
\<close>

definition chop :: "string \<Rightarrow> string" where
  "chop l = c_str (if last l = NL then butlast l else l)"

definition next_record :: "nat \<Rightarrow> acctClient \<Rightarrow> acctClient" where
  "next_record n a =
     a\<lparr>ac_journal := map_option (\<lambda>(d, pos). (d, pos + n)) (ac_journal a), ac_record := ac_record a + 1\<rparr>"

fun stream_lines :: "acct_env \<Rightarrow> (int \<Rightarrow> bool) \<Rightarrow> string list \<Rightarrow> acctClient \<times> buff \<Rightarrow> fault + acctClient \<times> buff" where
  "stream_lines e shut [] ab = Inr ab"
| "stream_lines e shut (l # ls) (a, b) =
     (if hd l = NUL then bindR (switch_journal e a) (\<lambda>a. Inr (a, b))
      else bindR (send_update e (chop l) (next_record (length l) a, b)) (\<lambda>(sent, a, b).
             if sent \<and> shut (ac_record a) then Inr (a, b) else stream_lines e shut ls (a, b)))"

text \<open>A file that is open stays among the files.\<close>

definition stream_pass :: "acct_env \<Rightarrow> (int \<Rightarrow> bool) \<Rightarrow> acctClient \<times> buff \<Rightarrow> fault + acctClient \<times> buff" where
  "stream_pass e shut ab =
     (case ac_journal (fst ab) of
        None \<Rightarrow> Inl NullPointer
      | Some (d, pos) \<Rightarrow>
          (case map_of (ax_files e) d of
             None \<Rightarrow> Inl Abort
           | Some f \<Rightarrow> stream_lines e shut (file_lines (drop pos f)) ab))"

subsection \<open>The loop of the process\<close>

text \<open>An event: what was received if the socket is readable, what \<open>send\<close> took if it is writable.\<close>

record acct_event =
  av_read :: "received option"
  av_write :: "nat option option"

text \<open>Whether the process goes on, and what it has sent.\<close>

fun acct_events :: "allocator \<Rightarrow> acct_event list \<Rightarrow> string \<times> acctClient \<Rightarrow> fault + bool \<times> string \<times> acctClient" where
  "acct_events alloc [] oa = Inr (True, oa)"
| "acct_events alloc (ev # evs) (out, a) =
     bindR (case av_read ev of None \<Rightarrow> Inr (0, a) | Some r \<Rightarrow> handleAcctClientRead alloc r a) (\<lambda>(rc, a).
       if rc \<noteq> 0 then Inr (False, out, a)
       else
         (case av_write ev of
            None \<Rightarrow> acct_events alloc evs (out, a)
          | Some sent \<Rightarrow>
              (let (rc, bytes, a) = handleAcctClientWrite sent a
               in if rc \<noteq> 0 then Inr (False, out, a) else acct_events alloc evs (out @ bytes, a))))"

record acct_turn =
  tu_shutdown :: bool
  tu_events :: "acct_event list"
  tu_env :: acct_env
  tu_shut :: "int \<Rightarrow> bool"

definition acct_loop_body :: "acct_turn \<Rightarrow> string \<times> acctClient \<times> buff \<Rightarrow> fault + bool \<times> string \<times> acctClient \<times> buff" where
  "acct_loop_body tu oab =
     (let (out, a, b) = oab
      in if tu_shutdown tu then Inr (False, oab)
         else
           bindR (acct_events (ax_alloc (tu_env tu)) (tu_events tu) (out, a)) (\<lambda>(go, out, a).
             if \<not> go then Inr (False, out, a, b)
             else
               bindR (checkRequests (tu_env tu) a) (\<lambda>a.
                 if ac_state a = ACCT_STOPPED then Inr (True, out, a, b)
                 else bindR (stream_pass (tu_env tu) (tu_shut tu) (a, b)) (\<lambda>ab. Inr (True, out, ab)))))"

fun acct_loop :: "acct_turn list \<Rightarrow> string \<times> acctClient \<times> buff \<Rightarrow> fault + bool \<times> string \<times> acctClient \<times> buff" where
  "acct_loop [] oab = Inr (True, oab)"
| "acct_loop (tu # tus) oab =
     bindR (acct_loop_body tu oab) (\<lambda>(go, oab). if go then acct_loop tus oab else Inr (False, oab))"

text \<open>The process starts with a zeroed client, a request buffer and a scratch buffer.\<close>

definition acct_new :: acctClient where
  "acct_new = \<lparr>ac_request = \<lparr>bdata = [], bsize = 0\<rparr>, ac_pos = 0, ac_response = \<lparr>bdata = [], bsize = 0\<rparr>, ac_response_sent = 0,
     ac_writable = False, ac_state = ACCT_STOPPED, ac_id = None, ac_journal = None, ac_record = 0, ac_datetime = [],
     ac_initalised = False\<rparr>"

definition acctMain :: "allocator \<Rightarrow> acct_turn list \<Rightarrow> fault + bool \<times> string \<times> acctClient \<times> buff" where
  "acctMain alloc tus =
     (case (buffNew alloc 0, buffNew alloc 0) of
        (Some r, Some b) \<Rightarrow> acct_loop tus ([], acct_new\<lparr>ac_request := r\<rparr>, b)
      | _ \<Rightarrow> Inl NullPointer)"

subsection \<open>One record\<close>

text \<open>
  A record as the daemon writes it: its time, user, command, jobid, revision and message. The
  saving process may have put a star over its first byte.
\<close>

record jrec =
  jr_sec :: int
  jr_msec :: int
  jr_uid :: int
  jr_command :: string
  jr_jobid :: int
  jr_revision :: int
  jr_message :: "string option"
  jr_marked :: bool

definition jrec_text :: "jrec \<Rightarrow> string" where
  "jrec_text r =
     (if jr_marked r then STAR else SPC) #
     tl (record_text (jr_sec r) (jr_msec r) (jr_uid r) (jr_command r) (jr_jobid r) (jr_revision r) (jr_message r))"

definition streamable :: "jrec \<Rightarrow> bool" where
  "streamable r \<longleftrightarrow>
     recordable (jr_sec r) (jr_msec r) (jr_uid r) (jr_command r) (jr_jobid r) (jr_revision r) (jr_message r) \<and>
     length (jr_command r) < 64 \<and> (\<forall>m. jr_message r = Some m \<longrightarrow> last m \<noteq> CHR '','')"

definition jrec_time :: "jrec \<Rightarrow> string" where
  "jrec_time r = int64tostr (jr_sec r) @ CHR ''.'' # msec_text (jr_msec r)"

definition jrec_json :: "jrec \<Rightarrow> string" where
  "jrec_json r = (case jr_message r of Some m \<Rightarrow> m | None \<Rightarrow> [])"

lemma jrec_text_split:
  "jrec_text r = (if jr_marked r then STAR else SPC) # jrec_time r @ TAB # int64tostr (int32 (jr_uid r)) @ TAB # jr_command r @
     TAB # int64tostr (int32 (jr_jobid r)) @ TAB # int64tostr (jr_revision r) @ TAB # jrec_json r"
  by (simp add: jrec_text_def record_text_def jrec_time_def jrec_json_def)

lemma msec_text_digits:
  assumes "0 \<le> m"
  shows "\<forall>c \<in> set (msec_text m). is_digit c"
  using digits_rev_digits [of "nat m"] assms by (auto simp: msec_text_def Let_def int64tostr_eq is_digit_def)

lemma jrec_time_word:
  assumes "streamable r"
  shows "jrec_time r \<noteq> []" and "length (jrec_time r) < 64" and "\<forall>c \<in> set (jrec_time r). \<not> scan_ws c"
proof -
  have ok: "0 \<le> jr_sec r" "in64 (jr_sec r)" "0 \<le> jr_msec r" "jr_msec r < 1000"
    using assms by (simp_all add: streamable_def recordable_def)
  show "jrec_time r \<noteq> []" by (simp add: jrec_time_def)
  have "length (int64tostr (jr_sec r)) \<le> 21" "length (int64tostr (jr_msec r)) \<le> 21"
    using ok by (simp_all add: int64tostr_length in64_def)
  then show "length (jrec_time r) < 64" by (simp add: jrec_time_def msec_text_def Let_def)
  have "\<forall>c \<in> set (int64tostr (jr_sec r)). is_digit c"
    using digits_rev_digits [of "nat (jr_sec r)"] ok(1) by (auto simp: int64tostr_eq)
  then show "\<forall>c \<in> set (jrec_time r). \<not> scan_ws c"
    using msec_text_digits [OF ok(3)] scan_ws_digit by (auto simp: jrec_time_def)
qed

lemma scan_update_record:
  assumes "streamable r"
  shows "scan_update (jrec_text r) =
    Some (jrec_time r, jr_uid r, jr_command r, nat (jr_jobid r), jr_revision r, jrec_json r)"
proof -
  have ok: "inu32 (jr_uid r)" "inu32 (jr_jobid r)" "in64 (jr_revision r)"
    "jr_command r \<noteq> []" "length (jr_command r) \<le> 64" "\<forall>c \<in> set (jr_command r). \<not> scan_ws c" and m: "json_line (jr_message r)"
    using assms by (auto simp: streamable_def recordable_def list_all_iff)
  have narrow: "in64 (int32 n)" for n using in32_int32 [of n] by (simp add: in32_def in64_def)
  have json: "scan_blank (jrec_json r) = jrec_json r"
    using m by (cases "jrec_json r") (auto simp: jrec_json_def json_line_def scan_blank_def split: option.splits)
  have time: "scan_word 64 (jrec_time r @ TAB # t) = Some (jrec_time r, TAB # t)" for t
    using jrec_time_word [OF assms] by (intro scan_word_text) simp_all
  show ?thesis
    unfolding jrec_text_split scan_update_def bindO_def
    by (simp add: time scan_number_after scan_number_text ok narrow scan_word_after scan_word_text scan_blank_skip json uint32_int32)
qed

lemma jrec_text_clean: "streamable r \<Longrightarrow> NL \<notin> set (jrec_text r) \<and> NUL \<notin> set (jrec_text r)"
proof -
  assume "streamable r"
  then have "recordable (jr_sec r) (jr_msec r) (jr_uid r) (jr_command r) (jr_jobid r) (jr_revision r) (jr_message r)"
    by (simp add: streamable_def)
  from record_text_clean [OF this] show ?thesis
    by (simp add: jrec_text_def record_text_def)
qed

lemma chop_record: "streamable r \<Longrightarrow> chop (jrec_text r @ [NL]) = jrec_text r"
  using jrec_text_clean [of r] by (simp add: chop_def c_str_id)

subsection \<open>What is sent for it\<close>

definition update_text :: "string \<Rightarrow> jrec \<Rightarrow> string" where
  "update_text ident r =
     ''{'' @ quoted_name ''UPDATE'' @ ''{'' @ quoted_name ''ACCT_ID'' @ jstring ident @ '','' @
     quoted_name ''TIMESTAMP'' @ jstring (jrec_time r) @ '','' @ quoted_name ''COMMAND'' @ jstring (jr_command r) @ '','' @
     quoted_name ''UID'' @ int64tostr (jr_uid r) @ '','' @
     (if jr_jobid r \<noteq> 0 then quoted_name ''JOBID'' @ int64tostr (jr_jobid r) @ '','' else []) @
     quoted_name ''MESSAGE'' @ jrec_json r @ ''}}'' @ [NL]"


lemma writes_number:
  assumes "in_place alloc" and "buff_ok b" and "n < ENDOFFIELDS" and "fd_name (field_table ! n) = name"
    and "in64 v" and "length (bdata b) + length name < 2 ^ 60"
  shows "writes (JSONAddInt alloc b n v) (bdata b @ quoted_name name @ int64tostr v @ '','')"
proof -
  have "length (int64tostr v) \<le> 21" using assms(5) by (intro int64tostr_length) (simp_all add: in64_def)
  then have "writes (buffPut alloc b (length name + 32 + 4) (quoted_name name @ int64tostr v @ '',''))
      (bdata b @ quoted_name name @ int64tostr v @ '','')"
    using assms(6) by (intro writes_put [OF assms(1,2)]) simp_all
  then show ?thesis using assms(3,4) by (simp add: JSONAddInt_def with_field_name)
qed

lemma acct_field_names:
  "fd_name (field_table ! ACCT_ID) = ''ACCT_ID''" "fd_name (field_table ! TIMESTAMP) = ''TIMESTAMP''"
  "fd_name (field_table ! COMMAND) = ''COMMAND''" "fd_name (field_table ! UID) = ''UID''"
  "fd_name (field_table ! JOBID) = ''JOBID''"
  by code_simp+

lemma writes_update_json:
  assumes alloc: "in_place alloc" and b: "buff_ok b" "bdata b = []" and r: "streamable r"
    and len: "length ident < 32" "length (jrec_json r) < 2 ^ 58"
  shows "writes (update_json alloc ident (jrec_time r) (jr_command r) (jr_uid r) (nat (jr_jobid r)) (jrec_json r) b) (update_text ident r)"
proof -
  have nums: "in64 (jr_uid r)" "in64 (jr_jobid r)" "0 \<le> jr_jobid r"
    using r by (auto simp: streamable_def recordable_def inu32_def in64_def)
  have small: "length (jrec_time r) < 64" "length (jr_command r) < 64"
    using r jrec_time_word(2) [OF r] by (simp_all add: streamable_def)
  have esc: "length (jstring ident) \<le> 66" "length (jstring (jrec_time r)) \<le> 130" "length (jstring (jr_command r)) \<le> 130"
    using jstring_length(2) [of ident] jstring_length(2) [of "jrec_time r"] jstring_length(2) [of "jr_command r"] len small by linarith+
  have digits: "length (int64tostr (jr_uid r)) \<le> 21" "length (int64tostr (jr_jobid r)) \<le> 21"
    using nums by (simp_all add: int64tostr_length in64_def)
  let ?d1 = "''{''"
  let ?d2 = "?d1 @ quoted_name ''UPDATE'' @ ''{''"
  let ?d3 = "?d2 @ quoted_name ''ACCT_ID'' @ jstring ident @ '',''"
  let ?d4 = "?d3 @ quoted_name ''TIMESTAMP'' @ jstring (jrec_time r) @ '',''"
  let ?d5 = "?d4 @ quoted_name ''COMMAND'' @ jstring (jr_command r) @ '',''"
  let ?d6 = "?d5 @ quoted_name ''UID'' @ int64tostr (jr_uid r) @ '',''"
  let ?d7 = "?d6 @ (if jr_jobid r \<noteq> 0 then quoted_name ''JOBID'' @ int64tostr (jr_jobid r) @ '','' else [])"
  let ?d8 = "?d7 @ quoted_name ''MESSAGE''"
  let ?d9 = "?d8 @ jrec_json r"
  have sz: "length ?d2 \<le> 20" "length ?d3 \<le> 100" "length ?d4 \<le> 250" "length ?d5 \<le> 400" "length ?d6 \<le> 430" "length ?d7 \<le> 470"
      "length ?d8 \<le> 480" "length ?d9 < 2 ^ 59"
    using esc digits len(2) by simp_all
  have last: "last ?d9 \<noteq> CHR '',''"
    using r by (auto simp: streamable_def quoted_name_def jrec_json_def split: option.split)
  have s1: "writes (JSONStart alloc b) ?d1"
    using writes_add [OF alloc b(1), of ?d1] b(2) by (simp add: JSONStart_def)
  have s2: "writes (JSONStartObject alloc c (Some ''UPDATE'')) ?d2" if "bdata c = ?d1" "buff_ok c" for c
    using writes_JSONStartObject [OF alloc that(2), of "''UPDATE''"] that(1) by simp
  have s3: "writes (JSONAddString alloc c ACCT_ID (Some ident)) ?d3" if "bdata c = ?d2" "buff_ok c" for c
    using writes_string [OF alloc that(2), of ACCT_ID ident] that(1) len(1) by (simp add: acct_field_names)
  have s4: "writes (JSONAddString alloc c TIMESTAMP (Some (jrec_time r))) ?d4" if "bdata c = ?d3" "buff_ok c" for c
    using writes_string [OF alloc that(2), of TIMESTAMP "jrec_time r"] that(1) sz(2) small by (simp add: acct_field_names)
  have s5: "writes (JSONAddString alloc c COMMAND (Some (jr_command r))) ?d5" if "bdata c = ?d4" "buff_ok c" for c
    using writes_string [OF alloc that(2), of COMMAND "jr_command r"] that(1) sz(3) small by (simp add: acct_field_names)
  have s6: "writes (JSONAddInt alloc c UID (jr_uid r)) ?d6" if "bdata c = ?d5" "buff_ok c" for c
    using writes_number [OF alloc that(2) _ acct_field_names(4) nums(1)] that(1) sz(4) by simp
  have s7: "writes (if nat (jr_jobid r) \<noteq> 0 then JSONAddInt alloc c JOBID (int (nat (jr_jobid r))) else Inr c) ?d7"
    if "bdata c = ?d6" "buff_ok c" for c
  proof (cases "jr_jobid r = 0")
    case True
    with that show ?thesis by (simp add: writes_def)
  next
    case False
    with that sz(5) nums(3) writes_number [OF alloc that(2) _ acct_field_names(5) nums(2)] show ?thesis by simp
  qed
  have s8: "writes (buffAdd alloc c (quoted_name ''MESSAGE'')) ?d8" if "bdata c = ?d7" "buff_ok c" for c
    using writes_add [OF alloc that(2), of "quoted_name ''MESSAGE''"] that(1) sz(6) by simp
  have s9: "writes (buffAdd alloc c (jrec_json r)) ?d9" if "bdata c = ?d8" "buff_ok c" for c
    using writes_add [OF alloc that(2), of "jrec_json r"] that(1) sz(7) len(2) by simp
  have s10: "writes (JSONEndObject alloc c) (?d9 @ ''},'')" if "bdata c = ?d9" "buff_ok c" for c
    unfolding JSONEndObject_def
    using writes_close [OF alloc that(2), of "'',''" ?d9 "CHR ''}''"] that(1) sz(8) last by simp
  have s11: "writes (JSONEnd alloc c) (update_text ident r)" if "bdata c = ?d9 @ ''},''" "buff_ok c" for c
    unfolding JSONEnd_def
    using writes_close [OF alloc that(2), of "[NL]" "?d9 @ ''}''" "CHR ''}''"] that(1) sz(8) by (simp add: update_text_def)
  show ?thesis
    unfolding update_json_def
    by (rule writes_bindR [OF s1], rule writes_bindR [OF s2], assumption+, rule writes_bindR [OF s3], assumption+,
        rule writes_bindR [OF s4], assumption+, rule writes_bindR [OF s5], assumption+, rule writes_bindR [OF s6], assumption+,
        rule writes_bindR [OF s7], assumption+, rule writes_bindR [OF s8], assumption+, rule writes_bindR [OF s9], assumption+,
        rule writes_bindR [OF s10], assumption+, rule s11, assumption+)
qed

subsection \<open>The records up to the reserved space\<close>

definition sent_text :: "string \<Rightarrow> int \<Rightarrow> jrec \<Rightarrow> string" where
  "sent_text date n r = (if jr_command r = ''REPLAY_COMPLETE'' then [] else update_text (stream_id date n) r @ [NL])"

text \<open>Consecutive records, the first of which follows the record with number \<open>n\<close>.\<close>

fun stream_text :: "string \<Rightarrow> int \<Rightarrow> jrec list \<Rightarrow> string" where
  "stream_text date n [] = []"
| "stream_text date n (r # rs) = sent_text date (n + 1) r @ stream_text date (n + 1) rs"

text \<open>The buffers of a stream between two turns, and the position it has in the journal.\<close>

definition stream_ok :: "acctClient \<times> buff \<Rightarrow> bool" where
  "stream_ok ab \<longleftrightarrow> buff_ok (ac_response (fst ab)) \<and> buff_ok (snd ab) \<and> bdata (snd ab) = []"

definition positioned :: "string \<Rightarrow> int \<Rightarrow> nat \<Rightarrow> acctClient \<Rightarrow> bool" where
  "positioned date n pos a \<longleftrightarrow>
     ac_journal a = Some (date, pos) \<and> ac_record a = n \<and> ac_datetime a = date \<and> length date \<le> 8"

text \<open>What sending records changes: the response grows by the text and the position moves on.\<close>

definition advanced :: "acctClient \<times> buff \<Rightarrow> string \<Rightarrow> string \<Rightarrow> int \<Rightarrow> nat \<Rightarrow> acctClient \<times> buff \<Rightarrow> bool" where
  "advanced ab t date n pos ab' \<longleftrightarrow>
     stream_ok ab' \<and> positioned date n pos (fst ab') \<and>
     bdata (ac_response (fst ab')) = bdata (ac_response (fst ab)) @ t \<and>
     ac_response_sent (fst ab') = ac_response_sent (fst ab) \<and> ac_state (fst ab') = ac_state (fst ab) \<and>
     ac_request (fst ab') = ac_request (fst ab) \<and> ac_pos (fst ab') = ac_pos (fst ab)"

lemma advanced_refl: "stream_ok ab \<Longrightarrow> positioned date n pos (fst ab) \<Longrightarrow> advanced ab [] date n pos ab"
  by (simp add: advanced_def)

lemma advanced_trans: "advanced ab s date n pos ab1 \<Longrightarrow> advanced ab1 t date m off ab2 \<Longrightarrow> advanced ab (s @ t) date m off ab2"
  by (auto simp: advanced_def)

lemma stream_id_length: "length date \<le> 8 \<Longrightarrow> in64 n \<Longrightarrow> length (stream_id date n) < 32"
  using int64tostr_length [of n] by (simp add: stream_id_def in64_def)

lemma update_text_length: "length (jrec_json r) \<le> length (update_text ident r)"
  by (simp add: update_text_def)

lemma send_update_record:
  assumes alloc: "in_place (ax_alloc e)" and r: "streamable r" and ok: "stream_ok (a, b)"
    and pos: "positioned date n pos a" and n: "in64 (n + 1)"
    and len: "length (bdata (ac_response a)) + length (sent_text date (n + 1) r) < 2 ^ 58"
  shows "\<exists>sent a' b'. send_update e (jrec_text r) (next_record k a, b) = Inr (sent, a', b') \<and>
    advanced (a, b) (sent_text date (n + 1) r) date (n + 1) (pos + k) (a', b')"
proof (cases "jr_command r = ''REPLAY_COMPLETE''")
  case True
  then show ?thesis
    using scan_update_record [OF r] jrec_time_word(2) [OF r] ok pos
    by (intro exI [of _ False]) (simp add: send_update_def sent_text_def advanced_def next_record_def positioned_def stream_ok_def)
next
  case False
  let ?id = "stream_id date (n + 1)" and ?resp = "ac_response a"
  have sent: "sent_text date (n + 1) r = update_text ?id r @ [NL]" using False by (simp add: sent_text_def)
  have id: "length ?id < 32" using pos n by (intro stream_id_length) (simp_all add: positioned_def)
  have json: "length (jrec_json r) < 2 ^ 58" using update_text_length [of r ?id] len sent by simp
  have buf: "buff_ok ?resp" "buff_ok b" "bdata b = []" using ok by (simp_all add: stream_ok_def)
  obtain b1 where b1: "update_json (ax_alloc e) ?id (jrec_time r) (jr_command r) (jr_uid r) (nat (jr_jobid r)) (jrec_json r) b = Inr b1"
    "bdata b1 = update_text ?id r" "buff_ok b1"
    using writes_update_json [OF alloc buf(2,3) r id json] by (auto simp: writes_def)
  obtain r1 where r1: "buffAddBuff (ax_alloc e) ?resp b1 = Inr r1" "bdata r1 = bdata ?resp @ update_text ?id r" "buff_ok r1"
    using writes_add [OF alloc buf(1), of "update_text ?id r"] len sent b1(2) by (auto simp: writes_def buffAddBuff_def)
  obtain r2 where r2: "buffAdd (ax_alloc e) r1 [NL] = Inr r2" "bdata r2 = bdata ?resp @ update_text ?id r @ [NL]" "buff_ok r2"
    using writes_add [OF alloc r1(3), of "[NL]"] len sent r1(2) by (auto simp: writes_def)
  have "ac_datetime a = date" "ac_record a = n" "length (jr_command r) \<noteq> 64" "length (jrec_time r) \<noteq> 64"
    using pos r jrec_time_word(2) [OF r] by (auto simp: positioned_def streamable_def)
  then have "send_update e (jrec_text r) (next_record k a, b) =
      Inr (True, (next_record k a)\<lparr>ac_response := r2, ac_writable := True\<rparr>, buffClear (ax_alloc e) b1 0)"
    using scan_update_record [OF r] False id b1(1) r1(1) r2(1) by (simp add: send_update_def next_record_def)
  moreover have "advanced (a, b) (sent_text date (n + 1) r) date (n + 1) (pos + k)
      ((next_record k a)\<lparr>ac_response := r2, ac_writable := True\<rparr>, buffClear (ax_alloc e) b1 0)"
    using r2 pos b1(3) sent
    by (simp add: advanced_def stream_ok_def positioned_def next_record_def buffClear_def buff_ok_def)
  ultimately show ?thesis by blast
qed

definition jrec_lines :: "jrec list \<Rightarrow> string list" where
  "jrec_lines rs = map (\<lambda>r. jrec_text r @ [NL]) rs"

lemma jrec_lines_simps [simp]: "jrec_lines [] = []" "jrec_lines (r # rs) = (jrec_text r @ [NL]) # jrec_lines rs"
  by (simp_all add: jrec_lines_def)

lemma stream_reserved:
  assumes "stream_ok (a, b)" and "positioned date n pos a" and "next_journal date (map fst (ax_files e)) = None"
  shows "stream_lines e shut (file_lines (replicate k NUL)) (a, b) = Inr (a, b)"
  unfolding file_lines_zeros using assms by (cases k) (simp_all add: switch_journal_def positioned_def)

lemma stream_records:
  assumes alloc: "in_place (ax_alloc e)" and last: "next_journal date (map fst (ax_files e)) = None" and go: "\<And>m. \<not> shut m"
  shows "stream_ok (a, b) \<Longrightarrow> positioned date n pos a \<Longrightarrow> list_all streamable rs \<Longrightarrow> 0 \<le> n \<Longrightarrow> in64 (n + int (length rs)) \<Longrightarrow>
    length (bdata (ac_response a)) + length (stream_text date n rs) < 2 ^ 58 \<Longrightarrow>
    \<exists>ab'. stream_lines e shut (jrec_lines rs @ file_lines (replicate k NUL)) (a, b) = Inr ab' \<and>
      advanced (a, b) (stream_text date n rs) date (n + int (length rs)) (pos + length (concat (jrec_lines rs))) ab'"
proof (induction rs arbitrary: a b n pos)
  case Nil
  then show ?case using stream_reserved [OF Nil.prems(1,2) last] by (simp add: advanced_refl)
next
  case (Cons r rs)
  let ?l = "jrec_text r @ [NL]"
  have r: "streamable r" "list_all streamable rs" using Cons.prems(3) by simp_all
  have "in64 (n + 1)" using Cons.prems(4,5) by (simp add: in64_def)
  moreover have "length (bdata (ac_response a)) + length (sent_text date (n + 1) r) < 2 ^ 58" using Cons.prems(6) by simp
  ultimately obtain sent a1 b1 where s: "send_update e (jrec_text r) (next_record (length ?l) a, b) = Inr (sent, a1, b1)"
    "advanced (a, b) (sent_text date (n + 1) r) date (n + 1) (pos + length ?l) (a1, b1)"
    using send_update_record [OF alloc r(1) Cons.prems(1,2), where k = "length ?l"] by blast
  have "\<exists>ab'. stream_lines e shut (jrec_lines rs @ file_lines (replicate k NUL)) (a1, b1) = Inr ab' \<and>
      advanced (a1, b1) (stream_text date (n + 1) rs) date (n + 1 + int (length rs))
        (pos + length ?l + length (concat (jrec_lines rs))) ab'"
    using s(2) r(2) Cons.prems(4-6) by (intro Cons.IH) (simp_all add: advanced_def algebra_simps)
  moreover have "hd ?l \<noteq> NUL" by (simp add: jrec_text_split)
  moreover have "chop ?l = jrec_text r" using chop_record [OF r(1)] .
  ultimately show ?case
    using s go advanced_trans [OF s(2)] by (fastforce simp: algebra_simps)
qed

subsection \<open>Locating the position of the fork\<close>

lemma locate_records:
  "ls \<noteq> [] \<Longrightarrow> \<forall>l \<in> set ls. hd l \<noteq> NUL \<Longrightarrow>
   locate_loop (current + int (length ls)) current pos (ls @ ms) = pos + length (concat ls)"
proof (induction ls arbitrary: current pos)
  case (Cons l ls)
  show ?case
  proof (cases "ls = []")
    case True
    with Cons.prems show ?thesis by simp
  next
    case False
    with Cons.IH [OF False, of "current + 1" "pos + length l"] Cons.prems show ?thesis by (simp add: algebra_simps)
  qed
qed simp

text \<open>The records a journal has at some moment: whole lines without zero bytes.\<close>

definition whole_lines :: "string \<Rightarrow> bool" where
  "whole_lines t \<longleftrightarrow> t \<noteq> [] \<and> last t = NL \<and> NUL \<notin> set t"

lemma getline_newlines: "t \<noteq> [] \<Longrightarrow> last t = NL \<Longrightarrow> newlines (fst (getline t)) = 1"
proof (induction t)
  case (Cons c t)
  then show ?case by (cases "t = []") (auto simp: newlines_def Let_def split_def)
qed simp

lemma file_lines_count: "t = [] \<or> last t = NL \<Longrightarrow> length (file_lines t) = newlines t"
proof (induction t rule: file_lines.induct)
  case (1 t)
  show ?case
  proof (cases "t = []")
    case True
    then show ?thesis by (simp add: file_lines.simps newlines_def)
  next
    case False
    let ?l = "fst (getline t)" and ?r = "snd (getline t)"
    have t: "t = ?l @ ?r" by (simp add: getline_append)
    have "?r = [] \<or> last ?r = NL" using 1(2) False t by (metis last_appendR)
    moreover have "newlines t = newlines ?l + newlines ?r" using t by (metis filter_append length_append newlines_def)
    ultimately show ?thesis
      using 1 False getline_newlines [OF False] by (subst file_lines.simps) simp
  qed
qed

lemma file_lines_hd: "NUL \<notin> set t \<Longrightarrow> l \<in> set (file_lines t) \<Longrightarrow> l \<noteq> [] \<and> hd l \<noteq> NUL"
proof (induction t rule: file_lines.induct)
  case (1 t)
  then have ne: "t \<noteq> []" by (auto simp: file_lines.simps)
  have sub: "NUL \<notin> set (fst (getline t))" "NUL \<notin> set (snd (getline t))"
    using 1(2) getline_append [of t] by (metis Un_iff set_append)+
  have "fst (getline t) \<noteq> []" using ne by (cases t) (auto simp: Let_def split_def)
  moreover have "l = fst (getline t) \<or> l \<in> set (file_lines (snd (getline t)))"
    using 1(3) ne by (subst (asm) file_lines.simps) simp
  ultimately show ?case using 1(1) [OF ne sub(2)] sub(1) by (metis hd_in_set)
qed

lemma locate_fork:
  assumes "whole_lines pre"
  shows "locate_loop (int (newlines pre)) 0 0 (file_lines (pre @ rest)) = length pre"
proof -
  have pre: "pre \<noteq> []" "last pre = NL" "NUL \<notin> set pre" using assms by (simp_all add: whole_lines_def)
  have "file_lines pre \<noteq> []" using pre(1) by (subst file_lines.simps) simp
  then have "locate_loop (0 + int (length (file_lines pre))) 0 0 (file_lines pre @ file_lines rest) = 0 + length (concat (file_lines pre))"
    using file_lines_hd [OF pre(3)] by (intro locate_records) auto
  then show ?thesis
    using pre by (simp add: file_lines_append file_lines_count concat_file_lines)
qed

lemma atol_text:
  assumes "0 \<le> n" and "in64 n"
  shows "atol (int64tostr n) = n"
proof -
  obtain c cs where c: "int64tostr n = c # cs" "is_digit c" using int64tostr_first(1) [OF assms(1)] by blast
  have "strtoint64 (int64tostr n @ []) = (n, [])" using assms by (intro strtoint64_int64tostr) (simp_all add: in64_def)
  with c have "strtoint64_digits 0 (c # cs) = (n, [])" by (auto simp: strtoint64_def split: if_splits)
  moreover have "\<not> is_ws c" "c \<notin> {NL, CHR 0x0B, CHR 0x0C, CHR 0x0D}" "c \<noteq> CHR ''-''" "c \<noteq> CHR ''+''"
    using c(2) by (auto simp: is_ws_def is_digit_def)
  moreover have "int64 n = n" using assms by (intro cint_id) (simp_all add: in64_def)
  ultimately show ?thesis using c(1) by (simp add: atol_def Let_def)
qed

text \<open>A date of a journal file.\<close>

definition journal_date :: "string \<Rightarrow> bool" where
  "journal_date d \<longleftrightarrow> length d \<le> 8 \<and> list_all is_digit d"

lemma locate_id:
  assumes date: "journal_date date" and pre: "whole_lines pre" "in64 (int (newlines pre))"
    and f: "map_of (ax_files e) date = Some (pre @ rest)"
  shows "locateJournal e (stream_id date (int (newlines pre))) a =
    Inr (0, a\<lparr>ac_id := Some date, ac_datetime := date, ac_record := int (newlines pre), ac_journal := Some (date, length pre)\<rparr>)"
proof -
  have "\<forall>c \<in> set date. c \<noteq> CHR '':''" using date by (auto simp: journal_date_def list_all_iff is_digit_def)
  then have "dropWhile (\<lambda>c. c \<noteq> CHR '':'') (stream_id date m) = CHR '':'' # int64tostr m"
    "takeWhile (\<lambda>c. c \<noteq> CHR '':'') (stream_id date m) = date" for m
    by (simp_all add: stream_id_def dropWhile_append2 takeWhile_append2)
  then show ?thesis
    using date f locate_fork [OF pre(1)] atol_text [OF _ pre(2)]
    by (simp add: locateJournal_def journal_date_def Let_def)
qed

text \<open>What the client has been sent, and what waits to be sent.\<close>

definition pending :: "acctClient \<Rightarrow> string" where
  "pending a = drop (ac_response_sent a) (bdata (ac_response a))"

subsection \<open>The turns of the loop\<close>

definition running :: "string \<Rightarrow> int \<Rightarrow> nat \<Rightarrow> acctClient \<times> buff \<Rightarrow> bool" where
  "running date n pos ab \<longleftrightarrow>
     stream_ok ab \<and> positioned date n pos (fst ab) \<and> ac_state (fst ab) = ACCT_STARTED \<and>
     ac_response_sent (fst ab) \<le> length (bdata (ac_response (fst ab))) \<and>
     split_line (drop (ac_pos (fst ab)) (bdata (ac_request (fst ab)))) = None"

text \<open>An event without a request, in which sending does not fail.\<close>

definition quiet :: "acct_event \<Rightarrow> bool" where
  "quiet ev \<longleftrightarrow> av_read ev = None \<and> av_write ev \<noteq> Some None"

text \<open>In this turn the journal has the given records behind the position, and it is the newest one.\<close>

definition sees :: "string \<Rightarrow> nat \<Rightarrow> acct_turn \<Rightarrow> jrec list \<Rightarrow> bool" where
  "sees date pos tu rs \<longleftrightarrow>
     \<not> tu_shutdown tu \<and> (\<forall>m. \<not> tu_shut tu m) \<and> in_place (ax_alloc (tu_env tu)) \<and> list_all streamable rs \<and>
     next_journal date (map fst (ax_files (tu_env tu))) = None \<and>
     (\<exists>pre k. map_of (ax_files (tu_env tu)) date = Some (pre @ concat (jrec_lines rs) @ replicate k NUL) \<and> length pre = pos)"

lemma write_keeps_stream:
  assumes "running date n pos (a, b)" and "handleAcctClientWrite (Some k) a = (rc, bytes, a')"
  shows "rc = 0" and "running date n pos (a', b)" and "bytes @ pending a' = pending a"
    and "length (bdata (ac_response a')) \<le> length (bdata (ac_response a))"
  using assms
  by (auto simp: handleAcctClientWrite_def Let_def running_def stream_ok_def positioned_def buff_ok_def pending_def min_def
      add.commute simp flip: drop_drop split: if_splits)

lemma quiet_events:
  "list_all quiet evs \<Longrightarrow> running date n pos (a, b) \<Longrightarrow>
   \<exists>out' a'. acct_events alloc evs (out, a) = Inr (True, out', a') \<and> running date n pos (a', b) \<and>
     out' @ pending a' = out @ pending a \<and> length (bdata (ac_response a')) \<le> length (bdata (ac_response a))"
proof (induction evs arbitrary: out a)
  case (Cons ev evs)
  show ?case
  proof (cases "av_write ev")
    case None
    with Cons.prems Cons.IH [of a out] show ?thesis by (simp add: quiet_def)
  next
    case (Some w)
    with Cons.prems(1) obtain k where k: "w = Some k" by (auto simp: quiet_def)
    obtain rc bytes a1 where w: "handleAcctClientWrite (Some k) a = (rc, bytes, a1)" by (cases "handleAcctClientWrite (Some k) a")
    note a1 = write_keeps_stream [OF Cons.prems(2) w]
    obtain out' a' where "acct_events alloc evs (out @ bytes, a1) = Inr (True, out', a')" "running date n pos (a', b)"
      "out' @ pending a' = (out @ bytes) @ pending a1" "length (bdata (ac_response a')) \<le> length (bdata (ac_response a1))"
      using Cons.IH [OF _ a1(2), of "out @ bytes"] Cons.prems(1) by auto
    with Some k w a1 Cons.prems(1) show ?thesis by (simp add: quiet_def)
  qed
qed simp

lemma file_lines_records:
  assumes "list_all streamable rs"
  shows "file_lines (concat (jrec_lines rs) @ replicate k NUL) = jrec_lines rs @ file_lines (replicate k NUL)"
proof -
  have "concat (jrec_lines rs) = file_text (map jrec_text rs)" by (simp add: file_text_def jrec_lines_def comp_def)
  moreover have "\<forall>l \<in> set (map jrec_text rs). NL \<notin> set l" using assms jrec_text_clean by (auto simp: list_all_iff)
  ultimately have "file_lines (concat (jrec_lines rs)) = jrec_lines rs" by (simp add: file_lines_text jrec_lines_def comp_def)
  moreover have "concat (jrec_lines rs) = [] \<or> last (concat (jrec_lines rs)) = NL"
    by (induction rs) auto
  ultimately show ?thesis by (simp add: file_lines_append)
qed

lemma pass_records:
  assumes run: "running date n pos (a, b)" and sees: "sees date pos tu rs" and n: "0 \<le> n" "in64 (n + int (length rs))"
    and len: "length (bdata (ac_response a)) + length (stream_text date n rs) < 2 ^ 58"
  shows "\<exists>ab'. stream_pass (tu_env tu) (tu_shut tu) (a, b) = Inr ab' \<and>
    running date (n + int (length rs)) (pos + length (concat (jrec_lines rs))) ab' \<and>
    pending (fst ab') = pending a @ stream_text date n rs \<and>
    length (bdata (ac_response (fst ab'))) = length (bdata (ac_response a)) + length (stream_text date n rs)"
proof -
  obtain pre k where f: "map_of (ax_files (tu_env tu)) date = Some (pre @ concat (jrec_lines rs) @ replicate k NUL)" "length pre = pos"
    using sees by (auto simp: sees_def)
  have ok: "stream_ok (a, b)" "positioned date n pos a" "list_all streamable rs" using run sees by (simp_all add: running_def sees_def)
  have env: "in_place (ax_alloc (tu_env tu))" "next_journal date (map fst (ax_files (tu_env tu))) = None" "\<And>m. \<not> tu_shut tu m"
    using sees by (simp_all add: sees_def)
  obtain ab' where ab': "stream_lines (tu_env tu) (tu_shut tu) (jrec_lines rs @ file_lines (replicate k NUL)) (a, b) = Inr ab'"
    "advanced (a, b) (stream_text date n rs) date (n + int (length rs)) (pos + length (concat (jrec_lines rs))) ab'"
    using stream_records [where shut = "tu_shut tu", OF env ok n len] by blast
  have "stream_pass (tu_env tu) (tu_shut tu) (a, b) = Inr ab'"
    using ab'(1) ok f file_lines_records [OF ok(3)] by (simp add: stream_pass_def positioned_def)
  then show ?thesis using ab'(2) run by (simp add: advanced_def running_def pending_def)
qed

text \<open>Turns in which requests do not arrive and the journal grows by the given records.\<close>

fun quiet_turns :: "string \<Rightarrow> nat \<Rightarrow> (acct_turn \<times> jrec list) list \<Rightarrow> bool" where
  "quiet_turns date pos [] \<longleftrightarrow> True"
| "quiet_turns date pos ((tu, rs) # tus) \<longleftrightarrow>
     list_all quiet (tu_events tu) \<and> sees date pos tu rs \<and> quiet_turns date (pos + length (concat (jrec_lines rs))) tus"

lemma stream_text_append: "stream_text date n (rs @ qs) = stream_text date n rs @ stream_text date (n + int (length rs)) qs"
  by (induction rs arbitrary: n) (simp_all add: algebra_simps)

lemma loop_records:
  "quiet_turns date pos tus \<Longrightarrow> running date n pos ab \<Longrightarrow> 0 \<le> n \<Longrightarrow> in64 (n + int (length (concat (map snd tus)))) \<Longrightarrow>
   length (bdata (ac_response (fst ab))) + length (stream_text date n (concat (map snd tus))) < 2 ^ 58 \<Longrightarrow>
   \<exists>out' ab'. acct_loop (map fst tus) (out, ab) = Inr (True, out', ab') \<and>
     out' @ pending (fst ab') = out @ pending (fst ab) @ stream_text date n (concat (map snd tus))"
proof (induction date pos tus arbitrary: out ab n rule: quiet_turns.induct)
  case (2 date pos tu rs tus)
  obtain a b where ab: "ab = (a, b)" by fastforce
  have prems: "list_all quiet (tu_events tu)" "sees date pos tu rs" "quiet_turns date (pos + length (concat (jrec_lines rs))) tus"
    "running date n pos (a, b)" using 2(2,3) ab by simp_all
  obtain out1 a1 where e1: "acct_events (ax_alloc (tu_env tu)) (tu_events tu) (out, a) = Inr (True, out1, a1)"
    "running date n pos (a1, b)" "out1 @ pending a1 = out @ pending a" "length (bdata (ac_response a1)) \<le> length (bdata (ac_response a))"
    using quiet_events [OF prems(1,4)] by blast
  have req: "checkRequests (tu_env tu) a1 = Inr a1" using e1(2) by (subst checkRequests.simps) (simp add: running_def)
  have len: "length (bdata (ac_response a1)) + length (stream_text date n rs) < 2 ^ 58" "in64 (n + int (length rs))"
    using 2(4-6) ab e1(4) by (simp_all add: stream_text_append in64_def)
  obtain ab2 where p: "stream_pass (tu_env tu) (tu_shut tu) (a1, b) = Inr ab2"
    "running date (n + int (length rs)) (pos + length (concat (jrec_lines rs))) ab2"
    "pending (fst ab2) = pending a1 @ stream_text date n rs"
    "length (bdata (ac_response (fst ab2))) = length (bdata (ac_response a1)) + length (stream_text date n rs)"
    using pass_records [OF e1(2) prems(2) 2(4) len(2,1)] by blast
  have "acct_loop_body tu (out, ab) = Inr (True, out1, ab2)"
    using prems(2) ab e1(1,2) req p(1) by (simp add: acct_loop_body_def sees_def running_def)
  moreover have "\<exists>out' ab'. acct_loop (map fst tus) (out1, ab2) = Inr (True, out', ab') \<and>
      out' @ pending (fst ab') = out1 @ pending (fst ab2) @ stream_text date (n + int (length rs)) (concat (map snd tus))"
    using 2(4-6) ab e1(4) p(4) by (intro 2(1) [OF prems(3) p(2)]) (simp_all add: stream_text_append algebra_simps)
  ultimately show ?case
    using e1(3) p(3) ab by (simp add: stream_text_append flip: append_assoc)
qed simp

subsection \<open>A whole stream\<close>

lemma sendInitial_frame:
  assumes "sendInitial e acct_new = Inr a1"
  shows "sendInitial e (acct_new\<lparr>ac_request := r\<rparr>) = Inr (a1\<lparr>ac_request := r\<rparr>)" and "buff_ok (ac_response a1)"
    and "a1 = acct_new\<lparr>ac_response := ac_response a1, ac_id := ac_id a1, ac_writable := True\<rparr>"
proof -
  have "\<exists>b t. buffAdd (ax_alloc e) b t = Inr (ac_response a1) \<and>
    a1 = acct_new\<lparr>ac_response := ac_response a1, ac_id := ac_id a1, ac_writable := True\<rparr>"
    using assms by (auto simp: sendInitial_def Let_def bindR_def buffAddBuff_def split: sum.splits option.splits) metis
  then show "buff_ok (ac_response a1)" "a1 = acct_new\<lparr>ac_response := ac_response a1, ac_id := ac_id a1, ac_writable := True\<rparr>"
    using buffPut_sound by (auto simp: buffAdd_def)
  show "sendInitial e (acct_new\<lparr>ac_request := r\<rparr>) = Inr (a1\<lparr>ac_request := r\<rparr>)"
    using assms by (auto simp: sendInitial_def Let_def bindR_def split: sum.splits option.splits)
qed

definition start_event :: acct_event where
  "start_event = \<lparr>av_read = Some (Bytes (''START'' @ [NL])), av_write = None\<rparr>"

lemma start_read:
  "acct_events alloc [start_event] (out, acct_new\<lparr>ac_request := \<lparr>bdata = [], bsize = BUFF_DEFAULT_SIZE\<rparr>\<rparr>) =
   Inr (True, out, acct_new\<lparr>ac_request := \<lparr>bdata = ''START'' @ [NL], bsize = BUFF_DEFAULT_SIZE\<rparr>\<rparr>)"
  by (simp add: start_event_def handleAcctClientRead_def buffResize_def BUFF_DEFAULT_SIZE_def bindR_def)

lemma start_request:
  assumes "ac_request a = \<lparr>bdata = ''START'' @ [NL], bsize = n\<rparr>" and "ac_pos a = 0" and "processRequest e ''START'' a = Inr (0, a')"
  obtains a'' where "checkRequests e a = Inr a''" "ac_journal a'' = ac_journal a'" "ac_record a'' = ac_record a'"
    "ac_datetime a'' = ac_datetime a'" "ac_state a'' = ac_state a'" "ac_response a'' = ac_response a'"
    "ac_response_sent a'' = ac_response_sent a'" "split_line (drop (ac_pos a'') (bdata (ac_request a''))) = None"
proof -
  let ?a = "a'\<lparr>ac_request := \<lparr>bdata = ''START'' @ [NUL], bsize = n\<rparr>, ac_pos := 6\<rparr>"
  have "checkRequests e a = checkRequests e ?a"
    using assms by (subst checkRequests.simps) (simp add: split_line_def c_str_def eval_nat_numeral)
  also have "\<dots> = Inr ?a" by (subst checkRequests.simps) (simp add: split_line_def)
  finally show ?thesis by (rule that) (simp_all add: split_line_def)
qed


text \<open>A stream of two records behind one that was there at the fork, over two turns.\<close>

definition demo_jrec :: jrec where
  "demo_jrec = \<lparr>jr_sec = 5, jr_msec = 42, jr_uid = 100, jr_command = ''STATS'', jr_jobid = 0, jr_revision = 0,
     jr_message = Some (bare_request ''STATS''), jr_marked = False\<rparr>"

definition demo_turn :: "acct_event list \<Rightarrow> jrec list \<Rightarrow> acct_turn" where
  "demo_turn evs rs =
     \<lparr>tu_shutdown = False, tu_events = evs,
      tu_env = \<lparr>ax_server = demo_server\<lparr>queueTable := [], resTable := [], jobTable := []\<rparr>, ax_journal = (demo_journal 0)\<lparr>jn_record := 1\<rparr>,
        ax_dir = ''/state'', ax_alloc = (\<lambda>_. AllocSame), ax_files = [(''20200101'', concat (jrec_lines rs) @ replicate 7 NUL)]\<rparr>,
      tu_shut = (\<lambda>_. False)\<rparr>"

lemma demo_streamable: "streamable demo_jrec"
  using demo_recordable by (simp add: streamable_def demo_jrec_def bare_request_def quoted_name_def)

lemma streamable_line: "streamable r \<Longrightarrow> whole_lines (jrec_text r @ [NL]) \<and> newlines (jrec_text r @ [NL]) = 1"
  using jrec_text_clean [of r] by (auto simp: whole_lines_def newlines_def filter_empty_conv)

lemma sendInitial_empty:
  assumes "in_place (ax_alloc e)" and "queueTable (ax_server e) = []" and "resTable (ax_server e) = []" and "jobTable (ax_server e) = []"
    and "length (stream_id (jn_datetime (ax_journal e)) (jn_record (ax_journal e))) < 32"
  shows "\<exists>a1. sendInitial e acct_new = Inr a1 \<and> length (bdata (ac_response a1)) < 200"
proof -
  let ?id = "stream_id (jn_datetime (ax_journal e)) (jn_record (ax_journal e))" and ?alloc = "ax_alloc e"
  let ?d2 = "''{'' @ quoted_name ''STREAM_START'' @ ''{''"
  let ?d3 = "?d2 @ quoted_name ''ACCT_ID'' @ jstring ?id"
  have id: "length (jstring ?id) \<le> 66" using jstring_length(2) [of ?id] assms(5) by simp
  obtain b where b: "buffNew ?alloc 0 = Some b" "bdata b = []" "buff_ok b"
    using assms(1) by (simp add: buffNew_def in_place_def buff_ok_def)
  have s1: "writes (JSONStart ?alloc b) ''{''"
    using writes_add [OF assms(1) b(3), of "''{''"] b(2) by (simp add: JSONStart_def)
  have s2: "writes (JSONStartObject ?alloc c (Some ''STREAM_START'')) ?d2" if "bdata c = ''{''" "buff_ok c" for c
    using writes_JSONStartObject [OF assms(1) that(2), of "''STREAM_START''"] that(1) by simp
  have s3: "writes (JSONAddString ?alloc c ACCT_ID (Some ?id)) (?d3 @ '','')" if "bdata c = ?d2" "buff_ok c" for c
    using writes_string [OF assms(1) that(2), of ACCT_ID ?id] that(1) assms(5) by (simp add: acct_field_names)
  have s4: "writes (JSONEndObject ?alloc c) (?d3 @ ''},'')" if "bdata c = ?d3 @ '',''" "buff_ok c" for c
    unfolding JSONEndObject_def
    using writes_close [OF assms(1) that(2), of "'',''" ?d3 "CHR ''}''"] that(1) id by simp
  have s5: "writes (JSONEnd ?alloc c) (?d3 @ ''}}'' @ [NL])" if "bdata c = ?d3 @ ''},''" "buff_ok c" for c
    unfolding JSONEnd_def
    using writes_close [OF assms(1) that(2), of "[NL]" "?d3 @ ''}''" "CHR ''}''"] that(1) id by simp
  have "\<exists>r. stream_start ?alloc ?id = Some r \<and> writes r (?d3 @ ''}}'' @ [NL])"
    unfolding stream_start_def b(1) option.map
    by (rule exI, rule conjI, rule refl, rule writes_bindR [OF s1], rule writes_bindR [OF s2], assumption+,
        rule writes_bindR [OF s3], assumption+, rule writes_bindR [OF s4], assumption+, rule s5, assumption+)
  then obtain m where m: "stream_start ?alloc ?id = Some (Inr m)" "bdata m = ?d3 @ ''}}'' @ [NL]"
    by (auto simp: writes_def)
  have "writes (buffAdd ?alloc \<lparr>bdata = [], bsize = 0\<rparr> (bdata m)) (bdata m)"
    using writes_add [OF assms(1), of "\<lparr>bdata = [], bsize = 0\<rparr>" "bdata m"] m(2) id by (simp add: buff_ok_def)
  then show ?thesis
    using assms(2-4) m id by (auto simp: sendInitial_def acct_new_def buffAddBuff_def writes_def bindR_def Let_def)
qed

lemma demo_stream_small: "length (stream_text ''20200101'' 1 [demo_jrec, demo_jrec]) < 1000"
  by code_simp

lemma demo_sees:
  "sees ''20200101'' (length (concat (jrec_lines (replicate n demo_jrec)))) (demo_turn evs (replicate (n + m) demo_jrec)) (replicate m demo_jrec)"
proof -
  have "concat (jrec_lines (replicate (n + m) demo_jrec)) @ replicate 7 NUL =
      concat (jrec_lines (replicate n demo_jrec)) @ concat (jrec_lines (replicate m demo_jrec)) @ replicate 7 NUL"
    by (simp add: jrec_lines_def replicate_add)
  moreover have "list_all streamable (replicate m demo_jrec)" using demo_streamable by (induction m) simp_all
  ultimately show ?thesis by (simp add: sees_def demo_turn_def in_place_def) blast
qed


subsection \<open>A journalled command is streamed\<close>

lemma journal_line_jrec:
  "journal_line sec msec uid command jobid revision m =
   jrec_text \<lparr>jr_sec = sec, jr_msec = msec, jr_uid = uid, jr_command = command, jr_jobid = jobid, jr_revision = revision,
     jr_message = m, jr_marked = False\<rparr> @ [NL]"
  by (simp add: journal_line_text jrec_text_def record_text_def)

lemma saved_is_seen:
  assumes ok: "journal_ok j" "je_sec je < jn_next_rollover j" "je_extended je = []" "je_written je = Some n"
    and r: "r = \<lparr>jr_sec = je_sec je, jr_msec = je_msec je, jr_uid = uid, jr_command = command, jr_jobid = jobid,
      jr_revision = revision, jr_message = m, jr_marked = False\<rparr>" "streamable r"
    and block: "length (jrec_text r) < jn_extend_block_size j" "jn_extend_block_size j \<le> n"
    and save: "stateSaveCmd je uid command m jobid revision (j, s) = Inr (rc, j', s')"
  obtains k where "rc = 0" "journal_ok j'" "jn_text j' = journal_body j @ concat (jrec_lines [r]) @ replicate k NUL"
    "length (journal_body j) = jn_len j" "jn_len j' = jn_len j + length (concat (jrec_lines [r]))"
proof -
  let ?l = "journal_line (je_sec je) (je_msec je) uid command jobid revision m"
  have l: "?l = jrec_text r @ [NL]" by (simp add: journal_line_jrec r)
  have rec: "recordable (je_sec je) (je_msec je) uid command jobid revision m" using r(2) by (simp add: r(1) streamable_def)
  have len: "length ?l \<le> jn_extend_block_size j" "length ?l \<le> n" using block by (simp_all add: l)
  obtain k where j': "rc = 0" "journal_ok j'" "jn_text j' = (journal_body j @ ?l) @ replicate k NUL" "journal_body j' = journal_body j @ ?l"
    using stateSaveCmd_appends [OF ok len(2) refl rec len(1), of s] save by fastforce
  have "length (journal_body q) = jn_len q" if "journal_ok q" for q using journal_ok_text [OF that] by metis
  from this [OF ok(1)] this [OF j'(2)] show ?thesis using j' by (intro that [of k]) (simp_all add: l)
qed

text \<open>C21. A command that the daemon journals reaches the accounting clients: when a stream has
  sent everything up to the end of the journal and \<open>stateSaveCmd\<close> writes one more record, the
  next turn of the stream adds exactly the update of that record, with the next identifier,
  to what it sends, and is at the end of the journal again.\<close>

theorem journalled_is_streamed:
  assumes "journal_ok j" and "je_sec je < jn_next_rollover j" and "je_extended je = []" and "je_written je = Some n"
    and "r = \<lparr>jr_sec = je_sec je, jr_msec = je_msec je, jr_uid = uid, jr_command = command, jr_jobid = jobid,
      jr_revision = revision, jr_message = m, jr_marked = False\<rparr>" and "streamable r"
    and "length (jrec_text r) < jn_extend_block_size j" and "jn_extend_block_size j \<le> n"
    and "stateSaveCmd je uid command m jobid revision (j, s) = Inr (rc, j', s')"
    and "running date i (jn_len j) (a, b)" and "0 \<le> i" and "in64 (i + 1)" and "in_place (ax_alloc e)"
    and "map_of (ax_files e) date = Some (jn_text j')" and "next_journal date (map fst (ax_files e)) = None"
    and "length (bdata (ac_response a)) + length (sent_text date (i + 1) r) < 2 ^ 58"
  shows "\<exists>ab'. stream_pass e (\<lambda>_. False) (a, b) = Inr ab' \<and>
    pending (fst ab') = pending a @ sent_text date (i + 1) r \<and> running date (i + 1) (jn_len j') ab'"
proof -
  let ?tu = "\<lparr>tu_shutdown = False, tu_events = [], tu_env = e, tu_shut = (\<lambda>_. False)\<rparr>"
  obtain k where j': "jn_text j' = journal_body j @ concat (jrec_lines [r]) @ replicate k NUL"
    "length (journal_body j) = jn_len j" "jn_len j' = jn_len j + length (concat (jrec_lines [r]))"
    by (rule saved_is_seen [OF assms(1-9)])
  then have "sees date (jn_len j) ?tu [r]" using assms(6,13-15) by (auto simp: sees_def)
  from pass_records [OF assms(10) this assms(11)] assms(12,16) j'(3) show ?thesis by auto
qed

theorem journalled_is_streamed_witness:
  "\<exists>n j' s' ab'. stateSaveCmd (demo_journal_env n) 100 ''STATS'' (Some (bare_request ''STATS'')) 0 0 (demo_journal n, demo_server) =
       Inr (0, j', s') \<and>
     stream_pass ((tu_env (demo_turn [] []))\<lparr>ax_files := [(''20200101'', jn_text j')]\<rparr>) (\<lambda>_. False)
       (acct_new\<lparr>ac_state := ACCT_STARTED, ac_datetime := ''20200101'', ac_journal := Some (''20200101'', 0)\<rparr>, \<lparr>bdata = [], bsize = 0\<rparr>) = Inr ab' \<and>
     pending (fst ab') = sent_text ''20200101'' 1 demo_jrec"
proof -
  let ?t = "Some (bare_request ''STATS'')" and ?n = "Suc (length (jrec_text demo_jrec))"
  let ?a = "acct_new\<lparr>ac_state := ACCT_STARTED, ac_datetime := ''20200101'', ac_journal := Some (''20200101'', 0)\<rparr>"
  have env: "je_sec (demo_journal_env ?n) = 5" "je_msec (demo_journal_env ?n) = 42" "je_extended (demo_journal_env ?n) = []"
    "je_written (demo_journal_env ?n) = Some ?n" "jn_extend_block_size (demo_journal ?n) = ?n"
    "jn_next_rollover (demo_journal ?n) = 100" "jn_len (demo_journal ?n) = 0"
    by (simp_all add: demo_journal_env_def demo_journal_def)
  have line: "journal_line 5 42 100 ''STATS'' 0 0 ?t = jrec_text demo_jrec @ [NL]" by (simp add: journal_line_jrec demo_jrec_def)
  have rec: "recordable (je_sec (demo_journal_env ?n)) (je_msec (demo_journal_env ?n)) 100 ''STATS'' 0 0 ?t"
    unfolding env by (rule demo_recordable)
  obtain j' s' where save: "stateSaveCmd (demo_journal_env ?n) 100 ''STATS'' ?t 0 0 (demo_journal ?n, demo_server) = Inr (0, j', s')"
    by (rule stateSaveCmd_appends [OF demo_journal_ok [of ?n] _ env(3,4) _ refl rec, where s = demo_server]) (simp_all add: env line)
  let ?e = "(tu_env (demo_turn [] []))\<lparr>ax_files := [(''20200101'', jn_text j')]\<rparr>"
  have "\<exists>ab'. stream_pass ?e (\<lambda>_. False) (?a, \<lparr>bdata = [], bsize = 0\<rparr>) = Inr ab' \<and>
      pending (fst ab') = pending ?a @ sent_text ''20200101'' (0 + 1) demo_jrec \<and> running ''20200101'' (0 + 1) (jn_len j') ab'"
  proof (rule journalled_is_streamed [OF demo_journal_ok [of ?n] _ env(3,4) _ demo_streamable _ _ save])
    show "demo_jrec = \<lparr>jr_sec = je_sec (demo_journal_env ?n), jr_msec = je_msec (demo_journal_env ?n), jr_uid = 100,
        jr_command = ''STATS'', jr_jobid = 0, jr_revision = 0, jr_message = ?t, jr_marked = False\<rparr>"
      unfolding env by (simp add: demo_jrec_def)
    have "length (sent_text ''20200101'' 1 demo_jrec) < 1000" by code_simp
    then show "length (bdata (ac_response ?a)) + length (sent_text ''20200101'' (0 + 1) demo_jrec) < 2 ^ 58"
      by (simp add: acct_new_def)
  qed (simp_all add: env running_def stream_ok_def positioned_def acct_new_def buff_ok_def split_line_def in64_def in_place_def demo_turn_def)
  then show ?thesis using save by (auto simp: pending_def acct_new_def)
qed

subsection \<open>The end of a journal\<close>

lemma stream_end_marker:
  assumes "positioned date n pos a" and "map_of (ax_files e) date = Some (pre @ [DOLLAR, NL] @ rest)" and "length pre = pos"
  shows "stream_pass e shut (a, b) = Inl Abort"
proof -
  have "file_lines (DOLLAR # NL # rest) = [DOLLAR, NL] # file_lines rest"
    by (subst file_lines.simps) simp
  moreover have "scan_update (chop [DOLLAR, NL]) = None"
    by (simp add: chop_def c_str_def scan_update_def bindO_def scan_word_def scan_blank_def)
  ultimately show ?thesis
    using assms by (simp add: stream_pass_def positioned_def send_update_def bindR_def)
qed

lemma closed_journal:
  assumes "journal_ok j" and "jn_open j" and "tfind fst (jn_datetime j) (jn_files j) = None"
  obtains rest where "map_of (jn_files (closeJournal j)) (jn_datetime j) = Some (journal_body j @ [DOLLAR, NL] @ rest)"
proof -
  obtain body k where "jn_text j = body @ replicate k NUL" "journal_body j = body" "jn_pos j = length body"
    by (rule journal_ok_text [OF assms(1)])
  then have "pwrite (jn_pos j) [DOLLAR, NL] (jn_text j) =
      journal_body j @ [DOLLAR, NL] @ drop (jn_pos j + 2) (jn_text j)"
    by (simp add: pwrite_def)
  moreover have "jn_datetime j \<notin> fst ` set (jn_files j)" using assms(3) by (auto simp: tfind_None_iff)
  ultimately show ?thesis
    using assms(2) by (intro that [of "drop (jn_pos j + 2) (jn_text j)"]) (simp add: closeJournal_def tadd_def map_add_Some_iff map_of_eq_None_iff)
qed

lemma roll_keeps_closed:
  assumes "jn_next_rollover j \<le> je_sec e" and "je_date e (je_sec e) \<noteq> date" and "roll_journal e (j, s) = Inr (rc, j', s')"
  shows "map_of (jn_files j') date = map_of (jn_files (closeJournal j)) date" and "jn_datetime j' = je_date e (je_sec e)"
proof -
  let ?j = "openStateFile e ((closeJournal j)\<lparr>jn_next_rollover := je_rollover e (je_sec e)\<rparr>)"
  have del: "map_of (tdel fst d fs) date = map_of fs date" if "d \<noteq> date" for d and fs :: "(string \<times> string) list"
    using that by (induction fs) (auto simp: tdel_def)
  have o: "map_of (jn_files ?j) date = map_of (jn_files (closeJournal j)) date" "jn_datetime ?j = je_date e (je_sec e)"
    using assms(2) del by (auto simp: openStateFile_def Let_def split: option.splits prod.splits)
  have x: "extendJournal rs (k, t) = Inr (rc, k', t') \<Longrightarrow> jn_files k' = jn_files k \<and> jn_datetime k' = jn_datetime k" for rs k t k' t'
    by (auto simp: extendJournal_def Let_def bindR_def split: sum.splits if_splits)
  have "jn_files j' = jn_files ?j \<and> jn_datetime j' = jn_datetime ?j"
    using assms(1,3) x by (auto simp: roll_journal_def Let_def split: if_splits)
  with o show "map_of (jn_files j') date = map_of (jn_files (closeJournal j)) date" "jn_datetime j' = je_date e (je_sec e)"
    by simp_all
qed

text \<open>C22. An accounting stream does not survive midnight: when the daemon changes over to the
  journal of a new day it ends the old one with a line that is not a record, and a stream that
  has sent everything up to there reads that line as a record, finds no fields in it and ends
  its process, instead of going on with the new journal.\<close>

theorem rollover_ends_stream:
  assumes "journal_ok j" and "jn_open j" and "tfind fst (jn_datetime j) (jn_files j) = None"
    and "jn_next_rollover j \<le> je_sec je" and "je_date je (je_sec je) \<noteq> jn_datetime j"
    and "roll_journal je (j, s) = Inr (rc, j', s')"
    and "positioned (jn_datetime j) n (jn_len j) a"
    and "ax_files e = jn_files j' @ [(jn_datetime j', jn_text j')]"
  shows "stream_pass e shut (a, b) = Inl Abort"
proof -
  obtain rest where "map_of (jn_files (closeJournal j)) (jn_datetime j) = Some (journal_body j @ [DOLLAR, NL] @ rest)"
    using closed_journal [OF assms(1-3)] by blast
  then have "map_of (ax_files e) (jn_datetime j) = Some (journal_body j @ [DOLLAR, NL] @ rest)"
    using roll_keeps_closed [OF assms(4-6)] assms(5,8) by (simp add: map_add_Some_iff)
  moreover have "length (journal_body j) = jn_len j" using journal_ok_text [OF assms(1)] by metis
  ultimately show ?thesis using stream_end_marker [OF assms(7)] by blast
qed

theorem rollover_ends_stream_witness:
  "stream_pass
     \<lparr>ax_server = demo_server, ax_journal = demo_journal 8, ax_dir = ''/state'', ax_alloc = (\<lambda>_. AllocSame),
      ax_files = [(''20200101'', [DOLLAR, NL]), (''20200102'', replicate 16 NUL)]\<rparr>
     (\<lambda>_. False)
     (acct_new\<lparr>ac_journal := Some (''20200101'', 0), ac_datetime := ''20200101'', ac_state := ACCT_STARTED\<rparr>,
      \<lparr>bdata = [], bsize = 0\<rparr>) = Inl Abort"
proof -
  let ?je = "(demo_journal_env 0)\<lparr>je_sec := 100, je_date := (\<lambda>_. ''20200102'')\<rparr>"
  have "(\<lambda>r. case r of Inl _ \<Rightarrow> False | Inr (_, j, _) \<Rightarrow>
      jn_files j = [(''20200101'', [DOLLAR, NL])] \<and> jn_datetime j = ''20200102'' \<and> jn_text j = replicate 16 NUL)
    (roll_journal ?je (demo_journal 8, demo_server))"
    by (simp add: roll_journal_def closeJournal_def openStateFile_def demo_journal_def demo_journal_env_def tadd_def tfind_def
        pwrite_def extendJournal_def fill_loop.simps bindR_def)
  then obtain rc j' s' where j': "roll_journal ?je (demo_journal 8, demo_server) = Inr (rc, j', s')"
    "jn_files j' = [(''20200101'', [DOLLAR, NL])]" "jn_datetime j' = ''20200102''" "jn_text j' = replicate 16 NUL"
    by (auto split: sum.splits)
  show ?thesis
    by (rule rollover_ends_stream [OF demo_journal_ok _ _ _ _ j'(1)])
      (simp_all add: demo_journal_def demo_journal_env_def tfind_def positioned_def acct_new_def j'(2-))
qed

subsection \<open>Streams that fail\<close>

text \<open>A journal in a directory whose path has a dot: the date that is copied at the change of the file is too long.\<close>

lemma dotted_directory_overflows:
  assumes "next_journal (ac_datetime a) (map fst (ax_files e)) = Some d" and "CHR ''.'' \<in> set (ax_dir e)"
  shows "length d \<ge> 1 \<Longrightarrow> switch_journal e a = Inl Overflow"
proof -
  obtain p q where dir: "ax_dir e = p @ CHR ''.'' # q" "CHR ''.'' \<notin> set p" using split_list_first [OF assms(2)] by blast
  then have "dropWhile (\<lambda>c. c \<noteq> CHR ''.'') (ax_dir e @ ''/journal.'' @ d) = CHR ''.'' # q @ ''/journal.'' @ d"
    by (subst dir(1), simp only: append_assoc, subst dropWhile_append2) auto
  then show "length d \<ge> 1 \<Longrightarrow> switch_journal e a = Inl Overflow"
    using assms(1) by (simp add: switch_journal_def Let_def)
qed

text \<open>A \<open>START\<close> with an identifier without a colon starts the stream without a journal, and the
  process reads through a null pointer.\<close>

lemma start_without_position:
  assumes "CHR '':'' \<notin> set ident" and "ident \<noteq> []" and "ac_journal a = None"
  obtains a' where "processRequest e (''START '' @ ident) a = Inr (0, a')" "ac_state a' = ACCT_STARTED"
    "stream_pass e' shut (a', b) = Inl NullPointer"
proof -
  have "dropWhile (\<lambda>c. c \<noteq> CHR '':'') ident = []" using assms(1) by (auto simp: dropWhile_eq_Nil_conv)
  then have "processRequest e (''START '' @ ident) a = Inr (0, a\<lparr>ac_id := Some ident, ac_state := ACCT_STARTED\<rparr>)"
    using assms(2) by (cases ident) (simp_all add: processRequest_def strcasecmp_eq_def locateJournal_def bindR_def eval_nat_numeral)
  then show ?thesis by (rule that) (simp_all add: stream_pass_def assms(3))
qed

text \<open>When \<open>fork\<close> fails the daemon itself reads a freed client at its next check of the streams.\<close>

lemma failed_fork_is_read_again:
  "checkAcctEvent exited (snd (handleAcctClientConnection (Some fd) (Some uid) ForkFailed addr as)) = Inl StalePointer"
  by (simp add: checkAcctEvent_def handleAcctClientConnection_def addAcctClient_def Let_def)

end
