(* ===== verification/Cli.thy ===== *)
theory Cli
  imports Client Agent_Job Acct
begin

section \<open>The command line tool, jers.c and jers_cli.c\<close>

text \<open>
  \<open>src/src/jers.c\<close> and \<open>src/src/jers_cli.c\<close>: the words of the command line select a function by
  its object and action, \<open>argp\<close> hands the options and arguments to the parser of the function,
  and the function calls the client library. What is printed is kept as a list; an object that
  is shown is kept as it is, and what \<open>--verbose\<close> adds is left out. The broken-down time, \<open>mktime\<close> and the user database are arguments.
\<close>

subsection \<open>The option parser of the C library\<close>

text \<open>
  An option is its long name, its key and whether it takes an argument. \<open>argp\<close> takes the options
  from wherever they are and leaves the other words, all words behind \<open>--\<close> included, in their
  order. \<open>None\<close>: an error, after which \<open>argp\<close> prints how the command is used and ends the process.
\<close>

type_synonym argp_option = "string \<times> char \<times> bool"

definition argp_long :: "argp_option list \<Rightarrow> string \<Rightarrow> (char \<times> bool) option" where
  "argp_long tab name =
     (case filter (\<lambda>(n, _). n = name) tab of
        (_, c) # _ \<Rightarrow> Some c
      | [] \<Rightarrow> (case filter (\<lambda>(n, _). take (length name) n = name) tab of [(_, c)] \<Rightarrow> Some c | _ \<Rightarrow> None))"

definition argp_short :: "argp_option list \<Rightarrow> char \<Rightarrow> bool option" where
  "argp_short tab c = map_option (\<lambda>(_, _, takes). takes) (find (\<lambda>(_, k, _). k = c) tab)"

text \<open>The letters of one word: the options, and the last one if its argument is the next word.\<close>

fun argp_cluster :: "argp_option list \<Rightarrow> string \<Rightarrow> ((char \<times> string) list \<times> char option) option" where
  "argp_cluster tab [] = Some ([], None)"
| "argp_cluster tab (c # cs) =
     (case argp_short tab c of
        None \<Rightarrow> None
      | Some True \<Rightarrow> if cs \<noteq> [] then Some ([(c, cs)], None) else Some ([], Some c)
      | Some False \<Rightarrow> map_option (\<lambda>(os, l). ((c, []) # os, l)) (argp_cluster tab cs))"

definition with_opts :: "(char \<times> string) list \<Rightarrow> ((char \<times> string) list \<times> string list) option \<Rightarrow>
  ((char \<times> string) list \<times> string list) option" where
  "with_opts os r = map_option (\<lambda>(qs, ws). (os @ qs, ws)) r"

function argp_scan :: "argp_option list \<Rightarrow> string list \<Rightarrow> ((char \<times> string) list \<times> string list) option" where
  "argp_scan tab [] = Some ([], [])"
| "argp_scan tab (w # ws) =
     (if w = ''--'' then Some ([], ws)
      else if take 2 w = ''--'' then
        (let name = takeWhile (\<lambda>c. c \<noteq> CHR ''='') (drop 2 w); v = dropWhile (\<lambda>c. c \<noteq> CHR ''='') w
         in case argp_long tab name of
              None \<Rightarrow> None
            | Some (c, False) \<Rightarrow> if v = [] then with_opts [(c, [])] (argp_scan tab ws) else None
            | Some (c, True) \<Rightarrow>
                if v \<noteq> [] then with_opts [(c, tl v)] (argp_scan tab ws)
                else (case ws of [] \<Rightarrow> None | x # xs \<Rightarrow> with_opts [(c, x)] (argp_scan tab xs)))
      else if take 1 w = ''-'' \<and> length w > 1 then
        (case argp_cluster tab (tl w) of
           None \<Rightarrow> None
         | Some (os, None) \<Rightarrow> with_opts os (argp_scan tab ws)
         | Some (os, Some c) \<Rightarrow> (case ws of [] \<Rightarrow> None | x # xs \<Rightarrow> with_opts (os @ [(c, x)]) (argp_scan tab xs)))
      else map_option (\<lambda>(os, qs). (os, w # qs)) (argp_scan tab ws))"
  by pat_completeness auto
termination
  by (relation "measure (\<lambda>(tab, ws). length ws)") auto

text \<open>The calls of a parser: an option with its argument, or a word with the words behind it.\<close>

datatype argp_key = KOpt char string | KArg string "string list"

text \<open>The parser goes on or stops, refuses a value, does not know the key, or ends in a fault.\<close>

datatype 'a parsed = PGo bool 'a | PInval string | PUnknown | PCrash fault

fun parse_opts :: "(argp_key \<Rightarrow> 'a \<Rightarrow> 'a parsed) \<Rightarrow> (char \<times> string) list \<Rightarrow> 'a \<Rightarrow> 'a parsed" where
  "parse_opts p [] x = PGo True x"
| "parse_opts p ((c, s) # os) x = (case p (KOpt c s) x of PGo _ x \<Rightarrow> parse_opts p os x | r \<Rightarrow> r)"

fun parse_words :: "(argp_key \<Rightarrow> 'a \<Rightarrow> 'a parsed) \<Rightarrow> string list \<Rightarrow> 'a \<Rightarrow> 'a parsed" where
  "parse_words p [] x = PGo True x"
| "parse_words p (w # ws) x =
     (case p (KArg w ws) x of PGo go x \<Rightarrow> if go then parse_words p ws x else PGo False x | r \<Rightarrow> r)"

definition argp_parse :: "argp_option list \<Rightarrow> (argp_key \<Rightarrow> 'a \<Rightarrow> 'a parsed) \<Rightarrow> string list \<Rightarrow> 'a \<Rightarrow> 'a parsed" where
  "argp_parse tab p ws x =
     (case argp_scan tab ws of
        None \<Rightarrow> PUnknown
      | Some (os, ws) \<Rightarrow> (case parse_opts p os x of PGo _ x \<Rightarrow> parse_words p ws x | r \<Rightarrow> r))"

subsection \<open>Values\<close>

record tm =
  tm_year :: int
  tm_mon :: int
  tm_mday :: int
  tm_hour :: int
  tm_min :: int
  tm_sec :: int
  tm_isdst :: int

record cli_env =
  cl_now :: tm
  cl_mktime :: "tm \<Rightarrow> int"
  cl_users :: "string \<Rightarrow> int option"

definition getUID :: "cli_env \<Rightarrow> string \<Rightarrow> int option" where
  "getUID e name = cl_users e name"

text \<open>\<open>sscanf\<close> of numbers with a separator: at most \<open>n\<close> of them.\<close>

fun scan_numbers :: "char \<Rightarrow> nat \<Rightarrow> string \<Rightarrow> int list" where
  "scan_numbers c 0 t = []"
| "scan_numbers c (Suc n) t =
     (case scan_number t of
        None \<Rightarrow> []
      | Some (v, t) \<Rightarrow> int32 v # (case scan_char c t of None \<Rightarrow> [] | Some t \<Rightarrow> scan_numbers c n t))"

definition set_clock :: "string \<Rightarrow> cli_env \<Rightarrow> tm \<Rightarrow> int" where
  "set_clock t e d =
     (case scan_numbers (CHR '':'') 3 t of
        h # m # s \<Rightarrow> cl_mktime e (d\<lparr>tm_hour := h, tm_min := m, tm_sec := (case s of [] \<Rightarrow> 0 | v # _ \<Rightarrow> v)\<rparr>)
      | _ \<Rightarrow> -1)"

definition getDeferTime :: "cli_env \<Rightarrow> string \<Rightarrow> int" where
  "getDeferTime e t =
     (if take 1 t = ''@'' then atol (tl t)
      else
        (let d = (cl_now e)\<lparr>tm_isdst := -1\<rparr>
         in case dropWhile (\<lambda>c. c \<noteq> SPC) t of
              [] \<Rightarrow> set_clock t e d
            | _ # clock \<Rightarrow>
                (case scan_numbers (CHR ''-'') 3 t of
                   [year, month, day] \<Rightarrow> set_clock clock e (d\<lparr>tm_year := year - 1900, tm_mon := month - 1, tm_mday := day\<rparr>)
                 | _ \<Rightarrow> -1)))"

definition getSignal :: "string \<Rightarrow> int" where
  "getSignal t = (case t of c # _ \<Rightarrow> if is_digit c then atoi t else getSignalNumber t | [] \<Rightarrow> getSignalNumber t)"

definition addResource :: "string option list \<Rightarrow> string \<Rightarrow> string option list" where
  "addResource rs r = rs @ [Some r]"

definition addEnv :: "string option list \<Rightarrow> string \<Rightarrow> string option list" where
  "addEnv es v = es @ [Some v]"

text \<open>
  \<open>(*tags[*count]).key\<close> indexes the pointer to the array and not the array: only the first tag is
  stored in it, a second one through whatever lies behind the pointer.
\<close>

definition addTag :: "(string \<times> string option) list \<Rightarrow> string \<Rightarrow> fault + (string \<times> string option) list" where
  "addTag ts t =
     (let key = takeWhile (\<lambda>c. c \<noteq> CHR ''='') t;
          v = (case dropWhile (\<lambda>c. c \<noteq> CHR ''='') t of [] \<Rightarrow> None | _ # v \<Rightarrow> Some v)
      in if ts = [] then Inr [(key, v)] else Inl Overflow)"

definition getState :: "string \<Rightarrow> int" where
  "getState t =
     (case dropWhile (\<lambda>c. c \<noteq> CHR '':'') t of
        [] \<Rightarrow> -1
      | _ # b \<Rightarrow>
          (let a = takeWhile (\<lambda>c. c \<noteq> CHR '':'') t
           in if strcasecmp_eq a ''OPEN'' \<or> strcasecmp_eq a ''CLOSED'' then
                (let s = (if strcasecmp_eq a ''OPEN'' then 2 else 0)
                 in if strcasecmp_eq b ''STARTED'' then s + 1 else if strcasecmp_eq b ''STOPPED'' then s else -1)
              else -1))"

text \<open>The job ids among the words: what is not a number counts as 0.\<close>

definition jobid_words :: "string list \<Rightarrow> nat list" where
  "jobid_words ws = map (\<lambda>w. nat (uint32 (atoi w))) ws"

subsection \<open>The parsers of the commands\<close>

abbreviation (input) JERS_CLEAR_NICE :: int where "JERS_CLEAR_NICE \<equiv> 100"
abbreviation (input) NSIG :: int where "NSIG \<equiv> 65"

definition invalid_defer :: string where
  "invalid_defer = ''Invalid defer time specified. Expecting '' @ [CHR 0x27] @ ''[yyyy-mm-hh] HH:MM[:SS]'' @ [CHR 0x27] @
     '' or '' @ [CHR 0x27] @ ''@second_since_epoch'' @ [CHR 0x27]"

record add_job_args =
  aja_verbose :: bool
  aja_add :: jersJobAddArg

definition add_job_options :: "argp_option list" where
  "add_job_options =
     [(''verbose'', CHR ''v'', False), (''name'', CHR ''n'', True), (''stdout'', CHR ''o'', True), (''stderr'', CHR ''e'', True),
      (''queue'', CHR ''q'', True), (''hold'', CHR ''h'', False), (''nice'', CHR ''N'', True), (''priority'', CHR ''p'', True),
      (''defer'', CHR ''d'', True), (''tag'', CHR ''t'', True), (''resource'', CHR ''r'', True), (''user'', CHR ''u'', True),
      (''jobid'', CHR ''i'', True), (''env'', CHR ''E'', True), (''preamble'', CHR ''P'', False)]"

definition add_job_parse :: "cli_env \<Rightarrow> argp_key \<Rightarrow> add_job_args \<Rightarrow> add_job_args parsed" where
  "add_job_parse e key x =
     (let set = (\<lambda>f. PGo True (x\<lparr>aja_add := f (aja_add x)\<rparr>))
      in case key of
           KOpt c s \<Rightarrow>
             if c = CHR ''v'' then PGo True (x\<lparr>aja_verbose := True\<rparr>)
             else if c = CHR ''o'' then set (\<lambda>j. j\<lparr>ja_stdout := Some s\<rparr>)
             else if c = CHR ''e'' then set (\<lambda>j. j\<lparr>ja_stderr := Some s\<rparr>)
             else if c = CHR ''q'' then set (\<lambda>j. j\<lparr>ja_queue := Some s\<rparr>)
             else if c = CHR ''n'' then set (\<lambda>j. j\<lparr>ja_name := Some s\<rparr>)
             else if c = CHR ''P'' then set (\<lambda>j. j\<lparr>ja_flags := or (ja_flags j) 1\<rparr>)
             else if c = CHR ''N'' then set (\<lambda>j. j\<lparr>ja_nice := atoi s\<rparr>)
             else if c = CHR ''i'' then set (\<lambda>j. j\<lparr>ja_jobid := nat (uint32 (atoi s))\<rparr>)
             else if c = CHR ''h'' then set (\<lambda>j. j\<lparr>ja_hold := 1\<rparr>)
             else if c = CHR ''d'' then
               (if getDeferTime e s < 0 then PInval invalid_defer else set (\<lambda>j. j\<lparr>ja_defer_time := getDeferTime e s\<rparr>))
             else if c = CHR ''p'' then set (\<lambda>j. j\<lparr>ja_priority := atoi s\<rparr>)
             else if c = CHR ''u'' then
               (case getUID e s of
                  None \<Rightarrow> PInval (''Unable to determine uid of user '' @ s)
                | Some u \<Rightarrow> set (\<lambda>j. j\<lparr>ja_uid := u\<rparr>))
             else if c = CHR ''r'' then set (\<lambda>j. j\<lparr>ja_resources := addResource (ja_resources j) s\<rparr>)
             else if c = CHR ''t'' then
               (case addTag (ja_tags (aja_add x)) s of Inl f \<Rightarrow> PCrash f | Inr ts \<Rightarrow> set (\<lambda>j. j\<lparr>ja_tags := ts\<rparr>))
             else if c = CHR ''E'' then
               set (\<lambda>j. j\<lparr>ja_envs := addEnv (ja_envs j) s, ja_env_unset := False, ja_envs_null := False\<rparr>)
             else PUnknown
         | KArg w ws \<Rightarrow> PGo False (x\<lparr>aja_add := (aja_add x)\<lparr>ja_argv := map Some (w # ws)\<rparr>\<rparr>))"

record modify_job_args =
  mja_verbose :: bool
  mja_jobids :: "nat list option"
  mja_mod :: jersJobMod

definition modify_job_options :: "argp_option list" where
  "modify_job_options =
     [(''verbose'', CHR ''v'', False), (''name'', CHR ''n'', True), (''queue'', CHR ''q'', True), (''hold'', CHR ''h'', False),
      (''priority'', CHR ''p'', True), (''nice'', CHR ''N'', True), (''defer'', CHR ''d'', True), (''tag'', CHR ''t'', True),
      (''resource'', CHR ''r'', True), (''restart'', CHR ''R'', False)]"

definition modify_job_parse :: "cli_env \<Rightarrow> argp_key \<Rightarrow> modify_job_args \<Rightarrow> modify_job_args parsed" where
  "modify_job_parse e key x =
     (let set = (\<lambda>f. PGo True (x\<lparr>mja_mod := f (mja_mod x)\<rparr>))
      in case key of
           KOpt c s \<Rightarrow>
             if c = CHR ''v'' then PGo True (x\<lparr>mja_verbose := True\<rparr>)
             else if c = CHR ''q'' then set (\<lambda>j. j\<lparr>jm_queue := Some s\<rparr>)
             else if c = CHR ''n'' then set (\<lambda>j. j\<lparr>jm_name := Some s\<rparr>)
             else if c = CHR ''N'' then set (\<lambda>j. j\<lparr>jm_nice := if strcasecmp_eq s ''clear'' then JERS_CLEAR_NICE else atoi s\<rparr>)
             else if c = CHR ''h'' then set (\<lambda>j. j\<lparr>jm_hold := 1\<rparr>)
             else if c = CHR ''R'' then set (\<lambda>j. j\<lparr>jm_restart := 1\<rparr>)
             else if c = CHR ''d'' then
               (if getDeferTime e s < 0 then PInval invalid_defer else set (\<lambda>j. j\<lparr>jm_defer_time := getDeferTime e s\<rparr>))
             else if c = CHR ''p'' then set (\<lambda>j. j\<lparr>jm_priority := atoi s\<rparr>)
             else if c = CHR ''r'' then
               set (\<lambda>j. j\<lparr>jm_resources := Some (addResource (case jm_resources j of Some rs \<Rightarrow> rs | None \<Rightarrow> []) s)\<rparr>)
             else if c = CHR ''t'' then
               (case addTag (case jm_tags (mja_mod x) of Some ts \<Rightarrow> ts | None \<Rightarrow> []) s of
                  Inl f \<Rightarrow> PCrash f
                | Inr ts \<Rightarrow> set (\<lambda>j. j\<lparr>jm_tags := Some ts\<rparr>))
             else PUnknown
         | KArg w ws \<Rightarrow> PGo False (x\<lparr>mja_jobids := Some (jobid_words (w # ws))\<rparr>))"

record modify_queue_args =
  mqa_verbose :: bool
  mqa_mod :: jersQueueAdd
  mqa_queues :: "string list option"

definition modify_queue_options :: "argp_option list" where
  "modify_queue_options =
     [(''verbose'', CHR ''v'', False), (''description'', CHR ''d'', True), (''host'', CHR ''h'', True), (''limit'', CHR ''l'', True),
      (''priority'', CHR ''p'', True), (''state'', CHR ''s'', True), (''default'', CHR ''D'', False), (''nice'', CHR ''n'', True)]"

definition modify_queue_parse :: "argp_key \<Rightarrow> modify_queue_args \<Rightarrow> modify_queue_args parsed" where
  "modify_queue_parse key x =
     (let set = (\<lambda>f. PGo True (x\<lparr>mqa_mod := f (mqa_mod x)\<rparr>))
      in case key of
           KOpt c s \<Rightarrow>
             if c = CHR ''v'' then PGo True (x\<lparr>mqa_verbose := True\<rparr>)
             else if c = CHR ''d'' then set (\<lambda>q. q\<lparr>qa_desc := Some s\<rparr>)
             else if c = CHR ''D'' then set (\<lambda>q. q\<lparr>qa_default_queue := 1\<rparr>)
             else if c = CHR ''h'' then set (\<lambda>q. q\<lparr>qa_node := Some s\<rparr>)
             else if c = CHR ''l'' then set (\<lambda>q. q\<lparr>qa_job_limit := atoi s\<rparr>)
             else if c = CHR ''n'' then set (\<lambda>q. q\<lparr>qa_nice := if strcasecmp_eq s ''clear'' then JERS_CLEAR_NICE else atoi s\<rparr>)
             else if c = CHR ''p'' then set (\<lambda>q. q\<lparr>qa_priority := atoi s\<rparr>)
             else if c = CHR ''s'' then
               (if getState s < 0 then PInval ''Invalid state specified'' else set (\<lambda>q. q\<lparr>qa_state := getState s\<rparr>))
             else PUnknown
         | KArg w ws \<Rightarrow> PGo False (x\<lparr>mqa_queues := Some (w # ws)\<rparr>))"

record add_queue_args =
  aqa_verbose :: bool
  aqa_add :: jersQueueAdd

text \<open>The parser knows the option for a default queue, the table does not offer it.\<close>

definition add_queue_options :: "argp_option list" where
  "add_queue_options =
     [(''verbose'', CHR ''v'', False), (''description'', CHR ''d'', True), (''host'', CHR ''h'', True), (''limit'', CHR ''l'', True),
      (''priority'', CHR ''p'', True), (''nice'', CHR ''n'', True)]"

definition add_queue_parse :: "argp_key \<Rightarrow> add_queue_args \<Rightarrow> add_queue_args parsed" where
  "add_queue_parse key x =
     (let set = (\<lambda>f. PGo True (x\<lparr>aqa_add := f (aqa_add x)\<rparr>))
      in case key of
           KOpt c s \<Rightarrow>
             if c = CHR ''v'' then PGo True (x\<lparr>aqa_verbose := True\<rparr>)
             else if c = CHR ''d'' then set (\<lambda>q. q\<lparr>qa_desc := Some s\<rparr>)
             else if c = CHR ''D'' then set (\<lambda>q. q\<lparr>qa_default_queue := 1\<rparr>)
             else if c = CHR ''h'' then set (\<lambda>q. q\<lparr>qa_node := Some s\<rparr>)
             else if c = CHR ''l'' then set (\<lambda>q. q\<lparr>qa_job_limit := atoi s\<rparr>)
             else if c = CHR ''n'' then set (\<lambda>q. q\<lparr>qa_nice := atoi s\<rparr>)
             else if c = CHR ''p'' then set (\<lambda>q. q\<lparr>qa_priority := atoi s\<rparr>)
             else PUnknown
         | KArg w ws \<Rightarrow>
             if qa_name (aqa_add x) \<noteq> None then PInval ''Only one queue name allowed''
             else set (\<lambda>q. q\<lparr>qa_name := Some w\<rparr>))"

text \<open>The commands on a list of jobs.\<close>

record jobids_args =
  jia_verbose :: bool
  jia_jobids :: "nat list option"

record show_job_args = jobids_args +
  sja_all :: bool

record signal_job_args = jobids_args +
  sga_signal :: int

record watch_job_args = jobids_args +
  wja_timeout :: int

record start_job_args = jobids_args +
  rja_restart :: bool

definition verbose_only :: "argp_option list" where
  "verbose_only = [(''verbose'', CHR ''v'', False)]"

definition show_options :: "argp_option list" where
  "show_options = [(''verbose'', CHR ''v'', False), (''all'', CHR ''a'', False)]"

definition show_job_parse :: "argp_key \<Rightarrow> show_job_args \<Rightarrow> show_job_args parsed" where
  "show_job_parse key x =
     (case key of
        KOpt c s \<Rightarrow> if c = CHR ''v'' then PGo True (x\<lparr>jia_verbose := True\<rparr>)
                    else if c = CHR ''a'' then PGo True (x\<lparr>sja_all := True\<rparr>) else PUnknown
      | KArg w ws \<Rightarrow> PGo False (x\<lparr>jia_jobids := Some (jobid_words (w # ws))\<rparr>))"

definition delete_job_parse :: "argp_key \<Rightarrow> jobids_args \<Rightarrow> jobids_args parsed" where
  "delete_job_parse key x =
     (case key of
        KOpt c s \<Rightarrow> if c = CHR ''v'' then PGo True (x\<lparr>jia_verbose := True\<rparr>) else PUnknown
      | KArg w ws \<Rightarrow> PGo False (x\<lparr>jia_jobids := Some (jobid_words (w # ws))\<rparr>))"

definition signal_job_options :: "argp_option list" where
  "signal_job_options = [(''verbose'', CHR ''v'', False), (''signal'', CHR ''s'', True)]"

definition signal_job_parse :: "argp_key \<Rightarrow> signal_job_args \<Rightarrow> signal_job_args parsed" where
  "signal_job_parse key x =
     (case key of
        KOpt c s \<Rightarrow> if c = CHR ''v'' then PGo True (x\<lparr>jia_verbose := True\<rparr>)
                    else if c = CHR ''s'' then
                      (if getSignal s < 0 \<or> getSignal s \<ge> NSIG then PInval (''Invalid signal specified '' @ [CHR 0x27] @ s @ [CHR 0x27])
                       else PGo True (x\<lparr>sga_signal := getSignal s\<rparr>))
                    else PUnknown
      | KArg w ws \<Rightarrow> PGo False (x\<lparr>jia_jobids := Some (jobid_words (w # ws))\<rparr>))"

definition watch_job_options :: "argp_option list" where
  "watch_job_options = [(''verbose'', CHR ''v'', False), (''timeout'', CHR ''t'', True)]"

definition watch_job_parse :: "argp_key \<Rightarrow> watch_job_args \<Rightarrow> watch_job_args parsed" where
  "watch_job_parse key x =
     (case key of
        KOpt c s \<Rightarrow> if c = CHR ''v'' then PGo True (x\<lparr>jia_verbose := True\<rparr>)
                    else if c = CHR ''t'' then PGo True (x\<lparr>wja_timeout := atoi s\<rparr>) else PUnknown
      | KArg w ws \<Rightarrow> PGo False (x\<lparr>jia_jobids := Some (jobid_words (w # ws))\<rparr>))"

definition start_job_options :: "argp_option list" where
  "start_job_options = [(''verbose'', CHR ''v'', False), (''restart'', CHR ''r'', False)]"

definition start_job_parse :: "argp_key \<Rightarrow> start_job_args \<Rightarrow> start_job_args parsed" where
  "start_job_parse key x =
     (case key of
        KOpt c s \<Rightarrow> if c = CHR ''v'' then PGo True (x\<lparr>jia_verbose := True\<rparr>)
                    else if c = CHR ''r'' then PGo True (x\<lparr>rja_restart := True\<rparr>) else PUnknown
      | KArg w ws \<Rightarrow> PGo False (x\<lparr>jia_jobids := Some (jobid_words (w # ws))\<rparr>))"

text \<open>The commands on a list of names: queues and resources.\<close>

record names_args =
  na_verbose :: bool
  na_names :: "string list option"

record show_queue_args = names_args +
  sqa_all :: bool

definition show_queue_parse :: "argp_key \<Rightarrow> show_queue_args \<Rightarrow> show_queue_args parsed" where
  "show_queue_parse key x =
     (case key of
        KOpt c s \<Rightarrow> if c = CHR ''v'' then PGo True (x\<lparr>na_verbose := True\<rparr>)
                    else if c = CHR ''a'' then PGo True (x\<lparr>sqa_all := True\<rparr>) else PUnknown
      | KArg w ws \<Rightarrow> PGo False (x\<lparr>na_names := Some (w # ws)\<rparr>))"

definition names_parse :: "argp_key \<Rightarrow> names_args \<Rightarrow> names_args parsed" where
  "names_parse key x =
     (case key of
        KOpt c s \<Rightarrow> if c = CHR ''v'' then PGo True (x\<lparr>na_verbose := True\<rparr>) else PUnknown
      | KArg w ws \<Rightarrow> PGo False (x\<lparr>na_names := Some (w # ws)\<rparr>))"

text \<open>Five parsers are copies of one.\<close>

definition delete_queue_parse :: "argp_key \<Rightarrow> names_args \<Rightarrow> names_args parsed" where
  "delete_queue_parse = names_parse"

definition add_resource_parse :: "argp_key \<Rightarrow> names_args \<Rightarrow> names_args parsed" where
  "add_resource_parse = names_parse"

definition modify_resource_parse :: "argp_key \<Rightarrow> names_args \<Rightarrow> names_args parsed" where
  "modify_resource_parse = names_parse"

definition delete_resource_parse :: "argp_key \<Rightarrow> names_args \<Rightarrow> names_args parsed" where
  "delete_resource_parse = names_parse"

definition show_resource_parse :: "argp_key \<Rightarrow> names_args \<Rightarrow> names_args parsed" where
  "show_resource_parse = names_parse"

record show_agent_args =
  saa_verbose :: bool
  saa_hostname :: "string option"

definition show_agent_parse :: "argp_key \<Rightarrow> show_agent_args \<Rightarrow> show_agent_args parsed" where
  "show_agent_parse key x =
     (case key of
        KOpt c s \<Rightarrow> if c = CHR ''v'' then PGo True (x\<lparr>saa_verbose := True\<rparr>) else PUnknown
      | KArg w ws \<Rightarrow>
          if saa_hostname x \<noteq> None then PInval ''Only one hostname can be provided.''
          else PGo True (x\<lparr>saa_hostname := Some w\<rparr>))"

definition clearcache_parse :: "argp_key \<Rightarrow> bool \<Rightarrow> bool parsed" where
  "clearcache_parse key verbose =
     (case key of KOpt c s \<Rightarrow> if c = CHR ''v'' then PGo True True else PUnknown | KArg w ws \<Rightarrow> PGo True verbose)"

subsection \<open>The commands\<close>

datatype cli_out = Out string | Err string | ShowJob jersJob bool | ShowQueue jersQueue bool | ShowAgent jersAgent bool |
  ShowResource jersResource bool

type_synonym ran = "(int \<times> cli_out list) called"

definition bindC :: "'a called \<Rightarrow> ('a \<Rightarrow> api \<Rightarrow> 'b called) \<Rightarrow> 'b called" where
  "bindC r k = (case r of Returned x a \<Rightarrow> k x a | Waiting a \<Rightarrow> Waiting a | Crashed f \<Rightarrow> Crashed f)"

text \<open>\<open>parse_args\<close> and what every command does with its result; after a usage error the process ends with status 64.\<close>

definition parse_args :: "argp_option list \<Rightarrow> (argp_key \<Rightarrow> 'x \<Rightarrow> 'x parsed) \<Rightarrow> string list \<Rightarrow> 'x \<Rightarrow> ('x \<Rightarrow> api \<Rightarrow> ran) \<Rightarrow> api \<Rightarrow> ran" where
  "parse_args tab p ws x k a =
     (case argp_parse tab p ws x of
        PGo _ x \<Rightarrow> k x a
      | PInval m \<Rightarrow> Returned (1, [Err m, Err ''Failed to parse arguments'']) a
      | PUnknown \<Rightarrow> Returned (64, [Err ''usage'']) a
      | PCrash f \<Rightarrow> Crashed f)"

definition quoted :: "string \<Rightarrow> string" where
  "quoted t = [CHR 0x27] @ t @ [CHR 0x27]"

definition num :: "nat \<Rightarrow> string" where
  "num n = int64tostr (int32 (int n))"

definition err_str :: "api \<Rightarrow> string" where
  "err_str a = getErrString a (ap_errno a)"

text \<open>
  The loop of the commands that do something to each of their arguments: a failure is reported
  and the loop goes on.
\<close>

fun each :: "('x \<Rightarrow> api \<Rightarrow> int called) \<Rightarrow> ('x \<Rightarrow> cli_out list) \<Rightarrow> ('x \<Rightarrow> string) \<Rightarrow> 'x list \<Rightarrow> int \<times> cli_out list \<Rightarrow> api \<Rightarrow> ran" where
  "each call done bad [] r a = Returned r a"
| "each call done bad (x # xs) (rc, out) a =
     bindC (call x a) (\<lambda>res a.
       if res \<noteq> 0 then each call done bad xs (1, out @ [Err (bad x @ '': '' @ err_str a)]) a
       else each call done bad xs (rc, out @ done x) a)"

text \<open>The loop over job ids ends at the first 0; without ids the pointer is NULL.\<close>

definition each_job :: "(nat \<Rightarrow> api \<Rightarrow> int called) \<Rightarrow> (nat \<Rightarrow> cli_out list) \<Rightarrow> (nat \<Rightarrow> string) \<Rightarrow> nat list option \<Rightarrow> api \<Rightarrow> ran" where
  "each_job call done bad ids a =
     (case ids of None \<Rightarrow> Crashed NullPointer | Some ids \<Rightarrow> each call done bad (takeWhile (\<lambda>i. i \<noteq> 0) ids) (0, []) a)"

definition add_job :: "cli_env \<Rightarrow> allocator \<Rightarrow> 8 word list \<Rightarrow> string list \<Rightarrow> api \<Rightarrow> ran" where
  "add_job e alloc fresh ws =
     parse_args add_job_options (add_job_parse e) ws \<lparr>aja_verbose = False, aja_add = jersInitJobAdd\<rparr> (\<lambda>x a.
       if ja_argv (aja_add x) = [] then Returned (1, [Err ''add job: No commands provided'']) a
       else bindC (jersAddJob alloc fresh (Some (aja_add x)) a) (\<lambda>jobid a.
              if jobid = 0 then Returned (1, [Err (''Failed to submit job: '' @ err_str a)]) a
              else Returned (0, [Out (''Job '' @ num jobid @ '' added.'')]) a))"

definition add_queue :: "allocator \<Rightarrow> 8 word list \<Rightarrow> string list \<Rightarrow> api \<Rightarrow> ran" where
  "add_queue alloc fresh ws =
     parse_args add_queue_options add_queue_parse ws \<lparr>aqa_verbose = False, aqa_add = jersInitQueueAdd\<rparr> (\<lambda>x a.
       case qa_name (aqa_add x) of
         None \<Rightarrow> Returned (1, [Err ''No queue name provided'']) a
       | Some name \<Rightarrow>
           (let q = aqa_add x; q = (if qa_node q = None then q\<lparr>qa_node := Some ''localhost''\<rparr> else q)
            in bindC (jersAddQueue alloc fresh q a) (\<lambda>rc a.
                 if rc \<noteq> 0 then Returned (1, [Err (''Failed to add queue: '' @ err_str a)]) a
                 else Returned (0, [Out (''Queue '' @ name @ '' added.'')]) a)))"

definition modify_job :: "cli_env \<Rightarrow> allocator \<Rightarrow> 8 word list \<Rightarrow> string list \<Rightarrow> api \<Rightarrow> ran" where
  "modify_job e alloc fresh ws =
     parse_args modify_job_options (modify_job_parse e) ws \<lparr>mja_verbose = False, mja_jobids = None, mja_mod = jersInitJobMod\<rparr> (\<lambda>x.
       each_job (\<lambda>i. jersModJob alloc fresh ((mja_mod x)\<lparr>jm_jobid := i\<rparr>)) (\<lambda>i. [Out (''Job '' @ num i @ '' modified.'')])
         (\<lambda>i. ''Failed to modify job '' @ num i) (mja_jobids x))"

definition modify_queue :: "allocator \<Rightarrow> 8 word list \<Rightarrow> string list \<Rightarrow> api \<Rightarrow> ran" where
  "modify_queue alloc fresh ws =
     parse_args modify_queue_options modify_queue_parse ws \<lparr>mqa_verbose = False, mqa_mod = jersInitQueueMod, mqa_queues = None\<rparr> (\<lambda>x a.
       case mqa_queues x of
         None \<Rightarrow> Returned (1, [Err ''mod queue: No queue name/s provided'']) a
       | Some qs \<Rightarrow>
           each (\<lambda>n. jersModQueue alloc fresh ((mqa_mod x)\<lparr>qa_name := Some n\<rparr>)) (\<lambda>n. [Out (''Queue '' @ n @ '' modified.'')])
             (\<lambda>n. ''Failed to mod queue '' @ quoted n) qs (0, []) a)"

definition delete_job :: "allocator \<Rightarrow> 8 word list \<Rightarrow> string list \<Rightarrow> api \<Rightarrow> ran" where
  "delete_job alloc fresh ws =
     parse_args verbose_only delete_job_parse ws \<lparr>jia_verbose = False, jia_jobids = None\<rparr> (\<lambda>x.
       each_job (jersDelJob alloc fresh) (\<lambda>i. [Out (''Job '' @ num i @ '' deleted.'')]) (\<lambda>i. ''Failed to delete job '' @ num i)
         (jia_jobids x))"

definition delete_queue :: "allocator \<Rightarrow> 8 word list \<Rightarrow> string list \<Rightarrow> api \<Rightarrow> ran" where
  "delete_queue alloc fresh ws =
     parse_args verbose_only delete_queue_parse ws \<lparr>na_verbose = False, na_names = None\<rparr> (\<lambda>x a.
       case na_names x of
         None \<Rightarrow> Returned (1, [Err ''delete queue: No queue name/s provided'']) a
       | Some qs \<Rightarrow>
           each (\<lambda>n. jersDelQueue alloc fresh (Some n)) (\<lambda>n. [Out (''Queue '' @ n @ '' deleted.'')])
             (\<lambda>n. ''Failed to delete queue '' @ quoted n) qs (0, []) a)"

definition delete_resource :: "allocator \<Rightarrow> 8 word list \<Rightarrow> string list \<Rightarrow> api \<Rightarrow> ran" where
  "delete_resource alloc fresh ws =
     parse_args verbose_only delete_resource_parse ws \<lparr>na_verbose = False, na_names = None\<rparr> (\<lambda>x a.
       case na_names x of
         None \<Rightarrow> Crashed NullPointer
       | Some rs \<Rightarrow>
           each (\<lambda>n. jersDelResource alloc fresh (Some n)) (\<lambda>n. [Out (''Resource '' @ quoted n @ '' deleted'')])
             (\<lambda>n. ''Failed to delete resource '' @ quoted n) rs (0, []) a)"

definition sig_text :: "int \<Rightarrow> string" where
  "sig_text n = (case getSignalName n of Some t \<Rightarrow> t | None \<Rightarrow> ''(null)'')"

definition signal_job :: "allocator \<Rightarrow> 8 word list \<Rightarrow> string list \<Rightarrow> api \<Rightarrow> ran" where
  "signal_job alloc fresh ws =
     parse_args signal_job_options signal_job_parse ws \<lparr>jia_verbose = False, jia_jobids = None, sga_signal = SIGTERMc\<rparr> (\<lambda>x.
       each_job (\<lambda>i. jersSignalJob alloc fresh i (sga_signal x)) 
         (\<lambda>i. [Out (''Job '' @ num i @ '' sent '' @ sig_text (sga_signal x) @ ''.'')])
         (\<lambda>i. ''Failed to send job '' @ num i @ '' '' @ sig_text (sga_signal x)) (jia_jobids x))"

definition start_job :: "allocator \<Rightarrow> 8 word list \<Rightarrow> string list \<Rightarrow> api \<Rightarrow> ran" where
  "start_job alloc fresh ws =
     parse_args start_job_options start_job_parse ws \<lparr>jia_verbose = False, jia_jobids = None, rja_restart = False\<rparr> (\<lambda>x.
       each_job (\<lambda>i. jersModJob alloc fresh (jersInitJobMod\<lparr>jm_jobid := i, jm_hold := 0, jm_defer_time := 0,
                       jm_restart := if rja_restart x then 1 else jm_restart jersInitJobMod\<rparr>))
         (\<lambda>i. [Out (''Job '' @ num i @ '' modified.'')]) (\<lambda>i. ''Failed to start Job '' @ num i) (jia_jobids x))"

definition clearcache :: "allocator \<Rightarrow> 8 word list \<Rightarrow> string list \<Rightarrow> api \<Rightarrow> ran" where
  "clearcache alloc fresh ws =
     parse_args verbose_only clearcache_parse ws False (\<lambda>verbose a.
       bindC (jersClearCache alloc fresh a) (\<lambda>rc a.
         if rc \<noteq> 0 then Returned (1, [Err (''Failed to send clearcache command: '' @ err_str a)]) a
         else Returned (0, []) a))"

text \<open>A resource with its count, 1 when none is given. \<open>modify_resource\<close> reports success after a failure as well.\<close>

definition resource_count :: "string \<Rightarrow> string \<times> int" where
  "resource_count w =
     (case dropWhile (\<lambda>c. c \<noteq> CHR '':'') w of
        [] \<Rightarrow> (w, 1)
      | _ # n \<Rightarrow> (takeWhile (\<lambda>c. c \<noteq> CHR '':'') w, atoi n))"

fun each_resource :: "(string \<Rightarrow> int \<Rightarrow> api \<Rightarrow> int called) \<Rightarrow> (string \<Rightarrow> cli_out list) \<Rightarrow> string \<Rightarrow> string list \<Rightarrow>
  int \<times> cli_out list \<Rightarrow> api \<Rightarrow> ran" where
  "each_resource call done verb [] r a = Returned r a"
| "each_resource call done verb (w # ws) (rc, out) a =
     (let (name, n) = resource_count w
      in if n = 0 then each_resource call done verb ws (1, out @ [Err (''Invalid count specified on resource '' @ name)]) a
         else bindC (call name n a) (\<lambda>res a.
                if res \<noteq> 0 then
                  each_resource call done verb ws
                    (1, out @ [Err (''Failed to '' @ verb @ '' resource '' @ quoted name @ '': '' @ err_str a)] @ done name) a
                else each_resource call done verb ws (rc, out @ done name) a))"

definition add_resource :: "allocator \<Rightarrow> 8 word list \<Rightarrow> string list \<Rightarrow> api \<Rightarrow> ran" where
  "add_resource alloc fresh ws =
     parse_args verbose_only add_resource_parse ws \<lparr>na_verbose = False, na_names = None\<rparr> (\<lambda>x a.
       case na_names x of
         None \<Rightarrow> Returned (1, [Err ''No resources specified.'']) a
       | Some rs \<Rightarrow> each_resource (\<lambda>n. jersAddResource alloc fresh (Some n)) (\<lambda>_. []) ''add'' rs (0, []) a)"

definition modify_resource :: "allocator \<Rightarrow> 8 word list \<Rightarrow> string list \<Rightarrow> api \<Rightarrow> ran" where
  "modify_resource alloc fresh ws =
     parse_args verbose_only modify_resource_parse ws \<lparr>na_verbose = False, na_names = None\<rparr> (\<lambda>x a.
       case na_names x of
         None \<Rightarrow> Crashed NullPointer
       | Some rs \<Rightarrow>
           each_resource (\<lambda>n. jersModResource alloc fresh (Some n)) (\<lambda>n. [Out (''Resource '' @ quoted n @ '' modified.'')]) ''modify'' rs (0, []) a)"

subsection \<open>Showing objects\<close>

text \<open>The order of the listing; the differences are stored in an \<open>int\<close>.\<close>

definition jobSort :: "jersJob \<Rightarrow> jersJob \<Rightarrow> int" where
  "jobSort a b =
     (let st = int32 (jj_state a - jj_state b); defer = int32 (jj_defer_time a - jj_defer_time b);
          prio = int32 (jj_priority a - jj_priority b)
      in if st \<noteq> 0 then st
         else if jj_state a = 4 \<and> defer \<noteq> 0 then defer
         else if prio \<noteq> 0 then prio
         else int32 (int (jj_jobid a) - int (jj_jobid b)))"

definition failed_job :: "nat \<Rightarrow> api \<Rightarrow> cli_out" where
  "failed_job i a = Err (''Failed to get job info for job '' @ num i @ '': '' @ err_str a)"

fun show_jobs :: "allocator \<Rightarrow> 8 word list \<Rightarrow> nat list \<Rightarrow> cli_out list \<Rightarrow> api \<Rightarrow> ran" where
  "show_jobs alloc fresh [] out a = Returned (0, out) a"
| "show_jobs alloc fresh (i # is) out a =
     bindC (jersGetJob alloc fresh i None a) (\<lambda>(rc, js) a.
       if rc \<noteq> 0 then Returned (1, out @ [failed_job i a]) a
       else show_jobs alloc fresh is (out @ map (\<lambda>j. ShowJob j True) (case js of Some js \<Rightarrow> js | None \<Rightarrow> [])) a)"

definition show_job :: "allocator \<Rightarrow> 8 word list \<Rightarrow> string list \<Rightarrow> api \<Rightarrow> ran" where
  "show_job alloc fresh ws =
     parse_args show_options show_job_parse ws \<lparr>jia_verbose = False, jia_jobids = None, sja_all = False\<rparr> (\<lambda>x a.
       case jia_jobids x of
         Some ids \<Rightarrow> show_jobs alloc fresh (takeWhile (\<lambda>i. i \<noteq> 0) ids) [] a
       | None \<Rightarrow>
           bindC (jersGetJob alloc fresh 0 None a) (\<lambda>(rc, js) a.
             if rc \<noteq> 0 then Returned (1, [failed_job 0 a]) a
             else Returned (0, map (\<lambda>j. ShowJob j (sja_all x)) (qsort jobSort (case js of Some js \<Rightarrow> js | None \<Rightarrow> []))) a))"

text \<open>
  \<open>watch_job\<close> ends only when the library reports an error, and then with the status 0 if it was
  the wait that failed. A reply without a job is read as if it had one.
\<close>

partial_function (option) watch_loop :: "allocator \<Rightarrow> 8 word list \<Rightarrow> nat \<Rightarrow> int \<Rightarrow> cli_out list \<Rightarrow> api \<Rightarrow> ran option" where
  "watch_loop alloc fresh i timeout out a =
     (case jersGetJob alloc fresh i None a of
        Crashed f \<Rightarrow> Some (Crashed f)
      | Waiting a \<Rightarrow> Some (Waiting a)
      | Returned r a \<Rightarrow>
          if fst r \<noteq> 0 then Some (Returned (1, out @ [failed_job i a]) a)
          else if snd r = None \<or> snd r = Some [] then Some (Crashed Overflow)
          else (case jersWaitJob alloc fresh i (jj_revision (hd (the (snd r)))) timeout a of
                  Crashed f \<Rightarrow> Some (Crashed f)
                | Waiting a \<Rightarrow> Some (Waiting a)
                | Returned rc a \<Rightarrow>
                    if rc \<noteq> 0 then
                      Some (Returned (0, out @ [ShowJob (hd (the (snd r))) True, Err (''Failed to wait for job: '' @ err_str a)]) a)
                    else watch_loop alloc fresh i timeout (out @ [ShowJob (hd (the (snd r))) True]) a))"

text \<open>Without a result of the library the structure that is shown was never written.\<close>

definition show_all :: "('x \<Rightarrow> cli_out) \<Rightarrow> 'x list option \<Rightarrow> fault + cli_out list" where
  "show_all f xs = (case xs of None \<Rightarrow> Inl StalePointer | Some xs \<Rightarrow> Inr (map f xs))"

fun show_queues :: "allocator \<Rightarrow> 8 word list \<Rightarrow> bool \<Rightarrow> string list \<Rightarrow> cli_out list \<Rightarrow> api \<Rightarrow> ran" where
  "show_queues alloc fresh full [] out a = Returned (0, out) a"
| "show_queues alloc fresh full (n # ns) out a =
     bindC (jersGetQueue alloc fresh (Some n) a) (\<lambda>(rc, qs) a.
       if rc \<noteq> 0 then Returned (1, out @ [Err (''Failed to get information on queue '' @ quoted n @ '': '' @ err_str a)]) a
       else (case show_all (\<lambda>q. ShowQueue q full) qs of
               Inl f \<Rightarrow> Crashed f
             | Inr o1 \<Rightarrow> show_queues alloc fresh full ns (out @ o1) a))"

definition show_queue :: "allocator \<Rightarrow> 8 word list \<Rightarrow> string list \<Rightarrow> api \<Rightarrow> ran" where
  "show_queue alloc fresh ws =
     parse_args show_options show_queue_parse ws \<lparr>na_verbose = False, na_names = None, sqa_all = False\<rparr> (\<lambda>x.
       show_queues alloc fresh (sqa_all x) (case na_names x of Some ns \<Rightarrow> ns | None \<Rightarrow> [''*'']) [])"

definition show_agent :: "allocator \<Rightarrow> 8 word list \<Rightarrow> string list \<Rightarrow> api \<Rightarrow> ran" where
  "show_agent alloc fresh ws =
     parse_args verbose_only show_agent_parse ws \<lparr>saa_verbose = False, saa_hostname = None\<rparr> (\<lambda>x a.
       bindC (jersGetAgents alloc fresh (saa_hostname x) a) (\<lambda>(rc, ags) a.
         if rc \<noteq> 0 then Returned (1, [Err (''Failed to get information on agents: '' @ err_str a)]) a
         else (case show_all (\<lambda>g. ShowAgent g False) ags of Inl f \<Rightarrow> Crashed f | Inr o1 \<Rightarrow> Returned (0, o1) a)))"

text \<open>
  Without names the array is NULL: naming the resource in a message dereferences it. After a
  failure the loop goes on to show what it has not got.
\<close>

fun show_resources :: "allocator \<Rightarrow> 8 word list \<Rightarrow> string list \<Rightarrow> int \<times> cli_out list \<Rightarrow> api \<Rightarrow> ran" where
  "show_resources alloc fresh [] r a = Returned r a"
| "show_resources alloc fresh (n # ns) (rc, out) a =
     bindC (jersGetResource alloc fresh (Some n) a) (\<lambda>(res, rs) a.
       case show_all (\<lambda>r. ShowResource r False) rs of
         Inl f \<Rightarrow> Crashed f
       | Inr o1 \<Rightarrow>
           show_resources alloc fresh ns
             (if res \<noteq> 0 then (1, out @ [Err (''Failed to get details of resource '' @ quoted n @ '': '' @ err_str a)] @ o1)
              else (rc, out @ o1)) a)"

definition show_resource :: "allocator \<Rightarrow> 8 word list \<Rightarrow> string list \<Rightarrow> api \<Rightarrow> ran" where
  "show_resource alloc fresh ws =
     parse_args verbose_only show_resource_parse ws \<lparr>na_verbose = False, na_names = None\<rparr> (\<lambda>x a.
       case na_names x of
         Some ns \<Rightarrow> show_resources alloc fresh ns (0, []) a
       | None \<Rightarrow>
           if na_verbose x then Crashed NullPointer
           else bindC (jersGetResource alloc fresh (Some ''*'') a) (\<lambda>(res, rs) a.
                  if res \<noteq> 0 then Crashed NullPointer
                  else (case show_all (\<lambda>r. ShowResource r False) rs of Inl f \<Rightarrow> Crashed f | Inr o1 \<Rightarrow> Returned (0, o1) a)))"

subsection \<open>Selecting a command\<close>

text \<open>\<open>watch_job\<close> with its job; the value is \<open>None\<close> when the job changes forever.\<close>

definition watch_job :: "allocator \<Rightarrow> 8 word list \<Rightarrow> string list \<Rightarrow> api \<Rightarrow> ran option" where
  "watch_job alloc fresh ws a =
     (case argp_parse watch_job_options watch_job_parse ws \<lparr>jia_verbose = False, jia_jobids = None, wja_timeout = -1\<rparr> of
        PGo _ x \<Rightarrow>
          (case jia_jobids x of
             None \<Rightarrow> Some (Returned (1, [Err ''No jobid specified'']) a)
           | Some ids \<Rightarrow> watch_loop alloc fresh (hd ids) (wja_timeout x) [] a)
      | PInval m \<Rightarrow> Some (Returned (1, [Err m, Err ''Failed to parse arguments'']) a)
      | PUnknown \<Rightarrow> Some (Returned (64, [Err ''usage'']) a)
      | PCrash f \<Rightarrow> Some (Crashed f))"

type_synonym action = "string list \<Rightarrow> api \<Rightarrow> ran option"

definition total :: "(string list \<Rightarrow> api \<Rightarrow> ran) \<Rightarrow> action" where
  "total f ws a = Some (f ws a)"

definition job_cmds :: "cli_env \<Rightarrow> allocator \<Rightarrow> 8 word list \<Rightarrow> (string \<times> action) list" where
  "job_cmds e alloc fresh =
     [(''add'', total (add_job e alloc fresh)), (''modify'', total (modify_job e alloc fresh)),
      (''delete'', total (delete_job alloc fresh)), (''signal'', total (signal_job alloc fresh)),
      (''show'', total (show_job alloc fresh)), (''start'', total (start_job alloc fresh)), (''watch'', watch_job alloc fresh)]"

definition queue_cmds :: "allocator \<Rightarrow> 8 word list \<Rightarrow> (string \<times> action) list" where
  "queue_cmds alloc fresh =
     [(''add'', total (add_queue alloc fresh)), (''modify'', total (modify_queue alloc fresh)),
      (''delete'', total (delete_queue alloc fresh)), (''show'', total (show_queue alloc fresh))]"

definition resource_cmds :: "allocator \<Rightarrow> 8 word list \<Rightarrow> (string \<times> action) list" where
  "resource_cmds alloc fresh =
     [(''add'', total (add_resource alloc fresh)), (''modify'', total (modify_resource alloc fresh)),
      (''delete'', total (delete_resource alloc fresh)), (''show'', total (show_resource alloc fresh))]"

definition agent_cmds :: "allocator \<Rightarrow> 8 word list \<Rightarrow> (string \<times> action) list" where
  "agent_cmds alloc fresh = [(''show'', total (show_agent alloc fresh))]"

definition clear_cmds :: "allocator \<Rightarrow> 8 word list \<Rightarrow> (string \<times> action) list" where
  "clear_cmds alloc fresh = [(''cache'', total (clearcache alloc fresh))]"

definition strncasecmp_eq :: "nat \<Rightarrow> string \<Rightarrow> string \<Rightarrow> bool" where
  "strncasecmp_eq n a b \<longleftrightarrow> map tolower_c (take n a) = map tolower_c (take n b)"

text \<open>
  The first length, from 3 up to that of the word, at which exactly one name of the table agrees
  with the word decides.
\<close>

definition cmd_matches :: "(string \<times> 'f) list \<Rightarrow> string \<Rightarrow> nat \<Rightarrow> (string \<times> 'f) list" where
  "cmd_matches tab w n = filter (\<lambda>(name, _). strncasecmp_eq n name w) tab"

definition select_cmd :: "(string \<times> 'f) list \<Rightarrow> string \<Rightarrow> 'f option" where
  "select_cmd tab w =
     (case filter (\<lambda>n. length (cmd_matches tab w n) = 1) [3..<Suc (length w)] of
        [] \<Rightarrow> None
      | n # _ \<Rightarrow> Some (snd (hd (cmd_matches tab w n))))"

definition run_action :: "(string \<times> action) list \<Rightarrow> string list \<Rightarrow> api \<Rightarrow> ran option" where
  "run_action tab ws a =
     (case ws of
        [] \<Rightarrow> Some (Returned (1, Err ''No action provided. Expected:'' # map (\<lambda>(n, _). Err (''- '' @ n)) tab) a)
      | w # ws \<Rightarrow>
          (case select_cmd tab w of
             Some f \<Rightarrow> f ws a
           | None \<Rightarrow> Some (Returned (1, [Err (''Unknown action '' @ quoted w @ '' provided'')]) a)))"

definition objects :: "cli_env \<Rightarrow> allocator \<Rightarrow> 8 word list \<Rightarrow> (string \<times> action) list" where
  "objects e alloc fresh =
     [(''job'', run_action (job_cmds e alloc fresh)), (''queue'', run_action (queue_cmds alloc fresh)),
      (''resource'', run_action (resource_cmds alloc fresh)), (''agent'', run_action (agent_cmds alloc fresh)),
      (''clear'', run_action (clear_cmds alloc fresh))]"

text \<open>The words behind the name of the program. The library is left when a command was run.\<close>

definition jers_main :: "cli_env \<Rightarrow> allocator \<Rightarrow> 8 word list \<Rightarrow> string list \<Rightarrow> api \<Rightarrow> ran option" where
  "jers_main e alloc fresh ws a =
     (case ws of
        [] \<Rightarrow> Some (Returned (1, Err ''No object provided. Expected:'' # map (\<lambda>(n, _). Err (''- '' @ n)) (objects e alloc fresh)) a)
      | w # ws \<Rightarrow>
          (case select_cmd (objects e alloc fresh) w of
             Some f \<Rightarrow> map_option (\<lambda>r. bindC r (\<lambda>x a. Returned x (jersFinish a))) (f ws a)
           | None \<Rightarrow> Some (Returned (1, [Err (''Unknown command '' @ quoted w @ '' provided'')]) a)))"

section \<open>Properties\<close>

subsection \<open>Which command a word selects\<close>

definition prefix3 :: "string \<Rightarrow> string" where
  "prefix3 w = map tolower_c (take 3 w)"

lemma strncasecmp_shorter: "strncasecmp_eq n a b \<Longrightarrow> m \<le> n \<Longrightarrow> strncasecmp_eq m a b"
  unfolding strncasecmp_eq_def by (metis min.absorb1 take_map take_take)

lemma prefix3_unique:
  assumes "distinct (map (prefix3 \<circ> fst) tab)" and "x \<in> set tab" and "y \<in> set tab" and "prefix3 (fst x) = prefix3 (fst y)"
  shows "x = y"
  using assms by (auto simp: distinct_map inj_on_def)

lemma distinct_one:
  assumes "set xs = {x}" and "distinct xs"
  shows "xs = [x]"
proof -
  have "length xs = 1" using distinct_card [OF assms(2)] assms(1) by simp
  then obtain y where "xs = [y]" by (auto simp: length_Suc_conv)
  with assms(1) show ?thesis by simp
qed

text \<open>With names that differ in their first three letters those letters alone decide.\<close>

lemma select_cmd_iff:
  assumes "distinct (map (prefix3 \<circ> fst) tab)"
  shows "select_cmd tab w = Some f \<longleftrightarrow> 3 \<le> length w \<and> (\<exists>name. (name, f) \<in> set tab \<and> prefix3 name = prefix3 w)"
proof -
  have m3: "cmd_matches tab w 3 = filter (\<lambda>x. prefix3 (fst x) = prefix3 w) tab"
    unfolding cmd_matches_def strncasecmp_eq_def prefix3_def by (rule filter_cong) (auto split: prod.split)
  have sub: "set (cmd_matches tab w n) \<subseteq> set (cmd_matches tab w 3)" if "3 \<le> n" for n
    unfolding cmd_matches_def using strncasecmp_shorter [OF _ that] by auto
  have dist: "distinct tab" using assms by (simp add: distinct_map)
  show ?thesis
  proof (cases "3 \<le> length w \<and> (\<exists>x \<in> set tab. prefix3 (fst x) = prefix3 w)")
    case True
    then obtain x where x: "x \<in> set tab" "prefix3 (fst x) = prefix3 w" and len: "3 \<le> length w" by blast
    have "y = x" if "y \<in> set tab" "prefix3 (fst y) = prefix3 w" for y
      using prefix3_unique [OF assms that(1) x(1)] that(2) x(2) by simp
    with x have "set (cmd_matches tab w 3) = {x}" unfolding m3 set_filter by blast
    moreover have "distinct (cmd_matches tab w 3)" unfolding m3 using dist by simp
    ultimately have one: "cmd_matches tab w 3 = [x]"
      by (rule distinct_one)
    have "[3..<Suc (length w)] = 3 # [4..<Suc (length w)]" using len by (subst upt_rec) simp
    then have "select_cmd tab w = Some (snd x)" by (simp add: select_cmd_def one)
    moreover have "(\<exists>name. (name, f) \<in> set tab \<and> prefix3 name = prefix3 w) \<longleftrightarrow> f = snd x"
    proof
      assume "\<exists>name. (name, f) \<in> set tab \<and> prefix3 name = prefix3 w"
      then obtain name where n: "(name, f) \<in> set tab" "prefix3 name = prefix3 w" by blast
      with prefix3_unique [OF assms n(1) x(1)] x(2) have "(name, f) = x" by simp
      then show "f = snd x" by auto
    next
      assume "f = snd x"
      with x show "\<exists>name. (name, f) \<in> set tab \<and> prefix3 name = prefix3 w" by (intro exI [of _ "fst x"]) simp
    qed
    ultimately show ?thesis using len by auto
  next
    case False
    have "filter (\<lambda>n. length (cmd_matches tab w n) = 1) [3..<Suc (length w)] = []"
    proof (cases "3 \<le> length w")
      case True
      with False have "cmd_matches tab w 3 = []" unfolding m3 by (auto simp: filter_empty_conv)
      then show ?thesis using sub by (auto simp: filter_empty_conv)
    qed simp
    then have "select_cmd tab w = None" by (simp add: select_cmd_def)
    with False show ?thesis by force
  qed
qed

lemma table_prefixes:
  "distinct (map (prefix3 \<circ> fst) (job_cmds e alloc fresh))" "distinct (map (prefix3 \<circ> fst) (queue_cmds alloc fresh))"
  "distinct (map (prefix3 \<circ> fst) (resource_cmds alloc fresh))" "distinct (map (prefix3 \<circ> fst) (objects e alloc fresh))"
  by (simp_all add: job_cmds_def queue_cmds_def resource_cmds_def objects_def prefix3_def tolower_c_def numeral_3_eq_3)

text \<open>C24. The tool runs the command whose first three letters are those of the word, in either case,
  and looks at nothing behind them: a word of at least three letters selects an object or an
  action exactly when one has the same first three letters, whether the word is an abbreviation
  of its name or another word altogether.\<close>

theorem word_selects_command:
  "(select_cmd (objects e alloc fresh) w = Some f \<longleftrightarrow>
     3 \<le> length w \<and> (\<exists>name. (name, f) \<in> set (objects e alloc fresh) \<and> prefix3 name = prefix3 w)) \<and>
   (select_cmd (job_cmds e alloc fresh) w = Some f \<longleftrightarrow>
     3 \<le> length w \<and> (\<exists>name. (name, f) \<in> set (job_cmds e alloc fresh) \<and> prefix3 name = prefix3 w)) \<and>
   (select_cmd (queue_cmds alloc fresh) w = Some f \<longleftrightarrow>
     3 \<le> length w \<and> (\<exists>name. (name, f) \<in> set (queue_cmds alloc fresh) \<and> prefix3 name = prefix3 w)) \<and>
   (select_cmd (resource_cmds alloc fresh) w = Some f \<longleftrightarrow>
     3 \<le> length w \<and> (\<exists>name. (name, f) \<in> set (resource_cmds alloc fresh) \<and> prefix3 name = prefix3 w))"
  by (intro conjI select_cmd_iff table_prefixes)

lemma select_by_name:
  "distinct (map (prefix3 \<circ> fst) tab) \<Longrightarrow> (name, f) \<in> set tab \<Longrightarrow> prefix3 name = prefix3 w \<Longrightarrow> 3 \<le> length w \<Longrightarrow>
   select_cmd tab w = Some f"
  by (subst select_cmd_iff) auto

text \<open>So a misspelt word deletes jobs.\<close>

lemma delay_deletes: "run_action (job_cmds e alloc fresh) (''delay'' # ws) a = Some (delete_job alloc fresh ws a)"
proof -
  have "select_cmd (job_cmds e alloc fresh) ''delay'' = Some (total (delete_job alloc fresh))"
    by (rule select_by_name [OF table_prefixes(1), of "''delete''"]) (simp_all add: job_cmds_def prefix3_def numeral_3_eq_3)
  then show ?thesis by (simp add: run_action_def total_def)
qed

subsection \<open>A submission as a command line\<close>

text \<open>The options that describe a job, in the order of the table, and its arguments behind \<open>--\<close>.\<close>

definition add_job_opts :: "jersJobAddArg \<Rightarrow> (char \<times> string) list" where
  "add_job_opts j =
     (case ja_name j of None \<Rightarrow> [] | Some s \<Rightarrow> [(CHR ''n'', s)]) @
     (case ja_stdout j of None \<Rightarrow> [] | Some s \<Rightarrow> [(CHR ''o'', s)]) @
     (case ja_stderr j of None \<Rightarrow> [] | Some s \<Rightarrow> [(CHR ''e'', s)]) @
     (case ja_queue j of None \<Rightarrow> [] | Some s \<Rightarrow> [(CHR ''q'', s)]) @
     (if ja_hold j \<noteq> 0 then [(CHR ''h'', [])] else []) @
     [(CHR ''N'', int64tostr (ja_nice j))] @
     [(CHR ''p'', int64tostr (ja_priority j))] @
     (if ja_defer_time j \<noteq> -1 then [(CHR ''d'', CHR ''@'' # int64tostr (ja_defer_time j))] else []) @
     map (\<lambda>(k, v). (CHR ''t'', case v of None \<Rightarrow> k | Some v \<Rightarrow> k @ CHR ''='' # v)) (ja_tags j) @
     map (\<lambda>r. (CHR ''r'', the r)) (ja_resources j) @
     [(CHR ''i'', int64tostr (int32 (int (ja_jobid j))))] @
     map (\<lambda>v. (CHR ''E'', the v)) (ja_envs j) @
     (if ja_flags j \<noteq> 0 then [(CHR ''P'', [])] else [])"

definition opt_words :: "argp_option list \<Rightarrow> char \<times> string \<Rightarrow> string list" where
  "opt_words tab o1 = (if argp_short tab (fst o1) = Some True then [[CHR ''-'', fst o1], snd o1] else [[CHR ''-'', fst o1]])"

definition add_job_words :: "jersJobAddArg \<Rightarrow> string list" where
  "add_job_words j = concat (map (opt_words add_job_options) (add_job_opts j)) @ ''--'' # map the (ja_argv j)"

text \<open>What the options can say: no shell, wrapper, pre and post commands or other user, and at most one tag.\<close>

definition expressible :: "jersJobAddArg \<Rightarrow> bool" where
  "expressible j \<longleftrightarrow>
     ja_argv j \<noteq> [] \<and> None \<notin> set (ja_argv j) \<and> None \<notin> set (ja_resources j) \<and> None \<notin> set (ja_envs j) \<and>
     ja_uid j = 0 \<and> ja_shell j = None \<and> ja_wrapper j = None \<and> ja_pre_cmd j = None \<and> ja_post_cmd j = None \<and>
     ja_hold j \<in> {0, 1} \<and> ja_flags j \<in> {0, 1} \<and> in32 (ja_nice j) \<and> in32 (ja_priority j) \<and> inu32 (int (ja_jobid j)) \<and>
     (ja_defer_time j = -1 \<or> 0 \<le> ja_defer_time j \<and> in64 (ja_defer_time j)) \<and>
     length (ja_tags j) \<le> 1 \<and> (\<forall>(k, v) \<in> set (ja_tags j). CHR ''='' \<notin> set k) \<and>
     ja_env_unset j = (ja_envs j = []) \<and> ja_envs_null j = (ja_envs j = [])"

lemma scan_opt_words:
  assumes "fst o1 \<noteq> CHR ''-''" and "argp_short tab (fst o1) = Some takes" and "takes \<or> snd o1 = []"
  shows "argp_scan tab (opt_words tab o1 @ ws) = with_opts [o1] (argp_scan tab ws)"
  using assms by (cases o1; cases takes) (auto simp: opt_words_def with_opts_def)

definition offered :: "argp_option list \<Rightarrow> char \<times> string \<Rightarrow> bool" where
  "offered tab o1 \<longleftrightarrow> fst o1 \<noteq> CHR ''-'' \<and> (\<exists>takes. argp_short tab (fst o1) = Some takes \<and> (takes \<or> snd o1 = []))"

lemma scan_opts_words:
  "list_all (offered tab) os \<Longrightarrow> argp_scan tab (concat (map (opt_words tab) os) @ ''--'' # ws) = Some (os, ws)"
proof (induction os)
  case (Cons o1 os)
  then obtain takes where "fst o1 \<noteq> CHR ''-''" "argp_short tab (fst o1) = Some takes" "takes \<or> snd o1 = []"
    by (auto simp: offered_def)
  from scan_opt_words [OF this, of "concat (map (opt_words tab) os) @ ''--'' # ws"] Cons show ?case
    by (simp add: with_opts_def)
qed simp

lemma parse_opts_append:
  "parse_opts p (os @ qs) x = (case parse_opts p os x of PGo _ y \<Rightarrow> parse_opts p qs y | r \<Rightarrow> r)"
  by (induction p os x rule: parse_opts.induct) (auto split: parsed.split)

lemma parse_opts_step:
  "parse_opts p os x = PGo True y \<Longrightarrow> parse_opts p qs y = r \<Longrightarrow> parse_opts p (os @ qs) x = r"
  by (simp add: parse_opts_append)

lemma atoi_text: "in32 n \<Longrightarrow> atoi (int64tostr n) = n"
  using atoi_int64tostr [of n "[]"] by (simp add: in32_def)

definition submission :: "jersJobAddArg \<Rightarrow> add_job_args" where
  "submission j = \<lparr>aja_verbose = False, aja_add = j\<rparr>"

lemma parse_texts:
  "ja_name k = None \<Longrightarrow> parse_opts (add_job_parse e) (case v of None \<Rightarrow> [] | Some s \<Rightarrow> [(CHR ''n'', s)]) (submission k) =
     PGo True (submission (k\<lparr>ja_name := v\<rparr>))"
  "ja_stdout k = None \<Longrightarrow> parse_opts (add_job_parse e) (case v of None \<Rightarrow> [] | Some s \<Rightarrow> [(CHR ''o'', s)]) (submission k) =
     PGo True (submission (k\<lparr>ja_stdout := v\<rparr>))"
  "ja_stderr k = None \<Longrightarrow> parse_opts (add_job_parse e) (case v of None \<Rightarrow> [] | Some s \<Rightarrow> [(CHR ''e'', s)]) (submission k) =
     PGo True (submission (k\<lparr>ja_stderr := v\<rparr>))"
  "ja_queue k = None \<Longrightarrow> parse_opts (add_job_parse e) (case v of None \<Rightarrow> [] | Some s \<Rightarrow> [(CHR ''q'', s)]) (submission k) =
     PGo True (submission (k\<lparr>ja_queue := v\<rparr>))"
  by (cases k; cases v; simp add: submission_def add_job_parse_def)+

lemma parse_flags:
  "ja_hold k = 0 \<Longrightarrow> v \<in> {0, 1} \<Longrightarrow> parse_opts (add_job_parse e) (if v \<noteq> 0 then [(CHR ''h'', [])] else []) (submission k) =
     PGo True (submission (k\<lparr>ja_hold := v\<rparr>))"
  "ja_flags k = 0 \<Longrightarrow> v \<in> {0, 1} \<Longrightarrow> parse_opts (add_job_parse e) (if v \<noteq> 0 then [(CHR ''P'', [])] else []) (submission k) =
     PGo True (submission (k\<lparr>ja_flags := v\<rparr>))"
  by (cases k; auto simp: submission_def add_job_parse_def)+

lemma parse_numbers:
  "in32 v \<Longrightarrow> parse_opts (add_job_parse e) [(CHR ''N'', int64tostr v)] (submission k) = PGo True (submission (k\<lparr>ja_nice := v\<rparr>))"
  "in32 v \<Longrightarrow> parse_opts (add_job_parse e) [(CHR ''p'', int64tostr v)] (submission k) = PGo True (submission (k\<lparr>ja_priority := v\<rparr>))"
  "inu32 (int n) \<Longrightarrow> parse_opts (add_job_parse e) [(CHR ''i'', int64tostr (int32 (int n)))] (submission k) =
     PGo True (submission (k\<lparr>ja_jobid := n\<rparr>))"
  by (simp_all add: submission_def add_job_parse_def atoi_text in32_int32 uint32_int32)

lemma parse_defer:
  assumes "ja_defer_time k = -1" and "v = -1 \<or> 0 \<le> v \<and> in64 v"
  shows "parse_opts (add_job_parse e) (if v \<noteq> -1 then [(CHR ''d'', CHR ''@'' # int64tostr v)] else []) (submission k) =
    PGo True (submission (k\<lparr>ja_defer_time := v\<rparr>))"
proof (cases "v = -1")
  case True
  then show ?thesis using assms(1) by (cases k) (simp add: submission_def)
next
  case False
  then have "getDeferTime e (CHR ''@'' # int64tostr v) = v" using assms(2) by (simp add: getDeferTime_def atol_text)
  with False assms(2) show ?thesis by (simp add: submission_def add_job_parse_def)
qed

lemma parse_tag:
  assumes "ja_tags k = []" and "length ts \<le> 1" and "\<forall>(n, v) \<in> set ts. CHR ''='' \<notin> set n"
  shows "parse_opts (add_job_parse e) (map (\<lambda>(n, v). (CHR ''t'', case v of None \<Rightarrow> n | Some v \<Rightarrow> n @ CHR ''='' # v)) ts) (submission k) =
    PGo True (submission (k\<lparr>ja_tags := ts\<rparr>))"
proof (cases ts)
  case Nil
  then show ?thesis using assms(1) by (cases k) (simp add: submission_def)
next
  case (Cons t us)
  with assms(2) obtain n v where t: "ts = [(n, v)]" by (cases t) simp
  then have n: "\<forall>c \<in> set n. c \<noteq> CHR ''=''" using assms(3) by auto
  have "addTag [] (case v of None \<Rightarrow> n | Some v \<Rightarrow> n @ CHR ''='' # v) = Inr [(n, v)]"
  proof (cases v)
    case None
    have d: "takeWhile (\<lambda>c. c \<noteq> CHR ''='') n = n" "dropWhile (\<lambda>c. c \<noteq> CHR ''='') n = []" using n by simp_all
    show ?thesis unfolding addTag_def None option.case d by simp
  next
    case (Some u)
    have "takeWhile (\<lambda>c. c \<noteq> CHR ''='') (n @ CHR ''='' # u) = n" "dropWhile (\<lambda>c. c \<noteq> CHR ''='') (n @ CHR ''='' # u) = CHR ''='' # u"
      using n split_at_char [of "CHR ''=''" n u] by auto
    with Some show ?thesis by (simp add: addTag_def)
  qed
  with t assms(1) show ?thesis by (simp add: submission_def add_job_parse_def)
qed

lemma parse_lists:
  "None \<notin> set rs \<Longrightarrow> parse_opts (add_job_parse e) (map (\<lambda>r. (CHR ''r'', the r)) rs) (submission k) =
     PGo True (submission (k\<lparr>ja_resources := ja_resources k @ rs\<rparr>))"
  "None \<notin> set rs \<Longrightarrow> parse_opts (add_job_parse e) (map (\<lambda>v. (CHR ''E'', the v)) rs) (submission k) =
     PGo True (submission (if rs = [] then k else k\<lparr>ja_envs := ja_envs k @ rs, ja_env_unset := False, ja_envs_null := False\<rparr>))"
proof -
  show "None \<notin> set rs \<Longrightarrow> parse_opts (add_job_parse e) (map (\<lambda>r. (CHR ''r'', the r)) rs) (submission k) =
     PGo True (submission (k\<lparr>ja_resources := ja_resources k @ rs\<rparr>))"
  proof (induction rs arbitrary: k)
    case (Cons r rs)
    then obtain s where "r = Some s" by (cases r) auto
    with Cons.IH [of "k\<lparr>ja_resources := ja_resources k @ [r]\<rparr>"] Cons.prems show ?case
      by (simp add: submission_def add_job_parse_def addResource_def)
  qed (cases k, simp add: submission_def)
  show "None \<notin> set rs \<Longrightarrow> parse_opts (add_job_parse e) (map (\<lambda>v. (CHR ''E'', the v)) rs) (submission k) =
     PGo True (submission (if rs = [] then k else k\<lparr>ja_envs := ja_envs k @ rs, ja_env_unset := False, ja_envs_null := False\<rparr>))"
  proof (induction rs arbitrary: k)
    case (Cons r rs)
    then obtain s where "r = Some s" by (cases r) auto
    with Cons.IH [of "k\<lparr>ja_envs := ja_envs k @ [r], ja_env_unset := False, ja_envs_null := False\<rparr>"] Cons.prems show ?case
      by (simp add: submission_def add_job_parse_def addEnv_def)
  qed simp
qed

lemma parse_add_job_opts:
  assumes "expressible j"
  shows "parse_opts (add_job_parse e) (add_job_opts j) (submission jersInitJobAdd) = PGo True (submission (j\<lparr>ja_argv := []\<rparr>))"
proof -
  have j: "None \<notin> set (ja_resources j)" "None \<notin> set (ja_envs j)" "ja_hold j \<in> {0, 1}" "ja_flags j \<in> {0, 1}" "in32 (ja_nice j)"
    "in32 (ja_priority j)" "inu32 (int (ja_jobid j))" "ja_defer_time j = -1 \<or> 0 \<le> ja_defer_time j \<and> in64 (ja_defer_time j)"
    "length (ja_tags j) \<le> 1" "\<forall>(k, v) \<in> set (ja_tags j). CHR ''='' \<notin> set k"
    using assms unfolding expressible_def by blast+
  note init = jersInitJobAdd_def
  show ?thesis
    unfolding add_job_opts_def
  proof (rule parse_opts_step [OF parse_texts(1)], simp add: init, rule parse_opts_step [OF parse_texts(2)], simp add: init,
      rule parse_opts_step [OF parse_texts(3)], simp add: init, rule parse_opts_step [OF parse_texts(4)], simp add: init,
      rule parse_opts_step [OF parse_flags(1)], simp add: init, rule j(3), rule parse_opts_step [OF parse_numbers(1)], rule j(5),
      rule parse_opts_step [OF parse_numbers(2)], rule j(6), rule parse_opts_step [OF parse_defer], simp add: init, rule j(8),
      rule parse_opts_step [OF parse_tag], simp add: init, rule j(9), rule j(10), rule parse_opts_step [OF parse_lists(1)], rule j(1),
      rule parse_opts_step [OF parse_numbers(3)], rule j(7), rule parse_opts_step [OF parse_lists(2)], rule j(2),
      rule trans [OF parse_flags(2)], simp add: init, rule j(4))
  qed (use assms in \<open>cases j; auto simp: expressible_def init\<close>)
qed

lemma add_job_shorts:
  "offered add_job_options (CHR ''n'', s)" "offered add_job_options (CHR ''o'', s)" "offered add_job_options (CHR ''e'', s)"
  "offered add_job_options (CHR ''q'', s)" "offered add_job_options (CHR ''N'', s)" "offered add_job_options (CHR ''p'', s)"
  "offered add_job_options (CHR ''d'', s)" "offered add_job_options (CHR ''t'', s)" "offered add_job_options (CHR ''r'', s)"
  "offered add_job_options (CHR ''i'', s)" "offered add_job_options (CHR ''E'', s)" "offered add_job_options (CHR ''h'', [])"
  "offered add_job_options (CHR ''P'', [])"
  by (auto simp: offered_def argp_short_def add_job_options_def)

lemma offered_opts: "list_all (offered add_job_options) (add_job_opts j)"
  unfolding add_job_opts_def
  by (simp add: add_job_shorts list.pred_map comp_def split_def list.pred_True split: option.split)


definition demo_line :: "string list" where
  "demo_line = [''job'', ''add'', ''-q'', ''batch'', ''-N'', ''0'', ''-p'', ''100'', ''-t'', ''k=v'', ''-i'', ''9'', ''--'', ''x'']"

definition demo_line_arg :: jersJobAddArg where
  "demo_line_arg = jersInitJobAdd\<lparr>ja_queue := Some ''batch'', ja_priority := 100, ja_tags := [(''k'', Some ''v'')], ja_jobid := 9,
     ja_argv := [Some ''x'']\<rparr>"


subsection \<open>Doing something to each argument\<close>

definition is_err :: "cli_out \<Rightarrow> bool" where
  "is_err o1 \<longleftrightarrow> (case o1 of Err _ \<Rightarrow> True | _ \<Rightarrow> False)"

lemma is_err_simps [simp]: "is_err (Err t)" "\<not> is_err (Out t)"
  by (simp_all add: is_err_def)

text \<open>A failure does not stop the loop: there is one line for every argument, and the status is 1 exactly when one reports an error.\<close>

lemma each_reports:
  assumes "\<And>x. \<exists>t. done x = [Out t]"
  shows "each call done bad xs (rc, out) a = Returned (rc', out') a' \<Longrightarrow>
    \<exists>new. out' = out @ new \<and> length new = length xs \<and> rc' = (if list_ex is_err new then 1 else rc)"
proof (induction xs arbitrary: rc out a)
  case (Cons x xs)
  obtain res b where call: "call x a = Returned res b"
    using Cons.prems by (cases "call x a") (simp_all add: bindC_def)
  obtain t where t: "done x = [Out t]" using assms by blast
  let ?line = "if res \<noteq> 0 then Err (bad x @ '': '' @ err_str b) else Out t"
  have "each call done bad xs (if res \<noteq> 0 then 1 else rc, out @ [?line]) b = Returned (rc', out') a'"
    using Cons.prems call t by (simp add: bindC_def split: if_splits)
  from Cons.IH [OF this] obtain new where "out' = (out @ [?line]) @ new" "length new = length xs"
    "rc' = (if list_ex is_err new then 1 else if res \<noteq> 0 then 1 else rc)"
    by blast
  then show ?case by (intro exI [of _ "?line # new"]) auto
qed simp

subsection \<open>The listing of the jobs\<close>

text \<open>Jobs whose numbers are small enough for their differences to fit an \<open>int\<close>.\<close>

definition listed :: "jersJob \<Rightarrow> bool" where
  "listed j \<longleftrightarrow> 0 \<le> jj_state j \<and> jj_state j < 2 ^ 30 \<and> 0 \<le> jj_defer_time j \<and> jj_defer_time j < 2 ^ 31 \<and>
     - (2 ^ 30) \<le> jj_priority j \<and> jj_priority j < 2 ^ 30 \<and> jj_jobid j < 2 ^ 31"

definition list_key :: "jersJob \<Rightarrow> int list" where
  "list_key j = [jj_state j, if jj_state j = 4 then jj_defer_time j else 0, jj_priority j, int (jj_jobid j)]"

definition key_diff :: "int list \<Rightarrow> int list \<Rightarrow> int" where
  "key_diff xs ys = (case filter (\<lambda>d. d \<noteq> 0) (map (\<lambda>(x, y). x - y) (zip xs ys)) of [] \<Rightarrow> 0 | d # _ \<Rightarrow> d)"

lemma jobSort_key: "listed a \<Longrightarrow> listed b \<Longrightarrow> jobSort a b = key_diff (list_key a) (list_key b)"
proof -
  assume ab: "listed a" "listed b"
  then have "int32 (jj_state a - jj_state b) = jj_state a - jj_state b" "int32 (jj_defer_time a - jj_defer_time b) = jj_defer_time a - jj_defer_time b"
    "int32 (jj_priority a - jj_priority b) = jj_priority a - jj_priority b" "int32 (int (jj_jobid a) - int (jj_jobid b)) = int (jj_jobid a) - int (jj_jobid b)"
    by (simp_all add: listed_def cint_id)
  then show ?thesis by (auto simp: jobSort_def key_diff_def list_key_def Let_def)
qed

interpretation listing: comparator listed jobSort
proof
  fix x y assume "listed x" "listed y"
  then show "jobSort x y < 0 \<longleftrightarrow> 0 < jobSort y x"
    by (simp add: jobSort_key) (auto simp: key_diff_def list_key_def)
next
  fix x y z assume "listed x" "listed y" "listed z" "jobSort x y \<le> 0" "jobSort y z \<le> 0"
  then show "jobSort x z \<le> 0"
    by (simp add: jobSort_key) (auto simp: key_diff_def list_key_def split: if_splits)
qed

text \<open>The listing of \<open>jers job show\<close> has the jobs the daemon reports, ordered by state, by the time
  a deferred job waits for, by priority and by id.\<close>

lemma job_listing:
  assumes "jersGetJob alloc fresh 0 None a = Returned (0, Some js) a'" and "\<forall>j \<in> set js. listed j"
  shows "\<exists>ks. show_job alloc fresh [] a = Returned (0, map (\<lambda>j. ShowJob j False) ks) a' \<and> mset ks = mset js \<and>
    sorted_wrt (\<lambda>i j. key_diff (list_key i) (list_key j) \<le> 0) ks"
proof (intro exI conjI)
  show "show_job alloc fresh [] a = Returned (0, map (\<lambda>j. ShowJob j False) (qsort jobSort js)) a'"
    using assms(1) by (simp add: show_job_def parse_args_def argp_parse_def bindC_def)
  show "mset (qsort jobSort js) = mset js" by simp
  have "set (qsort jobSort js) = set js" by (metis mset_eq_setD mset_qsort)
  with assms(2) listing.sorted_qsort [OF assms(2)]
  show "sorted_wrt (\<lambda>i j. key_diff (list_key i) (list_key j) \<le> 0) (qsort jobSort js)"
    by (auto elim!: sorted_wrt_mono_rel [rotated] simp: jobSort_key)
qed

subsection \<open>Command lines that crash the tool\<close>

lemma second_tag_overflows:
  "add_job e alloc fresh ([''-t'', t, ''-t'', u] @ ''--'' # ws) a = Crashed Overflow"
proof -
  have "argp_scan add_job_options ([''-t'', t, ''-t'', u] @ ''--'' # ws) = Some ([(CHR ''t'', t), (CHR ''t'', u)], ws)"
    using scan_opts_words [of add_job_options "[(CHR ''t'', t), (CHR ''t'', u)]" ws]
    by (simp add: add_job_shorts opt_words_def) (simp add: argp_short_def add_job_options_def)
  then show ?thesis
    by (simp add: add_job_def parse_args_def argp_parse_def add_job_parse_def addTag_def jersInitJobAdd_def Let_def)
qed

lemma missing_arguments_crash:
  "delete_job alloc fresh [] a = Crashed NullPointer" "signal_job alloc fresh [] a = Crashed NullPointer"
  "start_job alloc fresh [] a = Crashed NullPointer" "modify_job e alloc fresh [] a = Crashed NullPointer"
  "delete_resource alloc fresh [] a = Crashed NullPointer" "modify_resource alloc fresh [] a = Crashed NullPointer"
  "show_resource alloc fresh [''-v''] a = Crashed NullPointer"
  by (simp_all add: delete_job_def signal_job_def start_job_def modify_job_def delete_resource_def modify_resource_def
      show_resource_def parse_args_def argp_parse_def each_job_def verbose_only_def argp_short_def with_opts_def
      show_resource_parse_def names_parse_def)

end
