(* ===== verification/Spec2Isabelle.thy ===== *)
theory Spec2Isabelle
  imports Client Agent_Invariant Agent_Protocol Acct Cli
begin

text \<open>
  A verification development for jers, a job scheduler for Unix hosts.

  \<^bold>\<open>The program.\<close> The daemon \<open>jersd\<close> keeps jobs, queues and resources in memory. Clients send
  it requests as lines of JSON, agents on the hosts send it messages in the same format. Its event
  loop (\<open>event.c\<close>) reads the streams, splits them into lines, loads each line into a message
  (\<open>fields.c\<close>, \<open>json.c\<close>), finds the command in a sorted table, checks the permission of the client
  and runs the handler (\<open>commands.c\<close>, \<open>command_job.c\<close>, \<open>command_queue.c\<close>, \<open>command_resource.c\<close>,
  \<open>command_agent.c\<close>). A scheduling pass (\<open>sched.c\<close>) releases deferred jobs, orders the pending
  ones and sends those to the agents that limits and resources admit. Every change of a job's state
  goes through \<open>changeJobState\<close> (\<open>state.c\<close>), which keeps the counters. Update commands are
  journalled; a background save writes dirty objects to state files, and after a restart the files
  are loaded and the rest of the journal is replayed.

  \<^bold>\<open>The theories\<close>, each above the ones it uses; source files are those under \<open>src/src\<close>.
  \<^item> \<open>Prelude\<close>: C integers as integers reduced to a width (\<open>cint\<close>, \<open>cuint\<close>), flag words, hash
    tables of \<open>deps/uthash.h\<close> as entry lists under the locale \<open>hash_table\<close>, \<open>qsort\<close> and \<open>bsearch\<close>
    under the locale \<open>comparator\<close>.
  \<^item> \<open>Common\<close>: \<open>common.c\<close>. \<open>Buffer\<close>: \<open>buffer.c\<close>, with the allocator as a parameter.
    \<open>Field_Table\<close>, \<open>Json\<close>, \<open>Message\<close>, \<open>Wire\<close>: \<open>fields.c\<close> and \<open>json.c\<close>, and the round trip of
    a request through the writers and the reader.
  \<^item> \<open>Server\<close>: the structures of \<open>server.h\<close>, the counters, \<open>changeJobState\<close>. \<open>Resource\<close>, \<open>Queue\<close>,
    \<open>Jobs\<close>, \<open>Sched\<close>: \<open>resource.c\<close>, \<open>queue.c\<close>, \<open>jobs.c\<close> with \<open>tags.c\<close>, \<open>sched.c\<close>.
  \<^item> \<open>Invariant\<close>: the invariant \<open>daemon_ok\<close> and its preservation by the operations above.
  \<^item> \<open>Commands\<close>, \<open>Command_Job\<close>, \<open>Command_Queue\<close>, \<open>Command_Resource\<close>, \<open>Command_Agent\<close>,
    \<open>Dispatch\<close>: the command files, the tables of commands, running and replaying a command.
  \<^item> \<open>Isolation\<close>: what a client may change. \<open>Robustness\<close>: requests that stop the daemon.
    \<open>Daemon\<close>: the invariant through scheduler, agents and clean-up.
  \<^item> \<open>Events\<close>: \<open>event.c\<close>, \<open>client.c\<close>.
  \<^item> \<open>State_File\<close>, \<open>Journal\<close>, \<open>Background_Save\<close>: the state files, the journal and the background
    save of \<open>state.c\<close>. \<open>Recovery\<close>: how \<open>jersd.c\<close> starts the daemon from them. \<open>Config\<close>:
    \<open>config.c\<close> and the files and random bytes of \<open>auth.c\<close>.
  \<^item> \<open>System\<close>: the daemon as a transition system.
  \<^item> \<open>Response\<close>: the replies as text, written by \<open>commands.c\<close> and read by the loader of
    \<open>fields.c\<close>. \<open>Typing\<close>: the types of the fields of a loaded message.
  \<^item> \<open>Api\<close>: the client library \<open>api.c\<close>: its connection, the request each function writes, the
    loops around \<open>send\<close> and \<open>recv\<close>, and how it reads the reply. \<open>Client\<close>: the library and the
    daemon together.
  \<^item> \<open>Users\<close>: the user cache of \<open>common.c\<close>. \<open>Agent_Job\<close>: the process the agent forks for a job
    (\<open>jersRunJob\<close> and its helpers). \<open>Agentd\<close>: the agent daemon \<open>jers_agentd.c\<close> and \<open>proxy.c\<close>.
    \<open>Agent_Invariant\<close>: its main loop as a transition system. \<open>Agent_System\<close>: what a pass over its
    children promises, under the locale \<open>job_step\<close>. \<open>Agent_Protocol\<close>: agent and daemon together.
  \<^item> \<open>Acct\<close>: the accounting stream \<open>acct.c\<close>: the clients the daemon keeps, the process it forks
    for each, its requests, its position in the journal and the loop that sends the records.
  \<^item> \<open>Cli\<close>: the command line tool \<open>jers.c\<close> with \<open>jers_cli.c\<close> on top of \<open>Api\<close>.

  \<^bold>\<open>How the model corresponds to the code.\<close> A structure is a record with the members in the order
  of the source, a pointer to an object of a table is its key, a NULL pointer is \<open>None\<close>, a C string
  is the list of its characters. A function keeps its name; a handler returns a fault or an
  \<open>outcome\<close>: its status, its replies, what it leaves for the journal and the new server. Faults are
  a NULL dereference, an access outside an array or buffer, a stale pointer, endless recursion and
  \<open>error_die\<close>. Flag words and states are 32-bit words; other integers are integers that are reduced
  to their width where the code stores a result whose width matters. The time, the user database,
  the allocator, \<open>fnmatch\<close>, the bytes of a socket, the keyed hash and the random nonce are arguments.
  No definition needs fuel: loops are structural recursions or have a termination proof, and
  \<open>getNextJobID\<close>, which need not return, is a \<open>partial_function\<close> with theorems on both outcomes.

  \<^bold>\<open>What is shown.\<close>
  \<^item> Consistency: every state reachable through connections, requests, messages, scheduling,
    clean-ups and background saves has distinct ids, existing queues and counters that equal what they count. Two guards
    are part of the step relation because the code does not check them: a message of an agent names
    no deleted job, and a deleted queue is replaced or removed only when nothing refers to it.
  \<^item> Security: a request has an effect only with the permission its command requires, and a user
    without the write permission changes no job of another user.
  \<^item> Scheduling: only eligible jobs are started, in the order of priority, within the limits of the
    queues and, but for one job, of the system; resources are never over-committed by the pass.
  \<^item> Streams: the input of a client refines a queue of lines; a blocked client is answered.
  \<^item> Data: requests, numbers, strings, state files survive being written and read.
  \<^item> Durability: a journalled request is replayed after a restart unless a completed save has marked
    it; a replay runs exactly the records behind the last mark; a failed save loses nothing; what is
    loaded from any configuration and state files is consistent, and after the replay no job counts
    as running.
  \<^item> Messages: every field of a loaded message holds a value of the type its number has in the
    table; a reply survives being written and read.
  \<^item> Client library: a job submitted through the library is the job the daemon creates, whatever
    pieces the sockets deliver; a job read back has the values the daemon reports; a refusal reaches
    the caller as the error the handler raised.
  \<^item> Agent: a job the scheduler starts is the job the agent runs, and its exit code, signal and usage
    are what the daemon stores; the agent drops a job only with its completion in the stream; it
    finds its jobs again after a restart; log files are never lost and the environment of a job fits
    its array. Two ways remain to lose a completion, both theorems: during a reconciliation, and with
    the connection.
  \<^item> Accounting: a client gets the state at the fork and then one update for each record journalled
    since, in order; a stream does not survive the change to the journal of the next day.
  \<^item> Command line: every submission the options can express is submitted as it is; the first three
    letters of a word alone select a command.
  \<^item> Access control: deny rules of the configuration win over allow rules, in any order.
  \<^item> Equivalences: both binary searches find what a scan of their table finds.
  \<^item> Defects the model exhibits, each as a theorem with a concrete instance.

  \<^bold>\<open>Not modelled.\<close> How the command line tool lays out an object on the terminal, its help and its
  verbose messages; the creation of sockets, logging, the process title and the rest of \<open>main\<close>; the
  text of e-mails and of the summary in a job's log; how an orphaned job process reconnects. They
  are terminal output or system calls around the modelled state. The buffering of \<open>stdio\<close> in the
  accounting stream is left out: a read after \<open>fseek\<close> sees the bytes the file has.
\<close>

end
